(* ===== verification/Prelude.thy ===== *)
theory Prelude
  imports Complex_Main "HOL-Library.AList" "HOL-Library.Char_ord" "HOL-Library.List_Lexorder"
    "HOL-Library.Multiset"
begin

text \<open>
  The part of JavaScript that every module of \<open>packages/domain/src\<close> uses: three-way comparators
  and the stable \<open>Array.prototype.sort\<close>, insertion-ordered \<open>Map\<close>, \<open>Set\<close>,
  the short-circuit \<open>||\<close> on comparator results, safe integers, and values of unknown shape.

  A JavaScript string is a sequence of UTF-16 code units; it is a \<open>string\<close> here, so code units
  up to 255 are covered (Norwegian text included), and \<open><\<close> is the code-unit order that
  \<open>List_Lexorder\<close> and \<open>Char_ord\<close> give.
\<close>

named_theorems comparator_intros \<open>rules that build comparators from comparators\<close>
named_theorems schema_simps \<open>characterisations of the schema parsers\<close>

type_synonym 'a cmp = "'a \<Rightarrow> 'a \<Rightarrow> int"

section \<open>Comparators\<close>

definition js_or :: "int \<Rightarrow> int \<Rightarrow> int" where
  "js_or a b = (if a = 0 then b else a)"

definition compareText :: "string \<Rightarrow> string \<Rightarrow> int" where
  "compareText left right = (if left < right then -1 else if left > right then 1 else 0)"

definition compareNumber :: "int \<Rightarrow> int \<Rightarrow> int" where
  "compareNumber left right = (if left < right then -1 else if left > right then 1 else 0)"

fun insert_by :: "'a cmp \<Rightarrow> 'a \<Rightarrow> 'a list \<Rightarrow> 'a list" where
  "insert_by cmp x [] = [x]"
| "insert_by cmp x (y # ys) = (if cmp x y \<le> 0 then x # y # ys else y # insert_by cmp x ys)"

text \<open>\<open>xs.sort(cmp)\<close>: the stable sort ECMAScript prescribes, by insertion.\<close>

fun sort_by :: "'a cmp \<Rightarrow> 'a list \<Rightarrow> 'a list" where
  "sort_by cmp [] = []"
| "sort_by cmp (x # xs) = insert_by cmp x (sort_by cmp xs)"

lemma mset_insert_by [simp]: "mset (insert_by cmp x xs) = add_mset x (mset xs)"
  by (induction xs) auto

lemma mset_sort_by [simp]: "mset (sort_by cmp xs) = mset xs"
  by (induction xs) auto

lemma set_sort_by [simp]: "set (sort_by cmp xs) = set xs"
  by (metis mset_sort_by set_mset_mset)

lemma length_sort_by [simp]: "length (sort_by cmp xs) = length xs"
  by (metis mset_sort_by size_mset)

lemma distinct_sort_by [simp]: "distinct (sort_by cmp xs) = distinct xs"
  by (metis mset_sort_by mset_eq_imp_distinct_iff)

lemma distinct_map_sort_by [simp]: "distinct (map f (sort_by cmp xs)) = distinct (map f xs)"
  by (metis mset_map mset_sort_by mset_eq_imp_distinct_iff)

lemma sort_by_Nil_iff [simp]: "sort_by cmp xs = [] \<longleftrightarrow> xs = []"
  by (metis length_0_conv length_sort_by)

lemma sum_list_sort_by [simp]:
  fixes f :: "'a \<Rightarrow> int"
  shows "sum_list (map f (sort_by cmp xs)) = sum_list (map f xs)"
  by (metis mset_map mset_sort_by sum_mset_sum_list)

text \<open>The contract of a comparator, and what sorting by one guarantees.\<close>

locale comparator =
  fixes cmp :: "'a \<Rightarrow> 'a \<Rightarrow> int"
  assumes cmp_sgn: "sgn (cmp x y) = - sgn (cmp y x)"
    and cmp_trans: "cmp x y \<le> 0 \<Longrightarrow> cmp y z \<le> 0 \<Longrightarrow> cmp x z \<le> 0"
begin

lemma cmp_refl [simp]: "cmp x x = 0"
  using cmp_sgn [of x x] by (simp add: sgn_if split: if_splits)

lemma cmp_total: "\<not> cmp x y \<le> 0 \<Longrightarrow> cmp y x \<le> 0"
  using cmp_sgn [of x y] by (auto simp: sgn_if split: if_splits)

lemma cmp_eq_sym: "cmp x y = 0 \<longleftrightarrow> cmp y x = 0"
  using cmp_sgn [of x y] by (auto simp: sgn_if split: if_splits)

lemma cmp_flip_less: "cmp x y < 0 \<longleftrightarrow> 0 < cmp y x"
  using cmp_sgn [of x y] by (auto simp: sgn_if split: if_splits)

lemma cmp_eq_trans: "cmp x y = 0 \<Longrightarrow> cmp y z = 0 \<Longrightarrow> cmp x z = 0"
  by (metis cmp_eq_sym cmp_flip_less cmp_trans linorder_not_le order.refl order.order_iff_strict)

lemma sorted_insert_by:
  "sorted_wrt (\<lambda>x y. cmp x y \<le> 0) xs \<Longrightarrow> sorted_wrt (\<lambda>x y. cmp x y \<le> 0) (insert_by cmp x xs)"
proof (induction xs)
  case Nil
  then show ?case by simp
next
  case (Cons y ys)
  have "set (insert_by cmp x ys) = insert x (set ys)"
    by (metis mset_insert_by set_mset_add_mset_insert set_mset_mset)
  with Cons show ?case
    by (auto dest: cmp_total intro: cmp_trans)
qed

lemma sorted_sort_by: "sorted_wrt (\<lambda>x y. cmp x y \<le> 0) (sort_by cmp xs)"
  by (induction xs) (auto intro: sorted_insert_by)

lemma sort_by_hd_min:
  assumes "sort_by cmp xs = m # rest" and "x \<in> set xs"
  shows "cmp m x \<le> 0"
proof -
  have "x \<in> set (m # rest)" using assms by (metis set_sort_by)
  then show ?thesis using sorted_sort_by [of xs] assms(1) by auto
qed

lemma insert_by_stable:
  "filter (\<lambda>y. cmp y k = 0) (insert_by cmp x xs) =
     (if cmp x k = 0 then x # filter (\<lambda>y. cmp y k = 0) xs else filter (\<lambda>y. cmp y k = 0) xs)"
proof (induction xs)
  case (Cons y ys)
  have "cmp y k \<noteq> 0" if "cmp x k = 0" "\<not> cmp x y \<le> 0"
    using that by (metis cmp_eq_sym cmp_eq_trans order.refl)
  with Cons show ?case by auto
qed simp

lemma sort_by_stable:
  "filter (\<lambda>y. cmp y k = 0) (sort_by cmp xs) = filter (\<lambda>y. cmp y k = 0) xs"
  by (induction xs) (simp_all add: insert_by_stable)

text \<open>Sorted and stable determine the result: \<open>sort_by\<close> is the only stable sort.\<close>

lemma stable_sorted_unique:
  assumes "sorted_wrt (\<lambda>x y. cmp x y \<le> 0) xs" and "sorted_wrt (\<lambda>x y. cmp x y \<le> 0) ys"
    and "\<And>k. filter (\<lambda>y. cmp y k = 0) xs = filter (\<lambda>y. cmp y k = 0) ys"
  shows "xs = ys"
  using assms
proof (induction xs arbitrary: ys)
  case Nil
  show ?case
  proof (cases ys)
    case (Cons y ys')
    with Nil(3) [of y] show ?thesis by simp
  qed simp
next
  case (Cons x xs)
  have x_in: "x \<in> set ys"
  proof -
    have "x \<in> set (filter (\<lambda>z. cmp z x = 0) (x # xs))" by simp
    then have "x \<in> set (filter (\<lambda>z. cmp z x = 0) ys)" by (simp only: Cons.prems(3))
    then show ?thesis by (simp only: set_filter) blast
  qed
  then obtain y ys' where ys: "ys = y # ys'" by (cases ys) auto
  have y_in: "y \<in> set (x # xs)"
  proof -
    have "y \<in> set (filter (\<lambda>z. cmp z y = 0) ys)" using ys by simp
    then have "y \<in> set (filter (\<lambda>z. cmp z y = 0) (x # xs))" by (simp only: Cons.prems(3))
    then show ?thesis by (simp only: set_filter) blast
  qed
  have "cmp x y \<le> 0" using y_in Cons.prems(1) by auto
  moreover have "cmp y x \<le> 0" using x_in Cons.prems(2) ys by auto
  ultimately have "cmp y x = 0" by (metis cmp_eq_sym cmp_flip_less antisym_conv2 linorder_not_le)
  with Cons.prems(3) [of x] ys have xy: "x = y" by simp
  have "filter (\<lambda>z. cmp z k = 0) xs = filter (\<lambda>z. cmp z k = 0) ys'" for k
    using Cons.prems(3) [of k] ys xy by (simp split: if_splits)
  with Cons.IH [of ys'] Cons.prems ys xy show ?case by simp
qed

lemma stable_sort_is_sort_by:
  assumes "sorted_wrt (\<lambda>x y. cmp x y \<le> 0) ys"
    and "\<And>k. filter (\<lambda>y. cmp y k = 0) ys = filter (\<lambda>y. cmp y k = 0) xs"
  shows "ys = sort_by cmp xs"
proof (rule stable_sorted_unique [OF assms(1) sorted_sort_by])
  show "filter (\<lambda>y. cmp y k = 0) ys = filter (\<lambda>y. cmp y k = 0) (sort_by cmp xs)" for k
    unfolding sort_by_stable by (rule assms(2))
qed

lemma sort_by_sorted_id: "sorted_wrt (\<lambda>x y. cmp x y \<le> 0) xs \<Longrightarrow> sort_by cmp xs = xs"
  by (rule stable_sort_is_sort_by [symmetric]) simp_all

lemma sort_by_again: "sort_by cmp (sort_by cmp xs) = sort_by cmp xs"
  by (rule sort_by_sorted_id [OF sorted_sort_by])

end

lemma comparator_or [comparator_intros]:
  assumes "comparator f" and "comparator g"
  shows "comparator (\<lambda>x y. js_or (f x y) (g x y))"
proof
  show "sgn (js_or (f x y) (g x y)) = - sgn (js_or (f y x) (g y x))" for x y
    using comparator.cmp_sgn [OF assms(1), of x y] comparator.cmp_sgn [OF assms(2), of x y]
    by (auto simp: js_or_def sgn_if split: if_splits)
  show "js_or (f x z) (g x z) \<le> 0"
    if xy: "js_or (f x y) (g x y) \<le> 0" and yz: "js_or (f y z) (g y z) \<le> 0" for x y z
  proof -
    have le: "f x y \<le> 0" "f y z \<le> 0" using xy yz by (auto simp: js_or_def split: if_splits)
    then have xz: "f x z \<le> 0" by (rule comparator.cmp_trans [OF assms(1)])
    show ?thesis
    proof (cases "f x z = 0")
      case True
      then have "f z x \<le> 0" using comparator.cmp_eq_sym [OF assms(1), of x z] by simp
      then have "f z y \<le> 0" "f y x \<le> 0"
        using le by (blast intro: comparator.cmp_trans [OF assms(1)])+
      then have "f x y = 0" "f y z = 0"
        using le comparator.cmp_flip_less [OF assms(1)] by (metis antisym_conv2 linorder_not_le)+
      with xy yz True show ?thesis
        by (simp add: js_or_def) (rule comparator.cmp_trans [OF assms(2)])
    qed (use xz in \<open>simp add: js_or_def\<close>)
  qed
qed

lemma comparator_text_key [comparator_intros]: "comparator (\<lambda>x y. compareText (k x) (k y))"
  by unfold_locales (auto simp: compareText_def split: if_splits)

lemma comparator_text_key_flip [comparator_intros]: "comparator (\<lambda>x y. compareText (k y) (k x))"
  by unfold_locales (auto simp: compareText_def split: if_splits)

lemma comparator_number_key [comparator_intros]: "comparator (\<lambda>x y. compareNumber (k x) (k y))"
  by unfold_locales (auto simp: compareNumber_def split: if_splits)

lemma comparator_number_key_flip [comparator_intros]: "comparator (\<lambda>x y. compareNumber (k y) (k x))"
  by unfold_locales (auto simp: compareNumber_def split: if_splits)

lemma comparator_minus_key [comparator_intros]: "comparator (\<lambda>x y. k x - k y)"
  by unfold_locales (auto simp: sgn_if)

lemma comparator_minus_key_flip [comparator_intros]: "comparator (\<lambda>x y. k y - k x)"
  by unfold_locales (auto simp: sgn_if)

interpretation by_text: comparator compareText
  using comparator_text_key [of "\<lambda>x. x"] by simp

interpretation by_number: comparator compareNumber
  using comparator_number_key [of "\<lambda>x. x"] by simp

lemma compareText_le [simp]: "compareText x y \<le> 0 \<longleftrightarrow> x \<le> y"
  by (auto simp: compareText_def)

lemma compareText_eq [simp]: "compareText x y = 0 \<longleftrightarrow> x = y"
  by (auto simp: compareText_def)

lemma sorted_sort_text: "sorted (sort_by compareText xs)"
  using by_text.sorted_sort_by [of xs] by (simp add: sorted_wrt_iff_nth_less)

text \<open>A sort that tells all its elements apart does not depend on the order they come in.\<close>

lemma sorted_wrt_unique:
  assumes "sorted_wrt R xs" and "sorted_wrt R ys" and "mset xs = mset ys"
    and "\<And>x y. x \<in> set xs \<Longrightarrow> y \<in> set xs \<Longrightarrow> R x y \<Longrightarrow> R y x \<Longrightarrow> x = y"
  shows "xs = ys"
  using assms
proof (induction xs arbitrary: ys)
  case (Cons x xs)
  then obtain y ys' where ys: "ys = y # ys'" by (cases ys) auto
  have sets: "set ys = insert x (set xs)" using mset_eq_setD [OF Cons.prems(3)] by simp
  have "x = y"
  proof (rule ccontr)
    assume neq: "x \<noteq> y"
    have y: "y \<in> set xs" using sets ys neq by auto
    have x: "x \<in> set ys'" using sets ys neq by auto
    have "R x y" "R y x" using Cons.prems(1,2) ys x y by auto
    then show False using Cons.prems(4) [of x y] y neq by simp
  qed
  with Cons ys show ?case by simp
qed simp

lemma sort_by_perm:
  assumes "comparator cmp" and "mset xs = mset ys"
    and "\<And>x y. x \<in> set xs \<Longrightarrow> y \<in> set xs \<Longrightarrow> cmp x y = 0 \<Longrightarrow> x = y"
  shows "sort_by cmp xs = sort_by cmp ys"
proof (rule sorted_wrt_unique [of "\<lambda>x y. cmp x y \<le> 0"])
  show "x = y" if "x \<in> set (sort_by cmp xs)" "y \<in> set (sort_by cmp xs)" "cmp x y \<le> 0" "cmp y x \<le> 0" for x y
  proof -
    have "cmp x y = 0" using that(3,4) comparator.cmp_flip_less [OF assms(1), of x y] comparator.cmp_flip_less [OF assms(1), of y x] by linarith
    then show ?thesis using assms(3) that(1,2) by simp
  qed
qed (simp_all add: comparator.sorted_sort_by [OF assms(1)] assms(2))

lemma sort_by_map: "sort_by cmp (map f xs) = map f (sort_by (\<lambda>x y. cmp (f x) (f y)) xs)"
proof -
  have "insert_by cmp (f x) (map f ys) = map f (insert_by (\<lambda>x y. cmp (f x) (f y)) x ys)" for x ys
    by (induction ys) auto
  then show ?thesis by (induction xs) auto
qed

lemma sort_by_cong:
  assumes "\<And>x y. x \<in> set xs \<Longrightarrow> y \<in> set xs \<Longrightarrow> cmp x y = cmp' x y"
  shows "sort_by cmp xs = sort_by cmp' xs"
proof -
  have insert: "insert_by cmp x ys = insert_by cmp' x ys" if "\<And>y. y \<in> set ys \<Longrightarrow> cmp x y = cmp' x y" for x ys
    using that by (induction ys) auto
  show ?thesis using assms by (induction xs) (auto intro!: insert)
qed

lemma js_or_0: "js_or a b = 0 \<longleftrightarrow> a = 0 \<and> b = 0"
  by (simp add: js_or_def)

text \<open>\<open>xs.sort(cmp)[0]\<close>, undefined on the empty array.\<close>

definition first_by :: "'a cmp \<Rightarrow> 'a list \<Rightarrow> 'a option" where
  "first_by cmp xs = (case sort_by cmp xs of [] \<Rightarrow> None | m # _ \<Rightarrow> Some m)"

lemma first_by_None [simp]: "first_by cmp xs = None \<longleftrightarrow> xs = []"
  by (simp add: first_by_def split: list.split) (metis sort_by_Nil_iff list.distinct(1))

lemma first_by_Nil [simp]: "first_by cmp [] = None"
  by simp

lemma first_by_in: "first_by cmp xs = Some m \<Longrightarrow> m \<in> set xs"
  by (auto simp: first_by_def split: list.splits) (metis list.set_intros(1) set_sort_by)

lemma first_by_min: "comparator cmp \<Longrightarrow> first_by cmp xs = Some m \<Longrightarrow> x \<in> set xs \<Longrightarrow> cmp m x \<le> 0"
  by (auto simp: first_by_def split: list.splits intro: comparator.sort_by_hd_min)


section \<open>Map, Set and arrays\<close>

text \<open>
  A JavaScript \<open>Map\<close> keeps its keys in insertion order, and \<open>set\<close> on a present key replaces
  the value in place: an association list under \<open>AList.update\<close>. The contract its clients use:
\<close>

locale keyed_store =
  fixes empty :: 'm
    and put :: "'k \<Rightarrow> 'v \<Rightarrow> 'm \<Rightarrow> 'm"
    and get :: "'m \<Rightarrow> 'k \<Rightarrow> 'v option"
    and keys :: "'m \<Rightarrow> 'k list"
  assumes get_empty: "get empty k = None"
    and get_put: "get (put k v m) k' = (if k' = k then Some v else get m k')"
    and keys_empty: "keys empty = []"
    and keys_put: "keys (put k v m) = (if k \<in> set (keys m) then keys m else keys m @ [k])"
begin

lemma get_fold: "get (fold (\<lambda>(k, v). put k v) es m) k' = map_of (rev es @ map (\<lambda>k. (k, the (get m k))) [k \<leftarrow> [k']. get m k \<noteq> None]) k'"
  by (induction es arbitrary: m) (auto simp: get_put map_add_def split: option.splits)

lemma get_fold_empty: "get (fold (\<lambda>(k, v). put k v) es empty) k' = map_of (rev es) k'"
  by (simp add: get_fold get_empty)

lemma set_keys_fold: "set (keys (fold (\<lambda>(k, v). put k v) es m)) = set (keys m) \<union> fst ` set es"
  by (induction es arbitrary: m) (auto simp: keys_put split: if_splits)

lemma distinct_keys_fold: "distinct (keys m) \<Longrightarrow> distinct (keys (fold (\<lambda>(k, v). put k v) es m))"
  by (induction es arbitrary: m) (auto simp: keys_put)

end

interpretation js_map: keyed_store "[]" AList.update map_of "map fst"
  by unfold_locales (auto simp: update_conv' update_keys)

definition newMap :: "('k \<times> 'v) list \<Rightarrow> ('k \<times> 'v) list" where
  "newMap entries = fold (\<lambda>(k, v). AList.update k v) entries []"

lemma map_of_newMap: "map_of (newMap es) k = map_of (rev es) k"
  unfolding newMap_def by (rule js_map.get_fold_empty)

lemma distinct_newMap: "distinct (map fst (newMap es))"
  unfolding newMap_def by (rule js_map.distinct_keys_fold) simp

lemma keys_newMap: "fst ` set (newMap es) = fst ` set es"
  using js_map.set_keys_fold [of es "[]"] by (simp add: newMap_def)

lemma map_of_newMap_distinct: "distinct (map fst es) \<Longrightarrow> map_of (newMap es) = map_of es"
  by (rule ext) (metis map_of_newMap map_of_eq_Some_iff distinct_rev rev_map set_rev not_None_eq)

lemma newMap_entry: "(k, v) \<in> set (newMap es) \<Longrightarrow> (k, v) \<in> set es"
  using map_of_newMap [of es k] distinct_newMap [of es]
  by (metis map_of_eq_Some_iff map_of_SomeD set_rev)

lemma update_fresh: "k \<notin> fst ` set m \<Longrightarrow> AList.update k v m = m @ [(k, v)]"
  by (induction m) auto

lemma fold_update_fresh:
  "distinct (map fst (m @ es)) \<Longrightarrow> fold (\<lambda>(k, v). AList.update k v) es m = m @ es"
proof (induction es arbitrary: m)
  case (Cons e es)
  obtain k v where e: "e = (k, v)" by (cases e)
  then have "AList.update k v m = m @ [e]" using Cons.prems by (simp add: update_fresh)
  with Cons.IH [of "m @ [e]"] Cons.prems e show ?case by simp
qed simp

lemma newMap_distinct_id: "distinct (map fst es) \<Longrightarrow> newMap es = es"
  unfolding newMap_def by (subst fold_update_fresh) simp_all

text \<open>\<open>[...new Map(xs.map((x) => [key(x), x])).values()]\<close>: one element per key.\<close>

definition one_per_key :: "('a \<Rightarrow> 'k) \<Rightarrow> 'a list \<Rightarrow> 'a list" where
  "one_per_key k xs = map snd (newMap (map (\<lambda>x. (k x, x)) xs))"

lemma one_per_key_mem: "x \<in> set (one_per_key k xs) \<Longrightarrow> x \<in> set xs"
  by (auto simp: one_per_key_def dest!: newMap_entry)

lemma one_per_key_covers:
  assumes "x \<in> set xs"
  obtains y where "y \<in> set (one_per_key k xs)" "k y = k x"
proof -
  let ?es = "map (\<lambda>x. (k x, x)) xs"
  have "k x \<in> fst ` set (newMap ?es)" using assms by (force simp: keys_newMap)
  then obtain y where y: "(k x, y) \<in> set (newMap ?es)" by auto
  from newMap_entry [OF this] y that show ?thesis by (force simp: one_per_key_def)
qed

lemma one_per_key_distinct: "distinct (map k (one_per_key k xs))"
proof -
  have "map k (one_per_key k xs) = map fst (newMap (map (\<lambda>x. (k x, x)) xs))"
    unfolding one_per_key_def map_map by (rule map_cong) (auto dest!: newMap_entry)
  then show ?thesis by (simp add: distinct_newMap)
qed

text \<open>\<open>[...new Set(xs)]\<close> keeps the first occurrence of each element, in order.\<close>

definition uniq :: "'a list \<Rightarrow> 'a list" where
  "uniq xs = rev (remdups (rev xs))"

lemma set_uniq [simp]: "set (uniq xs) = set xs"
  by (simp add: uniq_def)

lemma distinct_uniq [simp]: "distinct (uniq xs)"
  by (simp add: uniq_def)

lemma length_uniq [simp]: "length (uniq xs) = card (set xs)"
  using distinct_card [of "uniq xs"] by simp

lemma uniq_Nil_iff [simp]: "uniq xs = [] \<longleftrightarrow> xs = []"
  by (simp add: uniq_def)

lemma uniq_id [simp]: "distinct xs \<Longrightarrow> uniq xs = xs"
  by (simp add: uniq_def distinct_remdups_id)

lemma length_uniq_eq: "length (uniq xs) = length xs \<longleftrightarrow> distinct xs"
  by (metis card_distinct distinct_card length_uniq)

text \<open>A value of unknown shape: \<open>Malformed\<close> lacks the shape (the fields and their JavaScript types) a
  schema asks for, \<open>Shaped\<close> has it and is still unchecked.\<close>

datatype 'a unknown = Malformed | Shaped 'a

fun parseUnknown :: "('a \<Rightarrow> 'b option) \<Rightarrow> 'a unknown \<Rightarrow> 'b option" where
  "parseUnknown p Malformed = None"
| "parseUnknown p (Shaped x) = p x"

text \<open>\<open>z.array(schema)\<close> and \<open>schema.optional()\<close>.\<close>

fun parseAll :: "('a \<Rightarrow> 'b option) \<Rightarrow> 'a list \<Rightarrow> 'b list option" where
  "parseAll p [] = Some []"
| "parseAll p (x # xs) =
     (case p x of None \<Rightarrow> None
      | Some y \<Rightarrow> (case parseAll p xs of None \<Rightarrow> None | Some ys \<Rightarrow> Some (y # ys)))"

fun parseOptional :: "('a \<Rightarrow> 'b option) \<Rightarrow> 'a option \<Rightarrow> 'b option option" where
  "parseOptional p None = Some None"
| "parseOptional p (Some x) = (case p x of None \<Rightarrow> None | Some y \<Rightarrow> Some (Some y))"

fun optionally :: "('a \<Rightarrow> bool) \<Rightarrow> 'a option \<Rightarrow> bool" where
  "optionally P None = True"
| "optionally P (Some x) = P x"

lemma parseAll_Some [schema_simps]:
  "parseAll p xs = Some ys \<longleftrightarrow> list_all2 (\<lambda>x y. p x = Some y) xs ys"
proof (induction xs arbitrary: ys)
  case (Cons x xs)
  show ?case
    by (cases ys) (auto simp flip: Cons.IH split: option.splits)
qed auto

lemma parseAll_in: "parseAll p xs = Some ys \<Longrightarrow> y \<in> set ys \<Longrightarrow> \<exists>x \<in> set xs. p x = Some y"
  by (induction xs arbitrary: ys) (auto split: option.splits)

lemma parseAll_id: "(\<And>x. x \<in> set xs \<Longrightarrow> p x = Some x) \<Longrightarrow> parseAll p xs = Some xs"
  by (induction xs) auto

lemma parseAll_idem:
  "parseAll p xs = Some ys \<Longrightarrow> (\<And>x y. x \<in> set xs \<Longrightarrow> p x = Some y \<Longrightarrow> p y = Some y) \<Longrightarrow> parseAll p ys = Some ys"
  by (rule parseAll_id) (auto dest!: parseAll_in)

lemma parseAll_fixed: "parseAll p xs = Some xs \<longleftrightarrow> (\<forall>x \<in> set xs. p x = Some x)"
  by (induction xs) (auto split: option.splits)

lemma parseOptional_idem:
  "parseOptional p x = Some y \<Longrightarrow> (\<And>a b. p a = Some b \<Longrightarrow> p b = Some b) \<Longrightarrow> parseOptional p y = Some y"
  by (cases x; cases y) (auto split: option.splits)

lemma parseAll_length: "parseAll p xs = Some ys \<Longrightarrow> length ys = length xs"
  by (simp add: parseAll_Some list_all2_lengthD)

lemma parseOptional_Some [schema_simps]:
  "parseOptional p x = Some y \<longleftrightarrow> (case x of None \<Rightarrow> y = None | Some a \<Rightarrow> (\<exists>b. p a = Some b \<and> y = Some b))"
  by (cases x) (auto split: option.splits)

lemma mem_map_filter: "y \<in> set (List.map_filter f xs) \<longleftrightarrow> (\<exists>x \<in> set xs. f x = Some y)"
  by (induction xs) (auto simp: List.map_filter_simps split: option.splits)

lemma list_all2_right: "list_all2 P xs ys \<Longrightarrow> y \<in> set ys \<Longrightarrow> \<exists>x \<in> set xs. P x y"
  by (induction xs ys rule: list_all2_induct) auto

lemma list_all2_join:
  assumes "list_all2 P xs ys" and "list_all2 Q xs zs" and "\<And>x y z. x \<in> set xs \<Longrightarrow> P x y \<Longrightarrow> Q x z \<Longrightarrow> R y z"
  shows "list_all2 R ys zs"
  using assms
proof (induction xs ys arbitrary: zs rule: list_all2_induct)
  case (Cons x xs y ys)
  then show ?case by (cases zs) auto
qed simp

lemma split_at_separator:
  "c \<notin> set xs \<Longrightarrow> c \<notin> set xs' \<Longrightarrow> xs @ c # ys = xs' @ c # ys' \<longleftrightarrow> xs = xs' \<and> ys = ys'"
proof (induction xs arbitrary: xs')
  case Nil
  then show ?case by (cases xs') auto
next
  case (Cons x xs)
  then show ?case by (cases xs') auto
qed

lemma split_before_separator:
  assumes "c \<notin> set xs" "c \<notin> set ys" "xs @ r = ys @ s"
    and "case r of [] \<Rightarrow> True | d # _ \<Rightarrow> d = c" "case s of [] \<Rightarrow> True | d # _ \<Rightarrow> d = c"
  shows "r = s"
proof (cases r; cases s)
  show ?thesis if "r = []" "s = []" using that by simp
  show ?thesis if "r = []" "s = d # s'" for d s'
    using that assms by (auto simp: append_eq_conv_conj)
  show ?thesis if "r = d # r'" "s = []" for d r'
    using that assms(2,4) assms(3) [symmetric] by (auto simp: append_eq_conv_conj)
  show ?thesis if "r = d # r'" "s = e # s'" for d r' e s'
    using that assms(3-5) split_at_separator [OF assms(1,2)] by auto
qed

text \<open>Two texts with equally many separators end at the same separator.\<close>

lemma split_at_equal_count:
  assumes "count_list xs c = count_list ys c" and "xs @ c # r = ys @ c # s"
  shows "xs = ys \<and> r = s"
  using assms
proof (induction xs arbitrary: ys)
  case Nil
  then show ?case by (cases ys) auto
next
  case (Cons x xs)
  then show ?case by (cases ys) (auto split: if_splits)
qed

lemma find_SomeD: "find P xs = Some x \<Longrightarrow> x \<in> set xs \<and> P x"
  by (auto simp: find_Some_iff)

lemma find_snoc: "find P (xs @ [x]) = (case find P xs of None \<Rightarrow> (if P x then Some x else None) | Some y \<Rightarrow> Some y)"
  by (induction xs) auto

lemma find_sorted_min:
  assumes "sorted_wrt R xs" and "find P xs = Some x" and "y \<in> set xs" and "P y"
  shows "x = y \<or> R x y"
  using assms by (induction xs) (auto split: if_splits)

definition hasUniqueStrings :: "string list \<Rightarrow> bool" where
  "hasUniqueStrings values \<longleftrightarrow> length (uniq values) = length values"

lemma hasUniqueStrings_iff [simp]: "hasUniqueStrings xs \<longleftrightarrow> distinct xs"
  by (simp only: hasUniqueStrings_def length_uniq_eq)

section \<open>Numbers\<close>

text \<open>
  Every finite JavaScript number is a rational. A field its schema restricts to integers is an
  \<open>int\<close>; a field that may hold a fraction is a \<open>rat\<close>. Products and sums below are exact while they
  stay safe, and rounding is monotone, so \<open>Number.isSafeInteger\<close> of a rounded result agrees with
  the same test on the exact one.
\<close>

definition MAX_SAFE_INTEGER :: int where
  "MAX_SAFE_INTEGER = 9007199254740991"

definition isSafeInt :: "int \<Rightarrow> bool" where
  "isSafeInt x \<longleftrightarrow> \<bar>x\<bar> \<le> MAX_SAFE_INTEGER"

definition isSafeInteger :: "rat \<Rightarrow> bool" where
  "isSafeInteger x \<longleftrightarrow> of_int \<lfloor>x\<rfloor> = x \<and> isSafeInt \<lfloor>x\<rfloor>"

lemma isSafeInteger_of_int [simp]: "isSafeInteger (of_int n) = isSafeInt n"
  by (simp add: isSafeInteger_def)

text \<open>
  The host functions whose results the language leaves to locale data or to number formatting:
  \<open>toLocaleLowerCase("nb-NO")\<close>, \<open>String.prototype.localeCompare\<close> and
  \<open>Number.prototype.toString\<close>. They are arguments of the definitions that use them.
\<close>

record host =
  localeLower :: "string \<Rightarrow> string"
  localeCompare :: "string \<Rightarrow> string \<Rightarrow> int"
  numberText :: "rat \<Rightarrow> string"

section \<open>Dominance\<close>

text \<open>
  \<open>xs.filter(c => !xs.some(o => o !== c && dominates(o, c)))\<close>. An element never dominates
  a structurally equal one, so the reference comparison is an inequality of values.
\<close>

definition nonDominated :: "('a \<Rightarrow> 'a \<Rightarrow> bool) \<Rightarrow> 'a list \<Rightarrow> 'a list" where
  "nonDominated beats xs = filter (\<lambda>c. \<not> list_ex (\<lambda>b. b \<noteq> c \<and> beats b c) xs) xs"

locale dominance =
  fixes beats :: "'a \<Rightarrow> 'a \<Rightarrow> bool"
  assumes beats_irrefl: "\<not> beats x x"
    and beats_trans: "beats x y \<Longrightarrow> beats y z \<Longrightarrow> beats x z"
begin

lemma beats_asym: "beats x y \<Longrightarrow> \<not> beats y x"
  using beats_irrefl beats_trans by blast

lemma nonDominated_iff: "x \<in> set (nonDominated beats xs) \<longleftrightarrow> x \<in> set xs \<and> (\<forall>y \<in> set xs. \<not> beats y x)"
  using beats_irrefl by (auto simp: nonDominated_def list_ex_iff)

lemma nonDominated_covers:
  assumes "x \<in> set xs"
  shows "\<exists>y \<in> set (nonDominated beats xs). y = x \<or> beats y x"
  using assms
proof (induction "card {z \<in> set xs. beats z x}" arbitrary: x rule: less_induct)
  case less
  show ?case
  proof (cases "\<exists>z \<in> set xs. beats z x")
    case False
    with less.prems show ?thesis by (auto simp: nonDominated_iff)
  next
    case True
    then obtain z where z: "z \<in> set xs" "beats z x" by blast
    have "{w \<in> set xs. beats w z} \<subset> {w \<in> set xs. beats w x}"
      using z beats_trans beats_irrefl by blast
    then have "card {w \<in> set xs. beats w z} < card {w \<in> set xs. beats w x}"
      by (intro psubset_card_mono) simp_all
    from less.hyps [OF this z(1)] z(2) show ?thesis by (auto intro: beats_trans)
  qed
qed

lemma nonDominated_idem: "nonDominated beats (nonDominated beats xs) = nonDominated beats xs"
proof -
  have "\<not> list_ex (\<lambda>b. b \<noteq> c \<and> beats b c) (nonDominated beats xs)"
    if "c \<in> set (nonDominated beats xs)" for c
    using that by (auto simp: list_ex_iff nonDominated_iff)
  then show ?thesis
    by (simp add: nonDominated_def [of beats "nonDominated beats xs"])
qed

lemma distinct_nonDominated: "distinct (map f xs) \<Longrightarrow> distinct (map f (nonDominated beats xs))"
  by (simp add: nonDominated_def distinct_map_filter)

end

end
