(* ===== verification/Timestamps.thy ===== *)
theory Timestamps
  imports Prelude
begin

text \<open>
  Time as the domain package sees it: a \<open>Date\<close> is a count of milliseconds or invalid, and a
  canonical timestamp is the 24-character UTC form \<open>YYYY-MM-DDTHH:MM:SS.mmmZ\<close> that
  \<open>canonicalTimestampSchema\<close> (\<open>contract-primitives.ts\<close>) admits. \<open>dateParse\<close> is
  \<open>Date.parse\<close> on canonical timestamps, the only strings the code gives it, and
  \<open>toISOString\<close> is its inverse. The lemmas show that the code may compare canonical
  timestamps as strings, and that it may print an instant and read it back.
\<close>

section \<open>Digits\<close>

definition isDigit :: "char \<Rightarrow> bool" where
  "isDigit c \<longleftrightarrow> CHR ''0'' \<le> c \<and> c \<le> CHR ''9''"

definition digitVal :: "char \<Rightarrow> int" where
  "digitVal c = int (of_char c) - 48"

definition digitChar :: "int \<Rightarrow> char" where
  "digitChar d = char_of (nat (48 + d))"

definition digitsVal :: "string \<Rightarrow> int" where
  "digitsVal ds = foldl (\<lambda>a c. 10 * a + digitVal c) 0 ds"

fun padDigits :: "nat \<Rightarrow> int \<Rightarrow> string" where
  "padDigits 0 n = []"
| "padDigits (Suc k) n = padDigits k (n div 10) @ [digitChar (n mod 10)]"

lemma isDigit_iff: "isDigit c \<longleftrightarrow> 0 \<le> digitVal c \<and> digitVal c \<le> 9"
proof -
  have "isDigit c \<longleftrightarrow> of_char (CHR ''0'') \<le> (of_char c :: nat) \<and> of_char c \<le> (of_char (CHR ''9'') :: nat)"
    by (simp only: isDigit_def less_eq_char_def)
  also have "\<dots> \<longleftrightarrow> 48 \<le> (of_char c :: nat) \<and> of_char c \<le> (57 :: nat)" by simp
  finally show ?thesis by (auto simp: digitVal_def)
qed

lemma digit_less_iff: "c < d \<longleftrightarrow> digitVal c < digitVal d"
  by (simp add: less_char_def digitVal_def)

lemma digit_eq_iff: "digitVal c = digitVal d \<longleftrightarrow> c = d"
  by (simp add: digitVal_def)

lemma digitVal_digitChar: "0 \<le> d \<Longrightarrow> d \<le> 9 \<Longrightarrow> digitVal (digitChar d) = d"
  by (simp add: digitVal_def digitChar_def nat_add_distrib)

lemma digitsVal_append: "digitsVal (xs @ ys) = digitsVal xs * 10 ^ length ys + digitsVal ys"
proof (induction ys rule: rev_induct)
  case (snoc y ys)
  then show ?case by (simp add: digitsVal_def algebra_simps flip: append_assoc)
qed (simp add: digitsVal_def)

lemma digitsVal_Cons: "digitsVal (c # cs) = digitVal c * 10 ^ length cs + digitsVal cs"
  using digitsVal_append [of "[c]" cs] by (simp add: digitsVal_def)

lemma digitsVal_bounds: "list_all isDigit ds \<Longrightarrow> 0 \<le> digitsVal ds \<and> digitsVal ds < 10 ^ length ds"
proof (induction ds)
  case (Cons c cs)
  then have "0 \<le> digitVal c" "digitVal c \<le> 9" and IH: "0 \<le> digitsVal cs" "digitsVal cs < 10 ^ length cs"
    by (auto simp: isDigit_iff)
  then have "0 \<le> digitVal c * 10 ^ length cs" "digitVal c * 10 ^ length cs \<le> 9 * 10 ^ length cs"
    by (auto intro: mult_right_mono)
  with IH have "0 \<le> digitVal c * 10 ^ length cs + digitsVal cs"
    and "digitVal c * 10 ^ length cs + digitsVal cs < 10 * 10 ^ length cs" by linarith+
  then show ?case by (simp add: digitsVal_Cons)
qed (simp add: digitsVal_def)

text \<open>Equally long digit strings compare like the numbers they denote.\<close>

lemma digits_compare:
  "length xs = length ys \<Longrightarrow> list_all isDigit xs \<Longrightarrow> list_all isDigit ys \<Longrightarrow>
     (xs < ys \<longleftrightarrow> digitsVal xs < digitsVal ys) \<and> (xs = ys \<longleftrightarrow> digitsVal xs = digitsVal ys)"
proof (induction xs ys rule: list_induct2)
  case (Cons x xs y ys)
  let ?B = "10 ^ length xs :: int"
  have lt: "digitsVal xs < ?B" "0 \<le> digitsVal xs" "digitsVal ys < ?B" "0 \<le> digitsVal ys"
    using Cons digitsVal_bounds [of xs] digitsVal_bounds [of ys] by simp_all
  consider "digitVal x < digitVal y" | "digitVal x = digitVal y" | "digitVal y < digitVal x" by linarith
  then show ?case
  proof cases
    case 1
    then have "digitVal x * ?B + ?B \<le> digitVal y * ?B"
      by (metis add.commute mult_right_mono distrib_right mult_1 zle_add1_eq_le zless_imp_add1_zle zero_le_numeral zero_le_power)
    with 1 lt Cons show ?thesis
      by (auto simp: digitsVal_Cons digit_less_iff)
  next
    case 2
    with Cons show ?thesis
      by (auto simp: digitsVal_Cons digit_eq_iff)
  next
    case 3
    then have "digitVal y * ?B + ?B \<le> digitVal x * ?B"
      by (metis add.commute mult_right_mono distrib_right mult_1 zle_add1_eq_le zless_imp_add1_zle zero_le_numeral zero_le_power)
    with 3 lt Cons show ?thesis
      by (auto simp: digitsVal_Cons digit_less_iff)
  qed
qed (simp add: digitsVal_def)

lemma length_padDigits [simp]: "length (padDigits k n) = k"
  by (induction k arbitrary: n) auto

lemma padDigits_digits: "list_all isDigit (padDigits k n)"
proof (induction k arbitrary: n)
  case (Suc k)
  have "isDigit (digitChar (n mod 10))"
    using pos_mod_bound [of 10 n] pos_mod_sign [of 10 n] by (simp add: isDigit_iff digitVal_digitChar)
  with Suc show ?case by simp
qed simp

lemma digitsVal_padDigits: "0 \<le> n \<Longrightarrow> n < 10 ^ k \<Longrightarrow> digitsVal (padDigits k n) = n"
proof (induction k arbitrary: n)
  case (Suc k)
  have "digitVal (digitChar (n mod 10)) = n mod 10"
    using pos_mod_bound [of 10 n] pos_mod_sign [of 10 n] by (intro digitVal_digitChar) simp_all
  moreover have "digitsVal (padDigits k (n div 10)) = n div 10"
  proof (rule Suc.IH)
    have "10 * (n div 10) \<le> n" by simp
    with Suc.prems(2) show "n div 10 < 10 ^ k" by simp
  qed (use Suc.prems in \<open>simp add: pos_imp_zdiv_nonneg_iff\<close>)
  ultimately show ?case
    by (simp add: digitsVal_append digitsVal_Cons) (simp add: digitsVal_def)
qed (simp add: digitsVal_def)

lemma lex_append_less:
  fixes xs ys :: "'a::linorder list"
  shows "length xs = length ys \<Longrightarrow> xs @ us < ys @ vs \<longleftrightarrow> xs < ys \<or> xs = ys \<and> us < vs"
  by (induction xs ys rule: list_induct2) auto

section \<open>The calendar\<close>

definition leapYear :: "int \<Rightarrow> bool" where
  "leapYear y \<longleftrightarrow> y mod 4 = 0 \<and> (y mod 100 \<noteq> 0 \<or> y mod 400 = 0)"

definition daysInMonth :: "int \<Rightarrow> int \<Rightarrow> int" where
  "daysInMonth y m =
     (if m = 2 then (if leapYear y then 29 else 28)
      else if m = 4 \<or> m = 6 \<or> m = 9 \<or> m = 11 then 30 else 31)"

definition daysBeforeMonth :: "int \<Rightarrow> int \<Rightarrow> int" where
  "daysBeforeMonth y m =
     (if m \<le> 1 then 0 else if m = 2 then 31
      else (if leapYear y then 1 else 0) +
        (if m = 3 then 59 else if m = 4 then 90 else if m = 5 then 120 else if m = 6 then 151
         else if m = 7 then 181 else if m = 8 then 212 else if m = 9 then 243 else if m = 10 then 273
         else if m = 11 then 304 else if m = 12 then 334 else 365))"

text \<open>Days from 0000-01-01 to the first day of year \<open>y\<close>.\<close>

definition daysBeforeYear :: "int \<Rightarrow> int" where
  "daysBeforeYear y = 365 * y + (y + 3) div 4 - (y + 99) div 100 + (y + 399) div 400"

definition yearOfDay :: "int \<Rightarrow> int" where
  "yearOfDay n =
     (let y = (400 * n) div 146097 in
      if n < daysBeforeYear y then y - 1 else if daysBeforeYear (y + 1) \<le> n then y + 1 else y)"

text \<open>The month of day \<open>r\<close> of a year: the first of \<open>ms\<close> that \<open>r\<close> does not lie beyond.\<close>

fun monthFrom :: "int \<Rightarrow> int \<Rightarrow> int list \<Rightarrow> int" where
  "monthFrom y r [] = 12"
| "monthFrom y r (m # ms) = (if r < daysBeforeMonth y (m + 1) then m else monthFrom y r ms)"

definition monthOfDay :: "int \<Rightarrow> int \<Rightarrow> int" where
  "monthOfDay y r = monthFrom y r [1..11]"

lemma div_range:
  fixes a b :: int
  assumes "0 < b"
  shows "b * (a div b) \<le> a" and "a < b * (a div b) + b"
  using assms mult_div_mod_eq [of b a] pos_mod_bound [of b a] pos_mod_sign [of b a] by linarith+

lemma div_add_one:
  fixes a b :: int
  assumes "0 < b"
  shows "(a + 1) div b = a div b + (if (a + 1) mod b = 0 then 1 else 0)"
proof -
  have a: "a = b * (a div b) + a mod b" by simp
  have r: "0 \<le> a mod b" "a mod b < b" using assms by simp_all
  show ?thesis
  proof (cases "a mod b + 1 = b")
    case True
    then have eq: "a + 1 = b * (a div b + 1)" using a unfolding distrib_left mult_1_right by linarith
    show ?thesis unfolding eq using assms by simp
  next
    case False
    then have r': "0 \<le> a mod b + 1" "a mod b + 1 < b" using r by linarith+
    have eq: "a + 1 = b * (a div b) + (a mod b + 1)" using a by linarith
    have "(a + 1) div b = a div b" by (rule int_div_pos_eq [OF eq r'])
    moreover have "(a + 1) mod b = a mod b + 1" by (rule int_mod_pos_eq [OF eq r'])
    ultimately show ?thesis using r by simp
  qed
qed

lemma div_step:
  fixes b c y :: int
  assumes "0 < b" and "c + 1 = b"
  shows "(y + 1 + c) div b = (y + c) div b + (if y mod b = 0 then 1 else 0)"
proof -
  have eq: "y + c + 1 = y + b" "y + 1 + c = y + c + 1" using assms(2) by simp_all
  show ?thesis using div_add_one [OF assms(1), of "y + c"] unfolding eq by simp
qed

lemma leap_count:
  fixes a b c y :: int
  assumes "q \<longrightarrow> p" and "r \<longrightarrow> q"
  shows "365 * (y + 1) + (a + (if p then 1 else 0)) - (b + (if q then 1 else 0)) + (c + (if r then 1 else 0))
    = 365 * y + a - b + c + (if p \<and> (\<not> q \<or> r) then 366 else 365)"
  using assms by (cases p; cases q; cases r) simp_all

lemma daysBeforeYear_Suc: "daysBeforeYear (y + 1) = daysBeforeYear y + (if leapYear y then 366 else 365)"
proof -
  have dvd: "y mod 100 = 0 \<longrightarrow> y mod 4 = 0" "y mod 400 = 0 \<longrightarrow> y mod 100 = 0"
    using dvd_trans [of 4 100 y] dvd_trans [of 100 400 y] by (simp_all add: mod_eq_0_iff_dvd)
  have "(y + 1 + 3) div 4 = (y + 3) div 4 + (if y mod 4 = 0 then 1 else 0)"
    "(y + 1 + 99) div 100 = (y + 99) div 100 + (if y mod 100 = 0 then 1 else 0)"
    "(y + 1 + 399) div 400 = (y + 399) div 400 + (if y mod 400 = 0 then 1 else 0)"
    by (rule div_step; simp)+
  then show ?thesis
    unfolding daysBeforeYear_def leapYear_def by (simp only: leap_count [OF dvd])
qed

lemma daysBeforeYear_bounds:
  shows daysBeforeYear_lower: "146097 * y \<le> 400 * daysBeforeYear y + 399"
    and daysBeforeYear_upper: "400 * daysBeforeYear y \<le> 146097 * y + 700"
proof -
  define a b c where "a = (y + 3) div 4" and "b = (y + 99) div 100" and "c = (y + 399) div 400"
  have "4 * a \<le> y + 3" "y + 3 < 4 * a + 4" "100 * b \<le> y + 99" "y + 99 < 100 * b + 100"
    "400 * c \<le> y + 399" "y + 399 < 400 * c + 400"
    unfolding a_def b_def c_def by (intro div_range, simp)+
  moreover have "daysBeforeYear y = 365 * y + a - b + c"
    by (simp add: daysBeforeYear_def a_def b_def c_def)
  ultimately show "146097 * y \<le> 400 * daysBeforeYear y + 399" "400 * daysBeforeYear y \<le> 146097 * y + 700"
    by simp_all
qed

lemma yearOfDay_bounds:
  "daysBeforeYear (yearOfDay n) \<le> n" "n < daysBeforeYear (yearOfDay n + 1)"
proof -
  define y where "y = (400 * n) div 146097"
  have y: "146097 * y \<le> 400 * n" "400 * n < 146097 * y + 146097"
    unfolding y_def by (intro div_range, simp)+
  have unfold: "yearOfDay n = (if n < daysBeforeYear y then y - 1
      else if daysBeforeYear (y + 1) \<le> n then y + 1 else y)"
    by (simp add: yearOfDay_def y_def Let_def)
  have below: "400 * daysBeforeYear (y - 1) \<le> 146097 * y - 145397"
    using daysBeforeYear_upper [of "y - 1"] by (simp add: right_diff_distrib)
  have above: "146097 * y + 291795 \<le> 400 * daysBeforeYear (y + 2)"
    using daysBeforeYear_lower [of "y + 2"] by (simp add: distrib_left)
  have two: "y + 1 + 1 = y + 2" by simp
  show "daysBeforeYear (yearOfDay n) \<le> n"
    using y below unfolding unfold by (auto simp: not_less)
  show "n < daysBeforeYear (yearOfDay n + 1)"
    using y above unfolding unfold by (auto simp: not_less two)
qed

lemma daysBeforeYear_mono: "y < y' \<Longrightarrow> daysBeforeYear (y + 1) \<le> daysBeforeYear y'"
proof (induction y' rule: int_gr_induct [of y])
  case (step i)
  then show ?case by (simp add: daysBeforeYear_Suc)
qed simp

lemma month_cases:
  fixes m :: int
  assumes "1 \<le> m" and "m \<le> 12"
  shows "m = 1 \<or> m = 2 \<or> m = 3 \<or> m = 4 \<or> m = 5 \<or> m = 6 \<or> m = 7 \<or> m = 8 \<or> m = 9 \<or> m = 10 \<or> m = 11 \<or> m = 12"
  using assms by arith

lemma daysBeforeMonth_Suc:
  "1 \<le> m \<Longrightarrow> m \<le> 12 \<Longrightarrow> daysBeforeMonth y (m + 1) = daysBeforeMonth y m + daysInMonth y m"
  by (drule (1) month_cases, elim disjE) (simp_all add: daysBeforeMonth_def daysInMonth_def)

lemma daysInMonth_pos: "28 \<le> daysInMonth y m" "daysInMonth y m \<le> 31"
  by (auto simp: daysInMonth_def)

lemma daysBeforeMonth_mono:
  "m < m' \<Longrightarrow> 1 \<le> m \<Longrightarrow> m' \<le> 12 \<Longrightarrow> daysBeforeMonth y m + daysInMonth y m \<le> daysBeforeMonth y m'"
proof (induction m' rule: int_gr_induct [of m])
  case (step i)
  then show ?case using daysBeforeMonth_Suc [of i y] daysInMonth_pos(1) [of y i] by simp
qed (simp add: daysBeforeMonth_Suc)

lemma daysBeforeMonth_end: "daysBeforeMonth y 12 + daysInMonth y 12 = (if leapYear y then 366 else 365)"
  by (simp add: daysBeforeMonth_def daysInMonth_def)

lemma dayOfYear_bounds:
  assumes "1 \<le> m" "m \<le> 12" "1 \<le> d" "d \<le> daysInMonth y m"
  shows "0 \<le> daysBeforeMonth y m + d - 1" "daysBeforeMonth y m + d - 1 < (if leapYear y then 366 else 365)"
proof -
  show "0 \<le> daysBeforeMonth y m + d - 1"
    using month_cases [OF assms(1,2)] assms(3) by (elim disjE) (simp_all add: daysBeforeMonth_def)
  show "daysBeforeMonth y m + d - 1 < (if leapYear y then 366 else 365)"
    using daysBeforeMonth_mono [of m 12 y] daysBeforeMonth_end [of y] daysInMonth_pos(1) [of y 12] assms
    by (cases "m = 12") auto
qed

lemma monthFrom_bounds:
  assumes "1 \<le> m" "m \<le> 12" "daysBeforeMonth y m \<le> r" "r < daysBeforeMonth y 12 + daysInMonth y 12"
  defines "k \<equiv> monthFrom y r [m..11]"
  shows "1 \<le> k \<and> k \<le> 12 \<and> daysBeforeMonth y k \<le> r \<and> r < daysBeforeMonth y k + daysInMonth y k"
  using assms(1-4) unfolding k_def
proof (induction "nat (12 - m)" arbitrary: m)
  case 0
  then have "m = 12" by simp
  with 0 show ?case by simp
next
  case (Suc n)
  show ?case
  proof (cases "r < daysBeforeMonth y (m + 1)")
    case True
    have "m \<le> 11" using Suc.hyps(2) by simp
    with True Suc.prems daysBeforeMonth_Suc [of m y] show ?thesis by (simp add: upto_rec1)
  next
    case False
    have "m \<le> 11" using Suc.hyps(2) by simp
    with False Suc.hyps(1) [of "m + 1"] Suc.hyps(2) Suc.prems show ?thesis by (simp add: upto_rec1)
  qed
qed

lemma monthOfDay_bounds:
  assumes "0 \<le> r" and "r < (if leapYear y then 366 else 365)"
  shows "1 \<le> monthOfDay y r \<and> monthOfDay y r \<le> 12 \<and> daysBeforeMonth y (monthOfDay y r) \<le> r
    \<and> r < daysBeforeMonth y (monthOfDay y r) + daysInMonth y (monthOfDay y r)"
  unfolding monthOfDay_def using assms daysBeforeMonth_end [of y]
  by (intro monthFrom_bounds) (simp_all add: daysBeforeMonth_def)

section \<open>Canonical timestamps\<close>

definition slice :: "nat \<Rightarrow> nat \<Rightarrow> string \<Rightarrow> string" where
  "slice from n s = take n (drop from s)"

definition canonicalTimestamp :: "string \<Rightarrow> bool" where
  "canonicalTimestamp s \<longleftrightarrow>
     length s = 24
     \<and> list_all isDigit (slice 0 4 s) \<and> slice 4 1 s = ''-''
     \<and> list_all isDigit (slice 5 2 s) \<and> slice 7 1 s = ''-''
     \<and> list_all isDigit (slice 8 2 s) \<and> slice 10 1 s = ''T''
     \<and> list_all isDigit (slice 11 2 s) \<and> slice 13 1 s = '':''
     \<and> list_all isDigit (slice 14 2 s) \<and> slice 16 1 s = '':''
     \<and> list_all isDigit (slice 17 2 s) \<and> slice 19 1 s = ''.''
     \<and> list_all isDigit (slice 20 3 s) \<and> slice 23 1 s = ''Z''
     \<and> 1 \<le> digitsVal (slice 5 2 s) \<and> digitsVal (slice 5 2 s) \<le> 12
     \<and> 1 \<le> digitsVal (slice 8 2 s)
     \<and> digitsVal (slice 8 2 s) \<le> daysInMonth (digitsVal (slice 0 4 s)) (digitsVal (slice 5 2 s))
     \<and> digitsVal (slice 11 2 s) \<le> 23
     \<and> digitsVal (slice 14 2 s) \<le> 59
     \<and> digitsVal (slice 17 2 s) \<le> 59"

definition instantMs :: "int \<Rightarrow> int \<Rightarrow> int \<Rightarrow> int \<Rightarrow> int \<Rightarrow> int \<Rightarrow> int \<Rightarrow> int" where
  "instantMs y m d h mi sec ms =
     (daysBeforeYear y + daysBeforeMonth y m + d - 1 - 719528) * 86400000
     + ((h * 60 + mi) * 60 + sec) * 1000 + ms"

text \<open>\<open>Date.parse(s)\<close> for a canonical timestamp.\<close>

definition dateParse :: "string \<Rightarrow> int" where
  "dateParse s = instantMs (digitsVal (slice 0 4 s)) (digitsVal (slice 5 2 s)) (digitsVal (slice 8 2 s))
     (digitsVal (slice 11 2 s)) (digitsVal (slice 14 2 s)) (digitsVal (slice 17 2 s)) (digitsVal (slice 20 3 s))"

text \<open>\<open>new Date(ms).toISOString()\<close>; years outside 0000 to 9999 print with a sign and six digits.\<close>

definition yearText :: "int \<Rightarrow> string" where
  "yearText y = (if 0 \<le> y \<and> y \<le> 9999 then padDigits 4 y
     else (if y < 0 then ''-'' else ''+'') @ padDigits 6 \<bar>y\<bar>)"

definition toISOString :: "int \<Rightarrow> string" where
  "toISOString t =
     (let n = t div 86400000 + 719528; r = t mod 86400000;
          y = yearOfDay n; k = n - daysBeforeYear y; m = monthOfDay y k; d = k - daysBeforeMonth y m + 1
      in yearText y @ ''-'' @ padDigits 2 m @ ''-'' @ padDigits 2 d @ ''T''
         @ padDigits 2 (r div 3600000) @ '':'' @ padDigits 2 (r div 60000 mod 60) @ '':''
         @ padDigits 2 (r div 1000 mod 60) @ ''.'' @ padDigits 3 (r mod 1000) @ ''Z'')"

lemma toISOString_epoch: "toISOString 1784203200123 = ''2026-07-16T12:00:00.123Z''"
  by code_simp

lemma dateParse_example: "dateParse ''2026-07-16T12:00:00.123Z'' = 1784203200123"
  by code_simp

section \<open>Instants are ordered like their timestamps\<close>

definition dayNumber :: "int \<Rightarrow> int \<Rightarrow> int \<Rightarrow> int" where
  "dayNumber y m d = daysBeforeYear y + daysBeforeMonth y m + d - 1"

definition dayTime :: "int \<Rightarrow> int \<Rightarrow> int \<Rightarrow> int \<Rightarrow> int" where
  "dayTime h mi sec ms = ((h * 60 + mi) * 60 + sec) * 1000 + ms"

definition validDate :: "int \<Rightarrow> int \<Rightarrow> int \<Rightarrow> bool" where
  "validDate y m d \<longleftrightarrow> 1 \<le> m \<and> m \<le> 12 \<and> 1 \<le> d \<and> d \<le> daysInMonth y m"

definition validTime :: "int \<Rightarrow> int \<Rightarrow> int \<Rightarrow> int \<Rightarrow> bool" where
  "validTime h mi sec ms \<longleftrightarrow> 0 \<le> h \<and> h \<le> 23 \<and> 0 \<le> mi \<and> mi \<le> 59 \<and> 0 \<le> sec \<and> sec \<le> 59 \<and> 0 \<le> ms \<and> ms \<le> 999"

lemma instantMs_split: "instantMs y m d h mi sec ms = (dayNumber y m d - 719528) * 86400000 + dayTime h mi sec ms"
  by (simp add: instantMs_def dayNumber_def dayTime_def)

lemma dayNumber_less:
  assumes "validDate y m d" and "validDate y' m' d'"
    and "y < y' \<or> y = y' \<and> (m < m' \<or> m = m' \<and> d < d')"
  shows "dayNumber y m d < dayNumber y' m' d'"
proof -
  consider "y < y'" | "y = y'" "m < m'" | "y = y'" "m = m'" "d < d'" using assms(3) by blast
  then show ?thesis
  proof cases
    case 1
    then have "daysBeforeYear (y + 1) \<le> daysBeforeYear y'" by (rule daysBeforeYear_mono)
    then show ?thesis
      using assms dayOfYear_bounds(2) [of m d y] dayOfYear_bounds(1) [of m' d' y']
      by (simp add: dayNumber_def validDate_def daysBeforeYear_Suc)
  next
    case 2
    then show ?thesis
      using assms daysBeforeMonth_mono [of m m' y] by (simp add: dayNumber_def validDate_def)
  qed (simp add: dayNumber_def)
qed

lemma dayTime_less:
  assumes "validTime h mi sec ms" and "validTime h' mi' sec' ms'"
    and "h < h' \<or> h = h' \<and> (mi < mi' \<or> mi = mi' \<and> (sec < sec' \<or> sec = sec' \<and> ms < ms'))"
  shows "dayTime h mi sec ms < dayTime h' mi' sec' ms'"
  using assms by (auto simp: dayTime_def validTime_def)

lemma dayTime_bounds: "validTime h mi sec ms \<Longrightarrow> 0 \<le> dayTime h mi sec ms \<and> dayTime h mi sec ms < 86400000"
  by (auto simp: dayTime_def validTime_def)

lemma instantMs_less:
  assumes "validDate y m d" "validDate y' m' d'" "validTime h mi sec ms" "validTime h' mi' sec' ms'"
    and lex: "y < y' \<or> y = y' \<and> (m < m' \<or> m = m' \<and> (d < d' \<or> d = d' \<and>
      (h < h' \<or> h = h' \<and> (mi < mi' \<or> mi = mi' \<and> (sec < sec' \<or> sec = sec' \<and> ms < ms')))))"
  shows "instantMs y m d h mi sec ms < instantMs y' m' d' h' mi' sec' ms'"
proof (cases "y = y' \<and> m = m' \<and> d = d'")
  case True
  then have "dayTime h mi sec ms < dayTime h' mi' sec' ms'"
    using lex by (intro dayTime_less assms) auto
  with True show ?thesis by (simp add: instantMs_split)
next
  case False
  then have "dayNumber y m d < dayNumber y' m' d'"
    using lex by (intro dayNumber_less assms) auto
  then have "dayNumber y m d + 1 \<le> dayNumber y' m' d'" by simp
  then have "(dayNumber y m d - 719528) * 86400000 + 86400000 \<le> (dayNumber y' m' d' - 719528) * 86400000"
    by simp
  with dayTime_bounds [OF assms(3)] dayTime_bounds [OF assms(4)] show ?thesis
    unfolding instantMs_split by linarith
qed

lemma slice_drop: "slice a n s @ drop (a + n) s = drop a s"
  by (metis slice_def append_take_drop_id drop_drop add.commute)

lemma timestamp_split:
  assumes "canonicalTimestamp s"
  shows "s = slice 0 4 s @ ''-'' @ slice 5 2 s @ ''-'' @ slice 8 2 s @ ''T'' @ slice 11 2 s @ '':''
    @ slice 14 2 s @ '':'' @ slice 17 2 s @ ''.'' @ slice 20 3 s @ ''Z''"
proof -
  have "drop 24 s = []" using assms by (simp add: canonicalTimestamp_def)
  then have "drop 0 s = slice 0 4 s @ slice 4 1 s @ slice 5 2 s @ slice 7 1 s @ slice 8 2 s @ slice 10 1 s
    @ slice 11 2 s @ slice 13 1 s @ slice 14 2 s @ slice 16 1 s @ slice 17 2 s @ slice 19 1 s @ slice 20 3 s @ slice 23 1 s"
    using slice_drop [of 0 4 s] slice_drop [of 4 1 s] slice_drop [of 5 2 s] slice_drop [of 7 1 s]
      slice_drop [of 8 2 s] slice_drop [of 10 1 s] slice_drop [of 11 2 s] slice_drop [of 13 1 s]
      slice_drop [of 14 2 s] slice_drop [of 16 1 s] slice_drop [of 17 2 s] slice_drop [of 19 1 s]
      slice_drop [of 20 3 s] slice_drop [of 23 1 s] by simp
  with assms show ?thesis by (simp add: canonicalTimestamp_def)
qed

lemma length_slice: "length s = 24 \<Longrightarrow> a + n \<le> 24 \<Longrightarrow> length (slice a n s) = n"
  by (simp add: slice_def)

lemma timestamp_valid:
  assumes "canonicalTimestamp s"
  shows "validDate (digitsVal (slice 0 4 s)) (digitsVal (slice 5 2 s)) (digitsVal (slice 8 2 s))"
    and "validTime (digitsVal (slice 11 2 s)) (digitsVal (slice 14 2 s)) (digitsVal (slice 17 2 s)) (digitsVal (slice 20 3 s))"
    and "0 \<le> digitsVal (slice 0 4 s)" and "digitsVal (slice 0 4 s) \<le> 9999"
proof -
  have len: "length s = 24" using assms by (simp add: canonicalTimestamp_def)
  note bounds = digitsVal_bounds [of "slice 0 4 s"] digitsVal_bounds [of "slice 11 2 s"]
    digitsVal_bounds [of "slice 14 2 s"] digitsVal_bounds [of "slice 17 2 s"] digitsVal_bounds [of "slice 20 3 s"]
  show "validDate (digitsVal (slice 0 4 s)) (digitsVal (slice 5 2 s)) (digitsVal (slice 8 2 s))"
    using assms by (simp add: canonicalTimestamp_def validDate_def)
  show "validTime (digitsVal (slice 11 2 s)) (digitsVal (slice 14 2 s)) (digitsVal (slice 17 2 s)) (digitsVal (slice 20 3 s))"
    using assms bounds len by (simp add: canonicalTimestamp_def validTime_def length_slice)
  show "0 \<le> digitsVal (slice 0 4 s)" "digitsVal (slice 0 4 s) \<le> 9999"
    using assms bounds len by (simp_all add: canonicalTimestamp_def length_slice)
qed

lemma timestamp_less_imp:
  assumes "canonicalTimestamp s" and "canonicalTimestamp t" and "s < t"
  shows "dateParse s < dateParse t"
proof -
  have len: "length s = 24" "length t = 24" using assms by (simp_all add: canonicalTimestamp_def)
  note cmp = digits_compare [of "slice 0 4 s" "slice 0 4 t"] digits_compare [of "slice 5 2 s" "slice 5 2 t"]
    digits_compare [of "slice 8 2 s" "slice 8 2 t"] digits_compare [of "slice 11 2 s" "slice 11 2 t"]
    digits_compare [of "slice 14 2 s" "slice 14 2 t"] digits_compare [of "slice 17 2 s" "slice 17 2 t"]
    digits_compare [of "slice 20 3 s" "slice 20 3 t"]
  have "slice 0 4 s < slice 0 4 t \<or> slice 0 4 s = slice 0 4 t \<and> (slice 5 2 s < slice 5 2 t \<or> slice 5 2 s = slice 5 2 t \<and>
     (slice 8 2 s < slice 8 2 t \<or> slice 8 2 s = slice 8 2 t \<and> (slice 11 2 s < slice 11 2 t \<or> slice 11 2 s = slice 11 2 t \<and>
     (slice 14 2 s < slice 14 2 t \<or> slice 14 2 s = slice 14 2 t \<and> (slice 17 2 s < slice 17 2 t \<or> slice 17 2 s = slice 17 2 t \<and>
     slice 20 3 s < slice 20 3 t)))))"
    using assms(3) len
    by (subst (asm) timestamp_split [OF assms(1)], subst (asm) timestamp_split [OF assms(2)])
      (simp add: lex_append_less length_slice del: append.simps)
  then show ?thesis
    unfolding dateParse_def
    using cmp assms(1,2) len
    by (intro instantMs_less timestamp_valid [OF assms(1)] timestamp_valid [OF assms(2)])
      (simp add: canonicalTimestamp_def length_slice)
qed

lemma timestamp_less_iff:
  assumes "canonicalTimestamp s" and "canonicalTimestamp t"
  shows "dateParse s < dateParse t \<longleftrightarrow> s < t"
  using timestamp_less_imp [OF assms] timestamp_less_imp [OF assms(2,1)]
  by (metis less_asym linorder_neqE)

lemma timestamp_le_iff:
  "canonicalTimestamp s \<Longrightarrow> canonicalTimestamp t \<Longrightarrow> dateParse s \<le> dateParse t \<longleftrightarrow> s \<le> t"
  using timestamp_less_iff [of t s] by (simp flip: not_less)

lemma timestamp_eq_iff:
  "canonicalTimestamp s \<Longrightarrow> canonicalTimestamp t \<Longrightarrow> dateParse s = dateParse t \<longleftrightarrow> s = t"
  using timestamp_le_iff [of s t] timestamp_le_iff [of t s] by (auto simp: order_eq_iff)

section \<open>Printing and reading an instant\<close>

definition MIN_CANONICAL_MS :: int where
  "MIN_CANONICAL_MS = -62167219200000"

definition MAX_CANONICAL_MS :: int where
  "MAX_CANONICAL_MS = 253402300799999"

lemma slice_append:
  "slice 0 n xs = xs" if "length xs = n"
  using that by (simp add: slice_def)

lemma timestamp_of_parts:
  assumes "length y = 4" "length m = 2" "length d = 2" "length h = 2" "length mi = 2" "length sec = 2" "length ms = 3"
  defines "s \<equiv> y @ ''-'' @ m @ ''-'' @ d @ ''T'' @ h @ '':'' @ mi @ '':'' @ sec @ ''.'' @ ms @ ''Z''"
  shows "length s = 24" "slice 0 4 s = y" "slice 4 1 s = ''-''" "slice 5 2 s = m" "slice 7 1 s = ''-''"
    "slice 8 2 s = d" "slice 10 1 s = ''T''" "slice 11 2 s = h" "slice 13 1 s = '':''" "slice 14 2 s = mi"
    "slice 16 1 s = '':''" "slice 17 2 s = sec" "slice 19 1 s = ''.''" "slice 20 3 s = ms" "slice 23 1 s = ''Z''"
  using assms by (simp_all add: slice_def)

lemma timestamp_from_fields:
  assumes "0 \<le> y" "y \<le> 9999" "validDate y m d" "validTime h mi sec ms"
  defines "s \<equiv> padDigits 4 y @ ''-'' @ padDigits 2 m @ ''-'' @ padDigits 2 d @ ''T'' @ padDigits 2 h @ '':''
    @ padDigits 2 mi @ '':'' @ padDigits 2 sec @ ''.'' @ padDigits 3 ms @ ''Z''"
  shows "canonicalTimestamp s \<and> dateParse s = instantMs y m d h mi sec ms"
proof -
  note parts = timestamp_of_parts [of "padDigits 4 y" "padDigits 2 m" "padDigits 2 d" "padDigits 2 h"
    "padDigits 2 mi" "padDigits 2 sec" "padDigits 3 ms", folded s_def, simplified]
  have "m \<le> 12" "1 \<le> m" "1 \<le> d" "d \<le> 31"
    using assms(3) daysInMonth_pos(2) [of y m] by (auto simp: validDate_def)
  then have "digitsVal (padDigits 4 y) = y" "digitsVal (padDigits 2 m) = m" "digitsVal (padDigits 2 d) = d"
    "digitsVal (padDigits 2 h) = h" "digitsVal (padDigits 2 mi) = mi" "digitsVal (padDigits 2 sec) = sec"
    "digitsVal (padDigits 3 ms) = ms"
    using assms(1,2,4) by (auto simp: validTime_def intro!: digitsVal_padDigits)
  with parts assms(3,4) show ?thesis
    by (simp add: canonicalTimestamp_def dateParse_def padDigits_digits validDate_def validTime_def)
qed

lemma yearOfDay_range:
  assumes "0 \<le> n" and "n < 3652425"
  shows "0 \<le> yearOfDay n \<and> yearOfDay n \<le> 9999"
proof -
  have "daysBeforeYear 0 = 0" "daysBeforeYear 10000 = 3652425" by (simp_all add: daysBeforeYear_def)
  moreover have "\<not> yearOfDay n < 0" using daysBeforeYear_mono [of "yearOfDay n" 0] yearOfDay_bounds [of n] assms calculation by force
  moreover have "\<not> 9999 < yearOfDay n"
  proof
    assume "9999 < yearOfDay n"
    then have "daysBeforeYear 10000 \<le> daysBeforeYear (yearOfDay n)"
      using daysBeforeYear_mono [of 9999 "yearOfDay n"] by simp
    with yearOfDay_bounds(1) [of n] assms calculation show False by simp
  qed
  ultimately show ?thesis by simp
qed

lemma mod_le_pred: "0 < b \<Longrightarrow> a mod b \<le> b - 1" for a b :: int
  using pos_mod_bound [of b a] by simp

lemma dayTime_fields:
  fixes r :: int
  assumes "0 \<le> r" and "r < 86400000"
  shows "validTime (r div 3600000) (r div 60000 mod 60) (r div 1000 mod 60) (r mod 1000)"
    and "dayTime (r div 3600000) (r div 60000 mod 60) (r div 1000 mod 60) (r mod 1000) = r"
proof -
  have "r div 60000 = r div 1000 div 60" "r div 3600000 = r div 1000 div 60 div 60"
    by (simp_all flip: zdiv_zmult2_eq)
  moreover define q where "q = r div 1000"
  moreover have "r = q * 1000 + r mod 1000" by (simp add: q_def)
  moreover have "q = q div 60 * 60 + q mod 60" "q div 60 = q div 60 div 60 * 60 + q div 60 mod 60" by simp_all
  ultimately show "dayTime (r div 3600000) (r div 60000 mod 60) (r div 1000 mod 60) (r mod 1000) = r"
    unfolding dayTime_def by metis
  define h where "h = r div 3600000"
  have "3600000 * h \<le> r" "r < 3600000 * h + 3600000" unfolding h_def by (intro div_range, simp)+
  then have "0 \<le> h" "h \<le> 23" using assms by simp_all
  then show "validTime (r div 3600000) (r div 60000 mod 60) (r div 1000 mod 60) (r mod 1000)"
    unfolding validTime_def h_def [symmetric]
    using mod_le_pred [of 60 "r div 60000"] mod_le_pred [of 60 "r div 1000"] mod_le_pred [of 1000 r]
    by (intro conjI) simp_all
qed

lemma dateParse_toISOString:
  assumes "MIN_CANONICAL_MS \<le> t" and "t \<le> MAX_CANONICAL_MS"
  shows "canonicalTimestamp (toISOString t) \<and> dateParse (toISOString t) = t"
proof -
  define n r y k m d where "n = t div 86400000 + 719528" and "r = t mod 86400000" and "y = yearOfDay n"
    and "k = n - daysBeforeYear y" and "m = monthOfDay y k" and "d = k - daysBeforeMonth y m + 1"
  have t: "t = (n - 719528) * 86400000 + r" by (simp add: n_def r_def)
  have r: "0 \<le> r" "r < 86400000" by (simp_all add: r_def)
  have n: "0 \<le> n" "n < 3652425"
    using assms t r by (simp_all add: MIN_CANONICAL_MS_def MAX_CANONICAL_MS_def)
  have y: "0 \<le> y" "y \<le> 9999" using yearOfDay_range [OF n] by (simp_all add: y_def)
  have k: "0 \<le> k" "k < (if leapYear y then 366 else 365)"
    using yearOfDay_bounds [of n] by (simp_all add: k_def y_def daysBeforeYear_Suc)
  have date: "validDate y m d" and day: "dayNumber y m d = n"
    using monthOfDay_bounds [OF k] by (simp_all add: validDate_def dayNumber_def m_def d_def k_def)
  have "toISOString t = padDigits 4 y @ ''-'' @ padDigits 2 m @ ''-'' @ padDigits 2 d @ ''T''
      @ padDigits 2 (r div 3600000) @ '':'' @ padDigits 2 (r div 60000 mod 60) @ '':''
      @ padDigits 2 (r div 1000 mod 60) @ ''.'' @ padDigits 3 (r mod 1000) @ ''Z''"
    using y unfolding toISOString_def Let_def n_def [symmetric] r_def [symmetric] y_def [symmetric]
      k_def [symmetric] m_def [symmetric] d_def [symmetric] yearText_def by simp
  moreover have "instantMs y m d (r div 3600000) (r div 60000 mod 60) (r div 1000 mod 60) (r mod 1000) = t"
    unfolding instantMs_split day dayTime_fields(2) [OF r] by (rule t [symmetric])
  ultimately show ?thesis
    using timestamp_from_fields [OF y date dayTime_fields(1) [OF r]] by metis
qed

lemma dateParse_range:
  assumes "canonicalTimestamp s"
  shows "MIN_CANONICAL_MS \<le> dateParse s \<and> dateParse s \<le> MAX_CANONICAL_MS"
proof -
  have "''0000-01-01T00:00:00.000Z'' \<le> s \<or> s < ''0000-01-01T00:00:00.000Z''" by (rule le_less_linear)
  define y m d where "y = digitsVal (slice 0 4 s)" and "m = digitsVal (slice 5 2 s)" and "d = digitsVal (slice 8 2 s)"
  note valid = timestamp_valid [OF assms, folded y_def m_def d_def]
  have "0 \<le> dayNumber y m d" "dayNumber y m d < 3652425"
  proof -
    have dby: "daysBeforeYear 0 = 0" "daysBeforeYear 10000 = 3652425" by (simp_all add: daysBeforeYear_def)
    have "0 \<le> daysBeforeYear y"
      using daysBeforeYear_mono [of "-1" y] valid(3) dby by simp
    then show "0 \<le> dayNumber y m d"
      using dayOfYear_bounds(1) [of m d y] valid(1) by (simp add: dayNumber_def validDate_def)
    have "daysBeforeYear (y + 1) \<le> 3652425"
      using daysBeforeYear_mono [of y 10000] valid(4) dby by simp
    then show "dayNumber y m d < 3652425"
      using dayOfYear_bounds(2) [of m d y] valid(1) by (simp add: dayNumber_def validDate_def daysBeforeYear_Suc)
  qed
  with dayTime_bounds [OF valid(2)] show ?thesis
    unfolding dateParse_def y_def [symmetric] m_def [symmetric] d_def [symmetric] instantMs_split
      MIN_CANONICAL_MS_def MAX_CANONICAL_MS_def by simp
qed

lemma toISOString_dateParse: "canonicalTimestamp s \<Longrightarrow> toISOString (dateParse s) = s"
  using dateParse_toISOString [of "dateParse s"] dateParse_range [of s]
  by (simp flip: timestamp_eq_iff)

end
