(* ===== verification/Contract_Primitives.thy ===== *)
theory Contract_Primitives
  imports Timestamps
begin

text \<open>
  \<open>packages/domain/src/contract-primitives.ts\<close>: the schemas every other contract is built from.
  A schema is a parser: it returns the value it admits (trimmed where the schema trims) or \<open>None\<close>.
  A refinement is a condition on the shaped value. Literal fields (\<open>contractVersion\<close>, \<open>kind\<close>,
  \<open>complete: true\<close>) carry no information and are left out of the records.
\<close>

definition isJsSpace :: "char \<Rightarrow> bool" where
  "isJsSpace c \<longleftrightarrow> (let n = of_char c :: nat in 9 \<le> n \<and> n \<le> 13 \<or> n = 32 \<or> n = 160)"

definition trim :: "string \<Rightarrow> string" where
  "trim s = rev (dropWhile isJsSpace (rev (dropWhile isJsSpace s)))"

definition boundedText :: "nat \<Rightarrow> nat \<Rightarrow> string \<Rightarrow> string option" where
  "boundedText lo hi s = (let t = trim s in if lo \<le> length t \<and> length t \<le> hi then Some t else None)"

definition identifierSchema :: "string \<Rightarrow> string option" where
  "identifierSchema = boundedText 1 200"

definition sourceIdSchema :: "string \<Rightarrow> string option" where
  "sourceIdSchema = identifierSchema"

definition nonEmptyStringSchema :: "string \<Rightarrow> string option" where
  "nonEmptyStringSchema = boundedText 1 500"

definition canonicalTimestampSchema :: "string \<Rightarrow> string option" where
  "canonicalTimestampSchema s = (if canonicalTimestamp s then Some s else None)"

definition positiveSafeInteger :: "int \<Rightarrow> bool" where
  "positiveSafeInteger n \<longleftrightarrow> 1 \<le> n \<and> n \<le> MAX_SAFE_INTEGER"

definition nonNegativeSafeInteger :: "int \<Rightarrow> bool" where
  "nonNegativeSafeInteger n \<longleftrightarrow> 0 \<le> n \<and> n \<le> MAX_SAFE_INTEGER"

definition basisPoints :: "int \<Rightarrow> bool" where
  "basisPoints n \<longleftrightarrow> 0 \<le> n \<and> n \<le> 10000"

text \<open>A \<open>Date\<close>: its time value, or \<open>None\<close> for an invalid date.\<close>

type_synonym date = "int option"

definition isFiniteDate :: "date \<Rightarrow> bool" where
  "isFiniteDate d \<longleftrightarrow> d \<noteq> None"

section \<open>Trimming\<close>

lemma dropWhile_fix: "xs = [] \<or> \<not> p (hd xs) \<Longrightarrow> dropWhile p xs = xs"
  by (cases xs) auto

lemma trim_trim [simp]: "trim (trim s) = trim s"
proof (cases "trim s")
  case Nil
  show ?thesis unfolding Nil by (simp add: trim_def)
next
  case (Cons c cs)
  define u where "u = dropWhile isJsSpace s"
  have t: "trim s = rev (dropWhile isJsSpace (rev u))" by (simp add: trim_def u_def)
  have "u \<noteq> []" using Cons t by auto
  then have "\<not> isJsSpace (hd u)" unfolding u_def by (rule hd_dropWhile)
  moreover obtain w where "u = trim s @ w"
    unfolding t by (metis rev_append rev_rev_ident takeWhile_dropWhile_id)
  ultimately have "\<not> isJsSpace (hd (trim s))" using Cons by simp
  then have "dropWhile isJsSpace (trim s) = trim s" by (simp add: dropWhile_fix)
  moreover have "dropWhile isJsSpace (rev (trim s)) = rev (trim s)"
    using Cons t by (intro dropWhile_fix) (metis hd_dropWhile rev_rev_ident)
  ultimately show ?thesis by (simp add: trim_def [of "trim s"])
qed

lemma trim_no_space: "list_all (\<lambda>c. \<not> isJsSpace c) s \<Longrightarrow> trim s = s"
proof -
  assume a: "list_all (\<lambda>c. \<not> isJsSpace c) s"
  then have "dropWhile isJsSpace s = s" by (cases s) auto
  moreover have "dropWhile isJsSpace (rev s) = rev s"
    using a by (intro dropWhile_fix) (metis hd_in_set list_all_iff set_rev)
  ultimately show ?thesis by (simp add: trim_def)
qed

lemma boundedText_idem: "boundedText lo hi s = Some t \<Longrightarrow> boundedText lo hi t = Some t"
  by (auto simp: boundedText_def Let_def split: if_splits)

lemma boundedText_iff [schema_simps]:
  "boundedText lo hi s = Some t \<longleftrightarrow> t = trim s \<and> lo \<le> length t \<and> length t \<le> hi"
  by (auto simp: boundedText_def Let_def)

lemma identifierSchema_idem: "identifierSchema s = Some t \<Longrightarrow> identifierSchema t = Some t"
  unfolding identifierSchema_def by (rule boundedText_idem)

lemma sourceIdSchema_idem: "sourceIdSchema s = Some t \<Longrightarrow> sourceIdSchema t = Some t"
  unfolding sourceIdSchema_def by (rule identifierSchema_idem)

lemma nonEmptyStringSchema_idem: "nonEmptyStringSchema s = Some t \<Longrightarrow> nonEmptyStringSchema t = Some t"
  unfolding nonEmptyStringSchema_def by (rule boundedText_idem)

lemma canonicalTimestampSchema_iff [schema_simps]:
  "canonicalTimestampSchema s = Some t \<longleftrightarrow> t = s \<and> canonicalTimestamp s"
  by (auto simp: canonicalTimestampSchema_def)

lemmas text_schema_idem = identifierSchema_idem sourceIdSchema_idem nonEmptyStringSchema_idem

section \<open>Properties\<close>

text \<open>
  Canonical timestamps may be compared as strings: for any two strings the canonical-timestamp
  schema admits, the code-unit order that \<open>compareText\<close> uses is exactly the order of the instants
  \<open>Date.parse\<close> reads from them.
\<close>

theorem compareText_orders_timestamps:
  assumes "canonicalTimestampSchema s = Some s" and "canonicalTimestampSchema t = Some t"
  shows "compareText s t = compareNumber (dateParse s) (dateParse t)"
proof -
  have c: "canonicalTimestamp s" "canonicalTimestamp t"
    using assms by (simp_all add: canonicalTimestampSchema_iff)
  show ?thesis
    using timestamp_less_iff [OF c] timestamp_less_iff [OF c(2,1)]
    by (simp add: compareText_def compareNumber_def)
qed

theorem compareText_orders_timestamps_witness:
  "compareText ''2024-02-29T23:59:59.999Z'' ''2024-03-01T00:00:00.000Z''
    = compareNumber (dateParse ''2024-02-29T23:59:59.999Z'') (dateParse ''2024-03-01T00:00:00.000Z'')"
  by (rule compareText_orders_timestamps; code_simp)

text \<open>
  Printing and parsing instants are inverse: every instant of the years 0000 to 9999 prints as a
  timestamp the schema admits and reads back as itself, and every timestamp the schema admits is what
  its own instant prints as.
\<close>

theorem toISOString_roundtrip:
  shows "MIN_CANONICAL_MS \<le> t \<and> t \<le> MAX_CANONICAL_MS \<Longrightarrow>
      canonicalTimestampSchema (toISOString t) = Some (toISOString t) \<and> dateParse (toISOString t) = t
      \<and> (\<forall>s. canonicalTimestampSchema s = Some s \<and> dateParse s = t \<longrightarrow> s = toISOString t)"
  using dateParse_toISOString [of t] by (auto simp: canonicalTimestampSchema_iff toISOString_dateParse)

theorem toISOString_roundtrip_witness:
  "canonicalTimestampSchema (toISOString 1784203200123) = Some (toISOString 1784203200123)
    \<and> dateParse (toISOString 1784203200123) = 1784203200123"
proof -
  have "MIN_CANONICAL_MS \<le> 1784203200123 \<and> 1784203200123 \<le> MAX_CANONICAL_MS"
    by (simp add: MIN_CANONICAL_MS_def MAX_CANONICAL_MS_def)
  from toISOString_roundtrip [OF this] show ?thesis by blast
qed

end
