(* ===== verification/Catalog.thy ===== *)
theory Catalog
  imports Contract_Primitives
begin

text \<open>
  \<open>packages/domain/src/catalog.ts\<close>: GTIN validation, package measures, product identifiers and the
  canonical product record.
\<close>

section \<open>GTINs\<close>

definition gtinShape :: "string \<Rightarrow> bool" where
  "gtinShape s \<longleftrightarrow> list_all isDigit s \<and> (length s = 8 \<or> length s = 13)"

definition isValidGtin :: "string \<Rightarrow> bool" where
  "isValidGtin input =
     (if \<not> gtinShape input then False
      else case rev (map digitVal input) of
        [] \<Rightarrow> False
      | checkDigit # popped \<Rightarrow>
          (let digits = rev popped;
               weightedSum = foldl (\<lambda>sum (index, digit).
                 (let positionFromRight = length digits - index
                  in sum + digit * (if positionFromRight mod 2 = 1 then 3 else 1))) 0 (enumerate 0 digits)
           in (10 - weightedSum mod 10) mod 10 = checkDigit))"

definition gtinSchema :: "string \<Rightarrow> string option" where
  "gtinSchema s = (if gtinShape s \<and> isValidGtin s then Some s else None)"

section \<open>Measures, identifiers and products\<close>

datatype measure_unit = Gram | Millilitre | Piece | Package | Each

fun unitText :: "measure_unit \<Rightarrow> string" where
  "unitText Gram = ''g''"
| "unitText Millilitre = ''ml''"
| "unitText Piece = ''piece''"
| "unitText Package = ''package''"
| "unitText Each = ''each''"

record package_measure =
  measureAmount :: int
  measureUnit :: measure_unit

definition normalizedMeasureUnit :: "measure_unit \<Rightarrow> bool" where
  "normalizedMeasureUnit u \<longleftrightarrow> u \<in> {Gram, Millilitre, Piece, Package}"

definition packageMeasureSchema :: "package_measure \<Rightarrow> package_measure option" where
  "packageMeasureSchema m =
     (if positiveSafeInteger (measureAmount m) \<and> normalizedMeasureUnit (measureUnit m) then Some m else None)"

datatype product_identifier = GtinIdentifier string | SourceIdentifier string string

fun productIdentifierSchema :: "product_identifier \<Rightarrow> product_identifier option" where
  "productIdentifierSchema (GtinIdentifier v) = map_option GtinIdentifier (gtinSchema v)"
| "productIdentifierSchema (SourceIdentifier sourceId v) =
     (case sourceIdSchema sourceId of None \<Rightarrow> None
      | Some sid \<Rightarrow> map_option (SourceIdentifier sid) (identifierSchema v))"

fun identifierKey :: "product_identifier \<Rightarrow> string" where
  "identifierKey (GtinIdentifier v) = ''gtin:'' @ v"
| "identifierKey (SourceIdentifier sourceId v) = ''source:'' @ sourceId @ '':'' @ v"

datatype product_status = ActiveProduct | QuarantinedProduct | RetiredProduct

record product_family =
  familyId :: string
  familyDisplayName :: string
  familyParentId :: "string option"

definition productFamilySchema :: "product_family \<Rightarrow> product_family option" where
  "productFamilySchema f =
     (case (identifierSchema (familyId f), nonEmptyStringSchema (familyDisplayName f),
            parseOptional identifierSchema (familyParentId f)) of
        (Some i, Some n, Some p) \<Rightarrow>
          (if p \<noteq> Some i then Some \<lparr>familyId = i, familyDisplayName = n, familyParentId = p\<rparr> else None)
      | _ \<Rightarrow> None)"

record canonical_product =
  canonicalId :: string
  canonicalDisplayName :: string
  canonicalBrand :: "string option"
  canonicalIdentifiers :: "product_identifier list"
  canonicalFamilyId :: "string option"
  canonicalPackageMeasure :: "package_measure option"
  canonicalStatus :: product_status

definition canonicalProductSchema :: "canonical_product \<Rightarrow> canonical_product option" where
  "canonicalProductSchema p =
     (case (identifierSchema (canonicalId p), nonEmptyStringSchema (canonicalDisplayName p),
            parseOptional nonEmptyStringSchema (canonicalBrand p),
            parseAll productIdentifierSchema (canonicalIdentifiers p),
            parseOptional identifierSchema (canonicalFamilyId p),
            parseOptional packageMeasureSchema (canonicalPackageMeasure p)) of
        (Some i, Some n, Some b, Some ids, Some f, Some m) \<Rightarrow>
          (if 1 \<le> length ids \<and> hasUniqueStrings (map identifierKey ids)
           then Some \<lparr>canonicalId = i, canonicalDisplayName = n, canonicalBrand = b,
                  canonicalIdentifiers = ids, canonicalFamilyId = f, canonicalPackageMeasure = m,
                  canonicalStatus = canonicalStatus p\<rparr>
           else None)
      | _ \<Rightarrow> None)"

lemma packageMeasureSchema_iff [schema_simps]:
  "packageMeasureSchema m = Some m' \<longleftrightarrow>
     m' = m \<and> positiveSafeInteger (measureAmount m) \<and> normalizedMeasureUnit (measureUnit m)"
  by (auto simp: packageMeasureSchema_def)

section \<open>The check digit\<close>

text \<open>The checksum of a whole GTIN, check digit included: weights 1, 3, 1, 3, ... from the right.\<close>

definition gtinWeight :: "nat \<Rightarrow> int" where
  "gtinWeight positionFromRight = (if positionFromRight mod 2 = 1 then 3 else 1)"

definition gtinSum :: "string \<Rightarrow> int" where
  "gtinSum s = (\<Sum>i < length s. digitVal (s ! i) * gtinWeight (length s - 1 - i))"

lemma foldl_enumerate_sum:
  "foldl (\<lambda>a (i, d). a + f i d) a (enumerate k ds) = a + (\<Sum>i < length ds. f (k + i) (ds ! i))"
  for f :: "nat \<Rightarrow> 'a \<Rightarrow> int"
proof (induction ds arbitrary: a k)
  case (Cons d ds)
  then show ?case by (simp add: sum.lessThan_Suc_shift del: sum.lessThan_Suc)
qed simp

lemma complement_mod_ten:
  fixes v w :: int
  assumes "0 \<le> v" "v \<le> 9"
  shows "(10 - w mod 10) mod 10 = v \<longleftrightarrow> (w + v) mod 10 = 0"
proof -
  have "(10 - w mod 10) mod 10 = (- w) mod 10"
    using mod_diff_right_eq [of 10 w 10] mod_diff_left_eq [of 10 10 w] by simp
  moreover have "v = v mod 10" using assms by simp
  ultimately have "(10 - w mod 10) mod 10 = v \<longleftrightarrow> (- w) mod 10 = v mod 10" by metis
  also have "\<dots> \<longleftrightarrow> 10 dvd (- w - v)" by (rule mod_eq_dvd_iff)
  also have "- w - v = - (w + v)" by simp
  also have "10 dvd - (w + v) \<longleftrightarrow> 10 dvd (w + v)" by (rule dvd_minus_iff)
  finally show ?thesis by (simp add: mod_eq_0_iff_dvd)
qed

lemma isValidGtin_iff: "isValidGtin s \<longleftrightarrow> gtinShape s \<and> gtinSum s mod 10 = 0"
proof (cases "gtinShape s")
  case True
  then obtain body c where s: "s = body @ [c]"
    by (metis gtinShape_def append_butlast_last_id list.size(3) zero_neq_numeral)
  have "isDigit c" using True s by (simp add: gtinShape_def)
  then have c: "0 \<le> digitVal c" "digitVal c \<le> 9" by (simp_all add: isDigit_iff)
  define w where "w = (\<Sum>i < length body. digitVal (body ! i) * gtinWeight (length body - i))"
  have "foldl (\<lambda>sum (index, digit). sum + digit * (if (length body - index) mod 2 = 1 then 3 else 1)) 0
      (enumerate 0 (map digitVal body)) = w"
    by (subst foldl_enumerate_sum) (simp add: w_def gtinWeight_def)
  moreover have "rev (map digitVal s) = digitVal c # rev (map digitVal body)" by (simp add: s)
  ultimately have "isValidGtin s \<longleftrightarrow> (10 - w mod 10) mod 10 = digitVal c"
    using True unfolding isValidGtin_def
    by (simp only: Let_def list.case rev_rev_ident length_map not_True_eq_False if_False)
  also have "\<dots> \<longleftrightarrow> (w + digitVal c) mod 10 = 0" by (rule complement_mod_ten [OF c])
  also have "w + digitVal c = gtinSum s"
    by (simp add: gtinSum_def s w_def nth_append gtinWeight_def)
  finally show ?thesis using True by simp
qed (simp add: isValidGtin_def)

lemma gtinSum_update:
  assumes "i < length s"
  shows "gtinSum (s[i := c]) - gtinSum s = (digitVal c - digitVal (s ! i)) * gtinWeight (length s - 1 - i)"
proof -
  let ?w = "\<lambda>j. gtinWeight (length s - 1 - j)"
  have "gtinSum (s[i := c]) - gtinSum s =
      (\<Sum>j < length s. digitVal (s[i := c] ! j) * ?w j - digitVal (s ! j) * ?w j)"
    by (simp add: gtinSum_def sum_subtractf)
  also have "\<dots> = (\<Sum>j < length s. if j = i then (digitVal c - digitVal (s ! i)) * ?w i else 0)"
    by (rule sum.cong) (auto simp: nth_list_update left_diff_distrib)
  also have "\<dots> = (digitVal c - digitVal (s ! i)) * ?w i" using assms by simp
  finally show ?thesis .
qed

lemma weight_mod_ten:
  fixes a :: int
  assumes "\<bar>a\<bar> \<le> 9" "w = 1 \<or> w = 3" "(a * w) mod 10 = 0"
  shows "a = 0"
  using assms(2)
proof
  assume "w = 1"
  with assms(1,3) show ?thesis by simp presburger
next
  assume "w = 3"
  with assms(1,3) show ?thesis by simp presburger
qed

text \<open>
  The GTIN check catches every single-digit error: replacing one digit of a valid GTIN by a different
  digit never gives a valid GTIN.
\<close>

theorem gtin_detects_substitution:
  assumes "isValidGtin s" and "i < length s" and "isDigit c" and "c \<noteq> s ! i"
  shows "\<not> isValidGtin (s[i := c])"
proof
  assume "isValidGtin (s[i := c])"
  then have "(gtinSum (s[i := c]) - gtinSum s) mod 10 = 0"
    using assms(1) by (simp add: isValidGtin_iff mod_eq_0_iff_dvd)
  then have "((digitVal c - digitVal (s ! i)) * gtinWeight (length s - 1 - i)) mod 10 = 0"
    using gtinSum_update [OF assms(2)] by simp
  moreover have "isDigit (s ! i)"
    using assms(1,2) by (simp add: isValidGtin_iff gtinShape_def list_all_length)
  then have "\<bar>digitVal c - digitVal (s ! i)\<bar> \<le> 9" using assms(3) by (auto simp: isDigit_iff)
  ultimately have "digitVal c = digitVal (s ! i)"
    using weight_mod_ten [of "digitVal c - digitVal (s ! i)" "gtinWeight (length s - 1 - i)"]
    by (simp add: gtinWeight_def split: if_splits)
  with assms(4) show False by (simp add: digit_eq_iff)
qed

theorem gtin_detects_substitution_witness:
  "isValidGtin ''7038010000010'' \<and> \<not> isValidGtin (''7038010000010''[5 := CHR ''7''])"
proof -
  have v: "isValidGtin ''7038010000010''" by code_simp
  have d: "isDigit (CHR ''7'')" by code_simp
  show ?thesis using v gtin_detects_substitution [OF v _ d, of 5] by simp
qed

text \<open>
  Every string of 7 or 12 digits has exactly one check digit that completes it to a valid GTIN.
\<close>

theorem gtin_unique_check_digit:
  assumes "list_all isDigit body" and "length body = 7 \<or> length body = 12"
  shows "\<exists>!c. isDigit c \<and> isValidGtin (body @ [c])"
proof -
  define w where "w = (\<Sum>i < length body. digitVal (body ! i) * gtinWeight (length body - i))"
  have valid: "isValidGtin (body @ [c]) \<longleftrightarrow> (w + digitVal c) mod 10 = 0" if "isDigit c" for c
    using assms that by (auto simp: isValidGtin_iff gtinShape_def gtinSum_def w_def nth_append gtinWeight_def)
  define k where "k = (- w) mod 10"
  have k: "0 \<le> k" "k \<le> 9" unfolding k_def using mod_le_pred [of 10 "- w"] by simp_all
  have "digitVal (digitChar k) = k" by (rule digitVal_digitChar [OF k])
  then have "isDigit (digitChar k)" using k by (simp add: isDigit_iff)
  moreover have wk: "(w + k) mod 10 = 0" unfolding k_def by (simp add: mod_add_right_eq)
  then have "(w + digitVal (digitChar k)) mod 10 = 0" using \<open>digitVal (digitChar k) = k\<close> by simp
  ultimately have "isDigit (digitChar k) \<and> isValidGtin (body @ [digitChar k])" using valid by simp
  moreover have "c = digitChar k" if "isDigit c \<and> isValidGtin (body @ [c])" for c
  proof -
    have "(w + digitVal c) mod 10 = 0" "0 \<le> digitVal c" "digitVal c \<le> 9"
      using that valid by (auto simp: isDigit_iff)
    then have "(10 - w mod 10) mod 10 = digitVal c" by (simp only: complement_mod_ten)
    moreover have "(10 - w mod 10) mod 10 = k"
      using wk k by (simp only: complement_mod_ten)
    ultimately have "digitVal c = k" by simp
    then show ?thesis using \<open>digitVal (digitChar k) = k\<close> by (simp flip: digit_eq_iff)
  qed
  ultimately show ?thesis by blast
qed

theorem gtin_unique_check_digit_witness:
  "\<exists>!c. isDigit c \<and> isValidGtin (''703801000001'' @ [c])"
  by (rule gtin_unique_check_digit; code_simp)

end
