(* ===== verification/Fulfilment_Contract.thy ===== *)
theory Fulfilment_Contract
  imports Catalog
begin

text \<open>
  \<open>packages/domain/src/fulfilment-contract.ts\<close>: the record of how many whole packages cover a
  requested measure. \<open>BigInt\<close> arithmetic is arithmetic on \<open>int\<close>.
\<close>

record fulfilment =
  fulfilmentNeedId :: string
  fulfilmentProductId :: string
  fulfilmentRequested :: package_measure
  fulfilmentPackage :: package_measure
  packageCount :: int
  fulfilledAmount :: int
  surplusAmount :: int

definition fulfilmentRefinement :: "fulfilment \<Rightarrow> bool" where
  "fulfilmentRefinement f =
     (let requested = fulfilmentRequested f; package = fulfilmentPackage f;
          calculatedAmount = measureAmount package * packageCount f in
      if measureUnit requested \<noteq> measureUnit package then False
      else if calculatedAmount > MAX_SAFE_INTEGER then False
      else fulfilledAmount f = calculatedAmount
        \<and> (if calculatedAmount < measureAmount requested then False
           else surplusAmount f = calculatedAmount - measureAmount requested))"

definition fulfilmentSchema :: "fulfilment \<Rightarrow> fulfilment option" where
  "fulfilmentSchema f =
     (case (identifierSchema (fulfilmentNeedId f), identifierSchema (fulfilmentProductId f),
            packageMeasureSchema (fulfilmentRequested f), packageMeasureSchema (fulfilmentPackage f)) of
        (Some n, Some p, Some requested, Some package) \<Rightarrow>
          (if positiveSafeInteger (packageCount f) \<and> positiveSafeInteger (fulfilledAmount f)
              \<and> nonNegativeSafeInteger (surplusAmount f) \<and> fulfilmentRefinement f
           then Some (f\<lparr>fulfilmentNeedId := n, fulfilmentProductId := p\<rparr>) else None)
      | _ \<Rightarrow> None)"

text \<open>What every admitted fulfilment promises.\<close>

lemma fulfilmentSchema_Some:
  assumes "fulfilmentSchema f = Some g"
  shows "measureUnit (fulfilmentRequested g) = measureUnit (fulfilmentPackage g)"
    "fulfilledAmount g = measureAmount (fulfilmentPackage g) * packageCount g"
    "surplusAmount g = fulfilledAmount g - measureAmount (fulfilmentRequested g)"
    "measureAmount (fulfilmentRequested g) \<le> fulfilledAmount g"
    "1 \<le> packageCount g" "fulfilledAmount g \<le> MAX_SAFE_INTEGER"
  using assms
  by (auto simp: fulfilmentSchema_def fulfilmentRefinement_def positiveSafeInteger_def
      Let_def split: option.splits if_splits)

lemma fulfilmentRefinement_ids [simp]:
  "fulfilmentRefinement (f\<lparr>fulfilmentNeedId := n, fulfilmentProductId := p\<rparr>) = fulfilmentRefinement f"
  by (simp add: fulfilmentRefinement_def)

lemma fulfilmentSchema_iff [schema_simps]:
  "fulfilmentSchema f = Some g \<longleftrightarrow>
     (\<exists>n p. identifierSchema (fulfilmentNeedId f) = Some n \<and> identifierSchema (fulfilmentProductId f) = Some p
       \<and> packageMeasureSchema (fulfilmentRequested f) \<noteq> None \<and> packageMeasureSchema (fulfilmentPackage f) \<noteq> None
       \<and> positiveSafeInteger (packageCount f) \<and> positiveSafeInteger (fulfilledAmount f)
       \<and> nonNegativeSafeInteger (surplusAmount f) \<and> fulfilmentRefinement f
       \<and> g = f\<lparr>fulfilmentNeedId := n, fulfilmentProductId := p\<rparr>)"
  by (auto simp: fulfilmentSchema_def split: option.splits)

lemma fulfilmentSchema_idem:
  assumes "fulfilmentSchema f = Some g"
  shows "fulfilmentSchema g = Some g"
proof -
  obtain n p where "identifierSchema (fulfilmentNeedId f) = Some n" "identifierSchema (fulfilmentProductId f) = Some p"
    and g: "g = f\<lparr>fulfilmentNeedId := n, fulfilmentProductId := p\<rparr>"
    using assms by (auto simp: fulfilmentSchema_iff)
  then have "identifierSchema n = Some n" "identifierSchema p = Some p"
    using identifierSchema_idem by blast+
  with assms g show ?thesis by (auto simp: fulfilmentSchema_iff)
qed

end
