(* ===== verification/Contracts.thy ===== *)
theory Contracts
  imports Fulfilment_Contract
begin

text \<open>
  \<open>packages/domain/src/contracts.ts\<close>: needs, match rules, products, price observations, and the
  request and result of the first planner. \<open>quantity\<close>, \<open>packageQuantity\<close> and the bounds of a size
  range may be fractions, so they are \<open>rat\<close>. The discriminated union of match rules is a record whose
  fields are absent (\<open>None\<close>) where the strict variant has no such key.
\<close>

definition MAX_PERSISTED_MONEY_ORE :: int where
  "MAX_PERSISTED_MONEY_ORE = 2147483647"

definition moneyOreSchema :: "int \<Rightarrow> bool" where
  "moneyOreSchema amount \<longleftrightarrow> 0 \<le> amount \<and> amount \<le> MAX_PERSISTED_MONEY_ORE"

datatype chain = Bunnpris | Rema1000 | Extra | Fudi | Holdbart | Meny | Havaristen | Joker | Spar
  | Fastcandy | Europris | Engrossnett | Oda

fun chainText :: "chain \<Rightarrow> string" where
  "chainText Bunnpris = ''bunnpris''"
| "chainText Rema1000 = ''rema-1000''"
| "chainText Extra = ''extra''"
| "chainText Fudi = ''fudi''"
| "chainText Holdbart = ''holdbart''"
| "chainText Meny = ''meny''"
| "chainText Havaristen = ''havaristen''"
| "chainText Joker = ''joker''"
| "chainText Spar = ''spar''"
| "chainText Fastcandy = ''fastcandy''"
| "chainText Europris = ''europris''"
| "chainText Engrossnett = ''engrossnett''"
| "chainText Oda = ''oda''"

datatype match_mode = ExactMode | ConstrainedMode | FlexibleMode

record need =
  needId :: string
  needQuery :: string
  needQuantity :: rat
  needUnit :: measure_unit
  needRuleId :: string
  needRequired :: bool

record size_range =
  sizeMin :: rat
  sizeMax :: rat
  sizeUnit :: measure_unit

record match_rule =
  ruleId :: string
  ruleMode :: match_mode
  exactEan :: "string option"
  ruleFamily :: "string option"
  allowedBrands :: "string list option"
  ruleSizeRange :: "size_range option"
  userApproved :: bool
  ruleExplanation :: string

record product =
  productEan :: string
  productName :: string
  productBrand :: "string option"
  packageQuantity :: "rat option"
  packageUnit :: "measure_unit option"
  productFamily :: "string option"

record price_observation =
  priceEan :: string
  priceChain :: chain
  amountOre :: int
  priceObservedAt :: string
  priceSource :: string

record plan_request =
  requestNeeds :: "need list"
  matchingRules :: "match_rule list"
  requestProducts :: "product list"
  requestPrices :: "price_observation list"
  requestMaxStores :: nat

record assignment =
  assignmentNeedId :: string
  assignmentEan :: string
  assignmentChain :: chain
  assignmentQuantity :: rat
  assignmentCostOre :: int
  assignmentObservedAt :: string
  assignmentSource :: string
  assignmentFulfilment :: "fulfilment option"

record plan_result =
  planId :: string
  planAssignments :: "assignment list"
  planTotalOre :: int
  planChains :: "chain list"
  planSubstitutions :: "string list"
  planFreshness :: "(string \<times> string) list"

definition nonEmpty :: "string \<Rightarrow> bool" where
  "nonEmpty s \<longleftrightarrow> 1 \<le> length s"

definition eanSchema :: "string \<Rightarrow> bool" where
  "eanSchema s \<longleftrightarrow> list_all isDigit s \<and> (length s = 8 \<or> length s = 13)"

definition sizeRangeSchema :: "size_range \<Rightarrow> bool" where
  "sizeRangeSchema r \<longleftrightarrow> 0 < sizeMin r \<and> 0 < sizeMax r \<and> sizeUnit r \<in> {Gram, Millilitre} \<and> sizeMin r \<le> sizeMax r"

definition needSchema :: "need \<Rightarrow> need option" where
  "needSchema n =
     (if nonEmpty (needId n) \<and> nonEmpty (needQuery n) \<and> 0 < needQuantity n \<and> nonEmpty (needRuleId n)
      then Some n else None)"

definition ruleBaseSchema :: "match_rule \<Rightarrow> bool" where
  "ruleBaseSchema r \<longleftrightarrow> nonEmpty (ruleId r) \<and> userApproved r \<and> nonEmpty (ruleExplanation r)"

definition exactMatchRuleSchema :: "match_rule \<Rightarrow> bool" where
  "exactMatchRuleSchema r \<longleftrightarrow> ruleBaseSchema r \<and> optionally eanSchema (exactEan r) \<and> exactEan r \<noteq> None
     \<and> ruleFamily r = None \<and> allowedBrands r = None \<and> ruleSizeRange r = None"

definition constrainedMatchRuleSchema :: "match_rule \<Rightarrow> bool" where
  "constrainedMatchRuleSchema r \<longleftrightarrow> ruleBaseSchema r \<and> exactEan r = None
     \<and> optionally nonEmpty (ruleFamily r)
     \<and> optionally (\<lambda>brands. list_all nonEmpty brands \<and> 1 \<le> length brands) (allowedBrands r)
     \<and> optionally sizeRangeSchema (ruleSizeRange r)
     \<and> (ruleFamily r \<noteq> None \<or> allowedBrands r \<noteq> None \<or> ruleSizeRange r \<noteq> None)"

definition flexibleMatchRuleSchema :: "match_rule \<Rightarrow> bool" where
  "flexibleMatchRuleSchema r \<longleftrightarrow> ruleBaseSchema r \<and> exactEan r = None
     \<and> optionally nonEmpty (ruleFamily r) \<and> ruleFamily r \<noteq> None
     \<and> allowedBrands r = None \<and> ruleSizeRange r = None"

definition matchRuleSchema :: "match_rule \<Rightarrow> match_rule option" where
  "matchRuleSchema r =
     (if (case ruleMode r of ExactMode \<Rightarrow> exactMatchRuleSchema r
          | ConstrainedMode \<Rightarrow> constrainedMatchRuleSchema r
          | FlexibleMode \<Rightarrow> flexibleMatchRuleSchema r)
      then Some r else None)"

definition productSchema :: "product \<Rightarrow> product option" where
  "productSchema p =
     (if eanSchema (productEan p) \<and> nonEmpty (productName p) \<and> optionally nonEmpty (productBrand p)
         \<and> optionally (\<lambda>q. 0 < q) (packageQuantity p)
         \<and> optionally (\<lambda>u. u \<in> {Gram, Millilitre, Each}) (packageUnit p)
         \<and> optionally nonEmpty (productFamily p)
      then Some p else None)"

definition priceObservationBase :: "price_observation \<Rightarrow> bool" where
  "priceObservationBase p \<longleftrightarrow>
     eanSchema (priceEan p) \<and> moneyOreSchema (amountOre p) \<and> canonicalTimestamp (priceObservedAt p)"

definition sourceNeutralPriceObservationSchema :: "price_observation \<Rightarrow> price_observation option" where
  "sourceNeutralPriceObservationSchema p =
     (if priceObservationBase p then map_option (\<lambda>s. p\<lparr>priceSource := s\<rparr>) (sourceIdSchema (priceSource p)) else None)"

definition priceObservationSchema :: "price_observation \<Rightarrow> price_observation option" where
  "priceObservationSchema p = (if priceObservationBase p \<and> priceSource p = ''kassalapp'' then Some p else None)"

text \<open>The two request schemas differ in the price schema they use.\<close>

definition planRequestWith :: "(price_observation \<Rightarrow> price_observation option) \<Rightarrow> plan_request \<Rightarrow> plan_request option" where
  "planRequestWith price r =
     (case (parseAll needSchema (requestNeeds r), parseAll matchRuleSchema (matchingRules r),
            parseAll productSchema (requestProducts r), parseAll price (requestPrices r)) of
        (Some needs, Some rules, Some products, Some prices) \<Rightarrow>
          (if requestMaxStores r \<in> {1, 2, 3}
           then Some \<lparr>requestNeeds = needs, matchingRules = rules, requestProducts = products,
                  requestPrices = prices, requestMaxStores = requestMaxStores r\<rparr>
           else None)
      | _ \<Rightarrow> None)"

definition sourceNeutralPlanRequestSchema :: "plan_request \<Rightarrow> plan_request option" where
  "sourceNeutralPlanRequestSchema = planRequestWith sourceNeutralPriceObservationSchema"

definition planRequestSchema :: "plan_request \<Rightarrow> plan_request option" where
  "planRequestSchema = planRequestWith priceObservationSchema"

definition assignmentSchemaWith :: "(string \<Rightarrow> string option) \<Rightarrow> assignment \<Rightarrow> assignment option" where
  "assignmentSchemaWith source a =
     (case (source (assignmentSource a), parseOptional fulfilmentSchema (assignmentFulfilment a)) of
        (Some s, Some f) \<Rightarrow>
          (if nonEmpty (assignmentNeedId a) \<and> eanSchema (assignmentEan a) \<and> 0 < assignmentQuantity a
              \<and> moneyOreSchema (assignmentCostOre a) \<and> canonicalTimestamp (assignmentObservedAt a)
           then Some (a\<lparr>assignmentSource := s, assignmentFulfilment := f\<rparr>) else None)
      | _ \<Rightarrow> None)"

definition planResultWith :: "(string \<Rightarrow> string option) \<Rightarrow> plan_result \<Rightarrow> plan_result option" where
  "planResultWith source p =
     (case parseAll (assignmentSchemaWith source) (planAssignments p) of
        Some as \<Rightarrow>
          (if nonEmpty (planId p) \<and> moneyOreSchema (planTotalOre p)
              \<and> length (planChains p) \<le> 3 \<and> length (uniq (planChains p)) = length (planChains p)
           then Some (p\<lparr>planAssignments := as\<rparr>) else None)
      | None \<Rightarrow> None)"

definition sourceNeutralPlanResultSchema :: "plan_result \<Rightarrow> plan_result option" where
  "sourceNeutralPlanResultSchema = planResultWith sourceIdSchema"

definition planResultSchema :: "plan_result \<Rightarrow> plan_result option" where
  "planResultSchema = planResultWith (\<lambda>s. if s = ''kassalapp'' then Some s else None)"

section \<open>Schemas as invariants\<close>

lemma needSchema_iff [schema_simps]:
  "needSchema n = Some n' \<longleftrightarrow> n' = n \<and> nonEmpty (needId n) \<and> nonEmpty (needQuery n)
     \<and> 0 < needQuantity n \<and> nonEmpty (needRuleId n)"
  by (auto simp: needSchema_def)

lemma needSchema_same: "needSchema n = Some n' \<Longrightarrow> n' = n"
  by (simp add: needSchema_iff)

lemma matchRuleSchema_same: "matchRuleSchema r = Some r' \<Longrightarrow> r' = r"
  by (simp add: matchRuleSchema_def split: if_splits)

lemma productSchema_same: "productSchema p = Some p' \<Longrightarrow> p' = p"
  by (simp add: productSchema_def split: if_splits)

lemma priceSchema_idem:
  "sourceNeutralPriceObservationSchema p = Some q \<Longrightarrow> sourceNeutralPriceObservationSchema q = Some q"
  by (auto simp: sourceNeutralPriceObservationSchema_def priceObservationBase_def
      split: if_splits dest: sourceIdSchema_idem)

lemma priceSchema_fields:
  assumes "sourceNeutralPriceObservationSchema p = Some q"
  shows "eanSchema (priceEan q)" "moneyOreSchema (amountOre q)" "canonicalTimestamp (priceObservedAt q)"
    "sourceIdSchema (priceSource q) = Some (priceSource q)"
  using assms by (auto simp: sourceNeutralPriceObservationSchema_def priceObservationBase_def
      split: if_splits dest: sourceIdSchema_idem)

text \<open>A parsed request is a fixed point of its own schema.\<close>

definition wellFormedRequest :: "plan_request \<Rightarrow> bool" where
  "wellFormedRequest r \<longleftrightarrow>
     (\<forall>n \<in> set (requestNeeds r). needSchema n = Some n)
     \<and> (\<forall>m \<in> set (matchingRules r). matchRuleSchema m = Some m)
     \<and> (\<forall>p \<in> set (requestProducts r). productSchema p = Some p)
     \<and> (\<forall>p \<in> set (requestPrices r). sourceNeutralPriceObservationSchema p = Some p)
     \<and> requestMaxStores r \<in> {1, 2, 3}"

lemma parsed_request_wellFormed:
  assumes "sourceNeutralPlanRequestSchema r = Some v"
  shows "wellFormedRequest v"
proof -
  have p: "parseAll needSchema (requestNeeds r) = Some (requestNeeds v)"
    "parseAll matchRuleSchema (matchingRules r) = Some (matchingRules v)"
    "parseAll productSchema (requestProducts r) = Some (requestProducts v)"
    "parseAll sourceNeutralPriceObservationSchema (requestPrices r) = Some (requestPrices v)"
    "requestMaxStores v \<in> {1, 2, 3}"
    using assms
    by (auto simp: sourceNeutralPlanRequestSchema_def planRequestWith_def split: option.splits if_splits)
  have "needSchema n = Some n" if "n \<in> set (requestNeeds v)" for n
    using parseAll_in [OF p(1) that] by (auto simp: needSchema_iff)
  moreover have "matchRuleSchema m = Some m" if "m \<in> set (matchingRules v)" for m
    using parseAll_in [OF p(2) that] by (auto dest: matchRuleSchema_same)
  moreover have "productSchema q = Some q" if "q \<in> set (requestProducts v)" for q
    using parseAll_in [OF p(3) that] by (auto dest: productSchema_same)
  moreover have "sourceNeutralPriceObservationSchema q = Some q" if "q \<in> set (requestPrices v)" for q
    using parseAll_in [OF p(4) that] by (auto dest: priceSchema_idem)
  ultimately show ?thesis using p(5) by (simp add: wellFormedRequest_def)
qed

end
