(* ===== verification/Price_Eligibility.thy ===== *)
theory Price_Eligibility
  imports Contract_Primitives
begin

text \<open>\<open>packages/domain/src/price-eligibility.ts\<close>: the freshness classes of an observed price.\<close>

definition ELIGIBLE_MAX_AGE_MS :: int where
  "ELIGIBLE_MAX_AGE_MS = 72 * 60 * 60 * 1000"

definition STALE_VISIBLE_MAX_AGE_MS :: int where
  "STALE_VISIBLE_MAX_AGE_MS = 14 * 24 * 60 * 60 * 1000"

datatype freshness = Eligible | StaleVisible | Historical | Invalid

text \<open>A difference with an invalid date is \<open>NaN\<close>, which no comparison admits.\<close>

definition classifyFreshness :: "date \<Rightarrow> date \<Rightarrow> freshness" where
  "classifyFreshness now observedAt =
     (case (now, observedAt) of
        (Some n, Some t) \<Rightarrow>
          (let elapsedMs = n - t in
           if elapsedMs < 0 then Invalid
           else if elapsedMs \<le> ELIGIBLE_MAX_AGE_MS then Eligible
           else if elapsedMs \<le> STALE_VISIBLE_MAX_AGE_MS then StaleVisible
           else Historical)
      | _ \<Rightarrow> Historical)"

lemma classify_eligible [simp]:
  "classifyFreshness (Some n) (Some t) = Eligible \<longleftrightarrow> t \<le> n \<and> n - t \<le> ELIGIBLE_MAX_AGE_MS"
  by (auto simp: classifyFreshness_def Let_def)

text \<open>
  Freshness only ever decays: an observation that is eligible now was eligible at every earlier moment since
  it was made, and once it is no longer eligible (or no longer visible) it never becomes so again.
\<close>

definition freshnessRank :: "freshness \<Rightarrow> nat" where
  "freshnessRank f = (case f of Invalid \<Rightarrow> 0 | Eligible \<Rightarrow> 1 | StaleVisible \<Rightarrow> 2 | Historical \<Rightarrow> 3)"

theorem freshness_decays:
  assumes "n \<le> m"
  shows "freshnessRank (classifyFreshness (Some n) (Some t)) \<le> freshnessRank (classifyFreshness (Some m) (Some t))"
  using assms
  by (auto simp: classifyFreshness_def freshnessRank_def Let_def ELIGIBLE_MAX_AGE_MS_def STALE_VISIBLE_MAX_AGE_MS_def)

theorem freshness_decays_witness:
  "freshnessRank (classifyFreshness (Some 1000) (Some 0)) \<le> freshnessRank (classifyFreshness (Some 259200001) (Some 0))
    \<and> classifyFreshness (Some 259200000) (Some 0) = Eligible
    \<and> classifyFreshness (Some 259200001) (Some 0) = StaleVisible"
proof -
  have "freshnessRank (classifyFreshness (Some 1000) (Some 0)) \<le> freshnessRank (classifyFreshness (Some 259200001) (Some 0))"
    by (rule freshness_decays) simp
  moreover have "classifyFreshness (Some 259200000) (Some 0) = Eligible" by code_simp
  moreover have "classifyFreshness (Some 259200001) (Some 0) = StaleVisible" by code_simp
  ultimately show ?thesis by blast
qed

end
