(* ===== verification/Matching.thy ===== *)
theory Matching
  imports Contracts
begin

text \<open>
  \<open>packages/domain/src/matching.ts\<close>: which products satisfy a need under an approved match rule, one per EAN.
\<close>

definition normalize :: "host \<Rightarrow> string \<Rightarrow> string" where
  "normalize h s = localeLower h (trim s)"

definition matchesConstraints :: "host \<Rightarrow> product \<Rightarrow> match_rule \<Rightarrow> bool" where
  "matchesConstraints h p r =
     (if ruleMode r = ExactMode then Some (productEan p) = exactEan r
      else if (case ruleFamily r of None \<Rightarrow> False | Some f \<Rightarrow>
                 (case productFamily p of None \<Rightarrow> True | Some g \<Rightarrow> normalize h g \<noteq> normalize h f)) then False
      else if ruleMode r = ConstrainedMode \<and>
              (case allowedBrands r of None \<Rightarrow> False | Some brands \<Rightarrow>
                 (case productBrand p of None \<Rightarrow> True
                  | Some b \<Rightarrow> \<not> list_ex (\<lambda>brand. normalize h brand = normalize h b) brands)) then False
      else if ruleMode r = ConstrainedMode \<and>
              (case ruleSizeRange r of None \<Rightarrow> False | Some bounds \<Rightarrow>
                 (case packageQuantity p of None \<Rightarrow> True
                  | Some q \<Rightarrow> packageUnit p \<noteq> Some (sizeUnit bounds) \<or> q < sizeMin bounds \<or> q > sizeMax bounds)) then False
      else True)"

fun joinText :: "string \<Rightarrow> string list \<Rightarrow> string" where
  "joinText sep [] = ''''"
| "joinText sep [x] = x"
| "joinText sep (x # y # ys) = x @ sep @ joinText sep (y # ys)"

definition orEmpty :: "string option \<Rightarrow> string" where
  "orEmpty x = (case x of None \<Rightarrow> '''' | Some s \<Rightarrow> s)"

definition productKey :: "host \<Rightarrow> product \<Rightarrow> string" where
  "productKey h p = joinText [char_of (0 :: nat)]
     [productEan p, productName p, orEmpty (productBrand p),
      orEmpty (map_option (numberText h) (packageQuantity p)),
      orEmpty (map_option unitText (packageUnit p)),
      orEmpty (productFamily p)]"

definition setIfAbsent :: "product \<Rightarrow> (string \<times> product) list \<Rightarrow> (string \<times> product) list" where
  "setIfAbsent p m = (if productEan p \<in> fst ` set m then m else AList.update (productEan p) p m)"

definition matchProducts :: "host \<Rightarrow> need \<Rightarrow> match_rule \<Rightarrow> product list \<Rightarrow> product list" where
  "matchProducts h need rule products =
     (case (needSchema need, matchRuleSchema rule) of
        (Some n, Some r) \<Rightarrow>
          (if needRuleId n \<noteq> ruleId r then []
           else
             (let validProducts = List.map_filter productSchema products;
                  matches = sort_by (\<lambda>x y. compareText (productKey h x) (productKey h y))
                              (filter (\<lambda>p. matchesConstraints h p r) validProducts);
                  uniqueByEan = fold setIfAbsent matches []
              in sort_by (\<lambda>x y. compareText (productEan x) (productEan y)) (map snd uniqueByEan)))
      | _ \<Rightarrow> [])"

section \<open>Lemmas\<close>

interpretation by_product_key: comparator "\<lambda>x y. compareText (productKey h x) (productKey h y)" for h
  by (intro comparator_intros)

interpretation by_ean: comparator "\<lambda>x y. compareText (productEan x) (productEan y)"
  by (intro comparator_intros)

text \<open>The map keeps, for every EAN, its first product.\<close>

lemma distinct_fold_setIfAbsent: "distinct (map fst (fold setIfAbsent ps []))"
  by (induction ps rule: rev_induct) (simp_all add: setIfAbsent_def distinct_update)

lemma map_of_setIfAbsent:
  "map_of (setIfAbsent p m) e = (case map_of m e of None \<Rightarrow> (if productEan p = e then Some p else None) | Some q \<Rightarrow> Some q)"
  using map_of_eq_None_iff [of m "productEan p"]
  by (auto simp: setIfAbsent_def update_conv' split: option.splits)

lemma map_of_fold_setIfAbsent:
  "map_of (fold setIfAbsent ps []) e = find (\<lambda>p. productEan p = e) ps"
  by (induction ps rule: rev_induct) (simp_all add: map_of_setIfAbsent find_snoc)

lemma fold_setIfAbsent_mem:
  "(e, p) \<in> set (fold setIfAbsent ps []) \<longleftrightarrow> find (\<lambda>q. productEan q = e) ps = Some p"
  using distinct_fold_setIfAbsent by (metis map_of_eq_Some_iff map_of_fold_setIfAbsent)

lemma firstPerEan_mem:
  "p \<in> set (map snd (fold setIfAbsent ps [])) \<longleftrightarrow> find (\<lambda>q. productEan q = productEan p) ps = Some p"
proof -
  have "p \<in> set (map snd (fold setIfAbsent ps [])) \<longleftrightarrow> (\<exists>e. (e, p) \<in> set (fold setIfAbsent ps []))"
    by force
  also have "\<dots> \<longleftrightarrow> find (\<lambda>q. productEan q = productEan p) ps = Some p"
    unfolding fold_setIfAbsent_mem by (auto dest: find_SomeD)
  finally show ?thesis .
qed

lemma firstPerEan_eans: "distinct (map productEan (map snd (fold setIfAbsent ps [])))"
proof -
  have "map productEan (map snd (fold setIfAbsent ps [])) = map fst (fold setIfAbsent ps [])"
    unfolding map_map by (rule map_cong) (auto simp: fold_setIfAbsent_mem dest: find_SomeD)
  then show ?thesis using distinct_fold_setIfAbsent by metis
qed

text \<open>A valid need and a valid rule that belong together.\<close>

definition ruleFor :: "need \<Rightarrow> match_rule \<Rightarrow> bool" where
  "ruleFor n r \<longleftrightarrow> needSchema n = Some n \<and> matchRuleSchema r = Some r \<and> needRuleId n = ruleId r"

text \<open>
  What a rule asks of a product. In exact mode it names the EAN. Otherwise the product is of the family, if the rule names one; and in
  constrained mode it also bears one of the brands and its package lies in the size range, in the unit of the range, if the rule
  gives these. Texts are compared trimmed and in lower case; a product that lacks what the rule constrains does not qualify.
\<close>

definition sameText :: "host \<Rightarrow> string \<Rightarrow> string \<Rightarrow> bool" where
  "sameText h s t \<longleftrightarrow> localeLower h (trim s) = localeLower h (trim t)"

definition ofFamily :: "host \<Rightarrow> match_rule \<Rightarrow> product \<Rightarrow> bool" where
  "ofFamily h r p \<longleftrightarrow>
     (case ruleFamily r of None \<Rightarrow> True
      | Some wanted \<Rightarrow> productFamily p \<noteq> None \<and> sameText h (the (productFamily p)) wanted)"

definition ofBrand :: "host \<Rightarrow> match_rule \<Rightarrow> product \<Rightarrow> bool" where
  "ofBrand h r p \<longleftrightarrow>
     (case allowedBrands r of None \<Rightarrow> True
      | Some brands \<Rightarrow> productBrand p \<noteq> None \<and> (\<exists>brand \<in> set brands. sameText h brand (the (productBrand p))))"

definition ofSize :: "match_rule \<Rightarrow> product \<Rightarrow> bool" where
  "ofSize r p \<longleftrightarrow>
     (case ruleSizeRange r of None \<Rightarrow> True
      | Some bounds \<Rightarrow> packageUnit p = Some (sizeUnit bounds) \<and> packageQuantity p \<noteq> None
          \<and> sizeMin bounds \<le> the (packageQuantity p) \<and> the (packageQuantity p) \<le> sizeMax bounds)"

definition satisfies :: "host \<Rightarrow> match_rule \<Rightarrow> product \<Rightarrow> bool" where
  "satisfies h r p \<longleftrightarrow> productSchema p = Some p \<and>
     (case ruleMode r of
        ExactMode \<Rightarrow> exactEan r = Some (productEan p)
      | ConstrainedMode \<Rightarrow> ofFamily h r p \<and> ofBrand h r p \<and> ofSize r p
      | FlexibleMode \<Rightarrow> ofFamily h r p)"

lemma satisfies_iff: "satisfies h r p \<longleftrightarrow> productSchema p = Some p \<and> matchesConstraints h p r"
proof (cases "ruleMode r = ExactMode")
  case True
  then show ?thesis by (auto simp: satisfies_def matchesConstraints_def)
next
  case False
  have family: "(case ruleFamily r of None \<Rightarrow> False | Some f \<Rightarrow>
      (case productFamily p of None \<Rightarrow> True | Some g \<Rightarrow> normalize h g \<noteq> normalize h f)) \<longleftrightarrow> \<not> ofFamily h r p"
    by (auto simp: ofFamily_def sameText_def normalize_def split: option.split)
  have brand: "(case allowedBrands r of None \<Rightarrow> False | Some brands \<Rightarrow>
      (case productBrand p of None \<Rightarrow> True | Some b \<Rightarrow> \<not> list_ex (\<lambda>brand. normalize h brand = normalize h b) brands)) \<longleftrightarrow> \<not> ofBrand h r p"
    by (auto simp: ofBrand_def sameText_def normalize_def list_ex_iff split: option.split)
  have size: "(case ruleSizeRange r of None \<Rightarrow> False | Some bounds \<Rightarrow>
      (case packageQuantity p of None \<Rightarrow> True
       | Some q \<Rightarrow> packageUnit p \<noteq> Some (sizeUnit bounds) \<or> q < sizeMin bounds \<or> q > sizeMax bounds)) \<longleftrightarrow> \<not> ofSize r p"
    by (auto simp: ofSize_def not_less split: option.split)
  show ?thesis unfolding satisfies_def matchesConstraints_def family brand size using False by (cases "ruleMode r") simp_all
qed

lemma matchProducts_mem:
  assumes "ruleFor n r"
  shows "p \<in> set (matchProducts h n r ps) \<longleftrightarrow>
    find (\<lambda>q. productEan q = productEan p)
      (sort_by (\<lambda>x y. compareText (productKey h x) (productKey h y))
        (filter (\<lambda>p. matchesConstraints h p r) (List.map_filter productSchema ps))) = Some p"
  using assms by (simp add: matchProducts_def ruleFor_def Let_def flip: firstPerEan_mem)

lemma valid_products: "q \<in> set (List.map_filter productSchema ps) \<longleftrightarrow> q \<in> set ps \<and> productSchema q = Some q"
  by (auto simp: mem_map_filter dest: productSchema_same)

lemma matchProducts_unmatched: "\<not> ruleFor n r \<Longrightarrow> matchProducts h n r ps = []"
  by (cases "needSchema n"; cases "matchRuleSchema r")
    (auto simp: matchProducts_def ruleFor_def dest: needSchema_same matchRuleSchema_same)

lemma matchProducts_sound:
  assumes "p \<in> set (matchProducts h n r ps)"
  shows "p \<in> set ps \<and> satisfies h r p \<and> ruleFor n r"
proof -
  have r: "ruleFor n r" using assms matchProducts_unmatched by fastforce
  from assms r show ?thesis
    by (auto simp: matchProducts_mem satisfies_iff valid_products dest!: find_SomeD)
qed

lemma matchProducts_complete:
  assumes "ruleFor n r" and "p \<in> set ps" and "satisfies h r p"
  obtains q where "q \<in> set (matchProducts h n r ps)" and "productEan q = productEan p"
    and "productKey h q \<le> productKey h p"
proof -
  let ?c = "\<lambda>x y. compareText (productKey h x) (productKey h y)"
  let ?ms = "sort_by ?c (filter (\<lambda>p. matchesConstraints h p r) (List.map_filter productSchema ps))"
  have p: "p \<in> set ?ms" using assms by (simp add: valid_products satisfies_iff)
  then obtain q where q: "find (\<lambda>q. productEan q = productEan p) ?ms = Some q"
    by (metis (mono_tags, lifting) find_None_iff not_None_eq)
  then have e: "productEan q = productEan p" by (auto simp: find_Some_iff)
  have "q \<in> set (matchProducts h n r ps)"
    using q e by (simp add: matchProducts_mem [OF assms(1)])
  moreover have "q = p \<or> ?c q p \<le> 0"
    by (rule find_sorted_min [OF by_product_key.sorted_sort_by q p]) simp
  then have "productKey h q \<le> productKey h p" by auto
  ultimately show ?thesis using e that by blast
qed

lemma matchProducts_sorted:
  "sorted_wrt (\<lambda>p q. productEan p < productEan q) (matchProducts h n r ps)"
proof -
  let ?c = "\<lambda>x y. compareText (productEan x) (productEan y)"
  have "sorted_wrt (\<lambda>p q. productEan p < productEan q) (sort_by ?c xs)"
    if "distinct (map productEan xs)" for xs :: "product list"
  proof -
    have "sorted_wrt (\<lambda>p q. ?c p q \<le> 0) (sort_by ?c xs)" by (rule by_ean.sorted_sort_by)
    moreover have "distinct (map productEan (sort_by ?c xs))" using that by simp
    ultimately show ?thesis by (auto simp: sorted_wrt_iff_nth_less distinct_conv_nth order.strict_iff_order)
  qed
  then show ?thesis using firstPerEan_eans
    by (auto simp: matchProducts_def Let_def split: option.splits)
qed

section \<open>Properties\<close>

text \<open>
  C9. \<open>matchProducts\<close> returns, for every EAN of a valid product that meets the rule, one such product: nothing else, nothing at all
  unless need and rule are valid and belong together, in strictly increasing EAN order, and of the products of one EAN
  that meet the rule the one with the least key.
\<close>

theorem matchProducts_correct:
  "productEan ` set (matchProducts h n r ps) = (if ruleFor n r then productEan ` {p \<in> set ps. satisfies h r p} else {})
   \<and> sorted_wrt (\<lambda>p q. productEan p < productEan q) (matchProducts h n r ps)
   \<and> (\<forall>p \<in> set (matchProducts h n r ps). p \<in> set ps \<and> satisfies h r p
        \<and> (\<forall>q \<in> set ps. satisfies h r q \<and> productEan q = productEan p \<longrightarrow> productKey h p \<le> productKey h q))"
proof -
  have "productEan ` set (matchProducts h n r ps) = (if ruleFor n r then productEan ` {p \<in> set ps. satisfies h r p} else {})"
  proof (cases "ruleFor n r")
    case True
    have "productEan p \<in> productEan ` set (matchProducts h n r ps)" if "p \<in> set ps" "satisfies h r p" for p
      using matchProducts_complete [OF True that] by (metis imageI)
    then show ?thesis using True by (auto dest: matchProducts_sound)
  qed (simp add: matchProducts_unmatched)
  moreover have "productKey h p \<le> productKey h q"
    if p: "p \<in> set (matchProducts h n r ps)" and q: "q \<in> set ps" "satisfies h r q" "productEan q = productEan p"
    for p q
  proof -
    have "ruleFor n r" using matchProducts_sound [OF p] by simp
    then obtain p' where p': "p' \<in> set (matchProducts h n r ps)" "productEan p' = productEan q"
      "productKey h p' \<le> productKey h q"
      using matchProducts_complete q(1,2) by metis
    have "p' = p"
      using p p'(1,2) q(3) \<open>ruleFor n r\<close> by (simp add: matchProducts_mem)
    with p'(3) show ?thesis by simp
  qed
  ultimately show ?thesis using matchProducts_sorted matchProducts_sound by blast
qed

definition milkNamed :: "string \<Rightarrow> product" where
  "milkNamed name = \<lparr>productEan = ''70380001'', productName = name, productBrand = None, packageQuantity = None,
     packageUnit = None, productFamily = Some ''Milk''\<rparr>"

theorem matchProducts_correct_witness:
  "let h = \<lparr>localeLower = (\<lambda>s. s), localeCompare = compareText, numberText = (\<lambda>q. '''')\<rparr>;
       n = \<lparr>needId = ''n'', needQuery = ''milk'', needQuantity = 1, needUnit = Each, needRuleId = ''r'', needRequired = True\<rparr>;
       r = \<lparr>ruleId = ''r'', ruleMode = FlexibleMode, exactEan = None, ruleFamily = Some ''Milk'', allowedBrands = None,
            ruleSizeRange = None, userApproved = True, ruleExplanation = ''any''\<rparr>
   in matchProducts h n r [milkNamed ''b'', milkNamed ''a''] = [milkNamed ''a'']
      \<and> productKey h (milkNamed ''a'') \<le> productKey h (milkNamed ''b'')"
proof -
  define h n r where "h = \<lparr>localeLower = (\<lambda>s. s), localeCompare = compareText, numberText = (\<lambda>q :: rat. '''')\<rparr>"
    and "n = \<lparr>needId = ''n'', needQuery = ''milk'', needQuantity = 1, needUnit = Each, needRuleId = ''r'', needRequired = True\<rparr>"
    and "r = \<lparr>ruleId = ''r'', ruleMode = FlexibleMode, exactEan = None, ruleFamily = Some ''Milk'', allowedBrands = None,
            ruleSizeRange = None, userApproved = True, ruleExplanation = ''any''\<rparr>"
  have m: "matchProducts h n r [milkNamed ''b'', milkNamed ''a''] = [milkNamed ''a'']"
    unfolding h_def n_def r_def by code_simp
  have "satisfies h r (milkNamed ''b'')" unfolding h_def r_def by code_simp
  moreover have "productEan (milkNamed ''b'') = productEan (milkNamed ''a'')" by (simp add: milkNamed_def)
  ultimately have "productKey h (milkNamed ''a'') \<le> productKey h (milkNamed ''b'')"
    using matchProducts_correct [of h n r "[milkNamed ''b'', milkNamed ''a'']"] unfolding m by simp
  with m show ?thesis by (simp add: Let_def h_def n_def r_def)
qed

end
