(* ===== verification/Fulfilment.thy ===== *)
theory Fulfilment
  imports Contracts
begin

text \<open>
  The package arithmetic of \<open>packages/domain/src/fulfilment.ts\<close>: how many whole packages cover a requested
  measure, in the first contract and in the second (which also takes requests counted in packages). Checkout
  prices are in \<open>Checkout\<close>. \<open>BigInt\<close> division of positive operands is \<open>div\<close>.
\<close>

datatype unavailable_reason = IncompatibleUnit | InvalidInput | Overflow

datatype 'f package_result = Complete 'f | Unavailable unavailable_reason

record fulfilment_input =
  inputProductId :: string
  inputNeedId :: string
  inputRequested :: package_measure
  inputPackage :: package_measure

section \<open>The first contract\<close>

definition calculatePackageFulfilment :: "fulfilment_input \<Rightarrow> fulfilment package_result" where
  "calculatePackageFulfilment i =
     (case (identifierSchema (inputProductId i), identifierSchema (inputNeedId i),
            packageMeasureSchema (inputRequested i), packageMeasureSchema (inputPackage i)) of
        (Some productId, Some nid, Some requested, Some package) \<Rightarrow>
          (if measureUnit requested \<noteq> measureUnit package then Unavailable IncompatibleUnit
           else
             (let requestedAmount = measureAmount requested;
                  packageAmount = measureAmount package;
                  count = (requestedAmount + packageAmount - 1) div packageAmount;
                  fulfilled = count * packageAmount
              in if count > MAX_SAFE_INTEGER \<or> fulfilled > MAX_SAFE_INTEGER then Unavailable Overflow
                 else (case fulfilmentSchema
                          \<lparr>fulfilmentNeedId = nid, fulfilmentProductId = productId,
                           fulfilmentRequested = requested, fulfilmentPackage = package,
                           packageCount = count, fulfilledAmount = fulfilled,
                           surplusAmount = fulfilled - requestedAmount\<rparr> of
                        None \<Rightarrow> Unavailable InvalidInput
                      | Some f \<Rightarrow> Complete f)))
      | _ \<Rightarrow> Unavailable InvalidInput)"

section \<open>The second contract\<close>

record fulfilment_v2 =
  v2NeedId :: string
  v2ProductId :: string
  v2Requested :: package_measure
  v2Package :: package_measure
  v2PackageCount :: int
  v2Purchased :: package_measure
  v2Surplus :: package_measure

definition nonNegativeMeasureSchema :: "package_measure \<Rightarrow> package_measure option" where
  "nonNegativeMeasureSchema m =
     (if nonNegativeSafeInteger (measureAmount m) \<and> normalizedMeasureUnit (measureUnit m) then Some m else None)"

definition fulfilmentV2Refinement :: "fulfilment_v2 \<Rightarrow> bool" where
  "fulfilmentV2Refinement f =
     (let requested = v2Requested f; package = v2Package f;
          expectedPackageCount =
            (if measureUnit requested = Package then measureAmount requested
             else (measureAmount requested + measureAmount package - 1) div measureAmount package);
          physicalPurchaseAmount = measureAmount package * v2PackageCount f
      in v2PackageCount f = expectedPackageCount
         \<and> \<not> physicalPurchaseAmount > MAX_SAFE_INTEGER
         \<and> (if measureUnit requested = Package
             then measureUnit (v2Purchased f) = Package \<and> measureAmount (v2Purchased f) = v2PackageCount f
                  \<and> measureUnit (v2Surplus f) = Package \<and> measureAmount (v2Surplus f) = 0
             else measureUnit requested = measureUnit package
                  \<and> measureUnit (v2Purchased f) = measureUnit requested
                  \<and> measureUnit (v2Surplus f) = measureUnit requested
                  \<and> measureAmount (v2Purchased f) = physicalPurchaseAmount
                  \<and> measureAmount (v2Surplus f) = physicalPurchaseAmount - measureAmount requested))"

definition fulfilmentV2Schema :: "fulfilment_v2 \<Rightarrow> fulfilment_v2 option" where
  "fulfilmentV2Schema f =
     (case (identifierSchema (v2NeedId f), identifierSchema (v2ProductId f),
            packageMeasureSchema (v2Requested f), packageMeasureSchema (v2Package f),
            packageMeasureSchema (v2Purchased f), nonNegativeMeasureSchema (v2Surplus f)) of
        (Some nid, Some productId, Some requested, Some package, Some purchased, Some surplus) \<Rightarrow>
          (if positiveSafeInteger (v2PackageCount f) \<and> fulfilmentV2Refinement f
           then Some (f\<lparr>v2NeedId := nid, v2ProductId := productId\<rparr>) else None)
      | _ \<Rightarrow> None)"

definition calculatePackageFulfilmentV2 :: "fulfilment_input \<Rightarrow> fulfilment_v2 package_result" where
  "calculatePackageFulfilmentV2 i =
     (case (identifierSchema (inputProductId i), identifierSchema (inputNeedId i),
            packageMeasureSchema (inputRequested i), packageMeasureSchema (inputPackage i)) of
        (Some productId, Some nid, Some requested, Some package) \<Rightarrow>
          (if measureUnit requested \<noteq> Package \<and> measureUnit requested \<noteq> measureUnit package
           then Unavailable IncompatibleUnit
           else
             (let count = (if measureUnit requested = Package then measureAmount requested
                           else (measureAmount requested + measureAmount package - 1) div measureAmount package);
                  physical = count * measureAmount package
              in if count > MAX_SAFE_INTEGER \<or> physical > MAX_SAFE_INTEGER then Unavailable Overflow
                 else
                   (let purchased = (if measureUnit requested = Package
                                     then \<lparr>measureAmount = count, measureUnit = Package\<rparr>
                                     else \<lparr>measureAmount = physical, measureUnit = measureUnit requested\<rparr>);
                        surplus = (if measureUnit requested = Package
                                   then \<lparr>measureAmount = 0, measureUnit = Package\<rparr>
                                   else \<lparr>measureAmount = physical - measureAmount requested,
                                         measureUnit = measureUnit requested\<rparr>)
                    in (case fulfilmentV2Schema
                           \<lparr>v2NeedId = nid, v2ProductId = productId, v2Requested = requested,
                            v2Package = package, v2PackageCount = count, v2Purchased = purchased,
                            v2Surplus = surplus\<rparr> of
                          None \<Rightarrow> Unavailable InvalidInput
                        | Some f \<Rightarrow> Complete f))))
      | _ \<Rightarrow> Unavailable InvalidInput)"

section \<open>Whole packages\<close>

text \<open>Rounding up: the least number of packages of size \<open>p\<close> that covers \<open>r\<close>.\<close>

lemma ceiling_div_least:
  fixes r p :: int
  assumes "1 \<le> p"
  shows "r \<le> ((r + p - 1) div p) * p" and "\<And>k. r \<le> k * p \<Longrightarrow> (r + p - 1) div p \<le> k"
proof -
  define q where "q = (r + p - 1) div p"
  have q: "q * p \<le> r + p - 1" "r + p - 1 < q * p + p"
    using div_range [of p "r + p - 1"] assms by (simp_all add: q_def algebra_simps)
  then show "r \<le> ((r + p - 1) div p) * p" unfolding q_def [symmetric] by linarith
  show "(r + p - 1) div p \<le> k" if "r \<le> k * p" for k
  proof (rule ccontr)
    assume "\<not> (r + p - 1) div p \<le> k"
    then have "(k + 1) * p \<le> q * p" using assms unfolding q_def [symmetric] by (intro mult_right_mono) auto
    then have "k * p + p \<le> q * p" by (simp add: distrib_right)
    with q(1) that show False by linarith
  qed
qed

lemma ceiling_div_pos: "1 \<le> p \<Longrightarrow> 1 \<le> r \<Longrightarrow> 1 \<le> (r + p - 1) div p" for r p :: int
proof -
  assume p: "1 \<le> p" and r: "1 \<le> r"
  define q where "q = (r + p - 1) div p"
  have "r \<le> q * p" unfolding q_def by (rule ceiling_div_least(1) [OF p])
  then have "0 < q * p" using r by linarith
  then have "0 < q" using p zero_less_mult_pos2 [of q p] by simp
  then show ?thesis by (simp add: q_def)
qed

lemma ceiling_div_surplus: "1 \<le> p \<Longrightarrow> ((r + p - 1) div p) * p - r < p" for r p :: int
  using div_range(1) [of p "r + p - 1"] by (simp add: mult.commute)

text \<open>An input whose parts the schemas admit.\<close>

definition validInput :: "fulfilment_input \<Rightarrow> bool" where
  "validInput i \<longleftrightarrow> identifierSchema (inputProductId i) \<noteq> None \<and> identifierSchema (inputNeedId i) \<noteq> None
     \<and> packageMeasureSchema (inputRequested i) \<noteq> None \<and> packageMeasureSchema (inputPackage i) \<noteq> None"

lemma validInput_amounts:
  assumes "validInput i"
  shows "packageMeasureSchema (inputRequested i) = Some (inputRequested i)"
    "packageMeasureSchema (inputPackage i) = Some (inputPackage i)"
    "positiveSafeInteger (measureAmount (inputRequested i))" "positiveSafeInteger (measureAmount (inputPackage i))"
    "normalizedMeasureUnit (measureUnit (inputRequested i))" "normalizedMeasureUnit (measureUnit (inputPackage i))"
  using assms by (auto simp: validInput_def packageMeasureSchema_def split: if_splits)

lemma validInput_ids:
  assumes "validInput i"
  obtains n p where "identifierSchema (inputNeedId i) = Some n" "identifierSchema n = Some n"
    "identifierSchema (inputProductId i) = Some p" "identifierSchema p = Some p"
  using assms unfolding validInput_def by (metis identifierSchema_idem not_None_eq)

text \<open>The code's own schema never rejects what the calculation built.\<close>

lemma calculatePackageFulfilment_valid:
  assumes "validInput i" and "measureUnit (inputRequested i) = measureUnit (inputPackage i)"
  defines "r \<equiv> measureAmount (inputRequested i)" and "p \<equiv> measureAmount (inputPackage i)"
  defines "n \<equiv> (r + p - 1) div p"
  shows "if n * p > MAX_SAFE_INTEGER then calculatePackageFulfilment i = Unavailable Overflow
    else \<exists>f. calculatePackageFulfilment i = Complete f \<and> packageCount f = n \<and> fulfilledAmount f = n * p
      \<and> surplusAmount f = n * p - r \<and> fulfilmentRequested f = inputRequested i \<and> fulfilmentPackage f = inputPackage i"
proof -
  obtain nid pid where ids: "identifierSchema (inputNeedId i) = Some nid" "identifierSchema nid = Some nid"
    "identifierSchema (inputProductId i) = Some pid" "identifierSchema pid = Some pid"
    using validInput_ids [OF assms(1)] .
  note m = validInput_amounts [OF assms(1)]
  have p: "1 \<le> p" and r: "1 \<le> r" using m(3,4) by (simp_all add: positiveSafeInteger_def r_def p_def)
  have n: "1 \<le> n" "r \<le> n * p"
    unfolding n_def using ceiling_div_pos [OF p r] ceiling_div_least(1) [OF p] by auto
  have "n \<le> n * p" using n(1) p by (simp add: mult_le_cancel_left1)
  then have "MAX_SAFE_INTEGER < n * p" if "MAX_SAFE_INTEGER < n" using that by linarith
  then show ?thesis
    using ids m(1,2) n r assms(2)
    by (auto simp: calculatePackageFulfilment_def Let_def fulfilmentSchema_def fulfilmentRefinement_def positiveSafeInteger_def
        nonNegativeSafeInteger_def mult.commute simp flip: r_def p_def n_def)
qed

lemma calculatePackageFulfilment_schema:
  "calculatePackageFulfilment i = Complete f \<Longrightarrow> fulfilmentSchema f = Some f"
  by (auto simp: calculatePackageFulfilment_def Let_def dest: fulfilmentSchema_idem split: option.splits if_splits)

lemma calculatePackageFulfilment_complete:
  assumes "calculatePackageFulfilment i = Complete f"
  defines "r \<equiv> measureAmount (inputRequested i)" and "p \<equiv> measureAmount (inputPackage i)"
  shows "1 \<le> p" "packageCount f = (r + p - 1) div p" "fulfilledAmount f = packageCount f * p"
proof -
  have "validInput i" using assms(1) by (auto simp: calculatePackageFulfilment_def validInput_def split: option.splits)
  moreover have "measureUnit (inputRequested i) = measureUnit (inputPackage i)"
    using assms(1) validInput_amounts(1,2) [OF \<open>validInput i\<close>]
    by (auto simp: calculatePackageFulfilment_def split: option.splits if_splits)
  ultimately show "1 \<le> p" "packageCount f = (r + p - 1) div p" "fulfilledAmount f = packageCount f * p"
    using validInput_amounts(4) calculatePackageFulfilment_valid [of i] assms(1)
    by (auto simp: p_def r_def positiveSafeInteger_def split: if_splits)
qed

text \<open>The packages that meet a request: as many as asked for, or the fewest whose contents cover the measure asked for.\<close>

definition packagesFor :: "fulfilment_input \<Rightarrow> int \<Rightarrow> bool" where
  "packagesFor i n \<longleftrightarrow>
     (let r = measureAmount (inputRequested i); p = measureAmount (inputPackage i)
      in if measureUnit (inputRequested i) = Package then n = r
         else measureUnit (inputPackage i) = measureUnit (inputRequested i) \<and> (n - 1) * p < r \<and> r \<le> n * p)"

text \<open>The record of buying \<open>n\<close> packages: requests in packages are met exactly, others by the contents.\<close>

definition packagesBought :: "fulfilment_input \<Rightarrow> int \<Rightarrow> fulfilment_v2" where
  "packagesBought i n =
     (let amounts = (if measureUnit (inputRequested i) = Package then (n, 0)
                     else (n * measureAmount (inputPackage i), n * measureAmount (inputPackage i) - measureAmount (inputRequested i)))
      in \<lparr>v2NeedId = the (identifierSchema (inputNeedId i)), v2ProductId = the (identifierSchema (inputProductId i)),
          v2Requested = inputRequested i, v2Package = inputPackage i, v2PackageCount = n,
          v2Purchased = \<lparr>measureAmount = fst amounts, measureUnit = measureUnit (inputRequested i)\<rparr>,
          v2Surplus = \<lparr>measureAmount = snd amounts, measureUnit = measureUnit (inputRequested i)\<rparr>\<rparr>)"

lemma packagesFor_iff:
  assumes "validInput i"
  shows "packagesFor i n \<longleftrightarrow>
    (measureUnit (inputRequested i) \<noteq> Package \<longrightarrow> measureUnit (inputRequested i) = measureUnit (inputPackage i))
    \<and> n = (if measureUnit (inputRequested i) = Package then measureAmount (inputRequested i)
           else (measureAmount (inputRequested i) + measureAmount (inputPackage i) - 1) div measureAmount (inputPackage i))"
proof -
  let ?r = "measureAmount (inputRequested i)" and ?p = "measureAmount (inputPackage i)"
  let ?q = "(?r + ?p - 1) div ?p"
  have p: "1 \<le> ?p" using validInput_amounts(4) [OF assms] by (simp add: positiveSafeInteger_def)
  note least = ceiling_div_least [OF p, of ?r]
  have "(?q - 1) * ?p < ?r" using least(2) [of "?q - 1"] by linarith
  moreover have "n = ?q" if n: "(n - 1) * ?p < ?r" "?r \<le> n * ?p"
  proof -
    have "(n - 1) * ?p < ?q * ?p" using n(1) least(1) by linarith
    then have "n - 1 < ?q" using p by simp
    with least(2) [OF n(2)] show ?thesis by linarith
  qed
  ultimately show ?thesis using least(1) by (auto simp: packagesFor_def Let_def)
qed

lemma calculatePackageFulfilmentV2_valid:
  assumes "validInput i" and n: "packagesFor i n"
  defines "p \<equiv> measureAmount (inputPackage i)"
  shows "calculatePackageFulfilmentV2 i =
    (if n * p > MAX_SAFE_INTEGER then Unavailable Overflow else Complete (packagesBought i n))"
proof -
  obtain nid pid where ids: "identifierSchema (inputNeedId i) = Some nid" "identifierSchema nid = Some nid"
    "identifierSchema (inputProductId i) = Some pid" "identifierSchema pid = Some pid"
    using validInput_ids [OF assms(1)] .
  define r where "r = measureAmount (inputRequested i)"
  note m = validInput_amounts [OF assms(1)] and pk = n [unfolded packagesFor_iff [OF assms(1)], folded r_def p_def]
  have p: "1 \<le> p" and r: "1 \<le> r" using m(3,4) by (simp_all add: positiveSafeInteger_def r_def p_def)
  have n1: "1 \<le> n" using ceiling_div_pos [OF p r] r pk by (simp split: if_splits)
  then have "n \<le> n * p" using p by (simp add: mult_le_cancel_left1)
  then have np: "MAX_SAFE_INTEGER < n * p" if "MAX_SAFE_INTEGER < n" using that by linarith
  show ?thesis
  proof (cases "measureUnit (inputRequested i) = Package")
    case True
    then have "n = r" using pk by simp
    then show ?thesis
      using True ids m(1,2) n1 np
      by (auto simp: calculatePackageFulfilmentV2_def Let_def fulfilmentV2Schema_def fulfilmentV2Refinement_def packagesBought_def
          packageMeasureSchema_def nonNegativeMeasureSchema_def positiveSafeInteger_def normalizedMeasureUnit_def
          nonNegativeSafeInteger_def MAX_SAFE_INTEGER_def mult.commute simp flip: r_def p_def split: if_splits)
  next
    case False
    then have u: "measureUnit (inputRequested i) = measureUnit (inputPackage i)" and nq: "n = (r + p - 1) div p" using pk by auto
    have c: "r \<le> n * p" unfolding nq by (rule ceiling_div_least(1) [OF p])
    show ?thesis
      using False ids m n1 np c u r
      by (auto simp: calculatePackageFulfilmentV2_def Let_def fulfilmentV2Schema_def fulfilmentV2Refinement_def packagesBought_def
          packageMeasureSchema_def nonNegativeMeasureSchema_def positiveSafeInteger_def
          nonNegativeSafeInteger_def mult.commute simp flip: r_def p_def nq split: if_splits)
  qed
qed

lemma unavailable_cases:
  "calculatePackageFulfilment i = Unavailable InvalidInput" if "\<not> validInput i"
  using that by (auto simp: calculatePackageFulfilment_def validInput_def split: option.splits)

lemma calculatePackageFulfilment_incompatible:
  assumes "validInput i" and "measureUnit (inputRequested i) \<noteq> measureUnit (inputPackage i)"
  shows "calculatePackageFulfilment i = Unavailable IncompatibleUnit"
proof -
  obtain nid pid where "identifierSchema (inputNeedId i) = Some nid" "identifierSchema (inputProductId i) = Some pid"
    using validInput_ids [OF assms(1)] by blast
  then show ?thesis
    using validInput_amounts(1,2) [OF assms(1)] assms(2) by (simp add: calculatePackageFulfilment_def)
qed

lemma calculatePackageFulfilmentV2_invalid:
  "\<not> validInput i \<Longrightarrow> calculatePackageFulfilmentV2 i = Unavailable InvalidInput"
  by (auto simp: calculatePackageFulfilmentV2_def validInput_def split: option.splits)

lemma calculatePackageFulfilmentV2_incompatible:
  assumes "validInput i" and "measureUnit (inputRequested i) \<noteq> Package"
    and "measureUnit (inputRequested i) \<noteq> measureUnit (inputPackage i)"
  shows "calculatePackageFulfilmentV2 i = Unavailable IncompatibleUnit"
proof -
  obtain nid pid where "identifierSchema (inputNeedId i) = Some nid" "identifierSchema (inputProductId i) = Some pid"
    using validInput_ids [OF assms(1)] by blast
  then show ?thesis
    using validInput_amounts(1,2) [OF assms(1)] assms(2,3) by (simp add: calculatePackageFulfilmentV2_def)
qed

section \<open>Properties\<close>

text \<open>
  C7. The first package calculation is exact on every branch: a complete result has the least number of whole packages
  that covers the request, a surplus smaller than one package, and consistent amounts; an overflow means no whole
  number of packages covers the request within the safe integers; an invalid result means an input no schema
  admits, so the calculation never builds a record its own schema rejects.
\<close>

theorem package_fulfilment_exact:
  "case calculatePackageFulfilment i of
     Complete f \<Rightarrow> validInput i \<and> measureUnit (inputRequested i) = measureUnit (inputPackage i)
       \<and> fulfilledAmount f = packageCount f * measureAmount (inputPackage i)
       \<and> surplusAmount f = fulfilledAmount f - measureAmount (inputRequested i)
       \<and> 0 \<le> surplusAmount f \<and> surplusAmount f < measureAmount (inputPackage i)
       \<and> (\<forall>k. measureAmount (inputRequested i) \<le> k * measureAmount (inputPackage i) \<longrightarrow> packageCount f \<le> k)
   | Unavailable IncompatibleUnit \<Rightarrow> validInput i \<and> measureUnit (inputRequested i) \<noteq> measureUnit (inputPackage i)
   | Unavailable Overflow \<Rightarrow> validInput i \<and> measureUnit (inputRequested i) = measureUnit (inputPackage i)
       \<and> (\<forall>k. measureAmount (inputRequested i) \<le> k * measureAmount (inputPackage i)
            \<longrightarrow> MAX_SAFE_INTEGER < k * measureAmount (inputPackage i))
   | Unavailable InvalidInput \<Rightarrow> \<not> validInput i"
proof (cases "validInput i")
  case valid: True
  define r p where "r = measureAmount (inputRequested i)" and "p = measureAmount (inputPackage i)"
  have p: "1 \<le> p" using validInput_amounts(4) [OF valid] by (simp add: p_def positiveSafeInteger_def)
  note least = ceiling_div_least [OF p, of r] and surplus = ceiling_div_surplus [OF p, of r]
  show ?thesis
  proof (cases "measureUnit (inputRequested i) = measureUnit (inputPackage i)")
    case True
    note result = calculatePackageFulfilment_valid [OF valid True, folded r_def p_def]
    show ?thesis
    proof (cases "(r + p - 1) div p * p > MAX_SAFE_INTEGER")
      case over: True
      have "MAX_SAFE_INTEGER < k * p" if "r \<le> k * p" for k
        using mult_right_mono [OF least(2) [OF that], of p] p over by linarith
      with over result valid True show ?thesis by (simp flip: r_def p_def)
    next
      case False
      then obtain f where "calculatePackageFulfilment i = Complete f" "packageCount f = (r + p - 1) div p"
        "fulfilledAmount f = (r + p - 1) div p * p" "surplusAmount f = (r + p - 1) div p * p - r"
        using result by auto
      then show ?thesis using valid True least surplus by (simp flip: r_def p_def)
    qed
  next
    case False
    then show ?thesis using calculatePackageFulfilment_incompatible [OF valid] valid by simp
  qed
qed (simp add: unavailable_cases)

theorem package_fulfilment_exact_witness:
  "\<exists>f. calculatePackageFulfilment \<lparr>inputProductId = ''7038010000010'', inputNeedId = ''melk'',
      inputRequested = \<lparr>measureAmount = 2500, measureUnit = Millilitre\<rparr>,
      inputPackage = \<lparr>measureAmount = 1000, measureUnit = Millilitre\<rparr>\<rparr> = Complete f
    \<and> packageCount f = 3 \<and> surplusAmount f = 500 \<and> surplusAmount f < 1000"
proof -
  define i where "i = \<lparr>inputProductId = ''7038010000010'', inputNeedId = ''melk'',
      inputRequested = \<lparr>measureAmount = 2500, measureUnit = Millilitre\<rparr>,
      inputPackage = \<lparr>measureAmount = 1000, measureUnit = Millilitre\<rparr>\<rparr>"
  have "(case calculatePackageFulfilment i of Complete f \<Rightarrow> packageCount f = 3 \<and> surplusAmount f = 500 | _ \<Rightarrow> False)"
    unfolding i_def by code_simp
  then obtain f where f: "calculatePackageFulfilment i = Complete f" "packageCount f = 3" "surplusAmount f = 500"
    by (auto split: package_result.splits)
  have "surplusAmount f < measureAmount (inputPackage i)"
    using package_fulfilment_exact [of i] f(1) by simp
  with f show ?thesis by (simp add: i_def)
qed

text \<open>
  C8. The second package calculation, on every input. It is invalid just when the input does not parse, incompatible just when
  no number of packages meets the request, and an overflow just when the contents of the packages that meet it exceed the safe
  integers. In every other case it is complete and buys exactly those packages: the fewest that cover a measure, or as many as asked for.
\<close>

theorem package_fulfilment_v2_exact:
  "(calculatePackageFulfilmentV2 i = Unavailable InvalidInput \<longleftrightarrow> \<not> validInput i)
   \<and> (calculatePackageFulfilmentV2 i = Unavailable IncompatibleUnit \<longleftrightarrow> validInput i \<and> (\<nexists>n. packagesFor i n))
   \<and> (calculatePackageFulfilmentV2 i = Unavailable Overflow \<longleftrightarrow>
        validInput i \<and> (\<exists>n. packagesFor i n \<and> n * measureAmount (inputPackage i) > MAX_SAFE_INTEGER))
   \<and> (\<forall>f. calculatePackageFulfilmentV2 i = Complete f \<longleftrightarrow>
        validInput i \<and> (\<exists>n. packagesFor i n \<and> n * measureAmount (inputPackage i) \<le> MAX_SAFE_INTEGER \<and> f = packagesBought i n))"
proof (cases "validInput i")
  case valid: True
  show ?thesis
  proof (cases "\<exists>n. packagesFor i n")
    case True
    then obtain n where n: "packagesFor i n" by blast
    then have "packagesFor i m \<longleftrightarrow> m = n" for m unfolding packagesFor_iff [OF valid] by blast
    then show ?thesis using valid calculatePackageFulfilmentV2_valid [OF valid n] by auto
  next
    case False
    then have "measureUnit (inputRequested i) \<noteq> Package" "measureUnit (inputRequested i) \<noteq> measureUnit (inputPackage i)"
      unfolding packagesFor_iff [OF valid] by blast+
    then show ?thesis using False valid calculatePackageFulfilmentV2_incompatible [OF valid] by simp
  qed
qed (simp add: calculatePackageFulfilmentV2_invalid)

theorem package_fulfilment_v2_exact_witness:
  "(\<exists>f. calculatePackageFulfilmentV2 \<lparr>inputProductId = ''p'', inputNeedId = ''n'',
      inputRequested = \<lparr>measureAmount = 2500, measureUnit = Gram\<rparr>,
      inputPackage = \<lparr>measureAmount = 1000, measureUnit = Gram\<rparr>\<rparr> = Complete f \<and> v2PackageCount f = 3 \<and> measureAmount (v2Surplus f) = 500)
   \<and> calculatePackageFulfilmentV2 \<lparr>inputProductId = ''p'', inputNeedId = ''n'',
      inputRequested = \<lparr>measureAmount = 9007199254740991, measureUnit = Package\<rparr>,
      inputPackage = \<lparr>measureAmount = 2, measureUnit = Gram\<rparr>\<rparr> = Unavailable Overflow"
proof (rule conjI)
  define i where "i = \<lparr>inputProductId = ''p'', inputNeedId = ''n'',
      inputRequested = \<lparr>measureAmount = 2500, measureUnit = Gram\<rparr>, inputPackage = \<lparr>measureAmount = 1000, measureUnit = Gram\<rparr>\<rparr>"
  have "validInput i" unfolding i_def by code_simp
  moreover have "packagesFor i 3" "measureAmount (inputPackage i) = 1000" by (simp_all add: packagesFor_def i_def)
  ultimately have "calculatePackageFulfilmentV2 i = Complete (packagesBought i 3)"
    using package_fulfilment_v2_exact [of i] by (auto simp: MAX_SAFE_INTEGER_def)
  then show "\<exists>f. calculatePackageFulfilmentV2 \<lparr>inputProductId = ''p'', inputNeedId = ''n'',
      inputRequested = \<lparr>measureAmount = 2500, measureUnit = Gram\<rparr>, inputPackage = \<lparr>measureAmount = 1000, measureUnit = Gram\<rparr>\<rparr> = Complete f
    \<and> v2PackageCount f = 3 \<and> measureAmount (v2Surplus f) = 500"
    by (intro exI [of _ "packagesBought i 3"]) (simp add: i_def packagesBought_def)
next
  define i where "i = \<lparr>inputProductId = ''p'', inputNeedId = ''n'',
      inputRequested = \<lparr>measureAmount = 9007199254740991, measureUnit = Package\<rparr>,
      inputPackage = \<lparr>measureAmount = 2, measureUnit = Gram\<rparr>\<rparr>"
  have "validInput i" unfolding i_def by code_simp
  moreover have "packagesFor i 9007199254740991" "measureAmount (inputPackage i) = 2" by (simp_all add: packagesFor_def i_def)
  ultimately have "calculatePackageFulfilmentV2 i = Unavailable Overflow"
    using package_fulfilment_v2_exact [of i] by (auto simp: MAX_SAFE_INTEGER_def)
  then show "calculatePackageFulfilmentV2 \<lparr>inputProductId = ''p'', inputNeedId = ''n'',
      inputRequested = \<lparr>measureAmount = 9007199254740991, measureUnit = Package\<rparr>,
      inputPackage = \<lparr>measureAmount = 2, measureUnit = Gram\<rparr>\<rparr> = Unavailable Overflow" by (simp only: i_def)
qed

end
