(* ===== verification/Planner.thy ===== *)
theory Planner
  imports Fulfilment Matching Price_Eligibility "HOL-Library.Word"
begin

unbundle bit_operations_syntax

text \<open>
  \<open>packages/domain/src/planner.ts\<close>: the first planner. It prices every stores of at most three eligible chains,
  buys each required need at its cheapest admissible observation, and keeps the plans no other plan dominates.
  Numbers inside identities are printed by \<open>String(n)\<close>: decimal for integers, the host's text for fractions.
\<close>

section \<open>Chains\<close>

definition CHAIN_ORDER :: "chain list" where
  "CHAIN_ORDER = [Bunnpris, Extra, Rema1000, Fudi, Holdbart, Meny, Havaristen, Joker, Spar, Fastcandy,
     Europris, Engrossnett, Oda]"

definition chainRank :: "(chain \<times> int) list" where
  "chainRank = newMap (map (\<lambda>(index, c). (c, int index)) (enumerate 0 CHAIN_ORDER))"

definition rankOf :: "chain \<Rightarrow> int" where
  "rankOf c = (case map_of chainRank c of None \<Rightarrow> 0 | Some i \<Rightarrow> i)"

definition compareChains :: "chain \<Rightarrow> chain \<Rightarrow> int" where
  "compareChains left right = rankOf left - rankOf right"

definition hasUniqueIds :: "('a \<Rightarrow> string) \<Rightarrow> 'a list \<Rightarrow> bool" where
  "hasUniqueIds ident values \<longleftrightarrow> length (uniq (map ident values)) = length values"

section \<open>Subsets of chains\<close>

text \<open>
  \<open>visit(start, current)\<close> over \<open>chains\<close>: the suffix from \<open>start\<close> is an argument, the pushes to \<open>result\<close> are the
  list returned, in order. \<open>visitFrom\<close> is its \<open>for\<close> loop.
\<close>

function visit :: "nat \<Rightarrow> 'a list \<Rightarrow> 'a list \<Rightarrow> 'a list list"
  and visitFrom :: "nat \<Rightarrow> 'a list \<Rightarrow> 'a list \<Rightarrow> 'a list list" where
  "visit maximum rest current =
     (if current \<noteq> [] then [current] else []) @
     (if length current = maximum then [] else visitFrom maximum rest current)"
| "visitFrom maximum [] current = []"
| "visitFrom maximum (c # rest) current =
     visit maximum rest (current @ [c]) @ visitFrom maximum rest current"
  by pat_completeness auto
termination
  by (relation "measure (case_sum (\<lambda>(m, r, c). 2 * length r + 1) (\<lambda>(m, r, c). 2 * length r))") auto

definition combinations :: "'a list \<Rightarrow> nat \<Rightarrow> 'a list list" where
  "combinations available maximum = visit maximum available []"

section \<open>Candidates, identities and hashes\<close>

definition compareCandidates :: "assignment \<Rightarrow> assignment \<Rightarrow> int" where
  "compareCandidates left right =
     js_or (assignmentCostOre left - assignmentCostOre right)
     (js_or (compareText (assignmentEan left) (assignmentEan right))
     (js_or (compareChains (assignmentChain left) (assignmentChain right))
       (compareText (assignmentObservedAt right) (assignmentObservedAt left))))"

definition digitText :: "int \<Rightarrow> char" where
  "digitText d = (if d < 10 then char_of (nat (48 + d)) else char_of (nat (87 + d)))"

text \<open>\<open>n.toString(base)\<close> of a natural number.\<close>

function baseText :: "int \<Rightarrow> int \<Rightarrow> string" where
  "baseText base n =
     (if n < base \<or> base < 2 then [digitText n] else baseText base (n div base) @ [digitText (n mod base)])"
  by pat_completeness auto
termination
  by (relation "measure (\<lambda>(base, n). nat n)") (auto simp: int_div_less_self)

declare baseText.simps [simp del]

definition intText :: "int \<Rightarrow> string" where
  "intText n = (if n < 0 then CHR ''-'' # baseText 10 (- n) else baseText 10 n)"

definition numText :: "host \<Rightarrow> rat \<Rightarrow> string" where
  "numText h q = (if of_int \<lfloor>q\<rfloor> = q then intText \<lfloor>q\<rfloor> else numberText h q)"

definition assignmentKey :: "host \<Rightarrow> assignment \<Rightarrow> string" where
  "assignmentKey h a = joinText '':''
     [assignmentNeedId a, assignmentEan a, chainText (assignmentChain a), numText h (assignmentQuantity a),
      intText (assignmentCostOre a),
      (case assignmentFulfilment a of None \<Rightarrow> ''legacy'' | Some f \<Rightarrow> intText (packageCount f)),
      (case assignmentFulfilment a of None \<Rightarrow> ''legacy'' | Some f \<Rightarrow> intText (surplusAmount f))]"

definition planIdentity :: "host \<Rightarrow> assignment list \<Rightarrow> string" where
  "planIdentity h assignments = joinText ''|'' (map (assignmentKey h) assignments)"

text \<open>\<open>Math.imul\<close> and \<open>^\<close> work on 32 bits; \<open>>>> 0\<close> reads them as unsigned.\<close>

definition stableHash :: "string \<Rightarrow> string" where
  "stableHash s =
     (let step = (\<lambda>c (first, second).
            (let code = (of_char c :: 32 word)
             in ((first XOR code) * 0x01000193, (second XOR code) * 0x85ebca6b)));
          (first, second) = fold step s (0x811c9dc5, 0x9e3779b9)
      in baseText 36 (uint first) @ baseText 36 (uint second))"

section \<open>One stores\<close>

text \<open>
  What one observation offers a need: nothing, or an assignment. The request may still carry a fractional quantity
  here, which \<open>packageMeasureSchema\<close> rejects inside the package calculation.
\<close>

definition observationCandidate ::
    "need \<Rightarrow> chain list \<Rightarrow> string list \<Rightarrow> (string \<times> product) list \<Rightarrow> price_observation \<Rightarrow> assignment option" where
  "observationCandidate need stores matchingEans productsByEan observation =
     (if priceChain observation \<notin> set stores \<or> priceEan observation \<notin> set matchingEans then None
      else
        (let packaged =
           (if needUnit need = Each then Some (needQuantity need, None)
            else (case map_of productsByEan (priceEan observation) of
                None \<Rightarrow> None
              | Some item \<Rightarrow>
                  (case packageQuantity item of
                     None \<Rightarrow> None
                   | Some quantity \<Rightarrow>
                       if packageUnit item \<noteq> Some (needUnit need) \<or> \<not> isSafeInteger quantity then None
                       else if of_int \<lfloor>needQuantity need\<rfloor> \<noteq> needQuantity need then None
                       else (case calculatePackageFulfilment
                                \<lparr>inputProductId = productEan item, inputNeedId = needId need,
                                 inputRequested = \<lparr>measureAmount = \<lfloor>needQuantity need\<rfloor>, measureUnit = needUnit need\<rparr>,
                                 inputPackage = \<lparr>measureAmount = \<lfloor>quantity\<rfloor>, measureUnit = needUnit need\<rparr>\<rparr> of
                               Complete f \<Rightarrow> Some (of_int (packageCount f), Some f)
                             | Unavailable _ \<Rightarrow> None))))
         in case packaged of
              None \<Rightarrow> None
            | Some (packs, f) \<Rightarrow>
                (let cost = of_int (amountOre observation) * packs
                 in if \<not> isSafeInteger cost \<or> cost < 0 \<or> cost > of_int MAX_PERSISTED_MONEY_ORE then None
                    else Some \<lparr>assignmentNeedId = needId need, assignmentEan = priceEan observation,
                           assignmentChain = priceChain observation, assignmentQuantity = needQuantity need,
                           assignmentCostOre = \<lfloor>cost\<rfloor>, assignmentObservedAt = priceObservedAt observation,
                           assignmentSource = priceSource observation, assignmentFulfilment = f\<rparr>)))"

definition candidatesFor ::
    "host \<Rightarrow> match_rule \<Rightarrow> product list \<Rightarrow> price_observation list \<Rightarrow> chain list \<Rightarrow> need \<Rightarrow> assignment list" where
  "candidatesFor h rule products eligiblePrices stores need =
     (let matchingEans = map productEan (matchProducts h need rule products);
          productsByEan = newMap (map (\<lambda>p. (productEan p, p)) products)
      in List.map_filter (observationCandidate need stores matchingEans productsByEan) eligiblePrices)"

record plan_draft =
  draftAssignments :: "assignment list"
  draftSubstitutions :: "string list"
  draftFreshness :: "(string \<times> string) list"

text \<open>The loop over the required needs; \<open>None\<close> is its early return.\<close>

fun assignNeeds ::
    "host \<Rightarrow> (string \<times> match_rule) list \<Rightarrow> product list \<Rightarrow> price_observation list \<Rightarrow> chain list
     \<Rightarrow> need list \<Rightarrow> plan_draft \<Rightarrow> plan_draft option" where
  "assignNeeds h rulesById products eligiblePrices stores [] d = Some d"
| "assignNeeds h rulesById products eligiblePrices stores (need # needs) d =
     (case map_of rulesById (needRuleId need) of
        None \<Rightarrow> None
      | Some rule \<Rightarrow>
          (case first_by compareCandidates (candidatesFor h rule products eligiblePrices stores need) of
             None \<Rightarrow> None
           | Some selected \<Rightarrow>
               assignNeeds h rulesById products eligiblePrices stores needs
                 \<lparr>draftAssignments = draftAssignments d @ [selected],
                  draftSubstitutions =
                    (if ruleMode rule \<noteq> ExactMode then draftSubstitutions d @ [needId need] else draftSubstitutions d),
                  draftFreshness = AList.update (needId need) ''eligible'' (draftFreshness d)\<rparr>))"

definition planForSubset ::
    "host \<Rightarrow> need list \<Rightarrow> (string \<times> match_rule) list \<Rightarrow> plan_request \<Rightarrow> price_observation list \<Rightarrow> chain list
     \<Rightarrow> plan_result option" where
  "planForSubset h requiredNeeds rulesById request eligiblePrices stores =
     (case assignNeeds h rulesById (requestProducts request) eligiblePrices stores requiredNeeds
             \<lparr>draftAssignments = [], draftSubstitutions = [], draftFreshness = []\<rparr> of
        None \<Rightarrow> None
      | Some d \<Rightarrow>
          (let assignments = sort_by (\<lambda>x y. compareText (assignmentNeedId x) (assignmentNeedId y)) (draftAssignments d);
               substitutions = sort_by compareText (draftSubstitutions d);
               total = sum_list (map assignmentCostOre assignments)
           in if \<not> isSafeInt total \<or> total < 0 \<or> total > MAX_PERSISTED_MONEY_ORE then None
              else
                (let used = sort_by compareChains (uniq (map assignmentChain assignments))
                 in if length used = 0 \<or> length used > requestMaxStores request \<or> length used > 3 then None
                    else Some \<lparr>planId = ''plan-'' @ stableHash (planIdentity h assignments),
                           planAssignments = assignments, planTotalOre = total, planChains = used,
                           planSubstitutions = substitutions, planFreshness = draftFreshness d\<rparr>)))"

section \<open>All plans\<close>

definition dominates :: "plan_result \<Rightarrow> plan_result \<Rightarrow> bool" where
  "dominates left right =
     (let noWorse = planTotalOre left \<le> planTotalOre right
            \<and> length (planChains left) \<le> length (planChains right)
            \<and> length (planSubstitutions left) \<le> length (planSubstitutions right);
          strictlyBetter = planTotalOre left < planTotalOre right
            \<or> length (planChains left) < length (planChains right)
            \<or> length (planSubstitutions left) < length (planSubstitutions right)
      in noWorse \<and> strictlyBetter)"

definition comparePlans :: "host \<Rightarrow> plan_result \<Rightarrow> plan_result \<Rightarrow> int" where
  "comparePlans h left right =
     js_or (int (length (planChains left)) - int (length (planChains right)))
     (js_or (int (length (planSubstitutions left)) - int (length (planSubstitutions right)))
     (js_or (planTotalOre left - planTotalOre right)
       (compareText (planIdentity h (planAssignments left)) (planIdentity h (planAssignments right)))))"

definition calculatePlans :: "host \<Rightarrow> plan_request \<Rightarrow> date \<Rightarrow> plan_result list" where
  "calculatePlans h request now =
     (if \<not> isFiniteDate now then []
      else case sourceNeutralPlanRequestSchema request of
        None \<Rightarrow> []
      | Some validated \<Rightarrow>
          if \<not> hasUniqueIds needId (requestNeeds validated) \<or> \<not> hasUniqueIds ruleId (matchingRules validated)
             \<or> list_ex (\<lambda>n. \<not> isSafeInteger (needQuantity n)) (requestNeeds validated) then []
          else
            (let requiredNeeds = sort_by (\<lambda>x y. compareText (needId x) (needId y)) (filter needRequired (requestNeeds validated))
             in if requiredNeeds = [] then []
                else
                  (let rulesById = newMap (map (\<lambda>r. (ruleId r, r)) (matchingRules validated));
                       eligiblePrices = filter (\<lambda>p. classifyFreshness now (Some (dateParse (priceObservedAt p))) = Eligible)
                                          (requestPrices validated);
                       availableChains = filter (\<lambda>c. list_ex (\<lambda>p. priceChain p = c) eligiblePrices) CHAIN_ORDER;
                       plans = List.map_filter (planForSubset h requiredNeeds rulesById validated eligiblePrices)
                                 (combinations availableChains (min (requestMaxStores validated) 3));
                       uniqueAssignments = newMap (map (\<lambda>p. (planIdentity h (planAssignments p), p)) (sort_by (comparePlans h) plans));
                       candidates = map snd uniqueAssignments
                   in sort_by (comparePlans h) (nonDominated dominates candidates))))"

end
