(* ===== verification/Planner_Correct.thy ===== *)
theory Planner_Correct
  imports Planner
begin

text \<open>
  What the first planner promises: the subsets it visits, the identities it deduplicates by, the contract of one
  subset, and the Pareto frontier over all complete purchases.
\<close>

section \<open>Subsets\<close>

declare visit.simps [simp del]

lemma visit_set:
  "length current \<le> m \<Longrightarrow> set (visit m rest current) =
     {current @ ys |ys. ys \<in> set (subseqs rest) \<and> current @ ys \<noteq> [] \<and> length (current @ ys) \<le> m}"
  "length current < m \<Longrightarrow> set (visitFrom m rest current) =
     {current @ ys |ys. ys \<in> set (subseqs rest) \<and> ys \<noteq> [] \<and> length (current @ ys) \<le> m}"
proof (induction m rest current and m rest current rule: visit_visitFrom.induct)
  case (1 m rest current)
  have nil: "[] \<in> set (subseqs rest)" by (induction rest) (auto simp: Let_def)
  show ?case
  proof (cases "length current = m")
    case True
    with nil show ?thesis by (auto simp: visit.simps)
  next
    case False
    with 1 have "set (visitFrom m rest current) =
      {current @ ys |ys. ys \<in> set (subseqs rest) \<and> ys \<noteq> [] \<and> length (current @ ys) \<le> m}" by simp
    then show ?thesis using nil False 1(2) by (auto simp: visit.simps)
  qed
next
  case (3 m c rest current)
  have "set (visitFrom m (c # rest) current) =
      {(current @ [c]) @ ys |ys. ys \<in> set (subseqs rest) \<and> length (current @ [c] @ ys) \<le> m}
      \<union> {current @ ys |ys. ys \<in> set (subseqs rest) \<and> ys \<noteq> [] \<and> length (current @ ys) \<le> m}"
    using 3 by simp
  also have "\<dots> = {current @ ys |ys. ys \<in> set (subseqs (c # rest)) \<and> ys \<noteq> [] \<and> length (current @ ys) \<le> m}"
  proof -
    have "set (subseqs (c # rest)) = Cons c ` set (subseqs rest) \<union> set (subseqs rest)" by (simp add: Let_def)
    then show ?thesis unfolding append_assoc append_Cons append_Nil by auto
  qed
  finally show ?case .
qed simp

lemma distinct_visit:
  "length current \<le> m \<Longrightarrow> distinct rest \<Longrightarrow> distinct (visit m rest current)"
  "length current < m \<Longrightarrow> distinct rest \<Longrightarrow> distinct (visitFrom m rest current)"
proof (induction m rest current and m rest current rule: visit_visitFrom.induct)
  case (1 m rest current)
  then show ?case by (auto simp: visit_set visit.simps)
next
  case (3 m c rest current)
  have "c # ys \<notin> set (subseqs rest)" for ys
    using 3(4) subseqs_powset [of rest] by (metis PowD distinct.simps(2) imageI list.set_intros(1) subsetD)
  then have "set (visit m rest (current @ [c])) \<inter> set (visitFrom m rest current) = {}"
    using 3(3) by (auto simp: visit_set)
  with 3 show ?case by simp
qed simp

lemma combinations_mem: "S \<in> set (combinations available m) \<longleftrightarrow> S \<in> set (subseqs available) \<and> S \<noteq> [] \<and> length S \<le> m"
  by (simp add: combinations_def visit_set del: visit.simps)

text \<open>
  C4. \<open>combinations\<close> enumerates exactly the nonempty selections of at most \<open>maximum\<close> chains, in the order of the
  chains, each of them once.
\<close>

theorem combinations_exact:
  assumes "distinct available"
  shows "distinct (combinations available maximum)
    \<and> set (combinations available maximum) = {S \<in> set (subseqs available). S \<noteq> [] \<and> length S \<le> maximum}"
  using distinct_visit(1) [of "[]" maximum available] assms combinations_mem [of _ available maximum]
  by (auto simp: combinations_def)

theorem combinations_exact_witness:
  "distinct (combinations [Bunnpris, Extra, Meny, Oda] 3)
   \<and> [Extra, Meny, Oda] \<in> set (combinations [Bunnpris, Extra, Meny, Oda] 3)"
proof -
  have d: "distinct [Bunnpris, Extra, Meny, Oda]" by simp
  have "[Extra, Meny, Oda] \<in> set (subseqs [Bunnpris, Extra, Meny, Oda])" by simp
  with combinations_exact [OF d, of 3] show ?thesis by simp
qed

section \<open>Identities\<close>

lemma digitVal_digitText: "0 \<le> d \<Longrightarrow> d < 10 \<Longrightarrow> digitVal (digitText d) = d"
  by (simp add: digitVal_def digitText_def)

lemma isDigit_digitText: "0 \<le> d \<Longrightarrow> d < 10 \<Longrightarrow> isDigit (digitText d)"
  by (simp add: isDigit_iff digitVal_digitText)

lemma baseText_digits: "0 \<le> n \<Longrightarrow> list_all isDigit (baseText 10 n)"
proof (induction "10 :: int" n rule: baseText.induct)
  case (1 n)
  show ?case
    by (subst baseText.simps) (use 1 in \<open>auto simp: isDigit_digitText pos_imp_zdiv_nonneg_iff\<close>)
qed

lemma digitsVal_baseText: "0 \<le> n \<Longrightarrow> digitsVal (baseText 10 n) = n"
proof (induction "10 :: int" n rule: baseText.induct)
  case (1 n)
  have "digitsVal [c] = digitVal c" for c by (simp add: digitsVal_def)
  then show ?case
    by (subst baseText.simps)
      (use 1 in \<open>auto simp: digitVal_digitText digitsVal_append pos_imp_zdiv_nonneg_iff\<close>)
qed

lemma intText_inj: "0 \<le> n \<Longrightarrow> 0 \<le> m \<Longrightarrow> intText n = intText m \<longleftrightarrow> n = m"
  unfolding intText_def by (metis digitsVal_baseText linorder_not_less)

lemma digits_no_separator: "list_all isDigit s \<Longrightarrow> CHR '':'' \<notin> set s \<and> CHR ''|'' \<notin> set s"
  by (auto simp: list_all_iff isDigit_def)

lemma intText_no_separator: "CHR '':'' \<notin> set (intText n) \<and> CHR ''|'' \<notin> set (intText n)"
  using digits_no_separator [OF baseText_digits] by (auto simp: intText_def)

lemma chainText_no_separator: "CHR '':'' \<notin> set (chainText c)"
  by (cases c) simp_all

lemma chainText_inj: "chainText c = chainText d \<longleftrightarrow> c = d"
  by (cases c; cases d) simp_all

lemma fulfilment_text_no_separator:
  "c \<in> {CHR '':'', CHR ''|''} \<Longrightarrow> c \<notin> set (case x of None \<Rightarrow> ''legacy'' | Some f \<Rightarrow> intText (g f))"
  using intText_no_separator by (auto split: option.splits)

text \<open>
  The identity of a purchase fixes the chain and the cost of every assignment, as long as the assignments answer the
  same needs in the same quantities.
\<close>

definition answersAlike :: "assignment \<Rightarrow> assignment \<Rightarrow> bool" where
  "answersAlike a b \<longleftrightarrow> assignmentNeedId a = assignmentNeedId b \<and> assignmentQuantity a = assignmentQuantity b"

definition printable :: "assignment \<Rightarrow> bool" where
  "printable a \<longleftrightarrow> list_all isDigit (assignmentEan a) \<and> 0 \<le> assignmentCostOre a"

lemma assignmentKey_unfold:
  "assignmentKey h a @ rest = assignmentNeedId a @ '':'' @ assignmentEan a @ CHR '':'' # chainText (assignmentChain a)
     @ CHR '':'' # numText h (assignmentQuantity a) @ '':'' @ intText (assignmentCostOre a)
     @ CHR '':'' # (case assignmentFulfilment a of None \<Rightarrow> ''legacy'' | Some f \<Rightarrow> intText (packageCount f))
     @ CHR '':'' # (case assignmentFulfilment a of None \<Rightarrow> ''legacy'' | Some f \<Rightarrow> intText (surplusAmount f)) @ rest"
  by (simp add: assignmentKey_def)

lemma assignmentKey_eq:
  assumes "answersAlike a b" "printable a" "printable b"
    and "(case r of [] \<Rightarrow> True | c # _ \<Rightarrow> c = CHR ''|'')" "(case s of [] \<Rightarrow> True | c # _ \<Rightarrow> c = CHR ''|'')"
    and "assignmentKey h a @ r = assignmentKey h b @ s"
  shows "assignmentChain a = assignmentChain b \<and> assignmentCostOre a = assignmentCostOre b \<and> r = s"
proof -
  define x y where "x = (case assignmentFulfilment a of None \<Rightarrow> ''legacy'' | Some f \<Rightarrow> intText (surplusAmount f))"
    and "y = (case assignmentFulfilment b of None \<Rightarrow> ''legacy'' | Some f \<Rightarrow> intText (surplusAmount f))"
  have xy: "CHR ''|'' \<notin> set x" "CHR ''|'' \<notin> set y"
    unfolding x_def y_def by (simp_all add: fulfilment_text_no_separator)
  define u v where "u = (case assignmentFulfilment a of None \<Rightarrow> ''legacy'' | Some f \<Rightarrow> intText (packageCount f))"
    and "v = (case assignmentFulfilment b of None \<Rightarrow> ''legacy'' | Some f \<Rightarrow> intText (packageCount f))"
  have uv: "CHR '':'' \<notin> set u" "CHR '':'' \<notin> set v"
    unfolding u_def v_def by (simp_all add: fulfilment_text_no_separator)
  have "CHR '':'' \<notin> set (assignmentEan a)" "CHR '':'' \<notin> set (assignmentEan b)"
    using assms(2,3) digits_no_separator by (auto simp: printable_def)
  then have e: "chainText (assignmentChain a) = chainText (assignmentChain b)"
    "intText (assignmentCostOre a) = intText (assignmentCostOre b)" "x @ r = y @ s"
    using assms(1,6) chainText_no_separator intText_no_separator uv
    unfolding assignmentKey_unfold x_def [symmetric] y_def [symmetric] u_def [symmetric] v_def [symmetric]
    by (auto simp: answersAlike_def split_at_separator)
  have "r = s" by (rule split_before_separator [OF xy e(3) assms(4,5)])
  with e assms(2,3) show ?thesis by (simp add: chainText_inj intText_inj printable_def)
qed

lemma planIdentity_Cons:
  "planIdentity h (a # as) = assignmentKey h a @ (if as = [] then [] else CHR ''|'' # planIdentity h as)"
  by (cases as) (simp_all add: planIdentity_def)

lemma planIdentity_eq:
  assumes "list_all2 answersAlike as bs" "list_all printable as" "list_all printable bs"
    and "planIdentity h as = planIdentity h bs"
  shows "map assignmentChain as = map assignmentChain bs \<and> map assignmentCostOre as = map assignmentCostOre bs"
  using assms
proof (induction as bs rule: list_all2_induct)
  case (Cons a as b bs)
  let ?r = "if as = [] then [] else CHR ''|'' # planIdentity h as"
  let ?s = "if bs = [] then [] else CHR ''|'' # planIdentity h bs"
  have "as = [] \<longleftrightarrow> bs = []" using Cons(2) by auto
  moreover have "assignmentChain a = assignmentChain b \<and> assignmentCostOre a = assignmentCostOre b \<and> ?r = ?s"
    using Cons by (intro assignmentKey_eq [of a b ?r ?s h]) (auto simp: planIdentity_Cons)
  ultimately show ?case using Cons by (auto split: if_splits)
qed simp

section \<open>One subset\<close>

interpretation by_chain: comparator compareChains
  unfolding compareChains_def by (intro comparator_intros)

interpretation by_candidate: comparator compareCandidates
  unfolding compareCandidates_def compareChains_def by (intro comparator_intros)

interpretation by_plan: comparator "comparePlans h" for h
  unfolding comparePlans_def by (intro comparator_intros)

interpretation by_need: comparator "\<lambda>x y. compareText (needId x) (needId y)"
  by (intro comparator_intros)

interpretation by_assignment: comparator "\<lambda>x y. compareText (assignmentNeedId x) (assignmentNeedId y)"
  by (intro comparator_intros)

interpretation frontier: dominance dominates
  by unfold_locales (auto simp: dominates_def Let_def)

lemma compareCandidates_cost: "compareCandidates a b \<le> 0 \<Longrightarrow> assignmentCostOre a \<le> assignmentCostOre b"
  by (auto simp: compareCandidates_def js_or_def split: if_splits)

text \<open>What an admissible observation is worth to a need.\<close>

lemma observationCandidate_Some:
  assumes "observationCandidate n S eans items p = Some a"
  shows "assignmentNeedId a = needId n" "assignmentQuantity a = needQuantity n"
    "assignmentEan a = priceEan p" "assignmentChain a = priceChain p" "assignmentObservedAt a = priceObservedAt p"
    "assignmentSource a = priceSource p" "priceChain p \<in> set S" "priceEan p \<in> set eans"
    "0 \<le> assignmentCostOre a" "assignmentCostOre a \<le> MAX_PERSISTED_MONEY_ORE"
    "of_int (assignmentCostOre a) = of_int (amountOre p) *
       (case assignmentFulfilment a of None \<Rightarrow> needQuantity n | Some f \<Rightarrow> of_int (packageCount f))"
    "assignmentFulfilment a = None \<longleftrightarrow> needUnit n = Each"
  using assms
  by (auto simp: observationCandidate_def Let_def isSafeInteger_def of_int_le_iff le_floor_iff floor_le_iff
      split: if_splits option.splits package_result.splits)

lemma candidatesFor_mem:
  "a \<in> set (candidatesFor h rule items E S n) \<longleftrightarrow>
     (\<exists>p \<in> set E. observationCandidate n S (map productEan (matchProducts h n rule items))
        (newMap (map (\<lambda>p. (productEan p, p)) items)) p = Some a)"
  by (simp add: candidatesFor_def Let_def mem_map_filter)

lemma CHAIN_ORDER_all: "c \<in> set CHAIN_ORDER"
  by (cases c) (simp_all add: CHAIN_ORDER_def)

lemma candidatesFor_restrict:
  "a \<in> set (candidatesFor h rule items E S n) \<longleftrightarrow>
     a \<in> set (candidatesFor h rule items E CHAIN_ORDER n) \<and> assignmentChain a \<in> set S"
proof -
  have "observationCandidate n S eans t p = Some a \<longleftrightarrow>
      observationCandidate n CHAIN_ORDER eans t p = Some a \<and> assignmentChain a \<in> set S" for eans t p
  proof (cases "priceChain p \<in> set S")
    case True
    then have "observationCandidate n S eans t p = observationCandidate n CHAIN_ORDER eans t p"
      by (simp add: observationCandidate_def CHAIN_ORDER_all)
    then show ?thesis using True observationCandidate_Some(4) by auto
  next
    case False
    then show ?thesis
      using observationCandidate_Some(4) [of n CHAIN_ORDER eans t p a] by (auto simp: observationCandidate_def)
  qed
  then show ?thesis by (auto simp: candidatesFor_mem)
qed

text \<open>The purchase one need makes in a subset of chains.\<close>

definition purchase ::
    "host \<Rightarrow> (string \<times> match_rule) list \<Rightarrow> product list \<Rightarrow> price_observation list \<Rightarrow> chain list \<Rightarrow> need \<Rightarrow> assignment option" where
  "purchase h rules items E S n =
     (case map_of rules (needRuleId n) of None \<Rightarrow> None
      | Some rule \<Rightarrow> first_by compareCandidates (candidatesFor h rule items E S n))"

definition substituted :: "(string \<times> match_rule) list \<Rightarrow> need \<Rightarrow> bool" where
  "substituted rules n = (case map_of rules (needRuleId n) of None \<Rightarrow> False | Some r \<Rightarrow> ruleMode r \<noteq> ExactMode)"

lemma assignNeeds_eq:
  "assignNeeds h rules items E S needs d =
     (case parseAll (purchase h rules items E S) needs of None \<Rightarrow> None
      | Some as \<Rightarrow> Some \<lparr>draftAssignments = draftAssignments d @ as,
           draftSubstitutions = draftSubstitutions d @ map needId (filter (substituted rules) needs),
           draftFreshness = fold (\<lambda>n. AList.update (needId n) ''eligible'') needs (draftFreshness d)\<rparr>)"
  by (induction needs arbitrary: d) (auto simp: purchase_def substituted_def split: option.splits)

lemma purchase_mem: "purchase h rules items E S n = Some a \<Longrightarrow>
    \<exists>rule. map_of rules (needRuleId n) = Some rule \<and> a \<in> set (candidatesFor h rule items E S n)"
  by (auto simp: purchase_def dest: first_by_in split: option.splits)

lemma candidatesFor_fields:
  assumes "a \<in> set (candidatesFor h rule items E S n)"
  shows "assignmentNeedId a = needId n \<and> assignmentQuantity a = needQuantity n \<and> assignmentChain a \<in> set S
    \<and> 0 \<le> assignmentCostOre a \<and> assignmentCostOre a \<le> MAX_PERSISTED_MONEY_ORE"
proof -
  obtain p eans t where "observationCandidate n S eans t p = Some a"
    using assms by (auto simp: candidatesFor_mem)
  from observationCandidate_Some [OF this] show ?thesis by simp
qed

lemma purchase_need: "purchase h rules items E S n = Some a \<Longrightarrow>
    assignmentNeedId a = needId n \<and> assignmentQuantity a = needQuantity n \<and> assignmentChain a \<in> set S
    \<and> 0 \<le> assignmentCostOre a \<and> assignmentCostOre a \<le> MAX_PERSISTED_MONEY_ORE"
  using purchase_mem candidatesFor_fields by blast

text \<open>Needs in strictly increasing order of their ids: what \<open>calculatePlans\<close> passes.\<close>

definition sortedNeeds :: "need list \<Rightarrow> bool" where
  "sortedNeeds needs \<longleftrightarrow> sorted_wrt (\<lambda>x y. needId x < needId y) needs"

lemma purchases_sorted:
  assumes "list_all2 (\<lambda>n a. assignmentNeedId a = needId n) needs as" and "sortedNeeds needs"
  shows "sort_by (\<lambda>x y. compareText (assignmentNeedId x) (assignmentNeedId y)) as = as"
  using assms by (intro by_assignment.sort_by_sorted_id)
    (auto simp: list_all2_conv_all_nth sorted_wrt_iff_nth_less sortedNeeds_def intro: less_imp_le)

lemma planForSubset_eq:
  assumes "sortedNeeds needs"
  shows "planForSubset h needs rules r E S =
    (case parseAll (purchase h rules (requestProducts r) E S) needs of None \<Rightarrow> None
     | Some as \<Rightarrow>
         (let used = sort_by compareChains (uniq (map assignmentChain as))
          in if sum_list (map assignmentCostOre as) > MAX_PERSISTED_MONEY_ORE \<or> length used = 0
               \<or> length used > requestMaxStores r \<or> length used > 3 then None
             else Some \<lparr>planId = ''plan-'' @ stableHash (planIdentity h as), planAssignments = as,
                    planTotalOre = sum_list (map assignmentCostOre as), planChains = used,
                    planSubstitutions = sort_by compareText (map needId (filter (substituted rules) needs)),
                    planFreshness = fold (\<lambda>n. AList.update (needId n) ''eligible'') needs []\<rparr>))"
proof (cases "parseAll (purchase h rules (requestProducts r) E S) needs")
  case None
  then show ?thesis by (simp add: planForSubset_def assignNeeds_eq)
next
  case (Some as)
  then have all: "list_all2 (\<lambda>n a. purchase h rules (requestProducts r) E S n = Some a) needs as"
    by (simp add: parseAll_Some)
  have "sort_by (\<lambda>x y. compareText (assignmentNeedId x) (assignmentNeedId y)) as = as"
    by (rule purchases_sorted [OF list_all2_mono [OF all] assms]) (simp add: purchase_need)
  moreover have "0 \<le> assignmentCostOre a" if "a \<in> set as" for a
    using parseAll_in [OF Some that] purchase_need by blast
  then have "0 \<le> sum_list (map assignmentCostOre as)" by (intro sum_list_nonneg) auto
  ultimately show ?thesis
    using Some
    by (auto simp: planForSubset_def assignNeeds_eq Let_def isSafeInt_def MAX_SAFE_INTEGER_def MAX_PERSISTED_MONEY_ORE_def)
qed

section \<open>Accepted requests\<close>

text \<open>The guards of \<open>calculatePlans\<close>, and the values it computes from an accepted request.\<close>

definition acceptedRequest :: "plan_request \<Rightarrow> date \<Rightarrow> plan_request option" where
  "acceptedRequest request now =
     (if \<not> isFiniteDate now then None
      else case sourceNeutralPlanRequestSchema request of None \<Rightarrow> None
      | Some v \<Rightarrow>
          if \<not> hasUniqueIds needId (requestNeeds v) \<or> \<not> hasUniqueIds ruleId (matchingRules v)
             \<or> list_ex (\<lambda>n. \<not> isSafeInteger (needQuantity n)) (requestNeeds v)
             \<or> filter needRequired (requestNeeds v) = [] then None
          else Some v)"

definition needsOf :: "plan_request \<Rightarrow> need list" where
  "needsOf v = sort_by (\<lambda>x y. compareText (needId x) (needId y)) (filter needRequired (requestNeeds v))"

definition rulesOf :: "plan_request \<Rightarrow> (string \<times> match_rule) list" where
  "rulesOf v = newMap (map (\<lambda>r. (ruleId r, r)) (matchingRules v))"

definition pricesOf :: "plan_request \<Rightarrow> date \<Rightarrow> price_observation list" where
  "pricesOf v now = filter (\<lambda>p. classifyFreshness now (Some (dateParse (priceObservedAt p))) = Eligible) (requestPrices v)"

definition chainsOf :: "plan_request \<Rightarrow> date \<Rightarrow> chain list" where
  "chainsOf v now = filter (\<lambda>c. list_ex (\<lambda>p. priceChain p = c) (pricesOf v now)) CHAIN_ORDER"

definition subsetPlan :: "host \<Rightarrow> plan_request \<Rightarrow> date \<Rightarrow> chain list \<Rightarrow> plan_result option" where
  "subsetPlan h v now = planForSubset h (needsOf v) (rulesOf v) v (pricesOf v now)"

definition subsetPlans :: "host \<Rightarrow> plan_request \<Rightarrow> date \<Rightarrow> plan_result list" where
  "subsetPlans h v now =
     List.map_filter (subsetPlan h v now) (combinations (chainsOf v now) (min (requestMaxStores v) 3))"

definition distinctPlans :: "host \<Rightarrow> plan_result list \<Rightarrow> plan_result list" where
  "distinctPlans h plans =
     one_per_key (\<lambda>p. planIdentity h (planAssignments p)) (sort_by (comparePlans h) plans)"

lemma calculatePlans_eq:
  "calculatePlans h request now =
     (case acceptedRequest request now of None \<Rightarrow> []
      | Some v \<Rightarrow> sort_by (comparePlans h) (nonDominated dominates (distinctPlans h (subsetPlans h v now))))"
  by (auto simp: calculatePlans_def acceptedRequest_def needsOf_def rulesOf_def pricesOf_def chainsOf_def
      subsetPlan_def subsetPlans_def distinctPlans_def one_per_key_def Let_def split: option.splits)

lemma hasUniqueIds_iff: "hasUniqueIds f xs \<longleftrightarrow> distinct (map f xs)"
  unfolding hasUniqueIds_def by (metis length_map length_uniq_eq)

lemma accepted_facts:
  assumes "acceptedRequest request now = Some v"
  shows "wellFormedRequest v" "distinct (map needId (requestNeeds v))" "distinct (map ruleId (matchingRules v))"
    "\<forall>n \<in> set (requestNeeds v). isSafeInteger (needQuantity n)" "needsOf v \<noteq> []" "now \<noteq> None"
proof -
  have p: "sourceNeutralPlanRequestSchema request = Some v" "isFiniteDate now"
    "hasUniqueIds needId (requestNeeds v)" "hasUniqueIds ruleId (matchingRules v)"
    "\<not> list_ex (\<lambda>n. \<not> isSafeInteger (needQuantity n)) (requestNeeds v)"
    "filter needRequired (requestNeeds v) \<noteq> []"
    using assms by (auto simp only: acceptedRequest_def split: option.splits if_splits)
  show "wellFormedRequest v" by (rule parsed_request_wellFormed [OF p(1)])
  show "distinct (map needId (requestNeeds v))" "distinct (map ruleId (matchingRules v))"
    using p(3,4) by (simp_all only: hasUniqueIds_iff)
  show "\<forall>n \<in> set (requestNeeds v). isSafeInteger (needQuantity n)" using p(5) by (simp add: list_ex_iff)
  show "needsOf v \<noteq> []" using p(6) by (simp add: needsOf_def del: filter_empty_conv)
  show "now \<noteq> None" using p(2) by (simp add: isFiniteDate_def)
qed

lemma needsOf_sorted:
  assumes "acceptedRequest request now = Some v"
  shows "sortedNeeds (needsOf v)"
proof -
  have "distinct (map needId (needsOf v))"
    using accepted_facts(2) [OF assms] by (simp add: needsOf_def distinct_map_filter)
  moreover have "sorted_wrt (\<lambda>x y. compareText (needId x) (needId y) \<le> 0) (needsOf v)"
    unfolding needsOf_def by (rule by_need.sorted_sort_by)
  ultimately show ?thesis
    by (auto simp: sortedNeeds_def sorted_wrt_iff_nth_less distinct_conv_nth order.strict_iff_order)
qed

section \<open>Complete purchases\<close>

text \<open>
  The specification: what a need may buy anywhere, and a purchase of every required need that respects the store limit
  and the money bound.
\<close>

definition options :: "host \<Rightarrow> plan_request \<Rightarrow> date \<Rightarrow> need \<Rightarrow> assignment list" where
  "options h v now n =
     (case map_of (rulesOf v) (needRuleId n) of None \<Rightarrow> []
      | Some rule \<Rightarrow> candidatesFor h rule (requestProducts v) (pricesOf v now) CHAIN_ORDER n)"

lemma options_mem:
  "a \<in> set (options h v now n) \<longleftrightarrow>
     (\<exists>rule. map_of (rulesOf v) (needRuleId n) = Some rule
       \<and> a \<in> set (candidatesFor h rule (requestProducts v) (pricesOf v now) CHAIN_ORDER n))"
  by (cases "map_of (rulesOf v) (needRuleId n)") (simp_all add: options_def)

definition purchaseChains :: "assignment list \<Rightarrow> chain set" where
  "purchaseChains as = assignmentChain ` set as"

definition purchaseCost :: "assignment list \<Rightarrow> int" where
  "purchaseCost as = sum_list (map assignmentCostOre as)"

definition completePurchase :: "host \<Rightarrow> plan_request \<Rightarrow> date \<Rightarrow> assignment list \<Rightarrow> bool" where
  "completePurchase h v now as \<longleftrightarrow>
     list_all2 (\<lambda>n a. a \<in> set (options h v now n)) (needsOf v) as
     \<and> card (purchaseChains as) \<le> min (requestMaxStores v) 3
     \<and> purchaseCost as \<le> MAX_PERSISTED_MONEY_ORE"

lemma purchase_option:
  "purchase h (rulesOf v) (requestProducts v) (pricesOf v now) S n = Some a \<Longrightarrow>
     a \<in> set (options h v now n) \<and> assignmentChain a \<in> set S"
  by (auto dest!: purchase_mem simp: options_def candidatesFor_restrict [where S = S])

lemma purchase_cheapest:
  assumes "a \<in> set (options h v now n)" and "assignmentChain a \<in> set S"
  obtains b where "purchase h (rulesOf v) (requestProducts v) (pricesOf v now) S n = Some b"
    and "assignmentCostOre b \<le> assignmentCostOre a"
proof -
  obtain rule where r: "map_of (rulesOf v) (needRuleId n) = Some rule"
    and "a \<in> set (candidatesFor h rule (requestProducts v) (pricesOf v now) CHAIN_ORDER n)"
    using assms(1) by (auto simp: options_mem)
  then have a: "a \<in> set (candidatesFor h rule (requestProducts v) (pricesOf v now) S n)"
    using assms(2) candidatesFor_restrict by blast
  then obtain b where b: "first_by compareCandidates (candidatesFor h rule (requestProducts v) (pricesOf v now) S n) = Some b"
    by (metis first_by_None empty_iff list.set(1) not_None_eq)
  then have "compareCandidates b a \<le> 0"
    using a by (intro first_by_min by_candidate.comparator_axioms)
  with b r that show ?thesis by (simp add: purchase_def compareCandidates_cost)
qed

lemma filter_subseqs: "filter P xs \<in> set (subseqs xs)"
  by (induction xs) (auto simp: Let_def)

lemma options_chain:
  assumes "a \<in> set (options h v now n)"
  shows "assignmentChain a \<in> set (chainsOf v now)"
proof -
  obtain p eans t where "p \<in> set (pricesOf v now)" "observationCandidate n CHAIN_ORDER eans t p = Some a"
    using assms by (auto simp: options_mem candidatesFor_mem)
  with observationCandidate_Some(4) show ?thesis
    by (auto simp: chainsOf_def list_ex_iff CHAIN_ORDER_all)
qed

section \<open>Every plan is a complete purchase, and none is missed\<close>

lemma subsetPlan_Some:
  assumes "acceptedRequest request now = Some v" and "subsetPlan h v now S = Some p"
  shows "completePurchase h v now (planAssignments p)"
    "planTotalOre p = purchaseCost (planAssignments p)"
    "set (planChains p) = purchaseChains (planAssignments p)" "distinct (planChains p)"
    "sorted_wrt (\<lambda>c d. compareChains c d \<le> 0) (planChains p)"
    "purchaseChains (planAssignments p) \<subseteq> set S" "planChains p \<noteq> []"
    "planSubstitutions p = sort_by compareText (map needId (filter (substituted (rulesOf v)) (needsOf v)))"
    "planFreshness p = fold (\<lambda>n. AList.update (needId n) ''eligible'') (needsOf v) []"
    "planId p = ''plan-'' @ stableHash (planIdentity h (planAssignments p))"
proof -
  let ?buy = "purchase h (rulesOf v) (requestProducts v) (pricesOf v now) S"
  obtain as where as: "parseAll ?buy (needsOf v) = Some as"
    and p: "sum_list (map assignmentCostOre as) \<le> MAX_PERSISTED_MONEY_ORE"
    "sort_by compareChains (uniq (map assignmentChain as)) \<noteq> []"
    "length (sort_by compareChains (uniq (map assignmentChain as))) \<le> min (requestMaxStores v) 3"
    "p = \<lparr>planId = ''plan-'' @ stableHash (planIdentity h as), planAssignments = as,
         planTotalOre = sum_list (map assignmentCostOre as),
         planChains = sort_by compareChains (uniq (map assignmentChain as)),
         planSubstitutions = sort_by compareText (map needId (filter (substituted (rulesOf v)) (needsOf v))),
         planFreshness = fold (\<lambda>n. AList.update (needId n) ''eligible'') (needsOf v) []\<rparr>"
    using assms(2) unfolding subsetPlan_def planForSubset_eq [OF needsOf_sorted [OF assms(1)]] Let_def
    by (auto split: option.splits if_splits)
  have "list_all2 (\<lambda>n a. a \<in> set (options h v now n)) (needsOf v) as"
    using as unfolding parseAll_Some by (rule list_all2_mono) (simp add: purchase_option)
  with p show "completePurchase h v now (planAssignments p)"
    by (simp add: completePurchase_def purchaseChains_def purchaseCost_def)
  show "purchaseChains (planAssignments p) \<subseteq> set S"
    using parseAll_in [OF as] purchase_option p(4) by (fastforce simp: purchaseChains_def)
  show "sorted_wrt (\<lambda>c d. compareChains c d \<le> 0) (planChains p)" using p(4) by (simp add: by_chain.sorted_sort_by)
  show "planTotalOre p = purchaseCost (planAssignments p)"
    "set (planChains p) = purchaseChains (planAssignments p)" "distinct (planChains p)" "planChains p \<noteq> []"
    "planSubstitutions p = sort_by compareText (map needId (filter (substituted (rulesOf v)) (needsOf v)))"
    "planFreshness p = fold (\<lambda>n. AList.update (needId n) ''eligible'') (needsOf v) []"
    "planId p = ''plan-'' @ stableHash (planIdentity h (planAssignments p))"
    using p by (simp_all add: purchaseChains_def purchaseCost_def)
qed

lemma purchases_exist:
  assumes "list_all2 (\<lambda>n a. a \<in> set (options h v now n)) needs as" and "purchaseChains as \<subseteq> set S"
  shows "\<exists>bs. parseAll (purchase h (rulesOf v) (requestProducts v) (pricesOf v now) S) needs = Some bs
    \<and> purchaseCost bs \<le> purchaseCost as"
  using assms
proof (induction needs as rule: list_all2_induct)
  case (Cons n needs a as)
  have "assignmentChain a \<in> set S" using Cons.prems by (simp add: purchaseChains_def)
  with Cons.hyps(1) obtain b where "purchase h (rulesOf v) (requestProducts v) (pricesOf v now) S n = Some b"
    "assignmentCostOre b \<le> assignmentCostOre a"
    by (rule purchase_cheapest)
  moreover have "purchaseChains as \<subseteq> set S" using Cons.prems by (simp add: purchaseChains_def)
  ultimately show ?case using Cons.IH by (auto simp: purchaseCost_def)
qed (simp add: purchaseCost_def)

text \<open>The subset of exactly the chains a purchase uses gives a plan at least as good.\<close>

lemma subsetPlan_covers:
  assumes v: "acceptedRequest request now = Some v" and c: "completePurchase h v now as"
  obtains p where "p \<in> set (subsetPlans h v now)" "planTotalOre p \<le> purchaseCost as"
    "length (planChains p) \<le> card (purchaseChains as)"
proof -
  define S where "S = filter (\<lambda>c. c \<in> purchaseChains as) (chainsOf v now)"
  have opts: "list_all2 (\<lambda>n a. a \<in> set (options h v now n)) (needsOf v) as"
    using c by (simp add: completePurchase_def)
  have "purchaseChains as \<subseteq> set (chainsOf v now)"
    using list_all2_right [OF opts] options_chain by (fastforce simp: purchaseChains_def)
  then have S: "set S = purchaseChains as" by (auto simp: S_def)
  have "distinct CHAIN_ORDER" by (simp add: CHAIN_ORDER_def)
  then have "distinct S" by (simp add: S_def chainsOf_def)
  then have len: "length S = card (purchaseChains as)" using S distinct_card by metis
  have "as \<noteq> []" using opts accepted_facts(5) [OF v] by auto
  then have "S \<noteq> []" using S by (auto simp: purchaseChains_def)
  then have combo: "S \<in> set (combinations (chainsOf v now) (min (requestMaxStores v) 3))"
    using c len by (simp add: combinations_mem S_def filter_subseqs completePurchase_def)
  obtain bs where bs: "parseAll (purchase h (rulesOf v) (requestProducts v) (pricesOf v now) S) (needsOf v) = Some bs"
    "purchaseCost bs \<le> purchaseCost as"
    using purchases_exist [OF opts] S by blast
  have "purchaseChains bs \<subseteq> set S"
    using parseAll_in [OF bs(1)] purchase_option by (fastforce simp: purchaseChains_def)
  then have chains: "card (purchaseChains bs) \<le> card (purchaseChains as)"
    using S by (metis card_mono List.finite_set)
  have "bs \<noteq> []" using bs(1) accepted_facts(5) [OF v] by (auto dest: parseAll_length)
  then obtain p where p: "subsetPlan h v now S = Some p" "planTotalOre p = purchaseCost bs"
    "length (planChains p) = card (purchaseChains bs)"
    using bs c chains
    by (auto simp: subsetPlan_def planForSubset_eq [OF needsOf_sorted [OF v]] Let_def completePurchase_def
        purchaseCost_def purchaseChains_def)
  then have "p \<in> set (subsetPlans h v now)" using combo by (auto simp: subsetPlans_def mem_map_filter)
  with p bs(2) chains that show ?thesis by simp
qed

text \<open>Deduplication by identity loses no cost, chain count or substitution count.\<close>

lemma option_printable:
  assumes "acceptedRequest request now = Some v" and "a \<in> set (options h v now n)"
  shows "printable a"
proof -
  obtain p eans t where p: "p \<in> set (pricesOf v now)" "observationCandidate n CHAIN_ORDER eans t p = Some a"
    using assms(2) by (auto simp: options_mem candidatesFor_mem)
  then have "sourceNeutralPriceObservationSchema p = Some p"
    using accepted_facts(1) [OF assms(1)] by (simp add: wellFormedRequest_def pricesOf_def)
  then have "list_all isDigit (priceEan p)" using priceSchema_fields(1) by (auto simp: eanSchema_def)
  with observationCandidate_Some(3,9) [OF p(2)] show ?thesis by (simp add: printable_def)
qed

lemma subsetPlans_mem: "p \<in> set (subsetPlans h v now) \<Longrightarrow> \<exists>S. subsetPlan h v now S = Some p"
  by (auto simp: subsetPlans_def mem_map_filter)

lemma identity_metrics:
  assumes v: "acceptedRequest request now = Some v"
    and p: "p \<in> set (subsetPlans h v now)" and q: "q \<in> set (subsetPlans h v now)"
    and eq: "planIdentity h (planAssignments p) = planIdentity h (planAssignments q)"
  shows "planTotalOre p = planTotalOre q \<and> length (planChains p) = length (planChains q)
    \<and> planSubstitutions p = planSubstitutions q"
proof -
  obtain S T where S: "subsetPlan h v now S = Some p" and T: "subsetPlan h v now T = Some q"
    using p q subsetPlans_mem by metis
  note P = subsetPlan_Some [OF v S] and Q = subsetPlan_Some [OF v T]
  let ?as = "planAssignments p" and ?bs = "planAssignments q"
  have as: "list_all2 (\<lambda>n a. a \<in> set (options h v now n)) (needsOf v) ?as"
    and bs: "list_all2 (\<lambda>n a. a \<in> set (options h v now n)) (needsOf v) ?bs"
    using P(1) Q(1) by (simp_all add: completePurchase_def)
  have fields: "a \<in> set (options h v now n) \<Longrightarrow> assignmentNeedId a = needId n \<and> assignmentQuantity a = needQuantity n"
    for a n using candidatesFor_fields by (auto simp: options_mem)
  have "list_all2 answersAlike ?as ?bs"
    by (rule list_all2_join [OF as bs]) (simp add: fields answersAlike_def)
  moreover have "list_all printable ?as" "list_all printable ?bs"
    unfolding list_all_iff
    using list_all2_right [OF as] list_all2_right [OF bs] option_printable [OF v] by blast+
  ultimately have m: "map assignmentChain ?as = map assignmentChain ?bs \<and> map assignmentCostOre ?as = map assignmentCostOre ?bs"
    using eq by (rule planIdentity_eq)
  then have "purchaseChains ?as = purchaseChains ?bs" unfolding purchaseChains_def by (metis set_map)
  then have "length (planChains p) = length (planChains q)"
    using P(3,4) Q(3,4) by (metis distinct_card)
  with m P(2,8) Q(2,8) show ?thesis by (simp add: purchaseCost_def)
qed

lemma distinctPlans_subset: "q \<in> set (distinctPlans h plans) \<Longrightarrow> q \<in> set plans"
  by (auto simp: distinctPlans_def dest!: one_per_key_mem)

lemma distinctPlans_covers:
  assumes "p \<in> set plans"
  obtains q where "q \<in> set (distinctPlans h plans)" "q \<in> set plans"
    "planIdentity h (planAssignments q) = planIdentity h (planAssignments p)"
proof -
  have "p \<in> set (sort_by (comparePlans h) plans)" using assms by simp
  then obtain q where "q \<in> set (distinctPlans h plans)" "planIdentity h (planAssignments q) = planIdentity h (planAssignments p)"
    unfolding distinctPlans_def by (rule one_per_key_covers)
  then show thesis using that distinctPlans_subset by blast
qed

lemma calculatePlans_mem:
  assumes "p \<in> set (calculatePlans h request now)"
  obtains v S where "acceptedRequest request now = Some v" "subsetPlan h v now S = Some p"
    "p \<in> set (nonDominated dominates (distinctPlans h (subsetPlans h v now)))"
proof -
  obtain v where v: "acceptedRequest request now = Some v"
    using assms by (cases "acceptedRequest request now") (auto simp: calculatePlans_eq)
  then have p: "p \<in> set (nonDominated dominates (distinctPlans h (subsetPlans h v now)))"
    using assms by (simp add: calculatePlans_eq)
  then have "p \<in> set (subsetPlans h v now)"
    by (auto simp: frontier.nonDominated_iff dest: distinctPlans_subset)
  with v p that subsetPlans_mem show ?thesis by blast
qed

section \<open>A concrete request\<close>

definition exampleHost :: host where
  "exampleHost = \<lparr>localeLower = (\<lambda>s. s), localeCompare = compareText, numberText = (\<lambda>q. ''fraction'')\<rparr>"

definition examplePrice :: "string \<Rightarrow> chain \<Rightarrow> int \<Rightarrow> price_observation" where
  "examplePrice ean c ore = \<lparr>priceEan = ean, priceChain = c, amountOre = ore,
     priceObservedAt = ''2026-07-16T12:00:00.000Z'', priceSource = ''kassalapp''\<rparr>"

definition exampleNeed :: "string \<Rightarrow> rat \<Rightarrow> measure_unit \<Rightarrow> string \<Rightarrow> need" where
  "exampleNeed i q u r = \<lparr>needId = i, needQuery = ''q'', needQuantity = q, needUnit = u, needRuleId = r, needRequired = True\<rparr>"

text \<open>Milk by volume in two package sizes, and bread by the piece, in two chains.\<close>

definition exampleRequest :: plan_request where
  "exampleRequest =
     \<lparr>requestNeeds = [exampleNeed ''milk'' 1500 Millilitre ''dairy'', exampleNeed ''bread'' 2 Each ''loaf''],
      matchingRules =
        [\<lparr>ruleId = ''dairy'', ruleMode = FlexibleMode, exactEan = None, ruleFamily = Some ''milk'', allowedBrands = None,
          ruleSizeRange = None, userApproved = True, ruleExplanation = ''any milk''\<rparr>,
         \<lparr>ruleId = ''loaf'', ruleMode = ExactMode, exactEan = Some ''70380101'', ruleFamily = None, allowedBrands = None,
          ruleSizeRange = None, userApproved = True, ruleExplanation = ''this loaf''\<rparr>],
      requestProducts =
        [\<lparr>productEan = ''70380001'', productName = ''Milk 1 l'', productBrand = None, packageQuantity = Some 1000,
          packageUnit = Some Millilitre, productFamily = Some ''milk''\<rparr>,
         \<lparr>productEan = ''70380002'', productName = ''Milk 1.75 l'', productBrand = None, packageQuantity = Some 1750,
          packageUnit = Some Millilitre, productFamily = Some ''milk''\<rparr>,
         \<lparr>productEan = ''70380101'', productName = ''Bread'', productBrand = None, packageQuantity = None,
          packageUnit = None, productFamily = None\<rparr>],
      requestPrices =
        [examplePrice ''70380001'' Extra 2000, examplePrice ''70380002'' Extra 3900,
         examplePrice ''70380002'' Meny 3000, examplePrice ''70380101'' Extra 2500, examplePrice ''70380101'' Meny 4000],
      requestMaxStores = 2\<rparr>"

definition exampleNow :: date where
  "exampleNow = Some 1784203260000"

lemma exampleAccepted: "acceptedRequest exampleRequest exampleNow = Some exampleRequest"
  by code_simp

definition exampleBread :: assignment where
  "exampleBread = \<lparr>assignmentNeedId = ''bread'', assignmentEan = ''70380101'', assignmentChain = Extra,
     assignmentQuantity = 2, assignmentCostOre = 5000, assignmentObservedAt = ''2026-07-16T12:00:00.000Z'',
     assignmentSource = ''kassalapp'', assignmentFulfilment = None\<rparr>"

definition exampleMilk :: assignment where
  "exampleMilk = \<lparr>assignmentNeedId = ''milk'', assignmentEan = ''70380002'', assignmentChain = Meny,
     assignmentQuantity = 1500, assignmentCostOre = 3000, assignmentObservedAt = ''2026-07-16T12:00:00.000Z'',
     assignmentSource = ''kassalapp'', assignmentFulfilment = Some
       \<lparr>fulfilmentNeedId = ''milk'', fulfilmentProductId = ''70380002'',
        fulfilmentRequested = \<lparr>measureAmount = 1500, measureUnit = Millilitre\<rparr>,
        fulfilmentPackage = \<lparr>measureAmount = 1750, measureUnit = Millilitre\<rparr>,
        packageCount = 1, fulfilledAmount = 1750, surplusAmount = 250\<rparr>\<rparr>"

lemma examplePurchase: "completePurchase exampleHost exampleRequest exampleNow [exampleBread, exampleMilk]"
proof -
  have n: "needsOf exampleRequest = [exampleNeed ''bread'' 2 Each ''loaf'', exampleNeed ''milk'' 1500 Millilitre ''dairy'']"
    by code_simp
  have "list_ex (\<lambda>a. a = exampleBread) (options exampleHost exampleRequest exampleNow (exampleNeed ''bread'' 2 Each ''loaf''))"
    by code_simp
  moreover have "list_ex (\<lambda>a. a = exampleMilk) (options exampleHost exampleRequest exampleNow (exampleNeed ''milk'' 1500 Millilitre ''dairy''))"
    by code_simp
  ultimately have "list_all2 (\<lambda>n a. a \<in> set (options exampleHost exampleRequest exampleNow n))
      (needsOf exampleRequest) [exampleBread, exampleMilk]"
    by (simp add: n list_ex_iff)
  moreover have "card (purchaseChains [exampleBread, exampleMilk]) \<le> min (requestMaxStores exampleRequest) 3"
    by (simp add: purchaseChains_def exampleBread_def exampleMilk_def exampleRequest_def)
  moreover have "purchaseCost [exampleBread, exampleMilk] \<le> MAX_PERSISTED_MONEY_ORE" by code_simp
  ultimately show ?thesis by (simp add: completePurchase_def)
qed

section \<open>Properties\<close>

lemma map_of_eligible:
  "map_of (fold (\<lambda>n. AList.update (needId n) ''eligible'') needs m) k =
     (if k \<in> needId ` set needs then Some ''eligible'' else map_of m k)"
  by (induction needs arbitrary: m) (auto simp: update_conv')

lemma plans_cover_subsets:
  assumes v: "acceptedRequest request now = Some v" and p: "p \<in> set (subsetPlans h v now)"
  obtains q where "q \<in> set (calculatePlans h request now)" "planTotalOre q \<le> planTotalOre p"
    "length (planChains q) \<le> length (planChains p)"
proof -
  obtain q where q: "q \<in> set (distinctPlans h (subsetPlans h v now))" "q \<in> set (subsetPlans h v now)"
    "planIdentity h (planAssignments q) = planIdentity h (planAssignments p)"
    using distinctPlans_covers [OF p] by blast
  note m = identity_metrics [OF v q(2) p q(3)]
  obtain w where w: "w \<in> set (nonDominated dominates (distinctPlans h (subsetPlans h v now)))"
    "w = q \<or> dominates w q"
    using frontier.nonDominated_covers [OF q(1)] by blast
  then have "w \<in> set (calculatePlans h request now)" by (simp add: calculatePlans_eq v)
  with w(2) m that show ?thesis by (auto simp: dominates_def Let_def)
qed

text \<open>
  C2. Every plan \<open>calculatePlans\<close> returns answers every required need, in order, with one admissible observation each;
  its total is the sum of the costs, its chains are exactly the chains it buys in (at most three and at most the
  requested number), and its substitutions are the needs whose rule is not exact.
\<close>

theorem calculatePlans_sound:
  assumes "p \<in> set (calculatePlans h request now)"
  shows "\<exists>v. acceptedRequest request now = Some v \<and> completePurchase h v now (planAssignments p)
    \<and> planTotalOre p = purchaseCost (planAssignments p)
    \<and> set (planChains p) = purchaseChains (planAssignments p) \<and> distinct (planChains p)
    \<and> set (planSubstitutions p) = {needId n |n. n \<in> set (needsOf v) \<and> substituted (rulesOf v) n}
    \<and> (\<forall>n \<in> set (needsOf v). map_of (planFreshness p) (needId n) = Some ''eligible'')"
proof -
  obtain v S where v: "acceptedRequest request now = Some v" and S: "subsetPlan h v now S = Some p"
    using calculatePlans_mem [OF assms] by metis
  from subsetPlan_Some [OF v S] v show ?thesis by (auto simp: map_of_eligible)
qed

theorem calculatePlans_sound_witness:
  "\<exists>p \<in> set (calculatePlans exampleHost exampleRequest exampleNow).
     completePurchase exampleHost exampleRequest exampleNow (planAssignments p)"
proof -
  obtain p where "p \<in> set (subsetPlans exampleHost exampleRequest exampleNow)"
    using subsetPlan_covers [OF exampleAccepted examplePurchase] by blast
  then obtain q where q: "q \<in> set (calculatePlans exampleHost exampleRequest exampleNow)"
    using plans_cover_subsets [OF exampleAccepted] by metis
  with calculatePlans_sound [OF q] exampleAccepted show ?thesis by auto
qed

text \<open>
  C1. \<open>calculatePlans\<close> misses no bargain: for every purchase of all required needs that respects the store limit and the
  money bound, whatever the chains, it returns a plan that costs no more and visits no more chains.
\<close>

theorem calculatePlans_complete:
  assumes "acceptedRequest request now = Some v" and "completePurchase h v now as"
  shows "\<exists>p \<in> set (calculatePlans h request now).
    planTotalOre p \<le> purchaseCost as \<and> length (planChains p) \<le> card (purchaseChains as)"
proof -
  obtain p where p: "p \<in> set (subsetPlans h v now)" "planTotalOre p \<le> purchaseCost as"
    "length (planChains p) \<le> card (purchaseChains as)"
    using subsetPlan_covers [OF assms] .
  obtain q where "q \<in> set (calculatePlans h request now)" "planTotalOre q \<le> planTotalOre p"
    "length (planChains q) \<le> length (planChains p)"
    using plans_cover_subsets [OF assms(1) p(1)] .
  with p show ?thesis by (intro bexI [of _ q]) auto
qed

theorem calculatePlans_complete_witness:
  "\<exists>p \<in> set (calculatePlans exampleHost exampleRequest exampleNow).
     planTotalOre p \<le> purchaseCost [exampleBread, exampleMilk]
     \<and> length (planChains p) \<le> card (purchaseChains [exampleBread, exampleMilk])"
  by (rule calculatePlans_complete [OF exampleAccepted examplePurchase])

text \<open>
  C3. The plans \<open>calculatePlans\<close> returns are a frontier: none dominates another, no two have the same identity, and they
  are listed by chain count, then substitutions, then total, then identity.
\<close>

theorem calculatePlans_frontier:
  "(\<forall>p \<in> set (calculatePlans h request now). \<forall>q \<in> set (calculatePlans h request now). \<not> dominates q p)
   \<and> distinct (map (\<lambda>p. planIdentity h (planAssignments p)) (calculatePlans h request now))
   \<and> sorted_wrt (\<lambda>p q. comparePlans h p q \<le> 0) (calculatePlans h request now)"
proof (cases "acceptedRequest request now")
  case (Some v)
  have ids: "distinct (map (\<lambda>p. planIdentity h (planAssignments p)) (distinctPlans h ps))" for ps
    unfolding distinctPlans_def by (rule one_per_key_distinct)
  show ?thesis using Some ids
    by (auto simp: calculatePlans_eq by_plan.sorted_sort_by frontier.nonDominated_iff
        intro!: frontier.distinct_nonDominated dest: distinctPlans_subset)
qed (simp add: calculatePlans_eq)

theorem calculatePlans_frontier_witness:
  "\<exists>p \<in> set (calculatePlans exampleHost exampleRequest exampleNow).
     \<forall>q \<in> set (calculatePlans exampleHost exampleRequest exampleNow). \<not> dominates q p"
proof -
  obtain p where "p \<in> set (subsetPlans exampleHost exampleRequest exampleNow)"
    using subsetPlan_covers [OF exampleAccepted examplePurchase] by blast
  then obtain q where "q \<in> set (calculatePlans exampleHost exampleRequest exampleNow)"
    using plans_cover_subsets [OF exampleAccepted] by metis
  with calculatePlans_frontier [of exampleHost exampleRequest exampleNow, THEN conjunct1] show ?thesis by blast
qed

section \<open>What a purchase means\<close>

lemma observationCandidate_packages:
  assumes "observationCandidate n S eans items p = Some a" and "assignmentFulfilment a = Some f"
  obtains item q where "map_of items (priceEan p) = Some item" "packageQuantity item = Some (of_int q)"
    "packageUnit item = Some (needUnit n)"
    "calculatePackageFulfilment \<lparr>inputProductId = productEan item, inputNeedId = needId n,
       inputRequested = \<lparr>measureAmount = \<lfloor>needQuantity n\<rfloor>, measureUnit = needUnit n\<rparr>,
       inputPackage = \<lparr>measureAmount = q, measureUnit = needUnit n\<rparr>\<rparr> = Complete f"
    "needQuantity n = of_int \<lfloor>needQuantity n\<rfloor>"
  using assms
  by (auto simp: observationCandidate_def Let_def isSafeInteger_def split: if_splits option.splits package_result.splits)

lemma rulesOf_entry: "map_of (rulesOf v) k = Some r \<Longrightarrow> r \<in> set (matchingRules v) \<and> ruleId r = k"
  unfolding rulesOf_def by (auto simp: map_of_newMap dest!: map_of_SomeD)

text \<open>
  Every assignment a plan may contain is a real purchase: it buys a product that satisfies the approved rule of the
  need, at a price observed for that product and chain within the last 72 hours, and it pays for exactly the requested
  quantity, or for the least number of whole packages that covers it.
\<close>

theorem options_meaning:
  assumes "acceptedRequest request now = Some v" and "a \<in> set (options h v now n)"
  shows "\<exists>rule \<in> set (matchingRules v). \<exists>matched \<in> set (requestProducts v). \<exists>price \<in> set (requestPrices v).
      ruleId rule = needRuleId n \<and> satisfies h rule matched \<and> productEan matched = assignmentEan a
      \<and> priceEan price = assignmentEan a \<and> priceChain price = assignmentChain a
      \<and> (case now of None \<Rightarrow> False | Some t \<Rightarrow>
           dateParse (priceObservedAt price) \<le> t \<and> t - dateParse (priceObservedAt price) \<le> 72 * 60 * 60 * 1000)
      \<and> (case assignmentFulfilment a of
           None \<Rightarrow> needUnit n = Each \<and> of_int (assignmentCostOre a) = of_int (amountOre price) * needQuantity n
         | Some f \<Rightarrow> assignmentCostOre a = amountOre price * packageCount f
             \<and> (\<exists>item \<in> set (requestProducts v). \<exists>size. productEan item = assignmentEan a
                  \<and> packageQuantity item = Some (of_int size) \<and> packageUnit item = Some (needUnit n)
                  \<and> needQuantity n \<le> of_int (packageCount f * size)
                  \<and> (\<forall>k. needQuantity n \<le> of_int (k * size) \<longrightarrow> packageCount f \<le> k)))"
proof -
  obtain t where t: "now = Some t" using accepted_facts(6) [OF assms(1)] by auto
  obtain rule where rule: "map_of (rulesOf v) (needRuleId n) = Some rule"
    "a \<in> set (candidatesFor h rule (requestProducts v) (pricesOf v now) CHAIN_ORDER n)"
    using assms(2) by (auto simp: options_mem)
  let ?items = "newMap (map (\<lambda>p. (productEan p, p)) (requestProducts v))"
  obtain price where price: "price \<in> set (pricesOf v now)"
    "observationCandidate n CHAIN_ORDER (map productEan (matchProducts h n rule (requestProducts v))) ?items price = Some a"
    using rule(2) by (auto simp: candidatesFor_mem)
  note o = observationCandidate_Some [OF price(2)]
  obtain matched where matched: "matched \<in> set (matchProducts h n rule (requestProducts v))"
    "productEan matched = assignmentEan a"
    using o(3,8) by auto
  have fresh: "price \<in> set (requestPrices v)" "dateParse (priceObservedAt price) \<le> t"
    "t - dateParse (priceObservedAt price) \<le> 72 * 60 * 60 * 1000"
    using price(1) by (simp_all add: pricesOf_def t ELIGIBLE_MAX_AGE_MS_def)
  have pay: "case assignmentFulfilment a of
           None \<Rightarrow> needUnit n = Each \<and> of_int (assignmentCostOre a) = of_int (amountOre price) * needQuantity n
         | Some f \<Rightarrow> assignmentCostOre a = amountOre price * packageCount f
             \<and> (\<exists>item \<in> set (requestProducts v). \<exists>size. productEan item = assignmentEan a
                  \<and> packageQuantity item = Some (of_int size) \<and> packageUnit item = Some (needUnit n)
                  \<and> needQuantity n \<le> of_int (packageCount f * size)
                  \<and> (\<forall>k. needQuantity n \<le> of_int (k * size) \<longrightarrow> packageCount f \<le> k))"
  proof (cases "assignmentFulfilment a")
    case None
    with o(11,12) show ?thesis by simp
  next
    case (Some f)
    from observationCandidate_packages [OF price(2) Some] obtain item q where
      item: "map_of ?items (priceEan price) = Some item" "packageQuantity item = Some (of_int q)"
      "packageUnit item = Some (needUnit n)"
      and calc: "calculatePackageFulfilment \<lparr>inputProductId = productEan item, inputNeedId = needId n,
         inputRequested = \<lparr>measureAmount = \<lfloor>needQuantity n\<rfloor>, measureUnit = needUnit n\<rparr>,
         inputPackage = \<lparr>measureAmount = q, measureUnit = needUnit n\<rparr>\<rparr> = Complete f"
      and int: "needQuantity n = of_int \<lfloor>needQuantity n\<rfloor>" .
    note c = calculatePackageFulfilment_complete [OF calc, simplified]
    have "needQuantity n \<le> of_int m \<longleftrightarrow> \<lfloor>needQuantity n\<rfloor> \<le> m" for m
      by (subst int) (simp only: of_int_le_iff)
    moreover have "item \<in> set (requestProducts v) \<and> productEan item = priceEan price"
      using item(1) by (auto simp: map_of_newMap dest!: map_of_SomeD)
    moreover have "assignmentCostOre a = amountOre price * packageCount f"
      using o(11) Some by (simp flip: of_int_mult)
    ultimately show ?thesis
      using Some item(2,3) o(3) c ceiling_div_least [OF c(1), of "\<lfloor>needQuantity n\<rfloor>"]
      by (auto simp del: of_int_mult intro!: bexI [of _ item])
  qed
  show ?thesis
    using rulesOf_entry [OF rule(1)] matchProducts_sound [OF matched(1)] matched(2) fresh o(3,4) pay t by auto
qed

theorem options_meaning_witness:
  "\<exists>price \<in> set (requestPrices exampleRequest).
     priceEan price = ''70380002'' \<and> priceChain price = Meny \<and> assignmentCostOre exampleMilk = amountOre price * 1"
proof -
  have "list_ex (\<lambda>a. a = exampleMilk) (options exampleHost exampleRequest exampleNow (exampleNeed ''milk'' 1500 Millilitre ''dairy''))"
    by code_simp
  then have m: "exampleMilk \<in> set (options exampleHost exampleRequest exampleNow (exampleNeed ''milk'' 1500 Millilitre ''dairy''))"
    by (simp add: list_ex_iff)
  from options_meaning [OF exampleAccepted m] show ?thesis by (auto simp: exampleMilk_def)
qed

section \<open>The result contract\<close>

lemma option_in_contract:
  assumes "acceptedRequest request now = Some v" and "n \<in> set (needsOf v)" and "a \<in> set (options h v now n)"
  shows "assignmentSchemaWith sourceIdSchema a = Some a"
proof -
  obtain p eans t where p: "p \<in> set (pricesOf v now)" "observationCandidate n CHAIN_ORDER eans t p = Some a"
    using assms(3) by (auto simp: options_mem candidatesFor_mem)
  note o = observationCandidate_Some [OF p(2)]
  have n: "needSchema n = Some n"
    using accepted_facts(1) [OF assms(1)] assms(2) by (auto simp: wellFormedRequest_def needsOf_def)
  have "sourceNeutralPriceObservationSchema p = Some p"
    using accepted_facts(1) [OF assms(1)] p(1) by (simp add: wellFormedRequest_def pricesOf_def)
  note s = priceSchema_fields [OF this]
  have "parseOptional fulfilmentSchema (assignmentFulfilment a) = Some (assignmentFulfilment a)"
  proof (cases "assignmentFulfilment a")
    case (Some f)
    show ?thesis
      by (rule observationCandidate_packages [OF p(2) Some])
        (simp add: Some calculatePackageFulfilment_schema)
  qed simp
  then show ?thesis
    using o s n by (simp add: assignmentSchemaWith_def needSchema_iff moneyOreSchema_def)
qed

text \<open>
  Every plan \<open>calculatePlans\<close> returns is admitted, unchanged, by the published result contract
  \<open>sourceNeutralPlanResultSchema\<close>.
\<close>

theorem calculatePlans_contract:
  assumes "p \<in> set (calculatePlans h request now)"
  shows "sourceNeutralPlanResultSchema p = Some p"
proof -
  obtain v S where v: "acceptedRequest request now = Some v" and S: "subsetPlan h v now S = Some p"
    using calculatePlans_mem [OF assms] by metis
  note P = subsetPlan_Some [OF v S]
  have opts: "list_all2 (\<lambda>n a. a \<in> set (options h v now n)) (needsOf v) (planAssignments p)"
    and c: "card (purchaseChains (planAssignments p)) \<le> min (requestMaxStores v) 3"
    and cost: "purchaseCost (planAssignments p) \<le> MAX_PERSISTED_MONEY_ORE"
    using P(1) by (simp_all add: completePurchase_def)
  have "parseAll (assignmentSchemaWith sourceIdSchema) (planAssignments p) = Some (planAssignments p)"
    using list_all2_right [OF opts] option_in_contract [OF v] by (intro parseAll_id) blast
  moreover have "length (planChains p) \<le> 3" using P(3,4) c by (metis distinct_card min.boundedE)
  moreover have "0 \<le> purchaseCost (planAssignments p)"
    unfolding purchaseCost_def using list_all2_right [OF opts] candidatesFor_fields
    by (intro sum_list_nonneg) (fastforce simp: options_mem)
  ultimately show ?thesis
    using P(2,4,10) cost by (simp add: sourceNeutralPlanResultSchema_def planResultWith_def nonEmpty_def
        moneyOreSchema_def distinct_card)
qed

theorem calculatePlans_contract_witness:
  "\<exists>p \<in> set (calculatePlans exampleHost exampleRequest exampleNow). sourceNeutralPlanResultSchema p = Some p"
proof -
  obtain p where "p \<in> set (subsetPlans exampleHost exampleRequest exampleNow)"
    using subsetPlan_covers [OF exampleAccepted examplePurchase] by blast
  then obtain q where "q \<in> set (calculatePlans exampleHost exampleRequest exampleNow)"
    using plans_cover_subsets [OF exampleAccepted] by metis
  then show ?thesis using calculatePlans_contract by blast
qed

section \<open>Two records of one EAN\<close>

text \<open>
  A request may list one EAN twice. The rule is then checked against the record \<open>matchProducts\<close> keeps, and the packages
  are counted with the last record: here a rule for packages of at most 1100 ml buys a 3000 ml package.
\<close>

definition duplicateRequest :: plan_request where
  "duplicateRequest =
     \<lparr>requestNeeds = [exampleNeed ''milk'' 1500 Millilitre ''dairy''],
      matchingRules =
        [\<lparr>ruleId = ''dairy'', ruleMode = ConstrainedMode, exactEan = None, ruleFamily = None, allowedBrands = None,
          ruleSizeRange = Some \<lparr>sizeMin = 900, sizeMax = 1100, sizeUnit = Millilitre\<rparr>, userApproved = True,
          ruleExplanation = ''about a litre''\<rparr>],
      requestProducts =
        [\<lparr>productEan = ''70380001'', productName = ''Milk 1 l'', productBrand = None, packageQuantity = Some 1000,
          packageUnit = Some Millilitre, productFamily = None\<rparr>,
         \<lparr>productEan = ''70380001'', productName = ''Milk 3 l'', productBrand = None, packageQuantity = Some 3000,
          packageUnit = Some Millilitre, productFamily = None\<rparr>],
      requestPrices = [examplePrice ''70380001'' Extra 2000],
      requestMaxStores = 1\<rparr>"

lemma duplicate_ean_breaks_size_range:
  "acceptedRequest duplicateRequest exampleNow = Some duplicateRequest"
  "map (\<lambda>a. map_option (\<lambda>f. (measureAmount (fulfilmentPackage f), packageCount f)) (assignmentFulfilment a))
     (options exampleHost duplicateRequest exampleNow (exampleNeed ''milk'' 1500 Millilitre ''dairy'')) = [Some (3000, 1)]"
  by code_simp+

end
