(* ===== verification/Geography.thy ===== *)
theory Geography
  imports Contract_Primitives
begin

text \<open>
  \<open>packages/domain/src/geography.ts\<close>: geographic scopes, the reviewed postal directory, applicability of a scope to a
  location, and the public attestation of one directory region. Timestamps of typed values are canonical, so
  \<open>Date.parse\<close> of them is \<open>dateParse\<close>.
\<close>

section \<open>Scopes and locations\<close>

definition MAX_GEOGRAPHIC_REGION_CODES :: nat where
  "MAX_GEOGRAPHIC_REGION_CODES = 100"

definition MAX_GEOGRAPHIC_STORE_IDS :: nat where
  "MAX_GEOGRAPHIC_STORE_IDS = 1000"

definition MAX_GEOGRAPHIC_POSTAL_CODES :: nat where
  "MAX_GEOGRAPHIC_POSTAL_CODES = 10000"

definition countryCodeSchema :: "string \<Rightarrow> bool" where
  "countryCodeSchema s \<longleftrightarrow> length s = 2 \<and> list_all (\<lambda>c. CHR ''A'' \<le> c \<and> c \<le> CHR ''Z'') s"

definition postalCodeSchema :: "string \<Rightarrow> bool" where
  "postalCodeSchema s \<longleftrightarrow> length s = 4 \<and> list_all isDigit s"

definition hasCanonicalStringOrder :: "string list \<Rightarrow> bool" where
  "hasCanonicalStringOrder values \<longleftrightarrow>
     list_all (\<lambda>index. index = 0 \<or> values ! (index - 1) < values ! index) [0 ..< length values]"

datatype geographic_scope =
    NationalScope (scopeCountry: string)
  | RegionsScope (scopeCountry: string) (scopeRegions: "string list")
  | PostalSetScope (scopeCountry: string) (scopePostalCodes: "string list")
  | StoresScope (scopeStores: "string list")
  | UnknownScope (scopeReason: string)

fun geographicScopeSchema :: "geographic_scope \<Rightarrow> geographic_scope option" where
  "geographicScopeSchema (NationalScope cc) = (if countryCodeSchema cc then Some (NationalScope cc) else None)"
| "geographicScopeSchema (RegionsScope cc codes) =
     (case parseAll identifierSchema codes of None \<Rightarrow> None
      | Some regions \<Rightarrow>
          if countryCodeSchema cc \<and> 1 \<le> length regions \<and> length regions \<le> MAX_GEOGRAPHIC_REGION_CODES
             \<and> hasUniqueStrings regions
          then Some (RegionsScope cc regions) else None)"
| "geographicScopeSchema (PostalSetScope cc codes) =
     (if countryCodeSchema cc \<and> list_all postalCodeSchema codes \<and> 1 \<le> length codes
         \<and> length codes \<le> MAX_GEOGRAPHIC_POSTAL_CODES \<and> hasUniqueStrings codes \<and> hasCanonicalStringOrder codes
      then Some (PostalSetScope cc codes) else None)"
| "geographicScopeSchema (StoresScope ids) =
     (case parseAll identifierSchema ids of None \<Rightarrow> None
      | Some stores \<Rightarrow>
          if 1 \<le> length stores \<and> length stores \<le> MAX_GEOGRAPHIC_STORE_IDS \<and> hasUniqueStrings stores
          then Some (StoresScope stores) else None)"
| "geographicScopeSchema (UnknownScope reason) = map_option UnknownScope (nonEmptyStringSchema reason)"

record geographic_context =
  locationCountry :: string
  locationRegion :: "string option"
  locationPostal :: "string option"
  locationStore :: "string option"

definition geographicContextSchema :: "geographic_context \<Rightarrow> geographic_context option" where
  "geographicContextSchema c =
     (case (parseOptional identifierSchema (locationRegion c), parseOptional identifierSchema (locationStore c)) of
        (Some region, Some store) \<Rightarrow>
          (if countryCodeSchema (locationCountry c) \<and> optionally postalCodeSchema (locationPostal c)
           then Some (c\<lparr>locationRegion := region, locationStore := store\<rparr>) else None)
      | _ \<Rightarrow> None)"

section \<open>The postal directory\<close>

datatype coverage_state = CompleteRegion | AmbiguousRegion

record directory_region =
  regionCoverage :: coverage_state
  regionEvidence :: string
  regionPostalCodes :: "string list"
  regionCode :: string

definition postalDirectoryRegionSchema :: "directory_region \<Rightarrow> directory_region option" where
  "postalDirectoryRegionSchema r =
     (case (nonEmptyStringSchema (regionEvidence r), identifierSchema (regionCode r)) of
        (Some evidence, Some code) \<Rightarrow>
          (if list_all postalCodeSchema (regionPostalCodes r)
              \<and> length (regionPostalCodes r) \<le> MAX_GEOGRAPHIC_POSTAL_CODES
              \<and> hasUniqueStrings (regionPostalCodes r) \<and> hasCanonicalStringOrder (regionPostalCodes r)
              \<and> \<not> (regionCoverage r = CompleteRegion \<and> length (regionPostalCodes r) = 0)
           then Some (r\<lparr>regionEvidence := evidence, regionCode := code\<rparr>) else None)
      | _ \<Rightarrow> None)"

record postal_directory =
  directoryCountry :: string
  directoryVersionId :: string
  directoryEvidenceReference :: string
  directoryPublishedAt :: string
  directoryRegions :: "directory_region list"
  directoryReviewedAt :: string
  directoryValidFrom :: string
  directoryValidUntil :: "string option"

definition postalDirectoryRefinement :: "postal_directory \<Rightarrow> bool" where
  "postalDirectoryRefinement d \<longleftrightarrow>
     hasUniqueStrings (map regionCode (directoryRegions d))
     \<and> hasCanonicalStringOrder (map regionCode (directoryRegions d))
     \<and> \<not> (case directoryValidUntil d of None \<Rightarrow> False
          | Some until \<Rightarrow> dateParse (directoryValidFrom d) \<ge> dateParse until)
     \<and> \<not> dateParse (directoryReviewedAt d) > dateParse (directoryPublishedAt d)"

definition geographicPostalDirectorySchema :: "postal_directory \<Rightarrow> postal_directory option" where
  "geographicPostalDirectorySchema d =
     (case (identifierSchema (directoryVersionId d), nonEmptyStringSchema (directoryEvidenceReference d),
            parseAll postalDirectoryRegionSchema (directoryRegions d)) of
        (Some version, Some evidence, Some regions) \<Rightarrow>
          (let parsed = d\<lparr>directoryVersionId := version, directoryEvidenceReference := evidence,
                          directoryRegions := regions\<rparr>
           in if countryCodeSchema (directoryCountry d) \<and> canonicalTimestamp (directoryPublishedAt d)
                 \<and> 1 \<le> length regions \<and> length regions \<le> 100 \<and> canonicalTimestamp (directoryReviewedAt d)
                 \<and> canonicalTimestamp (directoryValidFrom d) \<and> optionally canonicalTimestamp (directoryValidUntil d)
                 \<and> postalDirectoryRefinement parsed
              then Some parsed else None)
      | _ \<Rightarrow> None)"

datatype directory_evidence =
    AvailableDirectory postal_directory string
  | UnknownDirectory string
  | AmbiguousDirectory string

fun geographicDirectoryEvidenceSchema :: "directory_evidence \<Rightarrow> directory_evidence option" where
  "geographicDirectoryEvidenceSchema (AvailableDirectory d evaluatedAt) =
     (case geographicPostalDirectorySchema d of None \<Rightarrow> None
      | Some d' \<Rightarrow> if canonicalTimestamp evaluatedAt then Some (AvailableDirectory d' evaluatedAt) else None)"
| "geographicDirectoryEvidenceSchema (UnknownDirectory reason) = map_option UnknownDirectory (nonEmptyStringSchema reason)"
| "geographicDirectoryEvidenceSchema (AmbiguousDirectory reason) = map_option AmbiguousDirectory (nonEmptyStringSchema reason)"

section \<open>The attestation of one region\<close>

record region_attestation =
  attestedCountry :: string
  attestedVersionId :: string
  attestedEvaluatedAt :: string
  attestedEvidenceReference :: string
  attestedPublishedAt :: string
  attestedRegion :: directory_region
  attestedReviewedAt :: string
  attestedValidFrom :: string
  attestedValidUntil :: "string option"

definition regionAttestationRefinement :: "region_attestation \<Rightarrow> bool" where
  "regionAttestationRefinement a \<longleftrightarrow>
     regionCoverage (attestedRegion a) = CompleteRegion
     \<and> \<not> (dateParse (attestedPublishedAt a) > dateParse (attestedEvaluatedAt a)
          \<or> dateParse (attestedReviewedAt a) > dateParse (attestedEvaluatedAt a)
          \<or> dateParse (attestedValidFrom a) > dateParse (attestedEvaluatedAt a)
          \<or> dateParse (attestedReviewedAt a) > dateParse (attestedPublishedAt a))
     \<and> \<not> (case attestedValidUntil a of None \<Rightarrow> False
          | Some until \<Rightarrow> dateParse until \<le> dateParse (attestedEvaluatedAt a))"

definition geographicDirectoryRegionAttestationV1Schema :: "region_attestation \<Rightarrow> region_attestation option" where
  "geographicDirectoryRegionAttestationV1Schema a =
     (case (identifierSchema (attestedVersionId a), nonEmptyStringSchema (attestedEvidenceReference a),
            postalDirectoryRegionSchema (attestedRegion a)) of
        (Some version, Some evidence, Some region) \<Rightarrow>
          (let parsed = a\<lparr>attestedVersionId := version, attestedEvidenceReference := evidence, attestedRegion := region\<rparr>
           in if countryCodeSchema (attestedCountry a) \<and> canonicalTimestamp (attestedEvaluatedAt a)
                 \<and> canonicalTimestamp (attestedPublishedAt a) \<and> canonicalTimestamp (attestedReviewedAt a)
                 \<and> canonicalTimestamp (attestedValidFrom a) \<and> optionally canonicalTimestamp (attestedValidUntil a)
                 \<and> regionAttestationRefinement parsed
              then Some parsed else None)
      | _ \<Rightarrow> None)"

definition attestGeographicDirectoryRegionV1 ::
    "directory_evidence option \<Rightarrow> string option \<Rightarrow> region_attestation option" where
  "attestGeographicDirectoryRegionV1 evidence code =
     (case (evidence, code) of
        (Some (AvailableDirectory d evaluatedAt), Some c) \<Rightarrow>
          (case find (\<lambda>candidate. regionCode candidate = c) (directoryRegions d) of
             None \<Rightarrow> None
           | Some region \<Rightarrow>
               if regionCoverage region \<noteq> CompleteRegion then None
               else geographicDirectoryRegionAttestationV1Schema
                 \<lparr>attestedCountry = directoryCountry d, attestedVersionId = directoryVersionId d,
                  attestedEvaluatedAt = evaluatedAt, attestedEvidenceReference = directoryEvidenceReference d,
                  attestedPublishedAt = directoryPublishedAt d, attestedRegion = region,
                  attestedReviewedAt = directoryReviewedAt d, attestedValidFrom = directoryValidFrom d,
                  attestedValidUntil = directoryValidUntil d\<rparr>)
      | _ \<Rightarrow> None)"

definition geographicDirectoryEvidenceFromRegionAttestationV1 ::
    "region_attestation \<Rightarrow> geographic_context \<Rightarrow> string \<Rightarrow> directory_evidence option" where
  "geographicDirectoryEvidenceFromRegionAttestationV1 attestation location evaluatedAt =
     (case geographicDirectoryRegionAttestationV1Schema attestation of
        None \<Rightarrow> None
      | Some a \<Rightarrow>
          if attestedEvaluatedAt a \<noteq> evaluatedAt \<or> locationRegion location = None
             \<or> attestedCountry a \<noteq> locationCountry location
             \<or> Some (regionCode (attestedRegion a)) \<noteq> locationRegion location then None
          else Some (AvailableDirectory
            \<lparr>directoryCountry = attestedCountry a, directoryVersionId = attestedVersionId a,
             directoryEvidenceReference = attestedEvidenceReference a, directoryPublishedAt = attestedPublishedAt a,
             directoryRegions = [attestedRegion a], directoryReviewedAt = attestedReviewedAt a,
             directoryValidFrom = attestedValidFrom a, directoryValidUntil = attestedValidUntil a\<rparr>
            (attestedEvaluatedAt a)))"

section \<open>Applicability\<close>

datatype applicability = Applicable nat | NotApplicable | UnknownApplicability string | AmbiguousApplicability string

definition resolvePostalSet ::
    "string list \<Rightarrow> geographic_context \<Rightarrow> string \<Rightarrow> postal_directory \<Rightarrow> string \<Rightarrow> applicability" where
  "resolvePostalSet codes location code d evaluatedAt =
     (case geographicPostalDirectorySchema d of
        None \<Rightarrow> UnknownApplicability ''invalid-postal-directory''
      | Some directory \<Rightarrow>
          if dateParse (directoryPublishedAt directory) > dateParse evaluatedAt
             \<or> dateParse (directoryReviewedAt directory) > dateParse evaluatedAt
             \<or> dateParse (directoryValidFrom directory) > dateParse evaluatedAt
          then UnknownApplicability ''postal-directory-not-current''
          else if (case directoryValidUntil directory of None \<Rightarrow> False
                   | Some until \<Rightarrow> dateParse until \<le> dateParse evaluatedAt)
          then UnknownApplicability ''postal-directory-not-current''
          else if directoryCountry directory \<noteq> locationCountry location then NotApplicable
          else (case find (\<lambda>r. regionCode r = code) (directoryRegions directory) of
              None \<Rightarrow> UnknownApplicability ''postal-directory-region-unavailable''
            | Some region \<Rightarrow>
                if regionCoverage region = AmbiguousRegion
                then AmbiguousApplicability ''postal-directory-region-ambiguous''
                else
                  (let overlapCount = foldl (\<lambda>n c. n + (if c \<in> set codes then 1 else 0)) (0 :: nat) (regionPostalCodes region)
                   in if overlapCount = length (regionPostalCodes region) then Applicable 2
                      else if overlapCount = 0 then NotApplicable
                      else AmbiguousApplicability ''partial-postal-region-overlap'')))"

fun resolveGeographicApplicability ::
    "geographic_scope \<Rightarrow> geographic_context \<Rightarrow> directory_evidence option \<Rightarrow> applicability" where
  "resolveGeographicApplicability (NationalScope cc) location evidence =
     (if cc = locationCountry location then Applicable 0 else NotApplicable)"
| "resolveGeographicApplicability (RegionsScope cc codes) location evidence =
     (if cc = locationCountry location
         \<and> (case locationRegion location of None \<Rightarrow> False | Some code \<Rightarrow> code \<in> set codes)
      then Applicable 1 else NotApplicable)"
| "resolveGeographicApplicability (PostalSetScope cc codes) location evidence =
     (if cc \<noteq> locationCountry location then NotApplicable
      else case locationPostal location of
        Some postal \<Rightarrow> if postal \<in> set codes then Applicable 2 else NotApplicable
      | None \<Rightarrow>
          (case locationRegion location of
             None \<Rightarrow> UnknownApplicability ''postal-location-unavailable''
           | Some code \<Rightarrow>
               (case evidence of
                  None \<Rightarrow> UnknownApplicability ''postal-directory-unavailable''
                | Some (UnknownDirectory reason) \<Rightarrow> UnknownApplicability reason
                | Some (AmbiguousDirectory reason) \<Rightarrow> AmbiguousApplicability reason
                | Some (AvailableDirectory d evaluatedAt) \<Rightarrow> resolvePostalSet codes location code d evaluatedAt)))"
| "resolveGeographicApplicability (StoresScope ids) location evidence =
     (if (case locationStore location of None \<Rightarrow> False | Some i \<Rightarrow> i \<in> set ids) then Applicable 3 else NotApplicable)"
| "resolveGeographicApplicability (UnknownScope reason) location evidence = UnknownApplicability reason"

definition geographicScopeIncludes :: "geographic_scope \<Rightarrow> geographic_context \<Rightarrow> directory_evidence option \<Rightarrow> bool" where
  "geographicScopeIncludes scope location evidence \<longleftrightarrow>
     (case resolveGeographicApplicability scope location evidence of Applicable _ \<Rightarrow> True | _ \<Rightarrow> False)"

definition geographicScopeSpecificity ::
    "geographic_scope \<Rightarrow> geographic_context \<Rightarrow> directory_evidence option \<Rightarrow> nat option" where
  "geographicScopeSpecificity scope location evidence =
     (case resolveGeographicApplicability scope location evidence of Applicable n \<Rightarrow> Some n | _ \<Rightarrow> None)"

datatype channel = InStore | Online

record offer_applicability =
  offerStartsAt :: string
  offerEndsAt :: string
  offerScope :: geographic_scope
  offerChannels :: "channel list"

definition offerApplicabilitySchema :: "offer_applicability \<Rightarrow> offer_applicability option" where
  "offerApplicabilitySchema a =
     (case geographicScopeSchema (offerScope a) of
        None \<Rightarrow> None
      | Some scope \<Rightarrow>
          if canonicalTimestamp (offerStartsAt a) \<and> canonicalTimestamp (offerEndsAt a) \<and> 1 \<le> length (offerChannels a)
             \<and> \<not> dateParse (offerStartsAt a) \<ge> dateParse (offerEndsAt a)
             \<and> length (uniq (offerChannels a)) = length (offerChannels a)
          then Some (a\<lparr>offerScope := scope\<rparr>) else None)"

section \<open>Lemmas\<close>

lemma hasCanonicalStringOrder_iff [simp]: "hasCanonicalStringOrder xs \<longleftrightarrow> sorted_wrt (<) xs"
proof -
  have "hasCanonicalStringOrder xs \<longleftrightarrow> (\<forall>i. Suc i < length xs \<longrightarrow> xs ! i < xs ! Suc i)"
    unfolding hasCanonicalStringOrder_def list_all_iff
  proof (intro iffI allI ballI impI)
    fix i assume "\<forall>x \<in> set [0 ..< length xs]. x = 0 \<or> xs ! (x - 1) < xs ! x" "Suc i < length xs"
    then show "xs ! i < xs ! Suc i" by (auto dest!: bspec [of _ _ "Suc i"])
  next
    fix i assume "\<forall>i. Suc i < length xs \<longrightarrow> xs ! i < xs ! Suc i" "i \<in> set [0 ..< length xs]"
    then show "i = 0 \<or> xs ! (i - 1) < xs ! i" by (cases i) auto
  qed
  also have "\<dots> \<longleftrightarrow> sorted_wrt (<) xs"
    by (rule sorted_wrt_iff_nth_Suc_transp [symmetric]) (simp add: transp_def)
  finally show ?thesis .
qed

lemma overlap_count:
  "foldl (\<lambda>n c. n + (if c \<in> S then 1 else 0)) k xs = k + length (filter (\<lambda>c. c \<in> S) xs)" for k :: nat
  by (induction xs arbitrary: k) auto

lemma parseAll_identifier_idem: "parseAll identifierSchema xs = Some ys \<Longrightarrow> parseAll identifierSchema ys = Some ys"
  by (rule parseAll_idem) (auto dest: identifierSchema_idem)

lemma geographicScopeSchema_idem: "geographicScopeSchema s = Some t \<Longrightarrow> geographicScopeSchema t = Some t"
  by (cases s) (auto split: option.splits if_splits dest: parseAll_identifier_idem nonEmptyStringSchema_idem)

lemma geographicContextSchema_idem:
  assumes "geographicContextSchema c = Some d"
  shows "geographicContextSchema d = Some d"
proof -
  obtain r s where p: "parseOptional identifierSchema (locationRegion c) = Some r"
    "parseOptional identifierSchema (locationStore c) = Some s"
    and d: "d = c\<lparr>locationRegion := r, locationStore := s\<rparr>"
    "countryCodeSchema (locationCountry c) \<and> optionally postalCodeSchema (locationPostal c)"
    using assms by (auto simp: geographicContextSchema_def split: option.splits if_splits)
  have "parseOptional identifierSchema r = Some r" "parseOptional identifierSchema s = Some s"
    using p by (auto intro: parseOptional_idem identifierSchema_idem)
  with d show ?thesis by (simp add: geographicContextSchema_def)
qed

lemma offerApplicabilitySchema_idem:
  assumes "offerApplicabilitySchema a = Some b"
  shows "offerApplicabilitySchema b = Some b"
proof -
  obtain s where s: "geographicScopeSchema (offerScope a) = Some s" and b: "b = a\<lparr>offerScope := s\<rparr>"
    using assms by (auto simp: offerApplicabilitySchema_def split: option.splits if_splits)
  have "geographicScopeSchema s = Some s" by (rule geographicScopeSchema_idem [OF s])
  with assms s b show ?thesis by (auto simp: offerApplicabilitySchema_def split: if_splits)
qed

lemma postalDirectoryRegionSchema_idem:
  assumes "postalDirectoryRegionSchema r = Some q"
  shows "postalDirectoryRegionSchema q = Some q"
proof -
  obtain e c where p: "nonEmptyStringSchema (regionEvidence r) = Some e" "identifierSchema (regionCode r) = Some c"
    and q: "q = r\<lparr>regionEvidence := e, regionCode := c\<rparr>"
    using assms by (auto simp: postalDirectoryRegionSchema_def split: option.splits if_splits)
  have "nonEmptyStringSchema e = Some e" "identifierSchema c = Some c"
    using p by (auto dest: text_schema_idem)
  with assms p q show ?thesis by (auto simp: postalDirectoryRegionSchema_def split: if_splits)
qed

text \<open>A directory that is its own parse, and what that fixes.\<close>

lemma directory_fixed:
  "geographicPostalDirectorySchema d = Some d \<longleftrightarrow>
     identifierSchema (directoryVersionId d) = Some (directoryVersionId d)
     \<and> nonEmptyStringSchema (directoryEvidenceReference d) = Some (directoryEvidenceReference d)
     \<and> (\<forall>r \<in> set (directoryRegions d). postalDirectoryRegionSchema r = Some r)
     \<and> countryCodeSchema (directoryCountry d) \<and> canonicalTimestamp (directoryPublishedAt d)
     \<and> 1 \<le> length (directoryRegions d) \<and> length (directoryRegions d) \<le> 100
     \<and> canonicalTimestamp (directoryReviewedAt d) \<and> canonicalTimestamp (directoryValidFrom d)
     \<and> optionally canonicalTimestamp (directoryValidUntil d) \<and> postalDirectoryRefinement d"
  (is "_ \<longleftrightarrow> ?fixed")
proof
  assume "geographicPostalDirectorySchema d = Some d"
  then obtain v e rs where p: "identifierSchema (directoryVersionId d) = Some v"
    "nonEmptyStringSchema (directoryEvidenceReference d) = Some e"
    "parseAll postalDirectoryRegionSchema (directoryRegions d) = Some rs"
    and d: "d = d\<lparr>directoryVersionId := v, directoryEvidenceReference := e, directoryRegions := rs\<rparr>"
    and ok: "countryCodeSchema (directoryCountry d) \<and> canonicalTimestamp (directoryPublishedAt d)
     \<and> 1 \<le> length rs \<and> length rs \<le> 100
     \<and> canonicalTimestamp (directoryReviewedAt d) \<and> canonicalTimestamp (directoryValidFrom d)
     \<and> optionally canonicalTimestamp (directoryValidUntil d)
     \<and> postalDirectoryRefinement (d\<lparr>directoryVersionId := v, directoryEvidenceReference := e, directoryRegions := rs\<rparr>)"
    by (auto simp: geographicPostalDirectorySchema_def Let_def split: option.splits if_splits)
  have "directoryVersionId d = v" "directoryEvidenceReference d = e" "directoryRegions d = rs"
    by (subst d, simp)+
  then show ?fixed using p ok d by (simp add: parseAll_fixed)
next
  assume ?fixed
  moreover from this have "parseAll postalDirectoryRegionSchema (directoryRegions d) = Some (directoryRegions d)"
    by (simp add: parseAll_fixed)
  ultimately show "geographicPostalDirectorySchema d = Some d"
    by (simp add: geographicPostalDirectorySchema_def)
qed

lemma directorySchema_idem:
  assumes "geographicPostalDirectorySchema d = Some e"
  shows "geographicPostalDirectorySchema e = Some e"
proof -
  obtain v x rs where p: "identifierSchema (directoryVersionId d) = Some v"
    "nonEmptyStringSchema (directoryEvidenceReference d) = Some x"
    "parseAll postalDirectoryRegionSchema (directoryRegions d) = Some rs"
    using assms by (auto simp: geographicPostalDirectorySchema_def split: option.splits)
  have "identifierSchema v = Some v" "nonEmptyStringSchema x = Some x"
    using p by (auto dest: text_schema_idem)
  moreover have "\<forall>r \<in> set rs. postalDirectoryRegionSchema r = Some r"
    using parseAll_in [OF p(3)] postalDirectoryRegionSchema_idem by blast
  ultimately show ?thesis
    using assms p unfolding directory_fixed
    by (auto simp: geographicPostalDirectorySchema_def Let_def split: if_splits)
qed

text \<open>A directory that is current at an evaluation time.\<close>

definition currentAt :: "postal_directory \<Rightarrow> string \<Rightarrow> bool" where
  "currentAt d evaluatedAt \<longleftrightarrow>
     dateParse (directoryPublishedAt d) \<le> dateParse evaluatedAt
     \<and> dateParse (directoryReviewedAt d) \<le> dateParse evaluatedAt
     \<and> dateParse (directoryValidFrom d) \<le> dateParse evaluatedAt
     \<and> (case directoryValidUntil d of None \<Rightarrow> True | Some until \<Rightarrow> dateParse evaluatedAt < dateParse until)"

lemma find_region:
  assumes "distinct (map regionCode rs)"
  shows "find (\<lambda>r. regionCode r = code) rs = Some r \<longleftrightarrow> r \<in> set rs \<and> regionCode r = code"
  using assms by (induction rs) (auto simp: image_iff)

lemma overlap_all: "length (filter (\<lambda>c. c \<in> S) xs) = length xs \<longleftrightarrow> set xs \<subseteq> S"
  by (metis filter_True filter_id_conv length_filter_less less_irrefl subsetI subsetD)

lemma overlap_none: "length (filter (\<lambda>c. c \<in> S) xs) = 0 \<longleftrightarrow> set xs \<inter> S = {}"
  by (auto simp: filter_empty_conv)

lemma resolvePostalSet_eq:
  assumes "geographicPostalDirectorySchema d = Some e"
  shows "resolvePostalSet codes location code d evaluatedAt =
    (if \<not> currentAt e evaluatedAt then UnknownApplicability ''postal-directory-not-current''
     else if directoryCountry e \<noteq> locationCountry location then NotApplicable
     else case find (\<lambda>r. regionCode r = code) (directoryRegions e) of
            None \<Rightarrow> UnknownApplicability ''postal-directory-region-unavailable''
          | Some region \<Rightarrow>
              if regionCoverage region = AmbiguousRegion then AmbiguousApplicability ''postal-directory-region-ambiguous''
              else if set (regionPostalCodes region) \<subseteq> set codes then Applicable 2
              else if set (regionPostalCodes region) \<inter> set codes = {} then NotApplicable
              else AmbiguousApplicability ''partial-postal-region-overlap'')"
  using assms
  by (simp add: resolvePostalSet_def currentAt_def overlap_count overlap_all overlap_none Let_def not_less not_le
      del: length_0_conv split: option.split)

section \<open>Properties\<close>

text \<open>
  C5. A scope is applicable to a location for exactly one reason per kind. In particular a postal set is applicable to a
  location known only by its region just when a valid directory, current at the evaluation time and of the same
  country, lists the region as complete with every postal code of the region in the set: missing proof and partial
  overlap never count as a match.
\<close>

theorem applicability_iff:
  "resolveGeographicApplicability scope location evidence = Applicable n \<longleftrightarrow>
     (case scope of
        NationalScope cc \<Rightarrow> n = 0 \<and> cc = locationCountry location
      | RegionsScope cc codes \<Rightarrow> n = 1 \<and> cc = locationCountry location
          \<and> (\<exists>code \<in> set codes. locationRegion location = Some code)
      | PostalSetScope cc codes \<Rightarrow> n = 2 \<and> cc = locationCountry location
          \<and> (case locationPostal location of
               Some postal \<Rightarrow> postal \<in> set codes
             | None \<Rightarrow> (\<exists>d evaluatedAt directory region.
                 evidence = Some (AvailableDirectory d evaluatedAt)
                 \<and> geographicPostalDirectorySchema d = Some directory \<and> currentAt directory evaluatedAt
                 \<and> directoryCountry directory = locationCountry location
                 \<and> region \<in> set (directoryRegions directory)
                 \<and> locationRegion location = Some (regionCode region)
                 \<and> regionCoverage region = CompleteRegion
                 \<and> set (regionPostalCodes region) \<subseteq> set codes))
      | StoresScope ids \<Rightarrow> n = 3 \<and> (\<exists>i \<in> set ids. locationStore location = Some i)
      | UnknownScope reason \<Rightarrow> False)"
proof (cases scope)
  case (PostalSetScope cc codes)
  have "resolvePostalSet codes location code d evaluatedAt = Applicable n \<longleftrightarrow>
      n = 2 \<and> (\<exists>directory region. geographicPostalDirectorySchema d = Some directory \<and> currentAt directory evaluatedAt
        \<and> directoryCountry directory = locationCountry location \<and> region \<in> set (directoryRegions directory)
        \<and> regionCode region = code \<and> regionCoverage region = CompleteRegion
        \<and> set (regionPostalCodes region) \<subseteq> set codes)" for code d evaluatedAt
  proof (cases "geographicPostalDirectorySchema d")
    case None
    then show ?thesis by (simp add: resolvePostalSet_def)
  next
    case (Some e)
    have "distinct (map regionCode (directoryRegions e))"
      using directorySchema_idem [OF Some] by (simp add: directory_fixed postalDirectoryRefinement_def)
    note find = find_region [OF this]
    have "regionCoverage r \<noteq> AmbiguousRegion \<longleftrightarrow> regionCoverage r = CompleteRegion" for r :: directory_region
      by (cases "regionCoverage r") simp_all
    then have complete: "regionCoverage r \<noteq> AmbiguousRegion \<Longrightarrow> regionCoverage r = CompleteRegion" for r :: directory_region
      by blast
    show ?thesis
    proof (cases "find (\<lambda>r. regionCode r = code) (directoryRegions e)")
      case None
      then have "regionCode r \<noteq> code" if "r \<in> set (directoryRegions e)" for r
        using that by (simp add: find_None_iff)
      then show ?thesis using None Some by (auto simp: resolvePostalSet_eq [OF Some])
    next
      case region: (Some r)
      then have r: "r \<in> set (directoryRegions e)" "regionCode r = code"
        and unique: "r' \<in> set (directoryRegions e) \<Longrightarrow> regionCode r' = code \<Longrightarrow> r' = r" for r'
        using find [of code r] find [of code r'] by auto
      have "(\<exists>directory region. geographicPostalDirectorySchema d = Some directory \<and> currentAt directory evaluatedAt
          \<and> directoryCountry directory = locationCountry location \<and> region \<in> set (directoryRegions directory)
          \<and> regionCode region = code \<and> regionCoverage region = CompleteRegion
          \<and> set (regionPostalCodes region) \<subseteq> set codes) \<longleftrightarrow>
        currentAt e evaluatedAt \<and> directoryCountry e = locationCountry location
          \<and> regionCoverage r = CompleteRegion \<and> set (regionPostalCodes r) \<subseteq> set codes"
        using r by (auto simp: Some dest: unique)
      then show ?thesis using region complete [of r] by (auto simp: resolvePostalSet_eq [OF Some])
    qed
  qed
  then show ?thesis using PostalSetScope
    by (auto split: option.splits directory_evidence.splits)
qed (auto split: option.splits)

text \<open>
  C6. A public attestation of one region is as good as the whole directory: rehydrated at the same clock, it decides
  every scope for the attested location exactly as the trusted directory does.
\<close>

theorem attestation_preserves_applicability:
  assumes "geographicPostalDirectorySchema d = Some d" and "directoryCountry d = locationCountry location"
    and "attestGeographicDirectoryRegionV1 (Some (AvailableDirectory d evaluatedAt)) (locationRegion location) = Some a"
  shows "\<exists>evidence. geographicDirectoryEvidenceFromRegionAttestationV1 a location evaluatedAt = Some evidence
    \<and> (\<forall>scope. resolveGeographicApplicability scope location (Some evidence)
          = resolveGeographicApplicability scope location (Some (AvailableDirectory d evaluatedAt)))"
proof -
  obtain code region where code: "locationRegion location = Some code"
    and find: "find (\<lambda>r. regionCode r = code) (directoryRegions d) = Some region"
    and complete: "regionCoverage region = CompleteRegion"
    using assms(3) by (auto simp: attestGeographicDirectoryRegionV1_def split: option.splits if_splits)
  define raw where "raw = \<lparr>attestedCountry = directoryCountry d, attestedVersionId = directoryVersionId d,
     attestedEvaluatedAt = evaluatedAt, attestedEvidenceReference = directoryEvidenceReference d,
     attestedPublishedAt = directoryPublishedAt d, attestedRegion = region,
     attestedReviewedAt = directoryReviewedAt d, attestedValidFrom = directoryValidFrom d,
     attestedValidUntil = directoryValidUntil d\<rparr>"
  have schema: "geographicDirectoryRegionAttestationV1Schema raw = Some a"
    using assms(3) code find complete by (simp add: attestGeographicDirectoryRegionV1_def raw_def)
  note fixed = assms(1) [unfolded directory_fixed]
  have region: "region \<in> set (directoryRegions d)" "regionCode region = code"
    using find_SomeD [OF find] by auto
  then have "postalDirectoryRegionSchema region = Some region" using fixed by blast
  then have a: "a = raw" using schema fixed
    by (simp add: geographicDirectoryRegionAttestationV1Schema_def raw_def Let_def split: if_splits)
  define e where "e = d\<lparr>directoryRegions := [region]\<rparr>"
  have rehydrated: "geographicDirectoryEvidenceFromRegionAttestationV1 a location evaluatedAt
      = Some (AvailableDirectory e evaluatedAt)"
    using schema assms(2) code region
    by (simp add: a geographicDirectoryEvidenceFromRegionAttestationV1_def raw_def e_def)
  have "geographicPostalDirectorySchema e = Some e"
    using fixed \<open>postalDirectoryRegionSchema region = Some region\<close>
    unfolding directory_fixed by (auto simp: e_def postalDirectoryRefinement_def split: option.splits)
  moreover have "currentAt e t = currentAt d t" for t by (simp add: currentAt_def e_def)
  ultimately have "resolvePostalSet codes location code e evaluatedAt = resolvePostalSet codes location code d evaluatedAt"
    for codes using find region by (simp add: resolvePostalSet_eq assms(1) e_def)
  then have "resolveGeographicApplicability scope location (Some (AvailableDirectory e evaluatedAt))
      = resolveGeographicApplicability scope location (Some (AvailableDirectory d evaluatedAt))" for scope
    by (cases scope) (simp_all add: code split: option.split)
  with rehydrated show ?thesis by blast
qed

definition exampleRegion :: directory_region where
  "exampleRegion = \<lparr>regionCoverage = CompleteRegion, regionEvidence = ''register'',
     regionPostalCodes = [''7010'', ''7011''], regionCode = ''NO-50''\<rparr>"

definition exampleDirectory :: postal_directory where
  "exampleDirectory = \<lparr>directoryCountry = ''NO'', directoryVersionId = ''v1'', directoryEvidenceReference = ''register'',
     directoryPublishedAt = ''2026-07-01T00:00:00.000Z'',
     directoryRegions = [\<lparr>regionCoverage = AmbiguousRegion, regionEvidence = ''register'', regionPostalCodes = [],
        regionCode = ''NO-03''\<rparr>, exampleRegion],
     directoryReviewedAt = ''2026-07-01T00:00:00.000Z'', directoryValidFrom = ''2026-07-01T00:00:00.000Z'',
     directoryValidUntil = None\<rparr>"

definition exampleLocation :: geographic_context where
  "exampleLocation = \<lparr>locationCountry = ''NO'', locationRegion = Some ''NO-50'', locationPostal = None, locationStore = None\<rparr>"

definition exampleAttestation :: region_attestation where
  "exampleAttestation = \<lparr>attestedCountry = ''NO'', attestedVersionId = ''v1'',
     attestedEvaluatedAt = ''2026-07-16T12:00:00.000Z'', attestedEvidenceReference = ''register'',
     attestedPublishedAt = ''2026-07-01T00:00:00.000Z'', attestedRegion = exampleRegion,
     attestedReviewedAt = ''2026-07-01T00:00:00.000Z'', attestedValidFrom = ''2026-07-01T00:00:00.000Z'',
     attestedValidUntil = None\<rparr>"

theorem attestation_preserves_applicability_witness:
  "\<exists>evidence. geographicDirectoryEvidenceFromRegionAttestationV1 exampleAttestation exampleLocation
        ''2026-07-16T12:00:00.000Z'' = Some evidence
    \<and> (\<forall>scope. resolveGeographicApplicability scope exampleLocation (Some evidence)
          = resolveGeographicApplicability scope exampleLocation
              (Some (AvailableDirectory exampleDirectory ''2026-07-16T12:00:00.000Z'')))"
  by (rule attestation_preserves_applicability) code_simp+

end
