(* ===== verification/Evidence.thy ===== *)
theory Evidence
  imports Geography Contracts
begin

text \<open>
  \<open>packages/domain/src/evidence.ts\<close>: price evidence and when it may be used at a moment, for a location and with the
  enabled sources. An input of unknown shape is a value of \<open>unknown\<close>.
\<close>

datatype evidence_level = Authoritative | Reviewed | Observed | AmbiguousLevel

datatype source_kind = Retailer | LicensedAggregator | CatalogApi | ManualSource | LegacyImport

datatype source_state = ApprovedSource | ConditionalSource | BlockedSource | RevokedSource

record evidence_source =
  sourceIdent :: string
  sourceDisplayName :: string
  sourceKind :: source_kind
  sourceState :: source_state
  sourceDefaultLevel :: evidence_level

definition evidenceSourceSchema :: "evidence_source \<Rightarrow> evidence_source option" where
  "evidenceSourceSchema s =
     (case (sourceIdSchema (sourceIdent s), nonEmptyStringSchema (sourceDisplayName s)) of
        (Some i, Some n) \<Rightarrow> Some (s\<lparr>sourceIdent := i, sourceDisplayName := n\<rparr>)
      | _ \<Rightarrow> None)"

datatype product_match = ExactMatch string | AmbiguousMatch "string list"

fun evidenceProductMatchSchema :: "product_match \<Rightarrow> product_match option" where
  "evidenceProductMatchSchema (ExactMatch i) = map_option ExactMatch (identifierSchema i)"
| "evidenceProductMatchSchema (AmbiguousMatch ids) =
     (case parseAll identifierSchema ids of None \<Rightarrow> None
      | Some candidates \<Rightarrow>
          if 2 \<le> length candidates \<and> hasUniqueStrings candidates then Some (AmbiguousMatch candidates) else None)"

datatype price_kind = OrdinaryPrice | CheckoutPrice

record price_evidence =
  evidenceId :: string
  evidenceSourceId :: string
  evidenceRecordId :: string
  evidenceChainId :: string
  evidenceMatch :: product_match
  evidenceAmountOre :: int
  evidencePriceKind :: price_kind
  evidenceLevel :: evidence_level
  evidenceObservedAt :: string
  evidenceValidFrom :: "string option"
  evidenceValidUntil :: "string option"
  evidenceScope :: geographic_scope

definition priceEvidenceSchema :: "price_evidence \<Rightarrow> price_evidence option" where
  "priceEvidenceSchema e =
     (case (identifierSchema (evidenceId e), sourceIdSchema (evidenceSourceId e), identifierSchema (evidenceRecordId e),
            identifierSchema (evidenceChainId e), evidenceProductMatchSchema (evidenceMatch e),
            geographicScopeSchema (evidenceScope e)) of
        (Some i, Some s, Some r, Some c, Some m, Some g) \<Rightarrow>
          (if moneyOreSchema (evidenceAmountOre e) \<and> canonicalTimestamp (evidenceObservedAt e)
              \<and> optionally canonicalTimestamp (evidenceValidFrom e) \<and> optionally canonicalTimestamp (evidenceValidUntil e)
              \<and> \<not> (case (evidenceValidFrom e, evidenceValidUntil e) of
                     (Some from, Some until) \<Rightarrow> dateParse from \<ge> dateParse until
                   | _ \<Rightarrow> False)
           then Some (e\<lparr>evidenceId := i, evidenceSourceId := s, evidenceRecordId := r, evidenceChainId := c,
                        evidenceMatch := m, evidenceScope := g\<rparr>)
           else None)
      | _ \<Rightarrow> None)"

record eligibility_context =
  eligibilityNow :: date
  eligibilityMaxAgeMs :: int
  eligibilityLocation :: geographic_context
  eligibilitySources :: "string list"
  eligibilityDirectory :: "directory_evidence option"

datatype ineligibility = EvidenceInvalid | SourceDisabled | EvidenceAmbiguous | EvidenceFuture | EvidenceStale
  | EvidenceNotYetValid | EvidenceExpired | EvidenceUnknownScope | EvidenceAmbiguousScope | EvidenceWrongScope

type_synonym eligibility_result = "ineligibility + price_evidence"

text \<open>\<open>Inl reason\<close> is \<open>{eligible: false, reason}\<close>, \<open>Inr evidence\<close> is \<open>{eligible: true, evidence}\<close>.\<close>

definition parseEligiblePriceEvidence :: "price_evidence unknown \<Rightarrow> eligibility_context \<Rightarrow> eligibility_result" where
  "parseEligiblePriceEvidence input c =
     (case (parseUnknown priceEvidenceSchema input, geographicContextSchema (eligibilityLocation c), eligibilityNow c) of
        (Some evidence, Some location, Some nowMs) \<Rightarrow>
          (if \<not> isSafeInt (eligibilityMaxAgeMs c) \<or> eligibilityMaxAgeMs c < 0 then Inl EvidenceInvalid
           else if evidenceSourceId evidence \<notin> set (eligibilitySources c) then Inl SourceDisabled
           else if (case evidenceMatch evidence of AmbiguousMatch _ \<Rightarrow> True | _ \<Rightarrow> False)
                   \<or> evidenceLevel evidence = AmbiguousLevel then Inl EvidenceAmbiguous
           else (let observedAtMs = dateParse (evidenceObservedAt evidence) in
             if observedAtMs > nowMs then Inl EvidenceFuture
             else if nowMs - observedAtMs > eligibilityMaxAgeMs c then Inl EvidenceStale
             else if (case evidenceValidFrom evidence of None \<Rightarrow> False | Some from \<Rightarrow> nowMs < dateParse from)
             then Inl EvidenceNotYetValid
             else if (case evidenceValidUntil evidence of None \<Rightarrow> False | Some until \<Rightarrow> nowMs > dateParse until)
             then Inl EvidenceExpired
             else (case resolveGeographicApplicability (evidenceScope evidence) location (eligibilityDirectory c) of
                 Applicable _ \<Rightarrow> Inr evidence
               | UnknownApplicability _ \<Rightarrow> Inl EvidenceUnknownScope
               | AmbiguousApplicability _ \<Rightarrow> Inl EvidenceAmbiguousScope
               | NotApplicable \<Rightarrow> Inl EvidenceWrongScope)))
      | _ \<Rightarrow> Inl EvidenceInvalid)"

section \<open>Lemmas\<close>

lemma evidenceProductMatchSchema_idem:
  "evidenceProductMatchSchema m = Some n \<Longrightarrow> evidenceProductMatchSchema n = Some n"
  by (cases m) (auto split: option.splits if_splits dest: identifierSchema_idem parseAll_identifier_idem)

lemma priceEvidenceSchema_iff [schema_simps]:
  "priceEvidenceSchema e = Some f \<longleftrightarrow>
     (\<exists>i s r c m g. identifierSchema (evidenceId e) = Some i \<and> sourceIdSchema (evidenceSourceId e) = Some s
       \<and> identifierSchema (evidenceRecordId e) = Some r \<and> identifierSchema (evidenceChainId e) = Some c
       \<and> evidenceProductMatchSchema (evidenceMatch e) = Some m \<and> geographicScopeSchema (evidenceScope e) = Some g
       \<and> moneyOreSchema (evidenceAmountOre e) \<and> canonicalTimestamp (evidenceObservedAt e)
       \<and> optionally canonicalTimestamp (evidenceValidFrom e) \<and> optionally canonicalTimestamp (evidenceValidUntil e)
       \<and> \<not> (case (evidenceValidFrom e, evidenceValidUntil e) of
              (Some from, Some until) \<Rightarrow> dateParse from \<ge> dateParse until | _ \<Rightarrow> False)
       \<and> f = e\<lparr>evidenceId := i, evidenceSourceId := s, evidenceRecordId := r, evidenceChainId := c,
               evidenceMatch := m, evidenceScope := g\<rparr>)"
  by (auto simp: priceEvidenceSchema_def split: option.splits)

lemma priceEvidenceSchema_idem:
  assumes "priceEvidenceSchema e = Some f"
  shows "priceEvidenceSchema f = Some f"
proof -
  obtain i s r c m g where p: "identifierSchema (evidenceId e) = Some i" "sourceIdSchema (evidenceSourceId e) = Some s"
    "identifierSchema (evidenceRecordId e) = Some r" "identifierSchema (evidenceChainId e) = Some c"
    "evidenceProductMatchSchema (evidenceMatch e) = Some m" "geographicScopeSchema (evidenceScope e) = Some g"
    and f: "f = e\<lparr>evidenceId := i, evidenceSourceId := s, evidenceRecordId := r, evidenceChainId := c,
               evidenceMatch := m, evidenceScope := g\<rparr>"
    using assms by (auto simp: priceEvidenceSchema_iff)
  have "identifierSchema i = Some i" "sourceIdSchema s = Some s" "identifierSchema r = Some r"
    "identifierSchema c = Some c" "evidenceProductMatchSchema m = Some m" "geographicScopeSchema g = Some g"
    using p text_schema_idem evidenceProductMatchSchema_idem geographicScopeSchema_idem by blast+
  with assms f show ?thesis by (auto simp: priceEvidenceSchema_iff)
qed

text \<open>The intended meaning of an eligible piece of evidence.\<close>

definition usableEvidence :: "price_evidence \<Rightarrow> eligibility_context \<Rightarrow> bool" where
  "usableEvidence e c \<longleftrightarrow>
     0 \<le> eligibilityMaxAgeMs c \<and> isSafeInt (eligibilityMaxAgeMs c)
     \<and> evidenceSourceId e \<in> set (eligibilitySources c)
     \<and> (\<exists>i. evidenceMatch e = ExactMatch i) \<and> evidenceLevel e \<noteq> AmbiguousLevel
     \<and> (\<exists>t location. eligibilityNow c = Some t \<and> geographicContextSchema (eligibilityLocation c) = Some location
          \<and> dateParse (evidenceObservedAt e) \<le> t \<and> t \<le> dateParse (evidenceObservedAt e) + eligibilityMaxAgeMs c
          \<and> optionally (\<lambda>from. dateParse from \<le> t) (evidenceValidFrom e)
          \<and> optionally (\<lambda>until. t \<le> dateParse until) (evidenceValidUntil e)
          \<and> geographicScopeIncludes (evidenceScope e) location (eligibilityDirectory c))"

lemma scopeIncludes_iff:
  "geographicScopeIncludes s l d \<longleftrightarrow> (\<exists>n. resolveGeographicApplicability s l d = Applicable n)"
  by (simp add: geographicScopeIncludes_def split: applicability.split)

lemma window_open:
  "\<not> (case v of None \<Rightarrow> False | Some x \<Rightarrow> t < dateParse x) \<longleftrightarrow> optionally (\<lambda>x. dateParse x \<le> t) v"
  "\<not> (case v of None \<Rightarrow> False | Some x \<Rightarrow> t > dateParse x) \<longleftrightarrow> optionally (\<lambda>x. t \<le> dateParse x) v"
  by (cases v; auto)+

lemma exact_match: "\<not> (case m of AmbiguousMatch _ \<Rightarrow> True | _ \<Rightarrow> False) \<longleftrightarrow> (\<exists>i. m = ExactMatch i)"
  by (cases m) simp_all

lemma eligible_shaped:
  assumes "priceEvidenceSchema raw = Some e"
  shows "parseEligiblePriceEvidence (Shaped raw) c = Inr f \<longleftrightarrow> f = e \<and> usableEvidence e c"
proof (cases "eligibilityNow c"; cases "geographicContextSchema (eligibilityLocation c)")
  fix t location assume c: "eligibilityNow c = Some t" "geographicContextSchema (eligibilityLocation c) = Some location"
  have "(case resolveGeographicApplicability (evidenceScope e) location (eligibilityDirectory c) of
                 Applicable _ \<Rightarrow> Inr e
               | UnknownApplicability _ \<Rightarrow> Inl EvidenceUnknownScope
               | AmbiguousApplicability _ \<Rightarrow> Inl EvidenceAmbiguousScope
               | NotApplicable \<Rightarrow> Inl EvidenceWrongScope) = Inr f
      \<longleftrightarrow> f = e \<and> geographicScopeIncludes (evidenceScope e) location (eligibilityDirectory c)"
    by (auto simp: geographicScopeIncludes_def split: applicability.split)
  then show ?thesis
    using assms c exact_match [of "evidenceMatch e"] window_open(1) [of t "evidenceValidFrom e"]
      window_open(2) [of t "evidenceValidUntil e"]
    by (simp add: parseEligiblePriceEvidence_def usableEvidence_def Let_def not_less not_le) fastforce
qed (simp_all add: parseEligiblePriceEvidence_def usableEvidence_def assms)

section \<open>Properties\<close>


end
