(* ===== verification/Offers.thy ===== *)
theory Offers
  imports Evidence
begin

text \<open>
  \<open>packages/domain/src/offers.ts\<close>: official offers, their applicability, and the shadowing of broader retailer editions by
  narrower ones. Text of code units up to 255 is its own NFC normal form, and its control and formatting characters
  are U+0000 to U+001F, U+007F to U+009F and U+00AD.
\<close>

section \<open>Contracts\<close>

definition controlOrFormat :: "char \<Rightarrow> bool" where
  "controlOrFormat c \<longleftrightarrow> (let n = of_char c :: nat in n \<le> 31 \<or> 127 \<le> n \<and> n \<le> 159 \<or> n = 173)"

definition membershipProgramIdSchema :: "string \<Rightarrow> bool" where
  "membershipProgramIdSchema s \<longleftrightarrow>
     1 \<le> length s \<and> length s \<le> 200 \<and> s = trim s \<and> \<not> list_ex controlOrFormat s"

definition enabledMembershipProgramIdsSchema :: "string list \<Rightarrow> bool" where
  "enabledMembershipProgramIdsSchema ids \<longleftrightarrow>
     list_all membershipProgramIdSchema ids \<and> length ids \<le> 100 \<and> hasUniqueStrings ids
     \<and> \<not> list_ex (\<lambda>index. 0 < index \<and> ids ! (index - 1) \<ge> ids ! index) [0 ..< length ids]"

datatype offer_condition = PublicCondition | MemberCondition string | MinimumQuantity int

fun offerConditionSchema :: "offer_condition \<Rightarrow> bool" where
  "offerConditionSchema PublicCondition = True"
| "offerConditionSchema (MemberCondition i) = membershipProgramIdSchema i"
| "offerConditionSchema (MinimumQuantity q) = positiveSafeInteger q"

datatype offer_pricing = UnitPricing int | MultibuyPricing int int

fun offerPricingSchema :: "offer_pricing \<Rightarrow> bool" where
  "offerPricingSchema (UnitPricing price) = moneyOreSchema price"
| "offerPricingSchema (MultibuyPricing quantity totalOre) =
     (positiveSafeInteger quantity \<and> 2 \<le> quantity \<and> moneyOreSchema totalOre)"

record official_offer =
  offerId :: string
  offerSourceId :: string
  offerRecordId :: string
  offerChainId :: string
  offerMatch :: product_match
  offerPricing :: offer_pricing
  offerBeforePriceOre :: "int option"
  offerConditions :: "offer_condition list"
  offerApplicability :: offer_applicability
  offerLevel :: evidence_level
  offerCapturedAt :: string

fun conditionKey :: "offer_condition \<Rightarrow> string" where
  "conditionKey PublicCondition = ''public''"
| "conditionKey (MemberCondition i) = ''member:'' @ i"
| "conditionKey (MinimumQuantity q) = ''minimum-quantity''"

definition hasPublicCondition :: "offer_condition list \<Rightarrow> bool" where
  "hasPublicCondition cs \<longleftrightarrow> list_ex (\<lambda>c. case c of PublicCondition \<Rightarrow> True | _ \<Rightarrow> False) cs"

definition hasMemberCondition :: "offer_condition list \<Rightarrow> bool" where
  "hasMemberCondition cs \<longleftrightarrow> list_ex (\<lambda>c. case c of MemberCondition _ \<Rightarrow> True | _ \<Rightarrow> False) cs"

definition officialOfferRefinement :: "official_offer \<Rightarrow> bool" where
  "officialOfferRefinement offer \<longleftrightarrow>
     hasUniqueStrings (map conditionKey (offerConditions offer))
     \<and> \<not> (\<not> hasPublicCondition (offerConditions offer) \<and> \<not> hasMemberCondition (offerConditions offer))
     \<and> \<not> (hasPublicCondition (offerConditions offer) \<and> hasMemberCondition (offerConditions offer))
     \<and> (case offerBeforePriceOre offer of
          None \<Rightarrow> True
        | Some before \<Rightarrow>
            (case offerPricing offer of
               UnitPricing price \<Rightarrow> \<not> before < price
             | MultibuyPricing quantity totalOre \<Rightarrow>
                 \<not> before * quantity > MAX_SAFE_INTEGER \<and> \<not> before * quantity < totalOre))"

definition officialOfferSchema :: "official_offer \<Rightarrow> official_offer option" where
  "officialOfferSchema o' =
     (case (identifierSchema (offerId o'), sourceIdSchema (offerSourceId o'), identifierSchema (offerRecordId o'),
            identifierSchema (offerChainId o'), evidenceProductMatchSchema (offerMatch o'),
            offerApplicabilitySchema (offerApplicability o')) of
        (Some i, Some s, Some r, Some c, Some m, Some a) \<Rightarrow>
          (if offerPricingSchema (offerPricing o') \<and> optionally moneyOreSchema (offerBeforePriceOre o')
              \<and> list_all offerConditionSchema (offerConditions o') \<and> canonicalTimestamp (offerCapturedAt o')
              \<and> officialOfferRefinement o'
           then Some (o'\<lparr>offerId := i, offerSourceId := s, offerRecordId := r, offerChainId := c,
                        offerMatch := m, offerApplicability := a\<rparr>)
           else None)
      | _ \<Rightarrow> None)"

section \<open>Edition shadowing\<close>

type_synonym offer_groups = "(string \<times> (official_offer list \<times> nat)) list"

definition offerKey :: "string \<Rightarrow> official_offer \<Rightarrow> string" where
  "offerKey productId offer = productId @ char_of (0 :: nat) # offerChainId offer"

definition groupOffer ::
    "geographic_context \<Rightarrow> directory_evidence option \<Rightarrow> official_offer unknown \<Rightarrow> offer_groups \<Rightarrow> offer_groups" where
  "groupOffer location directory candidate groups =
     (case parseUnknown officialOfferSchema candidate of
        None \<Rightarrow> groups
      | Some offer \<Rightarrow>
          (case offerMatch offer of
             AmbiguousMatch _ \<Rightarrow> groups
           | ExactMatch productId \<Rightarrow>
               (case geographicScopeSpecificity (offerScope (offerApplicability offer)) location directory of
                  None \<Rightarrow> groups
                | Some specificity \<Rightarrow>
                    (let key = offerKey productId offer in
                     case map_of groups key of
                       None \<Rightarrow> AList.update key ([offer], specificity) groups
                     | Some (offers, current) \<Rightarrow>
                         if specificity > current then AList.update key ([offer], specificity) groups
                         else if specificity = current then AList.update key (offers @ [offer], current) groups
                         else groups))))"

definition selectOfficialOffersAtHighestGeographicSpecificity ::
    "official_offer unknown list \<Rightarrow> geographic_context \<Rightarrow> directory_evidence option \<Rightarrow> official_offer list" where
  "selectOfficialOffersAtHighestGeographicSpecificity input location directory =
     (case geographicContextSchema location of
        None \<Rightarrow> []
      | Some l \<Rightarrow>
          concat (map (\<lambda>(key, (offers, specificity)). sort_by (\<lambda>x y. compareText (offerId x) (offerId y)) offers)
            (sort_by (\<lambda>x y. compareText (fst x) (fst y)) (fold (groupOffer l directory) input []))))"

section \<open>Evaluation\<close>

record offer_context =
  contextNow :: date
  contextMaxAgeMs :: int
  contextLocation :: geographic_context
  contextChannel :: channel
  contextSources :: "string list"
  contextMemberships :: "string list"
  contextDirectory :: "directory_evidence option"

datatype offer_rejection = OfferInvalid | OfferSourceDisabled | OfferAmbiguous | OfferFuture | OfferStale
  | OfferNotYetActive | OfferExpired | OfferUnknownScope | OfferAmbiguousScope | OfferWrongScope | OfferWrongChannel
  | OfferMembershipDisabled

definition requiredMemberships :: "offer_condition list \<Rightarrow> string list" where
  "requiredMemberships cs = concat (map (\<lambda>c. case c of MemberCondition i \<Rightarrow> [i] | _ \<Rightarrow> []) cs)"

definition parseApplicableOfficialOffer :: "official_offer unknown \<Rightarrow> offer_context \<Rightarrow> offer_rejection + official_offer" where
  "parseApplicableOfficialOffer input c =
     (case (parseUnknown officialOfferSchema input, geographicContextSchema (contextLocation c), contextNow c) of
        (Some offer, Some location, Some nowMs) \<Rightarrow>
          (if \<not> isSafeInt (contextMaxAgeMs c) \<or> contextMaxAgeMs c < 0 then Inl OfferInvalid
           else if offerSourceId offer \<notin> set (contextSources c) then Inl OfferSourceDisabled
           else if (case offerMatch offer of AmbiguousMatch _ \<Rightarrow> True | _ \<Rightarrow> False)
                   \<or> offerLevel offer = AmbiguousLevel then Inl OfferAmbiguous
           else (let capturedAtMs = dateParse (offerCapturedAt offer) in
             if capturedAtMs > nowMs then Inl OfferFuture
             else if nowMs - capturedAtMs > contextMaxAgeMs c then Inl OfferStale
             else if nowMs < dateParse (offerStartsAt (offerApplicability offer)) then Inl OfferNotYetActive
             else if nowMs \<ge> dateParse (offerEndsAt (offerApplicability offer)) then Inl OfferExpired
             else (case resolveGeographicApplicability (offerScope (offerApplicability offer)) location (contextDirectory c) of
                 UnknownApplicability _ \<Rightarrow> Inl OfferUnknownScope
               | AmbiguousApplicability _ \<Rightarrow> Inl OfferAmbiguousScope
               | NotApplicable \<Rightarrow> Inl OfferWrongScope
               | Applicable _ \<Rightarrow>
                   if contextChannel c \<notin> set (offerChannels (offerApplicability offer)) then Inl OfferWrongChannel
                   else if list_ex (\<lambda>i. i \<notin> set (contextMemberships c)) (requiredMemberships (offerConditions offer))
                   then Inl OfferMembershipDisabled
                   else Inr offer)))
      | _ \<Rightarrow> Inl OfferInvalid)"

section \<open>Lemmas\<close>

lemma officialOfferRefinement_parsed [simp]:
  "officialOfferRefinement (x\<lparr>offerId := i, offerSourceId := s, offerRecordId := r, offerChainId := c,
     offerMatch := m, offerApplicability := a\<rparr>) = officialOfferRefinement x"
  by (simp add: officialOfferRefinement_def split: option.split)

lemma officialOfferSchema_iff [schema_simps]:
  "officialOfferSchema x = Some y \<longleftrightarrow>
     (\<exists>i s r c m a. identifierSchema (offerId x) = Some i \<and> sourceIdSchema (offerSourceId x) = Some s
       \<and> identifierSchema (offerRecordId x) = Some r \<and> identifierSchema (offerChainId x) = Some c
       \<and> evidenceProductMatchSchema (offerMatch x) = Some m \<and> offerApplicabilitySchema (offerApplicability x) = Some a
       \<and> offerPricingSchema (offerPricing x) \<and> optionally moneyOreSchema (offerBeforePriceOre x)
       \<and> list_all offerConditionSchema (offerConditions x) \<and> canonicalTimestamp (offerCapturedAt x)
       \<and> officialOfferRefinement x
       \<and> y = x\<lparr>offerId := i, offerSourceId := s, offerRecordId := r, offerChainId := c,
               offerMatch := m, offerApplicability := a\<rparr>)"
  by (auto simp: officialOfferSchema_def split: option.splits)

lemma officialOfferSchema_idem:
  assumes "officialOfferSchema x = Some y"
  shows "officialOfferSchema y = Some y"
proof -
  obtain i s r c m a where p: "identifierSchema (offerId x) = Some i" "sourceIdSchema (offerSourceId x) = Some s"
    "identifierSchema (offerRecordId x) = Some r" "identifierSchema (offerChainId x) = Some c"
    "evidenceProductMatchSchema (offerMatch x) = Some m" "offerApplicabilitySchema (offerApplicability x) = Some a"
    and y: "y = x\<lparr>offerId := i, offerSourceId := s, offerRecordId := r, offerChainId := c,
               offerMatch := m, offerApplicability := a\<rparr>"
    using assms by (auto simp: officialOfferSchema_iff)
  have "identifierSchema i = Some i" "sourceIdSchema s = Some s" "identifierSchema r = Some r"
    "identifierSchema c = Some c" "evidenceProductMatchSchema m = Some m" "offerApplicabilitySchema a = Some a"
    using p text_schema_idem evidenceProductMatchSchema_idem offerApplicabilitySchema_idem by blast+
  with assms y show ?thesis by (auto simp: officialOfferSchema_iff)
qed

text \<open>The intended meaning of an applicable offer.\<close>

definition usableOffer :: "official_offer \<Rightarrow> offer_context \<Rightarrow> bool" where
  "usableOffer offer c \<longleftrightarrow>
     0 \<le> contextMaxAgeMs c \<and> isSafeInt (contextMaxAgeMs c) \<and> offerSourceId offer \<in> set (contextSources c)
     \<and> (\<exists>i. offerMatch offer = ExactMatch i) \<and> offerLevel offer \<noteq> AmbiguousLevel
     \<and> (\<exists>t location. contextNow c = Some t \<and> geographicContextSchema (contextLocation c) = Some location
          \<and> dateParse (offerCapturedAt offer) \<le> t \<and> t \<le> dateParse (offerCapturedAt offer) + contextMaxAgeMs c
          \<and> dateParse (offerStartsAt (offerApplicability offer)) \<le> t
          \<and> t < dateParse (offerEndsAt (offerApplicability offer))
          \<and> geographicScopeIncludes (offerScope (offerApplicability offer)) location (contextDirectory c))
     \<and> contextChannel c \<in> set (offerChannels (offerApplicability offer))
     \<and> (\<forall>i. MemberCondition i \<in> set (offerConditions offer) \<longrightarrow> i \<in> set (contextMemberships c))"

lemma requiredMemberships_mem: "i \<in> set (requiredMemberships cs) \<longleftrightarrow> MemberCondition i \<in> set cs"
  by (induction cs) (auto simp: requiredMemberships_def split: offer_condition.splits)

lemma applicable_shaped:
  assumes "officialOfferSchema raw = Some x"
  shows "parseApplicableOfficialOffer (Shaped raw) c = Inr y \<longleftrightarrow> y = x \<and> usableOffer x c"
proof (cases "contextNow c"; cases "geographicContextSchema (contextLocation c)")
  fix t location assume c: "contextNow c = Some t" "geographicContextSchema (contextLocation c) = Some location"
  have "list_ex (\<lambda>i. i \<notin> set (contextMemberships c)) (requiredMemberships (offerConditions x)) \<longleftrightarrow>
      \<not> (\<forall>i. MemberCondition i \<in> set (offerConditions x) \<longrightarrow> i \<in> set (contextMemberships c))"
    by (auto simp: list_ex_iff requiredMemberships_mem)
  then have "(case resolveGeographicApplicability (offerScope (offerApplicability x)) location (contextDirectory c) of
                 UnknownApplicability _ \<Rightarrow> Inl OfferUnknownScope
               | AmbiguousApplicability _ \<Rightarrow> Inl OfferAmbiguousScope
               | NotApplicable \<Rightarrow> Inl OfferWrongScope
               | Applicable _ \<Rightarrow>
                   if contextChannel c \<notin> set (offerChannels (offerApplicability x)) then Inl OfferWrongChannel
                   else if list_ex (\<lambda>i. i \<notin> set (contextMemberships c)) (requiredMemberships (offerConditions x))
                   then Inl OfferMembershipDisabled
                   else Inr x) = Inr y
      \<longleftrightarrow> y = x \<and> geographicScopeIncludes (offerScope (offerApplicability x)) location (contextDirectory c)
        \<and> contextChannel c \<in> set (offerChannels (offerApplicability x))
        \<and> (\<forall>i. MemberCondition i \<in> set (offerConditions x) \<longrightarrow> i \<in> set (contextMemberships c))"
    by (auto simp: geographicScopeIncludes_def split: applicability.split)
  then show ?thesis
    using assms c exact_match [of "offerMatch x"]
    by (simp add: parseApplicableOfficialOffer_def usableOffer_def Let_def not_less not_le) fastforce
qed (simp_all add: parseApplicableOfficialOffer_def usableOffer_def assms)

section \<open>Properties\<close>


section \<open>Shadowing\<close>

text \<open>The offers that compete, each with its key and its specificity, in input order.\<close>

definition competing ::
    "geographic_context \<Rightarrow> directory_evidence option \<Rightarrow> official_offer unknown \<Rightarrow> (string \<times> nat \<times> official_offer) option" where
  "competing location directory candidate =
     (case parseUnknown officialOfferSchema candidate of
        None \<Rightarrow> None
      | Some offer \<Rightarrow>
          (case offerMatch offer of
             AmbiguousMatch _ \<Rightarrow> None
           | ExactMatch productId \<Rightarrow>
               map_option (\<lambda>s. (offerKey productId offer, s, offer))
                 (geographicScopeSpecificity (offerScope (offerApplicability offer)) location directory)))"

definition competitors ::
    "geographic_context \<Rightarrow> directory_evidence option \<Rightarrow> official_offer unknown list \<Rightarrow> (string \<times> nat \<times> official_offer) list" where
  "competitors location directory input = List.map_filter (competing location directory) input"

definition unshadowed :: "(string \<times> nat \<times> official_offer) list \<Rightarrow> (string \<times> nat \<times> official_offer) \<Rightarrow> bool" where
  "unshadowed xs x \<longleftrightarrow> (\<forall>y \<in> set xs. fst y = fst x \<longrightarrow> fst (snd y) \<le> fst (snd x))"

fun insertCompetitor :: "(string \<times> nat \<times> official_offer) \<Rightarrow> offer_groups \<Rightarrow> offer_groups" where
  "insertCompetitor (key, specificity, offer) groups =
     (case map_of groups key of
        None \<Rightarrow> AList.update key ([offer], specificity) groups
      | Some (offers, current) \<Rightarrow>
          if specificity > current then AList.update key ([offer], specificity) groups
          else if specificity = current then AList.update key (offers @ [offer], current) groups
          else groups)"

lemma groupOffer_eq:
  "groupOffer l d candidate groups =
     (case competing l d candidate of None \<Rightarrow> groups | Some x \<Rightarrow> insertCompetitor x groups)"
proof (cases "parseUnknown officialOfferSchema candidate")
  case (Some x)
  show ?thesis
  proof (cases "offerMatch x")
    case (ExactMatch i)
    with Some show ?thesis
      by (cases "geographicScopeSpecificity (offerScope (offerApplicability x)) l d")
        (simp_all add: groupOffer_def competing_def Let_def)
  qed (simp add: Some groupOffer_def competing_def)
qed (simp add: groupOffer_def competing_def)

lemma fold_groupOffer: "fold (groupOffer l d) input groups = fold insertCompetitor (competitors l d input) groups"
  by (induction input arbitrary: groups)
    (auto simp: competitors_def groupOffer_eq List.map_filter_simps split: option.split)

text \<open>What the groups hold after a prefix of the competitors.\<close>

definition groupsHold :: "(string \<times> nat \<times> official_offer) list \<Rightarrow> offer_groups \<Rightarrow> bool" where
  "groupsHold xs groups \<longleftrightarrow> distinct (map fst groups) \<and>
     (\<forall>key. case map_of groups key of
        None \<Rightarrow> key \<notin> fst ` set xs
      | Some (offers, s) \<Rightarrow> key \<in> fst ` set xs
          \<and> (\<forall>y \<in> set xs. fst y = key \<longrightarrow> fst (snd y) \<le> s)
          \<and> offers = map (snd \<circ> snd) (filter (\<lambda>y. fst y = key \<and> fst (snd y) = s) xs) \<and> offers \<noteq> [])"

lemma groupsHold_insert:
  assumes "groupsHold xs groups"
  shows "groupsHold (xs @ [x]) (insertCompetitor x groups)"
proof -
  obtain key s offer where x: "x = (key, s, offer)" by (cases x)
  have d: "distinct (map fst (insertCompetitor x groups))"
    using assms by (auto simp: groupsHold_def x distinct_update split: option.split)
  have at: "case map_of groups k of
        None \<Rightarrow> k \<notin> fst ` set xs
      | Some (offers, s) \<Rightarrow> k \<in> fst ` set xs
          \<and> (\<forall>y \<in> set xs. fst y = k \<longrightarrow> fst (snd y) \<le> s)
          \<and> offers = map (snd \<circ> snd) (filter (\<lambda>y. fst y = k \<and> fst (snd y) = s) xs) \<and> offers \<noteq> []" for k
    using assms by (simp add: groupsHold_def)
  have "case map_of (insertCompetitor x groups) k of
        None \<Rightarrow> k \<notin> fst ` set (xs @ [x])
      | Some (offers, s) \<Rightarrow> k \<in> fst ` set (xs @ [x])
          \<and> (\<forall>y \<in> set (xs @ [x]). fst y = k \<longrightarrow> fst (snd y) \<le> s)
          \<and> offers = map (snd \<circ> snd) (filter (\<lambda>y. fst y = k \<and> fst (snd y) = s) (xs @ [x])) \<and> offers \<noteq> []" for k
  proof (cases "k = key")
    case False
    then have same: "map_of (insertCompetitor x groups) k = map_of groups k"
      by (auto simp: x update_conv' split: option.split)
    have "fst x \<noteq> k" using False x by simp
    with at [of k] show ?thesis unfolding same by (cases "map_of groups k") auto
  next
    case True
    show ?thesis
    proof (cases "map_of groups key")
      case None
      with at [of key] True x show ?thesis by (auto simp: update_conv' filter_empty_conv)
    next
      case (Some g)
      obtain offers t where g: "g = (offers, t)" by (cases g)
      have old: "\<forall>y \<in> set xs. fst y = key \<longrightarrow> fst (snd y) \<le> t"
        "offers = map (snd \<circ> snd) (filter (\<lambda>y. fst y = key \<and> fst (snd y) = t) xs)" "offers \<noteq> []" "key \<in> fst ` set xs"
        using at [of key] Some g by auto
      consider "s > t" | "s = t" | "s < t" by linarith
      then show ?thesis
      proof cases
        case 1
        then have "filter (\<lambda>y. fst y = key \<and> fst (snd y) = s) xs = []" using old(1) by (auto simp: filter_empty_conv)
        with 1 Some g True x old show ?thesis by (auto simp: update_conv')
      next
        case 2
        with Some g True x old show ?thesis by (auto simp: update_conv')
      next
        case 3
        with Some g True x old show ?thesis by auto
      qed
    qed
  qed
  with d show ?thesis by (simp add: groupsHold_def)
qed

lemma groupsHold_fold: "groupsHold xs (fold insertCompetitor xs [])"
proof (induction xs rule: rev_induct)
  case Nil
  show ?case by (simp add: groupsHold_def)
next
  case (snoc x xs)
  from groupsHold_insert [OF this] show ?case by simp
qed

text \<open>The order of the result: by key, then by offer id.\<close>

definition compareCompetitors :: "(string \<times> nat \<times> official_offer) cmp" where
  "compareCompetitors x y = js_or (compareText (fst x) (fst y)) (compareText (offerId (snd (snd x))) (offerId (snd (snd y))))"

interpretation by_competitor: comparator compareCompetitors
  unfolding compareCompetitors_def by (intro comparator_intros)

interpretation by_offer_id: comparator "\<lambda>x y. compareText (offerId x) (offerId y)"
  by (intro comparator_intros)

interpretation by_group_key: comparator "\<lambda>x y :: string \<times> official_offer list \<times> nat. compareText (fst x) (fst y)"
  by (intro comparator_intros)

lemma compareCompetitors_le:
  "compareCompetitors x y \<le> 0 \<longleftrightarrow> fst x < fst y \<or> fst x = fst y \<and> offerId (snd (snd x)) \<le> offerId (snd (snd y))"
  by (auto simp: compareCompetitors_def js_or_def compareText_def)

lemma compareCompetitors_eq:
  "compareCompetitors x y = 0 \<longleftrightarrow> fst x = fst y \<and> offerId (snd (snd x)) = offerId (snd (snd y))"
  by (auto simp: compareCompetitors_def js_or_def)

text \<open>The blocks of the result, with the keys kept.\<close>

definition block :: "(string \<times> nat \<times> official_offer) list \<Rightarrow> string \<Rightarrow> (string \<times> nat \<times> official_offer) list" where
  "block xs key = sort_by (\<lambda>x y. compareText (offerId (snd (snd x))) (offerId (snd (snd y))))
     (filter (\<lambda>y. fst y = key \<and> unshadowed xs y) xs)"

interpretation by_competitor_id: comparator
  "\<lambda>x y :: string \<times> nat \<times> official_offer. compareText (offerId (snd (snd x))) (offerId (snd (snd y)))"
  by (intro comparator_intros)

lemma group_is_block:
  assumes "groupsHold xs groups" and "(key, (offers, s)) \<in> set groups"
  shows "sort_by (\<lambda>x y. compareText (offerId x) (offerId y)) offers = map (snd \<circ> snd) (block xs key)"
proof -
  have "map_of groups key = Some (offers, s)" using assms by (simp add: groupsHold_def)
  with assms(1) have g: "\<forall>y \<in> set xs. fst y = key \<longrightarrow> fst (snd y) \<le> s"
    "offers = map (snd \<circ> snd) (filter (\<lambda>y. fst y = key \<and> fst (snd y) = s) xs)" "offers \<noteq> []"
    by (auto simp: groupsHold_def split: option.splits dest: spec [of _ key])
  from g(2,3) have "filter (\<lambda>y. fst y = key \<and> fst (snd y) = s) xs \<noteq> []" by simp
  then obtain z where z: "z \<in> set xs" "fst z = key" "fst (snd z) = s" by (auto simp: filter_empty_conv)
  have "fst y = key \<and> fst (snd y) = s \<longleftrightarrow> fst y = key \<and> unshadowed xs y" if "y \<in> set xs" for y
    using g(1) z that by (auto simp: unshadowed_def intro: antisym)
  then have "filter (\<lambda>y. fst y = key \<and> fst (snd y) = s) xs = filter (\<lambda>y. fst y = key \<and> unshadowed xs y) xs"
    by (rule filter_cong [OF refl])
  then show ?thesis using g(2) by (simp add: block_def sort_by_map comp_def)
qed

lemma set_block: "set (block xs key) = {y \<in> set xs. fst y = key \<and> unshadowed xs y}"
  by (auto simp: block_def)

lemma sorted_blocks:
  "sorted_wrt (<) keys \<Longrightarrow> sorted_wrt (\<lambda>x y. compareCompetitors x y \<le> 0) (concat (map (block xs) keys))"
proof (induction keys)
  case (Cons k keys)
  have "sorted_wrt (\<lambda>x y. compareText (offerId (snd (snd x))) (offerId (snd (snd y))) \<le> 0) (block xs k)"
    unfolding block_def by (rule by_competitor_id.sorted_sort_by)
  then have "sorted_wrt (\<lambda>x y. compareCompetitors x y \<le> 0) (block xs k)"
    by (rule sorted_wrt_mono_rel [rotated]) (auto simp: compareCompetitors_le set_block)
  moreover have "compareCompetitors x y \<le> 0" if "x \<in> set (block xs k)" "y \<in> set (concat (map (block xs) keys))" for x y
    using that Cons.prems by (auto simp: compareCompetitors_le set_block)
  ultimately show ?case using Cons by (auto simp: sorted_wrt_append)
qed simp

lemma filter_block:
  "filter (\<lambda>y. compareCompetitors y z = 0) (block xs k) =
     (if k = fst z then filter (\<lambda>y. compareCompetitors y z = 0) (filter (unshadowed xs) xs) else [])"
proof (cases "k = fst z")
  case True
  let ?id = "\<lambda>y :: string \<times> nat \<times> official_offer. compareText (offerId (snd (snd y))) (offerId (snd (snd z))) = 0"
  have "filter (\<lambda>y. compareCompetitors y z = 0) (block xs k) = filter ?id (block xs k)"
    by (rule filter_cong) (auto simp: compareCompetitors_eq set_block True)
  also have "\<dots> = filter ?id (filter (\<lambda>y. fst y = k \<and> unshadowed xs y) xs)"
    unfolding block_def by (rule by_competitor_id.sort_by_stable)
  also have "\<dots> = filter (\<lambda>y. compareCompetitors y z = 0) (filter (unshadowed xs) xs)"
    unfolding filter_filter by (rule filter_cong) (auto simp: compareCompetitors_eq True)
  finally show ?thesis using True by simp
qed (auto simp: filter_empty_conv set_block compareCompetitors_eq)

lemma filter_blocks:
  assumes "distinct keys" and "fst ` set xs \<subseteq> set keys"
  shows "filter (\<lambda>y. compareCompetitors y z = 0) (concat (map (block xs) keys))
    = filter (\<lambda>y. compareCompetitors y z = 0) (filter (unshadowed xs) xs)"
proof -
  have "filter (\<lambda>y. compareCompetitors y z = 0) (concat (map (block xs) keys)) =
      (if fst z \<in> set keys then filter (\<lambda>y. compareCompetitors y z = 0) (filter (unshadowed xs) xs) else [])"
    using assms(1) by (induction keys) (auto simp: filter_block)
  moreover have "filter (\<lambda>y. compareCompetitors y z = 0) (filter (unshadowed xs) xs) = []" if "fst z \<notin> set keys"
    using that assms(2) by (auto simp: filter_empty_conv compareCompetitors_eq)
  ultimately show ?thesis by simp
qed

text \<open>
  C12. Edition shadowing is exactly this: of the valid offers for one product whose scope applies to the location, those
  that no offer of the same product and chain beats in specificity, listed by product and chain, then by offer id,
  equal ids in input order.
\<close>

theorem shadowing_is_selection:
  "selectOfficialOffersAtHighestGeographicSpecificity input location directory =
     (case geographicContextSchema location of
        None \<Rightarrow> []
      | Some l \<Rightarrow>
          (let xs = competitors l directory input
           in map (snd \<circ> snd) (sort_by compareCompetitors (filter (unshadowed xs) xs))))"
proof (cases "geographicContextSchema location")
  case (Some l)
  define xs where "xs = competitors l directory input"
  define groups where "groups = sort_by (\<lambda>x y. compareText (fst x) (fst y)) (fold insertCompetitor xs [])"
  have hold: "groupsHold xs (fold insertCompetitor xs [])" by (rule groupsHold_fold)
  then have d: "distinct (map fst groups)" by (simp add: groupsHold_def groups_def)
  have cover: "fst ` set xs \<subseteq> set (map fst groups)"
  proof
    fix k assume "k \<in> fst ` set xs"
    then have "map_of (fold insertCompetitor xs []) k \<noteq> None"
      using hold by (auto simp: groupsHold_def split: option.splits dest: spec [of _ k])
    then show "k \<in> set (map fst groups)" by (simp add: groups_def map_of_eq_None_iff)
  qed
  have "sorted_wrt (\<lambda>x y :: string \<times> official_offer list \<times> nat. compareText (fst x) (fst y) \<le> 0) groups"
    unfolding groups_def by (rule by_group_key.sorted_sort_by)
  with d have sorted: "sorted_wrt (<) (map fst groups)"
    by (auto simp: sorted_wrt_map sorted_wrt_iff_nth_less distinct_conv_nth order.strict_iff_order)
  have blocks: "concat (map (block xs) (map fst groups)) = sort_by compareCompetitors (filter (unshadowed xs) xs)"
    by (rule by_competitor.stable_sort_is_sort_by [OF sorted_blocks [OF sorted] filter_blocks [OF d cover]])
  have each: "(case g of (key, (offers, s)) \<Rightarrow> sort_by (\<lambda>x y. compareText (offerId x) (offerId y)) offers)
      = map (snd \<circ> snd) (block xs (fst g))" if "g \<in> set groups" for g
    using that group_is_block [OF hold, of "fst g" "fst (snd g)" "snd (snd g)"] by (cases g rule: prod_cases3) (simp add: groups_def)
  have "concat (map (\<lambda>(key, (offers, s)). sort_by (\<lambda>x y. compareText (offerId x) (offerId y)) offers) groups)
      = concat (map (\<lambda>g. map (snd \<circ> snd) (block xs (fst g))) groups)"
    using each by (metis (mono_tags, lifting) map_cong)
  also have "\<dots> = map (snd \<circ> snd) (concat (map (block xs) (map fst groups)))"
    by (simp add: map_concat comp_def)
  also note blocks
  finally show ?thesis
    using Some unfolding selectOfficialOffersAtHighestGeographicSpecificity_def
    by (simp add: fold_groupOffer flip: xs_def groups_def)
qed (simp add: selectOfficialOffersAtHighestGeographicSpecificity_def)

end
