(* ===== verification/Checkout.thy ===== *)
theory Checkout
  imports Fulfilment Offers
begin

text \<open>
  \<open>calculateCheckoutCost\<close> of \<open>packages/domain/src/fulfilment.ts\<close>: what a number of packages costs at the checkout, with
  or without an official offer. An absent offer is \<open>None\<close>.
\<close>

record checkout_input =
  checkoutProductId :: string
  checkoutChainId :: string
  checkoutPackages :: int
  checkoutUnitOre :: int
  checkoutOffer :: "official_offer unknown option"
  checkoutContext :: offer_context

record checkout_cost =
  ordinaryTotalOre :: int
  savingOre :: int
  checkoutTotalOre :: int
  appliedOfferId :: "string option"

definition safeMoneyProduct :: "int \<Rightarrow> int \<Rightarrow> int option" where
  "safeMoneyProduct left right =
     (let value' = left * right in if value' \<le> MAX_PERSISTED_MONEY_ORE then Some value' else None)"

definition ordinaryCheckoutCost :: "int \<Rightarrow> checkout_cost" where
  "ordinaryCheckoutCost t =
     \<lparr>ordinaryTotalOre = t, savingOre = 0, checkoutTotalOre = t, appliedOfferId = None\<rparr>"

definition minimumQuantity :: "offer_condition list \<Rightarrow> int" where
  "minimumQuantity cs =
     foldl max 1 (concat (map (\<lambda>c. case c of MinimumQuantity q \<Rightarrow> [q] | _ \<Rightarrow> []) cs))"

definition offerTotal :: "offer_pricing \<Rightarrow> int \<Rightarrow> int \<Rightarrow> int option" where
  "offerTotal pricing packs unitOre =
     (case pricing of
        UnitPricing price \<Rightarrow> safeMoneyProduct packs price
      | MultibuyPricing quantity groupOre \<Rightarrow>
          (case (safeMoneyProduct (packs div quantity) groupOre, safeMoneyProduct (packs mod quantity) unitOre) of
             (Some grouped, Some remainder) \<Rightarrow>
               (if grouped + remainder \<le> MAX_PERSISTED_MONEY_ORE then Some (grouped + remainder) else None)
           | _ \<Rightarrow> None))"

definition calculateCheckoutCost :: "checkout_input \<Rightarrow> unavailable_reason + checkout_cost" where
  "calculateCheckoutCost input =
     (if identifierSchema (checkoutProductId input) = None \<or> identifierSchema (checkoutChainId input) = None
         \<or> \<not> positiveSafeInteger (checkoutPackages input) \<or> \<not> moneyOreSchema (checkoutUnitOre input)
      then Inl InvalidInput
      else case safeMoneyProduct (checkoutPackages input) (checkoutUnitOre input) of
        None \<Rightarrow> Inl Overflow
      | Some ordinary \<Rightarrow>
          (case checkoutOffer input of
             None \<Rightarrow> Inr (ordinaryCheckoutCost ordinary)
           | Some raw \<Rightarrow>
               (case parseApplicableOfficialOffer raw (checkoutContext input) of
                  Inl _ \<Rightarrow> Inr (ordinaryCheckoutCost ordinary)
                | Inr offer \<Rightarrow>
                    (if offerChainId offer \<noteq> checkoutChainId input
                        \<or> offerMatch offer \<noteq> ExactMatch (checkoutProductId input)
                     then Inr (ordinaryCheckoutCost ordinary)
                     else if checkoutPackages input < minimumQuantity (offerConditions offer)
                     then Inr (ordinaryCheckoutCost ordinary)
                     else (case offerTotal (offerPricing offer) (checkoutPackages input) (checkoutUnitOre input) of
                         None \<Rightarrow> Inr (ordinaryCheckoutCost ordinary)
                       | Some t \<Rightarrow>
                           if t \<ge> ordinary then Inr (ordinaryCheckoutCost ordinary)
                           else Inr \<lparr>ordinaryTotalOre = ordinary, savingOre = ordinary - t,
                                      checkoutTotalOre = t, appliedOfferId = Some (offerId offer)\<rparr>)))))"

section \<open>Lemmas\<close>

definition validCheckout :: "checkout_input \<Rightarrow> bool" where
  "validCheckout i \<longleftrightarrow> identifierSchema (checkoutProductId i) \<noteq> None \<and> identifierSchema (checkoutChainId i) \<noteq> None
     \<and> positiveSafeInteger (checkoutPackages i) \<and> moneyOreSchema (checkoutUnitOre i)"

text \<open>The quantity an offer asks for, as a bound over its conditions.\<close>

lemma foldl_max_le: "foldl max (a :: int) xs \<le> b \<longleftrightarrow> a \<le> b \<and> (\<forall>x \<in> set xs. x \<le> b)"
  by (induction xs arbitrary: a) auto

lemma minimumQuantity_le: "minimumQuantity cs \<le> n \<longleftrightarrow> 1 \<le> n \<and> (\<forall>q. MinimumQuantity q \<in> set cs \<longrightarrow> q \<le> n)"
  unfolding minimumQuantity_def foldl_max_le
  by (induction cs) (auto split: offer_condition.splits)

text \<open>What the pricing asks for \<open>n\<close> packages, without any bound.\<close>

definition offerPrice :: "offer_pricing \<Rightarrow> int \<Rightarrow> int \<Rightarrow> int" where
  "offerPrice pricing n unitOre =
     (case pricing of UnitPricing price \<Rightarrow> n * price
      | MultibuyPricing q groupOre \<Rightarrow> (n div q) * groupOre + (n mod q) * unitOre)"

lemma offerTotal_eq:
  assumes "offerPricingSchema pricing" and "1 \<le> n" and "0 \<le> unitOre"
  shows "offerTotal pricing n unitOre =
    (if offerPrice pricing n unitOre \<le> MAX_PERSISTED_MONEY_ORE then Some (offerPrice pricing n unitOre) else None)"
proof (cases pricing)
  case (MultibuyPricing q groupOre)
  then have q: "2 \<le> q" "0 \<le> groupOre" using assms(1) by (auto simp: moneyOreSchema_def)
  then have "0 \<le> (n div q) * groupOre" "0 \<le> (n mod q) * unitOre"
    using assms(2,3) by (auto intro!: mult_nonneg_nonneg simp: pos_imp_zdiv_nonneg_iff)
  then show ?thesis using MultibuyPricing
    by (auto simp: offerTotal_def offerPrice_def safeMoneyProduct_def Let_def)
qed (simp add: offerTotal_def offerPrice_def safeMoneyProduct_def Let_def)

text \<open>The offers a checkout may apply.\<close>

definition matchingOffer :: "checkout_input \<Rightarrow> official_offer \<Rightarrow> bool" where
  "matchingOffer i offer \<longleftrightarrow>
     (\<exists>raw. checkoutOffer i = Some raw \<and> parseApplicableOfficialOffer raw (checkoutContext i) = Inr offer)
     \<and> offerChainId offer = checkoutChainId i \<and> offerMatch offer = ExactMatch (checkoutProductId i)
     \<and> (\<forall>q. MinimumQuantity q \<in> set (offerConditions offer) \<longrightarrow> q \<le> checkoutPackages i)"

lemma applicable_offer_pricing:
  assumes "parseApplicableOfficialOffer raw c = Inr offer"
  shows "offerPricingSchema (offerPricing offer)"
proof -
  obtain x where x: "parseUnknown officialOfferSchema raw = Some x"
    using assms by (auto simp: parseApplicableOfficialOffer_def split: option.splits)
  then obtain y where raw: "raw = Shaped y" "officialOfferSchema y = Some x" by (cases raw) auto
  then have "offer = x" using assms applicable_shaped [of y x c offer] by simp
  then show ?thesis using raw(2) by (auto simp: officialOfferSchema_iff)
qed

lemma offerPrice_nonneg:
  "offerPricingSchema pricing \<Longrightarrow> 1 \<le> n \<Longrightarrow> 0 \<le> u \<Longrightarrow> 0 \<le> offerPrice pricing n u"
  by (cases pricing) (auto simp: offerPrice_def moneyOreSchema_def pos_imp_zdiv_nonneg_iff intro!: add_nonneg_nonneg)

lemma checkout_ordinary:
  assumes "validCheckout i" and "checkoutPackages i * checkoutUnitOre i \<le> MAX_PERSISTED_MONEY_ORE"
    and "\<And>offer. matchingOffer i offer \<Longrightarrow>
      checkoutPackages i * checkoutUnitOre i \<le> offerPrice (offerPricing offer) (checkoutPackages i) (checkoutUnitOre i)"
  shows "calculateCheckoutCost i = Inr (ordinaryCheckoutCost (checkoutPackages i * checkoutUnitOre i))"
proof -
  have n: "1 \<le> checkoutPackages i" "0 \<le> checkoutUnitOre i"
    using assms(1) by (auto simp: validCheckout_def positiveSafeInteger_def moneyOreSchema_def)
  have "checkoutPackages i * checkoutUnitOre i \<le> t"
    if "checkoutOffer i = Some raw" "parseApplicableOfficialOffer raw (checkoutContext i) = Inr offer"
      "offerChainId offer = checkoutChainId i" "offerMatch offer = ExactMatch (checkoutProductId i)"
      "minimumQuantity (offerConditions offer) \<le> checkoutPackages i"
      "offerTotal (offerPricing offer) (checkoutPackages i) (checkoutUnitOre i) = Some t" for raw offer t
  proof -
    have "matchingOffer i offer" using that by (auto simp: matchingOffer_def minimumQuantity_le)
    from assms(3) [OF this] show ?thesis
      using that(6) offerTotal_eq [OF applicable_offer_pricing [OF that(2)] n] by (simp split: if_splits)
  qed
  then show ?thesis
    using assms(1,2)
    by (auto simp: calculateCheckoutCost_def validCheckout_def safeMoneyProduct_def Let_def not_less
        split: option.split sum.split)
qed

lemma checkout_offer:
  assumes "validCheckout i" and "checkoutPackages i * checkoutUnitOre i \<le> MAX_PERSISTED_MONEY_ORE"
    and m: "matchingOffer i offer"
    and "offerPrice (offerPricing offer) (checkoutPackages i) (checkoutUnitOre i) < checkoutPackages i * checkoutUnitOre i"
  shows "calculateCheckoutCost i = Inr
    \<lparr>ordinaryTotalOre = checkoutPackages i * checkoutUnitOre i,
     savingOre = checkoutPackages i * checkoutUnitOre i - offerPrice (offerPricing offer) (checkoutPackages i) (checkoutUnitOre i),
     checkoutTotalOre = offerPrice (offerPricing offer) (checkoutPackages i) (checkoutUnitOre i),
     appliedOfferId = Some (offerId offer)\<rparr>"
proof -
  have n: "1 \<le> checkoutPackages i" "0 \<le> checkoutUnitOre i"
    using assms(1) by (auto simp: validCheckout_def positiveSafeInteger_def moneyOreSchema_def)
  obtain raw where raw: "checkoutOffer i = Some raw" "parseApplicableOfficialOffer raw (checkoutContext i) = Inr offer"
    using m by (auto simp: matchingOffer_def)
  have "minimumQuantity (offerConditions offer) \<le> checkoutPackages i"
    using m n by (simp add: matchingOffer_def minimumQuantity_le)
  then show ?thesis
    using assms raw offerTotal_eq [OF applicable_offer_pricing [OF raw(2)] n]
    by (auto simp: calculateCheckoutCost_def validCheckout_def safeMoneyProduct_def Let_def matchingOffer_def)
qed

section \<open>Properties\<close>

text \<open>
  C13. The checkout charges exactly the cheaper of the ordinary price and the one offer that matches product, chain,
  conditions and context: the offer is applied if and only if it is strictly cheaper, the saving is the difference,
  the total never exceeds the ordinary total, and the only failures are inputs no schema admits and ordinary totals
  above the money bound.
\<close>

theorem checkout_exact:
  defines "ordinary \<equiv> \<lambda>i. checkoutPackages i * checkoutUnitOre i"
    and "price \<equiv> \<lambda>i offer. offerPrice (offerPricing offer) (checkoutPackages i) (checkoutUnitOre i)"
  shows "case calculateCheckoutCost i of
     Inl reason \<Rightarrow>
       (if validCheckout i then reason = Overflow \<and> ordinary i > MAX_PERSISTED_MONEY_ORE else reason = InvalidInput)
   | Inr cost \<Rightarrow> validCheckout i \<and> ordinaryTotalOre cost = ordinary i \<and> ordinary i \<le> MAX_PERSISTED_MONEY_ORE
       \<and> savingOre cost = ordinary i - checkoutTotalOre cost
       \<and> 0 \<le> checkoutTotalOre cost \<and> checkoutTotalOre cost \<le> ordinary i
       \<and> (case appliedOfferId cost of
            None \<Rightarrow> checkoutTotalOre cost = ordinary i \<and> (\<forall>offer. matchingOffer i offer \<longrightarrow> ordinary i \<le> price i offer)
          | Some ident \<Rightarrow> \<exists>offer. matchingOffer i offer \<and> offerId offer = ident
              \<and> checkoutTotalOre cost = price i offer \<and> price i offer < ordinary i)"
proof (cases "validCheckout i")
  case False
  then show ?thesis by (auto simp: calculateCheckoutCost_def validCheckout_def)
next
  case valid: True
  then have n: "1 \<le> checkoutPackages i" "0 \<le> checkoutUnitOre i"
    by (auto simp: validCheckout_def positiveSafeInteger_def moneyOreSchema_def)
  show ?thesis
  proof (cases "ordinary i \<le> MAX_PERSISTED_MONEY_ORE")
    case False
    with valid show ?thesis
      by (auto simp: calculateCheckoutCost_def validCheckout_def safeMoneyProduct_def Let_def ordinary_def)
  next
    case bound: True
    show ?thesis
    proof (cases "\<exists>offer. matchingOffer i offer \<and> price i offer < ordinary i")
      case True
      then obtain offer where o: "matchingOffer i offer" "price i offer < ordinary i" by blast
      have "offerPricingSchema (offerPricing offer)"
        using o(1) by (auto simp: matchingOffer_def applicable_offer_pricing)
      then have "0 \<le> price i offer" unfolding price_def using n by (rule offerPrice_nonneg)
      with o bound valid checkout_offer [of i offer] show ?thesis
        unfolding ordinary_def price_def by auto
    next
      case False
      then have "calculateCheckoutCost i = Inr (ordinaryCheckoutCost (ordinary i))"
        using checkout_ordinary [of i] valid bound unfolding ordinary_def price_def by force
      moreover have "0 \<le> ordinary i" unfolding ordinary_def using n by simp
      ultimately show ?thesis using valid bound False by (auto simp: ordinaryCheckoutCost_def not_less)
    qed
  qed
qed

definition exampleOffer :: official_offer where
  "exampleOffer = \<lparr>offerId = ''offer'', offerSourceId = ''tjek'', offerRecordId = ''r1'', offerChainId = ''extra'',
     offerMatch = ExactMatch ''milk'', offerPricing = MultibuyPricing 3 5000, offerBeforePriceOre = Some 2000,
     offerConditions = [PublicCondition, MinimumQuantity 2],
     offerApplicability = \<lparr>offerStartsAt = ''2026-07-13T00:00:00.000Z'', offerEndsAt = ''2026-07-20T00:00:00.000Z'',
        offerScope = NationalScope ''NO'', offerChannels = [InStore]\<rparr>,
     offerLevel = Reviewed, offerCapturedAt = ''2026-07-15T00:00:00.000Z''\<rparr>"

definition exampleOfferContext :: offer_context where
  "exampleOfferContext = \<lparr>contextNow = Some 1784203200000, contextMaxAgeMs = 604800000,
     contextLocation = exampleLocation, contextChannel = InStore, contextSources = [''tjek''], contextMemberships = [],
     contextDirectory = None\<rparr>"

definition exampleCheckout :: checkout_input where
  "exampleCheckout = \<lparr>checkoutProductId = ''milk'', checkoutChainId = ''extra'', checkoutPackages = 4,
     checkoutUnitOre = 2000, checkoutOffer = Some (Shaped exampleOffer), checkoutContext = exampleOfferContext\<rparr>"

theorem checkout_exact_witness:
  "\<exists>cost. calculateCheckoutCost exampleCheckout = Inr cost
     \<and> checkoutTotalOre cost = 7000 \<and> savingOre cost = 8000 - checkoutTotalOre cost"
proof -
  have "(case calculateCheckoutCost exampleCheckout of Inl _ \<Rightarrow> False | Inr cost \<Rightarrow> checkoutTotalOre cost = 7000)"
    by code_simp
  then obtain cost where cost: "calculateCheckoutCost exampleCheckout = Inr cost" "checkoutTotalOre cost = 7000"
    by (auto split: sum.splits)
  have "checkoutPackages exampleCheckout * checkoutUnitOre exampleCheckout = 8000" by (simp add: exampleCheckout_def)
  with cost checkout_exact [of exampleCheckout] show ?thesis by simp
qed

end
