(* ===== verification/Travel.thy ===== *)
theory Travel
  imports Contracts
begin

text \<open>
  \<open>packages/domain/src/travel-contracts.ts\<close>: coordinates, branches, route matrices, location answers and public route
  evidence. \<open>null\<close> cells of a matrix are \<open>None\<close>.
\<close>

datatype travel_mode = CarMode | BikeMode

record travel_coordinate =
  latitudeE6 :: int
  longitudeE6 :: int

definition travelCoordinateSchema :: "travel_coordinate \<Rightarrow> bool" where
  "travelCoordinateSchema c \<longleftrightarrow>
     -90000000 \<le> latitudeE6 c \<and> latitudeE6 c \<le> 90000000 \<and> -180000000 \<le> longitudeE6 c \<and> longitudeE6 c \<le> 180000000"

record travel_branch =
  branchId :: string
  branchChain :: chain
  branchCoordinate :: travel_coordinate
  branchName :: string

definition internalTravelBranchSchema :: "('a travel_branch_scheme) \<Rightarrow> ('a travel_branch_scheme) option" where
  "internalTravelBranchSchema b =
     (case (identifierSchema (branchId b), nonEmptyStringSchema (branchName b)) of
        (Some i, Some n) \<Rightarrow>
          (if travelCoordinateSchema (branchCoordinate b) then Some (b\<lparr>branchId := i, branchName := n\<rparr>) else None)
      | _ \<Rightarrow> None)"

record geocoded_candidate =
  geocodedCoordinate :: travel_coordinate
  geocodedLabel :: string
  geocodedSelectionId :: string

definition internalGeocodedCandidateSchema :: "geocoded_candidate \<Rightarrow> geocoded_candidate option" where
  "internalGeocodedCandidateSchema g =
     (case (nonEmptyStringSchema (geocodedLabel g), identifierSchema (geocodedSelectionId g)) of
        (Some l, Some i) \<Rightarrow>
          (if travelCoordinateSchema (geocodedCoordinate g)
           then Some (g\<lparr>geocodedLabel := l, geocodedSelectionId := i\<rparr>) else None)
      | _ \<Rightarrow> None)"

definition locationSearchRequestSchema :: "string \<Rightarrow> string option" where
  "locationSearchRequestSchema query = boundedText 2 160 query"

section \<open>Location answers\<close>

definition hasControl :: "string \<Rightarrow> bool" where
  "hasControl s \<longleftrightarrow> list_ex (\<lambda>c. let n = of_char c :: nat in n \<le> 31 \<or> n = 127) s"

definition tokenChar :: "char \<Rightarrow> bool" where
  "tokenChar c \<longleftrightarrow> CHR ''A'' \<le> c \<and> c \<le> CHR ''Z'' \<or> CHR ''a'' \<le> c \<and> c \<le> CHR ''z'' \<or> isDigit c
     \<or> c = CHR ''_'' \<or> c = CHR ''-''"

definition selectionTokenSchema :: "string \<Rightarrow> bool" where
  "selectionTokenSchema s \<longleftrightarrow>
     take 16 s = ''location-choice:'' \<and> length s = 59 \<and> list_all tokenChar (drop 16 s)"

datatype match_quality = ExactQuality | ApproximateQuality

record location_candidate =
  candidateLabel :: string
  candidateQuality :: match_quality
  candidateToken :: string

definition publicLocationCandidateSchema :: "location_candidate \<Rightarrow> location_candidate option" where
  "publicLocationCandidateSchema c =
     (case boundedText 2 160 (candidateLabel c) of
        Some l \<Rightarrow> (if \<not> hasControl l \<and> selectionTokenSchema (candidateToken c) then Some (c\<lparr>candidateLabel := l\<rparr>) else None)
      | None \<Rightarrow> None)"

definition lifetimeWithinFiveMinutes :: "string \<Rightarrow> string \<Rightarrow> bool" where
  "lifetimeWithinFiveMinutes generatedAt expiresAt \<longleftrightarrow>
     (let lifetimeMs = dateParse expiresAt - dateParse generatedAt in \<not> (lifetimeMs \<le> 0 \<or> lifetimeMs > 5 * 60 * 1000))"

record location_response =
  responseCandidates :: "location_candidate list"
  responseExpiresAt :: string
  responseGeneratedAt :: string
  responseSourceName :: string
  responseSourceId :: string

definition locationSearchResponseSchema :: "location_response \<Rightarrow> location_response option" where
  "locationSearchResponseSchema r =
     (case (parseAll publicLocationCandidateSchema (responseCandidates r), nonEmptyStringSchema (responseSourceName r),
            sourceIdSchema (responseSourceId r)) of
        (Some cs, Some n, Some i) \<Rightarrow>
          (if length cs \<le> 5 \<and> canonicalTimestamp (responseExpiresAt r) \<and> canonicalTimestamp (responseGeneratedAt r)
              \<and> hasUniqueStrings (map candidateToken cs) \<and> hasUniqueStrings (map candidateLabel cs)
              \<and> lifetimeWithinFiveMinutes (responseGeneratedAt r) (responseExpiresAt r)
           then Some (r\<lparr>responseCandidates := cs, responseSourceName := n, responseSourceId := i\<rparr>) else None)
      | _ \<Rightarrow> None)"

definition currentLocationRequestSchema :: "travel_coordinate \<Rightarrow> travel_coordinate option" where
  "currentLocationRequestSchema coordinate = (if travelCoordinateSchema coordinate then Some coordinate else None)"

record current_location_response =
  currentExpiresAt :: string
  currentGeneratedAt :: string
  currentToken :: string

definition currentLocationResponseSchema :: "current_location_response \<Rightarrow> bool" where
  "currentLocationResponseSchema r \<longleftrightarrow>
     canonicalTimestamp (currentExpiresAt r) \<and> canonicalTimestamp (currentGeneratedAt r)
     \<and> selectionTokenSchema (currentToken r) \<and> lifetimeWithinFiveMinutes (currentGeneratedAt r) (currentExpiresAt r)"

section \<open>Matrices and routes\<close>

record route_cell =
  cellDistance :: int
  cellDuration :: int

type_synonym route_matrix = "route_cell option list list"

definition routeMatrixCellSchema :: "route_cell \<Rightarrow> bool" where
  "routeMatrixCellSchema c \<longleftrightarrow> nonNegativeSafeInteger (cellDistance c) \<and> nonNegativeSafeInteger (cellDuration c)"

definition routeMatrixSchema :: "route_matrix \<Rightarrow> bool" where
  "routeMatrixSchema cells \<longleftrightarrow>
     list_all (\<lambda>row. list_all (optionally routeMatrixCellSchema) row \<and> 2 \<le> length row \<and> length row \<le> 10) cells
     \<and> 2 \<le> length cells \<and> length cells \<le> 10
     \<and> \<not> list_ex (\<lambda>row. length row \<noteq> length cells) cells"

record travel_stop =
  stopBranchId :: string
  stopChain :: chain
  stopName :: string
  stopSequence :: int

definition travelPublicBranchStopSchema :: "travel_stop \<Rightarrow> travel_stop option" where
  "travelPublicBranchStopSchema s =
     (case (identifierSchema (stopBranchId s), nonEmptyStringSchema (stopName s)) of
        (Some i, Some n) \<Rightarrow>
          (if positiveSafeInteger (stopSequence s) \<and> stopSequence s \<le> 3
           then Some (s\<lparr>stopBranchId := i, stopName := n\<rparr>) else None)
      | _ \<Rightarrow> None)"

record route_aggregate =
  aggregateCalculatedAt :: string
  aggregateDistanceMeters :: int
  aggregateDurationSeconds :: int
  aggregateMode :: travel_mode
  aggregateProviderId :: string
  aggregateFingerprint :: string

definition travelRouteAggregateSchema :: "route_aggregate \<Rightarrow> route_aggregate option" where
  "travelRouteAggregateSchema a =
     (case (sourceIdSchema (aggregateProviderId a), identifierSchema (aggregateFingerprint a)) of
        (Some p, Some f) \<Rightarrow>
          (if canonicalTimestamp (aggregateCalculatedAt a) \<and> nonNegativeSafeInteger (aggregateDistanceMeters a)
              \<and> nonNegativeSafeInteger (aggregateDurationSeconds a)
           then Some (a\<lparr>aggregateProviderId := p, aggregateFingerprint := f\<rparr>) else None)
      | _ \<Rightarrow> None)"

record route_evidence =
  routeAggregate :: route_aggregate
  routePlanId :: string
  routeStops :: "travel_stop list"

definition routeStopsRefinement :: "travel_stop list \<Rightarrow> bool" where
  "routeStopsRefinement stops \<longleftrightarrow>
     hasUniqueStrings (map stopBranchId stops) \<and> hasUniqueStrings (map (chainText \<circ> stopChain) stops)
     \<and> \<not> list_ex (\<lambda>(index, s). stopSequence s \<noteq> int index + 1) (enumerate 0 stops)"

definition travelRouteEvidenceSchema :: "route_evidence \<Rightarrow> route_evidence option" where
  "travelRouteEvidenceSchema e =
     (case (travelRouteAggregateSchema (routeAggregate e), identifierSchema (routePlanId e),
            parseAll travelPublicBranchStopSchema (routeStops e)) of
        (Some a, Some i, Some stops) \<Rightarrow>
          (if 1 \<le> length stops \<and> length stops \<le> 3 \<and> routeStopsRefinement stops
           then Some \<lparr>routeAggregate = a, routePlanId = i, routeStops = stops\<rparr> else None)
      | _ \<Rightarrow> None)"

datatype travel_unavailable = BranchDataUnavailable | InvalidLocation | NoRoute | ProviderUnavailable | Timeout

datatype travel_state = TravelNotRequested | TravelUnavailable travel_unavailable | TravelCalculated "route_evidence list"

fun travelCalculationStateSchema :: "travel_state \<Rightarrow> travel_state option" where
  "travelCalculationStateSchema (TravelCalculated routes) =
     (case parseAll travelRouteEvidenceSchema routes of
        None \<Rightarrow> None
      | Some rs \<Rightarrow>
          (if 1 \<le> length rs \<and> length rs \<le> 7 \<and> hasUniqueStrings (map routePlanId rs)
              \<and> hasUniqueStrings (map (aggregateFingerprint \<circ> routeAggregate) rs)
           then Some (TravelCalculated rs) else None))"
| "travelCalculationStateSchema s = Some s"

end
