(* ===== verification/Route_Order.thy ===== *)
theory Route_Order
  imports Travel
begin

text \<open>
  \<open>packages/domain/src/route-order.ts\<close>: the best round trip from the start (row 0 of the matrix) over one branch of every
  required chain, by trying every choice of branches and every order.
\<close>

record matrix_branch = travel_branch +
  matrixIndex :: int

definition matrixBranchCandidateSchema :: "matrix_branch \<Rightarrow> matrix_branch option" where
  "matrixBranchCandidateSchema b =
     (case internalTravelBranchSchema b of
        None \<Rightarrow> None
      | Some p \<Rightarrow> if 1 \<le> matrixIndex b \<and> matrixIndex b \<le> 9 then Some p else None)"

record round_trip =
  distanceMeters :: int
  durationSeconds :: int
  tripStops :: "travel_stop list"

record trip_input =
  tripBranches :: "matrix_branch list"
  tripMatrix :: route_matrix
  requiredChains :: "chain list"

fun chainOrder :: "chain \<Rightarrow> int" where
  "chainOrder Bunnpris = 0"
| "chainOrder Extra = 1"
| "chainOrder Rema1000 = 2"
| "chainOrder Fudi = 3"
| "chainOrder Holdbart = 4"
| "chainOrder Meny = 5"
| "chainOrder Havaristen = 6"
| "chainOrder Joker = 7"
| "chainOrder Spar = 8"
| "chainOrder Fastcandy = 9"
| "chainOrder Europris = 10"
| "chainOrder Engrossnett = 11"
| "chainOrder Oda = 12"

function permutations :: "'a list \<Rightarrow> 'a list list" where
  "permutations values =
     (if length values \<le> 1 then [values]
      else concat (map (\<lambda>(index, v). map ((#) v) (permutations (take index values @ drop (Suc index) values)))
             (enumerate 0 values)))"
  by pat_completeness auto
termination
  by (relation "measure length") (auto simp: in_set_enumerate_eq)

declare permutations.simps [simp del]

fun branchCombinations :: "'a list list \<Rightarrow> 'a list \<Rightarrow> 'a list list" where
  "branchCombinations [] selected = [selected]"
| "branchCombinations (candidates # rest) selected =
     concat (map (\<lambda>b. branchCombinations rest (selected @ [b])) candidates)"

definition safeAdd :: "int \<Rightarrow> int \<Rightarrow> int option" where
  "safeAdd left right = (let s = left + right in if isSafeInt s then Some s else None)"

text \<open>\<open>matrix.cells[i][j]\<close>; \<open>chooseBestRoundTrip\<close> has checked that the indices are rows of the matrix.\<close>

definition matrixCell :: "route_matrix \<Rightarrow> int \<Rightarrow> int \<Rightarrow> route_cell option" where
  "matrixCell cells i j =
     (if nat i < length cells \<and> nat j < length (cells ! nat i) then cells ! nat i ! nat j else None)"

fun evaluateLegs :: "route_matrix \<Rightarrow> int list \<Rightarrow> int \<Rightarrow> int \<Rightarrow> (int \<times> int) option" where
  "evaluateLegs cells (i # j # rest) distance duration =
     (case matrixCell cells i j of
        None \<Rightarrow> None
      | Some c \<Rightarrow>
          (case (safeAdd distance (cellDistance c), safeAdd duration (cellDuration c)) of
             (Some nextDistance, Some nextDuration) \<Rightarrow> evaluateLegs cells (j # rest) nextDistance nextDuration
           | _ \<Rightarrow> None))"
| "evaluateLegs cells _ distance duration = Some (distance, duration)"

definition stopsOf :: "matrix_branch list \<Rightarrow> travel_stop list" where
  "stopsOf order = map (\<lambda>(index, b). \<lparr>stopBranchId = branchId b, stopChain = branchChain b, stopName = branchName b,
     stopSequence = int index + 1\<rparr>) (enumerate 0 order)"

definition evaluateOrder :: "matrix_branch list \<Rightarrow> route_matrix \<Rightarrow> round_trip option" where
  "evaluateOrder order cells =
     (case evaluateLegs cells (0 # map matrixIndex order @ [0]) 0 0 of
        None \<Rightarrow> None
      | Some (distance, duration) \<Rightarrow>
          Some \<lparr>distanceMeters = distance, durationSeconds = duration, tripStops = stopsOf order\<rparr>)"

definition joinIds :: "string list \<Rightarrow> string" where
  "joinIds ids = (case ids of [] \<Rightarrow> '''' | i # is \<Rightarrow> i @ concat (map (\<lambda>x. char_of (0 :: nat) # x) is))"

definition compareRoutes :: "round_trip \<Rightarrow> round_trip \<Rightarrow> int" where
  "compareRoutes left right =
     js_or (durationSeconds left - durationSeconds right)
     (js_or (distanceMeters left - distanceMeters right)
       (compareText (joinIds (map stopBranchId (tripStops left))) (joinIds (map stopBranchId (tripStops right)))))"

definition chooseBestRoundTrip :: "trip_input \<Rightarrow> round_trip option" where
  "chooseBestRoundTrip input =
     (case parseAll matrixBranchCandidateSchema (tripBranches input) of
        None \<Rightarrow> None
      | Some branches \<Rightarrow>
          if \<not> routeMatrixSchema (tripMatrix input)
             \<or> \<not> (1 \<le> length (requiredChains input) \<and> length (requiredChains input) \<le> 3)
             \<or> \<not> (1 \<le> length branches \<and> length branches \<le> 9) then None
          else
            (let required = sort_by (\<lambda>x y. chainOrder x - chainOrder y) (requiredChains input) in
             if length (uniq required) \<noteq> length required then None
             else if length (uniq (map branchId branches)) \<noteq> length branches
                  \<or> length (uniq (map matrixIndex branches)) \<noteq> length branches
                  \<or> list_ex (\<lambda>b. branchChain b \<notin> set required \<or> matrixIndex b \<ge> int (length (tripMatrix input))) branches
             then None
             else
               (let options = map (\<lambda>c. sort_by (\<lambda>x y. compareText (branchId x) (branchId y))
                                  (filter (\<lambda>b. branchChain b = c) branches)) required in
                if list_ex (\<lambda>candidates. length candidates < 1 \<or> length candidates > 3) options then None
                else first_by compareRoutes
                  (List.map_filter (\<lambda>order. evaluateOrder order (tripMatrix input))
                    (concat (map permutations (branchCombinations options [])))))))"

section \<open>Enumeration\<close>

lemma mset_remove_nth: "i < length xs \<Longrightarrow> mset xs = add_mset (xs ! i) (mset (take i xs @ drop (Suc i) xs))"
  using id_take_nth_drop [of i xs] by (metis mset_append mset.simps(2) union_mset_add_mset_right)

lemma permutations_set: "set (permutations xs) = {ys. mset ys = mset xs}"
proof (induction xs rule: permutations.induct)
  case (1 xs)
  show ?case
  proof (cases "length xs \<le> 1")
    case True
    then consider "xs = []" | x where "xs = [x]" by (cases xs) auto
    then show ?thesis by cases (auto simp: permutations.simps)
  next
    case False
    have "ys \<in> set (permutations xs) \<longleftrightarrow> mset ys = mset xs" for ys
    proof
      assume "ys \<in> set (permutations xs)"
      then obtain i t where i: "i < length xs" and ys: "ys = xs ! i # t"
        and t: "t \<in> set (permutations (take i xs @ drop (Suc i) xs))"
        using False by (auto simp: permutations.simps [of xs] in_set_enumerate_eq)
      have "mset t = mset (take i xs @ drop (Suc i) xs)"
        using 1 [OF False, of "(i, xs ! i)"] t i by (simp add: in_set_enumerate_eq)
      then show "mset ys = mset xs" using mset_remove_nth [OF i] ys by simp
    next
      assume m: "mset ys = mset xs"
      then have "length ys = length xs" by (metis size_mset)
      with False obtain v t where ys: "ys = v # t" by (cases ys) auto
      then have "v \<in> set xs" using m by (metis list.set_intros(1) set_mset_mset)
      then obtain i where i: "i < length xs" "xs ! i = v" by (auto simp: in_set_conv_nth)
      then have "mset t = mset (take i xs @ drop (Suc i) xs)"
        using m ys mset_remove_nth [OF i(1)] by simp
      then have "t \<in> set (permutations (take i xs @ drop (Suc i) xs))"
        using 1 [OF False, of "(i, xs ! i)"] i by (simp add: in_set_enumerate_eq)
      moreover have "(i, xs ! i) \<in> set (enumerate 0 xs)" using i by (simp add: in_set_enumerate_eq)
      ultimately show "ys \<in> set (permutations xs)"
        using False ys i(2) by (subst permutations.simps) force
    qed
    then show ?thesis by blast
  qed
qed

lemma branchCombinations_set:
  "set (branchCombinations candidates selected) = {selected @ ys |ys. list_all2 (\<lambda>c y. y \<in> set c) candidates ys}"
  by (induction candidates arbitrary: selected) (auto simp: list_all2_Cons1)

section \<open>Legs\<close>

definition legs :: "int list \<Rightarrow> (int \<times> int) list" where
  "legs path = zip path (tl path)"

definition legSum :: "(route_cell \<Rightarrow> int) \<Rightarrow> route_matrix \<Rightarrow> int list \<Rightarrow> int" where
  "legSum f cells path = sum_list (map (\<lambda>(i, j). case matrixCell cells i j of None \<Rightarrow> 0 | Some c \<Rightarrow> f c) (legs path))"

definition reachable :: "route_matrix \<Rightarrow> int list \<Rightarrow> bool" where
  "reachable cells path \<longleftrightarrow> (\<forall>(i, j) \<in> set (legs path). matrixCell cells i j \<noteq> None)"

lemma matrixCell_bounds:
  assumes "routeMatrixSchema cells" and "matrixCell cells i j = Some c"
  shows "0 \<le> cellDistance c" "0 \<le> cellDuration c"
proof -
  have "nat i < length cells" "nat j < length (cells ! nat i)" "cells ! nat i ! nat j = Some c"
    using assms(2) by (auto simp: matrixCell_def split: if_splits)
  then have "cells ! nat i \<in> set cells" "Some c \<in> set (cells ! nat i)"
    by (metis nth_mem)+
  then have "routeMatrixCellSchema c"
    using assms(1) unfolding routeMatrixSchema_def list_all_iff by fastforce
  then show "0 \<le> cellDistance c" "0 \<le> cellDuration c"
    by (simp_all add: routeMatrixCellSchema_def nonNegativeSafeInteger_def)
qed

lemma legSum_nonneg:
  assumes "routeMatrixSchema cells"
  shows "0 \<le> legSum cellDistance cells path" "0 \<le> legSum cellDuration cells path"
  unfolding legSum_def using matrixCell_bounds [OF assms]
  by (auto intro!: sum_list_nonneg split: option.splits)

lemma safeAdd_nonneg:
  "0 \<le> x \<Longrightarrow> 0 \<le> y \<Longrightarrow> safeAdd x y = (if x + y \<le> MAX_SAFE_INTEGER then Some (x + y) else None)"
  by (simp add: safeAdd_def isSafeInt_def Let_def)

lemma evaluateLegs_eq:
  "routeMatrixSchema cells \<Longrightarrow> 0 \<le> d \<Longrightarrow> d \<le> MAX_SAFE_INTEGER \<Longrightarrow> 0 \<le> t \<Longrightarrow> t \<le> MAX_SAFE_INTEGER \<Longrightarrow>
    evaluateLegs cells path d t =
      (if reachable cells path \<and> d + legSum cellDistance cells path \<le> MAX_SAFE_INTEGER
          \<and> t + legSum cellDuration cells path \<le> MAX_SAFE_INTEGER
       then Some (d + legSum cellDistance cells path, t + legSum cellDuration cells path) else None)"
proof (induction cells path d t rule: evaluateLegs.induct)
  case (1 cells i j rest d t)
  note m = 1(2)
  show ?case
  proof (cases "matrixCell cells i j")
    case None
    then show ?thesis by (simp add: reachable_def legs_def)
  next
    case (Some c)
    have step: "legSum f cells (i # j # rest) = f c + legSum f cells (j # rest)" for f
      using Some by (simp add: legSum_def legs_def)
    have reach: "reachable cells (i # j # rest) \<longleftrightarrow> reachable cells (j # rest)"
      using Some by (simp add: reachable_def legs_def)
    note nonneg = matrixCell_bounds [OF m Some] legSum_nonneg [OF m, of "j # rest"]
    have d: "safeAdd d (cellDistance c) = (if d + cellDistance c \<le> MAX_SAFE_INTEGER then Some (d + cellDistance c) else None)"
      and t: "safeAdd t (cellDuration c) = (if t + cellDuration c \<le> MAX_SAFE_INTEGER then Some (t + cellDuration c) else None)"
      using 1 nonneg by (simp_all add: safeAdd_nonneg)
    show ?thesis
    proof (cases "d + cellDistance c \<le> MAX_SAFE_INTEGER \<and> t + cellDuration c \<le> MAX_SAFE_INTEGER")
      case True
      then have "evaluateLegs cells (i # j # rest) d t = evaluateLegs cells (j # rest) (d + cellDistance c) (t + cellDuration c)"
        using Some d t by simp
      also have "\<dots> = (if reachable cells (j # rest)
          \<and> d + cellDistance c + legSum cellDistance cells (j # rest) \<le> MAX_SAFE_INTEGER
          \<and> t + cellDuration c + legSum cellDuration cells (j # rest) \<le> MAX_SAFE_INTEGER
        then Some (d + cellDistance c + legSum cellDistance cells (j # rest),
                   t + cellDuration c + legSum cellDuration cells (j # rest)) else None)"
        using Some d t True 1 nonneg by (intro 1(1)) auto
      finally show ?thesis unfolding step reach by (simp add: add.assoc)
    next
      case False
      then have "evaluateLegs cells (i # j # rest) d t = None" using Some d t by auto
      moreover have "\<not> (d + legSum cellDistance cells (i # j # rest) \<le> MAX_SAFE_INTEGER
          \<and> t + legSum cellDuration cells (i # j # rest) \<le> MAX_SAFE_INTEGER)"
        using False nonneg unfolding step by linarith
      ultimately show ?thesis by auto
    qed
  qed
qed (simp_all add: reachable_def legs_def legSum_def)

text \<open>The closed path of an order, and what an evaluated order is worth.\<close>

definition tourPath :: "matrix_branch list \<Rightarrow> int list" where
  "tourPath order = 0 # map matrixIndex order @ [0]"

lemma evaluateOrder_iff:
  assumes "routeMatrixSchema cells"
  shows "evaluateOrder order cells = Some r \<longleftrightarrow>
    reachable cells (tourPath order) \<and> r = \<lparr>distanceMeters = legSum cellDistance cells (tourPath order),
      durationSeconds = legSum cellDuration cells (tourPath order), tripStops = stopsOf order\<rparr>
    \<and> distanceMeters r \<le> MAX_SAFE_INTEGER \<and> durationSeconds r \<le> MAX_SAFE_INTEGER"
proof -
  have "(0 :: int) \<le> MAX_SAFE_INTEGER" by (simp add: MAX_SAFE_INTEGER_def)
  with evaluateLegs_eq [OF assms, of 0 0 "tourPath order"] show ?thesis
    by (auto simp: evaluateOrder_def tourPath_def)
qed

section \<open>Tours\<close>

text \<open>A tour: one branch of each required chain, in any order.\<close>

definition isTour :: "matrix_branch list \<Rightarrow> chain list \<Rightarrow> matrix_branch list \<Rightarrow> bool" where
  "isTour branches required order \<longleftrightarrow> set order \<subseteq> set branches \<and> mset (map branchChain order) = mset required"

definition branchOptions :: "matrix_branch list \<Rightarrow> chain list \<Rightarrow> matrix_branch list list" where
  "branchOptions branches required =
     map (\<lambda>c. sort_by (\<lambda>x y. compareText (branchId x) (branchId y)) (filter (\<lambda>b. branchChain b = c) branches)) required"

lemma selection_iff:
  "list_all2 (\<lambda>c y. y \<in> set c) (branchOptions branches required) ys \<longleftrightarrow>
     set ys \<subseteq> set branches \<and> map branchChain ys = required"
proof (induction required arbitrary: ys)
  case (Cons c required)
  then show ?case by (cases ys) (auto simp: branchOptions_def)
qed (auto simp: branchOptions_def)

lemma tours_enumerated:
  "order \<in> set (concat (map permutations (branchCombinations (branchOptions branches required) []))) \<longleftrightarrow>
     isTour branches required order"
proof
  assume "order \<in> set (concat (map permutations (branchCombinations (branchOptions branches required) [])))"
  then obtain ys where ys: "set ys \<subseteq> set branches" "map branchChain ys = required" "mset order = mset ys"
    by (auto simp: branchCombinations_set permutations_set selection_iff)
  then have "set order = set ys" by (metis set_mset_mset)
  moreover have "mset (map branchChain order) = mset (map branchChain ys)" using ys(3) by simp
  ultimately show "isTour branches required order" using ys by (simp add: isTour_def)
next
  assume t: "isTour branches required order"
  then have "mset required = mset (map branchChain order)" by (simp add: isTour_def)
  then have "\<exists>ys. mset ys = mset order \<and> map branchChain ys = required"
  proof (induction required arbitrary: order)
    case (Cons c required)
    then have "c \<in> set (map branchChain order)" by (metis list.set_intros(1) set_mset_mset)
    then obtain b where b: "b \<in> set order" "branchChain b = c" by auto
    have m: "mset order = add_mset b (mset (remove1 b order))" using b(1) by simp
    have "add_mset c (mset required) = image_mset branchChain (mset order)"
      using Cons.prems by simp
    also have "\<dots> = add_mset c (image_mset branchChain (mset (remove1 b order)))"
      by (subst m) (simp add: b(2))
    finally have "mset required = mset (map branchChain (remove1 b order))" by simp
    then obtain ys where "mset ys = mset (remove1 b order)" "map branchChain ys = required" using Cons.IH by blast
    with b show ?case by (intro exI [of _ "b # ys"]) simp
  qed simp
  then obtain ys where ys: "mset ys = mset order" "map branchChain ys = required" by blast
  have "set ys \<subseteq> set branches" using t ys(1) by (metis isTour_def set_mset_mset)
  then have "ys \<in> set (branchCombinations (branchOptions branches required) [])"
    using ys(2) by (simp add: branchCombinations_set selection_iff)
  moreover have "order \<in> set (permutations ys)" using ys(1) by (simp add: permutations_set)
  ultimately show "order \<in> set (concat (map permutations (branchCombinations (branchOptions branches required) [])))"
    by auto
qed

section \<open>The chosen trip\<close>

text \<open>The guards of \<open>chooseBestRoundTrip\<close>: the parsed branches and the required chains in chain order.\<close>

definition acceptedTrip :: "trip_input \<Rightarrow> (matrix_branch list \<times> chain list) option" where
  "acceptedTrip input =
     (case parseAll matrixBranchCandidateSchema (tripBranches input) of
        None \<Rightarrow> None
      | Some branches \<Rightarrow>
          (let required = sort_by (\<lambda>x y. chainOrder x - chainOrder y) (requiredChains input) in
           if routeMatrixSchema (tripMatrix input)
              \<and> 1 \<le> length (requiredChains input) \<and> length (requiredChains input) \<le> 3
              \<and> 1 \<le> length branches \<and> length branches \<le> 9
              \<and> distinct required \<and> distinct (map branchId branches) \<and> distinct (map matrixIndex branches)
              \<and> (\<forall>b \<in> set branches. branchChain b \<in> set required \<and> matrixIndex b < int (length (tripMatrix input)))
              \<and> (\<forall>c \<in> set required. 1 \<le> length (filter (\<lambda>b. branchChain b = c) branches)
                   \<and> length (filter (\<lambda>b. branchChain b = c) branches) \<le> 3)
           then Some (branches, required) else None))"

lemma chooseBestRoundTrip_eq:
  "chooseBestRoundTrip input =
     (case acceptedTrip input of
        None \<Rightarrow> None
      | Some (branches, required) \<Rightarrow>
          first_by compareRoutes (List.map_filter (\<lambda>order. evaluateOrder order (tripMatrix input))
            (concat (map permutations (branchCombinations (branchOptions branches required) [])))))"
proof (cases "parseAll matrixBranchCandidateSchema (tripBranches input)")
  case None
  then show ?thesis by (simp add: chooseBestRoundTrip_def acceptedTrip_def)
next
  case (Some branches)
  define required where "required = sort_by (\<lambda>x y. chainOrder x - chainOrder y) (requiredChains input)"
  have u: "length (uniq (map f branches)) = length branches \<longleftrightarrow> distinct (map f branches)" for f :: "matrix_branch \<Rightarrow> 'z"
    using length_uniq_eq [of "map f branches"] by simp
  have opts: "list_ex (\<lambda>candidates. length candidates < 1 \<or> length candidates > 3) (branchOptions branches required) \<longleftrightarrow>
      \<not> (\<forall>c \<in> set required. 1 \<le> length (filter (\<lambda>b. branchChain b = c) branches)
            \<and> length (filter (\<lambda>b. branchChain b = c) branches) \<le> 3)"
    unfolding branchOptions_def list_ex_iff set_map bex_simps length_sort_by by (auto simp: not_less not_le)
  have range: "list_ex (\<lambda>b. branchChain b \<notin> set required \<or> matrixIndex b \<ge> int (length (tripMatrix input))) branches
      \<longleftrightarrow> \<not> (\<forall>b \<in> set branches. branchChain b \<in> set required \<and> matrixIndex b < int (length (tripMatrix input)))"
    unfolding list_ex_iff not_less [symmetric] by blast
  show ?thesis
    unfolding chooseBestRoundTrip_def acceptedTrip_def Some option.case Let_def required_def [symmetric]
      branchOptions_def [symmetric] length_uniq_eq u opts range
    by (simp only: option.case prod.case not_not de_Morgan_conj de_Morgan_disj split: if_split) blast
qed

lemma compareRoutes_le:
  "compareRoutes r s \<le> 0 \<Longrightarrow> durationSeconds r < durationSeconds s
     \<or> durationSeconds r = durationSeconds s \<and> distanceMeters r \<le> distanceMeters s"
  by (auto simp: compareRoutes_def js_or_def split: if_splits)

interpretation by_route: comparator compareRoutes
  unfolding compareRoutes_def by (intro comparator_intros)

lemma accepted_trip_matrix: "acceptedTrip input = Some x \<Longrightarrow> routeMatrixSchema (tripMatrix input)"
  by (auto simp: acceptedTrip_def Let_def split: option.splits if_splits)

lemma chosen_trip:
  assumes "chooseBestRoundTrip input = Some r"
  obtains branches required order where "acceptedTrip input = Some (branches, required)"
    "isTour branches required order" "evaluateOrder order (tripMatrix input) = Some r"
    "\<And>order' r'. isTour branches required order' \<Longrightarrow> evaluateOrder order' (tripMatrix input) = Some r' \<Longrightarrow> compareRoutes r r' \<le> 0"
proof -
  obtain branches required where a: "acceptedTrip input = Some (branches, required)"
    and f: "first_by compareRoutes (List.map_filter (\<lambda>order. evaluateOrder order (tripMatrix input))
            (concat (map permutations (branchCombinations (branchOptions branches required) [])))) = Some r"
    using assms by (auto simp: chooseBestRoundTrip_eq split: option.splits)
  have "\<exists>order. isTour branches required order \<and> evaluateOrder order (tripMatrix input) = Some r"
    using first_by_in [OF f] tours_enumerated [of _ branches required] unfolding mem_map_filter by blast
  moreover have "compareRoutes r r' \<le> 0"
    if "isTour branches required order'" "evaluateOrder order' (tripMatrix input) = Some r'" for order' r'
    using that tours_enumerated [of order' branches required]
    by (intro first_by_min [OF by_route.comparator_axioms f]) (auto simp: mem_map_filter)
  ultimately show ?thesis using a that by blast
qed

section \<open>Properties\<close>

text \<open>
  C14. \<open>chooseBestRoundTrip\<close> is an exact optimiser: it returns a tour over one branch of each required chain whose
  reported duration and distance are the sums over its legs, no other feasible tour is faster, or as fast and
  shorter; and for accepted inputs it returns nothing only if no tour is reachable within the safe integers.
\<close>

theorem chooseBestRoundTrip_optimal:
  "case chooseBestRoundTrip input of
     Some r \<Rightarrow> \<exists>branches required order. acceptedTrip input = Some (branches, required)
       \<and> isTour branches required order \<and> reachable (tripMatrix input) (tourPath order)
       \<and> distanceMeters r = legSum cellDistance (tripMatrix input) (tourPath order)
       \<and> durationSeconds r = legSum cellDuration (tripMatrix input) (tourPath order)
       \<and> tripStops r = stopsOf order
       \<and> (\<forall>order' r'. isTour branches required order' \<and> evaluateOrder order' (tripMatrix input) = Some r' \<longrightarrow>
            durationSeconds r < durationSeconds r'
            \<or> durationSeconds r = durationSeconds r' \<and> distanceMeters r \<le> distanceMeters r')
   | None \<Rightarrow> \<forall>branches required order. acceptedTrip input = Some (branches, required) \<and> isTour branches required order
       \<longrightarrow> \<not> (reachable (tripMatrix input) (tourPath order)
            \<and> legSum cellDistance (tripMatrix input) (tourPath order) \<le> MAX_SAFE_INTEGER
            \<and> legSum cellDuration (tripMatrix input) (tourPath order) \<le> MAX_SAFE_INTEGER)"
proof (cases "chooseBestRoundTrip input")
  case (Some r)
  from chosen_trip [OF Some] obtain branches required order where
    c: "acceptedTrip input = Some (branches, required)" "isTour branches required order"
      "evaluateOrder order (tripMatrix input) = Some r"
    and best: "\<And>order' r'. isTour branches required order' \<Longrightarrow> evaluateOrder order' (tripMatrix input) = Some r' \<Longrightarrow> compareRoutes r r' \<le> 0"
    by blast
  have e: "reachable (tripMatrix input) (tourPath order)"
    "r = \<lparr>distanceMeters = legSum cellDistance (tripMatrix input) (tourPath order),
      durationSeconds = legSum cellDuration (tripMatrix input) (tourPath order), tripStops = stopsOf order\<rparr>"
    using c(3) unfolding evaluateOrder_iff [OF accepted_trip_matrix [OF c(1)]] by blast+
  have "durationSeconds r < durationSeconds r' \<or> durationSeconds r = durationSeconds r' \<and> distanceMeters r \<le> distanceMeters r'"
    if "isTour branches required order'" "evaluateOrder order' (tripMatrix input) = Some r'" for order' r'
    using best [OF that] by (rule compareRoutes_le)
  with c(1,2) e show ?thesis
    unfolding Some option.case
    by (intro exI [of _ branches] exI [of _ required] exI [of _ order]) (simp, blast)
next
  case None
  have "evaluateOrder order (tripMatrix input) = None"
    if "acceptedTrip input = Some (branches, required)" "isTour branches required order" for branches required order
  proof -
    have "List.map_filter (\<lambda>order. evaluateOrder order (tripMatrix input))
            (concat (map permutations (branchCombinations (branchOptions branches required) []))) = []"
      using None that(1) by (simp add: chooseBestRoundTrip_eq)
    then have "\<nexists>r. r \<in> set (List.map_filter (\<lambda>order. evaluateOrder order (tripMatrix input))
            (concat (map permutations (branchCombinations (branchOptions branches required) []))))" by simp
    then show ?thesis
      using that(2) tours_enumerated [of order branches required] unfolding mem_map_filter
      by (metis (no_types, lifting) not_None_eq)
  qed
  then show ?thesis
    unfolding None option.case using evaluateOrder_iff accepted_trip_matrix
    by (metis option.distinct(1) round_trip.select_convs(1,2))
qed

lemma matrixBranchCandidateSchema_idem:
  assumes "matrixBranchCandidateSchema b = Some c"
  shows "identifierSchema (branchId c) = Some (branchId c) \<and> nonEmptyStringSchema (branchName c) = Some (branchName c)"
  using assms
  by (auto simp: matrixBranchCandidateSchema_def internalTravelBranchSchema_def
      dest: identifierSchema_idem nonEmptyStringSchema_idem split: option.splits if_splits)

lemma nth_stopsOf: "i < length order \<Longrightarrow> stopsOf order ! i =
    \<lparr>stopBranchId = branchId (order ! i), stopChain = branchChain (order ! i), stopName = branchName (order ! i),
     stopSequence = int i + 1\<rparr>"
  by (simp add: stopsOf_def nth_enumerate_eq)

lemma length_stopsOf [simp]: "length (stopsOf order) = length order"
  by (simp add: stopsOf_def)

lemma map_stopsOf:
  "map stopBranchId (stopsOf order) = map branchId order" "map stopChain (stopsOf order) = map branchChain order"
  by (auto intro!: nth_equalityI simp: nth_stopsOf)

lemma inj_chainText: "inj chainText"
proof (rule injI)
  fix c d assume "chainText c = chainText d"
  then show "c = d" by (cases c; cases d) simp_all
qed

text \<open>
  The stops of the chosen trip satisfy the public route contract: each stop is admitted unchanged by
  \<open>travelPublicBranchStopSchema\<close>, there are one to three of them, no branch and no chain is visited twice, and the
  sequence numbers count from one without gaps.
\<close>

theorem chosen_trip_contract:
  assumes "chooseBestRoundTrip input = Some r"
  shows "parseAll travelPublicBranchStopSchema (tripStops r) = Some (tripStops r)
    \<and> 1 \<le> length (tripStops r) \<and> length (tripStops r) \<le> 3 \<and> routeStopsRefinement (tripStops r)"
proof -
  from chosen_trip [OF assms] obtain branches required order where
    a: "acceptedTrip input = Some (branches, required)" and t: "isTour branches required order"
    and e: "evaluateOrder order (tripMatrix input) = Some r" by metis
  have stops: "tripStops r = stopsOf order"
    using e by (auto simp: evaluateOrder_def split: option.splits)
  have p: "parseAll matrixBranchCandidateSchema (tripBranches input) = Some branches"
    and d: "distinct required" "distinct (map branchId branches)"
    and len: "1 \<le> length required" "length required \<le> 3"
    using a by (auto simp: acceptedTrip_def Let_def split: option.splits if_splits)
  have sub: "set order \<subseteq> set branches" and m: "mset (map branchChain order) = mset required"
    using t by (simp_all add: isTour_def)
  have length_order: "length order = length required" using m by (metis length_map size_mset)
  have chains: "distinct (map branchChain order)" using m d(1) by (metis mset_eq_imp_distinct_iff)
  then have "distinct order" by (simp add: distinct_map)
  then have ids: "distinct (map branchId order)"
    using d(2) sub by (auto simp: distinct_map intro: inj_on_subset)
  have "travelPublicBranchStopSchema s = Some s" if s: "s \<in> set (stopsOf order)" for s
  proof -
    obtain i where "i < length (stopsOf order)" "stopsOf order ! i = s"
      using s unfolding in_set_conv_nth by blast
    then have i: "i < length order" "s = stopsOf order ! i" by simp_all
    have "order ! i \<in> set branches" using sub i(1) by auto
    then obtain raw where "matrixBranchCandidateSchema raw = Some (order ! i)" using parseAll_in [OF p] by blast
    note fixed = matrixBranchCandidateSchema_idem [OF this]
    have "int i + 1 \<le> 3" using i(1) length_order len by linarith
    moreover from this have "positiveSafeInteger (int i + 1)"
      unfolding positiveSafeInteger_def MAX_SAFE_INTEGER_def by linarith
    ultimately show ?thesis
      unfolding i(2) nth_stopsOf [OF i(1)] using fixed by (simp add: travelPublicBranchStopSchema_def)
  qed
  then have "parseAll travelPublicBranchStopSchema (stopsOf order) = Some (stopsOf order)" by (simp add: parseAll_fixed)
  moreover have "distinct (map (chainText \<circ> stopChain) (stopsOf order))"
    using chains inj_chainText unfolding map_map [symmetric] map_stopsOf
    by (subst distinct_map) (auto intro: inj_on_subset)
  then have "routeStopsRefinement (stopsOf order)"
    using ids by (auto simp: routeStopsRefinement_def map_stopsOf list_ex_iff in_set_enumerate_eq nth_stopsOf)
  ultimately show ?thesis using len length_order stops by simp
qed

definition exampleTrip :: trip_input where
  "exampleTrip =
     (let cell = (\<lambda>d t. Some \<lparr>cellDistance = d, cellDuration = t\<rparr>);
          branch = (\<lambda>i c k. \<lparr>branchId = i, branchChain = c, branchCoordinate = \<lparr>latitudeE6 = 63430000, longitudeE6 = 10390000\<rparr>,
             branchName = ''Butikk'', matrixIndex = k\<rparr>)
      in \<lparr>tripBranches = [branch ''extra-1'' Extra 1, branch ''meny-1'' Meny 2],
          tripMatrix = [[cell 0 0, cell 900 120, cell 400 60], [cell 900 100, cell 0 0, cell 600 80],
                        [cell 400 60, cell 600 90, cell 0 0]],
          requiredChains = [Meny, Extra]\<rparr>)"

lemma exampleTrip_chosen:
  "map_option (\<lambda>r. (durationSeconds r, distanceMeters r, map stopBranchId (tripStops r))) (chooseBestRoundTrip exampleTrip)
    = Some (250, 1900, [''meny-1'', ''extra-1''])"
  by code_simp

theorem chooseBestRoundTrip_optimal_witness:
  "\<exists>r order. chooseBestRoundTrip exampleTrip = Some r \<and> tripStops r = stopsOf order
     \<and> durationSeconds r = legSum cellDuration (tripMatrix exampleTrip) (tourPath order)"
proof -
  obtain r where r: "chooseBestRoundTrip exampleTrip = Some r"
    using exampleTrip_chosen by (auto split: option.splits)
  with chooseBestRoundTrip_optimal [of exampleTrip] show ?thesis by auto
qed

theorem chosen_trip_contract_witness:
  "\<exists>r. chooseBestRoundTrip exampleTrip = Some r \<and> routeStopsRefinement (tripStops r)"
proof -
  obtain r where r: "chooseBestRoundTrip exampleTrip = Some r"
    using exampleTrip_chosen by (auto split: option.splits)
  with chosen_trip_contract [OF r] show ?thesis by blast
qed

end
