(* ===== verification/Text_Shapes.thy ===== *)
theory Text_Shapes
  imports Contract_Primitives
begin

text \<open>
  Text forms shared by several modules: words joined by single separators (the regular expressions
  \<open>p+(?:q p+)*\<close>), and the text \<open>JSON.stringify\<close> gives a value whose object members are written in a fixed order.
\<close>

section \<open>Separated words\<close>

fun segmented :: "(char \<Rightarrow> bool) \<Rightarrow> (char \<Rightarrow> bool) \<Rightarrow> string \<Rightarrow> bool" where
  "segmented word sep [] = False"
| "segmented word sep [c] = word c"
| "segmented word sep (c # d # cs) = (word c \<and> (segmented word sep (d # cs) \<or> sep d \<and> segmented word sep cs))"

definition lowerAlnum :: "char \<Rightarrow> bool" where
  "lowerAlnum c \<longleftrightarrow> CHR ''a'' \<le> c \<and> c \<le> CHR ''z'' \<or> isDigit c"

definition slugShape :: "string \<Rightarrow> bool" where
  "slugShape s \<longleftrightarrow> segmented lowerAlnum (\<lambda>c. c = CHR ''-'') s"

lemma segmented_chars: "segmented word sep s \<Longrightarrow> list_all (\<lambda>c. word c \<or> sep c) s"
  by (induction word sep s rule: segmented.induct) auto

lemma segmented_not_Nil: "segmented word sep s \<Longrightarrow> s \<noteq> []"
  by auto

section \<open>JSON text\<close>

text \<open>
  A JSON value. The members of an object are in \<open>Object.keys\<close> order; a member of value \<open>None\<close> is one whose value is
  \<open>undefined\<close>. Numbers are integers.
\<close>

datatype json = JNull | JBool bool | JNumber int | JString string | JArray "json list"
  | JObject "(string \<times> json option) list"

definition hexDigit :: "nat \<Rightarrow> char" where
  "hexDigit n = ''0123456789abcdef'' ! n"

definition escapeChar :: "char \<Rightarrow> string" where
  "escapeChar c = (let n = of_char c :: nat in
     if n = 34 \<or> n = 92 then [CHR 0x5C, c]
     else if n = 8 then [CHR 0x5C, CHR ''b'']
     else if n = 9 then [CHR 0x5C, CHR ''t'']
     else if n = 10 then [CHR 0x5C, CHR ''n'']
     else if n = 12 then [CHR 0x5C, CHR ''f'']
     else if n = 13 then [CHR 0x5C, CHR ''r'']
     else if n < 32 then CHR 0x5C # ''u00'' @ [hexDigit (n div 16), hexDigit (n mod 16)]
     else [c])"

definition quote :: char where
  "quote = CHR 0x22"

definition jsonString :: "string \<Rightarrow> string" where
  "jsonString s = quote # concat (map escapeChar s) @ [quote]"

fun digitsOf :: "nat \<Rightarrow> string" where
  "digitsOf n = (if n < 10 then [hexDigit n] else digitsOf (n div 10) @ [hexDigit (n mod 10)])"

definition jsonNumber :: "int \<Rightarrow> string" where
  "jsonNumber n = (if n < 0 then CHR ''-'' # digitsOf (nat (- n)) else digitsOf (nat n))"

fun commaJoin :: "string list \<Rightarrow> string" where
  "commaJoin [] = []"
| "commaJoin [x] = x"
| "commaJoin (x # y # ys) = x @ CHR '','' # commaJoin (y # ys)"

text \<open>The text of a value whose object members stand in the order and selection they are written in.\<close>

fun printJson :: "json \<Rightarrow> string" where
  "printJson JNull = ''null''"
| "printJson (JBool b) = (if b then ''true'' else ''false'')"
| "printJson (JNumber n) = jsonNumber n"
| "printJson (JString s) = jsonString s"
| "printJson (JArray vs) = CHR ''['' # commaJoin (map printJson vs) @ '']''"
| "printJson (JObject ms) =
     CHR ''{'' # commaJoin (map (\<lambda>(k, v). jsonString k @ CHR '':'' # (case v of None \<Rightarrow> '''' | Some w \<Rightarrow> printJson w)) ms) @ ''}''"

text \<open>A value without numbers and with every member defined.\<close>

fun plainJson :: "json \<Rightarrow> bool" where
  "plainJson (JNumber n) = False"
| "plainJson (JArray vs) = list_all plainJson vs"
| "plainJson (JObject ms) = list_all (\<lambda>(k, v). case v of None \<Rightarrow> False | Some w \<Rightarrow> plainJson w) ms"
| "plainJson _ = True"

text \<open>A character is written as itself, as a backslash and a mark, or as four hexadecimal digits.\<close>

definition markOf :: "char \<Rightarrow> char" where
  "markOf m = (if m = CHR ''b'' then CHR 0x08 else if m = CHR ''t'' then CHR 0x09
     else if m = CHR ''n'' then CHR 0x0A else if m = CHR ''f'' then CHR 0x0C
     else if m = CHR ''r'' then CHR 0x0D else m)"

lemma escape_cases:
  obtains (verbatim) "escapeChar c = [c]" "c \<noteq> CHR 0x5C" "c \<noteq> quote"
  | (mark) m where "escapeChar c = [CHR 0x5C, m]" "m \<noteq> CHR ''u''" "c = markOf m"
  | (hex) n where "c = char_of (n :: nat)" "n < 32"
      "escapeChar c = CHR 0x5C # ''u00'' @ [hexDigit (n div 16), hexDigit (n mod 16)]"
proof -
  define n where "n = (of_char c :: nat)"
  have c: "c = char_of n" by (simp add: n_def)
  have e: "escapeChar c = (if n = 34 \<or> n = 92 then [CHR 0x5C, c]
     else if n = 8 then [CHR 0x5C, CHR ''b'']
     else if n = 9 then [CHR 0x5C, CHR ''t'']
     else if n = 10 then [CHR 0x5C, CHR ''n'']
     else if n = 12 then [CHR 0x5C, CHR ''f'']
     else if n = 13 then [CHR 0x5C, CHR ''r'']
     else if n < 32 then CHR 0x5C # ''u00'' @ [hexDigit (n div 16), hexDigit (n mod 16)]
     else [c])"
    by (simp only: escapeChar_def Let_def n_def)
  consider "n = 34" | "n = 92" | "n = 8" | "n = 9" | "n = 10" | "n = 12" | "n = 13"
    | "n \<noteq> 34" "n \<noteq> 92" "n \<noteq> 8" "n \<noteq> 9" "n \<noteq> 10" "n \<noteq> 12" "n \<noteq> 13" by blast
  then show thesis
  proof cases
    case 1 with c e show thesis by (intro mark [of c]) (simp_all add: markOf_def char_of_def bit_iff_odd)
  next
    case 2 with c e show thesis by (intro mark [of c]) (simp_all add: markOf_def char_of_def bit_iff_odd)
  next
    case 3 with c e show thesis by (intro mark [of "CHR ''b''"]) (simp_all add: markOf_def char_of_def bit_iff_odd)
  next
    case 4 with c e show thesis by (intro mark [of "CHR ''t''"]) (simp_all add: markOf_def char_of_def bit_iff_odd)
  next
    case 5 with c e show thesis by (intro mark [of "CHR ''n''"]) (simp_all add: markOf_def char_of_def bit_iff_odd)
  next
    case 6 with c e show thesis by (intro mark [of "CHR ''f''"]) (simp_all add: markOf_def char_of_def bit_iff_odd)
  next
    case 7 with c e show thesis by (intro mark [of "CHR ''r''"]) (simp_all add: markOf_def char_of_def bit_iff_odd)
  next
    case 8
    show thesis
    proof (cases "n < 32")
      case True
      with 8 c e show thesis by (intro hex [of n]) simp_all
    next
      case False
      have "of_char c \<noteq> (92 :: nat)" "of_char c \<noteq> (34 :: nat)" using 8 by (simp_all add: n_def)
      then have "c \<noteq> CHR 0x5C" "c \<noteq> quote" by (auto simp: quote_def)
      with 8 False e show thesis by (intro verbatim) simp_all
    qed
  qed
qed

lemma hexDigit_inj: "m < 16 \<Longrightarrow> n < 16 \<Longrightarrow> hexDigit m = hexDigit n \<longleftrightarrow> m = n"
  unfolding hexDigit_def by (subst nth_eq_iff_index_eq) auto

lemma hex_inj:
  assumes "m < 32" and "n < 32" and "hexDigit (m div 16) = hexDigit (n div 16)" and "hexDigit (m mod 16) = hexDigit (n mod 16)"
  shows "m = (n :: nat)"
proof -
  have "m div 16 < 16" "n div 16 < 16" using assms(1,2) by auto
  then have "m div 16 = n div 16" "m mod 16 = n mod 16" using assms(3,4) hexDigit_inj by auto
  then show ?thesis by (metis div_mult_mod_eq)
qed

lemma escape_prefix:
  assumes "escapeChar c @ xs = escapeChar d @ ys"
  shows "c = d \<and> xs = ys"
  using assms
  by (cases c rule: escape_cases; cases d rule: escape_cases) (auto dest: hex_inj)

lemma escape_not_quote: "escapeChar c @ xs \<noteq> quote # ys"
  by (cases c rule: escape_cases) (auto simp: quote_def)

lemma jsonString_prefix: "jsonString s @ xs = jsonString t @ ys \<longleftrightarrow> s = t \<and> xs = ys"
proof -
  have "s = t \<and> xs = ys" if "concat (map escapeChar s) @ quote # xs = concat (map escapeChar t) @ quote # ys"
    using that
  proof (induction s arbitrary: t)
    case Nil
    then show ?case by (cases t) (auto simp: escape_not_quote [symmetric])
  next
    case (Cons c s)
    show ?case
    proof (cases t)
      case Nil
      with Cons.prems show ?thesis by (simp add: escape_not_quote)
    next
      case t: (Cons d t')
      with Cons.prems have "c = d \<and> concat (map escapeChar s) @ quote # xs = concat (map escapeChar t') @ quote # ys"
        by (intro escape_prefix) simp
      with Cons.IH [of t'] t show ?thesis by simp
    qed
  qed
  then show ?thesis by (auto simp: jsonString_def)
qed

text \<open>A list of texts that can be read off the front, joined by commas before a closing mark, can be read back.\<close>

lemma commaJoin_Cons: "commaJoin (x # xs) = (if xs = [] then x else x @ CHR '','' # commaJoin xs)"
  by (cases xs) auto

lemma commaJoin_prefix:
  assumes "commaJoin (map P as) @ close # xs = commaJoin (map P bs) @ close # ys"
    and "\<And>a b xs ys. a \<in> set as \<Longrightarrow> b \<in> set bs \<Longrightarrow> P a @ xs = P b @ ys \<Longrightarrow> a = b \<and> xs = ys"
    and "\<And>a xs ys. a \<in> set as \<union> set bs \<Longrightarrow> P a @ xs \<noteq> close # ys" and "close \<noteq> CHR '',''"
  shows "as = bs \<and> xs = ys"
  using assms
proof (induction as arbitrary: bs)
  case Nil
  show ?case
  proof (cases bs)
    case (Cons b bs')
    obtain rest where "commaJoin (map P bs) @ close # ys = P b @ rest"
      by (cases "bs' = []") (simp_all add: Cons commaJoin_Cons)
    then have "P b @ rest = close # xs" using Nil.prems(1) by simp
    with Nil.prems(3) [of b rest xs] Cons show ?thesis by simp
  qed (use Nil in simp)
next
  case (Cons a as)
  show ?case
  proof (cases bs)
    case Nil
    obtain rest where "commaJoin (map P (a # as)) @ close # xs = P a @ rest"
      by (cases "as = []") (simp_all add: commaJoin_Cons)
    then have "P a @ rest = close # ys" using Cons.prems(1) Nil by simp
    with Cons.prems(3) [of a rest ys] show ?thesis by simp
  next
    case bs: (Cons b bs')
    let ?tail = "\<lambda>cs z. if cs = [] then close # z else CHR '','' # commaJoin (map P cs) @ close # z"
    have "P a @ ?tail as xs = P b @ ?tail bs' ys"
      using Cons.prems(1) by (simp add: bs commaJoin_Cons split: if_splits)
    with Cons.prems(2) [of a b "?tail as xs" "?tail bs' ys"] bs
    have eq: "a = b" "?tail as xs = ?tail bs' ys" by simp_all
    show ?thesis
    proof (cases "as = []")
      case True
      with eq bs Cons.prems(4) show ?thesis by (auto split: if_splits)
    next
      case False
      with eq(2) Cons.prems(4) have "commaJoin (map P as) @ close # xs = commaJoin (map P bs') @ close # ys"
        by (auto split: if_splits)
      then have "as = bs' \<and> xs = ys"
      proof (rule Cons.IH)
        show "a' = b' \<and> xs' = ys'" if "a' \<in> set as" "b' \<in> set bs'" "P a' @ xs' = P b' @ ys'" for a' b' xs' ys'
          using Cons.prems(2) [of a' b' xs' ys'] that bs by simp
        show "P a' @ xs' \<noteq> close # ys'" if "a' \<in> set as \<union> set bs'" for a' xs' ys'
          using Cons.prems(3) [of a' xs' ys'] that bs by auto
      qed (rule Cons.prems(4))
      with eq bs show ?thesis by simp
    qed
  qed
qed

definition memberText :: "string \<times> json option \<Rightarrow> string" where
  "memberText = (\<lambda>(k, v). jsonString k @ CHR '':'' # (case v of None \<Rightarrow> '''' | Some w \<Rightarrow> printJson w))"

lemma printJson_object: "printJson (JObject ms) = CHR ''{'' # commaJoin (map memberText ms) @ ''}''"
  by (simp add: memberText_def)

lemma jsonString_first: "jsonString s @ xs = c # ys \<Longrightarrow> c = quote"
  by (simp add: jsonString_def)

lemma printJson_first: "plainJson v \<Longrightarrow> \<exists>c rest. printJson v = c # rest \<and> c \<in> {CHR ''n'', CHR ''t'', CHR ''f'', quote, CHR ''['', CHR ''{''}"
  by (cases v) (auto simp: jsonString_def)

lemma printJson_prefix:
  "plainJson v \<Longrightarrow> plainJson w \<Longrightarrow> printJson v @ xs = printJson w @ ys \<Longrightarrow> v = w \<and> xs = ys"
proof (induction v arbitrary: w xs ys)
  case JNull
  then show ?case using printJson_first [of w] by (cases w) (auto simp: quote_def jsonString_def split: if_splits)
next
  case (JBool b)
  then show ?case by (cases w) (auto simp: quote_def jsonString_def split: if_splits)
next
  case (JNumber n)
  then show ?case by simp
next
  case (JString s)
  then show ?case
  proof (cases w)
    case (JString t)
    with JString.prems show ?thesis by (simp add: jsonString_prefix)
  qed (auto simp: quote_def jsonString_def split: if_splits)
next
  case (JArray vs)
  show ?case
  proof (cases w)
    case w: (JArray ws)
    have "vs = ws \<and> xs = ys"
    proof (rule commaJoin_prefix [of printJson vs "CHR '']''" xs ws ys])
      show "commaJoin (map printJson vs) @ CHR '']'' # xs = commaJoin (map printJson ws) @ CHR '']'' # ys"
        using JArray.prems(3) w by simp
      show "a = b \<and> xs' = ys'" if "a \<in> set vs" "b \<in> set ws" "printJson a @ xs' = printJson b @ ys'" for a b xs' ys'
        using JArray.IH [OF that(1) _ _ that(3)] that JArray.prems w by (simp add: list_all_iff)
      show "printJson a @ xs' \<noteq> CHR '']'' # ys'" if "a \<in> set vs \<union> set ws" for a xs' ys'
        using printJson_first [of a] that JArray.prems w by (auto simp: list_all_iff quote_def)
    qed simp
    with w show ?thesis by simp
  qed (use JArray.prems in \<open>auto simp: quote_def jsonString_def split: if_splits\<close>)
next
  case (JObject ms)
  show ?case
  proof (cases w)
    case w: (JObject ns)
    have plain: "list_all (\<lambda>(k, v). case v of None \<Rightarrow> False | Some w \<Rightarrow> plainJson w) ms"
      "list_all (\<lambda>(k, v). case v of None \<Rightarrow> False | Some w \<Rightarrow> plainJson w) ns"
      using JObject.prems w by simp_all
    have "ms = ns \<and> xs = ys"
    proof (rule commaJoin_prefix [of memberText ms "CHR ''}''" xs ns ys])
      show "commaJoin (map memberText ms) @ CHR ''}'' # xs = commaJoin (map memberText ns) @ CHR ''}'' # ys"
        using JObject.prems(3) w by (simp add: memberText_def)
      show "a = b \<and> xs' = ys'" if m: "a \<in> set ms" "b \<in> set ns" "memberText a @ xs' = memberText b @ ys'" for a b xs' ys'
      proof -
        obtain k v where a: "a = (k, Some v)" "plainJson v"
          using plain(1) m(1) by (cases a) (auto simp: list_all_iff split: option.splits)
        obtain l u where b: "b = (l, Some u)" "plainJson u"
          using plain(2) m(2) by (cases b) (auto simp: list_all_iff split: option.splits)
        have "k = l \<and> printJson v @ xs' = printJson u @ ys'"
          using m(3) a b by (simp add: memberText_def jsonString_prefix)
        moreover from this have "v = u \<and> xs' = ys'"
          using JObject.IH [of "(k, Some v)" "Some v" v u xs' ys'] m(1) a b by simp
        ultimately show ?thesis using a b by simp
      qed
      show "memberText a @ xs' \<noteq> CHR ''}'' # ys'" for a xs' ys'
        by (cases a) (auto simp: memberText_def jsonString_def quote_def)
    qed simp
    with w show ?thesis by simp
  qed (use JObject.prems in \<open>auto simp: quote_def jsonString_def split: if_splits\<close>)
qed

lemma printJson_inj: "plainJson v \<Longrightarrow> plainJson w \<Longrightarrow> printJson v = printJson w \<longleftrightarrow> v = w"
  using printJson_prefix [of v w "[]" "[]"] by auto

end
