(* ===== verification/Family_Taxonomy.thy ===== *)
theory Family_Taxonomy
  imports Text_Shapes
begin

text \<open>
  \<open>packages/domain/src/family-taxonomy.ts\<close>: the reviewed taxonomy of product families, the graph check of its parent
  references, and the canonical text its checksum covers. \<open>JSON.stringify\<close> of an object lists members in a fixed order,
  so \<open>canonicalizeJson\<close> sorts them first.
\<close>

section \<open>Schemas\<close>

definition familyTaxonomyIdSchema :: "string \<Rightarrow> bool" where
  "familyTaxonomyIdSchema s \<longleftrightarrow> 1 \<le> length s \<and> length s \<le> 80 \<and> slugShape s"

definition versionNumber :: "string \<Rightarrow> bool" where
  "versionNumber s \<longleftrightarrow> s = ''0'' \<or> s \<noteq> [] \<and> hd s \<noteq> CHR ''0'' \<and> list_all isDigit s"

fun splitAt :: "char \<Rightarrow> string \<Rightarrow> string list" where
  "splitAt sep [] = [[]]"
| "splitAt sep (c # cs) =
     (if c = sep then [] # splitAt sep cs
      else (case splitAt sep cs of [] \<Rightarrow> [[c]] | w # ws \<Rightarrow> (c # w) # ws))"

definition taxonomyVersionShape :: "string \<Rightarrow> bool" where
  "taxonomyVersionShape s \<longleftrightarrow>
     (case splitAt CHR ''.'' s of [major, minor, patch] \<Rightarrow> list_all versionNumber [major, minor, patch] | _ \<Rightarrow> False)"

definition familyTaxonomyVersionSchema :: "string \<Rightarrow> bool" where
  "familyTaxonomyVersionSchema s \<longleftrightarrow> 5 \<le> length s \<and> length s \<le> 32 \<and> taxonomyVersionShape s"

definition familyIdentifierSchema :: "string \<Rightarrow> bool" where
  "familyIdentifierSchema s \<longleftrightarrow>
     8 \<le> length s \<and> length s \<le> 80 \<and> take 7 s = ''family:'' \<and> slugShape (drop 7 s)"

definition familySlugSchema :: "string \<Rightarrow> bool" where
  "familySlugSchema s \<longleftrightarrow> 1 \<le> length s \<and> length s \<le> 80 \<and> slugShape s"

definition aliasLetter :: "char \<Rightarrow> bool" where
  "aliasLetter c \<longleftrightarrow> lowerAlnum c \<or> c \<in> {CHR 0xE6, CHR 0xF8, CHR 0xE5}"

definition familyAliasSchema :: "string \<Rightarrow> bool" where
  "familyAliasSchema s \<longleftrightarrow>
     1 \<le> length s \<and> length s \<le> 80 \<and> segmented aliasLetter (\<lambda>c. c = CHR '' '' \<or> c = CHR ''-'') s"

datatype family_status = ActiveFamily | RetiredFamily

fun statusText :: "family_status \<Rightarrow> string" where
  "statusText ActiveFamily = ''active''"
| "statusText RetiredFamily = ''retired''"

record reviewed_family =
  reviewedId :: string
  reviewedSlug :: string
  reviewedLabel :: string
  reviewedAliases :: "string list"
  reviewedParent :: "string option"
  reviewedStatus :: family_status

definition reviewedFamilyDescriptorSchema :: "reviewed_family \<Rightarrow> reviewed_family option" where
  "reviewedFamilyDescriptorSchema f =
     (case boundedText 1 160 (reviewedLabel f) of
        None \<Rightarrow> None
      | Some l \<Rightarrow>
          if familyIdentifierSchema (reviewedId f) \<and> familySlugSchema (reviewedSlug f)
             \<and> list_all familyAliasSchema (reviewedAliases f) \<and> length (reviewedAliases f) \<le> 20
             \<and> optionally familyIdentifierSchema (reviewedParent f) \<and> hasUniqueStrings (reviewedAliases f)
          then Some (f\<lparr>reviewedLabel := l\<rparr>) else None)"

section \<open>The graph of parent references\<close>

type_synonym family_index = "(string \<times> reviewed_family) list"

definition familyIndex :: "reviewed_family list \<Rightarrow> family_index" where
  "familyIndex families = newMap (map (\<lambda>f. (reviewedId f, f)) families)"

text \<open>The parent of a family when it is defined in the same version.\<close>

definition definedParent :: "family_index \<Rightarrow> string \<Rightarrow> string option" where
  "definedParent byId familyId =
     (case map_of byId familyId of
        None \<Rightarrow> None
      | Some f \<Rightarrow> (case reviewedParent f of None \<Rightarrow> None
                 | Some p \<Rightarrow> if map_of byId p \<noteq> None then Some p else None))"

lemma definedParent_key: "definedParent byId i = Some p \<Longrightarrow> i \<in> fst ` set byId \<and> p \<in> fst ` set byId"
  by (auto simp: definedParent_def split: option.splits if_splits dest!: map_of_SomeD) (force, force)

text \<open>
  \<open>visit\<close> with its two sets, both returned: a family on the path being visited closes a cycle; a family visited
  before does not.
\<close>

function visitFamily ::
    "family_index \<Rightarrow> string list \<times> string list \<Rightarrow> string \<Rightarrow> bool \<times> string list \<times> string list" where
  "visitFamily byId (completed, visiting) familyId =
     (if familyId \<in> set completed then (False, completed, visiting)
      else if familyId \<in> set visiting then (True, completed, visiting)
      else
        (let (hasCycle, completed', visiting') =
               (case definedParent byId familyId of
                  None \<Rightarrow> (False, completed, familyId # visiting)
                | Some parentId \<Rightarrow> visitFamily byId (completed, familyId # visiting) parentId)
         in (hasCycle, familyId # completed', removeAll familyId visiting')))"
  by pat_completeness auto
termination
proof (relation "measure (\<lambda>(byId, (completed, visiting), familyId). card (fst ` set byId - set visiting))")
  fix byId :: family_index and completed visiting familyId parentId
  assume "familyId \<notin> set visiting" and p: "definedParent byId familyId = Some parentId"
  with definedParent_key [OF p]
  have "fst ` set byId - set (familyId # visiting) \<subset> fst ` set byId - set visiting" by auto
  then have "card (fst ` set byId - set (familyId # visiting)) < card (fst ` set byId - set visiting)"
    by (intro psubset_card_mono) simp_all
  then show "((byId, (completed, familyId # visiting), parentId), byId, (completed, visiting), familyId)
     \<in> measure (\<lambda>(byId, (completed, visiting), familyId). card (fst ` set byId - set visiting))"
    by simp
qed simp

declare visitFamily.simps [simp del]

fun anyCycle :: "family_index \<Rightarrow> string list \<times> string list \<Rightarrow> reviewed_family list \<Rightarrow> bool" where
  "anyCycle byId sets [] = False"
| "anyCycle byId sets (f # fs) =
     (case visitFamily byId sets (reviewedId f) of
        (hasCycle, sets') \<Rightarrow> if hasCycle then True else anyCycle byId sets' fs)"

definition taxonomyGraphAccepted :: "reviewed_family list \<Rightarrow> bool" where
  "taxonomyGraphAccepted families \<longleftrightarrow>
     (let slugs = map reviewedSlug families;
          aliases = concat (map reviewedAliases families);
          familyById = familyIndex families
      in hasUniqueStrings (map reviewedId families) \<and> hasUniqueStrings slugs \<and> hasUniqueStrings aliases
         \<and> hasUniqueStrings (slugs @ aliases)
         \<and> \<not> list_ex (\<lambda>f. case reviewedParent f of None \<Rightarrow> False | Some p \<Rightarrow> map_of familyById p = None) families
         \<and> \<not> anyCycle familyById ([], []) families)"

record family_taxonomy =
  taxonomyId :: string
  taxonomyVersion :: string
  taxonomyVersionId :: string
  taxonomyPublishedAt :: string
  taxonomySha256 :: string
  taxonomyFamilies :: "reviewed_family list"

definition sha256Shape :: "string \<Rightarrow> bool" where
  "sha256Shape s \<longleftrightarrow> length s = 64 \<and> list_all (\<lambda>c. isDigit c \<or> CHR ''a'' \<le> c \<and> c \<le> CHR ''f'') s"

definition familyTaxonomySchema :: "family_taxonomy \<Rightarrow> family_taxonomy option" where
  "familyTaxonomySchema t =
     (case parseAll reviewedFamilyDescriptorSchema (taxonomyFamilies t) of
        None \<Rightarrow> None
      | Some families \<Rightarrow>
          if familyTaxonomyIdSchema (taxonomyId t) \<and> familyTaxonomyVersionSchema (taxonomyVersion t)
             \<and> 7 \<le> length (taxonomyVersionId t) \<and> length (taxonomyVersionId t) \<le> 120
             \<and> canonicalTimestamp (taxonomyPublishedAt t) \<and> sha256Shape (taxonomySha256 t)
             \<and> 1 \<le> length families \<and> length families \<le> 500
             \<and> taxonomyVersionId t = taxonomyId t @ ''@'' @ taxonomyVersion t
             \<and> taxonomyGraphAccepted families
          then Some (t\<lparr>taxonomyFamilies := families\<rparr>) else None)"

text \<open>\<open>parse\<close> throws where the schema does not admit the input: \<open>None\<close>.\<close>

definition parseFamilyTaxonomy :: "family_taxonomy unknown \<Rightarrow> family_taxonomy option" where
  "parseFamilyTaxonomy input = parseUnknown familyTaxonomySchema input"

section \<open>The canonical text\<close>

definition byKey :: "string \<times> 'a \<Rightarrow> string \<times> 'a \<Rightarrow> int" where
  "byKey l r = compareText (fst l) (fst r)"

fun canonicalizeJson :: "json \<Rightarrow> string" where
  "canonicalizeJson (JArray vs) = CHR ''['' # commaJoin (map canonicalizeJson vs) @ '']''"
| "canonicalizeJson (JObject ms) =
     (let entries = sort_by byKey (concat (map (\<lambda>(k, v). case v of None \<Rightarrow> [] | Some w \<Rightarrow> [(k, canonicalizeJson w)]) ms))
      in CHR ''{'' # commaJoin (map (\<lambda>(k, t). jsonString k @ CHR '':'' # t) entries) @ ''}'')"
| "canonicalizeJson v = printJson v"

definition descriptorJson :: "reviewed_family \<Rightarrow> json" where
  "descriptorJson f = JObject [(''id'', Some (JString (reviewedId f))), (''slug'', Some (JString (reviewedSlug f))),
     (''labelNo'', Some (JString (reviewedLabel f))), (''aliases'', Some (JArray (map JString (reviewedAliases f)))),
     (''parentId'', map_option JString (reviewedParent f)), (''status'', Some (JString (statusText (reviewedStatus f))))]"

definition canonicalizeFamilyTaxonomyContent :: "reviewed_family list \<Rightarrow> string" where
  "canonicalizeFamilyTaxonomyContent families = canonicalizeJson (JArray (map descriptorJson families))"

section \<open>The graph check\<close>

text \<open>The ancestor \<open>n\<close> references up, if the references go that far.\<close>

fun ancestor :: "family_index \<Rightarrow> nat \<Rightarrow> string \<Rightarrow> string option" where
  "ancestor byId 0 i = Some i"
| "ancestor byId (Suc n) i = (case definedParent byId i of None \<Rightarrow> None | Some p \<Rightarrow> ancestor byId n p)"

definition rooted :: "family_index \<Rightarrow> string \<Rightarrow> bool" where
  "rooted byId i \<longleftrightarrow> (\<exists>n. ancestor byId n i = None)"

lemma ancestor_add:
  "ancestor byId (m + n) i = (case ancestor byId m i of None \<Rightarrow> None | Some j \<Rightarrow> ancestor byId n j)"
  by (induction m arbitrary: i) (auto split: option.splits)

lemma rooted_parent: "definedParent byId i = Some p \<Longrightarrow> rooted byId i \<longleftrightarrow> rooted byId p"
proof
  assume p: "definedParent byId i = Some p" and "rooted byId i"
  then obtain n where "ancestor byId n i = None" by (auto simp: rooted_def)
  with p show "rooted byId p" by (cases n) (auto simp: rooted_def)
next
  assume "definedParent byId i = Some p" and "rooted byId p"
  then obtain n where "ancestor byId (Suc n) i = None" by (auto simp: rooted_def)
  then show "rooted byId i" unfolding rooted_def by blast
qed

lemma rooted_top: "definedParent byId i = None \<Longrightarrow> rooted byId i"
  unfolding rooted_def by (rule exI [of _ 1]) simp

lemma cycle_not_rooted:
  assumes "ancestor byId (Suc k) i = Some i"
  shows "\<not> rooted byId i"
proof -
  have "ancestor byId (n * Suc k) i = Some i" for n
  proof (induction n)
    case (Suc n)
    have "ancestor byId (Suc n * Suc k) i = ancestor byId (Suc k + n * Suc k) i" by (simp only: mult_Suc)
    also have "\<dots> = Some i" unfolding ancestor_add assms using Suc by simp
    finally show ?case .
  qed simp
  then have never: "ancestor byId (n * Suc k) i \<noteq> None" for n by simp
  have mono: "ancestor byId n i = None \<Longrightarrow> ancestor byId (n + m) i = None" for n m
    by (simp add: ancestor_add)
  have "ancestor byId n i \<noteq> None" for n
    using never [of n] mono [of n "n * k"] by (metis mult_Suc_right)
  then show ?thesis by (simp add: rooted_def)
qed

text \<open>The families above a rooted one are at most all the families.\<close>

lemma ancestor_keys: "ancestor byId n i = Some j \<Longrightarrow> i \<in> fst ` set byId \<Longrightarrow> j \<in> fst ` set byId"
proof (induction n arbitrary: i)
  case (Suc n)
  then obtain p where "definedParent byId i = Some p" "ancestor byId n p = Some j" by (auto split: option.splits)
  with Suc.IH [of p] definedParent_key show ?case by blast
qed simp

lemma ancestors_distinct:
  assumes "rooted byId i" and "ancestor byId n i \<noteq> None"
  shows "inj_on (\<lambda>k. ancestor byId k i) {..n}"
proof (rule ccontr)
  assume "\<not> ?thesis"
  then obtain a b where ab: "a < b" "b \<le> n" "ancestor byId a i = ancestor byId b i"
    by (auto simp: inj_on_def) (metis nat_neq_iff)
  obtain j where j: "ancestor byId a i = Some j"
    using assms(2) ab by (metis ancestor_add le_add_diff_inverse less_imp_le option.simps(4) order_trans not_None_eq)
  obtain k where k: "b = a + Suc k" using ab(1) less_imp_Suc_add by fastforce
  have "ancestor byId (Suc k) j = Some j" using ab(3) j unfolding k ancestor_add by simp
  then have "\<not> rooted byId j" by (rule cycle_not_rooted)
  moreover have "rooted byId j"
  proof -
    obtain m where "ancestor byId m i = None" using assms(1) by (auto simp: rooted_def)
    then have "ancestor byId (a + m) i = None" by (subst add.commute) (simp add: ancestor_add)
    then show ?thesis using j by (auto simp: ancestor_add rooted_def)
  qed
  ultimately show False by simp
qed

lemma rooted_bound:
  assumes "rooted byId i" and "i \<in> fst ` set byId"
  shows "\<exists>n \<le> length byId. ancestor byId n i = None"
proof (rule ccontr)
  assume a: "\<not> ?thesis"
  let ?n = "length byId"
  have some: "ancestor byId k i \<in> Some ` (fst ` set byId)" if k: "k \<le> ?n" for k
  proof -
    obtain j where j: "ancestor byId k i = Some j" using a k by auto
    with ancestor_keys [OF j assms(2)] show ?thesis by simp
  qed
  have "inj_on (\<lambda>k. ancestor byId k i) {..?n}" using ancestors_distinct [OF assms(1)] a by blast
  then have "card ((\<lambda>k. ancestor byId k i) ` {..?n}) = Suc ?n" by (simp add: card_image)
  moreover have "(\<lambda>k. ancestor byId k i) ` {..?n} \<subseteq> Some ` (fst ` set byId)" using some by auto
  then have "card ((\<lambda>k. ancestor byId k i) ` {..?n}) \<le> card (fst ` set byId)"
    by (metis card_image_le card_mono finite_imageI finite_set le_trans)
  moreover have "card (fst ` set byId) \<le> ?n" by (metis card_length length_map set_map)
  ultimately show False by simp
qed

text \<open>What a visit reports, on a path whose families all lie below the visited one.\<close>

definition visitedHold :: "family_index \<Rightarrow> string list \<Rightarrow> string list \<Rightarrow> string \<Rightarrow> bool" where
  "visitedHold byId completed visiting i \<longleftrightarrow>
     (\<forall>c \<in> set completed. rooted byId c) \<and> (\<forall>v \<in> set visiting. \<exists>n. ancestor byId (Suc n) v = Some i)"

lemma visitFamily_spec:
  "visitedHold byId (fst sets) (snd sets) i \<Longrightarrow> visitFamily byId sets i = (hasCycle, sets') \<Longrightarrow>
     snd sets' = snd sets \<and> hasCycle = (\<not> rooted byId i)
     \<and> (\<not> hasCycle \<longrightarrow> (\<forall>c \<in> set (fst sets'). rooted byId c))"
proof (induction byId sets i arbitrary: hasCycle sets' rule: visitFamily.induct)
  case (1 byId completed visiting i)
  show ?case
  proof (cases "i \<in> set completed \<or> i \<in> set visiting")
    case True
    then show ?thesis
    proof
      assume "i \<in> set completed"
      with "1.prems" show ?thesis by (auto simp: visitFamily.simps visitedHold_def)
    next
      assume v: "i \<in> set visiting"
      show ?thesis
      proof (cases "i \<in> set completed")
        case True
        with "1.prems" show ?thesis by (auto simp: visitFamily.simps visitedHold_def)
      next
        case False
        have "\<not> rooted byId i" using "1.prems"(1) v cycle_not_rooted by (fastforce simp: visitedHold_def)
        with False v "1.prems" show ?thesis by (auto simp: visitFamily.simps)
      qed
    qed
  next
    case new: False
    show ?thesis
    proof (cases "definedParent byId i")
      case None
      with new "1.prems" rooted_top [OF None] show ?thesis
        by (auto simp: visitFamily.simps visitedHold_def)
    next
      case (Some p)
      obtain hc c v where rec: "visitFamily byId (completed, i # visiting) p = (hc, c, v)" by (metis prod_cases3)
      have "ancestor byId (Suc (Suc n)) u = Some p" if "ancestor byId (Suc n) u = Some i" for n u
        using that Some ancestor_add [of byId "Suc n" 1 u] by simp
      moreover have "ancestor byId (Suc 0) i = Some p" using Some by simp
      ultimately have "visitedHold byId completed (i # visiting) p"
        using "1.prems"(1) unfolding visitedHold_def by (metis fst_conv set_ConsD snd_conv)
      with "1.IH" [of p hc "(c, v)"] new Some rec
      have "v = i # visiting \<and> hc = (\<not> rooted byId p) \<and> (\<not> hc \<longrightarrow> (\<forall>c \<in> set c. rooted byId c))" by simp
      with new Some rec "1.prems" rooted_parent [OF Some] show ?thesis
        by (auto simp: visitFamily.simps)
    qed
  qed
qed

lemma anyCycle_iff:
  "(\<forall>c \<in> set completed. rooted byId c) \<Longrightarrow>
     anyCycle byId (completed, []) fs \<longleftrightarrow> (\<exists>f \<in> set fs. \<not> rooted byId (reviewedId f))"
proof (induction fs arbitrary: completed)
  case (Cons f fs)
  obtain hc c v where r: "visitFamily byId (completed, []) (reviewedId f) = (hc, c, v)" by (metis prod_cases3)
  have "visitedHold byId completed [] (reviewedId f)" using Cons.prems by (simp add: visitedHold_def)
  with visitFamily_spec [of byId "(completed, [])" "reviewedId f" hc "(c, v)"] r
  have "v = [] \<and> hc = (\<not> rooted byId (reviewedId f)) \<and> (\<not> hc \<longrightarrow> (\<forall>c \<in> set c. rooted byId c))" by simp
  with Cons.IH [of c] r show ?case by auto
qed simp

lemma map_of_familyIndex:
  assumes "distinct (map reviewedId fs)"
  shows "map_of (familyIndex fs) i = find (\<lambda>f. reviewedId f = i) fs"
proof -
  have "map_of (map (\<lambda>f. (reviewedId f, f)) fs) i = find (\<lambda>f. reviewedId f = i) fs"
    by (induction fs) auto
  then show ?thesis
    unfolding familyIndex_def by (subst map_of_newMap_distinct) (simp_all add: o_def assms)
qed

lemma card_keys: "distinct (map f xs) \<Longrightarrow> card (f ` set xs) = length xs"
  using distinct_card [of "map f xs"] by simp

lemma familyIndex_length:
  assumes "distinct (map reviewedId fs)"
  shows "length (familyIndex fs) = length fs"
proof -
  have "length (familyIndex fs) = card (fst ` set (familyIndex fs))"
    unfolding familyIndex_def by (rule card_keys [OF distinct_newMap, symmetric])
  also have "fst ` set (familyIndex fs) = reviewedId ` set fs"
    unfolding familyIndex_def keys_newMap by (simp add: image_image)
  also have "card \<dots> = length fs" by (rule card_keys [OF assms])
  finally show ?thesis .
qed

text \<open>The parent references as families name them.\<close>

definition parentOf :: "reviewed_family list \<Rightarrow> string \<Rightarrow> string option" where
  "parentOf fs i = Option.bind (find (\<lambda>f. reviewedId f = i) fs) reviewedParent"

fun climb :: "reviewed_family list \<Rightarrow> nat \<Rightarrow> string \<Rightarrow> string option" where
  "climb fs 0 i = Some i"
| "climb fs (Suc n) i = Option.bind (parentOf fs i) (climb fs n)"

definition parentsDefined :: "reviewed_family list \<Rightarrow> bool" where
  "parentsDefined fs \<longleftrightarrow> (\<forall>f \<in> set fs. \<forall>p. reviewedParent f = Some p \<longrightarrow> p \<in> reviewedId ` set fs)"

lemma ancestor_climb:
  assumes "distinct (map reviewedId fs)" and "parentsDefined fs"
  shows "ancestor (familyIndex fs) n i = climb fs n i"
proof (induction n arbitrary: i)
  case (Suc n)
  have "definedParent (familyIndex fs) i = parentOf fs i"
  proof (cases "find (\<lambda>f. reviewedId f = i) fs")
    case None
    then show ?thesis by (simp add: definedParent_def parentOf_def map_of_familyIndex [OF assms(1)])
  next
    case (Some f)
    have "find (\<lambda>f. reviewedId f = p) fs \<noteq> None" if "reviewedParent f = Some p" for p
      using that assms(2) find_SomeD [OF Some] unfolding parentsDefined_def find_None_iff by fastforce
    with Some show ?thesis
      by (auto simp: definedParent_def parentOf_def map_of_familyIndex [OF assms(1)] split: option.splits)
  qed
  with Suc show ?case by (cases "parentOf fs i") simp_all
qed simp

text \<open>
  C21. The graph check accepts exactly the versions whose identifiers are unique, whose slugs and aliases are all
  different, whose parents are defined in the version, and in which climbing from any family reaches one without a
  parent, within as many steps as there are families.
\<close>

theorem taxonomyGraph_exact:
  "taxonomyGraphAccepted families \<longleftrightarrow>
     distinct (map reviewedId families)
     \<and> distinct (map reviewedSlug families @ concat (map reviewedAliases families))
     \<and> parentsDefined families
     \<and> (\<forall>f \<in> set families. \<exists>n \<le> length families. climb families n (reviewedId f) = None)"
proof -
  let ?index = "familyIndex families"
  have parents: "\<not> list_ex (\<lambda>f. case reviewedParent f of None \<Rightarrow> False | Some p \<Rightarrow> map_of ?index p = None) families
      \<longleftrightarrow> parentsDefined families" if d: "distinct (map reviewedId families)"
  proof -
    have "map_of ?index p = None \<longleftrightarrow> p \<notin> reviewedId ` set families" for p
      unfolding map_of_familyIndex [OF d] find_None_iff by auto
    then show ?thesis unfolding parentsDefined_def list_ex_iff by (auto split: option.split)
  qed
  have acyclic: "\<not> anyCycle ?index ([], []) families \<longleftrightarrow>
      (\<forall>f \<in> set families. \<exists>n \<le> length families. climb families n (reviewedId f) = None)"
    if d: "distinct (map reviewedId families)" and p: "parentsDefined families"
  proof -
    have key: "reviewedId f \<in> fst ` set ?index" if "f \<in> set families" for f
      using that unfolding familyIndex_def keys_newMap by force
    have "rooted ?index (reviewedId f) \<longleftrightarrow> (\<exists>n \<le> length families. climb families n (reviewedId f) = None)"
      if "f \<in> set families" for f
      using rooted_bound [OF _ key [OF that]] unfolding familyIndex_length [OF d] ancestor_climb [OF d p]
      by (auto simp: rooted_def ancestor_climb [OF d p])
    then show ?thesis by (auto simp: anyCycle_iff)
  qed
  show ?thesis
  proof (cases "distinct (map reviewedId families) \<and> parentsDefined families")
    case True
    then have d: "distinct (map reviewedId families)" and p: "parentsDefined families" by simp_all
    show ?thesis using d p
      by (simp add: taxonomyGraphAccepted_def Let_def acyclic [OF d p] parents [OF d] conj_ac)
  next
    case False
    then show ?thesis using parents by (auto simp: taxonomyGraphAccepted_def Let_def)
  qed
qed

definition exampleFamily :: "string \<Rightarrow> string option \<Rightarrow> reviewed_family" where
  "exampleFamily name parent =
     \<lparr>reviewedId = ''family:'' @ name, reviewedSlug = name, reviewedLabel = name, reviewedAliases = [],
      reviewedParent = map_option (\<lambda>p. ''family:'' @ p) parent, reviewedStatus = ActiveFamily\<rparr>"

theorem taxonomyGraph_exact_witness:
  "(\<exists>n \<le> 2. climb [exampleFamily ''melk'' (Some ''meieri''), exampleFamily ''meieri'' None] n ''family:melk'' = None)
   \<and> \<not> taxonomyGraphAccepted [exampleFamily ''melk'' (Some ''ost''), exampleFamily ''ost'' (Some ''melk'')]"
proof -
  have "taxonomyGraphAccepted [exampleFamily ''melk'' (Some ''meieri''), exampleFamily ''meieri'' None]" by code_simp
  then have "\<exists>n \<le> 2. climb [exampleFamily ''melk'' (Some ''meieri''), exampleFamily ''meieri'' None] n ''family:melk'' = None"
    unfolding taxonomyGraph_exact by (simp add: exampleFamily_def numeral_2_eq_2)
  moreover have "\<not> taxonomyGraphAccepted [exampleFamily ''melk'' (Some ''ost''), exampleFamily ''ost'' (Some ''melk'')]" by code_simp
  ultimately show ?thesis by simp
qed

section \<open>The canonical text determines the families\<close>

text \<open>Defined members in key order, recursively: the value whose text is written.\<close>

fun orderJson :: "json \<Rightarrow> json" where
  "orderJson (JArray vs) = JArray (map orderJson vs)"
| "orderJson (JObject ms) =
     JObject (sort_by byKey (concat (map (\<lambda>(k, v). case v of None \<Rightarrow> [] | Some w \<Rightarrow> [(k, Some (orderJson w))]) ms)))"
| "orderJson v = v"

fun numberFree :: "json \<Rightarrow> bool" where
  "numberFree (JNumber n) = False"
| "numberFree (JArray vs) = list_all numberFree vs"
| "numberFree (JObject ms) = list_all (\<lambda>(k, v). case v of None \<Rightarrow> True | Some w \<Rightarrow> numberFree w) ms"
| "numberFree _ = True"

lemma canonicalizeJson_order: "canonicalizeJson v = printJson (orderJson v)"
proof (induction v)
  case (JArray vs)
  then show ?case by (simp cong: map_cong)
next
  case (JObject ms)
  let ?text = "\<lambda>(k, t). (k, case t of None \<Rightarrow> '''' | Some w \<Rightarrow> printJson w)"
  have "concat (map (\<lambda>(k, v). case v of None \<Rightarrow> [] | Some w \<Rightarrow> [(k, canonicalizeJson w)]) ms)
      = map ?text (concat (map (\<lambda>(k, v). case v of None \<Rightarrow> [] | Some w \<Rightarrow> [(k, Some (orderJson w))]) ms))"
    using JObject by (induction ms) (fastforce split: option.splits)+
  moreover have "sort_by byKey (map ?text xs) = map ?text (sort_by byKey xs)" for xs
    unfolding sort_by_map by (intro arg_cong [where f = "map ?text"] sort_by_cong) (auto simp: byKey_def split: prod.splits)
  ultimately show ?case by (simp add: Let_def o_def case_prod_unfold)
qed simp_all

lemma plain_orderJson: "numberFree v \<Longrightarrow> plainJson (orderJson v)"
proof (induction v)
  case (JObject ms)
  have "case t of None \<Rightarrow> False | Some w \<Rightarrow> plainJson w"
    if "(k, t) \<in> set (concat (map (\<lambda>(k, v). case v of None \<Rightarrow> [] | Some w \<Rightarrow> [(k, Some (orderJson w))]) ms))" for k t
    using that JObject by (fastforce simp: list_all_iff split: option.splits)
  then show ?case by (auto simp: list_all_iff)
qed (auto simp: list_all_iff)

lemma canonicalizeJson_inj:
  "numberFree v \<Longrightarrow> numberFree w \<Longrightarrow> canonicalizeJson v = canonicalizeJson w \<longleftrightarrow> orderJson v = orderJson w"
  unfolding canonicalizeJson_order by (intro printJson_inj plain_orderJson)

lemma key_order:
  "compareText ''aliases'' ''id'' = -1" "compareText ''id'' ''labelNo'' = -1" "compareText ''labelNo'' ''parentId'' = -1"
  "compareText ''parentId'' ''slug'' = -1" "compareText ''slug'' ''status'' = -1" "compareText ''labelNo'' ''slug'' = -1"
  "compareText ''id'' ''slug'' = -1" "compareText ''slug'' ''labelNo'' = 1" "compareText ''slug'' ''aliases'' = 1"
  "compareText ''slug'' ''parentId'' = 1" "compareText ''labelNo'' ''aliases'' = 1" "compareText ''aliases'' ''parentId'' = -1"
  "compareText ''aliases'' ''status'' = -1" "compareText ''parentId'' ''status'' = -1"
  "compareText ''id'' ''aliases'' = 1" "compareText ''id'' ''parentId'' = -1" "compareText ''labelNo'' ''status'' = -1"
  by code_simp+

lemma orderJson_descriptor:
  "orderJson (descriptorJson f) = JObject
     ([(''aliases'', Some (JArray (map JString (reviewedAliases f)))), (''id'', Some (JString (reviewedId f))),
       (''labelNo'', Some (JString (reviewedLabel f)))]
      @ (case reviewedParent f of None \<Rightarrow> [] | Some p \<Rightarrow> [(''parentId'', Some (JString p))])
      @ [(''slug'', Some (JString (reviewedSlug f))), (''status'', Some (JString (statusText (reviewedStatus f))))])"
  by (cases "reviewedParent f") (simp_all add: descriptorJson_def byKey_def key_order o_def)

lemma orderJson_descriptor_inj: "orderJson (descriptorJson f) = orderJson (descriptorJson g) \<longleftrightarrow> f = g"
proof -
  have "inj JString" by (rule injI) simp
  moreover have "statusText a = statusText b \<longleftrightarrow> a = b" for a b by (cases a; cases b) simp_all
  ultimately show ?thesis
    by (cases f; cases g) (auto simp: orderJson_descriptor inj_map_eq_map split: option.splits)
qed

lemma numberFree_descriptor: "numberFree (descriptorJson f)"
  by (cases "reviewedParent f") (auto simp: descriptorJson_def list_all_iff)

text \<open>
  Two lists of family descriptors have the same canonical text exactly when they are equal: the checksum input
  leaves nothing of a descriptor out and never mixes two of them up.
\<close>

theorem canonical_content_injective:
  "canonicalizeFamilyTaxonomyContent families = canonicalizeFamilyTaxonomyContent families'
     \<longleftrightarrow> families = families'"
proof -
  have free: "numberFree (JArray (map descriptorJson fs))" for fs by (simp add: list_all_iff numberFree_descriptor)
  have "canonicalizeFamilyTaxonomyContent families = canonicalizeFamilyTaxonomyContent families'
      \<longleftrightarrow> map (orderJson \<circ> descriptorJson) families = map (orderJson \<circ> descriptorJson) families'"
    unfolding canonicalizeFamilyTaxonomyContent_def canonicalizeJson_inj [OF free free] by simp
  also have "\<dots> \<longleftrightarrow> families = families'"
    by (rule inj_map_eq_map) (auto intro: injI simp: orderJson_descriptor_inj)
  finally show ?thesis .
qed

end
