(* ===== verification/Market_Context.thy ===== *)
theory Market_Context
  imports Text_Shapes Geography
begin

text \<open>
  \<open>packages/domain/src/market-context.ts\<close>: the public market contract, national or one launch region, and the location
  it stands for.
\<close>

definition launchRegionIdSchema :: "string \<Rightarrow> bool" where
  "launchRegionIdSchema s \<longleftrightarrow>
     take 3 s = ''no-'' \<and> length (take 4 (drop 3 s)) = 4 \<and> list_all isDigit (take 4 (drop 3 s))
     \<and> take 1 (drop 7 s) = ''-'' \<and> slugShape (drop 8 s)"

datatype market_context = NationalMarket string | LaunchRegionMarket string string

text \<open>The country is the literal \<open>NO\<close>.\<close>

fun marketContextV1Schema :: "market_context \<Rightarrow> market_context option" where
  "marketContextV1Schema (NationalMarket country) = (if country = ''NO'' then Some (NationalMarket country) else None)"
| "marketContextV1Schema (LaunchRegionMarket country region) =
     (if country = ''NO'' \<and> launchRegionIdSchema region then Some (LaunchRegionMarket country region) else None)"

definition NATIONAL_MARKET_CONTEXT_V1 :: market_context where
  "NATIONAL_MARKET_CONTEXT_V1 = NationalMarket ''NO''"

fun marketContextToGeographicContext :: "market_context \<Rightarrow> geographic_context" where
  "marketContextToGeographicContext (NationalMarket country) =
     \<lparr>locationCountry = country, locationRegion = None, locationPostal = None, locationStore = None\<rparr>"
| "marketContextToGeographicContext (LaunchRegionMarket country region) =
     \<lparr>locationCountry = country, locationRegion = Some region, locationPostal = None, locationStore = None\<rparr>"

fun marketContextsEqual :: "market_context \<Rightarrow> market_context \<Rightarrow> bool" where
  "marketContextsEqual (NationalMarket c) (NationalMarket d) = (c = d)"
| "marketContextsEqual (LaunchRegionMarket c r) (LaunchRegionMarket d s) = (c = d \<and> r = s)"
| "marketContextsEqual _ _ = False"

lemma list_all_drop: "list_all P (drop n s) \<Longrightarrow> list_all P (take n s) \<Longrightarrow> list_all P s"
  by (metis append_take_drop_id list_all_append)

lemma launchRegion_chars: "launchRegionIdSchema r \<Longrightarrow> list_all (\<lambda>c. lowerAlnum c \<or> c = CHR ''-'') r"
proof -
  let ?P = "\<lambda>c. lowerAlnum c \<or> c = CHR ''-''"
  assume r: "launchRegionIdSchema r"
  have "list_all ?P (drop 8 r)"
    using r segmented_chars by (auto simp: launchRegionIdSchema_def slugShape_def)
  moreover have "list_all ?P (take 1 (drop 7 r))" using r by (simp add: launchRegionIdSchema_def)
  ultimately have "list_all ?P (drop 7 r)"
    using list_all_drop [of ?P 1 "drop 7 r"] by simp
  moreover have "list_all ?P (take 4 (drop 3 r))"
    using r by (auto simp: launchRegionIdSchema_def lowerAlnum_def list_all_iff)
  ultimately have "list_all ?P (drop 3 r)"
    using list_all_drop [of ?P 4 "drop 3 r"] by simp
  moreover have "list_all ?P (take 3 r)" using r by (simp add: launchRegionIdSchema_def lowerAlnum_def)
  ultimately show ?thesis by (rule list_all_drop)
qed

lemma launchRegion_trim: "launchRegionIdSchema r \<Longrightarrow> trim r = r"
proof (rule trim_no_space)
  have "\<not> isJsSpace c" if "lowerAlnum c \<or> c = CHR ''-''" for c
    using that by (auto simp: lowerAlnum_def isJsSpace_def isDigit_def less_eq_char_def Let_def)
  then show "list_all (\<lambda>c. \<not> isJsSpace c) r" if "launchRegionIdSchema r"
    using launchRegion_chars [OF that] by (auto simp: list_all_iff)
qed

lemma launchRegion_length: "launchRegionIdSchema r \<Longrightarrow> 9 \<le> length r"
  by (auto simp: launchRegionIdSchema_def slugShape_def dest: segmented_not_Nil)

text \<open>
  The location of an admitted market has no postal code and no store, and is admitted unchanged by the location
  schema unless a region identifier is longer than the 200 code units that schema allows; markets with the same
  location are the same market, and \<open>marketContextsEqual\<close> decides that.
\<close>

theorem market_location:
  assumes "marketContextV1Schema market = Some market" and "marketContextV1Schema market' = Some market'"
  shows "locationPostal (marketContextToGeographicContext market) = None
    \<and> locationStore (marketContextToGeographicContext market) = None
    \<and> geographicContextSchema (marketContextToGeographicContext market) =
        (case market of
           NationalMarket _ \<Rightarrow> Some (marketContextToGeographicContext market)
         | LaunchRegionMarket _ region \<Rightarrow>
             if length region \<le> 200 then Some (marketContextToGeographicContext market) else None)
    \<and> (marketContextToGeographicContext market = marketContextToGeographicContext market' \<longleftrightarrow> market = market')
    \<and> (marketContextsEqual market market' \<longleftrightarrow> market = market')"
proof -
  have "countryCodeSchema ''NO''" by code_simp
  moreover have "identifierSchema r = (if length r \<le> 200 then Some r else None)" if "launchRegionIdSchema r" for r
    using launchRegion_trim [OF that] launchRegion_length [OF that]
    by (simp add: identifierSchema_def boundedText_def Let_def)
  ultimately show ?thesis
    using assms by (cases market; cases market') (auto simp: geographicContextSchema_def split: if_splits)
qed

theorem market_location_witness:
  "geographicContextSchema (marketContextToGeographicContext (LaunchRegionMarket ''NO'' ''no-5001-trondheim''))
     = Some (marketContextToGeographicContext (LaunchRegionMarket ''NO'' ''no-5001-trondheim''))"
proof -
  have "marketContextV1Schema (LaunchRegionMarket ''NO'' ''no-5001-trondheim'') = Some (LaunchRegionMarket ''NO'' ''no-5001-trondheim'')"
    by code_simp
  from market_location [OF this this] show ?thesis by simp
qed

end
