(* ===== verification/Plan_Contracts.thy ===== *)
theory Plan_Contracts
  imports Contract_Primitives
begin

text \<open>
  \<open>packages/domain/src/plan-contracts.ts\<close>: plan objectives, the travel result attached to a plan, and the explanation of
  a plan.
\<close>

record plan_objectives =
  savingsWeightBasisPoints :: int
  convenienceWeightBasisPoints :: int
  objectiveMaxStores :: int
  includeTravel :: bool

definition planObjectivesSchema :: "plan_objectives \<Rightarrow> plan_objectives option" where
  "planObjectivesSchema p =
     (if basisPoints (savingsWeightBasisPoints p) \<and> basisPoints (convenienceWeightBasisPoints p)
         \<and> objectiveMaxStores p \<in> {1, 2, 3}
         \<and> savingsWeightBasisPoints p + convenienceWeightBasisPoints p = 10000
      then Some p else None)"

datatype travel_failure = TravelProviderUnavailable | TravelNoRoute | TravelInvalidLocation | TravelTimeout

record calculated_travel =
  travelDuration :: int
  travelDistance :: int
  travelProvider :: string
  travelCalculatedAt :: string
  travelFingerprint :: string

datatype travel_result = NotRequestedTravel | UnavailableTravel travel_failure | CalculatedTravel calculated_travel

definition travelCalculatedSchema :: "calculated_travel \<Rightarrow> calculated_travel option" where
  "travelCalculatedSchema t =
     (case (identifierSchema (travelProvider t), identifierSchema (travelFingerprint t)) of
        (Some p, Some f) \<Rightarrow>
          (if nonNegativeSafeInteger (travelDuration t) \<and> nonNegativeSafeInteger (travelDistance t)
              \<and> canonicalTimestamp (travelCalculatedAt t)
           then Some (t\<lparr>travelProvider := p, travelFingerprint := f\<rparr>) else None)
      | _ \<Rightarrow> None)"

fun travelResultSchema :: "travel_result \<Rightarrow> travel_result option" where
  "travelResultSchema (CalculatedTravel t) = map_option CalculatedTravel (travelCalculatedSchema t)"
| "travelResultSchema r = Some r"

datatype explanation_kind = SavingsKind | ConvenienceKind | CoverageKind | SubstitutionKind | SurplusKind | TravelKind

definition evidenceBackedExplanationKinds :: "explanation_kind list" where
  "evidenceBackedExplanationKinds = [SavingsKind, CoverageKind, TravelKind]"

record plan_explanation =
  explanationKind :: explanation_kind
  explanationMessage :: string
  explanationEvidenceIds :: "string list"

definition planExplanationSchema :: "plan_explanation \<Rightarrow> plan_explanation option" where
  "planExplanationSchema e =
     (case (nonEmptyStringSchema (explanationMessage e), parseAll identifierSchema (explanationEvidenceIds e)) of
        (Some message, Some ids) \<Rightarrow>
          (if hasUniqueStrings ids \<and> \<not> (explanationKind e \<in> set evidenceBackedExplanationKinds \<and> length ids = 0)
           then Some (e\<lparr>explanationMessage := message, explanationEvidenceIds := ids\<rparr>) else None)
      | _ \<Rightarrow> None)"

lemma travelCalculatedSchema_iff [schema_simps]:
  "travelCalculatedSchema t = Some u \<longleftrightarrow>
     (\<exists>p f. identifierSchema (travelProvider t) = Some p \<and> identifierSchema (travelFingerprint t) = Some f
       \<and> nonNegativeSafeInteger (travelDuration t) \<and> nonNegativeSafeInteger (travelDistance t)
       \<and> canonicalTimestamp (travelCalculatedAt t) \<and> u = t\<lparr>travelProvider := p, travelFingerprint := f\<rparr>)"
  by (auto simp: travelCalculatedSchema_def split: option.splits)

lemma travelCalculatedSchema_idem: "travelCalculatedSchema t = Some u \<Longrightarrow> travelCalculatedSchema u = Some u"
proof -
  assume a: "travelCalculatedSchema t = Some u"
  then obtain p f where "identifierSchema (travelProvider t) = Some p" "identifierSchema (travelFingerprint t) = Some f"
    and u: "u = t\<lparr>travelProvider := p, travelFingerprint := f\<rparr>"
    by (auto simp: travelCalculatedSchema_iff)
  then have "identifierSchema p = Some p" "identifierSchema f = Some f" using identifierSchema_idem by blast+
  with a u show ?thesis by (auto simp: travelCalculatedSchema_iff)
qed

lemma travelResultSchema_idem: "travelResultSchema t = Some u \<Longrightarrow> travelResultSchema u = Some u"
  by (cases t) (auto dest: travelCalculatedSchema_idem)

lemma planExplanationSchema_idem:
  assumes "planExplanationSchema e = Some f"
  shows "planExplanationSchema f = Some f"
proof -
  obtain m ids where p: "nonEmptyStringSchema (explanationMessage e) = Some m"
    "parseAll identifierSchema (explanationEvidenceIds e) = Some ids"
    and f: "f = e\<lparr>explanationMessage := m, explanationEvidenceIds := ids\<rparr>"
    "hasUniqueStrings ids \<and> \<not> (explanationKind e \<in> set evidenceBackedExplanationKinds \<and> length ids = 0)"
    using assms by (auto simp: planExplanationSchema_def split: option.splits if_splits)
  have "nonEmptyStringSchema m = Some m" "parseAll identifierSchema ids = Some ids"
    using p by (auto intro: text_schema_idem parseAll_idem)
  with f show ?thesis by (simp add: planExplanationSchema_def)
qed

lemma planExplanationSchema_ids:
  "planExplanationSchema e = Some f \<Longrightarrow>
     hasUniqueStrings (explanationEvidenceIds f)
     \<and> (explanationKind f \<in> set evidenceBackedExplanationKinds \<longrightarrow> explanationEvidenceIds f \<noteq> [])"
  by (auto simp: planExplanationSchema_def split: option.splits if_splits)

end
