(* ===== verification/Frontier_Core.thy ===== *)
theory Frontier_Core
  imports Plan_Contracts Contracts
begin

text \<open>
  The operations \<open>packages/domain/src/frontier.ts\<close> and \<open>frontier-v2.ts\<close> share word for word, over what they read of a
  plan: its identifier, total, number of chains, number of substitutions and travel. Each module supplies its plan type
  through a view, its candidate parser, and its way to attach travel.
\<close>

record 'p plan_view =
  viewId :: "'p \<Rightarrow> string"
  viewTotal :: "'p \<Rightarrow> int"
  viewStores :: "'p \<Rightarrow> int"
  viewSwaps :: "'p \<Rightarrow> int"
  viewTravel :: "'p \<Rightarrow> calculated_travel option"

definition isExactIdentifier :: "string \<Rightarrow> bool" where
  "isExactIdentifier s \<longleftrightarrow> identifierSchema s = Some s"

text \<open>The chain order of both modules.\<close>

fun frontierChainOrder :: "chain \<Rightarrow> int" where
  "frontierChainOrder Bunnpris = 0"
| "frontierChainOrder Extra = 1"
| "frontierChainOrder Rema1000 = 2"
| "frontierChainOrder Fudi = 3"
| "frontierChainOrder Holdbart = 4"
| "frontierChainOrder Meny = 5"
| "frontierChainOrder Havaristen = 6"
| "frontierChainOrder Joker = 7"
| "frontierChainOrder Spar = 8"
| "frontierChainOrder Fastcandy = 9"
| "frontierChainOrder Europris = 10"
| "frontierChainOrder Engrossnett = 11"
| "frontierChainOrder Oda = 12"

section \<open>Candidates\<close>

text \<open>A candidate of unknown shape; a shaped one has an identifier, and so may a malformed one.\<close>

datatype 'p candidate = MalformedCandidate "string option" | ShapedCandidate 'p "travel_result unknown option"

fun rawId :: "('p \<Rightarrow> string) \<Rightarrow> 'p candidate \<Rightarrow> string option" where
  "rawId ident (MalformedCandidate i) = i"
| "rawId ident (ShapedCandidate p t) = Some (ident p)"

definition countId :: "('p \<Rightarrow> string) \<Rightarrow> 'p candidate \<Rightarrow> (string \<times> nat) list \<Rightarrow> (string \<times> nat) list" where
  "countId ident c counts =
     (case rawId ident c of
        None \<Rightarrow> counts
      | Some i \<Rightarrow>
          if \<not> isExactIdentifier i then counts
          else AList.update i ((case map_of counts i of None \<Rightarrow> 0 | Some n \<Rightarrow> n) + 1) counts)"

definition canonicalCandidatesBy ::
    "('q \<Rightarrow> string) \<Rightarrow> 'p plan_view \<Rightarrow> ('q candidate \<Rightarrow> 'p option) \<Rightarrow> 'q candidate list \<Rightarrow> 'p list" where
  "canonicalCandidatesBy ident v parse candidates =
     (let rawIdCounts = fold (countId ident) candidates []
      in filter (\<lambda>p. map_of rawIdCounts (viewId v p) = Some 1) (List.map_filter parse candidates))"

section \<open>Comparing plans\<close>

definition hasTravel :: "'p plan_view \<Rightarrow> 'p \<Rightarrow> bool" where
  "hasTravel v p \<longleftrightarrow> viewTravel v p \<noteq> None"

definition dominatesBy :: "'p plan_view \<Rightarrow> 'p \<Rightarrow> 'p \<Rightarrow> bool" where
  "dominatesBy v left right =
     (if hasTravel v left \<noteq> hasTravel v right then False
      else
        (let noWorse = viewTotal v left \<le> viewTotal v right \<and> viewStores v left \<le> viewStores v right
               \<and> viewSwaps v left \<le> viewSwaps v right
               \<and> (case (viewTravel v left, viewTravel v right) of
                    (Some l, Some r) \<Rightarrow> travelDuration l \<le> travelDuration r | _ \<Rightarrow> True);
             strictlyBetter = viewTotal v left < viewTotal v right \<or> viewStores v left < viewStores v right
               \<or> viewSwaps v left < viewSwaps v right
               \<or> (case (viewTravel v left, viewTravel v right) of
                    (Some l, Some r) \<Rightarrow> travelDuration l < travelDuration r | _ \<Rightarrow> False)
         in noWorse \<and> strictlyBetter))"

definition compareTravel :: "'p plan_view \<Rightarrow> 'p \<Rightarrow> 'p \<Rightarrow> int" where
  "compareTravel v left right =
     (case (viewTravel v left, viewTravel v right) of
        (Some l, Some r) \<Rightarrow> compareNumber (travelDuration l) (travelDuration r) | _ \<Rightarrow> 0)"

definition compareConvenienceBy :: "'p plan_view \<Rightarrow> 'p \<Rightarrow> 'p \<Rightarrow> int" where
  "compareConvenienceBy v left right =
     js_or (compareNumber (viewStores v left) (viewStores v right))
     (js_or (compareTravel v left right)
     (js_or (compareNumber (viewTotal v left) (viewTotal v right))
     (js_or (compareNumber (viewSwaps v left) (viewSwaps v right))
       (compareText (viewId v left) (viewId v right)))))"

definition compareSavingsBy :: "'p plan_view \<Rightarrow> 'p \<Rightarrow> 'p \<Rightarrow> int" where
  "compareSavingsBy v left right =
     js_or (compareNumber (viewTotal v left) (viewTotal v right))
     (js_or (compareTravel v left right)
     (js_or (compareNumber (viewSwaps v left) (viewSwaps v right))
     (js_or (compareNumber (viewStores v left) (viewStores v right))
       (compareText (viewId v left) (viewId v right)))))"

definition compareMiddleBy :: "'p plan_view \<Rightarrow> 'p \<Rightarrow> 'p \<Rightarrow> int" where
  "compareMiddleBy v left right =
     js_or (compareNumber (viewStores v left) (viewStores v right))
     (js_or (compareTravel v left right)
     (js_or (compareNumber (viewTotal v right) (viewTotal v left))
     (js_or (compareNumber (viewSwaps v left) (viewSwaps v right))
       (compareText (viewId v left) (viewId v right)))))"

section \<open>Order and frontier\<close>

definition orderCohortBy :: "'p plan_view \<Rightarrow> 'p list \<Rightarrow> 'p list" where
  "orderCohortBy v candidates =
     (if length candidates < 2 then candidates
      else
        (let convenience = hd (sort_by (compareConvenienceBy v) candidates);
             savings = hd (sort_by (compareSavingsBy v) candidates);
             middle = sort_by (compareMiddleBy v)
               (filter (\<lambda>c. viewId v c \<noteq> viewId v convenience \<and> viewId v c \<noteq> viewId v savings) candidates)
         in if viewId v convenience = viewId v savings
            then convenience # sort_by (compareMiddleBy v) (filter (\<lambda>c. viewId v c \<noteq> viewId v convenience) candidates)
            else [convenience] @ middle @ [savings]))"

definition orderCandidatesBy :: "'p plan_view \<Rightarrow> 'p list \<Rightarrow> 'p list" where
  "orderCandidatesBy v candidates =
     (let priceOnly = filter (\<lambda>c. \<not> hasTravel v c) candidates;
          travelBacked = filter (hasTravel v) candidates
      in orderCohortBy v priceOnly @ orderCohortBy v travelBacked)"

definition paretoBy :: "'p plan_view \<Rightarrow> 'p list \<Rightarrow> 'p list" where
  "paretoBy v valid =
     orderCandidatesBy v
       (filter (\<lambda>c. \<not> list_ex (\<lambda>b. viewId v b \<noteq> viewId v c \<and> dominatesBy v b c) valid) valid)"

section \<open>Attaching travel\<close>

datatype travel_entry = MalformedEntry | TravelEntry string "travel_result unknown"

fun collectTravel ::
    "(travel_result unknown \<Rightarrow> calculated_travel option) \<Rightarrow> string list \<Rightarrow> travel_entry list
     \<Rightarrow> (string \<times> calculated_travel) list \<Rightarrow> (string \<times> calculated_travel) list option" where
  "collectTravel parse planIds [] m = Some m"
| "collectTravel parse planIds (MalformedEntry # es) m = None"
| "collectTravel parse planIds (TravelEntry i t # es) m =
     (if \<not> isExactIdentifier i then None
      else if i \<notin> set planIds \<or> map_of m i \<noteq> None then None
      else (case parse t of
              None \<Rightarrow> None
            | Some travel \<Rightarrow> collectTravel parse planIds es (AList.update i travel m)))"

text \<open>An absent or non-array evidence argument is \<open>None\<close>.\<close>

definition attachBy ::
    "'p plan_view \<Rightarrow> (travel_result unknown \<Rightarrow> calculated_travel option) \<Rightarrow> ('p \<Rightarrow> calculated_travel \<Rightarrow> 'p)
     \<Rightarrow> 'p list \<Rightarrow> travel_entry list option \<Rightarrow> 'p list" where
  "attachBy v parse attach validPlans travelEvidence =
     (let priceOnly = orderCandidatesBy v validPlans
      in case travelEvidence of
           None \<Rightarrow> priceOnly
         | Some entries \<Rightarrow>
             if length entries \<noteq> length validPlans then priceOnly
             else (case collectTravel parse (map (viewId v) validPlans) entries [] of
                None \<Rightarrow> priceOnly
              | Some travelByPlanId \<Rightarrow>
                  if length travelByPlanId \<noteq> length validPlans then priceOnly
                  else orderCandidatesBy v
                    (map (\<lambda>plan. attach plan (the (map_of travelByPlanId (viewId v plan)))) validPlans)))"

section \<open>Representatives\<close>

definition distanceFromSelected :: "nat \<Rightarrow> nat list \<Rightarrow> int" where
  "distanceFromSelected index selected =
     (case map (\<lambda>chosen. \<bar>int chosen - int index\<bar>) selected of [] \<Rightarrow> 0 | d # ds \<Rightarrow> foldl min d ds)"

definition addIndex :: "nat \<Rightarrow> nat list \<Rightarrow> nat list" where
  "addIndex i selected = (if i \<in> set selected then selected else selected @ [i])"

definition farthest :: "nat list \<Rightarrow> nat list \<Rightarrow> nat option" where
  "farthest selected indices =
     first_by (\<lambda>left right. js_or (distanceFromSelected right selected - distanceFromSelected left selected)
       (int left - int right)) indices"

fun selectStores :: "'p plan_view \<Rightarrow> 'p list \<Rightarrow> nat \<Rightarrow> int list \<Rightarrow> nat list \<Rightarrow> nat list" where
  "selectStores v ordered maximum [] selected = selected"
| "selectStores v ordered maximum (storeCount # counts) selected =
     (if length selected \<ge> maximum then selected
      else if list_ex (\<lambda>index. viewStores v (ordered ! index) = storeCount) selected
      then selectStores v ordered maximum counts selected
      else (case farthest selected
                   (filter (\<lambda>index. viewStores v (ordered ! index) = storeCount) [0 ..< length ordered]) of
              None \<Rightarrow> selectStores v ordered maximum counts selected
            | Some representative \<Rightarrow> selectStores v ordered maximum counts (addIndex representative selected)))"

text \<open>The \<open>while\<close> loop: it adds an index that is not selected, or stops.\<close>

function fillSelected :: "nat \<Rightarrow> nat \<Rightarrow> nat list \<Rightarrow> nat list" where
  "fillSelected available maximum selected =
     (if length selected < maximum then
        (case farthest selected (filter (\<lambda>index. index \<notin> set selected) [0 ..< available]) of
           None \<Rightarrow> selected
         | Some next \<Rightarrow> fillSelected available maximum (addIndex next selected))
      else selected)"
  by pat_completeness auto
termination
proof (relation "measure (\<lambda>(available, maximum, selected). maximum - length selected)")
  fix available maximum selected i
  assume a: "length selected < maximum" and "farthest selected (filter (\<lambda>index. index \<notin> set selected) [0 ..< available]) = Some i"
  then have "i \<notin> set selected" unfolding farthest_def by (auto dest: first_by_in)
  with a show "((available, maximum, addIndex i selected), available, maximum, selected) \<in> measure (\<lambda>(available, maximum, selected). maximum - length selected)"
    by (simp add: addIndex_def)
qed simp

declare fillSelected.simps [simp del]

text \<open>\<open>maximum\<close> may be any number; only the integers from 1 to 7 are accepted.\<close>

definition projectBy :: "'p plan_view \<Rightarrow> 'p list \<Rightarrow> rat \<Rightarrow> 'p list" where
  "projectBy v ordered maximum =
     (if of_int \<lfloor>maximum\<rfloor> \<noteq> maximum \<or> maximum < 1 \<or> maximum > 7 then []
      else
        (let limit = nat \<lfloor>maximum\<rfloor>
         in if length ordered \<le> limit then ordered
            else if limit = 1 then [ordered ! 0]
            else
              (let storeCounts = sort_by compareNumber (uniq (map (viewStores v) ordered));
                   selected = selectStores v ordered limit storeCounts [0, length ordered - 1]
               in map (\<lambda>index. ordered ! index)
                    (sort_by (\<lambda>l r. compareNumber (int l) (int r)) (fillSelected (length ordered) limit selected)))))"

section \<open>Dominance and order\<close>

interpretation view_dominance: dominance "dominatesBy v" for v :: "'p plan_view"
proof
  show "\<not> dominatesBy v x x" for x
    by (auto simp: dominatesBy_def Let_def split: option.splits)
  show "dominatesBy v x z" if "dominatesBy v x y" "dominatesBy v y z" for x y z
    using that
    by (cases "viewTravel v x"; cases "viewTravel v y"; cases "viewTravel v z")
      (auto simp: dominatesBy_def hasTravel_def Let_def)
qed

text \<open>Within a cohort, where either all plans have travel or none has, the comparisons are comparators.\<close>

definition travelKey :: "'p plan_view \<Rightarrow> 'p \<Rightarrow> int" where
  "travelKey v p = (case viewTravel v p of None \<Rightarrow> 0 | Some t \<Rightarrow> travelDuration t)"

definition cohort :: "'p plan_view \<Rightarrow> 'p list \<Rightarrow> bool" where
  "cohort v cs \<longleftrightarrow> (\<forall>p \<in> set cs. \<forall>q \<in> set cs. hasTravel v p = hasTravel v q)"

definition convenienceKey :: "'p plan_view \<Rightarrow> 'p cmp" where
  "convenienceKey v = (\<lambda>left right. js_or (compareNumber (viewStores v left) (viewStores v right))
     (js_or (compareNumber (travelKey v left) (travelKey v right))
     (js_or (compareNumber (viewTotal v left) (viewTotal v right))
     (js_or (compareNumber (viewSwaps v left) (viewSwaps v right))
       (compareText (viewId v left) (viewId v right))))))"

definition savingsKey :: "'p plan_view \<Rightarrow> 'p cmp" where
  "savingsKey v = (\<lambda>left right. js_or (compareNumber (viewTotal v left) (viewTotal v right))
     (js_or (compareNumber (travelKey v left) (travelKey v right))
     (js_or (compareNumber (viewSwaps v left) (viewSwaps v right))
     (js_or (compareNumber (viewStores v left) (viewStores v right))
       (compareText (viewId v left) (viewId v right))))))"

interpretation by_convenience: comparator "convenienceKey v" for v :: "'p plan_view"
  unfolding convenienceKey_def by (intro comparator_intros)

interpretation by_savings: comparator "savingsKey v" for v :: "'p plan_view"
  unfolding savingsKey_def by (intro comparator_intros)

lemma compareTravel_cohort:
  "hasTravel v x = hasTravel v y \<Longrightarrow> compareTravel v x y = compareNumber (travelKey v x) (travelKey v y)"
  by (auto simp: compareTravel_def travelKey_def hasTravel_def compareNumber_def split: option.splits)

lemma cohort_convenience: "cohort v cs \<Longrightarrow> sort_by (compareConvenienceBy v) cs = sort_by (convenienceKey v) cs"
proof (rule sort_by_cong)
  fix x y assume "cohort v cs" and "x \<in> set cs" "y \<in> set cs"
  then have "hasTravel v x = hasTravel v y" unfolding cohort_def by blast
  then show "compareConvenienceBy v x y = convenienceKey v x y"
    by (simp only: compareConvenienceBy_def convenienceKey_def compareTravel_cohort)
qed

lemma cohort_savings: "cohort v cs \<Longrightarrow> sort_by (compareSavingsBy v) cs = sort_by (savingsKey v) cs"
proof (rule sort_by_cong)
  fix x y assume "cohort v cs" and "x \<in> set cs" "y \<in> set cs"
  then have "hasTravel v x = hasTravel v y" unfolding cohort_def by blast
  then show "compareSavingsBy v x y = savingsKey v x y"
    by (simp only: compareSavingsBy_def savingsKey_def compareTravel_cohort)
qed

lemma hd_sort_by_in: "xs \<noteq> [] \<Longrightarrow> hd (sort_by cmp xs) \<in> set xs"
  by (metis hd_in_set set_sort_by sort_by_Nil_iff)

lemma filter_out:
  assumes "distinct (map f xs)" and "x \<in> set xs"
  shows "mset xs = add_mset x (mset (filter (\<lambda>y. f y \<noteq> f x) xs))"
  using assms
proof (induction xs)
  case (Cons y xs)
  show ?case
  proof (cases "x = y")
    case True
    then have "filter (\<lambda>z. f z \<noteq> f x) xs = xs" using Cons.prems by (auto simp: filter_id_conv) (metis imageI)
    with True show ?thesis by simp
  next
    case False
    then have "x \<in> set xs" "f y \<noteq> f x" using Cons.prems by auto
    with Cons show ?thesis by (simp add: add_mset_commute)
  qed
qed simp

text \<open>Ordering a cohort permutes it; the most convenient plan comes first and the cheapest last.\<close>

lemma orderCohort_mset:
  assumes "distinct (map (viewId v) cs)"
  shows "mset (orderCohortBy v cs) = mset cs"
proof (cases "length cs < 2")
  case False
  then have ne: "cs \<noteq> []" by auto
  define c where "c = hd (sort_by (compareConvenienceBy v) cs)"
  define s where "s = hd (sort_by (compareSavingsBy v) cs)"
  have c: "c \<in> set cs" and s: "s \<in> set cs" unfolding c_def s_def using ne by (simp_all add: hd_sort_by_in)
  have m: "mset cs = add_mset c (mset (filter (\<lambda>y. viewId v y \<noteq> viewId v c) cs))"
    by (rule filter_out [OF assms c])
  show ?thesis
  proof (cases "viewId v c = viewId v s")
    case True
    with False m show ?thesis by (simp add: orderCohortBy_def Let_def flip: c_def s_def)
  next
    case neq: False
    let ?rest = "filter (\<lambda>y. viewId v y \<noteq> viewId v c) cs"
    have "distinct (map (viewId v) ?rest)" using assms by (simp add: distinct_map_filter)
    moreover have "s \<in> set ?rest" using s neq by simp
    ultimately have "mset ?rest = add_mset s (mset (filter (\<lambda>y. viewId v y \<noteq> viewId v s) ?rest))" by (rule filter_out)
    also have "filter (\<lambda>y. viewId v y \<noteq> viewId v s) ?rest
        = filter (\<lambda>y. viewId v y \<noteq> viewId v c \<and> viewId v y \<noteq> viewId v s) cs"
      by (simp add: conj_commute)
    finally have rest: "mset ?rest = add_mset s (mset (filter (\<lambda>y. viewId v y \<noteq> viewId v c \<and> viewId v y \<noteq> viewId v s) cs))" .
    have "orderCohortBy v cs = c # sort_by (compareMiddleBy v)
        (filter (\<lambda>y. viewId v y \<noteq> viewId v c \<and> viewId v y \<noteq> viewId v s) cs) @ [s]"
      using False neq by (simp add: orderCohortBy_def Let_def flip: c_def s_def)
    then show ?thesis unfolding m rest by simp
  qed
qed (simp add: orderCohortBy_def)

lemma orderCandidates_mset:
  assumes "distinct (map (viewId v) cs)"
  shows "mset (orderCandidatesBy v cs) = mset cs"
proof -
  have "mset cs = mset (filter (hasTravel v) cs) + mset (filter (\<lambda>c. \<not> hasTravel v c) cs)"
    by (induction cs) auto
  then show ?thesis
    using assms by (simp add: orderCandidatesBy_def Let_def orderCohort_mset distinct_map_filter)
qed

lemma orderCandidates_set: "distinct (map (viewId v) cs) \<Longrightarrow> set (orderCandidatesBy v cs) = set cs"
  by (rule mset_eq_setD [OF orderCandidates_mset])

lemma orderCandidates_distinct:
  assumes "distinct (map (viewId v) cs)"
  shows "distinct (map (viewId v) (orderCandidatesBy v cs))"
proof -
  have "mset (map (viewId v) (orderCandidatesBy v cs)) = mset (map (viewId v) cs)"
    using orderCandidates_mset [OF assms] by simp
  with assms show ?thesis using mset_eq_imp_distinct_iff by blast
qed

lemma orderCandidates_length: "distinct (map (viewId v) cs) \<Longrightarrow> length (orderCandidatesBy v cs) = length cs"
  by (rule mset_eq_length [OF orderCandidates_mset])

lemma orderCohort_ends:
  assumes "cohort v cs" and "distinct (map (viewId v) cs)" and "p \<in> set cs"
  shows "convenienceKey v (hd (orderCohortBy v cs)) p \<le> 0"
    and "savingsKey v (hd (orderCohortBy v cs)) p \<le> 0 \<or> savingsKey v (last (orderCohortBy v cs)) p \<le> 0"
proof -
  define c where "c = hd (sort_by (compareConvenienceBy v) cs)"
  define s where "s = hd (sort_by (compareSavingsBy v) cs)"
  have ne: "cs \<noteq> []" using assms(3) by auto
  have hdc: "sort_by (convenienceKey v) cs = c # tl (sort_by (convenienceKey v) cs)"
    unfolding c_def cohort_convenience [OF assms(1)] using ne by simp
  have hds: "sort_by (savingsKey v) cs = s # tl (sort_by (savingsKey v) cs)"
    unfolding s_def cohort_savings [OF assms(1)] using ne by simp
  have min: "convenienceKey v c p \<le> 0" "savingsKey v s p \<le> 0"
    using by_convenience.sort_by_hd_min [OF hdc assms(3)] by_savings.sort_by_hd_min [OF hds assms(3)] by simp_all
  have "hd (orderCohortBy v cs) = c \<and> (last (orderCohortBy v cs) = s \<or> hd (orderCohortBy v cs) = s)"
  proof (cases "length cs < 2")
    case True
    then obtain x where "cs = [x]" using ne by (cases cs) auto
    then show ?thesis by (simp add: orderCohortBy_def c_def s_def)
  next
    case False
    have "c \<in> set cs" "s \<in> set cs" unfolding c_def s_def using ne by (simp_all add: hd_sort_by_in)
    then have "viewId v c = viewId v s \<Longrightarrow> c = s" using assms(2) by (metis inj_onD distinct_map)
    with False show ?thesis by (simp add: orderCohortBy_def Let_def flip: c_def s_def)
  qed
  with min show "convenienceKey v (hd (orderCohortBy v cs)) p \<le> 0"
    and "savingsKey v (hd (orderCohortBy v cs)) p \<le> 0 \<or> savingsKey v (last (orderCohortBy v cs)) p \<le> 0" by auto
qed

text \<open>The frontier holds the candidates nothing dominates.\<close>

lemma pareto_filter:
  assumes "distinct (map (viewId v) valid)"
  shows "filter (\<lambda>c. \<not> list_ex (\<lambda>b. viewId v b \<noteq> viewId v c \<and> dominatesBy v b c) valid) valid
    = nonDominated (dominatesBy v) valid"
  unfolding nonDominated_def
proof (rule filter_cong)
  fix c assume c: "c \<in> set valid"
  have "viewId v b \<noteq> viewId v c \<longleftrightarrow> b \<noteq> c" if "b \<in> set valid" for b
    using that c assms by (metis distinct_map inj_on_eq_iff)
  then show "(\<not> list_ex (\<lambda>b. viewId v b \<noteq> viewId v c \<and> dominatesBy v b c) valid)
      = (\<not> list_ex (\<lambda>b. b \<noteq> c \<and> dominatesBy v b c) valid)"
    by (auto simp: list_ex_iff)
qed simp

lemma pareto_eq: "distinct (map (viewId v) valid) \<Longrightarrow> paretoBy v valid = orderCandidatesBy v (nonDominated (dominatesBy v) valid)"
  by (simp add: paretoBy_def pareto_filter)

lemma pareto_mem:
  assumes "distinct (map (viewId v) valid)"
  shows "p \<in> set (paretoBy v valid) \<longleftrightarrow> p \<in> set valid \<and> (\<forall>q \<in> set valid. \<not> dominatesBy v q p)"
  using view_dominance.distinct_nonDominated [OF assms] 
  by (simp add: pareto_eq [OF assms] orderCandidates_set view_dominance.nonDominated_iff)

lemma pareto_distinct: "distinct (map (viewId v) valid) \<Longrightarrow> distinct (map (viewId v) (paretoBy v valid))"
  by (simp add: pareto_eq orderCandidates_distinct view_dominance.distinct_nonDominated)

lemma pareto_covers:
  assumes "distinct (map (viewId v) valid)" and "p \<in> set valid"
  shows "\<exists>q \<in> set (paretoBy v valid). q = p \<or> dominatesBy v q p"
  using view_dominance.nonDominated_covers [OF assms(2)]
  by (simp add: pareto_eq [OF assms(1)] orderCandidates_set view_dominance.distinct_nonDominated [OF assms(1)])

section \<open>Representatives\<close>

definition storesHit :: "'p plan_view \<Rightarrow> 'p list \<Rightarrow> nat list \<Rightarrow> int set" where
  "storesHit v ordered selected = (\<lambda>i. viewStores v (ordered ! i)) ` set selected"

lemma farthest_in: "farthest selected indices = Some i \<Longrightarrow> i \<in> set indices"
  unfolding farthest_def by (rule first_by_in)

lemma farthest_None: "farthest selected indices = None \<longleftrightarrow> indices = []"
  by (simp add: farthest_def)

definition validSelection :: "nat \<Rightarrow> nat list \<Rightarrow> nat list \<Rightarrow> bool" where
  "validSelection n start selected \<longleftrightarrow>
     distinct selected \<and> (\<forall>i \<in> set selected. i < n) \<and> set start \<subseteq> set selected"

lemma selectStores_spec:
  assumes "validSelection (length ordered) start selected" and "length selected \<le> maximum"
  shows "let r = selectStores v ordered maximum counts selected in validSelection (length ordered) start r \<and> length r \<le> maximum
    \<and> length r + card (storesHit v ordered selected) \<le> length selected + card (storesHit v ordered r)
    \<and> storesHit v ordered selected \<subseteq> storesHit v ordered r
    \<and> (length r < maximum \<longrightarrow> set counts \<inter> viewStores v ` set ordered \<subseteq> storesHit v ordered r)"
  using assms unfolding Let_def
proof (induction counts arbitrary: selected)
  case (Cons c counts)
  show ?case
  proof (cases "length selected \<ge> maximum")
    case True
    with Cons.prems show ?thesis by simp
  next
    case False
    show ?thesis
    proof (cases "c \<in> storesHit v ordered selected")
      case True
      then have "selectStores v ordered maximum (c # counts) selected = selectStores v ordered maximum counts selected"
        using False by (auto simp: list_ex_iff storesHit_def)
      with Cons True show ?thesis by auto
    next
      case new: False
      let ?cands = "filter (\<lambda>i. viewStores v (ordered ! i) = c) [0 ..< length ordered]"
      have unmet: "\<not> list_ex (\<lambda>index. viewStores v (ordered ! index) = c) selected"
        using new by (auto simp: list_ex_iff storesHit_def)
      show ?thesis
      proof (cases "farthest selected ?cands")
        case None
        then have "c \<notin> viewStores v ` set ordered"
          by (force simp: farthest_None filter_empty_conv in_set_conv_nth)
        with None Cons False unmet show ?thesis by auto
      next
        case (Some i)
        have i: "i < length ordered" "viewStores v (ordered ! i) = c" using farthest_in [OF Some] by auto
        have fresh: "i \<notin> set selected" using new i by (auto simp: storesHit_def)
        let ?sel = "addIndex i selected"
        have sel: "?sel = selected @ [i]" using fresh by (simp add: addIndex_def)
        have hit: "storesHit v ordered ?sel = insert c (storesHit v ordered selected)"
          using i by (auto simp: sel storesHit_def)
        have "card (storesHit v ordered ?sel) = Suc (card (storesHit v ordered selected))"
          unfolding hit using new by (simp add: storesHit_def)
        moreover have "validSelection (length ordered) start ?sel" "length ?sel \<le> maximum"
          using Cons.prems i fresh False by (auto simp: validSelection_def sel)
        moreover have "selectStores v ordered maximum (c # counts) selected = selectStores v ordered maximum counts ?sel"
          using False unmet Some by simp
        ultimately show ?thesis using Cons.IH [of ?sel] hit sel by auto
      qed
    qed
  qed
qed simp

lemma fillSelected_spec:
  "validSelection n start selected \<Longrightarrow> length selected \<le> maximum \<Longrightarrow> maximum \<le> n \<Longrightarrow>
     validSelection n start (fillSelected n maximum selected)
     \<and> length (fillSelected n maximum selected) = maximum
     \<and> set selected \<subseteq> set (fillSelected n maximum selected)"
proof (induction n maximum selected rule: fillSelected.induct)
  case (1 n maximum selected)
  show ?case
  proof (cases "length selected < maximum")
    case True
    have "card (set selected) < n"
      using True "1.prems" by (simp add: validSelection_def distinct_card)
    then have "\<not> {..<n} \<subseteq> set selected" by (metis card_lessThan card_mono finite_set leD)
    then have "filter (\<lambda>i. i \<notin> set selected) [0 ..< n] \<noteq> []" by (auto simp: filter_empty_conv)
    then obtain i where i: "farthest selected (filter (\<lambda>i. i \<notin> set selected) [0 ..< n]) = Some i"
      by (metis farthest_None option.exhaust)
    have i': "i < n" "i \<notin> set selected" using farthest_in [OF i] by auto
    then have "validSelection n start (addIndex i selected)" "length (addIndex i selected) \<le> maximum"
      using "1.prems" True by (auto simp: validSelection_def addIndex_def)
    with "1.IH" [OF True i] "1.prems" True i i' show ?thesis
      by (auto simp: fillSelected.simps [of n maximum selected] addIndex_def)
  next
    case False
    with "1.prems" show ?thesis by (simp add: fillSelected.simps)
  qed
qed

interpretation by_index: comparator "\<lambda>l r :: nat. compareNumber (int l) (int r)"
  by (intro comparator_intros)

lemma sorted_indices:
  assumes "distinct selected"
  shows "sorted_wrt (<) (sort_by (\<lambda>l r. compareNumber (int l) (int r)) selected)"
proof -
  let ?s = "sort_by (\<lambda>l r. compareNumber (int l) (int r)) selected"
  have "sorted ?s"
    using by_index.sorted_sort_by [of selected]
    by (rule sorted_wrt_mono_rel [rotated]) (auto simp: compareNumber_def split: if_splits)
  moreover have "distinct ?s" using assms by simp
  ultimately show ?thesis by (simp add: strict_sorted_iff)
qed

text \<open>
  What a projection keeps: as many plans as asked for, in order, the first and the last among them, and every number
  of stores that occurs, as soon as one more plan is asked for than there are such numbers.
\<close>

definition represents :: "'p plan_view \<Rightarrow> 'p list \<Rightarrow> nat \<Rightarrow> 'p list \<Rightarrow> bool" where
  "represents v ordered limit result \<longleftrightarrow>
     (\<exists>indices. sorted_wrt (<) indices \<and> (\<forall>i \<in> set indices. i < length ordered)
        \<and> length indices = min limit (length ordered) \<and> result = map ((!) ordered) indices)
     \<and> (ordered \<noteq> [] \<longrightarrow> hd result = hd ordered)
     \<and> (limit \<noteq> 1 \<longrightarrow> ordered \<noteq> [] \<longrightarrow> last result = last ordered)
     \<and> (card (viewStores v ` set ordered) < limit \<longrightarrow> viewStores v ` set result = viewStores v ` set ordered)"

lemma represents_all: "length ordered \<le> limit \<Longrightarrow> represents v ordered limit ordered"
  unfolding represents_def
  by (intro conjI exI [of _ "[0 ..< length ordered]"]) (auto simp: map_nth)

lemma project_represents:
  assumes "1 \<le> limit" and "limit \<le> 7"
  shows "represents v ordered limit (projectBy v ordered (of_nat limit))"
proof -
  let ?n = "length ordered"
  have floor: "nat \<lfloor>of_nat limit :: rat\<rfloor> = limit" "of_int \<lfloor>of_nat limit :: rat\<rfloor> = (of_nat limit :: rat)" by simp_all
  have range: "\<not> (of_nat limit :: rat) < 1" "\<not> (of_nat limit :: rat) > 7" using assms by simp_all
  consider (all) "?n \<le> limit" | (one) "limit < ?n" "limit = 1" | (many) "limit < ?n" "2 \<le> limit"
    using assms by linarith
  then show ?thesis
  proof cases
    case all
    then have "projectBy v ordered (of_nat limit) = ordered" using floor range by (simp add: projectBy_def)
    with all represents_all show ?thesis by simp
  next
    case one
    then have "projectBy v ordered (of_nat limit) = [ordered ! 0]" using floor range by (simp add: projectBy_def)
    moreover have "represents v ordered limit [ordered ! 0]"
      using one unfolding represents_def
      by (intro conjI exI [of _ "[0]"]) (auto simp: hd_conv_nth card_eq_0_iff)
    ultimately show ?thesis by simp
  next
    case many
    let ?start = "[0, ?n - 1]" and ?counts = "sort_by compareNumber (uniq (map (viewStores v) ordered))"
    define chosen where "chosen = selectStores v ordered limit ?counts ?start"
    define full where "full = fillSelected ?n limit chosen"
    define indices where "indices = sort_by (\<lambda>l r. compareNumber (int l) (int r)) full"
    have result: "projectBy v ordered (of_nat limit) = map ((!) ordered) indices"
      using many floor range by (simp add: projectBy_def Let_def indices_def full_def chosen_def)
    have start: "validSelection ?n ?start ?start" "length ?start \<le> limit" using many by (auto simp: validSelection_def)
    note chosen = selectStores_spec [OF start, where v = v and counts = ?counts, unfolded Let_def, folded chosen_def]
    have full: "validSelection ?n ?start full" "length full = limit" "set chosen \<subseteq> set full"
      unfolding full_def using fillSelected_spec [of ?n ?start chosen limit] chosen many by auto
    have strict: "sorted_wrt (<) indices"
      unfolding indices_def using full(1) by (intro sorted_indices) (simp add: validSelection_def)
    have set_indices: "set indices = set full" and len: "length indices = limit" using full(2) by (simp_all add: indices_def)
    have in_range: "\<forall>i \<in> set indices. i < ?n" and ends: "0 \<in> set indices" "?n - 1 \<in> set indices"
      using full(1) by (auto simp: validSelection_def set_indices)
    have ne: "indices \<noteq> []" using ends by auto
    have "hd indices = 0"
      using strict ends(1) ne by (cases indices) auto
    have "last indices = ?n - 1"
    proof -
      obtain rest l where snoc: "indices = rest @ [l]" using ne by (metis rev_exhaust)
      then have "l < ?n" "?n - 1 \<le> l" using strict ends(2) in_range by (auto simp: sorted_wrt_append)
      with snoc show ?thesis by simp
    qed
    moreover have "viewStores v ` set (map ((!) ordered) indices) = viewStores v ` set ordered"
      if few: "card (viewStores v ` set ordered) < limit"
    proof
      show "viewStores v ` set (map ((!) ordered) indices) \<subseteq> viewStores v ` set ordered" using in_range by auto
      let ?hit = "storesHit v ordered chosen"
      have sub: "?hit \<subseteq> viewStores v ` set ordered"
        using chosen by (auto simp: storesHit_def validSelection_def)
      have "viewStores v ` set ordered \<subseteq> ?hit"
      proof (rule ccontr)
        assume missing: "\<not> ?thesis"
        then have "length chosen = limit" using chosen by (auto simp: le_less)
        moreover have "1 \<le> card (storesHit v ordered ?start)" by (simp add: storesHit_def card_gt_0_iff Suc_le_eq)
        ultimately have "limit + 1 \<le> 2 + card ?hit" using chosen by simp
        moreover have "card ?hit < card (viewStores v ` set ordered)"
          using sub missing by (intro psubset_card_mono) auto
        ultimately show False using few by linarith
      qed
      then show "viewStores v ` set ordered \<subseteq> viewStores v ` set (map ((!) ordered) indices)"
        using full(3) unfolding storesHit_def set_map set_indices by (auto simp: image_image)
    qed
    ultimately show ?thesis
      unfolding represents_def result using strict in_range len many ne \<open>hd indices = 0\<close>
      by (auto simp: hd_map last_map hd_conv_nth last_conv_nth)
  qed
qed

section \<open>Candidates with one identifier\<close>

lemma map_of_countIds:
  "map_of (fold (countId ident) cs []) i =
     (let n = length (filter (\<lambda>c. rawId ident c = Some i) cs) in if isExactIdentifier i \<and> 0 < n then Some n else None)"
proof (induction cs rule: rev_induct)
  case (snoc c cs)
  show ?case
  proof (cases "rawId ident c")
    case None
    with snoc show ?thesis by (simp add: countId_def)
  next
    case (Some j)
    with snoc show ?thesis by (auto simp: countId_def update_conv' Let_def)
  qed
qed simp

text \<open>A parser that never changes the identifier of a candidate.\<close>

locale candidate_source =
  fixes ident :: "'q \<Rightarrow> string" and view :: "'p plan_view" and parse :: "'q candidate \<Rightarrow> 'p option"
  assumes parse_id: "parse c = Some p \<Longrightarrow> rawId ident c = Some (viewId view p)"
    and parse_exact: "parse c = Some p \<Longrightarrow> isExactIdentifier (viewId view p)"
begin

lemma canonical_mem:
  "p \<in> set (canonicalCandidatesBy ident view parse cs) \<longleftrightarrow>
     (\<exists>c \<in> set cs. parse c = Some p) \<and> length (filter (\<lambda>c. rawId ident c = Some (viewId view p)) cs) = 1"
proof -
  have "map_of (fold (countId ident) cs []) (viewId view p) = Some 1 \<longleftrightarrow>
      length (filter (\<lambda>c. rawId ident c = Some (viewId view p)) cs) = 1" if "parse c = Some p" for c
    using parse_exact [OF that] by (simp add: map_of_countIds Let_def)
  then show ?thesis unfolding canonicalCandidatesBy_def Let_def set_filter mem_Collect_eq mem_map_filter by blast
qed

lemma canonical_distinct: "distinct (map (viewId view) (canonicalCandidatesBy ident view parse cs))"
proof -
  let ?once = "\<lambda>xs i. length (filter (\<lambda>c. rawId ident c = Some i) xs) \<le> 1"
  have gen: "distinct (map (viewId view) (filter P (List.map_filter parse xs)))"
    if "\<And>p. P p \<Longrightarrow> ?once xs (viewId view p)" for P xs
    using that
  proof (induction xs)
    case (Cons c xs)
    have rest: "\<And>p. P p \<Longrightarrow> ?once xs (viewId view p)"
    proof -
      fix p assume "P p"
      then show "?once xs (viewId view p)" using Cons.prems [of p] by (simp split: if_splits)
    qed
    note IH = Cons.IH [OF rest]
    show ?case
    proof (cases "parse c")
      case (Some p)
      have "viewId view p \<notin> viewId view ` set (filter P (List.map_filter parse xs))" if "P p"
      proof
        assume "viewId view p \<in> viewId view ` set (filter P (List.map_filter parse xs))"
        then obtain d q where "d \<in> set xs" "parse d = Some q" "viewId view q = viewId view p"
          by (auto simp: mem_map_filter)
        with parse_id have "d \<in> set (filter (\<lambda>c. rawId ident c = Some (viewId view p)) xs)" by auto
        then have "1 \<le> length (filter (\<lambda>c. rawId ident c = Some (viewId view p)) xs)"
          by (metis One_nat_def Suc_leI length_pos_if_in_set)
        with Cons.prems [OF that] parse_id [OF Some] show False by simp
      qed
      with IH Some show ?thesis by (simp add: map_filter_simps)
    qed (use IH in \<open>simp add: map_filter_simps\<close>)
  qed (simp add: map_filter_simps)
  show ?thesis
    unfolding canonicalCandidatesBy_def Let_def
    by (rule gen) (auto simp: map_of_countIds Let_def split: if_splits)
qed

lemma canonical_exact: "p \<in> set (canonicalCandidatesBy ident view parse cs) \<Longrightarrow> isExactIdentifier (viewId view p)"
  by (auto simp: canonical_mem dest: parse_exact)

text \<open>A parser that keeps what it admitted: parsing the canonical candidates again changes nothing.\<close>

lemma canonical_idem:
  assumes "\<And>p. p \<in> set ps \<Longrightarrow> parse (wrap p) = Some p" and "distinct (map (viewId view) ps)"
  shows "canonicalCandidatesBy ident view parse (map wrap ps) = ps"
proof -
  have "List.map_filter parse (map wrap ps) = ps"
    using assms(1) by (induction ps) (auto simp: map_filter_simps)
  moreover have "length (filter (\<lambda>c. rawId ident c = Some (viewId view p)) (map wrap ps)) = 1" if p: "p \<in> set ps" for p
  proof -
    have "filter (\<lambda>c. rawId ident c = Some (viewId view p)) (map wrap ps) = map wrap (filter (\<lambda>q. viewId view q = viewId view p) ps)"
    proof -
      have "rawId ident (wrap q) = Some (viewId view q)" if "q \<in> set ps" for q
        using parse_id [OF assms(1) [OF that]] .
      then show ?thesis unfolding filter_map by (intro arg_cong [where f = "map wrap"] filter_cong) auto
    qed
    moreover have "length (filter (\<lambda>q. viewId view q = viewId view p) ps) = 1"
      using filter_out [OF assms(2) p] p assms(2)
      by (induction ps) (auto simp: filter_empty_conv image_iff)
    ultimately show ?thesis by simp
  qed
  moreover have "isExactIdentifier (viewId view p)" if "p \<in> set ps" for p using assms(1) [OF that] parse_exact by blast
  ultimately have "List.map_filter parse (map wrap ps) = ps"
    and "\<forall>p \<in> set ps. map_of (fold (countId ident) (map wrap ps) []) (viewId view p) = Some 1"
    unfolding map_of_countIds Let_def by simp_all
  then show ?thesis unfolding canonicalCandidatesBy_def Let_def by (simp add: filter_id_conv)
qed

end

section \<open>Travel for all plans or none\<close>

definition matchedTravel ::
    "(travel_result unknown \<Rightarrow> calculated_travel option) \<Rightarrow> string list \<Rightarrow> travel_entry list
     \<Rightarrow> (string \<times> calculated_travel) list \<Rightarrow> bool" where
  "matchedTravel parse planIds entries ts \<longleftrightarrow>
     list_all2 (\<lambda>e (i, t). \<exists>raw. e = TravelEntry i raw \<and> parse raw = Some t) entries ts
     \<and> mset (map fst ts) = mset planIds"

lemma collectTravel_iff:
  "collectTravel parse ids es m = Some m' \<longleftrightarrow>
     (\<exists>ts. list_all2 (\<lambda>e (i, t). \<exists>raw. e = TravelEntry i raw \<and> isExactIdentifier i \<and> i \<in> set ids \<and> parse raw = Some t) es ts
        \<and> distinct (map fst ts) \<and> fst ` set ts \<inter> fst ` set m = {} \<and> m' = m @ ts)"
proof (induction es arbitrary: m)
  case Nil
  then show ?case by auto
next
  case (Cons e es)
  show ?case
  proof (cases e)
    case (TravelEntry i raw)
    show ?thesis
    proof (cases "isExactIdentifier i \<and> i \<in> set ids \<and> i \<notin> fst ` set m \<and> parse raw \<noteq> None")
      case True
      then obtain t where t: "parse raw = Some t" by auto
      have "collectTravel parse ids (e # es) m = collectTravel parse ids es (m @ [(i, t)])"
        using True t TravelEntry by (simp add: update_fresh map_of_eq_None_iff)
      also have "\<dots> = Some m' \<longleftrightarrow> (\<exists>ts. list_all2 (\<lambda>e (i, t). \<exists>raw. e = TravelEntry i raw \<and> isExactIdentifier i \<and> i \<in> set ids \<and> parse raw = Some t) es ts
        \<and> distinct (map fst ts) \<and> fst ` set ts \<inter> fst ` set (m @ [(i, t)]) = {} \<and> m' = (m @ [(i, t)]) @ ts)"
        by (rule Cons.IH)
      also have "\<dots> \<longleftrightarrow> (\<exists>ts. list_all2 (\<lambda>e (i, t). \<exists>raw. e = TravelEntry i raw \<and> isExactIdentifier i \<and> i \<in> set ids \<and> parse raw = Some t) (e # es) ts
        \<and> distinct (map fst ts) \<and> fst ` set ts \<inter> fst ` set m = {} \<and> m' = m @ ts)"
        using True t TravelEntry by (force simp: list_all2_Cons1)
      finally show ?thesis .
    next
      case False
      then have "collectTravel parse ids (e # es) m \<noteq> Some m'"
        using TravelEntry by (auto simp: map_of_eq_None_iff)
      with False TravelEntry show ?thesis by (auto simp: list_all2_Cons1)
    qed
  qed (simp add: list_all2_Cons1)
qed

lemma collectTravel_matched:
  assumes "distinct ids" and "\<And>i. i \<in> set ids \<Longrightarrow> isExactIdentifier i"
  shows "collectTravel parse ids es [] = Some ts \<and> length ts = length ids \<longleftrightarrow> matchedTravel parse ids es ts"
proof
  assume a: "collectTravel parse ids es [] = Some ts \<and> length ts = length ids"
  then have l: "list_all2 (\<lambda>e (i, t). \<exists>raw. e = TravelEntry i raw \<and> isExactIdentifier i \<and> i \<in> set ids \<and> parse raw = Some t) es ts"
    and d: "distinct (map fst ts)" by (auto simp: collectTravel_iff)
  have "set (map fst ts) \<subseteq> set ids" using l by (fastforce dest: list_all2_right)
  moreover have "card (set (map fst ts)) = card (set ids)" using d a assms(1) by (metis distinct_card length_map)
  ultimately have "set (map fst ts) = set ids" by (intro card_subset_eq) simp_all
  then have "mset (map fst ts) = mset ids" using d assms(1) set_eq_iff_mset_eq_distinct by blast
  moreover have "list_all2 (\<lambda>e (i, t). \<exists>raw. e = TravelEntry i raw \<and> parse raw = Some t) es ts"
    using l by (rule list_all2_mono) auto
  ultimately show "matchedTravel parse ids es ts" by (simp add: matchedTravel_def)
next
  assume m: "matchedTravel parse ids es ts"
  then have ids: "set (map fst ts) = set ids" "length ts = length ids"
    unfolding matchedTravel_def by (metis mset_eq_setD, metis length_map size_mset)
  have "distinct (map fst ts)" using m assms(1) unfolding matchedTravel_def by (metis mset_eq_imp_distinct_iff)
  moreover have "list_all2 (\<lambda>e (i, t). \<exists>raw. e = TravelEntry i raw \<and> isExactIdentifier i \<and> i \<in> set ids \<and> parse raw = Some t) es ts"
  proof -
    have "list_all2 (\<lambda>e (i, t). \<exists>raw. e = TravelEntry i raw \<and> parse raw = Some t) es ts"
      using m by (simp add: matchedTravel_def)
    moreover have "i \<in> set ids" if "(i, t) \<in> set ts" for i t using that ids(1) by force
    ultimately show ?thesis
      using assms(2) by (auto simp: list_all2_conv_all_nth split: prod.splits) (metis nth_mem)+
  qed
  ultimately show "collectTravel parse ids es [] = Some ts \<and> length ts = length ids"
    using ids(2) by (auto simp: collectTravel_iff)
qed

lemma attach_matched:
  assumes "distinct (map (viewId v) plans)" and "\<And>p. p \<in> set plans \<Longrightarrow> isExactIdentifier (viewId v p)"
    and "matchedTravel parse (map (viewId v) plans) entries ts"
  shows "attachBy v parse attach plans (Some entries) =
    orderCandidatesBy v (map (\<lambda>p. attach p (the (map_of ts (viewId v p)))) plans)"
proof -
  have "collectTravel parse (map (viewId v) plans) entries [] = Some ts \<and> length ts = length (map (viewId v) plans)"
    by (subst collectTravel_matched) (use assms in auto)
  moreover have "length entries = length ts" using assms(3) by (auto simp: matchedTravel_def dest: list_all2_lengthD)
  ultimately show ?thesis by (simp add: attachBy_def Let_def)
qed

lemma attach_unmatched:
  assumes "distinct (map (viewId v) plans)" and "\<And>p. p \<in> set plans \<Longrightarrow> isExactIdentifier (viewId v p)"
    and "\<And>entries ts. evidence = Some entries \<Longrightarrow> \<not> matchedTravel parse (map (viewId v) plans) entries ts"
  shows "attachBy v parse attach plans evidence = orderCandidatesBy v plans"
proof (cases evidence)
  case (Some entries)
  have "\<not> (collectTravel parse (map (viewId v) plans) entries [] = Some ts \<and> length ts = length plans)" for ts
    using collectTravel_matched [OF assms(1), of parse entries ts] assms(2,3) Some by auto
  then show ?thesis using Some by (auto simp: attachBy_def Let_def split: option.split)
qed (simp add: attachBy_def)

section \<open>The order does not depend on the input order\<close>

definition middleKey :: "'p plan_view \<Rightarrow> 'p cmp" where
  "middleKey v = (\<lambda>left right. js_or (compareNumber (viewStores v left) (viewStores v right))
     (js_or (compareNumber (travelKey v left) (travelKey v right))
     (js_or (compareNumber (viewTotal v right) (viewTotal v left))
     (js_or (compareNumber (viewSwaps v left) (viewSwaps v right))
       (compareText (viewId v left) (viewId v right))))))"

lemma comparator_middle: "comparator (middleKey v)"
  unfolding middleKey_def by (intro comparator_intros)

lemma cohort_middle: "cohort v cs \<Longrightarrow> sort_by (compareMiddleBy v) cs = sort_by (middleKey v) cs"
proof (rule sort_by_cong)
  fix x y assume "cohort v cs" and "x \<in> set cs" "y \<in> set cs"
  then have "hasTravel v x = hasTravel v y" unfolding cohort_def by blast
  then show "compareMiddleBy v x y = middleKey v x y"
    by (simp only: compareMiddleBy_def middleKey_def compareTravel_cohort)
qed

lemma key_ids:
  "convenienceKey v x y = 0 \<Longrightarrow> viewId v x = viewId v y" "savingsKey v x y = 0 \<Longrightarrow> viewId v x = viewId v y"
  "middleKey v x y = 0 \<Longrightarrow> viewId v x = viewId v y"
  by (simp_all add: convenienceKey_def savingsKey_def middleKey_def js_or_0)

lemma same_id: "distinct (map (viewId v) cs) \<Longrightarrow> x \<in> set cs \<Longrightarrow> y \<in> set cs \<Longrightarrow> viewId v x = viewId v y \<Longrightarrow> x = y"
  by (metis distinct_map inj_onD)

lemma cohort_perm: "cohort v cs \<Longrightarrow> set ds \<subseteq> set cs \<Longrightarrow> cohort v ds"
  unfolding cohort_def by blast

lemma orderCohort_perm:
  assumes "cohort v cs" and "distinct (map (viewId v) cs)" and "mset cs = mset ds"
  shows "orderCohortBy v cs = orderCohortBy v ds"
proof (cases "length cs < 2")
  case True
  moreover have "length ds = length cs" using assms(3) by (metis size_mset)
  ultimately show ?thesis
    using assms(3) by (cases cs; cases ds) (auto simp: orderCohortBy_def)
next
  case False
  have len: "length ds = length cs" and sets: "set ds = set cs" using assms(3) by (metis size_mset, metis set_mset_mset)
  have ds: "cohort v ds" by (rule cohort_perm [OF assms(1)]) (simp add: sets)
  have conv: "sort_by (compareConvenienceBy v) cs = sort_by (compareConvenienceBy v) ds"
    unfolding cohort_convenience [OF assms(1)] cohort_convenience [OF ds]
    by (rule sort_by_perm) (auto intro: by_convenience.comparator_axioms same_id [OF assms(2)] simp: assms(3) key_ids(1))
  have sav: "sort_by (compareSavingsBy v) cs = sort_by (compareSavingsBy v) ds"
    unfolding cohort_savings [OF assms(1)] cohort_savings [OF ds]
    by (rule sort_by_perm) (auto intro: by_savings.comparator_axioms same_id [OF assms(2)] simp: assms(3) key_ids(2))
  have mid: "sort_by (compareMiddleBy v) (filter P cs) = sort_by (compareMiddleBy v) (filter P ds)" for P
  proof -
    have c: "cohort v (filter P cs)" "cohort v (filter P ds)" using assms(1) ds by (auto intro: cohort_perm)
    show ?thesis
      unfolding cohort_middle [OF c(1)] cohort_middle [OF c(2)]
    proof (rule sort_by_perm [OF comparator_middle])
      show "mset (filter P cs) = mset (filter P ds)" by (simp add: assms(3))
      show "x = y" if "x \<in> set (filter P cs)" "y \<in> set (filter P cs)" "middleKey v x y = 0" for x y
        using same_id [OF assms(2)] key_ids(3) [OF that(3)] that(1,2) by simp
    qed
  qed
  show ?thesis using False unfolding orderCohortBy_def len conv sav mid by simp
qed

lemma orderCandidates_perm:
  assumes "distinct (map (viewId v) cs)" and "mset cs = mset ds"
  shows "orderCandidatesBy v cs = orderCandidatesBy v ds"
proof -
  have same: "orderCohortBy v (filter P cs) = orderCohortBy v (filter P ds)"
    if "\<And>x y. P x \<Longrightarrow> P y \<Longrightarrow> hasTravel v x = hasTravel v y" for P
  proof (rule orderCohort_perm)
    show "cohort v (filter P cs)" using that by (simp add: cohort_def)
    show "distinct (map (viewId v) (filter P cs))" by (rule distinct_map_filter [OF assms(1)])
    show "mset (filter P cs) = mset (filter P ds)" by (simp add: assms(2))
  qed
  show ?thesis
    unfolding orderCandidatesBy_def Let_def
    by (intro arg_cong2 [where f = "(@)"] same) auto
qed

lemma nonDominated_perm: "mset xs = mset ys \<Longrightarrow> mset (nonDominated b xs) = mset (nonDominated b ys)"
proof -
  assume m: "mset xs = mset ys"
  then have "set xs = set ys" by (rule mset_eq_setD)
  then have "list_ex P xs = list_ex P ys" for P by (simp add: list_ex_iff)
  with m show ?thesis by (simp add: nonDominated_def)
qed

lemma pareto_perm:
  assumes "distinct (map (viewId v) cs)" and "mset cs = mset ds"
  shows "paretoBy v cs = paretoBy v ds"
proof -
  have d: "distinct (map (viewId v) ds)"
    using assms by (metis mset_eq_imp_distinct_iff mset_map)
  show ?thesis
    unfolding pareto_eq [OF assms(1)] pareto_eq [OF d]
    by (rule orderCandidates_perm [OF view_dominance.distinct_nonDominated [OF assms(1)] nonDominated_perm [OF assms(2)]])
qed

lemma pareto_idem:
  assumes "distinct (map (viewId v) cs)"
  shows "paretoBy v (paretoBy v cs) = paretoBy v cs"
proof -
  let ?n = "nonDominated (dominatesBy v) cs"
  have d: "distinct (map (viewId v) ?n)" by (rule view_dominance.distinct_nonDominated [OF assms])
  have "paretoBy v (paretoBy v cs) = paretoBy v ?n"
    unfolding pareto_eq [OF assms]
    by (rule pareto_perm [OF orderCandidates_distinct [OF d] orderCandidates_mset [OF d]])
  also have "\<dots> = orderCandidatesBy v ?n" by (simp add: pareto_eq [OF d] view_dominance.nonDominated_idem)
  finally show ?thesis by (simp add: pareto_eq [OF assms])
qed

context candidate_source
begin

lemma canonical_perm:
  assumes "mset cs = mset ds"
  shows "mset (canonicalCandidatesBy ident view parse cs) = mset (canonicalCandidatesBy ident view parse ds)"
proof -
  have "mset (List.map_filter parse xs) = image_mset the (filter_mset (\<lambda>q. q \<noteq> None) (image_mset parse (mset xs)))" for xs
    by (induction xs) (auto simp: map_filter_simps)
  then have "mset (List.map_filter parse cs) = mset (List.map_filter parse ds)" by (simp add: assms)
  moreover have "length (filter P cs) = length (filter P ds)" for P
    by (metis assms mset_filter size_mset)
  ultimately show ?thesis
    by (simp add: canonicalCandidatesBy_def map_of_countIds Let_def del: length_filter_conv_card)
qed

lemma frontier_perm:
  "mset cs = mset ds \<Longrightarrow>
     paretoBy view (canonicalCandidatesBy ident view parse cs) = paretoBy view (canonicalCandidatesBy ident view parse ds)"
  by (rule pareto_perm [OF canonical_distinct canonical_perm])

lemma frontier_again:
  assumes "\<And>c p. c \<in> set cs \<Longrightarrow> parse c = Some p \<Longrightarrow> parse (wrap p) = Some p"
  shows "paretoBy view (canonicalCandidatesBy ident view parse
      (map wrap (paretoBy view (canonicalCandidatesBy ident view parse cs))))
    = paretoBy view (canonicalCandidatesBy ident view parse cs)"
proof -
  let ?p = "paretoBy view (canonicalCandidatesBy ident view parse cs)"
  have "canonicalCandidatesBy ident view parse (map wrap ?p) = ?p"
  proof (rule canonical_idem)
    show "parse (wrap p) = Some p" if "p \<in> set ?p" for p
      using that assms by (auto simp: pareto_mem [OF canonical_distinct] canonical_mem)
    show "distinct (map (viewId view) ?p)" by (rule pareto_distinct [OF canonical_distinct])
  qed
  then show ?thesis by (simp add: pareto_idem [OF canonical_distinct])
qed

end

end
