(* ===== verification/Frontier.thy ===== *)
theory Frontier
  imports Frontier_Core Planner
begin

text \<open>
  \<open>packages/domain/src/frontier.ts\<close>: candidates of the first planner with optional travel, their Pareto frontier, the
  representatives shown, and the explanation of each plan against the one before it.
\<close>

record frontier_plan = plan_result +
  frontierTravel :: "calculated_travel option"

definition frontierView :: "frontier_plan plan_view" where
  "frontierView = \<lparr>viewId = planId, viewTotal = planTotalOre, viewStores = (\<lambda>p. int (length (planChains p))),
     viewSwaps = (\<lambda>p. int (length (planSubstitutions p))), viewTravel = frontierTravel\<rparr>"

lemma frontierView_simps [simp]:
  "viewId frontierView p = planId p" "viewTotal frontierView p = planTotalOre p"
  "viewStores frontierView p = int (length (planChains p))" "viewSwaps frontierView p = int (length (planSubstitutions p))"
  "viewTravel frontierView p = frontierTravel p"
  by (simp_all add: frontierView_def)

section \<open>Candidates\<close>

text \<open>The loop over the assignments: the total so far, or \<open>None\<close> for its early return.\<close>

fun checkAssignments :: "(string \<times> string) list \<Rightarrow> assignment list \<Rightarrow> int \<Rightarrow> int option" where
  "checkAssignments freshness [] subtotal = Some subtotal"
| "checkAssignments freshness (a # as) subtotal =
     (let subtotal' = subtotal + assignmentCostOre a
      in if \<not> isSafeInt subtotal' then None
         else if \<not> isExactIdentifier (assignmentNeedId a) then None
         else if \<not> isExactIdentifier (assignmentSource a) then None
         else (case map_of freshness (assignmentNeedId a) of
                 None \<Rightarrow> None
               | Some label \<Rightarrow> if length (trim label) = 0 then None else checkAssignments freshness as subtotal'))"

definition planIsInternallyComplete :: "plan_result \<Rightarrow> bool" where
  "planIsInternallyComplete plan =
     (let needIds = map assignmentNeedId (planAssignments plan) in
      if \<not> isExactIdentifier (planId plan) \<or> planAssignments plan = [] then False
      else if planChains plan = [] \<or> length (planChains plan) > 3 then False
      else if length (uniq needIds) \<noteq> length needIds then False
      else if list_ex (\<lambda>a. assignmentChain a \<notin> set (planChains plan)) (planAssignments plan) then False
      else if list_ex (\<lambda>c. \<not> list_ex (\<lambda>a. assignmentChain a = c) (planAssignments plan)) (planChains plan) then False
      else (case checkAssignments (planFreshness plan) (planAssignments plan) 0 of
              None \<Rightarrow> False
            | Some assigned \<Rightarrow>
                if assigned \<noteq> planTotalOre plan then False
                else if length (uniq (planSubstitutions plan)) \<noteq> length (planSubstitutions plan) then False
                else \<not> list_ex (\<lambda>i. \<not> isExactIdentifier i \<or> i \<notin> set needIds) (planSubstitutions plan)))"

definition compareQuantity :: "rat \<Rightarrow> rat \<Rightarrow> int" where
  "compareQuantity left right = (if left < right then -1 else if left > right then 1 else 0)"

definition compareAssignments :: "assignment \<Rightarrow> assignment \<Rightarrow> int" where
  "compareAssignments left right =
     js_or (compareText (assignmentNeedId left) (assignmentNeedId right))
     (js_or (compareText (assignmentEan left) (assignmentEan right))
     (js_or (frontierChainOrder (assignmentChain left) - frontierChainOrder (assignmentChain right))
     (js_or (compareQuantity (assignmentQuantity left) (assignmentQuantity right))
     (js_or (compareNumber (assignmentCostOre left) (assignmentCostOre right))
     (js_or (compareText (assignmentObservedAt left) (assignmentObservedAt right))
       (compareText (assignmentSource left) (assignmentSource right)))))))"

definition canonicalPlan :: "'a plan_result_scheme \<Rightarrow> calculated_travel option \<Rightarrow> frontier_plan" where
  "canonicalPlan plan travel =
     \<lparr>planId = planId plan, planAssignments = sort_by compareAssignments (planAssignments plan),
      planTotalOre = planTotalOre plan,
      planChains = sort_by (\<lambda>l r. frontierChainOrder l - frontierChainOrder r) (planChains plan),
      planSubstitutions = sort_by compareText (planSubstitutions plan),
      planFreshness = sort_by (\<lambda>l r. compareText (fst l) (fst r)) (planFreshness plan),
      frontierTravel = travel\<rparr>"

definition parseTravel :: "travel_result unknown \<Rightarrow> calculated_travel option" where
  "parseTravel raw = (case parseUnknown travelResultSchema raw of Some (CalculatedTravel t) \<Rightarrow> Some t | _ \<Rightarrow> None)"

fun parseCandidate :: "plan_result candidate \<Rightarrow> frontier_plan option" where
  "parseCandidate (MalformedCandidate i) = None"
| "parseCandidate (ShapedCandidate raw travel) =
     (case sourceNeutralPlanResultSchema raw of
        None \<Rightarrow> None
      | Some plan \<Rightarrow>
          if \<not> planIsInternallyComplete plan then None
          else (case travel of
                  None \<Rightarrow> Some (canonicalPlan plan None)
                | Some rawTravel \<Rightarrow>
                    (case parseTravel rawTravel of None \<Rightarrow> None | Some t \<Rightarrow> Some (canonicalPlan plan (Some t)))))"

definition canonicalCandidates :: "plan_result candidate list \<Rightarrow> frontier_plan list" where
  "canonicalCandidates candidates = canonicalCandidatesBy planId frontierView parseCandidate candidates"

section \<open>Frontier, travel and representatives\<close>

definition withoutTravel :: "frontier_plan \<Rightarrow> frontier_plan" where
  "withoutTravel candidate = canonicalPlan candidate None"

definition attachOptionalTravelEvidence ::
    "plan_result candidate list \<Rightarrow> travel_entry list option \<Rightarrow> frontier_plan list" where
  "attachOptionalTravelEvidence plans travelEvidence =
     attachBy frontierView parseTravel (\<lambda>plan t. canonicalPlan plan (Some t))
       (map withoutTravel (canonicalCandidates plans)) travelEvidence"

definition paretoFrontier :: "plan_result candidate list \<Rightarrow> frontier_plan list" where
  "paretoFrontier candidates = paretoBy frontierView (canonicalCandidates candidates)"

definition projectRepresentatives :: "plan_result candidate list \<Rightarrow> rat \<Rightarrow> frontier_plan list" where
  "projectRepresentatives candidates maximum = projectBy frontierView (paretoFrontier candidates) maximum"

section \<open>Explanations\<close>

text \<open>A claim of unknown shape: its \<open>planId\<close> if it is a string, and its evidence identifiers if they are an array.\<close>

datatype claim_entry = MalformedClaim | ClaimEntry string "string unknown list option"

fun claimId :: "claim_entry \<Rightarrow> string option" where
  "claimId MalformedClaim = None"
| "claimId (ClaimEntry i ids) = (if isExactIdentifier i then Some i else None)"

definition countClaim :: "claim_entry \<Rightarrow> (string \<times> nat) list \<Rightarrow> (string \<times> nat) list" where
  "countClaim c counts =
     (case claimId c of None \<Rightarrow> counts
      | Some i \<Rightarrow> AList.update i ((case map_of counts i of None \<Rightarrow> 0 | Some n \<Rightarrow> n) + 1) counts)"

definition exactEvidenceId :: "string unknown \<Rightarrow> string option" where
  "exactEvidenceId raw = (case raw of Malformed \<Rightarrow> None | Shaped s \<Rightarrow> if isExactIdentifier s then Some s else None)"

definition addClaim ::
    "(string \<times> nat) list \<Rightarrow> claim_entry \<Rightarrow> (string \<times> string list) list \<Rightarrow> (string \<times> string list) list" where
  "addClaim idCounts c m =
     (case c of
        MalformedClaim \<Rightarrow> m
      | ClaimEntry i rawIds \<Rightarrow>
          (if \<not> isExactIdentifier i \<or> map_of idCounts i \<noteq> Some 1 then m
           else (case rawIds of
                   None \<Rightarrow> m
                 | Some raws \<Rightarrow>
                     (case parseAll exactEvidenceId raws of
                        None \<Rightarrow> m
                      | Some ids \<Rightarrow>
                          if length ids = 0 \<or> length (uniq ids) \<noteq> length ids then m
                          else AList.update i (sort_by compareText ids) m))))"

text \<open>An evidence argument that is no array is \<open>None\<close>.\<close>

definition claimEvidenceByPlanId :: "claim_entry list option \<Rightarrow> (string \<times> string list) list" where
  "claimEvidenceByPlanId evidence =
     (case evidence of None \<Rightarrow> []
      | Some entries \<Rightarrow> (let idCounts = fold countClaim entries [] in fold (addClaim idCounts) entries []))"

definition combinedEvidenceIds :: "string list option \<Rightarrow> string list option \<Rightarrow> string list option" where
  "combinedEvidenceIds first second =
     (case (first, second) of (Some a, Some b) \<Rightarrow> Some (sort_by compareText (uniq (a @ b))) | _ \<Rightarrow> None)"

text \<open>\<open>explanations\<close> holds \<open>None\<close> where the code would hold \<open>undefined\<close>.\<close>

record explained_plan =
  explainedPlanId :: string
  explanations :: "plan_explanation option list"

definition makeExplanation :: "explanation_kind \<Rightarrow> string \<Rightarrow> string list \<Rightarrow> plan_explanation option" where
  "makeExplanation kind message ids =
     planExplanationSchema \<lparr>explanationKind = kind, explanationMessage = message, explanationEvidenceIds = ids\<rparr>"

definition storesMessage :: "int \<Rightarrow> string" where
  "storesMessage n = ''Bruker '' @ intText n @ '' '' @ (if n = 1 then ''butikk'' else ''butikker'') @ ''.''"

definition savingsMessage :: "int \<Rightarrow> string" where
  "savingsMessage n = ''Sparer '' @ intText n @ '' '' @ CHR 0xF8 # ''re sammenlignet med forrige plan.''"

definition changeMessage :: "string \<Rightarrow> int \<Rightarrow> int \<Rightarrow> string \<Rightarrow> string" where
  "changeMessage what old new end' = what @ '' endres fra '' @ intText old @ '' til '' @ intText new @ end'"

definition pushParsed :: "plan_explanation option \<Rightarrow> plan_explanation option list \<Rightarrow> plan_explanation option list" where
  "pushParsed parsed es = (if parsed \<noteq> None then es @ [parsed] else es)"

definition explainChange :: "(string \<times> string list) list \<Rightarrow> frontier_plan \<Rightarrow> frontier_plan \<Rightarrow> plan_explanation option list" where
  "explainChange evidenceByPlanId previous candidate =
     (let e1 = (if planTotalOre candidate < planTotalOre previous
                then (case combinedEvidenceIds (map_of evidenceByPlanId (planId previous)) (map_of evidenceByPlanId (planId candidate)) of
                        None \<Rightarrow> []
                      | Some ids \<Rightarrow>
                          if length ids > 0
                          then pushParsed (makeExplanation SavingsKind (savingsMessage (planTotalOre previous - planTotalOre candidate)) ids) []
                          else [])
                else []);
          e2 = (if length (planChains candidate) \<noteq> length (planChains previous)
                then pushParsed (makeExplanation ConvenienceKind
                  (changeMessage ''Butikkantallet'' (int (length (planChains previous))) (int (length (planChains candidate))) ''.'') []) e1
                else e1);
          e3 = (if length (planSubstitutions candidate) \<noteq> length (planSubstitutions previous)
                then pushParsed (makeExplanation SubstitutionKind
                  (changeMessage ''Antall godkjente bytter'' (int (length (planSubstitutions previous)))
                     (int (length (planSubstitutions candidate))) ''.'') []) e2
                else e2);
          e4 = (case (frontierTravel previous, frontierTravel candidate) of
                  (Some p, Some c) \<Rightarrow>
                    (if travelDuration p \<noteq> travelDuration c
                     then pushParsed (makeExplanation TravelKind
                       (changeMessage ''Beregnet reisetid'' (travelDuration p) (travelDuration c) '' sekunder.'')
                       (sort_by compareText (uniq [travelFingerprint p, travelFingerprint c]))) e3
                     else e3)
                | _ \<Rightarrow> e3)
      in if length e4 = 0
         then e4 @ [makeExplanation ConvenienceKind ''Alternativ uten dokumentert deltaforklaring.'' []]
         else e4)"

definition explainAt :: "(string \<times> string list) list \<Rightarrow> frontier_plan list \<Rightarrow> nat \<times> frontier_plan \<Rightarrow> explained_plan" where
  "explainAt evidenceByPlanId ordered = (\<lambda>(index, candidate).
     \<lparr>explainedPlanId = planId candidate,
      explanations =
        (if index = 0
         then [makeExplanation ConvenienceKind (storesMessage (int (length (planChains candidate)))) []]
         else explainChange evidenceByPlanId (ordered ! (index - 1)) candidate)\<rparr>)"

definition explainPlanDeltas :: "plan_result candidate list \<Rightarrow> claim_entry list option \<Rightarrow> explained_plan list" where
  "explainPlanDeltas candidates claimEvidence =
     (let ordered = paretoFrontier candidates
      in map (explainAt (claimEvidenceByPlanId claimEvidence) ordered) (enumerate 0 ordered))"

section \<open>The frontier\<close>

lemma schema_keeps_id: "sourceNeutralPlanResultSchema raw = Some plan \<Longrightarrow> planId plan = planId raw"
  by (auto simp: sourceNeutralPlanResultSchema_def planResultWith_def split: option.splits if_splits)

lemma parseCandidate_Some:
  assumes "parseCandidate c = Some p"
  obtains raw travel plan t where "c = ShapedCandidate raw travel" "sourceNeutralPlanResultSchema raw = Some plan"
    "planIsInternallyComplete plan" "p = canonicalPlan plan t"
    "case travel of None \<Rightarrow> t = None | Some rawTravel \<Rightarrow> t \<noteq> None \<and> parseTravel rawTravel = t"
proof (cases c)
  case (ShapedCandidate raw travel)
  with assms obtain plan where plan: "sourceNeutralPlanResultSchema raw = Some plan" "planIsInternallyComplete plan"
    by (auto split: option.splits if_splits)
  show thesis
  proof (cases travel)
    case None
    with assms ShapedCandidate plan have "p = canonicalPlan plan None" by simp
    with None ShapedCandidate plan show thesis by (intro that [of raw travel plan None]) simp_all
  next
    case (Some rawTravel)
    with assms ShapedCandidate plan obtain t where "parseTravel rawTravel = Some t" "p = canonicalPlan plan (Some t)"
      by (auto split: option.splits)
    with Some ShapedCandidate plan show thesis by (intro that [of raw travel plan "Some t"]) simp_all
  qed
qed (use assms in simp)

lemma internallyComplete_id: "planIsInternallyComplete plan \<Longrightarrow> isExactIdentifier (planId plan)"
  by (auto simp: planIsInternallyComplete_def Let_def split: if_splits)

lemma internallyComplete_chains:
  "planIsInternallyComplete plan \<Longrightarrow> 1 \<le> length (planChains plan) \<and> length (planChains plan) \<le> 3"
  by (cases "planChains plan") (auto simp: planIsInternallyComplete_def Let_def split: if_splits)

interpretation frontier_source: candidate_source planId frontierView parseCandidate
proof
  show "rawId planId c = Some (viewId frontierView p)" if "parseCandidate c = Some p" for c p
    using that by (auto elim!: parseCandidate_Some dest: schema_keeps_id simp: canonicalPlan_def)
  show "isExactIdentifier (viewId frontierView p)" if "parseCandidate c = Some p" for c p
    using that by (auto elim!: parseCandidate_Some dest: internallyComplete_id simp: canonicalPlan_def)
qed

text \<open>
  C18. The frontier of candidates of unknown shape: a plan is on it exactly when it is the canonical form of an admitted
  candidate, no other candidate carries its identifier, and no such plan dominates it; identifiers are distinct, and
  the order in which candidates are given does not matter.
\<close>

theorem paretoFrontier_exact:
  "set (paretoFrontier candidates) =
     {p \<in> set (canonicalCandidates candidates). \<forall>q \<in> set (canonicalCandidates candidates). \<not> dominatesBy frontierView q p}
   \<and> set (canonicalCandidates candidates) =
     {p. (\<exists>c \<in> set candidates. parseCandidate c = Some p)
       \<and> length (filter (\<lambda>c. rawId planId c = Some (planId p)) candidates) = 1}
   \<and> distinct (map planId (paretoFrontier candidates))
   \<and> (mset candidates' = mset candidates \<longrightarrow> paretoFrontier candidates' = paretoFrontier candidates)"
proof -
  have "viewId frontierView = planId" by (simp add: frontierView_def)
  moreover note pareto_mem [OF frontier_source.canonical_distinct] pareto_distinct [OF frontier_source.canonical_distinct]
    frontier_source.canonical_mem frontier_source.frontier_perm [of candidates' candidates]
  ultimately show ?thesis
    unfolding paretoFrontier_def canonicalCandidates_def by auto
qed

text \<open>
  C19. The representatives shown for a maximum of 1 to 7 are that many plans of the frontier (all of them when there are
  no more), in frontier order, its first and last plan included, and every number of stores on the frontier is
  represented as soon as the maximum exceeds the number of different ones; any other maximum gives no plan.
\<close>

theorem representatives_exact:
  "(maximum \<notin> of_nat ` {1..7} \<longrightarrow> projectRepresentatives candidates maximum = [])
   \<and> (\<forall>limit \<in> {1..7}. represents frontierView (paretoFrontier candidates) limit (projectRepresentatives candidates (of_nat limit)))"
proof
  have "maximum \<in> of_nat ` {1..7}" if "of_int \<lfloor>maximum\<rfloor> = maximum" "1 \<le> maximum" "maximum \<le> 7"
  proof
    have k: "nat k \<in> {1..7}" if "1 \<le> k" "k \<le> 7" for k :: int using that by auto
    have "1 \<le> \<lfloor>maximum\<rfloor>" "\<lfloor>maximum\<rfloor> \<le> 7" using that by linarith+
    then show "nat \<lfloor>maximum\<rfloor> \<in> {1..7}" by (rule k)
    have "(of_nat (nat \<lfloor>maximum\<rfloor>) :: rat) = of_int \<lfloor>maximum\<rfloor>" using \<open>1 \<le> \<lfloor>maximum\<rfloor>\<close> by simp
    then show "maximum = of_nat (nat \<lfloor>maximum\<rfloor>)" using that(1) by simp
  qed
  then show "maximum \<notin> of_nat ` {1..7} \<longrightarrow> projectRepresentatives candidates maximum = []"
    by (auto simp: projectRepresentatives_def projectBy_def not_less)
  show "\<forall>limit \<in> {1..7}. represents frontierView (paretoFrontier candidates) limit (projectRepresentatives candidates (of_nat limit))"
    by (auto simp: projectRepresentatives_def intro: project_represents)
qed

section \<open>Explanations\<close>

lemma combinedEvidence_nonempty: "combinedEvidenceIds a b = Some ids \<Longrightarrow> distinct ids"
  by (auto simp: combinedEvidenceIds_def split: option.splits)

definition definedExplanations :: "plan_explanation option list \<Rightarrow> bool" where
  "definedExplanations es \<longleftrightarrow> (\<forall>e \<in> set es. \<exists>x. e = Some x \<and> planExplanationSchema x = Some x)"

lemma definedExplanations_Nil: "definedExplanations []"
  by (simp add: definedExplanations_def)

lemma definedExplanations_push:
  "definedExplanations es \<Longrightarrow> definedExplanations (pushParsed (makeExplanation k m ids) es)"
  by (auto simp: definedExplanations_def pushParsed_def makeExplanation_def dest: planExplanationSchema_idem)

lemma fallback_explanation: "makeExplanation ConvenienceKind ''Alternativ uten dokumentert deltaforklaring.'' [] \<noteq> None"
  by code_simp

lemma first_explanation:
  assumes "1 \<le> n" and "n \<le> 3"
  shows "makeExplanation ConvenienceKind (storesMessage (int n)) [] \<noteq> None"
proof -
  have "n = 1 \<or> n = 2 \<or> n = 3" using assms by auto
  moreover have "makeExplanation ConvenienceKind (storesMessage 1) [] \<noteq> None"
    "makeExplanation ConvenienceKind (storesMessage 2) [] \<noteq> None"
    "makeExplanation ConvenienceKind (storesMessage 3) [] \<noteq> None" by code_simp+
  ultimately show ?thesis by auto
qed

definition goodExplanations :: "plan_explanation option list \<Rightarrow> bool" where
  "goodExplanations es \<longleftrightarrow> es \<noteq> [] \<and> definedExplanations es"

lemma good_single: "makeExplanation k m ids \<noteq> None \<Longrightarrow> goodExplanations [makeExplanation k m ids]"
  by (auto simp: goodExplanations_def definedExplanations_def makeExplanation_def dest: planExplanationSchema_idem)

lemma explainChange_good: "goodExplanations (explainChange m p c)"
proof -
  have final: "goodExplanations (if length es = 0 then es @ [makeExplanation ConvenienceKind ''Alternativ uten dokumentert deltaforklaring.'' []] else es)"
    if "definedExplanations es" for es
    using that good_single [OF fallback_explanation] by (auto simp: goodExplanations_def)
  show ?thesis
    unfolding explainChange_def Let_def
    by (rule final) (auto intro!: definedExplanations_push definedExplanations_Nil split: option.split)
qed

lemma canonicalPlan_chains: "p \<in> set (canonicalCandidates cs) \<Longrightarrow> 1 \<le> length (planChains p) \<and> length (planChains p) \<le> 3"
  by (auto simp: canonicalCandidates_def frontier_source.canonical_mem canonicalPlan_def
      elim!: parseCandidate_Some dest: internallyComplete_chains)

lemma paretoFrontier_set: "p \<in> set (paretoFrontier cs) \<Longrightarrow> p \<in> set (canonicalCandidates cs)"
  unfolding paretoFrontier_def canonicalCandidates_def by (simp add: pareto_mem [OF frontier_source.canonical_distinct])

text \<open>
  C20. Every plan of the frontier is explained, in frontier order, by at least one explanation; each explanation is a
  value the published schema admits unchanged (never \<open>undefined\<close>), so a claim of savings, coverage or travel always
  names at least one evidence identifier.
\<close>

theorem explanations_total:
  "map explainedPlanId (explainPlanDeltas candidates claims) = map planId (paretoFrontier candidates)
   \<and> (\<forall>e \<in> set (explainPlanDeltas candidates claims). explanations e \<noteq> []
        \<and> (\<forall>x \<in> set (explanations e). \<exists>y. x = Some y \<and> planExplanationSchema y = Some y
             \<and> (explanationKind y \<in> set evidenceBackedExplanationKinds \<longrightarrow> explanationEvidenceIds y \<noteq> [])))"
proof
  let ?ordered = "paretoFrontier candidates" and ?m = "claimEvidenceByPlanId claims"
  have "explainedPlanId \<circ> explainAt ?m ?ordered = planId \<circ> snd" by (auto simp: explainAt_def)
  then show "map explainedPlanId (explainPlanDeltas candidates claims) = map planId ?ordered"
    unfolding explainPlanDeltas_def Let_def map_map by (simp flip: map_map)
  have good: "goodExplanations (explanations e)" if e_in: "e \<in> set (explainPlanDeltas candidates claims)" for e
  proof -
    obtain x where x: "x \<in> set (enumerate 0 ?ordered)" "e = explainAt ?m ?ordered x"
      using e_in unfolding explainPlanDeltas_def Let_def set_map by blast
    obtain i p where "x = (i, p)" by (cases x)
    with x have e: "e = explainAt ?m ?ordered (i, p)" and p: "(i, p) \<in> set (enumerate 0 ?ordered)" by simp_all
    have "p \<in> set ?ordered" using p by (auto simp: in_set_enumerate_eq)
    then have "1 \<le> length (planChains p) \<and> length (planChains p) \<le> 3"
      using paretoFrontier_set canonicalPlan_chains by blast
    then show ?thesis
      unfolding e explainAt_def using first_explanation [of "length (planChains p)"] explainChange_good
      by (auto intro: good_single)
  qed
  show "\<forall>e \<in> set (explainPlanDeltas candidates claims). explanations e \<noteq> []
        \<and> (\<forall>x \<in> set (explanations e). \<exists>y. x = Some y \<and> planExplanationSchema y = Some y
             \<and> (explanationKind y \<in> set evidenceBackedExplanationKinds \<longrightarrow> explanationEvidenceIds y \<noteq> []))"
    using good planExplanationSchema_ids unfolding goodExplanations_def definedExplanations_def by blast
qed

section \<open>Examples\<close>

definition exampleAssignment :: "string \<Rightarrow> chain \<Rightarrow> int \<Rightarrow> assignment" where
  "exampleAssignment n c cost =
     \<lparr>assignmentNeedId = n, assignmentEan = ''7038010000010'', assignmentChain = c, assignmentQuantity = 1,
      assignmentCostOre = cost, assignmentObservedAt = ''2026-07-01T06:00:00.000Z'', assignmentSource = ''kassalapp'',
      assignmentFulfilment = None\<rparr>"

definition exampleCandidate :: "string \<Rightarrow> chain \<Rightarrow> int \<Rightarrow> chain \<Rightarrow> int \<Rightarrow> plan_result candidate" where
  "exampleCandidate i c cost d cost' = ShapedCandidate
     \<lparr>planId = i, planAssignments = [exampleAssignment ''brod'' c cost, exampleAssignment ''melk'' d cost'],
      planTotalOre = cost + cost', planChains = uniq [c, d], planSubstitutions = [],
      planFreshness = [(''brod'', ''eligible''), (''melk'', ''eligible'')]\<rparr> None"

definition exampleCandidates :: "plan_result candidate list" where
  "exampleCandidates = [exampleCandidate ''dyr'' Meny 4000 Meny 3000, exampleCandidate ''en'' Extra 3000 Extra 3000,
     exampleCandidate ''to'' Extra 3000 Meny 2500, MalformedCandidate None]"

lemma exampleFrontier: "map planId (paretoFrontier exampleCandidates) = [''en'', ''to'']"
  by code_simp

theorem paretoFrontier_exact_witness:
  "paretoFrontier (rev exampleCandidates) = paretoFrontier exampleCandidates
   \<and> map planId (paretoFrontier (rev exampleCandidates)) = [''en'', ''to'']"
  using paretoFrontier_exact [of exampleCandidates "rev exampleCandidates"] exampleFrontier by simp

theorem representatives_exact_witness:
  "represents frontierView (paretoFrontier exampleCandidates) 1 (projectRepresentatives exampleCandidates 1)
   \<and> map planId (projectRepresentatives exampleCandidates 1) = [''en'']
   \<and> projectRepresentatives exampleCandidates (5 / 2) = []"
proof -
  have "map planId (projectRepresentatives exampleCandidates 1) = [''en'']" by code_simp
  moreover have "(5 / 2 :: rat) \<notin> of_nat ` {1..7}"
  proof
    assume "(5 / 2 :: rat) \<in> of_nat ` {1..7}"
    then obtain n :: nat where "(5 / 2 :: rat) = of_nat n" by auto
    then have "of_nat (2 * n) = (of_nat 5 :: rat)" by simp
    then have "2 * n = 5" unfolding of_nat_eq_iff .
    then show False by presburger
  qed
  ultimately show ?thesis
    using representatives_exact [where candidates = exampleCandidates and maximum = "5 / 2"] by force
qed

definition exampleClaims :: "claim_entry list option" where
  "exampleClaims = Some [ClaimEntry ''en'' (Some [Shaped ''e1'']), ClaimEntry ''to'' (Some [Shaped ''e2''])]"

theorem explanations_total_witness:
  "map explainedPlanId (explainPlanDeltas exampleCandidates exampleClaims) = [''en'', ''to'']
   \<and> explanations (last (explainPlanDeltas exampleCandidates exampleClaims)) \<noteq> []"
proof -
  note total = explanations_total [of exampleCandidates exampleClaims]
  then have ids: "map explainedPlanId (explainPlanDeltas exampleCandidates exampleClaims) = [''en'', ''to'']"
    using exampleFrontier by simp
  then have "explainPlanDeltas exampleCandidates exampleClaims \<noteq> []" by auto
  with total ids show ?thesis by simp
qed

end
