(* ===== verification/Planner_V2_Contracts.thy ===== *)
theory Planner_V2_Contracts
  imports Checkout
begin

text \<open>
  \<open>packages/domain/src/planner-v2-contracts.ts\<close>: the server-owned planning input of the second planner, and the plan it
  returns. The literal \<open>required: true\<close> and \<open>coverage: 1\<close> are left out; \<open>freshness\<close> is an object, a list of entries
  with distinct keys.
\<close>

section \<open>The planning input\<close>

record planning_need =
  planningNeedId :: string
  planningQuery :: string
  planningRequested :: package_measure
  planningRuleId :: string

definition planningNeedV2Schema :: "planning_need \<Rightarrow> planning_need option" where
  "planningNeedV2Schema n =
     (case (identifierSchema (planningNeedId n), nonEmptyStringSchema (planningQuery n),
            packageMeasureSchema (planningRequested n), identifierSchema (planningRuleId n)) of
        (Some i, Some q, Some m, Some r) \<Rightarrow> Some (n\<lparr>planningNeedId := i, planningQuery := q, planningRuleId := r\<rparr>)
      | _ \<Rightarrow> None)"

record planning_product =
  planningProductId :: string
  planningEan :: string
  planningName :: string
  planningBrand :: "string option"
  planningMeasure :: package_measure
  planningFamily :: "string option"

definition planningProductV2Schema :: "planning_product \<Rightarrow> planning_product option" where
  "planningProductV2Schema p =
     (case (identifierSchema (planningProductId p), gtinSchema (planningEan p), nonEmptyStringSchema (planningName p),
            parseOptional nonEmptyStringSchema (planningBrand p), packageMeasureSchema (planningMeasure p),
            parseOptional identifierSchema (planningFamily p)) of
        (Some i, Some e, Some n, Some b, Some m, Some f) \<Rightarrow>
          Some (p\<lparr>planningProductId := i, planningName := n, planningBrand := b, planningFamily := f\<rparr>)
      | _ \<Rightarrow> None)"

record offer_eligibility =
  eligibilityMaxEvidenceAgeMs :: int
  eligibilityPlace :: geographic_context
  eligibilityChannel :: channel
  eligibilitySourceIds :: "string list"
  eligibilityMembershipIds :: "string list"
  eligibilityGeographicDirectory :: "directory_evidence option"

definition offerEligibilityV2Schema :: "offer_eligibility \<Rightarrow> offer_eligibility option" where
  "offerEligibilityV2Schema e =
     (case (geographicContextSchema (eligibilityPlace e), parseAll sourceIdSchema (eligibilitySourceIds e),
            parseAll identifierSchema (eligibilityMembershipIds e),
            parseOptional geographicDirectoryEvidenceSchema (eligibilityGeographicDirectory e)) of
        (Some place, Some sources, Some memberships, Some directory) \<Rightarrow>
          (if nonNegativeSafeInteger (eligibilityMaxEvidenceAgeMs e) \<and> length sources \<le> 100 \<and> length memberships \<le> 100
              \<and> hasUniqueStrings sources \<and> hasUniqueStrings memberships
           then Some (e\<lparr>eligibilityPlace := place, eligibilitySourceIds := sources, eligibilityMembershipIds := memberships,
                        eligibilityGeographicDirectory := directory\<rparr>)
           else None)
      | _ \<Rightarrow> None)"

record planning_input =
  planningNeeds :: "planning_need list"
  planningRules :: "match_rule list"
  planningProducts :: "planning_product list"
  ordinaryPrices :: "price_observation list"
  officialOffers :: "official_offer list"
  planningEligibility :: offer_eligibility
  planningMaxStores :: nat

definition planningInputRefinement :: "planning_input \<Rightarrow> bool" where
  "planningInputRefinement input \<longleftrightarrow>
     list_all hasUniqueStrings
       [map planningNeedId (planningNeeds input), map ruleId (planningRules input),
        map planningProductId (planningProducts input), map planningEan (planningProducts input),
        map offerId (officialOffers input),
        map (\<lambda>p. priceEan p @ char_of (0 :: nat) # chainText (priceChain p)) (ordinaryPrices input)]
     \<and> (let rulesById = newMap (map (\<lambda>r. (ruleId r, r)) (planningRules input))
        in \<not> list_ex (\<lambda>n. map_of rulesById (planningRuleId n) = None) (planningNeeds input))"

definition serverPlanningInputV2Schema :: "planning_input \<Rightarrow> planning_input option" where
  "serverPlanningInputV2Schema input =
     (case (parseAll planningNeedV2Schema (planningNeeds input), parseAll matchRuleSchema (planningRules input),
            parseAll planningProductV2Schema (planningProducts input),
            parseAll sourceNeutralPriceObservationSchema (ordinaryPrices input),
            parseAll officialOfferSchema (officialOffers input), offerEligibilityV2Schema (planningEligibility input)) of
        (Some needs, Some rules, Some items, Some prices, Some offers, Some eligibility) \<Rightarrow>
          (let parsed = \<lparr>planningNeeds = needs, planningRules = rules, planningProducts = items, ordinaryPrices = prices,
                         officialOffers = offers, planningEligibility = eligibility, planningMaxStores = planningMaxStores input\<rparr>
           in if 1 \<le> length needs \<and> length needs \<le> 50 \<and> 1 \<le> length rules \<and> length rules \<le> 50
                 \<and> 1 \<le> length items \<and> length items \<le> 500 \<and> length prices \<le> 5000 \<and> length offers \<le> 5000
                 \<and> planningMaxStores input \<in> {1, 2, 3} \<and> planningInputRefinement parsed
              then Some parsed else None)
      | _ \<Rightarrow> None)"

section \<open>The plan\<close>

definition checkoutRefinement :: "checkout_cost \<Rightarrow> bool" where
  "checkoutRefinement c \<longleftrightarrow>
     \<not> ordinaryTotalOre c - savingOre c \<noteq> checkoutTotalOre c
     \<and> \<not> (appliedOfferId c = None) \<noteq> (savingOre c = 0)"

definition checkoutCostV2Schema :: "checkout_cost \<Rightarrow> checkout_cost option" where
  "checkoutCostV2Schema c =
     (case parseOptional identifierSchema (appliedOfferId c) of
        None \<Rightarrow> None
      | Some i \<Rightarrow>
          if moneyOreSchema (ordinaryTotalOre c) \<and> moneyOreSchema (savingOre c) \<and> moneyOreSchema (checkoutTotalOre c)
             \<and> checkoutRefinement c
          then Some (c\<lparr>appliedOfferId := i\<rparr>) else None)"

record offer_reference =
  referenceId :: string
  referenceSourceId :: string
  referenceRecordId :: string
  referenceCapturedAt :: string

definition appliedOfficialOfferReferenceSchema :: "offer_reference \<Rightarrow> offer_reference option" where
  "appliedOfficialOfferReferenceSchema r =
     (case (identifierSchema (referenceId r), sourceIdSchema (referenceSourceId r), identifierSchema (referenceRecordId r)) of
        (Some i, Some s, Some k) \<Rightarrow>
          (if canonicalTimestamp (referenceCapturedAt r)
           then Some (r\<lparr>referenceId := i, referenceSourceId := s, referenceRecordId := k\<rparr>) else None)
      | _ \<Rightarrow> None)"

record assignment_v2 =
  a2NeedId :: string
  a2ProductId :: string
  a2Ean :: string
  a2Chain :: chain
  a2CostOre :: int
  a2ObservedAt :: string
  a2Source :: string
  a2Fulfilment :: fulfilment_v2
  a2Checkout :: checkout_cost
  a2Offer :: "offer_reference option"

definition assignmentV2Refinement :: "assignment_v2 \<Rightarrow> bool" where
  "assignmentV2Refinement a \<longleftrightarrow>
     a2CostOre a = checkoutTotalOre (a2Checkout a) \<and> a2NeedId a = v2NeedId (a2Fulfilment a)
     \<and> a2ProductId a = v2ProductId (a2Fulfilment a)
     \<and> appliedOfferId (a2Checkout a) = map_option referenceId (a2Offer a)"

definition planAssignmentV2Schema :: "assignment_v2 \<Rightarrow> assignment_v2 option" where
  "planAssignmentV2Schema a =
     (case (identifierSchema (a2NeedId a), identifierSchema (a2ProductId a), gtinSchema (a2Ean a), sourceIdSchema (a2Source a),
            fulfilmentV2Schema (a2Fulfilment a), checkoutCostV2Schema (a2Checkout a),
            parseOptional appliedOfficialOfferReferenceSchema (a2Offer a)) of
        (Some n, Some p, Some e, Some s, Some f, Some c, Some r) \<Rightarrow>
          (let parsed = a\<lparr>a2NeedId := n, a2ProductId := p, a2Source := s, a2Fulfilment := f, a2Checkout := c, a2Offer := r\<rparr>
           in if moneyOreSchema (a2CostOre a) \<and> canonicalTimestamp (a2ObservedAt a) \<and> assignmentV2Refinement parsed
              then Some parsed else None)
      | _ \<Rightarrow> None)"

record plan_v2 =
  p2Id :: string
  p2Assignments :: "assignment_v2 list"
  p2TotalOre :: int
  p2Chains :: "chain list"
  p2Substitutions :: "string list"
  p2Freshness :: "(string \<times> string) list"

definition sameSequence :: "string list \<Rightarrow> string list \<Rightarrow> bool" where
  "sameSequence xs ys \<longleftrightarrow> \<not> (length xs \<noteq> length ys \<or> list_ex (\<lambda>(index, x). x \<noteq> ys ! index) (enumerate 0 xs))"

lemma list_ex_enumerate: "list_ex P (enumerate 0 xs) \<longleftrightarrow> (\<exists>i < length xs. P (i, xs ! i))"
proof -
  have "x \<in> set (enumerate 0 xs) \<longleftrightarrow> (\<exists>i < length xs. x = (i, xs ! i))" for x
    by (cases x) (auto simp: in_set_enumerate_eq)
  then show ?thesis by (auto simp: list_ex_iff)
qed

lemma sameSequence_iff: "sameSequence xs ys \<longleftrightarrow> xs = ys"
  unfolding sameSequence_def list_ex_enumerate by (auto intro: nth_equalityI)

definition planResultV2Refinement :: "plan_v2 \<Rightarrow> bool" where
  "planResultV2Refinement plan \<longleftrightarrow>
     (let assignmentChains = sort_by compareText (map chainText (uniq (map a2Chain (p2Assignments plan))));
          calculatedTotal = foldl (\<lambda>t a. t + a2CostOre a) 0 (p2Assignments plan);
          assignedNeedIds = sort_by compareText (map a2NeedId (p2Assignments plan));
          freshnessNeedIds = sort_by compareText (map fst (p2Freshness plan))
      in hasUniqueStrings (map chainText (p2Chains plan))
         \<and> sameSequence assignmentChains (sort_by compareText (map chainText (p2Chains plan)))
         \<and> calculatedTotal = p2TotalOre plan
         \<and> hasUniqueStrings (map a2NeedId (p2Assignments plan))
         \<and> sameSequence assignedNeedIds freshnessNeedIds
         \<and> hasUniqueStrings (p2Substitutions plan)
         \<and> \<not> list_ex (\<lambda>i. i \<notin> set assignedNeedIds) (p2Substitutions plan))"

definition freshnessEntry :: "string \<times> string \<Rightarrow> (string \<times> string) option" where
  "freshnessEntry = (\<lambda>(k, v). if v = ''eligible'' then map_option (\<lambda>i. (i, v)) (identifierSchema k) else None)"

definition planResultV2Schema :: "plan_v2 \<Rightarrow> plan_v2 option" where
  "planResultV2Schema plan =
     (case (identifierSchema (p2Id plan), parseAll planAssignmentV2Schema (p2Assignments plan),
            parseAll identifierSchema (p2Substitutions plan), parseAll freshnessEntry (p2Freshness plan)) of
        (Some i, Some as, Some subs, Some freshness) \<Rightarrow>
          (let parsed = plan\<lparr>p2Id := i, p2Assignments := as, p2Substitutions := subs, p2Freshness := newMap freshness\<rparr>
           in if 1 \<le> length as \<and> length as \<le> 50 \<and> moneyOreSchema (p2TotalOre plan)
                 \<and> 1 \<le> length (p2Chains plan) \<and> length (p2Chains plan) \<le> 3 \<and> length subs \<le> 50
                 \<and> planResultV2Refinement parsed
              then Some parsed else None)
      | _ \<Rightarrow> None)"

end
