(* ===== verification/Planner_V2.thy ===== *)
theory Planner_V2
  imports Planner Planner_V2_Contracts
begin

text \<open>
  \<open>packages/domain/src/planner-v2.ts\<close>: the second planner, which prices whole packages at the checkout, with official
  offers. Its chain order, \<open>combinations\<close> and \<open>stableHash\<close> repeat those of the first planner. The input is accepted only
  if parsing leaves it as it is (\<open>sameJsonValue\<close>).
\<close>

section \<open>Offers by product and chain\<close>

type_synonym offers_index = "(string \<times> official_offer list) list"

definition productChainKey :: "string \<Rightarrow> string \<Rightarrow> string" where
  "productChainKey productId chainId = productId @ char_of (0 :: nat) # chainId"

definition pushOffer :: "official_offer \<Rightarrow> offers_index \<Rightarrow> offers_index" where
  "pushOffer offer indexed =
     (case offerMatch offer of
        AmbiguousMatch _ \<Rightarrow> indexed
      | ExactMatch productId \<Rightarrow>
          (let key = productChainKey productId (offerChainId offer);
               current = (case map_of indexed key of None \<Rightarrow> [] | Some offers \<Rightarrow> offers)
           in AList.update key (current @ [offer]) indexed))"

definition indexOfficialOffers :: "official_offer list \<Rightarrow> offers_index" where
  "indexOfficialOffers offers =
     map (\<lambda>(key, values). (key, sort_by (\<lambda>l r. compareText (offerId l) (offerId r)) values)) (fold pushOffer offers [])"

definition offersAt :: "offers_index \<Rightarrow> string \<Rightarrow> official_offer list" where
  "offersAt indexed key = (case map_of indexed key of None \<Rightarrow> [] | Some offers \<Rightarrow> offers)"

section \<open>The first planner's types\<close>

definition legacyUnit :: "measure_unit \<Rightarrow> measure_unit" where
  "legacyUnit u = (if u = Gram \<or> u = Millilitre then u else Each)"

definition toLegacyNeed :: "planning_need \<Rightarrow> need" where
  "toLegacyNeed n =
     \<lparr>needId = planningNeedId n, needQuery = planningQuery n, needQuantity = of_int (measureAmount (planningRequested n)),
      needUnit = legacyUnit (measureUnit (planningRequested n)), needRuleId = planningRuleId n, needRequired = True\<rparr>"

definition toLegacyProduct :: "planning_product \<Rightarrow> product" where
  "toLegacyProduct p =
     \<lparr>productEan = planningEan p, productName = planningName p, productBrand = planningBrand p,
      packageQuantity = Some (of_int (measureAmount (planningMeasure p))),
      packageUnit = Some (legacyUnit (measureUnit (planningMeasure p))), productFamily = planningFamily p\<rparr>"

section \<open>The best checkout\<close>

type_synonym checkout_choice = "checkout_cost \<times> official_offer option"

definition officialOfferReference :: "official_offer \<Rightarrow> offer_reference" where
  "officialOfferReference offer =
     \<lparr>referenceId = offerId offer, referenceSourceId = offerSourceId offer, referenceRecordId = offerRecordId offer,
      referenceCapturedAt = offerCapturedAt offer\<rparr>"

definition compareCheckoutChoices :: "checkout_choice \<Rightarrow> checkout_choice \<Rightarrow> int" where
  "compareCheckoutChoices left right =
     js_or (checkoutTotalOre (fst left) - checkoutTotalOre (fst right))
     (js_or (ordinaryTotalOre (fst left) - ordinaryTotalOre (fst right))
       (compareText (orEmpty (appliedOfferId (fst left))) (orEmpty (appliedOfferId (fst right)))))"

definition checkoutFor ::
    "planning_product \<Rightarrow> price_observation \<Rightarrow> int \<Rightarrow> offer_context \<Rightarrow> official_offer option \<Rightarrow> checkout_input" where
  "checkoutFor item observation packs c offer =
     \<lparr>checkoutProductId = planningProductId item, checkoutChainId = chainText (priceChain observation),
      checkoutPackages = packs, checkoutUnitOre = amountOre observation, checkoutOffer = map_option Shaped offer,
      checkoutContext = c\<rparr>"

definition offerChoice ::
    "planning_product \<Rightarrow> price_observation \<Rightarrow> int \<Rightarrow> offer_context \<Rightarrow> official_offer \<Rightarrow> checkout_choice option" where
  "offerChoice item observation packs c offer =
     (case calculateCheckoutCost (checkoutFor item observation packs c (Some offer)) of
        Inl _ \<Rightarrow> None
      | Inr checkout \<Rightarrow> if appliedOfferId checkout = Some (offerId offer) then Some (checkout, Some offer) else None)"

definition bestCheckout ::
    "planning_product \<Rightarrow> price_observation \<Rightarrow> int \<Rightarrow> official_offer list \<Rightarrow> offer_context \<Rightarrow> checkout_choice option" where
  "bestCheckout item observation packs offers c =
     (case calculateCheckoutCost (checkoutFor item observation packs c None) of
        Inl _ \<Rightarrow> None
      | Inr ordinary \<Rightarrow>
          first_by compareCheckoutChoices
            ((ordinary, None) # List.map_filter (offerChoice item observation packs c) offers))"

section \<open>Candidates and identities\<close>

definition compareCandidatesV2 :: "assignment_v2 \<Rightarrow> assignment_v2 \<Rightarrow> int" where
  "compareCandidatesV2 left right =
     js_or (a2CostOre left - a2CostOre right)
     (js_or (ordinaryTotalOre (a2Checkout left) - ordinaryTotalOre (a2Checkout right))
     (js_or (compareText (a2Ean left) (a2Ean right))
     (js_or (compareChains (a2Chain left) (a2Chain right))
     (js_or (compareText (orEmpty (appliedOfferId (a2Checkout left))) (orEmpty (appliedOfferId (a2Checkout right))))
     (js_or (compareText (a2ObservedAt right) (a2ObservedAt left))
       (compareText (a2Source left) (a2Source right)))))))"

definition measureTexts :: "package_measure \<Rightarrow> string list" where
  "measureTexts m = [intText (measureAmount m), unitText (measureUnit m)]"

definition assignmentKeyV2 :: "assignment_v2 \<Rightarrow> string" where
  "assignmentKeyV2 a = joinText '':''
     ([a2NeedId a, a2ProductId a, a2Ean a, chainText (a2Chain a), intText (a2CostOre a)]
      @ measureTexts (v2Requested (a2Fulfilment a)) @ measureTexts (v2Package (a2Fulfilment a))
      @ [intText (v2PackageCount (a2Fulfilment a))] @ measureTexts (v2Purchased (a2Fulfilment a))
      @ measureTexts (v2Surplus (a2Fulfilment a))
      @ [case appliedOfferId (a2Checkout a) of None \<Rightarrow> ''ordinary'' | Some i \<Rightarrow> i])"

definition planIdentityV2 :: "assignment_v2 list \<Rightarrow> string" where
  "planIdentityV2 assignments = joinText ''|'' (map assignmentKeyV2 assignments)"

section \<open>One subset of chains\<close>

definition offerContextOf :: "planning_input \<Rightarrow> date \<Rightarrow> offer_context" where
  "offerContextOf input now =
     (let e = planningEligibility input in
      \<lparr>contextNow = now, contextMaxAgeMs = eligibilityMaxEvidenceAgeMs e, contextLocation = eligibilityPlace e,
       contextChannel = eligibilityChannel e, contextSources = eligibilitySourceIds e,
       contextMemberships = eligibilityMembershipIds e, contextDirectory = eligibilityGeographicDirectory e\<rparr>)"

definition priceCandidate ::
    "planning_need \<Rightarrow> chain list \<Rightarrow> string list \<Rightarrow> (string \<times> planning_product) list \<Rightarrow> offers_index \<Rightarrow> offer_context
     \<Rightarrow> price_observation \<Rightarrow> assignment_v2 option" where
  "priceCandidate need subsetChains matchingEans productByEan offersByProductChain c observation =
     (if priceChain observation \<notin> set subsetChains \<or> priceEan observation \<notin> set matchingEans then None
      else (case map_of productByEan (priceEan observation) of
        None \<Rightarrow> None
      | Some item \<Rightarrow>
          (case calculatePackageFulfilmentV2
                  \<lparr>inputProductId = planningProductId item, inputNeedId = planningNeedId need,
                   inputRequested = planningRequested need, inputPackage = planningMeasure item\<rparr> of
             Unavailable _ \<Rightarrow> None
           | Complete f \<Rightarrow>
               (case bestCheckout item observation (v2PackageCount f)
                       (offersAt offersByProductChain (productChainKey (planningProductId item) (chainText (priceChain observation)))) c of
                  None \<Rightarrow> None
                | Some (checkout, offer) \<Rightarrow>
                    Some \<lparr>a2NeedId = planningNeedId need, a2ProductId = planningProductId item, a2Ean = priceEan observation,
                          a2Chain = priceChain observation, a2CostOre = checkoutTotalOre checkout,
                          a2ObservedAt = priceObservedAt observation, a2Source = priceSource observation, a2Fulfilment = f,
                          a2Checkout = checkout, a2Offer = map_option officialOfferReference offer\<rparr>))))"

definition candidatesForV2 ::
    "host \<Rightarrow> match_rule \<Rightarrow> planning_input \<Rightarrow> price_observation list \<Rightarrow> offers_index \<Rightarrow> offer_context \<Rightarrow> chain list
     \<Rightarrow> planning_need \<Rightarrow> assignment_v2 list" where
  "candidatesForV2 h rule input eligiblePrices offersByProductChain c subsetChains need =
     (let legacyProducts = map toLegacyProduct (planningProducts input);
          productByEan = newMap (map (\<lambda>p. (planningEan p, p)) (planningProducts input));
          matchingEans = map productEan (matchProducts h (toLegacyNeed need) rule legacyProducts)
      in List.map_filter (priceCandidate need subsetChains matchingEans productByEan offersByProductChain c) eligiblePrices)"

record draft_v2 =
  draft2Assignments :: "assignment_v2 list"
  draft2Substitutions :: "string list"
  draft2Freshness :: "(string \<times> string) list"

text \<open>The loop over the needs; \<open>None\<close> is its early return.\<close>

fun assignNeedsV2 ::
    "(string \<times> match_rule) list \<Rightarrow> (match_rule \<Rightarrow> planning_need \<Rightarrow> assignment_v2 list) \<Rightarrow> planning_need list \<Rightarrow> draft_v2
     \<Rightarrow> draft_v2 option" where
  "assignNeedsV2 rulesById candidates [] d = Some d"
| "assignNeedsV2 rulesById candidates (need # needs) d =
     (case map_of rulesById (planningRuleId need) of
        None \<Rightarrow> None
      | Some rule \<Rightarrow>
          (case first_by compareCandidatesV2 (candidates rule need) of
             None \<Rightarrow> None
           | Some selected \<Rightarrow>
               assignNeedsV2 rulesById candidates needs
                 \<lparr>draft2Assignments = draft2Assignments d @ [selected],
                  draft2Substitutions = (if ruleMode rule \<noteq> ExactMode then draft2Substitutions d @ [planningNeedId need]
                                         else draft2Substitutions d),
                  draft2Freshness = AList.update (planningNeedId need) ''eligible'' (draft2Freshness d)\<rparr>))"

definition planForSubsetV2 ::
    "host \<Rightarrow> planning_input \<Rightarrow> (string \<times> match_rule) list \<Rightarrow> price_observation list \<Rightarrow> offers_index \<Rightarrow> chain list \<Rightarrow> date
     \<Rightarrow> plan_v2 option" where
  "planForSubsetV2 h input rulesById eligiblePrices offersByProductChain subsetChains now =
     (case assignNeedsV2 rulesById
             (\<lambda>rule. candidatesForV2 h rule input eligiblePrices offersByProductChain (offerContextOf input now) subsetChains)
             (planningNeeds input) \<lparr>draft2Assignments = [], draft2Substitutions = [], draft2Freshness = []\<rparr> of
        None \<Rightarrow> None
      | Some d \<Rightarrow>
          (let assignments = sort_by (\<lambda>l r. compareText (a2NeedId l) (a2NeedId r)) (draft2Assignments d);
               substitutions = sort_by compareText (draft2Substitutions d);
               total = foldl (\<lambda>t a. t + a2CostOre a) 0 assignments
           in if total > MAX_PERSISTED_MONEY_ORE then None
              else
                (let used = sort_by compareChains (uniq (map a2Chain assignments))
                 in if length used = 0 \<or> length used > planningMaxStores input \<or> length used > 3 then None
                    else planResultV2Schema
                      \<lparr>p2Id = ''plan-v2-'' @ stableHash (planIdentityV2 assignments), p2Assignments = assignments,
                       p2TotalOre = total, p2Chains = used, p2Substitutions = substitutions,
                       p2Freshness = draft2Freshness d\<rparr>)))"

section \<open>All plans\<close>

definition dominatesV2 :: "plan_v2 \<Rightarrow> plan_v2 \<Rightarrow> bool" where
  "dominatesV2 left right =
     (let noWorse = p2TotalOre left \<le> p2TotalOre right \<and> length (p2Chains left) \<le> length (p2Chains right)
            \<and> length (p2Substitutions left) \<le> length (p2Substitutions right);
          strictlyBetter = p2TotalOre left < p2TotalOre right \<or> length (p2Chains left) < length (p2Chains right)
            \<or> length (p2Substitutions left) < length (p2Substitutions right)
      in noWorse \<and> strictlyBetter)"

definition comparePlansV2 :: "plan_v2 \<Rightarrow> plan_v2 \<Rightarrow> int" where
  "comparePlansV2 left right =
     js_or (int (length (p2Chains left)) - int (length (p2Chains right)))
     (js_or (int (length (p2Substitutions left)) - int (length (p2Substitutions right)))
     (js_or (p2TotalOre left - p2TotalOre right)
       (compareText (planIdentityV2 (p2Assignments left)) (planIdentityV2 (p2Assignments right)))))"

definition enumerateCompletePlanCandidatesV2 :: "host \<Rightarrow> planning_input \<Rightarrow> date \<Rightarrow> plan_v2 list" where
  "enumerateCompletePlanCandidatesV2 h input now =
     (if now = None then []
      else if serverPlanningInputV2Schema input \<noteq> Some input then []
      else
        (let rulesById = newMap (map (\<lambda>r. (ruleId r, r)) (planningRules input));
             eligiblePrices = filter (\<lambda>p. classifyFreshness now (Some (dateParse (priceObservedAt p))) = Eligible) (ordinaryPrices input);
             availableChains = filter (\<lambda>c. list_ex (\<lambda>p. priceChain p = c) eligiblePrices) CHAIN_ORDER;
             offersByProductChain = indexOfficialOffers (officialOffers input);
             plans = List.map_filter (\<lambda>S. planForSubsetV2 h input rulesById eligiblePrices offersByProductChain S now)
                       (combinations availableChains (min (planningMaxStores input) 3));
             uniqueAssignments = newMap (map (\<lambda>p. (planIdentityV2 (p2Assignments p), p)) (sort_by comparePlansV2 plans))
         in sort_by comparePlansV2 (map snd uniqueAssignments)))"

definition calculatePlansV2 :: "host \<Rightarrow> planning_input \<Rightarrow> date \<Rightarrow> plan_v2 list" where
  "calculatePlansV2 h input now =
     (let candidates = enumerateCompletePlanCandidatesV2 h input now
      in sort_by comparePlansV2 (nonDominated dominatesV2 candidates))"

end
