(* ===== verification/Planner_V2_Correct.thy ===== *)
theory Planner_V2_Correct
  imports Planner_V2 Planner_Correct
begin

text \<open>
  What the second planner promises: the best checkout of one observation, admission of every plan by the published
  contract, and completeness of the frontier over every way to buy all needs.
\<close>

section \<open>The cheapest purchase in a subset of chains\<close>

definition cheapestIn :: "'a cmp \<Rightarrow> ('a \<Rightarrow> chain) \<Rightarrow> ('n \<Rightarrow> 'a list) \<Rightarrow> chain set \<Rightarrow> 'n \<Rightarrow> 'a option" where
  "cheapestIn cmp chainOf choices S n = first_by cmp (filter (\<lambda>a. chainOf a \<in> S) (choices n))"

locale purchasing =
  fixes cmp :: "'a cmp" and chainOf :: "'a \<Rightarrow> chain" and cost :: "'a \<Rightarrow> int"
  assumes cmp_comparator: "comparator cmp"
    and cmp_cost: "cmp a b \<le> 0 \<Longrightarrow> cost a \<le> cost b"
begin

lemma cheapest_option: "cheapestIn cmp chainOf choices S n = Some b \<Longrightarrow> b \<in> set (choices n) \<and> chainOf b \<in> S"
  unfolding cheapestIn_def by (auto dest: first_by_in)

lemma cheapest_exists:
  assumes "a \<in> set (choices n)" and "chainOf a \<in> S"
  obtains b where "cheapestIn cmp chainOf choices S n = Some b" "cost b \<le> cost a"
proof -
  have a: "a \<in> set (filter (\<lambda>a. chainOf a \<in> S) (choices n))" using assms by simp
  then have "cheapestIn cmp chainOf choices S n \<noteq> None" unfolding cheapestIn_def by (metis empty_iff first_by_None list.set(1))
  then obtain b where b: "cheapestIn cmp chainOf choices S n = Some b" by auto
  then have "cmp b a \<le> 0" unfolding cheapestIn_def using a by (intro first_by_min [OF cmp_comparator])
  with b that cmp_cost show ?thesis by blast
qed

lemma purchases_choices:
  assumes "parseAll (cheapestIn cmp chainOf choices S) needs = Some bs"
  shows "list_all2 (\<lambda>n b. b \<in> set (choices n)) needs bs \<and> chainOf ` set bs \<subseteq> S"
proof
  show "list_all2 (\<lambda>n b. b \<in> set (choices n)) needs bs"
    using assms unfolding parseAll_Some by (rule list_all2_mono) (simp add: cheapest_option)
  show "chainOf ` set bs \<subseteq> S"
  proof
    fix c assume "c \<in> chainOf ` set bs"
    then obtain b where b: "b \<in> set bs" "c = chainOf b" by auto
    obtain n where "cheapestIn cmp chainOf choices S n = Some b" using parseAll_in [OF assms b(1)] by auto
    from cheapest_option [OF this] b(2) show "c \<in> S" by simp
  qed
qed

lemma purchases_cheapest:
  assumes "list_all2 (\<lambda>n a. a \<in> set (choices n)) needs as" and "chainOf ` set as \<subseteq> S"
  shows "\<exists>bs. parseAll (cheapestIn cmp chainOf choices S) needs = Some bs
    \<and> sum_list (map cost bs) \<le> sum_list (map cost as)"
  using assms
proof (induction needs as rule: list_all2_induct)
  case (Cons n needs a as)
  then obtain b where "cheapestIn cmp chainOf choices S n = Some b" "cost b \<le> cost a"
    using cheapest_exists [of a choices n S] by auto
  with Cons show ?case by auto
qed simp

end

lemma comparator_candidatesV2: "comparator compareCandidatesV2"
  unfolding compareCandidatesV2_def compareChains_def by (intro comparator_intros)

interpretation v2_purchasing: purchasing compareCandidatesV2 a2Chain a2CostOre
proof (rule purchasing.intro [OF comparator_candidatesV2])
  show "a2CostOre a \<le> a2CostOre b" if "compareCandidatesV2 a b \<le> 0" for a b
    using that by (auto simp: compareCandidatesV2_def js_or_def split: if_splits)
qed

section \<open>The best checkout\<close>

interpretation by_checkout: comparator compareCheckoutChoices
  unfolding compareCheckoutChoices_def by (intro comparator_intros)

lemma checkout_Inr:
  assumes "calculateCheckoutCost i = Inr c"
  shows "0 \<le> checkoutTotalOre c" "checkoutTotalOre c \<le> ordinaryTotalOre c"
    "ordinaryTotalOre c = checkoutPackages i * checkoutUnitOre i" "ordinaryTotalOre c \<le> MAX_PERSISTED_MONEY_ORE"
    "savingOre c = ordinaryTotalOre c - checkoutTotalOre c" "appliedOfferId c = None \<longleftrightarrow> savingOre c = 0"
    "checkoutOffer i = None \<Longrightarrow> appliedOfferId c = None"
proof -
  have valid: "validCheckout i" using assms by (auto simp: calculateCheckoutCost_def validCheckout_def split: if_splits)
  then have n: "1 \<le> checkoutPackages i" "0 \<le> checkoutUnitOre i"
    by (auto simp: validCheckout_def positiveSafeInteger_def moneyOreSchema_def)
  obtain ordinary where ordinary: "safeMoneyProduct (checkoutPackages i) (checkoutUnitOre i) = Some ordinary"
    using assms valid by (auto simp: calculateCheckoutCost_def validCheckout_def split: option.splits)
  then have o: "ordinary = checkoutPackages i * checkoutUnitOre i" "ordinary \<le> MAX_PERSISTED_MONEY_ORE" "0 \<le> ordinary"
    using n by (auto simp: safeMoneyProduct_def Let_def split: if_splits)
  have "c = ordinaryCheckoutCost ordinary \<or>
    (\<exists>raw offer t. checkoutOffer i = Some raw \<and> parseApplicableOfficialOffer raw (checkoutContext i) = Inr offer
       \<and> offerTotal (offerPricing offer) (checkoutPackages i) (checkoutUnitOre i) = Some t \<and> t < ordinary
       \<and> c = \<lparr>ordinaryTotalOre = ordinary, savingOre = ordinary - t, checkoutTotalOre = t, appliedOfferId = Some (offerId offer)\<rparr>)"
    using assms valid ordinary
    by (auto simp: calculateCheckoutCost_def validCheckout_def split: option.splits sum.splits if_splits)
  moreover have "0 \<le> t" if "parseApplicableOfficialOffer raw (checkoutContext i) = Inr offer"
    "offerTotal (offerPricing offer) (checkoutPackages i) (checkoutUnitOre i) = Some t" for raw offer t
    using that(2) offerTotal_eq [OF applicable_offer_pricing [OF that(1)] n] offerPrice_nonneg [OF applicable_offer_pricing [OF that(1)] n]
    by (simp split: if_splits)
  ultimately show "0 \<le> checkoutTotalOre c" "checkoutTotalOre c \<le> ordinaryTotalOre c"
    "ordinaryTotalOre c = checkoutPackages i * checkoutUnitOre i" "ordinaryTotalOre c \<le> MAX_PERSISTED_MONEY_ORE"
    "savingOre c = ordinaryTotalOre c - checkoutTotalOre c" "appliedOfferId c = None \<longleftrightarrow> savingOre c = 0"
    "checkoutOffer i = None \<Longrightarrow> appliedOfferId c = None"
    using o by (auto simp: ordinaryCheckoutCost_def)
qed

lemma bestCheckout_cases:
  assumes "bestCheckout item p n offers c = Some (ck, offer)"
  obtains ordinary where "calculateCheckoutCost (checkoutFor item p n c None) = Inr ordinary"
    "appliedOfferId ordinary = None"
    "first_by compareCheckoutChoices ((ordinary, None) # List.map_filter (offerChoice item p n c) offers) = Some (ck, offer)"
proof -
  obtain ordinary where ordinary: "calculateCheckoutCost (checkoutFor item p n c None) = Inr ordinary"
    "first_by compareCheckoutChoices ((ordinary, None) # List.map_filter (offerChoice item p n c) offers) = Some (ck, offer)"
    using assms by (auto simp: bestCheckout_def split: sum.splits)
  moreover have "appliedOfferId ordinary = None" using checkout_Inr(7) [OF ordinary(1)] by (simp add: checkoutFor_def)
  ultimately show thesis using that by blast
qed

lemma bestCheckout_Some:
  assumes "bestCheckout item p n offers c = Some (ck, offer)"
  shows "calculateCheckoutCost (checkoutFor item p n c offer) = Inr ck"
    "appliedOfferId ck = map_option offerId offer" "\<And>o'. offer = Some o' \<Longrightarrow> o' \<in> set offers"
proof -
  obtain ordinary where ordinary: "calculateCheckoutCost (checkoutFor item p n c None) = Inr ordinary" "appliedOfferId ordinary = None"
    and first: "first_by compareCheckoutChoices ((ordinary, None) # List.map_filter (offerChoice item p n c) offers) = Some (ck, offer)"
    using bestCheckout_cases [OF assms] .
  consider "ck = ordinary" "offer = None" | o' where "o' \<in> set offers" "offerChoice item p n c o' = Some (ck, offer)"
    using first_by_in [OF first] by (auto simp: mem_map_filter)
  then have "calculateCheckoutCost (checkoutFor item p n c offer) = Inr ck
    \<and> appliedOfferId ck = map_option offerId offer \<and> (\<forall>o'. offer = Some o' \<longrightarrow> o' \<in> set offers)"
    using ordinary by cases (auto simp: offerChoice_def split: sum.splits if_splits)
  then show "calculateCheckoutCost (checkoutFor item p n c offer) = Inr ck"
    "appliedOfferId ck = map_option offerId offer" "\<And>o'. offer = Some o' \<Longrightarrow> o' \<in> set offers" by blast+
qed

lemma checkout_applied:
  assumes "calculateCheckoutCost (checkoutFor item p n c (Some offer)) = Inr ck" and "officialOfferSchema offer = Some offer"
  shows "appliedOfferId ck = None \<or> appliedOfferId ck = Some (offerId offer)"
  using assms
  by (auto simp: calculateCheckoutCost_def checkoutFor_def ordinaryCheckoutCost_def dest: applicable_shaped
      split: if_splits option.splits sum.splits)

lemma bestCheckout_least:
  assumes "bestCheckout item p n offers c = Some (ck, offer)"
    and "o' \<in> set offers" and "officialOfferSchema o' = Some o'"
    and ck': "calculateCheckoutCost (checkoutFor item p n c (Some o')) = Inr ck'"
  shows "checkoutTotalOre ck \<le> checkoutTotalOre ck'"
proof -
  obtain ordinary where ordinary: "calculateCheckoutCost (checkoutFor item p n c None) = Inr ordinary" "appliedOfferId ordinary = None"
    and first: "first_by compareCheckoutChoices ((ordinary, None) # List.map_filter (offerChoice item p n c) offers) = Some (ck, offer)"
    using bestCheckout_cases [OF assms(1)] .
  have least: "checkoutTotalOre ck \<le> checkoutTotalOre (fst x)"
    if "x \<in> set ((ordinary, None) # List.map_filter (offerChoice item p n c) offers)" for x
    using first_by_min [OF by_checkout.comparator_axioms first that]
    by (auto simp: compareCheckoutChoices_def js_or_def split: if_splits)
  show ?thesis
  proof (cases "appliedOfferId ck' = Some (offerId o')")
    case True
    then have "(ck', Some o') \<in> set (List.map_filter (offerChoice item p n c) offers)"
      using assms(2) ck' by (auto simp: mem_map_filter offerChoice_def intro!: bexI [of _ o'])
    with least [of "(ck', Some o')"] show ?thesis by simp
  next
    case False
    then have "appliedOfferId ck' = None" using checkout_applied [OF ck' assms(3)] by simp
    then have "checkoutTotalOre ck' = ordinaryTotalOre ck'" using checkout_Inr(5,6) [OF ck'] by simp
    also have "\<dots> = checkoutTotalOre ordinary"
      using checkout_Inr(3) [OF ck'] checkout_Inr(3,5,6) [OF ordinary(1)] ordinary(2) by (simp add: checkoutFor_def)
    finally show ?thesis using least [of "(ordinary, None)"] by simp
  qed
qed

section \<open>One subset of chains\<close>

definition rules2 :: "planning_input \<Rightarrow> (string \<times> match_rule) list" where
  "rules2 input = newMap (map (\<lambda>r. (ruleId r, r)) (planningRules input))"

definition prices2 :: "planning_input \<Rightarrow> date \<Rightarrow> price_observation list" where
  "prices2 input now = filter (\<lambda>p. classifyFreshness now (Some (dateParse (priceObservedAt p))) = Eligible) (ordinaryPrices input)"

definition chains2 :: "planning_input \<Rightarrow> date \<Rightarrow> chain list" where
  "chains2 input now = filter (\<lambda>c. list_ex (\<lambda>p. priceChain p = c) (prices2 input now)) CHAIN_ORDER"

definition candidates2 :: "host \<Rightarrow> planning_input \<Rightarrow> date \<Rightarrow> chain list \<Rightarrow> match_rule \<Rightarrow> planning_need \<Rightarrow> assignment_v2 list" where
  "candidates2 h input now S rule n = candidatesForV2 h rule input (prices2 input now)
     (indexOfficialOffers (officialOffers input)) (offerContextOf input now) S n"

text \<open>What a need may buy anywhere.\<close>

definition choices2 :: "host \<Rightarrow> planning_input \<Rightarrow> date \<Rightarrow> planning_need \<Rightarrow> assignment_v2 list" where
  "choices2 h input now n =
     (case map_of (rules2 input) (planningRuleId n) of None \<Rightarrow> []
      | Some rule \<Rightarrow> candidates2 h input now CHAIN_ORDER rule n)"

abbreviation buy2 :: "host \<Rightarrow> planning_input \<Rightarrow> date \<Rightarrow> chain set \<Rightarrow> planning_need \<Rightarrow> assignment_v2 option" where
  "buy2 h input now \<equiv> cheapestIn compareCandidatesV2 a2Chain (choices2 h input now)"

lemma priceCandidate_Some:
  assumes "priceCandidate n S eans items offers c p = Some a"
  obtains item f ck offer where "priceChain p \<in> set S" "priceEan p \<in> set eans" "map_of items (priceEan p) = Some item"
    "calculatePackageFulfilmentV2 \<lparr>inputProductId = planningProductId item, inputNeedId = planningNeedId n,
       inputRequested = planningRequested n, inputPackage = planningMeasure item\<rparr> = Complete f"
    "bestCheckout item p (v2PackageCount f) (offersAt offers (productChainKey (planningProductId item) (chainText (priceChain p)))) c = Some (ck, offer)"
    "a = \<lparr>a2NeedId = planningNeedId n, a2ProductId = planningProductId item, a2Ean = priceEan p, a2Chain = priceChain p,
          a2CostOre = checkoutTotalOre ck, a2ObservedAt = priceObservedAt p, a2Source = priceSource p, a2Fulfilment = f,
          a2Checkout = ck, a2Offer = map_option officialOfferReference offer\<rparr>"
  using assms by (auto simp: priceCandidate_def split: if_splits option.splits package_result.splits prod.splits)

lemma priceCandidate_chain: "priceCandidate n S eans items offers c p = Some a \<Longrightarrow> a2Chain a = priceChain p"
  by (auto elim!: priceCandidate_Some)

lemma priceCandidate_restrict:
  "priceCandidate n S eans items offers c p = Some a \<longleftrightarrow>
     priceCandidate n CHAIN_ORDER eans items offers c p = Some a \<and> a2Chain a \<in> set S"
proof (cases "priceChain p \<in> set S")
  case True
  then have "priceCandidate n S eans items offers c p = priceCandidate n CHAIN_ORDER eans items offers c p"
    by (simp add: priceCandidate_def CHAIN_ORDER_all)
  then show ?thesis using True priceCandidate_chain [of n CHAIN_ORDER eans items offers c p a] by auto
next
  case False
  then have "priceCandidate n S eans items offers c p = None" by (simp add: priceCandidate_def)
  moreover have "\<not> (priceCandidate n CHAIN_ORDER eans items offers c p = Some a \<and> a2Chain a \<in> set S)"
    using False priceCandidate_chain [of n CHAIN_ORDER eans items offers c p a] by auto
  ultimately show ?thesis by simp
qed

lemma map_filter_restrict:
  assumes "\<And>x a. f x = Some a \<longleftrightarrow> g x = Some a \<and> P a"
  shows "List.map_filter f xs = filter P (List.map_filter g xs)"
proof (induction xs)
  case (Cons x xs)
  show ?case
  proof (cases "f x")
    case None
    then have "g x = None \<or> (\<exists>a. g x = Some a \<and> \<not> P a)" using assms by (metis not_None_eq)
    with Cons None show ?thesis by (auto simp: map_filter_simps)
  next
    case (Some a)
    then have "g x = Some a" "P a" using assms by auto
    with Cons Some show ?thesis by (simp add: map_filter_simps)
  qed
qed (simp add: map_filter_simps)

lemma candidates2_restrict: "candidates2 h input now S rule n = filter (\<lambda>a. a2Chain a \<in> set S) (candidates2 h input now CHAIN_ORDER rule n)"
  unfolding candidates2_def candidatesForV2_def Let_def
  by (rule map_filter_restrict) (rule priceCandidate_restrict)

definition substituted2 :: "planning_input \<Rightarrow> planning_need \<Rightarrow> bool" where
  "substituted2 input n = (case map_of (rules2 input) (planningRuleId n) of None \<Rightarrow> False | Some r \<Rightarrow> ruleMode r \<noteq> ExactMode)"

lemma assignNeedsV2_eq:
  "assignNeedsV2 (rules2 input) (candidates2 h input now S) needs d =
     (case parseAll (buy2 h input now (set S)) needs of None \<Rightarrow> None
      | Some as \<Rightarrow> Some \<lparr>draft2Assignments = draft2Assignments d @ as,
           draft2Substitutions = draft2Substitutions d @ map planningNeedId (filter (substituted2 input) needs),
           draft2Freshness = fold (\<lambda>n. AList.update (planningNeedId n) ''eligible'') needs (draft2Freshness d)\<rparr>)"
proof (induction needs arbitrary: d)
  case (Cons n needs)
  have buy: "buy2 h input now (set S) n = (case map_of (rules2 input) (planningRuleId n) of None \<Rightarrow> None
      | Some rule \<Rightarrow> first_by compareCandidatesV2 (candidates2 h input now S rule n))"
    by (cases "map_of (rules2 input) (planningRuleId n)")
      (simp_all add: cheapestIn_def choices2_def candidates2_restrict [of h input now S])
  have sub: "substituted2 input n = (case map_of (rules2 input) (planningRuleId n) of None \<Rightarrow> False | Some r \<Rightarrow> ruleMode r \<noteq> ExactMode)"
    by (simp add: substituted2_def)
  show ?case
    by (cases "map_of (rules2 input) (planningRuleId n)"; cases "buy2 h input now (set S) n")
      (auto simp: Cons.IH buy sub split: option.splits)
qed simp

definition planOf2 :: "planning_input \<Rightarrow> assignment_v2 list \<Rightarrow> plan_v2" where
  "planOf2 input bs =
     (let as = sort_by (\<lambda>l r. compareText (a2NeedId l) (a2NeedId r)) bs in
      \<lparr>p2Id = ''plan-v2-'' @ stableHash (planIdentityV2 as), p2Assignments = as,
       p2TotalOre = foldl (\<lambda>t a. t + a2CostOre a) 0 as, p2Chains = sort_by compareChains (uniq (map a2Chain as)),
       p2Substitutions = sort_by compareText (map planningNeedId (filter (substituted2 input) (planningNeeds input))),
       p2Freshness = fold (\<lambda>n. AList.update (planningNeedId n) ''eligible'') (planningNeeds input) []\<rparr>)"

definition subsetPlan2 :: "host \<Rightarrow> planning_input \<Rightarrow> date \<Rightarrow> chain list \<Rightarrow> plan_v2 option" where
  "subsetPlan2 h input now S =
     planForSubsetV2 h input (rules2 input) (prices2 input now) (indexOfficialOffers (officialOffers input)) S now"

lemma subsetPlan2_eq:
  "subsetPlan2 h input now S =
     (case parseAll (buy2 h input now (set S)) (planningNeeds input) of None \<Rightarrow> None
      | Some bs \<Rightarrow>
          (let p = planOf2 input bs in
           if p2TotalOre p > MAX_PERSISTED_MONEY_ORE \<or> length (p2Chains p) = 0
              \<or> length (p2Chains p) > planningMaxStores input \<or> length (p2Chains p) > 3 then None
           else planResultV2Schema p))"
proof -
  have "(\<lambda>rule. candidatesForV2 h rule input (prices2 input now) (indexOfficialOffers (officialOffers input))
      (offerContextOf input now) S) = candidates2 h input now S"
    by (intro ext) (simp add: candidates2_def)
  then show ?thesis
    unfolding subsetPlan2_def planForSubsetV2_def
    by (auto simp: assignNeedsV2_eq planOf2_def Let_def split: option.split)
qed

lemma foldl_sum: "foldl (\<lambda>t a. t + f a) (z :: int) xs = z + sum_list (map f xs)"
  by (induction xs arbitrary: z) auto

lemma planOf2_fields:
  "mset (p2Assignments (planOf2 input bs)) = mset bs"
  "p2TotalOre (planOf2 input bs) = sum_list (map a2CostOre bs)"
  "set (p2Chains (planOf2 input bs)) = a2Chain ` set bs"
  "length (p2Chains (planOf2 input bs)) = card (a2Chain ` set bs)"
  "p2Substitutions (planOf2 input bs) = sort_by compareText (map planningNeedId (filter (substituted2 input) (planningNeeds input)))"
  by (simp_all add: planOf2_def Let_def foldl_sum)

section \<open>Accepted inputs\<close>

lemma accepted_input:
  assumes "serverPlanningInputV2Schema input = Some input"
  shows "\<forall>n \<in> set (planningNeeds input). planningNeedV2Schema n = Some n"
    "\<forall>p \<in> set (planningProducts input). planningProductV2Schema p = Some p"
    "\<forall>p \<in> set (ordinaryPrices input). sourceNeutralPriceObservationSchema p = Some p"
    "\<forall>o' \<in> set (officialOffers input). officialOfferSchema o' = Some o'"
    "distinct (map planningNeedId (planningNeeds input))" "distinct (map planningEan (planningProducts input))"
    "1 \<le> length (planningNeeds input)" "length (planningNeeds input) \<le> 50" "planningMaxStores input \<in> {1, 2, 3}"
proof -
  obtain needs rules items prices offers eligibility where
    p: "parseAll planningNeedV2Schema (planningNeeds input) = Some needs"
      "parseAll matchRuleSchema (planningRules input) = Some rules"
      "parseAll planningProductV2Schema (planningProducts input) = Some items"
      "parseAll sourceNeutralPriceObservationSchema (ordinaryPrices input) = Some prices"
      "parseAll officialOfferSchema (officialOffers input) = Some offers"
    and i: "input = \<lparr>planningNeeds = needs, planningRules = rules, planningProducts = items, ordinaryPrices = prices,
        officialOffers = offers, planningEligibility = eligibility, planningMaxStores = planningMaxStores input\<rparr>"
    and r: "1 \<le> length needs" "length needs \<le> 50" "planningMaxStores input \<in> {1, 2, 3}" "planningInputRefinement input"
    using assms unfolding serverPlanningInputV2Schema_def Let_def by (auto split: option.splits if_splits)
  have eqs: "needs = planningNeeds input" "items = planningProducts input" "prices = ordinaryPrices input" "offers = officialOffers input"
    by (subst i, simp)+
  show "\<forall>n \<in> set (planningNeeds input). planningNeedV2Schema n = Some n"
    "\<forall>p \<in> set (planningProducts input). planningProductV2Schema p = Some p"
    "\<forall>p \<in> set (ordinaryPrices input). sourceNeutralPriceObservationSchema p = Some p"
    "\<forall>o' \<in> set (officialOffers input). officialOfferSchema o' = Some o'"
    using p unfolding eqs parseAll_fixed by blast+
  show "distinct (map planningNeedId (planningNeeds input))" "distinct (map planningEan (planningProducts input))"
    using r(4) by (simp_all add: planningInputRefinement_def)
  show "1 \<le> length (planningNeeds input)" "length (planningNeeds input) \<le> 50" "planningMaxStores input \<in> {1, 2, 3}"
    using r eqs by simp_all
qed

lemma needSchemaV2_id: "planningNeedV2Schema m = Some n \<Longrightarrow> identifierSchema (planningNeedId n) = Some (planningNeedId n)"
  by (auto simp: planningNeedV2Schema_def split: option.splits dest: identifierSchema_idem)

lemma gtinSchema_same: "gtinSchema s = Some t \<Longrightarrow> gtinSchema t = Some t"
  by (auto simp: gtinSchema_def split: if_splits)

lemma gtinSchema_eq: "gtinSchema s = Some t \<Longrightarrow> t = s"
  by (auto simp: gtinSchema_def split: if_splits)

lemma productSchemaV2_facts:
  assumes "planningProductV2Schema q = Some p"
  shows "identifierSchema (planningProductId p) = Some (planningProductId p)" "gtinSchema (planningEan p) = Some (planningEan p)"
  using assms
  by (auto simp: planningProductV2Schema_def split: option.splits dest: identifierSchema_idem gtinSchema_eq)

lemma update_values: "(k', v') \<in> set (AList.update k v m) \<Longrightarrow> (k', v') \<in> set m \<or> v' = v"
  by (induction m) (auto split: if_splits)

definition offersWithin :: "official_offer set \<Rightarrow> offers_index \<Rightarrow> bool" where
  "offersWithin U m \<longleftrightarrow> (\<forall>k os. (k, os) \<in> set m \<longrightarrow> set os \<subseteq> U)"

lemma pushOffer_within:
  assumes "offersWithin U m" and "x \<in> U"
  shows "offersWithin U (pushOffer x m)"
proof (cases "offerMatch x")
  case (ExactMatch i)
  let ?k = "productChainKey i (offerChainId x)"
  define current where "current = (case map_of m ?k of None \<Rightarrow> [] | Some os \<Rightarrow> os)"
  have cur: "set current \<subseteq> U"
    unfolding current_def using assms(1) by (cases "map_of m ?k") (auto simp: offersWithin_def dest!: map_of_SomeD)
  have push: "pushOffer x m = AList.update ?k (current @ [x]) m" using ExactMatch by (simp add: pushOffer_def Let_def current_def)
  have "set os \<subseteq> U" if new: "(k, os) \<in> set (pushOffer x m)" for k os
  proof -
    have "(k, os) \<in> set m \<or> os = current @ [x]" using new unfolding push by (rule update_values)
    then show ?thesis
    proof
      assume "(k, os) \<in> set m"
      with assms(1) show ?thesis unfolding offersWithin_def by blast
    next
      assume "os = current @ [x]"
      with cur assms(2) show ?thesis by simp
    qed
  qed
  then show ?thesis unfolding offersWithin_def by (intro allI impI)
qed (use assms in \<open>simp add: pushOffer_def\<close>)

lemma fold_pushOffer_within: "offersWithin U m \<Longrightarrow> set offers \<subseteq> U \<Longrightarrow> offersWithin U (fold pushOffer offers m)"
  by (induction offers arbitrary: m) (simp_all add: pushOffer_within)

lemma offersAt_in:
  assumes "o' \<in> set (offersAt (indexOfficialOffers offers) key)"
  shows "o' \<in> set offers"
proof -
  have "offersWithin (set offers) (fold pushOffer offers [])"
    by (rule fold_pushOffer_within) (simp_all add: offersWithin_def)
  moreover obtain os where "(key, os) \<in> set (indexOfficialOffers offers)" "o' \<in> set os"
    using assms by (cases "map_of (indexOfficialOffers offers) key") (auto simp: offersAt_def dest: map_of_SomeD)
  then obtain os' where "(key, os') \<in> set (fold pushOffer offers [])" "o' \<in> set os'"
    by (auto simp: indexOfficialOffers_def)
  ultimately show ?thesis unfolding offersWithin_def by blast
qed

lemma choices2_cases:
  assumes "a \<in> set (choices2 h input now n)"
  obtains rule p item f ck offer where "map_of (rules2 input) (planningRuleId n) = Some rule" "p \<in> set (prices2 input now)"
    "item \<in> set (planningProducts input)" "planningEan item = priceEan p"
    "calculatePackageFulfilmentV2 \<lparr>inputProductId = planningProductId item, inputNeedId = planningNeedId n,
       inputRequested = planningRequested n, inputPackage = planningMeasure item\<rparr> = Complete f"
    "bestCheckout item p (v2PackageCount f)
       (offersAt (indexOfficialOffers (officialOffers input)) (productChainKey (planningProductId item) (chainText (priceChain p))))
       (offerContextOf input now) = Some (ck, offer)"
    "a = \<lparr>a2NeedId = planningNeedId n, a2ProductId = planningProductId item, a2Ean = priceEan p, a2Chain = priceChain p,
          a2CostOre = checkoutTotalOre ck, a2ObservedAt = priceObservedAt p, a2Source = priceSource p, a2Fulfilment = f,
          a2Checkout = ck, a2Offer = map_option officialOfferReference offer\<rparr>"
proof -
  obtain rule where rule: "map_of (rules2 input) (planningRuleId n) = Some rule"
    and "a \<in> set (candidates2 h input now CHAIN_ORDER rule n)"
    using assms by (cases "map_of (rules2 input) (planningRuleId n)") (auto simp: choices2_def)
  then obtain p eans where p: "p \<in> set (prices2 input now)"
    and a: "priceCandidate n CHAIN_ORDER eans (newMap (map (\<lambda>p. (planningEan p, p)) (planningProducts input)))
      (indexOfficialOffers (officialOffers input)) (offerContextOf input now) p = Some a"
    by (auto simp: candidates2_def candidatesForV2_def Let_def mem_map_filter)
  have "item \<in> set (planningProducts input) \<and> planningEan item = priceEan p"
    if "map_of (newMap (map (\<lambda>p. (planningEan p, p)) (planningProducts input))) (priceEan p) = Some item" for item
    using newMap_entry [OF map_of_SomeD [OF that]] by auto
  with a rule p that show thesis by (elim priceCandidate_Some) blast
qed

section \<open>Every assignment and plan is admitted\<close>

lemma fulfilmentV2_complete:
  assumes "calculatePackageFulfilmentV2 i = Complete f" and "identifierSchema (inputNeedId i) = Some (inputNeedId i)"
    and "identifierSchema (inputProductId i) = Some (inputProductId i)"
  shows "fulfilmentV2Schema f = Some f" "v2NeedId f = inputNeedId i" "v2ProductId f = inputProductId i"
    "positiveSafeInteger (v2PackageCount f)"
proof -
  obtain raw where raw: "fulfilmentV2Schema raw = Some f" "v2NeedId raw = inputNeedId i" "v2ProductId raw = inputProductId i"
    using assms by (auto simp: calculatePackageFulfilmentV2_def Let_def split: option.splits if_splits)
  have "f = raw"
    using raw assms(2,3) by (auto simp: fulfilmentV2Schema_def split: option.splits if_splits)
  with raw show "fulfilmentV2Schema f = Some f" "v2NeedId f = inputNeedId i" "v2ProductId f = inputProductId i"
    "positiveSafeInteger (v2PackageCount f)"
    by (auto simp: fulfilmentV2Schema_def split: option.splits if_splits)
qed

lemma officialOffer_fixed:
  assumes "officialOfferSchema raw = Some offer"
  shows "identifierSchema (offerId offer) = Some (offerId offer)"
    "appliedOfficialOfferReferenceSchema (officialOfferReference offer) = Some (officialOfferReference offer)"
proof -
  obtain i s r c m a where p: "identifierSchema (offerId raw) = Some i" "sourceIdSchema (offerSourceId raw) = Some s"
    "identifierSchema (offerRecordId raw) = Some r" "canonicalTimestamp (offerCapturedAt raw)"
    and offer: "offer = raw\<lparr>offerId := i, offerSourceId := s, offerRecordId := r, offerChainId := c,
               offerMatch := m, offerApplicability := a\<rparr>"
    using assms by (auto simp: officialOfferSchema_iff)
  have "identifierSchema i = Some i" "sourceIdSchema s = Some s" "identifierSchema r = Some r"
    using p text_schema_idem by blast+
  with p(4) show "identifierSchema (offerId offer) = Some (offerId offer)"
    "appliedOfficialOfferReferenceSchema (officialOfferReference offer) = Some (officialOfferReference offer)"
    by (simp_all add: offer appliedOfficialOfferReferenceSchema_def officialOfferReference_def)
qed

lemma choice_admitted:
  assumes acc: "serverPlanningInputV2Schema input = Some input" and n: "n \<in> set (planningNeeds input)"
    and a: "a \<in> set (choices2 h input now n)"
  shows "planAssignmentV2Schema a = Some a" "a2NeedId a = planningNeedId n" "0 \<le> a2CostOre a"
    "a2Chain a \<in> set (chains2 input now)" "list_all isDigit (a2Ean a)"
proof -
  obtain rule p item f ck offer where p: "p \<in> set (prices2 input now)" and item: "item \<in> set (planningProducts input)"
    and ean: "planningEan item = priceEan p"
    and f: "calculatePackageFulfilmentV2 \<lparr>inputProductId = planningProductId item, inputNeedId = planningNeedId n,
       inputRequested = planningRequested n, inputPackage = planningMeasure item\<rparr> = Complete f"
    and best: "bestCheckout item p (v2PackageCount f)
       (offersAt (indexOfficialOffers (officialOffers input)) (productChainKey (planningProductId item) (chainText (priceChain p))))
       (offerContextOf input now) = Some (ck, offer)"
    and eq: "a = \<lparr>a2NeedId = planningNeedId n, a2ProductId = planningProductId item, a2Ean = priceEan p, a2Chain = priceChain p,
          a2CostOre = checkoutTotalOre ck, a2ObservedAt = priceObservedAt p, a2Source = priceSource p, a2Fulfilment = f,
          a2Checkout = ck, a2Offer = map_option officialOfferReference offer\<rparr>"
    using choices2_cases [OF a] by metis
  note facts = accepted_input [OF acc]
  have need: "identifierSchema (planningNeedId n) = Some (planningNeedId n)" using facts(1) n needSchemaV2_id by blast
  have prod: "identifierSchema (planningProductId item) = Some (planningProductId item)" "gtinSchema (priceEan p) = Some (priceEan p)"
    using facts(2) item productSchemaV2_facts ean by metis+
  have price: "sourceNeutralPriceObservationSchema p = Some p" using facts(3) p by (simp add: prices2_def)
  note price = priceSchema_fields [OF price]
  have full: "fulfilmentV2Schema f = Some f" "v2NeedId f = planningNeedId n" "v2ProductId f = planningProductId item"
    using fulfilmentV2_complete [OF f] need prod by simp_all
  note ck = bestCheckout_Some [OF best] and ck' = checkout_Inr [OF bestCheckout_Some(1) [OF best]]
  have offer: "officialOfferSchema o' = Some o'" if "offer = Some o'" for o'
    using offersAt_in [OF ck(3) [OF that]] facts(4) by blast
  have "parseOptional identifierSchema (appliedOfferId ck) = Some (appliedOfferId ck)"
    using ck(2) officialOffer_fixed(1) offer by (cases offer) auto
  then have check: "checkoutCostV2Schema ck = Some ck"
    using ck' by (auto simp: checkoutCostV2Schema_def checkoutRefinement_def moneyOreSchema_def)
  have ref: "parseOptional appliedOfficialOfferReferenceSchema (map_option officialOfferReference offer) = Some (map_option officialOfferReference offer)"
    using officialOffer_fixed(2) offer by (cases offer) auto
  have id: "map_option referenceId (map_option officialOfferReference offer) = appliedOfferId ck"
    using ck(2) by (cases offer) (simp_all add: officialOfferReference_def)
  show "planAssignmentV2Schema a = Some a"
    using need prod price(3,4) full check ref id ck'(1,2,4)
    by (simp add: eq planAssignmentV2Schema_def assignmentV2Refinement_def moneyOreSchema_def)
  show "a2NeedId a = planningNeedId n" "0 \<le> a2CostOre a" using ck'(1) by (simp_all add: eq)
  show "a2Chain a \<in> set (chains2 input now)"
    using p by (auto simp: eq chains2_def list_ex_iff CHAIN_ORDER_all)
  show "list_all isDigit (a2Ean a)" using price(1) by (auto simp: eq eanSchema_def)
qed

lemma digitText_plain: "0 \<le> d \<Longrightarrow> d < 36 \<Longrightarrow> \<not> isJsSpace (digitText d)"
  by (auto simp: digitText_def isJsSpace_def Let_def take_bit_eq_mod nat_mod_distrib)

lemma baseText_plain:
  assumes "2 \<le> b" "b \<le> 36" "0 \<le> n"
  shows "list_all (\<lambda>c. \<not> isJsSpace c) (baseText b n)"
  using assms
proof (induction b n rule: baseText.induct)
  case (1 b n)
  have "n mod b < 36" "0 \<le> n mod b" using 1 pos_mod_bound [of b n] pos_mod_sign [of b n] by linarith+
  then show ?case
    by (subst baseText.simps) (use 1 in \<open>auto simp: digitText_plain pos_imp_zdiv_nonneg_iff\<close>)
qed

lemma baseText_length:
  assumes "2 \<le> b" "0 \<le> n" "n < b ^ Suc k"
  shows "length (baseText b n) \<le> Suc k"
  using assms
proof (induction k arbitrary: n)
  case 0
  then show ?case by (subst baseText.simps) simp
next
  case (Suc k)
  have "n div b < b ^ Suc k"
  proof (rule ccontr)
    assume "\<not> n div b < b ^ Suc k"
    then have "b ^ Suc k * b \<le> n div b * b" using Suc.prems(1) by (intro mult_right_mono) simp_all
    also have "\<dots> \<le> n" using Suc.prems(1) by (simp add: minus_mod_eq_div_mult [symmetric])
    finally show False using Suc.prems(3) by (simp add: mult_ac)
  qed
  moreover have "0 \<le> n div b" using Suc.prems by (simp add: pos_imp_zdiv_nonneg_iff)
  ultimately have "length (baseText b (n div b)) \<le> Suc k" using Suc.prems(1) by (intro Suc.IH)
  then show ?case by (subst baseText.simps) simp
qed

lemma word_text: "list_all (\<lambda>c. \<not> isJsSpace c) (baseText 36 (uint (w :: 32 word)))" "length (baseText 36 (uint w)) \<le> 7"
proof -
  show "list_all (\<lambda>c. \<not> isJsSpace c) (baseText 36 (uint w))" by (rule baseText_plain) simp_all
  have "uint w < 36 ^ Suc 6" using uint_lt2p [of w] by simp
  then show "length (baseText 36 (uint w)) \<le> 7" using baseText_length [of 36 "uint w" 6] by simp
qed

lemma plan_identifier: "identifierSchema (''plan-v2-'' @ stableHash s) = Some (''plan-v2-'' @ stableHash s)"
proof -
  have "\<exists>(v :: 32 word) (w :: 32 word). stableHash s = baseText 36 (uint v) @ baseText 36 (uint w)"
    unfolding stableHash_def Let_def case_prod_unfold by (intro exI, rule refl)
  then obtain v w :: "32 word" where hash: "stableHash s = baseText 36 (uint v) @ baseText 36 (uint w)" by blast
  have "list_all (\<lambda>c. \<not> isJsSpace c) (''plan-v2-'' @ stableHash s)"
    unfolding hash list_all_append using word_text(1) by (simp add: isJsSpace_def)
  then have "trim (''plan-v2-'' @ stableHash s) = ''plan-v2-'' @ stableHash s" by (rule trim_no_space)
  moreover have "length (''plan-v2-'' @ stableHash s) \<le> 200"
    unfolding hash using word_text(2) [of v] word_text(2) [of w] by simp
  ultimately show ?thesis by (simp add: identifierSchema_def boundedText_def Let_def)
qed

lemma sort_text_perm: "mset xs = mset ys \<Longrightarrow> sort_by compareText xs = sort_by compareText ys"
  by (rule sort_by_perm [OF by_text.comparator_axioms]) simp_all

lemma sort_text_eq:
  assumes "distinct xs" and "distinct ys"
  shows "sort_by compareText xs = sort_by compareText ys \<longleftrightarrow> set xs = set ys"
  using assms sort_text_perm set_eq_iff_mset_eq_distinct by (metis set_sort_by)

lemma sameSequence_refl [simp]: "sameSequence xs xs"
  by (auto simp: sameSequence_def list_ex_iff in_set_enumerate_eq)

lemma chain_texts_distinct: "distinct (map chainText xs) \<longleftrightarrow> distinct xs"
  by (simp add: distinct_map inj_on_def chainText_inj)

lemma planResultV2_fixedI:
  assumes "identifierSchema (p2Id q) = Some (p2Id q)" "parseAll planAssignmentV2Schema (p2Assignments q) = Some (p2Assignments q)"
    "parseAll identifierSchema (p2Substitutions q) = Some (p2Substitutions q)" "parseAll freshnessEntry (p2Freshness q) = Some (p2Freshness q)"
    "newMap (p2Freshness q) = p2Freshness q" "1 \<le> length (p2Assignments q)" "length (p2Assignments q) \<le> 50" "moneyOreSchema (p2TotalOre q)"
    "1 \<le> length (p2Chains q)" "length (p2Chains q) \<le> 3" "length (p2Substitutions q) \<le> 50" "planResultV2Refinement q"
  shows "planResultV2Schema q = Some q"
  using assms by (cases q) (simp add: planResultV2Schema_def)

lemma planOf2_admitted:
  assumes acc: "serverPlanningInputV2Schema input = Some input"
    and buys: "list_all2 (\<lambda>n a. a \<in> set (choices2 h input now n)) (planningNeeds input) bs"
    and bounds: "sum_list (map a2CostOre bs) \<le> MAX_PERSISTED_MONEY_ORE" "card (a2Chain ` set bs) \<le> 3"
  shows "planResultV2Schema (planOf2 input bs) = Some (planOf2 input bs)"
proof -
  let ?p = "planOf2 input bs"
  note facts = accepted_input [OF acc]
  define as where "as = sort_by (\<lambda>l r. compareText (a2NeedId l) (a2NeedId r)) bs"
  have in_bs: "planAssignmentV2Schema a = Some a \<and> 0 \<le> a2CostOre a" if "a \<in> set bs" for a
    using list_all2_right [OF buys that] choice_admitted [OF acc] by blast
  have len: "length bs = length (planningNeeds input)" using buys by (simp add: list_all2_lengthD)
  have ids: "map a2NeedId bs = map planningNeedId (planningNeeds input)"
    using list_all2_mono [OF buys, of "\<lambda>n a. n \<in> set (planningNeeds input) \<longrightarrow> planningNeedId n = a2NeedId a"]
      choice_admitted(2) [OF acc]
    by (auto simp: list_all2_conv_all_nth intro!: nth_equalityI)
  have fields: "p2Assignments ?p = as" "p2TotalOre ?p = sum_list (map a2CostOre bs)"
    "p2Chains ?p = sort_by compareChains (uniq (map a2Chain as))"
    "p2Substitutions ?p = sort_by compareText (map planningNeedId (filter (substituted2 input) (planningNeeds input)))"
    "p2Freshness ?p = map (\<lambda>n. (planningNeedId n, ''eligible'')) (planningNeeds input)"
    "p2Id ?p = ''plan-v2-'' @ stableHash (planIdentityV2 as)"
  proof -
    let ?es = "map (\<lambda>n. (planningNeedId n, ''eligible'')) (planningNeeds input)"
    have "fold (\<lambda>(k, v). AList.update k v) ?es [] = ?es"
      using fold_update_fresh [of "[]" ?es] facts(5) by (simp add: comp_def)
    moreover have "p2Freshness ?p = fold (\<lambda>(k, v). AList.update k v) ?es []"
      by (simp add: planOf2_def Let_def fold_map comp_def)
    ultimately show "p2Freshness ?p = ?es" by simp
  qed (simp_all add: planOf2_def as_def Let_def foldl_sum)
  have "parseAll planAssignmentV2Schema as = Some as" using in_bs by (intro parseAll_id) (simp add: as_def)
  moreover have need_id: "identifierSchema (planningNeedId n) = Some (planningNeedId n)" if "n \<in> set (planningNeeds input)" for n
    using facts(1) that needSchemaV2_id by blast
  then have "parseAll identifierSchema (p2Substitutions ?p) = Some (p2Substitutions ?p)"
    by (intro parseAll_id) (auto simp: fields(4))
  moreover have "parseAll freshnessEntry (p2Freshness ?p) = Some (p2Freshness ?p)"
    using need_id by (intro parseAll_id) (auto simp: fields(5) freshnessEntry_def)
  moreover have "newMap (p2Freshness ?p) = p2Freshness ?p"
    using facts(5) by (intro newMap_distinct_id) (simp add: fields(5) comp_def)
  moreover have "planResultV2Refinement ?p"
  proof -
    have t: "sort_by compareText (map chainText (uniq (map a2Chain as))) = sort_by compareText (map chainText (p2Chains ?p))"
      by (rule sort_text_perm) (simp add: fields(3))
    have i: "sort_by compareText (map a2NeedId as) = sort_by compareText (map fst (p2Freshness ?p))"
    proof (rule sort_text_perm)
      have "mset (map a2NeedId as) = mset (map a2NeedId bs)" by (simp add: as_def)
      then show "mset (map a2NeedId as) = mset (map fst (p2Freshness ?p))" by (simp add: ids fields(5) comp_def)
    qed
    have d: "distinct (map a2NeedId as)" using facts(5) by (simp add: as_def ids)
    have s: "set (map a2NeedId as) = planningNeedId ` set (planningNeeds input)"
      using arg_cong [OF ids, of set] by (simp add: as_def)
    show ?thesis
      using d s facts(5)
      by (auto simp: planResultV2Refinement_def Let_def fields(1,2) t [symmetric] i [symmetric] chain_texts_distinct foldl_sum as_def
          list_ex_iff) (auto simp: fields as_def distinct_map_filter)
  qed
  moreover have "0 \<le> sum_list (map a2CostOre bs)" using in_bs by (intro sum_list_nonneg) auto
  moreover have "1 \<le> length (p2Chains ?p)" "length (p2Chains ?p) \<le> 3"
    using planOf2_fields(4) [of input bs] bounds(2) len facts(7) by (auto simp: Suc_le_eq card_gt_0_iff)
  moreover have "length (p2Substitutions ?p) \<le> 50"
    using facts(8) by (simp add: fields(4)) (meson le_trans length_filter_le)
  ultimately show ?thesis
    using bounds(1) len facts(7,8) plan_identifier [of "planIdentityV2 as"]
    by (intro planResultV2_fixedI) (simp_all add: fields(1,2,6) moneyOreSchema_def as_def)
qed

section \<open>Complete purchases\<close>

text \<open>The specification: one choice per need, within the store limit and the money bound.\<close>

definition completePurchase2 :: "host \<Rightarrow> planning_input \<Rightarrow> date \<Rightarrow> assignment_v2 list \<Rightarrow> bool" where
  "completePurchase2 h input now as \<longleftrightarrow>
     list_all2 (\<lambda>n a. a \<in> set (choices2 h input now n)) (planningNeeds input) as
     \<and> card (a2Chain ` set as) \<le> planningMaxStores input
     \<and> sum_list (map a2CostOre as) \<le> MAX_PERSISTED_MONEY_ORE"

definition subsetPlans2 :: "host \<Rightarrow> planning_input \<Rightarrow> date \<Rightarrow> plan_v2 list" where
  "subsetPlans2 h input now =
     List.map_filter (subsetPlan2 h input now) (combinations (chains2 input now) (min (planningMaxStores input) 3))"

definition acceptedInput2 :: "planning_input \<Rightarrow> date \<Rightarrow> bool" where
  "acceptedInput2 input now \<longleftrightarrow> now \<noteq> None \<and> serverPlanningInputV2Schema input = Some input"

definition identityOf :: "plan_v2 \<Rightarrow> string" where
  "identityOf p = planIdentityV2 (p2Assignments p)"

lemma calculatePlansV2_eq:
  "calculatePlansV2 h input now =
     (if acceptedInput2 input now
      then sort_by comparePlansV2 (nonDominated dominatesV2
             (sort_by comparePlansV2 (one_per_key identityOf (sort_by comparePlansV2 (subsetPlans2 h input now)))))
      else [])"
  by (simp add: calculatePlansV2_def enumerateCompletePlanCandidatesV2_def acceptedInput2_def subsetPlans2_def
      one_per_key_def identityOf_def Let_def subsetPlan2_def [abs_def] rules2_def prices2_def chains2_def nonDominated_def)

interpretation by_plan_v2: comparator comparePlansV2
  unfolding comparePlansV2_def by (intro comparator_intros)

interpretation v2_frontier: dominance dominatesV2
  by unfold_locales (auto simp: dominatesV2_def Let_def)

lemma subsetPlan2_Some:
  assumes acc: "acceptedInput2 input now" and p: "subsetPlan2 h input now S = Some p"
  shows "\<exists>bs. completePurchase2 h input now bs \<and> p = planOf2 input bs"
proof -
  have acc': "serverPlanningInputV2Schema input = Some input" using acc by (simp add: acceptedInput2_def)
  obtain bs where bs: "parseAll (buy2 h input now (set S)) (planningNeeds input) = Some bs"
    and bounds: "p2TotalOre (planOf2 input bs) \<le> MAX_PERSISTED_MONEY_ORE"
      "length (p2Chains (planOf2 input bs)) \<le> planningMaxStores input" "length (p2Chains (planOf2 input bs)) \<le> 3"
    and schema: "planResultV2Schema (planOf2 input bs) = Some p"
    using p unfolding subsetPlan2_eq Let_def by (auto split: option.splits if_splits)
  have choices: "list_all2 (\<lambda>n b. b \<in> set (choices2 h input now n)) (planningNeeds input) bs"
    using v2_purchasing.purchases_choices [OF bs] by simp
  then have "planResultV2Schema (planOf2 input bs) = Some (planOf2 input bs)"
    using bounds(1,3) by (intro planOf2_admitted [OF acc']) (simp_all only: planOf2_fields)
  then have "p = planOf2 input bs" using schema by simp
  moreover have "completePurchase2 h input now bs"
    unfolding completePurchase2_def
  proof (intro conjI)
    show "card (a2Chain ` set bs) \<le> planningMaxStores input" using bounds(2) by (simp only: planOf2_fields)
    show "sum_list (map a2CostOre bs) \<le> MAX_PERSISTED_MONEY_ORE" using bounds(1) by (simp only: planOf2_fields)
  qed (rule choices)
  ultimately show ?thesis by blast
qed

lemma subsetPlans2_mem: "p \<in> set (subsetPlans2 h input now) \<Longrightarrow> \<exists>S. subsetPlan2 h input now S = Some p"
  by (auto simp: subsetPlans2_def mem_map_filter)

lemma subsetPlans2_cover:
  assumes acc: "acceptedInput2 input now" and c: "completePurchase2 h input now as"
  obtains p where "p \<in> set (subsetPlans2 h input now)" "p2TotalOre p \<le> sum_list (map a2CostOre as)"
    "length (p2Chains p) \<le> card (a2Chain ` set as)"
proof -
  have acc': "serverPlanningInputV2Schema input = Some input" using acc by (simp add: acceptedInput2_def)
  note facts = accepted_input [OF acc']
  define S where "S = filter (\<lambda>c. c \<in> a2Chain ` set as) (chains2 input now)"
  have opts: "list_all2 (\<lambda>n a. a \<in> set (choices2 h input now n)) (planningNeeds input) as"
    using c by (simp add: completePurchase2_def)
  have "a2Chain a \<in> set (chains2 input now)" if "a \<in> set as" for a
    using list_all2_right [OF opts that] choice_admitted(4) [OF acc'] by blast
  then have S: "set S = a2Chain ` set as" by (auto simp: S_def)
  have "distinct CHAIN_ORDER" by (simp add: CHAIN_ORDER_def)
  then have "distinct S" by (simp add: S_def chains2_def)
  then have len: "length S = card (a2Chain ` set as)" using S distinct_card by metis
  have "as \<noteq> []" using opts facts(7) by auto
  then have "S \<noteq> []" using S by auto
  moreover have limit: "card (a2Chain ` set as) \<le> planningMaxStores input" "planningMaxStores input \<le> 3"
    using c facts(9) by (auto simp: completePurchase2_def)
  ultimately have combo: "S \<in> set (combinations (chains2 input now) (min (planningMaxStores input) 3))"
    using len by (simp add: combinations_mem S_def filter_subseqs)
  obtain bs where bs: "parseAll (buy2 h input now (set S)) (planningNeeds input) = Some bs"
    "sum_list (map a2CostOre bs) \<le> sum_list (map a2CostOre as)"
    using v2_purchasing.purchases_cheapest [OF opts, of "set S"] S by auto
  note b = v2_purchasing.purchases_choices [OF bs(1)]
  have chains: "card (a2Chain ` set bs) \<le> card (a2Chain ` set as)"
    using b S by (intro card_mono) auto
  have "bs \<noteq> []" using bs(1) facts(7) by (auto dest: parseAll_length)
  have cost: "sum_list (map a2CostOre bs) \<le> MAX_PERSISTED_MONEY_ORE" using bs(2) c by (simp add: completePurchase2_def)
  have "planResultV2Schema (planOf2 input bs) = Some (planOf2 input bs)"
    using b cost chains limit by (intro planOf2_admitted [OF acc']) auto
  then have "subsetPlan2 h input now S = Some (planOf2 input bs)"
    unfolding subsetPlan2_eq bs(1) option.case Let_def planOf2_fields
    using cost chains limit \<open>bs \<noteq> []\<close> by (auto simp: card_gt_0_iff)
  then have "planOf2 input bs \<in> set (subsetPlans2 h input now)" using combo by (auto simp: subsetPlans2_def mem_map_filter)
  with bs(2) chains that show ?thesis by (simp add: planOf2_fields)
qed

section \<open>Identities\<close>

text \<open>
  \<open>planIdentity\<close> joins unescaped texts by \<open>:\<close> and \<open>|\<close>. It tells two plans apart where the product ids have equally many
  colons (the ids of the catalogue are \<open>product:\<close> and a number) and no offer id has a bar.
\<close>

definition uniformIds :: "planning_input \<Rightarrow> bool" where
  "uniformIds input \<longleftrightarrow>
     (\<forall>p \<in> set (planningProducts input). \<forall>q \<in> set (planningProducts input).
        count_list (planningProductId p) (CHR '':'') = count_list (planningProductId q) (CHR '':''))
     \<and> (\<forall>offer \<in> set (officialOffers input). CHR ''|'' \<notin> set (offerId offer))"

definition printable2 :: "assignment_v2 \<Rightarrow> bool" where
  "printable2 a \<longleftrightarrow> list_all isDigit (a2Ean a) \<and> 0 \<le> a2CostOre a \<and> CHR ''|'' \<notin> set (orEmpty (appliedOfferId (a2Checkout a)))"

definition answersAlike2 :: "assignment_v2 \<Rightarrow> assignment_v2 \<Rightarrow> bool" where
  "answersAlike2 a b \<longleftrightarrow>
     a2NeedId a = a2NeedId b \<and> count_list (a2ProductId a) (CHR '':'') = count_list (a2ProductId b) (CHR '':'')"

definition keyTail2 :: "assignment_v2 \<Rightarrow> string" where
  "keyTail2 a = joinText '':'' (measureTexts (v2Requested (a2Fulfilment a)) @ measureTexts (v2Package (a2Fulfilment a))
      @ [intText (v2PackageCount (a2Fulfilment a))] @ measureTexts (v2Purchased (a2Fulfilment a))
      @ measureTexts (v2Surplus (a2Fulfilment a))
      @ [case appliedOfferId (a2Checkout a) of None \<Rightarrow> ''ordinary'' | Some i \<Rightarrow> i])"

lemma assignmentKeyV2_unfold:
  "assignmentKeyV2 a @ rest = a2NeedId a @ '':'' @ a2ProductId a @ CHR '':'' # a2Ean a @ CHR '':'' # chainText (a2Chain a)
     @ CHR '':'' # intText (a2CostOre a) @ CHR '':'' # keyTail2 a @ rest"
  by (simp add: assignmentKeyV2_def keyTail2_def measureTexts_def)

lemma keyTail2_plain: "printable2 a \<Longrightarrow> CHR ''|'' \<notin> set (keyTail2 a)"
proof -
  assume a: "printable2 a"
  have "CHR ''|'' \<notin> set (unitText u)" for u by (cases u) simp_all
  moreover have "CHR ''|'' \<notin> set (case appliedOfferId (a2Checkout a) of None \<Rightarrow> ''ordinary'' | Some i \<Rightarrow> i)"
    using a by (auto simp: printable2_def orEmpty_def split: option.splits)
  ultimately show ?thesis
    unfolding keyTail2_def measureTexts_def using intText_no_separator by simp
qed

lemma assignmentKeyV2_eq:
  assumes "answersAlike2 a b" "printable2 a" "printable2 b"
    and "(case r of [] \<Rightarrow> True | c # _ \<Rightarrow> c = CHR ''|'')" "(case s of [] \<Rightarrow> True | c # _ \<Rightarrow> c = CHR ''|'')"
    and eq: "assignmentKeyV2 a @ r = assignmentKeyV2 b @ s"
  shows "a2Chain a = a2Chain b \<and> a2CostOre a = a2CostOre b \<and> r = s"
proof -
  define t u where "t = a2Ean a @ CHR '':'' # chainText (a2Chain a) @ CHR '':'' # intText (a2CostOre a) @ CHR '':'' # keyTail2 a @ r"
    and "u = a2Ean b @ CHR '':'' # chainText (a2Chain b) @ CHR '':'' # intText (a2CostOre b) @ CHR '':'' # keyTail2 b @ s"
  have "a2ProductId a @ CHR '':'' # t = a2ProductId b @ CHR '':'' # u"
    using eq assms(1) unfolding assignmentKeyV2_unfold t_def u_def by (simp add: answersAlike2_def)
  then have "t = u"
    using split_at_equal_count [of "a2ProductId a" "CHR '':''" "a2ProductId b" t u] assms(1) by (simp add: answersAlike2_def)
  then have "a2Ean a @ CHR '':'' # chainText (a2Chain a) @ CHR '':'' # intText (a2CostOre a) @ CHR '':'' # keyTail2 a @ r
      = a2Ean b @ CHR '':'' # chainText (a2Chain b) @ CHR '':'' # intText (a2CostOre b) @ CHR '':'' # keyTail2 b @ s"
    by (simp only: t_def u_def)
  moreover have "CHR '':'' \<notin> set (a2Ean a)" "CHR '':'' \<notin> set (a2Ean b)"
    using assms(2,3) digits_no_separator by (auto simp: printable2_def)
  ultimately have e: "chainText (a2Chain a) = chainText (a2Chain b)" "intText (a2CostOre a) = intText (a2CostOre b)"
    "keyTail2 a @ r = keyTail2 b @ s"
    using chainText_no_separator intText_no_separator by (auto simp: split_at_separator)
  have "r = s"
    by (rule split_before_separator [OF keyTail2_plain [OF assms(2)] keyTail2_plain [OF assms(3)] e(3) assms(4,5)])
  with e(1,2) assms(2,3) show ?thesis by (simp add: chainText_inj intText_inj printable2_def)
qed

lemma planIdentityV2_Cons:
  "planIdentityV2 (a # as) = assignmentKeyV2 a @ (if as = [] then [] else CHR ''|'' # planIdentityV2 as)"
  by (cases as) (simp_all add: planIdentityV2_def)

lemma planIdentityV2_eq:
  assumes "list_all2 answersAlike2 as bs" "list_all printable2 as" "list_all printable2 bs"
    and "planIdentityV2 as = planIdentityV2 bs"
  shows "map a2Chain as = map a2Chain bs \<and> map a2CostOre as = map a2CostOre bs"
  using assms
proof (induction as bs rule: list_all2_induct)
  case (Cons a as b bs)
  let ?r = "if as = [] then [] else CHR ''|'' # planIdentityV2 as"
  let ?s = "if bs = [] then [] else CHR ''|'' # planIdentityV2 bs"
  have "as = [] \<longleftrightarrow> bs = []" using Cons(2) by auto
  moreover have "a2Chain a = a2Chain b \<and> a2CostOre a = a2CostOre b \<and> ?r = ?s"
    using Cons by (intro assignmentKeyV2_eq [of a b ?r ?s]) (auto simp: planIdentityV2_Cons)
  ultimately show ?case using Cons by (auto split: if_splits)
qed simp

lemma choice_printable:
  assumes acc: "serverPlanningInputV2Schema input = Some input" and "uniformIds input"
    and n: "n \<in> set (planningNeeds input)" and a: "a \<in> set (choices2 h input now n)"
  shows "printable2 a" "\<exists>p \<in> set (planningProducts input). a2ProductId a = planningProductId p"
proof -
  obtain p item f ck offer where item: "item \<in> set (planningProducts input)"
    and best: "bestCheckout item p (v2PackageCount f)
       (offersAt (indexOfficialOffers (officialOffers input)) (productChainKey (planningProductId item) (chainText (priceChain p))))
       (offerContextOf input now) = Some (ck, offer)"
    and eq: "a = \<lparr>a2NeedId = planningNeedId n, a2ProductId = planningProductId item, a2Ean = priceEan p, a2Chain = priceChain p,
          a2CostOre = checkoutTotalOre ck, a2ObservedAt = priceObservedAt p, a2Source = priceSource p, a2Fulfilment = f,
          a2Checkout = ck, a2Offer = map_option officialOfferReference offer\<rparr>"
    using choices2_cases [OF a] by metis
  have fields: "a2ProductId a = planningProductId item" "a2Checkout a = ck" by (simp_all add: eq)
  have "CHR ''|'' \<notin> set (offerId o')" if "offer = Some o'" for o'
    using offersAt_in [OF bestCheckout_Some(3) [OF best that]] assms(2) by (simp add: uniformIds_def)
  then have "CHR ''|'' \<notin> set (orEmpty (appliedOfferId ck))"
    unfolding bestCheckout_Some(2) [OF best] by (cases offer) (simp_all add: orEmpty_def)
  then show "printable2 a" using choice_admitted [OF acc n a] fields by (simp add: printable2_def)
  show "\<exists>p \<in> set (planningProducts input). a2ProductId a = planningProductId p" using item fields by blast
qed

lemma sorted_by_need:
  assumes "map a2NeedId as = map a2NeedId bs" and "distinct (map a2NeedId as)"
  shows "map a2NeedId (sort_by (\<lambda>l r. compareText (a2NeedId l) (a2NeedId r)) as)
       = map a2NeedId (sort_by (\<lambda>l r. compareText (a2NeedId l) (a2NeedId r)) bs)"
proof (rule sorted_wrt_unique [of "\<lambda>x y. x \<le> y"])
  have "sorted_wrt (\<lambda>l r. compareText (a2NeedId l) (a2NeedId r) \<le> 0) (sort_by (\<lambda>l r. compareText (a2NeedId l) (a2NeedId r)) xs)" for xs
    by (intro comparator.sorted_sort_by comparator_intros)
  then show "sorted (map a2NeedId (sort_by (\<lambda>l r. compareText (a2NeedId l) (a2NeedId r)) as))"
    "sorted (map a2NeedId (sort_by (\<lambda>l r. compareText (a2NeedId l) (a2NeedId r)) bs))"
    by (simp_all add: sorted_wrt_map)
  show "mset (map a2NeedId (sort_by (\<lambda>l r. compareText (a2NeedId l) (a2NeedId r)) as))
      = mset (map a2NeedId (sort_by (\<lambda>l r. compareText (a2NeedId l) (a2NeedId r)) bs))"
    using assms(1) by (metis mset_map mset_sort_by)
qed simp

lemma answered_ids:
  assumes acc: "serverPlanningInputV2Schema input = Some input"
    and all: "list_all2 (\<lambda>n a. a \<in> set (choices2 h input now n)) (planningNeeds input) xs"
  shows "map a2NeedId xs = map planningNeedId (planningNeeds input)"
proof -
  have "list_all2 (\<lambda>n a. a2NeedId a = planningNeedId n) (planningNeeds input) xs"
    by (rule list.rel_mono_strong [OF all]) (use choice_admitted(2) [OF acc] in blast)
  then show ?thesis by (induction rule: list_all2_induct) auto
qed

lemma purchase_metrics2:
  assumes acc': "serverPlanningInputV2Schema input = Some input" and u: "uniformIds input"
    and bs: "completePurchase2 h input now bs" and cs: "completePurchase2 h input now cs"
    and eq: "identityOf (planOf2 input bs) = identityOf (planOf2 input cs)"
  shows "sum_list (map a2CostOre bs) = sum_list (map a2CostOre cs) \<and> a2Chain ` set bs = a2Chain ` set cs"
proof -
  note facts = accepted_input [OF acc']
  have all: "list_all2 (\<lambda>n a. a \<in> set (choices2 h input now n)) (planningNeeds input) bs"
    "list_all2 (\<lambda>n a. a \<in> set (choices2 h input now n)) (planningNeeds input) cs"
    using bs cs by (simp_all add: completePurchase2_def)
  note ids = answered_ids [OF acc']
  have each: "printable2 a \<and> (\<exists>p \<in> set (planningProducts input). a2ProductId a = planningProductId p)"
    if "a \<in> set bs \<union> set cs" for a
    using that list_all2_right [OF all(1)] list_all2_right [OF all(2)] choice_printable [OF acc' u] by blast
  let ?as = "p2Assignments (planOf2 input bs)" and ?bs = "p2Assignments (planOf2 input cs)"
  have sets: "set ?as = set bs" "set ?bs = set cs" by (simp_all add: planOf2_def Let_def)
  have "map a2NeedId ?as = map a2NeedId ?bs"
    unfolding planOf2_def Let_def plan_v2.select_convs
    using ids [OF all(1)] ids [OF all(2)] facts(5) by (intro sorted_by_need) simp_all
  then have "list_all2 (\<lambda>a b. a2NeedId a = a2NeedId b) ?as ?bs"
    by (simp add: list_all2_conv_all_nth map_equality_iff)
  then have alike: "list_all2 answersAlike2 ?as ?bs"
  proof (rule list.rel_mono_strong)
    fix a b assume ab: "a \<in> set ?as" "b \<in> set ?bs" "a2NeedId a = a2NeedId b"
    have "a \<in> set bs \<union> set cs" "b \<in> set bs \<union> set cs" using ab(1,2) unfolding sets by simp_all
    then obtain p' q' where "p' \<in> set (planningProducts input)" "a2ProductId a = planningProductId p'"
      "q' \<in> set (planningProducts input)" "a2ProductId b = planningProductId q'"
      using each [of a] each [of b] by blast
    moreover from this have "count_list (planningProductId p') (CHR '':'') = count_list (planningProductId q') (CHR '':'')"
      using u unfolding uniformIds_def by blast
    ultimately show "answersAlike2 a b" using ab(3) by (simp add: answersAlike2_def)
  qed
  have "list_all printable2 ?as" "list_all printable2 ?bs" unfolding list_all_iff sets using each by blast+
  with alike have "map a2Chain ?as = map a2Chain ?bs \<and> map a2CostOre ?as = map a2CostOre ?bs"
    using eq by (intro planIdentityV2_eq) (simp_all add: identityOf_def)
  then have m: "a2Chain ` set bs = a2Chain ` set cs" "sum_list (map a2CostOre ?as) = sum_list (map a2CostOre ?bs)"
    using sets by (metis set_map)+
  have "sum_list (map a2CostOre bs) = sum_list (map a2CostOre cs)"
    using m(2) by (simp add: planOf2_def Let_def)
  then show ?thesis using m(1) by simp
qed

text \<open>Two ways to buy everything whose plans have one identity text, though they differ in cost or in the number of chains.\<close>

definition identityClash :: "host \<Rightarrow> planning_input \<Rightarrow> date \<Rightarrow> bool" where
  "identityClash h input now \<longleftrightarrow>
     (\<exists>bs cs. completePurchase2 h input now bs \<and> completePurchase2 h input now cs
        \<and> identityOf (planOf2 input bs) = identityOf (planOf2 input cs)
        \<and> (sum_list (map a2CostOre bs) \<noteq> sum_list (map a2CostOre cs) \<or> card (a2Chain ` set bs) \<noteq> card (a2Chain ` set cs)))"

lemma uniform_no_clash: "acceptedInput2 input now \<Longrightarrow> uniformIds input \<Longrightarrow> \<not> identityClash h input now"
  using purchase_metrics2 unfolding identityClash_def acceptedInput2_def by metis

lemma subsetPlans2_found:
  assumes acc: "acceptedInput2 input now" and p: "p \<in> set (subsetPlans2 h input now)"
  obtains (found) q where "q \<in> set (calculatePlansV2 h input now)" "p2TotalOre q \<le> p2TotalOre p"
      "length (p2Chains q) \<le> length (p2Chains p)"
    | (clash) "identityClash h input now"
proof -
  let ?plans = "sort_by comparePlansV2 (one_per_key identityOf (sort_by comparePlansV2 (subsetPlans2 h input now)))"
  have "p \<in> set (sort_by comparePlansV2 (subsetPlans2 h input now))" using p by simp
  then obtain q where q: "q \<in> set ?plans" "identityOf q = identityOf p"
    using one_per_key_covers [of p "sort_by comparePlansV2 (subsetPlans2 h input now)" identityOf] by auto
  then have "q \<in> set (subsetPlans2 h input now)" by (auto dest!: one_per_key_mem)
  then obtain bs cs where bs: "completePurchase2 h input now bs" "p = planOf2 input bs"
    and cs: "completePurchase2 h input now cs" "q = planOf2 input cs"
    using subsetPlans2_mem [OF p] subsetPlans2_mem by (blast dest: subsetPlan2_Some [OF acc])
  show thesis
  proof (cases "p2TotalOre q = p2TotalOre p \<and> length (p2Chains q) = length (p2Chains p)")
    case True
    obtain w where w: "w \<in> set (nonDominated dominatesV2 ?plans)" "w = q \<or> dominatesV2 w q"
      using v2_frontier.nonDominated_covers [OF q(1)] by blast
    then have "w \<in> set (calculatePlansV2 h input now)" by (simp add: calculatePlansV2_eq acc)
    with w(2) True found show thesis by (auto simp: dominatesV2_def Let_def)
  next
    case False
    then have "identityClash h input now"
      using bs cs q(2) unfolding identityClash_def by (intro exI [of _ bs] exI [of _ cs]) (auto simp: planOf2_fields)
    then show thesis by (rule clash)
  qed
qed

lemma calculatePlansV2_mem:
  assumes "p \<in> set (calculatePlansV2 h input now)"
  shows "acceptedInput2 input now" "p \<in> set (subsetPlans2 h input now)"
    "p \<in> set (nonDominated dominatesV2
       (sort_by comparePlansV2 (one_per_key identityOf (sort_by comparePlansV2 (subsetPlans2 h input now)))))"
  using assms
  by (auto simp: calculatePlansV2_eq v2_frontier.nonDominated_iff dest!: one_per_key_mem split: if_splits)

section \<open>A concrete input\<close>

definition exampleOffer2 :: official_offer where
  "exampleOffer2 =
     \<lparr>offerId = ''offer:extra:coffee'', offerSourceId = ''offer-feed'', offerRecordId = ''campaign:42'', offerChainId = ''extra'',
      offerMatch = ExactMatch ''product:coffee'', offerPricing = MultibuyPricing 2 10000, offerBeforePriceOre = Some 6000,
      offerConditions = [PublicCondition],
      offerApplicability = \<lparr>offerStartsAt = ''2026-07-14T00:00:00.000Z'', offerEndsAt = ''2026-07-19T23:59:59.999Z'',
        offerScope = RegionsScope ''NO'' [''NO-03''], offerChannels = [InStore]\<rparr>,
      offerLevel = Reviewed, offerCapturedAt = ''2026-07-15T10:00:00.000Z''\<rparr>"

text \<open>Seven pieces of coffee: two packages of six, 120 kroner at the shelf and 100 under the offer.\<close>

definition exampleNeed2 :: planning_need where
  "exampleNeed2 = \<lparr>planningNeedId = ''need:coffee'', planningQuery = ''kaffe'',
     planningRequested = \<lparr>measureAmount = 7, measureUnit = Piece\<rparr>, planningRuleId = ''rule:coffee''\<rparr>"

definition exampleInput2 :: planning_input where
  "exampleInput2 =
     \<lparr>planningNeeds = [exampleNeed2],
      planningRules = [\<lparr>ruleId = ''rule:coffee'', ruleMode = ExactMode, exactEan = Some ''7038010000010'', ruleFamily = None,
        allowedBrands = None, ruleSizeRange = None, userApproved = True, ruleExplanation = ''this one''\<rparr>],
      planningProducts = [\<lparr>planningProductId = ''product:coffee'', planningEan = ''7038010000010'', planningName = ''Kaffe'',
        planningBrand = None, planningMeasure = \<lparr>measureAmount = 6, measureUnit = Piece\<rparr>, planningFamily = None\<rparr>],
      ordinaryPrices = [\<lparr>priceEan = ''7038010000010'', priceChain = Extra, amountOre = 6000,
        priceObservedAt = ''2026-07-16T11:00:00.000Z'', priceSource = ''licensed-price-feed''\<rparr>],
      officialOffers = [exampleOffer2],
      planningEligibility = \<lparr>eligibilityMaxEvidenceAgeMs = 1209600000,
        eligibilityPlace = \<lparr>locationCountry = ''NO'', locationRegion = Some ''NO-03'', locationPostal = None, locationStore = None\<rparr>,
        eligibilityChannel = InStore, eligibilitySourceIds = [''offer-feed''], eligibilityMembershipIds = [],
        eligibilityGeographicDirectory = None\<rparr>,
      planningMaxStores = 3\<rparr>"

definition exampleCoffee2 :: assignment_v2 where
  "exampleCoffee2 =
     \<lparr>a2NeedId = ''need:coffee'', a2ProductId = ''product:coffee'', a2Ean = ''7038010000010'', a2Chain = Extra, a2CostOre = 10000,
      a2ObservedAt = ''2026-07-16T11:00:00.000Z'', a2Source = ''licensed-price-feed'',
      a2Fulfilment = \<lparr>v2NeedId = ''need:coffee'', v2ProductId = ''product:coffee'',
        v2Requested = \<lparr>measureAmount = 7, measureUnit = Piece\<rparr>, v2Package = \<lparr>measureAmount = 6, measureUnit = Piece\<rparr>,
        v2PackageCount = 2, v2Purchased = \<lparr>measureAmount = 12, measureUnit = Piece\<rparr>, v2Surplus = \<lparr>measureAmount = 5, measureUnit = Piece\<rparr>\<rparr>,
      a2Checkout = \<lparr>ordinaryTotalOre = 12000, savingOre = 2000, checkoutTotalOre = 10000, appliedOfferId = Some ''offer:extra:coffee''\<rparr>,
      a2Offer = Some \<lparr>referenceId = ''offer:extra:coffee'', referenceSourceId = ''offer-feed'', referenceRecordId = ''campaign:42'',
        referenceCapturedAt = ''2026-07-15T10:00:00.000Z''\<rparr>\<rparr>"

lemma exampleAccepted2: "acceptedInput2 exampleInput2 exampleNow"
proof -
  have "serverPlanningInputV2Schema exampleInput2 = Some exampleInput2" by code_simp
  then show ?thesis by (simp add: acceptedInput2_def exampleNow_def)
qed

lemma exampleUniform2: "uniformIds exampleInput2"
  by (simp add: uniformIds_def exampleInput2_def exampleOffer2_def)

lemma examplePurchase2: "completePurchase2 exampleHost exampleInput2 exampleNow [exampleCoffee2]"
proof -
  have "list_ex (\<lambda>a. a = exampleCoffee2) (choices2 exampleHost exampleInput2 exampleNow exampleNeed2)" by code_simp
  moreover have "planningNeeds exampleInput2 = [exampleNeed2]" "planningMaxStores exampleInput2 = 3" by (simp_all add: exampleInput2_def)
  ultimately show ?thesis
    by (simp add: completePurchase2_def list_ex_iff exampleCoffee2_def [THEN arg_cong, of a2CostOre] MAX_PERSISTED_MONEY_ORE_def)
qed

section \<open>Properties\<close>

text \<open>
  C15. \<open>calculatePlansV2\<close> misses no bargain: for every way to buy all needs within the store limit and the money bound,
  at whatever chains and with whatever offers, it returns a plan that costs no more and visits no more chains. The one exception
  are inputs with two complete purchases that share an identity text and yet differ in cost or in the number of chains, of which
  deduplication keeps one only; none exist when the product identifiers have equally many colons and no offer identifier has a bar.
\<close>

theorem calculatePlansV2_complete:
  assumes "acceptedInput2 input now" and "completePurchase2 h input now as"
  shows "(\<exists>p \<in> set (calculatePlansV2 h input now).
      p2TotalOre p \<le> sum_list (map a2CostOre as) \<and> length (p2Chains p) \<le> card (a2Chain ` set as))
    \<or> (identityClash h input now \<and> \<not> uniformIds input)"
proof -
  obtain p where p: "p \<in> set (subsetPlans2 h input now)" "p2TotalOre p \<le> sum_list (map a2CostOre as)"
    "length (p2Chains p) \<le> card (a2Chain ` set as)"
    using subsetPlans2_cover [OF assms] .
  show ?thesis
  proof (rule subsetPlans2_found [OF assms(1) p(1)])
    fix q assume "q \<in> set (calculatePlansV2 h input now)" "p2TotalOre q \<le> p2TotalOre p" "length (p2Chains q) \<le> length (p2Chains p)"
    with p show ?thesis by (intro disjI1 bexI [of _ q]) auto
  next
    assume "identityClash h input now"
    then show ?thesis using uniform_no_clash [OF assms(1)] by blast
  qed
qed

theorem calculatePlansV2_complete_witness:
  "\<exists>p \<in> set (calculatePlansV2 exampleHost exampleInput2 exampleNow). p2TotalOre p \<le> 10000 \<and> length (p2Chains p) \<le> 1"
proof -
  have "sum_list (map a2CostOre [exampleCoffee2]) = 10000" "card (a2Chain ` set [exampleCoffee2]) = 1"
    by (simp_all add: exampleCoffee2_def)
  with calculatePlansV2_complete [OF exampleAccepted2 examplePurchase2] exampleUniform2 show ?thesis by simp
qed

text \<open>
  C16. Every plan \<open>calculatePlansV2\<close> returns buys all needs, one admissible choice each, within the limits; its total,
  chains and substitutions are those of its purchases, it is admitted unchanged by the published contract
  \<open>planResultV2Schema\<close>, and no returned plan dominates it.
\<close>

theorem calculatePlansV2_sound:
  assumes "p \<in> set (calculatePlansV2 h input now)"
  shows "planResultV2Schema p = Some p
    \<and> (\<exists>as. completePurchase2 h input now as \<and> mset (p2Assignments p) = mset as)
    \<and> p2TotalOre p = sum_list (map a2CostOre (p2Assignments p)) \<and> set (p2Chains p) = a2Chain ` set (p2Assignments p)
    \<and> set (p2Substitutions p) = {planningNeedId n |n. n \<in> set (planningNeeds input) \<and> substituted2 input n}
    \<and> (\<forall>q \<in> set (calculatePlansV2 h input now). \<not> dominatesV2 q p)"
proof -
  note m = calculatePlansV2_mem [OF assms]
  have acc: "serverPlanningInputV2Schema input = Some input" using m(1) by (simp add: acceptedInput2_def)
  obtain S where "subsetPlan2 h input now S = Some p" using subsetPlans2_mem [OF m(2)] by blast
  then obtain bs where bs: "completePurchase2 h input now bs" "p = planOf2 input bs"
    using subsetPlan2_Some [OF m(1)] by blast
  have "card (a2Chain ` set bs) \<le> 3" using bs(1) accepted_input(9) [OF acc] by (auto simp: completePurchase2_def)
  then have "planResultV2Schema p = Some p"
    using bs(1) unfolding bs(2) completePurchase2_def by (intro planOf2_admitted [OF acc]) auto
  moreover have "set (p2Assignments p) = set bs" "sum_list (map a2CostOre (p2Assignments p)) = sum_list (map a2CostOre bs)"
    by (simp_all add: bs(2) planOf2_def Let_def)
  moreover have "\<not> dominatesV2 q p" if "q \<in> set (calculatePlansV2 h input now)" for q
    using calculatePlansV2_mem(3) [OF that] m(3) unfolding v2_frontier.nonDominated_iff by blast
  ultimately show ?thesis using bs by (auto simp: planOf2_fields intro!: exI [of _ bs])
qed

theorem calculatePlansV2_sound_witness:
  "\<exists>p \<in> set (calculatePlansV2 exampleHost exampleInput2 exampleNow). planResultV2Schema p = Some p"
proof -
  obtain p where "p \<in> set (subsetPlans2 exampleHost exampleInput2 exampleNow)"
    using subsetPlans2_cover [OF exampleAccepted2 examplePurchase2] by blast
  then obtain q where "q \<in> set (calculatePlansV2 exampleHost exampleInput2 exampleNow)"
    using subsetPlans2_found [OF exampleAccepted2] uniform_no_clash [OF exampleAccepted2 exampleUniform2] by metis
  then show ?thesis using calculatePlansV2_sound by blast
qed

text \<open>
  C17. The checkout \<open>bestCheckout\<close> picks is the real price of the offer it names, never above the shelf price, and no offer
  of the list gives a cheaper one.
\<close>

theorem bestCheckout_minimal:
  assumes "bestCheckout item p n offers c = Some (ck, offer)"
    and "\<forall>o' \<in> set offers. officialOfferSchema o' = Some o'"
  shows "calculateCheckoutCost (checkoutFor item p n c offer) = Inr ck
    \<and> (case offer of None \<Rightarrow> appliedOfferId ck = None | Some o' \<Rightarrow> o' \<in> set offers \<and> appliedOfferId ck = Some (offerId o'))
    \<and> checkoutTotalOre ck \<le> n * amountOre p
    \<and> (\<forall>o' \<in> set offers. \<forall>ck'. calculateCheckoutCost (checkoutFor item p n c (Some o')) = Inr ck'
         \<longrightarrow> checkoutTotalOre ck \<le> checkoutTotalOre ck')"
proof -
  note best = bestCheckout_Some [OF assms(1)]
  have "checkoutTotalOre ck \<le> n * amountOre p"
    using checkout_Inr(2,3) [OF best(1)] by (simp add: checkoutFor_def)
  moreover have "case offer of None \<Rightarrow> appliedOfferId ck = None | Some o' \<Rightarrow> o' \<in> set offers \<and> appliedOfferId ck = Some (offerId o')"
    using best(2,3) by (cases offer) simp_all
  ultimately show ?thesis using best(1) bestCheckout_least [OF assms(1)] assms(2) by blast
qed

definition exampleItem2 :: planning_product where
  "exampleItem2 = hd (planningProducts exampleInput2)"

definition exampleShelf2 :: price_observation where
  "exampleShelf2 = hd (ordinaryPrices exampleInput2)"

theorem bestCheckout_minimal_witness:
  "\<exists>ck. bestCheckout exampleItem2 exampleShelf2 2 [exampleOffer2] (offerContextOf exampleInput2 exampleNow) = Some (ck, Some exampleOffer2)
     \<and> appliedOfferId ck = Some ''offer:extra:coffee'' \<and> checkoutTotalOre ck \<le> 2 * 6000"
proof -
  have "bestCheckout exampleItem2 exampleShelf2 2 [exampleOffer2] (offerContextOf exampleInput2 exampleNow)
      = Some (a2Checkout exampleCoffee2, Some exampleOffer2)" by code_simp
  moreover have "\<forall>o' \<in> set [exampleOffer2]. officialOfferSchema o' = Some o'"
  proof -
    have "officialOfferSchema exampleOffer2 = Some exampleOffer2" by code_simp
    then show ?thesis by simp
  qed
  moreover have "amountOre exampleShelf2 = 6000" "offerId exampleOffer2 = ''offer:extra:coffee''"
    by (simp_all add: exampleShelf2_def exampleInput2_def exampleOffer2_def)
  ultimately show ?thesis
    using bestCheckout_minimal [of exampleItem2 exampleShelf2 2 "[exampleOffer2]" "offerContextOf exampleInput2 exampleNow"
        "a2Checkout exampleCoffee2" "Some exampleOffer2"] by auto
qed

section \<open>Ambiguous identities\<close>

text \<open>
  Without \<open>uniformIds\<close> two purchases of different products at different costs may have one identity text; the \<open>Map\<close>
  then keeps the later, worse plan.
\<close>

definition keyTail :: string where
  "keyTail = '':7:piece:6:piece:2:12:piece:5:piece:''"

lemma identity_collision:
  "assignmentKeyV2 (exampleCoffee2\<lparr>a2ProductId := ''p'', a2CostOre := 1000, a2Checkout := (a2Checkout exampleCoffee2)
       \<lparr>appliedOfferId := Some (''x:7038010000010:meny:2000'' @ keyTail @ ''ordinary'')\<rparr>\<rparr>)
   = assignmentKeyV2 (exampleCoffee2\<lparr>a2ProductId := ''p:7038010000010:extra:1000'' @ keyTail @ ''x'', a2CostOre := 2000, a2Chain := Meny,
       a2Checkout := (a2Checkout exampleCoffee2)\<lparr>appliedOfferId := None\<rparr>\<rparr>)"
  by code_simp

end
