(* ===== verification/Frontier_V2.thy ===== *)
theory Frontier_V2
  imports Frontier_Core Planner_V2_Correct
begin

text \<open>
  \<open>packages/domain/src/frontier-v2.ts\<close>: candidates of the second planner with optional travel, their Pareto frontier and
  the representatives shown. Unlike the first module it admits a candidate only if parsing leaves it as it is, and its
  last function refuses partial travel instead of falling back to prices alone.
\<close>

record frontier_plan_v2 = plan_v2 +
  frontierTravel2 :: "calculated_travel option"

definition frontierViewV2 :: "frontier_plan_v2 plan_view" where
  "frontierViewV2 = \<lparr>viewId = p2Id, viewTotal = p2TotalOre, viewStores = (\<lambda>p. int (length (p2Chains p))),
     viewSwaps = (\<lambda>p. int (length (p2Substitutions p))), viewTravel = frontierTravel2\<rparr>"

lemma frontierViewV2_simps [simp]:
  "viewId frontierViewV2 = p2Id" "viewTotal frontierViewV2 p = p2TotalOre p"
  "viewStores frontierViewV2 p = int (length (p2Chains p))" "viewSwaps frontierViewV2 p = int (length (p2Substitutions p))"
  "viewTravel frontierViewV2 p = frontierTravel2 p"
  by (simp_all add: frontierViewV2_def)

section \<open>Candidates\<close>

definition compareAssignmentsV2 :: "assignment_v2 \<Rightarrow> assignment_v2 \<Rightarrow> int" where
  "compareAssignmentsV2 left right =
     js_or (compareText (a2NeedId left) (a2NeedId right))
     (js_or (compareText (a2ProductId left) (a2ProductId right))
     (js_or (compareText (a2Ean left) (a2Ean right))
     (js_or (frontierChainOrder (a2Chain left) - frontierChainOrder (a2Chain right))
     (js_or (compareNumber (a2CostOre left) (a2CostOre right))
     (js_or (compareNumber (measureAmount (v2Requested (a2Fulfilment left))) (measureAmount (v2Requested (a2Fulfilment right))))
     (js_or (compareText (unitText (measureUnit (v2Requested (a2Fulfilment left)))) (unitText (measureUnit (v2Requested (a2Fulfilment right)))))
     (js_or (compareNumber (v2PackageCount (a2Fulfilment left)) (v2PackageCount (a2Fulfilment right)))
     (js_or (compareText (orEmpty (appliedOfferId (a2Checkout left))) (orEmpty (appliedOfferId (a2Checkout right))))
     (js_or (compareText (a2ObservedAt left) (a2ObservedAt right))
       (compareText (a2Source left) (a2Source right)))))))))))"

definition canonicalPlanV2 :: "'a plan_v2_scheme \<Rightarrow> calculated_travel option \<Rightarrow> frontier_plan_v2" where
  "canonicalPlanV2 plan travel =
     \<lparr>p2Id = p2Id plan, p2Assignments = sort_by compareAssignmentsV2 (p2Assignments plan), p2TotalOre = p2TotalOre plan,
      p2Chains = sort_by (\<lambda>l r. frontierChainOrder l - frontierChainOrder r) (p2Chains plan),
      p2Substitutions = sort_by compareText (p2Substitutions plan),
      p2Freshness = sort_by (\<lambda>l r. compareText (fst l) (fst r)) (p2Freshness plan),
      frontierTravel2 = travel\<rparr>"

fun parseTravelV2 :: "travel_result unknown \<Rightarrow> calculated_travel option" where
  "parseTravelV2 Malformed = None"
| "parseTravelV2 (Shaped raw) =
     (case travelResultSchema raw of
        Some (CalculatedTravel t) \<Rightarrow> if raw \<noteq> CalculatedTravel t then None else Some t
      | _ \<Rightarrow> None)"

fun parseCandidateV2 :: "plan_v2 candidate \<Rightarrow> frontier_plan_v2 option" where
  "parseCandidateV2 (MalformedCandidate i) = None"
| "parseCandidateV2 (ShapedCandidate raw travel) =
     (case planResultV2Schema raw of
        None \<Rightarrow> None
      | Some plan \<Rightarrow>
          if raw \<noteq> plan then None
          else (case travel of
                  None \<Rightarrow> Some (canonicalPlanV2 plan None)
                | Some rawTravel \<Rightarrow>
                    (case parseTravelV2 rawTravel of None \<Rightarrow> None | Some t \<Rightarrow> Some (canonicalPlanV2 plan (Some t)))))"

definition canonicalCandidatesV2 :: "plan_v2 candidate list \<Rightarrow> frontier_plan_v2 list" where
  "canonicalCandidatesV2 candidates = canonicalCandidatesBy p2Id frontierViewV2 parseCandidateV2 candidates"

section \<open>Frontier, travel and representatives\<close>

definition withoutTravelV2 :: "frontier_plan_v2 \<Rightarrow> frontier_plan_v2" where
  "withoutTravelV2 candidate = canonicalPlanV2 candidate None"

definition attachOptionalTravelEvidenceV2 ::
    "plan_v2 candidate list \<Rightarrow> travel_entry list option \<Rightarrow> frontier_plan_v2 list" where
  "attachOptionalTravelEvidenceV2 plans travelEvidence =
     attachBy frontierViewV2 parseTravelV2 (\<lambda>plan t. canonicalPlanV2 plan (Some t))
       (map withoutTravelV2 (canonicalCandidatesV2 plans)) travelEvidence"

definition paretoFrontierV2 :: "plan_v2 candidate list \<Rightarrow> frontier_plan_v2 list" where
  "paretoFrontierV2 candidates = paretoBy frontierViewV2 (canonicalCandidatesV2 candidates)"

definition projectRepresentativesV2 :: "plan_v2 candidate list \<Rightarrow> rat \<Rightarrow> frontier_plan_v2 list" where
  "projectRepresentativesV2 candidates maximum = projectBy frontierViewV2 (paretoFrontierV2 candidates) maximum"

text \<open>A frontier plan as the value the next function parses, and without its travel.\<close>

definition asCandidate :: "frontier_plan_v2 \<Rightarrow> plan_v2 candidate" where
  "asCandidate p = ShapedCandidate (plan_v2.truncate p) (map_option (\<lambda>t. Shaped (CalculatedTravel t)) (frontierTravel2 p))"

definition canonicalProjectedPlanResultsV2 ::
    "plan_v2 candidate list \<Rightarrow> rat \<Rightarrow> travel_entry list option \<Rightarrow> plan_v2 list option" where
  "canonicalProjectedPlanResultsV2 plans maximum travelEvidence =
     (let attached = attachOptionalTravelEvidenceV2 plans travelEvidence
      in if length attached \<noteq> length plans
            \<or> travelEvidence \<noteq> None \<and> list_ex (\<lambda>c. \<not> hasTravel frontierViewV2 c) attached then None
         else
           (let projected = projectRepresentativesV2 (map asCandidate (paretoFrontierV2 (map asCandidate attached))) maximum
            in parseAll planResultV2Schema (map plan_v2.truncate projected)))"

section \<open>Canonical plans stay admitted\<close>

interpretation by_assignment_v2: comparator compareAssignmentsV2
  unfolding compareAssignmentsV2_def by (intro comparator_intros)

lemma planResultV2_fixedE:
  assumes "planResultV2Schema q = Some q"
  shows "identifierSchema (p2Id q) = Some (p2Id q)" "parseAll planAssignmentV2Schema (p2Assignments q) = Some (p2Assignments q)"
    "parseAll identifierSchema (p2Substitutions q) = Some (p2Substitutions q)" "parseAll freshnessEntry (p2Freshness q) = Some (p2Freshness q)"
    "distinct (map fst (p2Freshness q))" "1 \<le> length (p2Assignments q)" "length (p2Assignments q) \<le> 50" "moneyOreSchema (p2TotalOre q)"
    "1 \<le> length (p2Chains q)" "length (p2Chains q) \<le> 3" "length (p2Substitutions q) \<le> 50" "planResultV2Refinement q"
proof -
  obtain i as subs freshness where p: "identifierSchema (p2Id q) = Some i" "parseAll planAssignmentV2Schema (p2Assignments q) = Some as"
    "parseAll identifierSchema (p2Substitutions q) = Some subs" "parseAll freshnessEntry (p2Freshness q) = Some freshness"
    and eq: "q = q\<lparr>p2Id := i, p2Assignments := as, p2Substitutions := subs, p2Freshness := newMap freshness\<rparr>"
    and rest: "1 \<le> length as" "length as \<le> 50" "moneyOreSchema (p2TotalOre q)" "1 \<le> length (p2Chains q)"
      "length (p2Chains q) \<le> 3" "length subs \<le> 50" "planResultV2Refinement q"
    using assms by (auto simp: planResultV2Schema_def Let_def split: option.splits if_splits)
  have f: "i = p2Id q" "as = p2Assignments q" "subs = p2Substitutions q" "newMap freshness = p2Freshness q"
    by (subst eq, simp)+
  have "length freshness = length (p2Freshness q)" using p(4) by (auto dest: parseAll_length)
  then have "length (newMap freshness) = length freshness" using f(4) by simp
  moreover have "set (map fst (newMap freshness)) = set (map fst freshness)" using keys_newMap [of freshness] by simp
  moreover have "distinct (map fst (newMap freshness))" by (rule distinct_newMap)
  ultimately have "distinct (map fst freshness)" by (metis card_distinct distinct_card length_map)
  then have "newMap freshness = freshness" by (rule newMap_distinct_id)
  with f p rest \<open>distinct (map fst freshness)\<close>
  show "identifierSchema (p2Id q) = Some (p2Id q)" "parseAll planAssignmentV2Schema (p2Assignments q) = Some (p2Assignments q)"
    "parseAll identifierSchema (p2Substitutions q) = Some (p2Substitutions q)" "parseAll freshnessEntry (p2Freshness q) = Some (p2Freshness q)"
    "distinct (map fst (p2Freshness q))" "1 \<le> length (p2Assignments q)" "length (p2Assignments q) \<le> 50" "moneyOreSchema (p2TotalOre q)"
    "1 \<le> length (p2Chains q)" "length (p2Chains q) \<le> 3" "length (p2Substitutions q) \<le> 50" "planResultV2Refinement q"
    by simp_all
qed

lemma assignment_fixedE:
  assumes "planAssignmentV2Schema a = Some a"
  shows "identifierSchema (a2NeedId a) = Some (a2NeedId a)" "identifierSchema (a2ProductId a) = Some (a2ProductId a)"
    "gtinSchema (a2Ean a) = Some (a2Ean a)" "fulfilmentV2Schema (a2Fulfilment a) = Some (a2Fulfilment a)"
    "checkoutCostV2Schema (a2Checkout a) = Some (a2Checkout a)" "assignmentV2Refinement a"
proof -
  obtain n k e s f c r where p: "identifierSchema (a2NeedId a) = Some n" "identifierSchema (a2ProductId a) = Some k"
      "gtinSchema (a2Ean a) = Some e" "fulfilmentV2Schema (a2Fulfilment a) = Some f" "checkoutCostV2Schema (a2Checkout a) = Some c"
    and eq: "a\<lparr>a2NeedId := n, a2ProductId := k, a2Source := s, a2Fulfilment := f, a2Checkout := c, a2Offer := r\<rparr> = a"
    and ref: "assignmentV2Refinement (a\<lparr>a2NeedId := n, a2ProductId := k, a2Source := s, a2Fulfilment := f, a2Checkout := c, a2Offer := r\<rparr>)"
    using assms by (auto simp: planAssignmentV2Schema_def Let_def split: option.splits if_splits)
  have "a2NeedId a = n" "a2ProductId a = k" "a2Fulfilment a = f" "a2Checkout a = c"
    using arg_cong [OF eq, of a2NeedId] arg_cong [OF eq, of a2ProductId] arg_cong [OF eq, of a2Fulfilment] arg_cong [OF eq, of a2Checkout]
    by simp_all
  with p show "identifierSchema (a2NeedId a) = Some (a2NeedId a)" "identifierSchema (a2ProductId a) = Some (a2ProductId a)"
    "gtinSchema (a2Ean a) = Some (a2Ean a)" "fulfilmentV2Schema (a2Fulfilment a) = Some (a2Fulfilment a)"
    "checkoutCostV2Schema (a2Checkout a) = Some (a2Checkout a)" using gtinSchema_eq [OF p(3)] by simp_all
  show "assignmentV2Refinement a" using ref unfolding eq .
qed

lemma plan_assignments:
  assumes "planResultV2Schema p = Some p" and "a \<in> set (p2Assignments p)"
  shows "planAssignmentV2Schema a = Some a" "a2CostOre a = ordinaryTotalOre (a2Checkout a) - savingOre (a2Checkout a)"
    "appliedOfferId (a2Checkout a) = None \<longleftrightarrow> savingOre (a2Checkout a) = 0" "0 \<le> savingOre (a2Checkout a)"
proof -
  show fixed: "planAssignmentV2Schema a = Some a" using planResultV2_fixedE(2) [OF assms(1)] assms(2) by (simp add: parseAll_fixed)
  note e = assignment_fixedE [OF fixed]
  have "checkoutRefinement (a2Checkout a)" "moneyOreSchema (savingOre (a2Checkout a))"
    using e(5) by (auto simp: checkoutCostV2Schema_def split: option.splits if_splits)
  moreover have "a2CostOre a = checkoutTotalOre (a2Checkout a)" using e(6) by (simp add: assignmentV2Refinement_def)
  ultimately show "a2CostOre a = ordinaryTotalOre (a2Checkout a) - savingOre (a2Checkout a)"
    "appliedOfferId (a2Checkout a) = None \<longleftrightarrow> savingOre (a2Checkout a) = 0" "0 \<le> savingOre (a2Checkout a)"
    by (auto simp: checkoutRefinement_def moneyOreSchema_def)
qed

lemma refinementV2_perm:
  assumes "mset (p2Assignments p) = mset (p2Assignments q)" "mset (p2Chains p) = mset (p2Chains q)"
    "mset (p2Substitutions p) = mset (p2Substitutions q)" "mset (p2Freshness p) = mset (p2Freshness q)" "p2TotalOre p = p2TotalOre q"
  shows "planResultV2Refinement p = planResultV2Refinement q"
proof -
  have sets: "set (p2Assignments p) = set (p2Assignments q)" "set (p2Chains p) = set (p2Chains q)" "set (p2Substitutions p) = set (p2Substitutions q)"
    using assms(1-3) by (metis set_mset_mset)+
  have "mset (uniq (map a2Chain (p2Assignments p))) = mset (uniq (map a2Chain (p2Assignments q)))"
    by (subst set_eq_iff_mset_eq_distinct [symmetric]) (simp_all add: sets)
  then have a: "sort_by compareText (map chainText (uniq (map a2Chain (p2Assignments p)))) = sort_by compareText (map chainText (uniq (map a2Chain (p2Assignments q))))"
    by (intro sort_text_perm) simp
  have b: "sort_by compareText (map chainText (p2Chains p)) = sort_by compareText (map chainText (p2Chains q))"
    "sort_by compareText (map a2NeedId (p2Assignments p)) = sort_by compareText (map a2NeedId (p2Assignments q))"
    "sort_by compareText (map fst (p2Freshness p)) = sort_by compareText (map fst (p2Freshness q))"
    by (rule sort_text_perm, simp add: assms(1,2,4))+
  have "sum_list (map a2CostOre (p2Assignments p)) = sum_list (map a2CostOre (p2Assignments q))"
    using assms(1) by (metis mset_map sum_mset_sum_list)
  moreover have "distinct (map chainText (p2Chains p)) = distinct (map chainText (p2Chains q))"
    "distinct (map a2NeedId (p2Assignments p)) = distinct (map a2NeedId (p2Assignments q))"
    "distinct (p2Substitutions p) = distinct (p2Substitutions q)"
    using assms(1-3) by (auto intro!: mset_eq_imp_distinct_iff)
  ultimately show ?thesis
    unfolding planResultV2Refinement_def Let_def a b foldl_sum
    by (simp add: sets list_ex_iff assms(5))
qed

lemma canonicalPlanV2_admitted:
  assumes "planResultV2Schema q = Some q"
  shows "planResultV2Schema (plan_v2.truncate (canonicalPlanV2 q t)) = Some (plan_v2.truncate (canonicalPlanV2 q t))"
proof -
  let ?p = "plan_v2.truncate (canonicalPlanV2 q t)"
  note q = planResultV2_fixedE [OF assms]
  have f: "p2Id ?p = p2Id q" "mset (p2Assignments ?p) = mset (p2Assignments q)" "mset (p2Chains ?p) = mset (p2Chains q)"
    "mset (p2Substitutions ?p) = mset (p2Substitutions q)" "mset (p2Freshness ?p) = mset (p2Freshness q)" "p2TotalOre ?p = p2TotalOre q"
    by (simp_all add: canonicalPlanV2_def plan_v2.truncate_def)
  have len: "length (p2Assignments ?p) = length (p2Assignments q)" "length (p2Chains ?p) = length (p2Chains q)"
    "length (p2Substitutions ?p) = length (p2Substitutions q)"
    using f(2-4) by (metis size_mset)+
  have s: "set (p2Assignments ?p) = set (p2Assignments q)" "set (p2Substitutions ?p) = set (p2Substitutions q)" "set (p2Freshness ?p) = set (p2Freshness q)"
    using f(2,4,5) by (metis set_mset_mset)+
  have "newMap (p2Freshness ?p) = p2Freshness ?p"
    using q(5) f(5) by (intro newMap_distinct_id) (metis mset_eq_imp_distinct_iff mset_map)
  then show ?thesis
    using q s len f(1,6) refinementV2_perm [OF f(2-6)]
    by (intro planResultV2_fixedI) (simp_all add: parseAll_fixed)
qed

interpretation by_chain_order: comparator "\<lambda>l r. frontierChainOrder l - frontierChainOrder r"
  by (intro comparator_intros)

interpretation by_entry_key: comparator "\<lambda>l r. compareText (fst l) (fst r)"
  by (intro comparator_intros)

lemma canonicalPlanV2_idem: "canonicalPlanV2 (canonicalPlanV2 q t) u = canonicalPlanV2 q u"
  by (simp add: canonicalPlanV2_def by_assignment_v2.sort_by_again by_text.sort_by_again by_chain_order.sort_by_again
      by_entry_key.sort_by_again)

lemma parseTravelV2_again: "parseTravelV2 raw = Some t \<Longrightarrow> parseTravelV2 (Shaped (CalculatedTravel t)) = Some t"
  by (cases raw) (auto split: option.splits travel_result.splits if_splits)

lemma parseCandidateV2_Some:
  assumes "parseCandidateV2 c = Some p"
  obtains plan t where "planResultV2Schema plan = Some plan" "p = canonicalPlanV2 plan t" "rawId p2Id c = Some (p2Id plan)"
    "\<And>travel. t = Some travel \<Longrightarrow> parseTravelV2 (Shaped (CalculatedTravel travel)) = Some travel"
proof (cases c)
  case (ShapedCandidate raw travel)
  with assms have plan: "planResultV2Schema raw = Some raw" by (auto simp del: parseTravelV2.simps split: option.splits if_splits)
  show thesis
  proof (cases travel)
    case None
    with assms ShapedCandidate plan show thesis by (intro that [of raw None]) simp_all
  next
    case (Some rawTravel)
    with assms ShapedCandidate plan obtain t where t: "parseTravelV2 rawTravel = Some t" "p = canonicalPlanV2 raw (Some t)"
      by (cases "parseTravelV2 rawTravel") simp_all
    show thesis
      by (rule that [of raw "Some t"]) (use plan t ShapedCandidate parseTravelV2_again [OF t(1)] in \<open>simp_all del: parseTravelV2.simps\<close>)
  qed
qed (use assms in simp)

lemma parse_asCandidate:
  assumes "parseCandidateV2 c = Some p"
  shows "parseCandidateV2 (asCandidate p) = Some p"
  using assms
proof (rule parseCandidateV2_Some)
  fix plan t
  assume plan: "planResultV2Schema plan = Some plan" and p: "p = canonicalPlanV2 plan t"
    and t: "\<And>travel. t = Some travel \<Longrightarrow> parseTravelV2 (Shaped (CalculatedTravel travel)) = Some travel"
  have "frontierTravel2 p = t" by (simp add: p canonicalPlanV2_def)
  moreover have "canonicalPlanV2 (plan_v2.truncate p) u = canonicalPlanV2 plan u" for u
    using canonicalPlanV2_idem [of plan t u] by (simp add: p canonicalPlanV2_def plan_v2.truncate_def)
  ultimately show ?thesis
    using canonicalPlanV2_admitted [OF plan, of t] t p by (cases t) (simp_all add: asCandidate_def del: parseTravelV2.simps)
qed

interpretation frontier_source_v2: candidate_source p2Id frontierViewV2 parseCandidateV2
proof
  show "rawId p2Id c = Some (viewId frontierViewV2 p)" if "parseCandidateV2 c = Some p" for c p
    using that by (auto elim!: parseCandidateV2_Some simp: canonicalPlanV2_def)
  show "isExactIdentifier (viewId frontierViewV2 p)" if "parseCandidateV2 c = Some p" for c p
    using that by (auto elim!: parseCandidateV2_Some simp: canonicalPlanV2_def isExactIdentifier_def planResultV2_fixedE(1))
qed

section \<open>Plans with travel\<close>

lemma canonicalCandidatesV2_Some:
  assumes "p \<in> set (canonicalCandidatesV2 candidates)"
  obtains plan t where "planResultV2Schema plan = Some plan" "p = canonicalPlanV2 plan t"
  using assms unfolding canonicalCandidatesV2_def frontier_source_v2.canonical_mem by (auto elim!: parseCandidateV2_Some)

definition pricedPlans :: "plan_v2 candidate list \<Rightarrow> frontier_plan_v2 list" where
  "pricedPlans plans = map withoutTravelV2 (canonicalCandidatesV2 plans)"

lemma pricedPlans_ids: "map p2Id (pricedPlans plans) = map p2Id (canonicalCandidatesV2 plans)"
  by (simp add: pricedPlans_def withoutTravelV2_def canonicalPlanV2_def comp_def)

lemma pricedPlans_distinct: "distinct (map (viewId frontierViewV2) (pricedPlans plans))"
  unfolding frontierViewV2_simps pricedPlans_ids canonicalCandidatesV2_def
  using frontier_source_v2.canonical_distinct [of plans] by simp

lemma pricedPlans_mem:
  assumes "p \<in> set (pricedPlans plans)"
  shows "isExactIdentifier (viewId frontierViewV2 p)" "frontierTravel2 p = None" "canonicalPlanV2 p t = p\<lparr>frontierTravel2 := t\<rparr>"
    "parseCandidateV2 (asCandidate p) = Some p"
proof -
  obtain q where q: "q \<in> set (canonicalCandidatesV2 plans)" "p = canonicalPlanV2 q None"
    using assms by (auto simp: pricedPlans_def withoutTravelV2_def)
  obtain plan u where plan: "planResultV2Schema plan = Some plan" "q = canonicalPlanV2 plan u"
    using canonicalCandidatesV2_Some [OF q(1)] .
  have p: "p = canonicalPlanV2 plan None" using q(2) plan(2) by (simp add: canonicalPlanV2_idem)
  show "isExactIdentifier (viewId frontierViewV2 p)"
    using planResultV2_fixedE(1) [OF plan(1)] by (simp add: p canonicalPlanV2_def isExactIdentifier_def)
  show "frontierTravel2 p = None" by (simp add: p canonicalPlanV2_def)
  have "canonicalPlanV2 p t = canonicalPlanV2 plan t" by (simp add: p canonicalPlanV2_idem)
  then show "canonicalPlanV2 p t = p\<lparr>frontierTravel2 := t\<rparr>" by (simp add: p canonicalPlanV2_def)
  have "parseCandidateV2 (ShapedCandidate plan None) = Some p" using plan(1) by (simp add: p)
  then show "parseCandidateV2 (asCandidate p) = Some p" by (rule parse_asCandidate)
qed

text \<open>What attachment returns: prices alone, or every plan with its own travel.\<close>

definition travelMatches :: "plan_v2 candidate list \<Rightarrow> travel_entry list option \<Rightarrow> (string \<times> calculated_travel) list \<Rightarrow> bool" where
  "travelMatches plans travelEvidence ts \<longleftrightarrow>
     (\<exists>entries. travelEvidence = Some entries \<and> matchedTravel parseTravelV2 (map p2Id (pricedPlans plans)) entries ts)"

lemma travelMatches_entry:
  assumes "travelMatches plans travelEvidence ts" and "p \<in> set (pricedPlans plans)"
  obtains t raw where "map_of ts (p2Id p) = Some t" "parseTravelV2 raw = Some t"
proof -
  obtain entries where m: "matchedTravel parseTravelV2 (map p2Id (pricedPlans plans)) entries ts"
    using assms(1) by (auto simp: travelMatches_def)
  then have "set (map fst ts) = set (map p2Id (pricedPlans plans))" unfolding matchedTravel_def by (metis set_mset_mset)
  with assms(2) have "p2Id p \<in> fst ` set ts" by auto
  then obtain t where t: "map_of ts (p2Id p) = Some t" by (metis map_of_eq_None_iff not_None_eq)
  have l: "list_all2 (\<lambda>e (i, t). \<exists>raw. e = TravelEntry i raw \<and> parseTravelV2 raw = Some t) entries ts"
    using m by (simp add: matchedTravel_def)
  obtain raw where "parseTravelV2 raw = Some t" using list_all2_right [OF l map_of_SomeD [OF t]] by auto
  with t that show thesis by blast
qed

lemma attachV2_matched:
  assumes "travelMatches plans travelEvidence ts"
  shows "attachOptionalTravelEvidenceV2 plans travelEvidence =
    orderCandidatesBy frontierViewV2 (map (\<lambda>p. p\<lparr>frontierTravel2 := map_of ts (p2Id p)\<rparr>) (pricedPlans plans))"
proof -
  obtain entries where e: "travelEvidence = Some entries"
    and m: "matchedTravel parseTravelV2 (map p2Id (pricedPlans plans)) entries ts"
    using assms by (auto simp: travelMatches_def)
  have "attachOptionalTravelEvidenceV2 plans travelEvidence = orderCandidatesBy frontierViewV2
      (map (\<lambda>p. canonicalPlanV2 p (Some (the (map_of ts (viewId frontierViewV2 p))))) (pricedPlans plans))"
    unfolding attachOptionalTravelEvidenceV2_def e pricedPlans_def [symmetric]
    using m pricedPlans_distinct pricedPlans_mem(1) by (intro attach_matched) auto
  moreover have "canonicalPlanV2 p (Some (the (map_of ts (viewId frontierViewV2 p)))) = p\<lparr>frontierTravel2 := map_of ts (p2Id p)\<rparr>"
    if p_in: "p \<in> set (pricedPlans plans)" for p
  proof -
    obtain t raw where "map_of ts (p2Id p) = Some t" "parseTravelV2 raw = Some t" using travelMatches_entry [OF assms p_in] .
    then show ?thesis using pricedPlans_mem(3) [OF p_in] by simp
  qed
  ultimately show ?thesis by (simp cong: map_cong)
qed

lemma attachV2_unmatched:
  assumes "\<And>ts. \<not> travelMatches plans travelEvidence ts"
  shows "attachOptionalTravelEvidenceV2 plans travelEvidence = orderCandidatesBy frontierViewV2 (pricedPlans plans)"
proof -
  show ?thesis
    unfolding attachOptionalTravelEvidenceV2_def pricedPlans_def [symmetric]
    using pricedPlans_distinct pricedPlans_mem(1) assms by (intro attach_unmatched) (auto simp: travelMatches_def)
qed

lemma projectBy_subset: "set (projectBy v ordered maximum) \<subseteq> set ordered"
proof (cases "of_int \<lfloor>maximum\<rfloor> \<noteq> maximum \<or> maximum < 1 \<or> maximum > 7")
  case False
  then have eq: "of_int \<lfloor>maximum\<rfloor> = maximum" and r: "1 \<le> maximum" "maximum \<le> 7" by linarith+
  define k where "k = \<lfloor>maximum\<rfloor>"
  have "(1 :: rat) \<le> of_int k" "of_int k \<le> (7 :: rat)" using eq r unfolding k_def by argo+
  then have k: "1 \<le> k" "k \<le> 7" by simp_all
  define limit where "limit = nat k"
  have "of_nat limit = (of_int k :: rat)" using k by (simp add: limit_def)
  then have "maximum = of_nat limit" unfolding k_def eq by (rule sym)
  moreover have "1 \<le> limit" "limit \<le> 7" using k by (simp_all add: limit_def)
  ultimately show ?thesis using project_represents [of limit v ordered] by (auto simp: represents_def)
qed (auto simp: projectBy_def)

lemma pricedPlans_cases:
  assumes "p \<in> set (pricedPlans plans)"
  obtains plan where "planResultV2Schema plan = Some plan" "p = canonicalPlanV2 plan None"
proof -
  obtain q where q: "q \<in> set (canonicalCandidatesV2 plans)" "p = canonicalPlanV2 q None"
    using assms by (auto simp: pricedPlans_def withoutTravelV2_def)
  from canonicalCandidatesV2_Some [OF q(1)] q(2) canonicalPlanV2_idem that show thesis by metis
qed

lemma attachV2_matched_mset:
  assumes "travelMatches plans travelEvidence ts"
  shows "mset (attachOptionalTravelEvidenceV2 plans travelEvidence)
    = mset (map (\<lambda>p. p\<lparr>frontierTravel2 := map_of ts (p2Id p)\<rparr>) (pricedPlans plans))"
  unfolding attachV2_matched [OF assms]
  by (rule orderCandidates_mset) (use pricedPlans_distinct [of plans] in \<open>simp add: comp_def\<close>)

lemma attachV2_unmatched_mset:
  "(\<And>ts. \<not> travelMatches plans travelEvidence ts) \<Longrightarrow>
     mset (attachOptionalTravelEvidenceV2 plans travelEvidence) = mset (pricedPlans plans)"
  by (simp add: attachV2_unmatched orderCandidates_mset [OF pricedPlans_distinct])

lemma attachedV2_cases:
  assumes "p \<in> set (attachOptionalTravelEvidenceV2 plans travelEvidence)"
  obtains q plan t where "q \<in> set (pricedPlans plans)" "planResultV2Schema plan = Some plan" "q = canonicalPlanV2 plan None"
    "p = canonicalPlanV2 plan t" "t = None \<longleftrightarrow> (\<forall>ts. \<not> travelMatches plans travelEvidence ts)"
    "\<And>travel. t = Some travel \<Longrightarrow> \<exists>raw. parseTravelV2 raw = Some travel"
proof (cases "\<exists>ts. travelMatches plans travelEvidence ts")
  case True
  then obtain ts where m: "travelMatches plans travelEvidence ts" by blast
  obtain q where q: "q \<in> set (pricedPlans plans)" "p = q\<lparr>frontierTravel2 := map_of ts (p2Id q)\<rparr>"
    using mset_eq_setD [OF attachV2_matched_mset [OF m]] assms by auto
  obtain plan where plan: "planResultV2Schema plan = Some plan" "q = canonicalPlanV2 plan None"
    using pricedPlans_cases [OF q(1)] .
  obtain t raw where t: "map_of ts (p2Id q) = Some t" "parseTravelV2 raw = Some t" using travelMatches_entry [OF m q(1)] .
  have "p = canonicalPlanV2 plan (Some t)" using q(2) t(1) by (simp add: plan(2) canonicalPlanV2_def)
  then show thesis by (rule that [OF q(1) plan, of "Some t"]) (use m t(2) in auto)
next
  case False
  then have "p \<in> set (pricedPlans plans)"
    using mset_eq_setD [OF attachV2_unmatched_mset [of plans travelEvidence]] assms by auto
  then obtain plan where plan: "planResultV2Schema plan = Some plan" "p = canonicalPlanV2 plan None"
    using pricedPlans_cases by blast
  show thesis by (rule that [OF \<open>p \<in> set (pricedPlans plans)\<close> plan plan(2)]) (use False in auto)
qed

lemma attachedV2_mem:
  assumes "p \<in> set (attachOptionalTravelEvidenceV2 plans travelEvidence)"
  shows "parseCandidateV2 (asCandidate p) = Some p" "plan_v2.truncate p \<in> plan_v2.truncate ` set (pricedPlans plans)"
    "planResultV2Schema (plan_v2.truncate p) = Some (plan_v2.truncate p)"
    "hasTravel frontierViewV2 p \<longleftrightarrow> (\<exists>ts. travelMatches plans travelEvidence ts)"
proof -
  obtain q plan t where a: "q \<in> set (pricedPlans plans)" "planResultV2Schema plan = Some plan" "q = canonicalPlanV2 plan None"
    "p = canonicalPlanV2 plan t" "t = None \<longleftrightarrow> (\<forall>ts. \<not> travelMatches plans travelEvidence ts)"
    "\<And>travel. t = Some travel \<Longrightarrow> \<exists>raw. parseTravelV2 raw = Some travel"
    using attachedV2_cases [OF assms] by metis
  have "\<exists>raw. parseCandidateV2 (ShapedCandidate plan raw) = Some p"
  proof (cases t)
    case None
    then show ?thesis using a(2,4) by (intro exI [of _ None]) simp
  next
    case (Some travel)
    then obtain raw where "parseTravelV2 raw = Some travel" using a(6) by blast
    then show ?thesis using a(2,4) Some by (intro exI [of _ "Some raw"]) (simp del: parseTravelV2.simps)
  qed
  then show "parseCandidateV2 (asCandidate p) = Some p" using parse_asCandidate by blast
  have "plan_v2.truncate p = plan_v2.truncate q" by (simp add: a(3,4) canonicalPlanV2_def plan_v2.truncate_def)
  then show "plan_v2.truncate p \<in> plan_v2.truncate ` set (pricedPlans plans)" using a(1) by simp
  show "planResultV2Schema (plan_v2.truncate p) = Some (plan_v2.truncate p)"
    unfolding a(4) by (rule canonicalPlanV2_admitted [OF a(2)])
  show "hasTravel frontierViewV2 p \<longleftrightarrow> (\<exists>ts. travelMatches plans travelEvidence ts)"
    using a(4,5) by (simp add: hasTravel_def canonicalPlanV2_def)
qed

text \<open>The frontier of the attached plans, parsed again twice as the code does, stays as it is.\<close>

lemma frontierV2_of_attached:
  assumes "set ps \<subseteq> set (attachOptionalTravelEvidenceV2 plans travelEvidence)" and "distinct (map p2Id ps)"
  shows "paretoFrontierV2 (map asCandidate ps) = paretoBy frontierViewV2 ps"
proof -
  have "canonicalCandidatesV2 (map asCandidate ps) = ps"
    unfolding canonicalCandidatesV2_def
    using assms attachedV2_mem(1) by (intro frontier_source_v2.canonical_idem) auto
  then show ?thesis by (simp add: paretoFrontierV2_def)
qed

lemma attachedV2_distinct: "distinct (map p2Id (attachOptionalTravelEvidenceV2 plans travelEvidence))"
proof -
  have "mset (map p2Id (attachOptionalTravelEvidenceV2 plans travelEvidence)) = mset (map p2Id (pricedPlans plans))"
  proof (cases "\<exists>ts. travelMatches plans travelEvidence ts")
    case True
    then obtain ts where "travelMatches plans travelEvidence ts" by blast
    from attachV2_matched_mset [OF this] show ?thesis by (simp add: image_mset.compositionality comp_def)
  qed (use attachV2_unmatched_mset [of plans travelEvidence] in simp)
  then show ?thesis using pricedPlans_distinct [of plans] by (metis frontierViewV2_simps(1) mset_eq_imp_distinct_iff)
qed

lemma attachedV2_length: "length (attachOptionalTravelEvidenceV2 plans travelEvidence) = length (canonicalCandidatesV2 plans)"
proof -
  have "size (mset (attachOptionalTravelEvidenceV2 plans travelEvidence)) = size (mset (pricedPlans plans))"
  proof (cases "\<exists>ts. travelMatches plans travelEvidence ts")
    case True
    then obtain ts where "travelMatches plans travelEvidence ts" by blast
    from attachV2_matched_mset [OF this] show ?thesis by simp
  qed (use attachV2_unmatched_mset [of plans travelEvidence] in simp)
  then show ?thesis by (simp add: pricedPlans_def)
qed

text \<open>When the projection answers, and with what.\<close>

lemma projectedV2_eq:
  "canonicalProjectedPlanResultsV2 plans maximum travelEvidence =
     (if length (canonicalCandidatesV2 plans) = length plans
         \<and> (travelEvidence = None \<or> plans = [] \<or> (\<exists>ts. travelMatches plans travelEvidence ts))
      then Some (map plan_v2.truncate
             (projectBy frontierViewV2 (paretoBy frontierViewV2 (attachOptionalTravelEvidenceV2 plans travelEvidence)) maximum))
      else None)"
  "set (projectBy frontierViewV2 (paretoBy frontierViewV2 (attachOptionalTravelEvidenceV2 plans travelEvidence)) maximum)
     \<subseteq> set (attachOptionalTravelEvidenceV2 plans travelEvidence)"
proof -
  let ?attached = "attachOptionalTravelEvidenceV2 plans travelEvidence"
  let ?frontier = "paretoBy frontierViewV2 ?attached"
  let ?projected = "projectBy frontierViewV2 ?frontier maximum"
  have d: "distinct (map (viewId frontierViewV2) ?attached)" using attachedV2_distinct by simp
  have front: "set ?frontier \<subseteq> set ?attached" using pareto_mem [OF d] by auto
  have parsed: "projectRepresentativesV2 (map asCandidate (paretoFrontierV2 (map asCandidate ?attached))) maximum = ?projected"
    unfolding projectRepresentativesV2_def frontierV2_of_attached [OF order.refl attachedV2_distinct]
    using frontierV2_of_attached [OF front] pareto_distinct [OF d] by (simp add: pareto_idem [OF d])
  have inside: "set ?projected \<subseteq> set ?attached" using projectBy_subset front by (rule order.trans)
  have strip: "parseAll planResultV2Schema (map plan_v2.truncate ?projected) = Some (map plan_v2.truncate ?projected)"
    using inside attachedV2_mem(3) by (intro parseAll_id) auto
  have len: "length ?attached = length (canonicalCandidatesV2 plans)"
    by (metis attachedV2_length)
  have travel: "list_ex (\<lambda>c. \<not> hasTravel frontierViewV2 c) ?attached \<longleftrightarrow>
      \<not> (\<exists>ts. travelMatches plans travelEvidence ts) \<and> ?attached \<noteq> []"
    using attachedV2_mem(4) [of _ plans travelEvidence] by (cases ?attached) (auto simp: list_ex_iff)
  have empty: "length ?attached = length plans \<Longrightarrow> ?attached = [] \<longleftrightarrow> plans = []" by auto
  show "set ?projected \<subseteq> set ?attached" by (rule inside)
  show "canonicalProjectedPlanResultsV2 plans maximum travelEvidence =
     (if length (canonicalCandidatesV2 plans) = length plans
         \<and> (travelEvidence = None \<or> plans = [] \<or> (\<exists>ts. travelMatches plans travelEvidence ts))
      then Some (map plan_v2.truncate ?projected) else None)"
    unfolding canonicalProjectedPlanResultsV2_def Let_def parsed strip travel len [symmetric]
    using empty by auto
qed

section \<open>Properties\<close>

text \<open>
  C22. Travel is attached to all plans or to none: if the evidence pairs every admitted plan with exactly one calculated
  travel, each plan carries its own; in every other case all plans come back with their prices only. No plan is lost
  or changed otherwise.
\<close>

theorem travel_attached_atomically:
  "(\<forall>ts. travelMatches plans travelEvidence ts \<longrightarrow>
      mset (attachOptionalTravelEvidenceV2 plans travelEvidence)
        = mset (map (\<lambda>p. p\<lparr>frontierTravel2 := map_of ts (p2Id p)\<rparr>) (pricedPlans plans))
      \<and> (\<forall>p \<in> set (attachOptionalTravelEvidenceV2 plans travelEvidence). hasTravel frontierViewV2 p))
   \<and> ((\<forall>ts. \<not> travelMatches plans travelEvidence ts) \<longrightarrow>
      mset (attachOptionalTravelEvidenceV2 plans travelEvidence) = mset (pricedPlans plans)
      \<and> (\<forall>p \<in> set (attachOptionalTravelEvidenceV2 plans travelEvidence). \<not> hasTravel frontierViewV2 p))"
  using attachV2_matched_mset [of plans travelEvidence] attachV2_unmatched_mset [of plans travelEvidence] attachedV2_mem(4)
  by blast

text \<open>
  C23. \<open>canonicalProjectedPlanResultsV2\<close> never falls back silently: it answers exactly when every plan given is admitted
  under an identifier of its own and, if travel evidence was given, the evidence pairs every plan with a travel; its
  answer is then the projection of the frontier of the attached plans, and every plan in it is one of the plans given,
  in canonical form and admitted by the published contract.
\<close>

theorem projected_plans_exact:
  "canonicalProjectedPlanResultsV2 plans maximum travelEvidence =
     (if length (canonicalCandidatesV2 plans) = length plans
         \<and> (travelEvidence = None \<or> plans = [] \<or> (\<exists>ts. travelMatches plans travelEvidence ts))
      then Some (map plan_v2.truncate
             (projectBy frontierViewV2 (paretoBy frontierViewV2 (attachOptionalTravelEvidenceV2 plans travelEvidence)) maximum))
      else None)
   \<and> (\<forall>results. canonicalProjectedPlanResultsV2 plans maximum travelEvidence = Some results \<longrightarrow>
        (\<forall>p \<in> set results. planResultV2Schema p = Some p \<and> p \<in> plan_v2.truncate ` set (pricedPlans plans)))"
proof (intro conjI allI impI)
  show "canonicalProjectedPlanResultsV2 plans maximum travelEvidence =
     (if length (canonicalCandidatesV2 plans) = length plans
         \<and> (travelEvidence = None \<or> plans = [] \<or> (\<exists>ts. travelMatches plans travelEvidence ts))
      then Some (map plan_v2.truncate
             (projectBy frontierViewV2 (paretoBy frontierViewV2 (attachOptionalTravelEvidenceV2 plans travelEvidence)) maximum))
      else None)" by (rule projectedV2_eq(1))
  fix results assume "canonicalProjectedPlanResultsV2 plans maximum travelEvidence = Some results"
  then have results: "results = map plan_v2.truncate
      (projectBy frontierViewV2 (paretoBy frontierViewV2 (attachOptionalTravelEvidenceV2 plans travelEvidence)) maximum)"
    unfolding projectedV2_eq(1) by (simp split: if_splits)
  have "planResultV2Schema (plan_v2.truncate p) = Some (plan_v2.truncate p) \<and> plan_v2.truncate p \<in> plan_v2.truncate ` set (pricedPlans plans)"
    if "p \<in> set (projectBy frontierViewV2 (paretoBy frontierViewV2 (attachOptionalTravelEvidenceV2 plans travelEvidence)) maximum)" for p
    using attachedV2_mem(2,3) subsetD [OF projectedV2_eq(2) that] by blast
  then show "\<forall>p \<in> set results. planResultV2Schema p = Some p \<and> p \<in> plan_v2.truncate ` set (pricedPlans plans)"
    unfolding results set_map by blast
qed

section \<open>A concrete plan\<close>

definition examplePlan2 :: plan_v2 where
  "examplePlan2 = \<lparr>p2Id = ''plan:1'', p2Assignments = [exampleCoffee2], p2TotalOre = 10000, p2Chains = [Extra],
     p2Substitutions = [], p2Freshness = [(''need:coffee'', ''eligible'')]\<rparr>"

definition exampleTrip2 :: calculated_travel where
  "exampleTrip2 = \<lparr>travelDuration = 600, travelDistance = 4200, travelProvider = ''router'',
     travelCalculatedAt = ''2026-07-16T12:00:00.000Z'', travelFingerprint = ''route:1''\<rparr>"

lemma examplePlan2_priced:
  "pricedPlans [ShapedCandidate examplePlan2 None] = [canonicalPlanV2 examplePlan2 None]"
  by code_simp

lemma exampleTrip2_matches:
  "travelMatches [ShapedCandidate examplePlan2 None] (Some [TravelEntry ''plan:1'' (Shaped (CalculatedTravel exampleTrip2))])
     [(''plan:1'', exampleTrip2)]"
proof -
  have "parseTravelV2 (Shaped (CalculatedTravel exampleTrip2)) = Some exampleTrip2" by code_simp
  moreover have "p2Id examplePlan2 = ''plan:1''" by (simp add: examplePlan2_def)
  ultimately show ?thesis
    by (simp add: travelMatches_def matchedTravel_def examplePlan2_priced canonicalPlanV2_def del: parseTravelV2.simps)
qed

theorem travel_attached_atomically_witness:
  "mset (attachOptionalTravelEvidenceV2 [ShapedCandidate examplePlan2 None]
      (Some [TravelEntry ''plan:1'' (Shaped (CalculatedTravel exampleTrip2))]))
     = {#canonicalPlanV2 examplePlan2 (Some exampleTrip2)#}"
proof -
  have "p2Id examplePlan2 = ''plan:1''" by (simp add: examplePlan2_def)
  then have "map (\<lambda>p. p\<lparr>frontierTravel2 := map_of [(''plan:1'', exampleTrip2)] (p2Id p)\<rparr>) (pricedPlans [ShapedCandidate examplePlan2 None])
      = [canonicalPlanV2 examplePlan2 (Some exampleTrip2)]"
    by (simp add: examplePlan2_priced canonicalPlanV2_def)
  then show ?thesis
    using travel_attached_atomically [THEN conjunct1, rule_format, OF exampleTrip2_matches, THEN conjunct1] by simp
qed

theorem projected_plans_exact_witness:
  "canonicalProjectedPlanResultsV2 [ShapedCandidate examplePlan2 None] 5 None \<noteq> None
   \<and> canonicalProjectedPlanResultsV2 [ShapedCandidate examplePlan2 None] 5 (Some [MalformedEntry]) = None"
proof -
  have "length (canonicalCandidatesV2 [ShapedCandidate examplePlan2 None]) = 1"
    using examplePlan2_priced by (auto simp: pricedPlans_def)
  moreover have "\<not> travelMatches [ShapedCandidate examplePlan2 None] (Some [MalformedEntry]) ts" for ts
    by (auto simp: travelMatches_def matchedTravel_def list_all2_Cons1)
  ultimately show ?thesis
    using projected_plans_exact [of "[ShapedCandidate examplePlan2 None]" 5] by simp
qed

end
