(* ===== verification/Impact_Planner.thy ===== *)
theory Impact_Planner
  imports Frontier_V2
begin

text \<open>
  \<open>packages/domain/src/discovery-impact-planner.ts\<close> and the action of \<open>discovery-impact-contracts.ts\<close>: what a plan would become
  if one product were added to the basket, put in place of a need, or chosen for a need that a family of products may meet.
  A planning input or candidate set of the wrong shape is \<open>Malformed\<close>; \<open>undefined\<close> results are \<open>None\<close>. The literal
  \<open>userApproved\<close> of an action is left out. The characters of the Norwegian explanations outside ASCII are written by
  their code.
\<close>

definition DISCOVERY_IMPACT_ACTION_MAX :: nat where
  "DISCOVERY_IMPACT_ACTION_MAX = 8"

definition DISCOVERY_IMPACT_PRODUCT_UNION_MAX :: nat where
  "DISCOVERY_IMPACT_PRODUCT_UNION_MAX = 50"

section \<open>Actions\<close>

datatype action_kind = AddKind | ReplaceKind | LockKind

datatype impact_action =
    AddAction (actionId: string) (actionGtin: string)
  | ReplaceAction (actionId: string) (actionGtin: string) (actionNeedId: string)
  | LockAction (actionId: string) (actionGtin: string) (actionNeedId: string)

fun actionKind :: "impact_action \<Rightarrow> action_kind" where
  "actionKind (AddAction _ _) = AddKind"
| "actionKind (ReplaceAction _ _ _) = ReplaceKind"
| "actionKind (LockAction _ _ _) = LockKind"

fun actionKindText :: "action_kind \<Rightarrow> string" where
  "actionKindText AddKind = ''add''"
| "actionKindText ReplaceKind = ''replace''"
| "actionKindText LockKind = ''lock''"

fun discoveryImpactActionV1Schema :: "impact_action \<Rightarrow> impact_action option" where
  "discoveryImpactActionV1Schema (AddAction i g) =
     (case (identifierSchema i, gtinSchema g) of (Some i', Some g') \<Rightarrow> Some (AddAction i' g') | _ \<Rightarrow> None)"
| "discoveryImpactActionV1Schema (ReplaceAction i g n) =
     (case (identifierSchema i, gtinSchema g, identifierSchema n) of
        (Some i', Some g', Some n') \<Rightarrow> Some (ReplaceAction i' g' n') | _ \<Rightarrow> None)"
| "discoveryImpactActionV1Schema (LockAction i g n) =
     (case (identifierSchema i, gtinSchema g, identifierSchema n) of
        (Some i', Some g', Some n') \<Rightarrow> Some (LockAction i' g' n') | _ \<Rightarrow> None)"

datatype ineligible_reason = UnknownProduct | UnknownNeed | BasketLimit | AlreadyPresent | AlreadyExact
  | NotLockableNeed | NotReviewedFamilyCandidate

text \<open>A compiled mutation: the reason it is ineligible, or the planning input that results.\<close>

type_synonym compiled_mutation = "ineligible_reason + planning_input"

record candidate_set =
  candidateGtins :: "string list"
  candidateNeedId :: string

section \<open>Helpers\<close>

definition rulesMap :: "planning_input \<Rightarrow> (string \<times> match_rule) list" where
  "rulesMap planning = newMap (map (\<lambda>r. (ruleId r, r)) (planningRules planning))"

definition referencedExactEans :: "planning_input \<Rightarrow> string list" where
  "referencedExactEans planning =
     uniq (List.map_filter (\<lambda>n. case map_of (rulesMap planning) (planningRuleId n) of
         None \<Rightarrow> None
       | Some r \<Rightarrow> if ruleMode r = ExactMode then exactEan r else None) (planningNeeds planning))"

text \<open>The least suffix from \<open>suffix\<close> on whose text is free.\<close>

definition suffixed :: "string \<Rightarrow> nat \<Rightarrow> string" where
  "suffixed base suffix = base @ '':'' @ intText (int suffix)"

lemma suffixed_inj: "suffixed base k = suffixed base l \<longleftrightarrow> k = l"
  by (simp add: suffixed_def intText_inj)

lemma finite_suffixes: "finite {k. suffixed base k \<in> set occupied}"
  by (rule finite_vimageI [where h = "suffixed base" and F = "set occupied", unfolded vimage_def])
    (auto intro: injI simp: suffixed_inj)

function freeSuffix :: "string \<Rightarrow> string list \<Rightarrow> nat \<Rightarrow> string" where
  "freeSuffix base occupied suffix =
     (if suffixed base suffix \<in> set occupied then freeSuffix base occupied (suffix + 1) else suffixed base suffix)"
  by pat_completeness auto
termination
proof (relation "measure (\<lambda>(base, occupied, suffix). card {k. suffix \<le> k \<and> suffixed base k \<in> set occupied})")
  fix base occupied suffix assume "suffixed base suffix \<in> set occupied"
  then have in_set: "suffix \<in> {k. suffix \<le> k \<and> suffixed base k \<in> set occupied}" by simp
  have "{k. suffix + 1 \<le> k \<and> suffixed base k \<in> set occupied} \<subseteq> {k. suffix \<le> k \<and> suffixed base k \<in> set occupied} - {suffix}" by auto
  with in_set have "{k. suffix + 1 \<le> k \<and> suffixed base k \<in> set occupied} \<subset> {k. suffix \<le> k \<and> suffixed base k \<in> set occupied}" by blast
  moreover have "finite {k. suffix \<le> k \<and> suffixed base k \<in> set occupied}"
    using finite_suffixes [of base occupied] by (rule rev_finite_subset) auto
  ultimately show "((base, occupied, suffix + 1), base, occupied, suffix)
      \<in> measure (\<lambda>(base, occupied, suffix). card {k. suffix \<le> k \<and> suffixed base k \<in> set occupied})"
    by (auto intro: psubset_card_mono)
qed simp

definition uniqueIdentifier :: "string \<Rightarrow> string list \<Rightarrow> string" where
  "uniqueIdentifier base occupied = (if base \<notin> set occupied then base else freeSuffix base occupied 2)"

definition exactRule :: "impact_action \<Rightarrow> string \<Rightarrow> match_rule" where
  "exactRule action i =
     \<lparr>ruleId = i, ruleMode = ExactMode, exactEan = Some (actionGtin action), ruleFamily = None, allowedBrands = None,
      ruleSizeRange = None, userApproved = True,
      ruleExplanation =
        (case actionKind action of
           AddKind \<Rightarrow> ''Eksakt vare lagt til etter uttrykkelig godkjenning.''
         | ReplaceKind \<Rightarrow> ''Eksakt vare erstattet etter uttrykkelig godkjenning.''
         | LockKind \<Rightarrow> ''Eksakt vare l'' @ [CHR 0xE5] @ ''st etter uttrykkelig godkjenning.'')\<rparr>"

text \<open>The loop over the declared candidate sets; \<open>None\<close> is its early return.\<close>

fun collectCandidateSets ::
    "string list \<Rightarrow> candidate_set unknown list \<Rightarrow> (string \<times> string list) list \<Rightarrow> (string \<times> string list) list option" where
  "collectCandidateSets productGtins [] seen = Some seen"
| "collectCandidateSets productGtins (Malformed # rest) seen = None"
| "collectCandidateSets productGtins (Shaped entry # rest) seen =
     (if length (candidateGtins entry) < 1 \<or> length (candidateGtins entry) > DISCOVERY_IMPACT_PRODUCT_UNION_MAX
         \<or> length (uniq (candidateGtins entry)) \<noteq> length (candidateGtins entry)
         \<or> list_ex (\<lambda>g. g \<notin> set productGtins) (candidateGtins entry)
         \<or> map_of seen (candidateNeedId entry) \<noteq> None then None
      else collectCandidateSets productGtins rest
             (AList.update (candidateNeedId entry) (uniq (candidateGtins entry)) seen))"

definition matchedGtins :: "host \<Rightarrow> planning_input \<Rightarrow> planning_need \<Rightarrow> match_rule \<Rightarrow> string list" where
  "matchedGtins h planning n rule =
     sort_by compareText (map productEan (matchProducts h (toLegacyNeed n) rule (map toLegacyProduct (planningProducts planning))))"

definition declaredMatches :: "host \<Rightarrow> planning_input \<Rightarrow> (string \<times> string list) list \<Rightarrow> planning_need \<Rightarrow> bool" where
  "declaredMatches h planning sets n =
     (case (map_of (rulesMap planning) (planningRuleId n), map_of sets (planningNeedId n)) of
        (Some rule, Some declared) \<Rightarrow> matchedGtins h planning n rule = sort_by compareText declared
      | _ \<Rightarrow> False)"

definition validatedBaselineCandidateSets ::
    "host \<Rightarrow> planning_input \<Rightarrow> candidate_set unknown list \<Rightarrow> (string \<times> string list) list option" where
  "validatedBaselineCandidateSets h planning input =
     (if length input \<noteq> length (planningNeeds planning) then None
      else case collectCandidateSets (map planningEan (planningProducts planning)) input [] of
        None \<Rightarrow> None
      | Some sets \<Rightarrow>
          if list_ex (\<lambda>n. map_of sets (planningNeedId n) = None) (planningNeeds planning) then None
          else if list_all (declaredMatches h planning sets) (planningNeeds planning) then Some sets else None)"

section \<open>One mutation\<close>

definition parsedOrLimit :: "planning_input \<Rightarrow> compiled_mutation" where
  "parsedOrLimit candidate =
     (case serverPlanningInputV2Schema candidate of None \<Rightarrow> Inl BasketLimit | Some planning \<Rightarrow> Inr planning)"

definition compileAdd :: "planning_input \<Rightarrow> impact_action \<Rightarrow> planning_product \<Rightarrow> int \<Rightarrow> compiled_mutation" where
  "compileAdd planning action item sequence =
     (if length (planningNeeds planning) \<ge> 50 then Inl BasketLimit
      else if planningEan item \<in> set (referencedExactEans planning) then Inl AlreadyPresent
      else
        (let needIds = map planningNeedId (planningNeeds planning); ruleIds = map ruleId (planningRules planning);
             newNeedId = uniqueIdentifier (''impact:'' @ intText (sequence + 1) @ '':add:need'') needIds;
             newRuleId = uniqueIdentifier (''impact:'' @ intText (sequence + 1) @ '':add:rule'') ruleIds
         in parsedOrLimit
              (planning\<lparr>planningRules := planningRules planning @ [exactRule action newRuleId],
                        planningNeeds := planningNeeds planning @
                          [\<lparr>planningNeedId = newNeedId, planningQuery = planningName item,
                            planningRequested = \<lparr>measureAmount = 1, measureUnit = Package\<rparr>, planningRuleId = newRuleId\<rparr>]\<rparr>)))"

definition compileTargeted ::
    "planning_input \<Rightarrow> impact_action \<Rightarrow> (string \<times> string list) list \<Rightarrow> planning_product \<Rightarrow> int \<Rightarrow> compiled_mutation" where
  "compileTargeted planning action baselineCandidateGtins item sequence =
     (case find (\<lambda>n. planningNeedId n = actionNeedId action) (planningNeeds planning) of
        None \<Rightarrow> Inl UnknownNeed
      | Some target \<Rightarrow>
          (case find (\<lambda>r. ruleId r = planningRuleId target) (planningRules planning) of
             None \<Rightarrow> Inl UnknownNeed
           | Some oldRule \<Rightarrow>
               if ruleMode oldRule = ExactMode \<and> exactEan oldRule = Some (planningEan item) then Inl AlreadyExact
               else if actionKind action = LockKind \<and> ruleMode oldRule = ExactMode then Inl NotLockableNeed
               else if actionKind action = LockKind
                       \<and> \<not> (case map_of baselineCandidateGtins (planningNeedId target) of
                              None \<Rightarrow> False | Some gtins \<Rightarrow> planningEan item \<in> set gtins)
               then Inl NotReviewedFamilyCandidate
               else
                 (let ruleIds = map ruleId (planningRules planning);
                      newId = uniqueIdentifier
                        (''impact:'' @ intText (sequence + 1) @ '':'' @ actionKindText (actionKind action) @ '':rule'') ruleIds;
                      needs = map (\<lambda>n. if planningNeedId n = planningNeedId target then n\<lparr>planningRuleId := newId\<rparr> else n)
                                (planningNeeds planning);
                      stillReferencedRuleIds = map planningRuleId needs
                  in parsedOrLimit
                       (planning\<lparr>planningRules :=
                            filter (\<lambda>r. ruleId r \<noteq> ruleId oldRule \<or> ruleId r \<in> set stillReferencedRuleIds) (planningRules planning)
                            @ [exactRule action newId],
                          planningNeeds := needs\<rparr>))))"

definition compileDiscoveryImpactMutationV1 ::
    "host \<Rightarrow> impact_action \<Rightarrow> candidate_set unknown list \<Rightarrow> planning_input \<Rightarrow> int \<Rightarrow> compiled_mutation option" where
  "compileDiscoveryImpactMutationV1 h rawAction baselineCandidateSets rawPlanning sequence =
     (case (serverPlanningInputV2Schema rawPlanning, discoveryImpactActionV1Schema rawAction) of
        (Some planning, Some action) \<Rightarrow>
          (if length (planningProducts planning) > DISCOVERY_IMPACT_PRODUCT_UNION_MAX
              \<or> \<not> isSafeInt sequence \<or> sequence < 0 \<or> sequence \<ge> int DISCOVERY_IMPACT_ACTION_MAX then None
           else case validatedBaselineCandidateSets h planning baselineCandidateSets of
             None \<Rightarrow> None
           | Some baselineCandidateGtins \<Rightarrow>
               Some (case find (\<lambda>p. planningEan p = actionGtin action) (planningProducts planning) of
                 None \<Rightarrow> Inl UnknownProduct
               | Some item \<Rightarrow>
                   if actionKind action = AddKind then compileAdd planning action item sequence
                   else compileTargeted planning action baselineCandidateGtins item sequence))
      | _ \<Rightarrow> None)"

section \<open>Selection and the batch\<close>

text \<open>
  The index is computed with exact rationals. For at most seven plans, which is all the projection returns, the floating-point
  product of the code has the same integer part: whenever the exact product is an integer, so is the rounded one.
\<close>

definition selectDiscoveryImpactPlanV1 :: "'p list \<Rightarrow> int \<Rightarrow> 'p option" where
  "selectDiscoveryImpactPlanV1 plans weight =
     (if \<not> basisPoints weight \<or> length plans = 0 then None
      else if length plans = 1 then Some (plans ! 0)
      else
        (let index = nat (((10000 - weight) * int (length plans - 1)) div 10000)
         in if index < length plans then Some (plans ! index) else None))"

record impact_evaluation =
  evaluationPlans :: "frontier_plan_v2 list"
  evaluationSelected :: "frontier_plan_v2 option"

definition evaluateImpact :: "host \<Rightarrow> planning_input \<Rightarrow> date \<Rightarrow> int \<Rightarrow> impact_evaluation" where
  "evaluateImpact h planning evaluatedAt weight =
     (let plans = projectRepresentativesV2
            (map asCandidate (paretoFrontierV2
               (map (\<lambda>p. ShapedCandidate p None) (enumerateCompletePlanCandidatesV2 h planning evaluatedAt)))) 7
      in \<lparr>evaluationPlans = plans, evaluationSelected = selectDiscoveryImpactPlanV1 plans weight\<rparr>)"

record impact_outcome =
  outcomeActionId :: string
  outcomeActionKind :: action_kind
  outcomeState :: "ineligible_reason + (planning_input \<times> impact_evaluation)"

record impact_input =
  impactActions :: "impact_action list"
  impactCandidateSets :: "candidate_set unknown list"
  impactWeight :: int
  impactEvaluatedAt :: date
  impactPlanning :: planning_input

record impact_batch =
  impactBaseline :: impact_evaluation
  evaluatedProductCount :: nat
  impactOutcomes :: "impact_outcome list"

definition mutationIdentity :: "impact_action \<Rightarrow> string" where
  "mutationIdentity action =
     joinText [char_of (0 :: nat)]
       [actionKindText (actionKind action), (if actionKind action = AddKind then [] else actionNeedId action), actionGtin action]"

definition outcomeOf :: "host \<Rightarrow> impact_input \<Rightarrow> planning_input \<Rightarrow> nat \<times> impact_action \<Rightarrow> impact_outcome option" where
  "outcomeOf h input planning = (\<lambda>(sequence, action).
     map_option
       (\<lambda>compiled. \<lparr>outcomeActionId = actionId action, outcomeActionKind = actionKind action,
          outcomeState = (case compiled of
              Inl reason \<Rightarrow> Inl reason
            | Inr compiledPlanning \<Rightarrow>
                Inr (compiledPlanning, evaluateImpact h compiledPlanning (impactEvaluatedAt input) (impactWeight input)))\<rparr>)
       (compileDiscoveryImpactMutationV1 h action (impactCandidateSets input) planning (int sequence)))"

definition calculateDiscoveryImpactBatchV1 :: "host \<Rightarrow> impact_input \<Rightarrow> impact_batch option" where
  "calculateDiscoveryImpactBatchV1 h input =
     (case serverPlanningInputV2Schema (impactPlanning input) of
        None \<Rightarrow> None
      | Some planning \<Rightarrow>
          if \<not> basisPoints (impactWeight input) \<or> \<not> isFiniteDate (impactEvaluatedAt input)
             \<or> length (impactActions input) < 1 \<or> length (impactActions input) > DISCOVERY_IMPACT_ACTION_MAX
             \<or> length (planningProducts planning) > DISCOVERY_IMPACT_PRODUCT_UNION_MAX then None
          else (case parseAll discoveryImpactActionV1Schema (impactActions input) of
              None \<Rightarrow> None
            | Some actions \<Rightarrow>
                if length (uniq (map actionId actions)) \<noteq> length actions
                   \<or> length (uniq (map mutationIdentity actions)) \<noteq> length actions
                   \<or> validatedBaselineCandidateSets h planning (impactCandidateSets input) = None then None
                else
                  (let baseline = evaluateImpact h planning (impactEvaluatedAt input) (impactWeight input)
                   in map_option
                        (\<lambda>outcomes. \<lparr>impactBaseline = baseline, evaluatedProductCount = length (planningProducts planning),
                           impactOutcomes = outcomes\<rparr>)
                        (parseAll (outcomeOf h input planning) (enumerate 0 actions)))))"

section \<open>Fresh identifiers\<close>

lemma freeSuffix_least:
  obtains k where "freeSuffix base occupied suffix = suffixed base k" "suffixed base k \<notin> set occupied" "suffix \<le> k"
    "\<And>j. suffix \<le> j \<Longrightarrow> j < k \<Longrightarrow> suffixed base j \<in> set occupied"
proof -
  have "\<exists>k \<ge> suffix. freeSuffix base occupied suffix = suffixed base k \<and> suffixed base k \<notin> set occupied
      \<and> (\<forall>j. suffix \<le> j \<and> j < k \<longrightarrow> suffixed base j \<in> set occupied)"
  proof (induction base occupied suffix rule: freeSuffix.induct)
    case (1 base occupied suffix)
    show ?case
    proof (cases "suffixed base suffix \<in> set occupied")
      case True
      then have step: "freeSuffix base occupied suffix = freeSuffix base occupied (suffix + 1)" by (simp only: freeSuffix.simps [of base occupied suffix] if_True)
      obtain k where k: "suffix + 1 \<le> k" "freeSuffix base occupied (suffix + 1) = suffixed base k" "suffixed base k \<notin> set occupied"
        "\<forall>j. suffix + 1 \<le> j \<and> j < k \<longrightarrow> suffixed base j \<in> set occupied" using 1 [OF True] by blast
      have "suffixed base j \<in> set occupied" if "suffix \<le> j" "j < k" for j
        using k(4) True that by (cases "j = suffix") auto
      with k step show ?thesis by (intro exI [of _ k]) auto
    next
      case False
      then have "freeSuffix base occupied suffix = suffixed base suffix" by (simp only: freeSuffix.simps [of base occupied suffix] if_False)
      with False show ?thesis by (intro exI [of _ suffix]) auto
    qed
  qed
  then show thesis using that by blast
qed

lemma freeSuffix_bound:
  assumes "freeSuffix base occupied suffix = suffixed base k" and "suffix \<le> k"
    and "\<And>j. suffix \<le> j \<Longrightarrow> j < k \<Longrightarrow> suffixed base j \<in> set occupied"
  shows "k \<le> suffix + length occupied"
proof -
  have "suffixed base ` {suffix ..< k} \<subseteq> set occupied" using assms(3) by auto
  then have "card (suffixed base ` {suffix ..< k}) \<le> card (set occupied)" by (intro card_mono) auto
  moreover have "card (suffixed base ` {suffix ..< k}) = k - suffix"
    by (subst card_image) (auto intro: inj_onI simp: suffixed_inj)
  ultimately show ?thesis using card_length [of occupied] by linarith
qed

lemma uniqueIdentifier_fresh: "uniqueIdentifier base occupied \<notin> set occupied"
  unfolding uniqueIdentifier_def by (rule freeSuffix_least [of base occupied 2]) auto

lemma intText_two:
  assumes "0 \<le> n" and "n < 100"
  shows "length (intText n) \<le> 2" "list_all isDigit (intText n)"
proof -
  have one: "length (baseText 10 m) = 1" if "m < 10" for m using that by (subst baseText.simps) simp
  show "length (intText n) \<le> 2"
  proof (cases "n < 10")
    case True
    then show ?thesis using assms one by (simp add: intText_def)
  next
    case False
    then have "baseText 10 n = baseText 10 (n div 10) @ [digitText (n mod 10)]" by (subst baseText.simps) simp
    with one [of "n div 10"] assms show ?thesis by (simp add: intText_def)
  qed
  show "list_all isDigit (intText n)" using assms baseText_digits by (simp add: intText_def)
qed

lemma digit_not_space: "isDigit c \<Longrightarrow> \<not> isJsSpace c"
  by (auto simp: isDigit_iff digitVal_def isJsSpace_def Let_def)

lemma plain_identifier:
  assumes "list_all (\<lambda>c. \<not> isJsSpace c) s" and "1 \<le> length s" and "length s \<le> 200"
  shows "identifierSchema s = Some s"
  using assms trim_no_space [of s] by (simp add: identifierSchema_def boundedText_def)

lemma uniqueIdentifier_admitted:
  assumes plain: "list_all (\<lambda>c. \<not> isJsSpace c) base" and "1 \<le> length base" and "length base \<le> 190" and "length occupied \<le> 50"
  shows "identifierSchema (uniqueIdentifier base occupied) = Some (uniqueIdentifier base occupied)"
proof (cases "base \<in> set occupied")
  case True
  obtain k where k: "freeSuffix base occupied 2 = suffixed base k" "2 \<le> k"
    "\<And>j. 2 \<le> j \<Longrightarrow> j < k \<Longrightarrow> suffixed base j \<in> set occupied"
    using freeSuffix_least [of base occupied 2] by metis
  have "k \<le> 52" using freeSuffix_bound [OF k] assms(4) by simp
  then have "length (intText (int k)) \<le> 2" "list_all isDigit (intText (int k))" using intText_two [of "int k"] by simp_all
  then have "identifierSchema (suffixed base k) = Some (suffixed base k)"
    using assms by (intro plain_identifier) (auto simp: suffixed_def list_all_iff digit_not_space, simp add: isJsSpace_def)
  with True k(1) show ?thesis by (simp only: uniqueIdentifier_def if_False not_not simp_thms)
next
  case False
  then show ?thesis using plain_identifier [OF plain] assms by (simp add: uniqueIdentifier_def del: freeSuffix.simps)
qed

section \<open>Accepted inputs\<close>

lemma planningNeed_idem:
  assumes "planningNeedV2Schema m = Some n"
  shows "planningNeedV2Schema n = Some n"
proof -
  obtain i q r where p: "identifierSchema (planningNeedId m) = Some i" "nonEmptyStringSchema (planningQuery m) = Some q"
      "packageMeasureSchema (planningRequested m) \<noteq> None" "identifierSchema (planningRuleId m) = Some r"
    and n: "n = m\<lparr>planningNeedId := i, planningQuery := q, planningRuleId := r\<rparr>"
    using assms by (auto simp: planningNeedV2Schema_def split: option.splits)
  have "identifierSchema i = Some i" "nonEmptyStringSchema q = Some q" "identifierSchema r = Some r"
    using p text_schema_idem by blast+
  then show ?thesis using p n by (auto simp: planningNeedV2Schema_def)
qed

lemma planningProduct_idem:
  assumes "planningProductV2Schema p = Some q"
  shows "planningProductV2Schema q = Some q"
proof -
  obtain i e n b m f where p: "identifierSchema (planningProductId p) = Some i" "gtinSchema (planningEan p) = Some e"
      "nonEmptyStringSchema (planningName p) = Some n" "parseOptional nonEmptyStringSchema (planningBrand p) = Some b"
      "packageMeasureSchema (planningMeasure p) = Some m" "parseOptional identifierSchema (planningFamily p) = Some f"
    and q: "q = p\<lparr>planningProductId := i, planningName := n, planningBrand := b, planningFamily := f\<rparr>"
    using assms by (auto simp: planningProductV2Schema_def split: option.splits)
  have "identifierSchema i = Some i" "nonEmptyStringSchema n = Some n" using p text_schema_idem by blast+
  moreover have "parseOptional nonEmptyStringSchema b = Some b" "parseOptional identifierSchema f = Some f"
    using parseOptional_idem [OF p(4)] parseOptional_idem [OF p(6)] text_schema_idem by blast+
  ultimately show ?thesis using p q by (simp add: planningProductV2Schema_def)
qed

lemma observation_idem: "sourceNeutralPriceObservationSchema p = Some q \<Longrightarrow> sourceNeutralPriceObservationSchema q = Some q"
  by (auto simp: sourceNeutralPriceObservationSchema_def priceObservationBase_def split: if_splits dest: sourceIdSchema_idem)

lemma directoryEvidence_idem: "geographicDirectoryEvidenceSchema d = Some e \<Longrightarrow> geographicDirectoryEvidenceSchema e = Some e"
  by (cases d) (auto split: option.splits if_splits dest: directorySchema_idem nonEmptyStringSchema_idem)

lemma offerEligibility_idem:
  assumes "offerEligibilityV2Schema e = Some f"
  shows "offerEligibilityV2Schema f = Some f"
proof -
  obtain place sources memberships directory where p: "geographicContextSchema (eligibilityPlace e) = Some place"
      "parseAll sourceIdSchema (eligibilitySourceIds e) = Some sources" "parseAll identifierSchema (eligibilityMembershipIds e) = Some memberships"
      "parseOptional geographicDirectoryEvidenceSchema (eligibilityGeographicDirectory e) = Some directory"
    and c: "nonNegativeSafeInteger (eligibilityMaxEvidenceAgeMs e)" "length sources \<le> 100" "length memberships \<le> 100"
      "hasUniqueStrings sources" "hasUniqueStrings memberships"
    and f: "f = e\<lparr>eligibilityPlace := place, eligibilitySourceIds := sources, eligibilityMembershipIds := memberships,
                        eligibilityGeographicDirectory := directory\<rparr>"
    using assms by (auto simp: offerEligibilityV2Schema_def split: option.splits if_splits)
  have "geographicContextSchema place = Some place" using geographicContextSchema_idem [OF p(1)] .
  moreover have "parseAll sourceIdSchema sources = Some sources" using parseAll_idem [OF p(2)] sourceIdSchema_idem by blast
  moreover have "parseAll identifierSchema memberships = Some memberships" using parseAll_identifier_idem [OF p(3)] .
  moreover have "parseOptional geographicDirectoryEvidenceSchema directory = Some directory"
    using parseOptional_idem [OF p(4)] directoryEvidence_idem by blast
  ultimately show ?thesis using c by (simp add: f offerEligibilityV2Schema_def)
qed

text \<open>An input is accepted as it is when its parts are and the sizes and references are in order.\<close>

definition partsAccepted :: "planning_input \<Rightarrow> bool" where
  "partsAccepted input \<longleftrightarrow>
     (\<forall>n \<in> set (planningNeeds input). planningNeedV2Schema n = Some n) \<and> (\<forall>r \<in> set (planningRules input). matchRuleSchema r = Some r)
     \<and> (\<forall>p \<in> set (planningProducts input). planningProductV2Schema p = Some p)
     \<and> (\<forall>p \<in> set (ordinaryPrices input). sourceNeutralPriceObservationSchema p = Some p)
     \<and> (\<forall>offer \<in> set (officialOffers input). officialOfferSchema offer = Some offer)
     \<and> offerEligibilityV2Schema (planningEligibility input) = Some (planningEligibility input)"

definition sizesAccepted :: "planning_input \<Rightarrow> bool" where
  "sizesAccepted input \<longleftrightarrow>
     1 \<le> length (planningNeeds input) \<and> length (planningNeeds input) \<le> 50 \<and> 1 \<le> length (planningRules input)
     \<and> length (planningRules input) \<le> 50 \<and> 1 \<le> length (planningProducts input) \<and> length (planningProducts input) \<le> 500
     \<and> length (ordinaryPrices input) \<le> 5000 \<and> length (officialOffers input) \<le> 5000 \<and> planningMaxStores input \<in> {1, 2, 3}"

lemma accept_parts:
  assumes "partsAccepted input"
  shows "serverPlanningInputV2Schema input = (if sizesAccepted input \<and> planningInputRefinement input then Some input else None)"
proof -
  have "parseAll planningNeedV2Schema (planningNeeds input) = Some (planningNeeds input)"
    "parseAll matchRuleSchema (planningRules input) = Some (planningRules input)"
    "parseAll planningProductV2Schema (planningProducts input) = Some (planningProducts input)"
    "parseAll sourceNeutralPriceObservationSchema (ordinaryPrices input) = Some (ordinaryPrices input)"
    "parseAll officialOfferSchema (officialOffers input) = Some (officialOffers input)"
    using assms unfolding parseAll_fixed partsAccepted_def by blast+
  then show ?thesis
    using assms by (cases input) (simp add: serverPlanningInputV2Schema_def partsAccepted_def sizesAccepted_def Let_def)
qed

lemma planning_parsed:
  assumes "serverPlanningInputV2Schema raw = Some planning"
  shows "partsAccepted planning" "sizesAccepted planning" "planningInputRefinement planning"
    "serverPlanningInputV2Schema planning = Some planning"
proof -
  obtain needs rules items prices offers eligibility where
    p: "parseAll planningNeedV2Schema (planningNeeds raw) = Some needs"
      "parseAll matchRuleSchema (planningRules raw) = Some rules"
      "parseAll planningProductV2Schema (planningProducts raw) = Some items"
      "parseAll sourceNeutralPriceObservationSchema (ordinaryPrices raw) = Some prices"
      "parseAll officialOfferSchema (officialOffers raw) = Some offers"
      "offerEligibilityV2Schema (planningEligibility raw) = Some eligibility"
    and i: "planning = \<lparr>planningNeeds = needs, planningRules = rules, planningProducts = items, ordinaryPrices = prices,
        officialOffers = offers, planningEligibility = eligibility, planningMaxStores = planningMaxStores raw\<rparr>"
    and r: "1 \<le> length needs" "length needs \<le> 50" "1 \<le> length rules" "length rules \<le> 50" "1 \<le> length items" "length items \<le> 500"
      "length prices \<le> 5000" "length offers \<le> 5000" "planningMaxStores raw \<in> {1, 2, 3}" "planningInputRefinement planning"
    using assms unfolding serverPlanningInputV2Schema_def Let_def by (auto split: option.splits if_splits)
  have "\<forall>n \<in> set needs. planningNeedV2Schema n = Some n" "\<forall>r \<in> set rules. matchRuleSchema r = Some r"
    "\<forall>p \<in> set items. planningProductV2Schema p = Some p" "\<forall>p \<in> set prices. sourceNeutralPriceObservationSchema p = Some p"
    "\<forall>offer \<in> set offers. officialOfferSchema offer = Some offer"
    using parseAll_in [OF p(1)] parseAll_in [OF p(2)] parseAll_in [OF p(3)] parseAll_in [OF p(4)] parseAll_in [OF p(5)]
      planningNeed_idem matchRuleSchema_same planningProduct_idem observation_idem officialOfferSchema_idem by metis+
  then show parts: "partsAccepted planning" using offerEligibility_idem [OF p(6)] by (simp add: i partsAccepted_def)
  show sizes: "sizesAccepted planning" using r by (simp add: i sizesAccepted_def)
  show ref: "planningInputRefinement planning" by (rule r(10))
  show "serverPlanningInputV2Schema planning = Some planning"
    using parts sizes ref by (simp add: accept_parts)
qed

lemma rulesMap_find:
  assumes "distinct (map ruleId (planningRules planning))"
  shows "map_of (rulesMap planning) i = find (\<lambda>r. ruleId r = i) (planningRules planning)"
proof -
  have "rulesMap planning = map (\<lambda>r. (ruleId r, r)) (planningRules planning)"
    unfolding rulesMap_def using assms by (intro newMap_distinct_id) (simp add: comp_def)
  moreover have "map_of (map (\<lambda>r. (ruleId r, r)) rs) i = find (\<lambda>r. ruleId r = i) rs" for rs by (induction rs) auto
  ultimately show ?thesis by simp
qed

lemma refinement_rules:
  assumes "planningInputRefinement planning"
  shows "distinct (map planningNeedId (planningNeeds planning))" "distinct (map ruleId (planningRules planning))"
    "distinct (map planningEan (planningProducts planning))"
    "n \<in> set (planningNeeds planning) \<Longrightarrow> \<exists>r \<in> set (planningRules planning). map_of (rulesMap planning) (planningRuleId n) = Some r \<and> ruleId r = planningRuleId n"
proof -
  show d: "distinct (map planningNeedId (planningNeeds planning))" "distinct (map ruleId (planningRules planning))"
    "distinct (map planningEan (planningProducts planning))"
    using assms by (simp_all add: planningInputRefinement_def)
  assume "n \<in> set (planningNeeds planning)"
  then have "map_of (rulesMap planning) (planningRuleId n) \<noteq> None"
    using assms by (auto simp: planningInputRefinement_def rulesMap_def list_ex_iff)
  then obtain r where "map_of (rulesMap planning) (planningRuleId n) = Some r" by blast
  then show "\<exists>r \<in> set (planningRules planning). map_of (rulesMap planning) (planningRuleId n) = Some r \<and> ruleId r = planningRuleId n"
    unfolding rulesMap_find [OF d(2)] by (auto dest: find_SomeD)
qed

section \<open>What an exact rule buys\<close>

lemma identifier_nonEmpty: "identifierSchema s = Some t \<Longrightarrow> nonEmpty t"
  by (auto simp: identifierSchema_def boundedText_def nonEmpty_def Let_def split: if_splits)

lemma text_nonEmpty: "nonEmptyStringSchema s = Some t \<Longrightarrow> nonEmpty t"
  by (auto simp: nonEmptyStringSchema_def boundedText_def nonEmpty_def Let_def split: if_splits)

lemma gtin_ean: "gtinSchema s = Some t \<Longrightarrow> eanSchema t"
  by (auto simp: gtinSchema_def gtinShape_def eanSchema_def split: if_splits)

lemma exactRule_admitted:
  assumes "gtinSchema (actionGtin action) = Some g" and "nonEmpty i"
  shows "matchRuleSchema (exactRule action i) = Some (exactRule action i)"
proof -
  have "eanSchema (actionGtin action)" using gtin_ean gtinSchema_eq assms(1) by metis
  then show ?thesis using assms(2)
    by (cases "actionKind action") (simp_all add: matchRuleSchema_def exactMatchRuleSchema_def ruleBaseSchema_def exactRule_def nonEmpty_def)
qed

lemma legacyNeed_admitted:
  assumes "planningNeedV2Schema n = Some n"
  shows "needSchema (toLegacyNeed n) = Some (toLegacyNeed n)"
proof -
  obtain i q r where p: "identifierSchema (planningNeedId n) = Some i" "nonEmptyStringSchema (planningQuery n) = Some q"
      "identifierSchema (planningRuleId n) = Some r" "positiveSafeInteger (measureAmount (planningRequested n))"
    and n: "n = n\<lparr>planningNeedId := i, planningQuery := q, planningRuleId := r\<rparr>"
    using assms by (auto simp: planningNeedV2Schema_def packageMeasureSchema_iff split: option.splits)
  have "planningNeedId n = i" "planningQuery n = q" "planningRuleId n = r"
    using arg_cong [OF n, of planningNeedId] arg_cong [OF n, of planningQuery] arg_cong [OF n, of planningRuleId] by simp_all
  then show ?thesis
    using p identifier_nonEmpty text_nonEmpty by (auto simp: needSchema_def toLegacyNeed_def positiveSafeInteger_def)
qed

lemma product_fields:
  assumes "planningProductV2Schema p = Some p"
  shows "nonEmptyStringSchema (planningName p) = Some (planningName p)" "gtinSchema (planningEan p) = Some (planningEan p)"
    "optionally nonEmpty (planningBrand p)" "optionally nonEmpty (planningFamily p)" "positiveSafeInteger (measureAmount (planningMeasure p))"
proof -
  obtain i e n b m f where x: "gtinSchema (planningEan p) = Some e"
      "nonEmptyStringSchema (planningName p) = Some n" "parseOptional nonEmptyStringSchema (planningBrand p) = Some b"
      "packageMeasureSchema (planningMeasure p) = Some m" "parseOptional identifierSchema (planningFamily p) = Some f"
    and q: "p\<lparr>planningProductId := i, planningName := n, planningBrand := b, planningFamily := f\<rparr> = p"
    using assms by (auto simp: planningProductV2Schema_def split: option.splits)
  have eqs: "planningName p = n" "planningBrand p = b" "planningFamily p = f"
    using arg_cong [OF q, of planningName] arg_cong [OF q, of planningBrand] arg_cong [OF q, of planningFamily] by simp_all
  show "nonEmptyStringSchema (planningName p) = Some (planningName p)" using x(2) eqs by simp
  show "gtinSchema (planningEan p) = Some (planningEan p)" using x(1) gtinSchema_eq by metis
  show "optionally nonEmpty (planningBrand p)" using x(3) eqs
    by (cases "planningBrand p") (auto split: option.splits dest: text_nonEmpty)
  show "optionally nonEmpty (planningFamily p)" using x(5) eqs
    by (cases "planningFamily p") (auto split: option.splits dest: identifier_nonEmpty)
  show "positiveSafeInteger (measureAmount (planningMeasure p))" using x(4) by (simp add: packageMeasureSchema_iff)
qed

lemma legacyProduct_admitted:
  assumes "planningProductV2Schema p = Some p"
  shows "productSchema (toLegacyProduct p) = Some (toLegacyProduct p)"
  using product_fields [OF assms] gtin_ean [OF product_fields(2) [OF assms]] text_nonEmpty [OF product_fields(1) [OF assms]]
  by (auto simp: productSchema_def toLegacyProduct_def legacyUnit_def positiveSafeInteger_def)

lemma sorted_singleton:
  assumes "sorted_wrt (\<lambda>p q. f p < (f q :: 'b :: linorder)) xs" and "f ` set xs = {g}"
  shows "map f xs = [g]"
proof -
  have "sorted_wrt (<) (map f xs)" using assms(1) by (simp add: sorted_wrt_map)
  then have "distinct (map f xs)" by (simp add: strict_sorted_iff)
  then have "length (map f xs) = 1" using assms(2) distinct_card [of "map f xs"] by simp
  then obtain x where "map f xs = [x]" by (auto simp: length_Suc_conv)
  with assms(2) show ?thesis by (metis list.set_map singleton_inject list.simps(15) empty_set)
qed

lemma exact_matches:
  assumes parts: "partsAccepted planning" and need: "planningNeedV2Schema n = Some n"
    and item: "item \<in> set (planningProducts planning)" "planningEan item = actionGtin action"
  shows "matchedGtins h planning n (exactRule action (planningRuleId n)) = [actionGtin action]"
proof -
  let ?r = "exactRule action (planningRuleId n)" and ?ps = "map toLegacyProduct (planningProducts planning)"
  have i: "planningProductV2Schema item = Some item" using parts item(1) by (simp add: partsAccepted_def)
  have g: "gtinSchema (actionGtin action) = Some (actionGtin action)" using product_fields(2) [OF i] item(2) by simp
  have "nonEmpty (planningRuleId n)"
    using legacyNeed_admitted [OF need] by (auto simp: needSchema_def toLegacyNeed_def split: if_splits)
  then have rule: "ruleFor (toLegacyNeed n) ?r"
    using exactRule_admitted [OF g] legacyNeed_admitted [OF need] by (simp add: ruleFor_def toLegacyNeed_def exactRule_def)
  have satisfied: "satisfies h ?r (toLegacyProduct item)"
    using legacyProduct_admitted [OF i] item(2) by (simp add: satisfies_def exactRule_def toLegacyProduct_def)
  have "toLegacyProduct item \<in> set ?ps" using item(1) by simp
  then obtain q where "q \<in> set (matchProducts h (toLegacyNeed n) ?r ?ps)" "productEan q = productEan (toLegacyProduct item)"
    using matchProducts_complete [OF rule _ satisfied] by metis
  then have mem: "actionGtin action \<in> productEan ` set (matchProducts h (toLegacyNeed n) ?r ?ps)"
    using item(2) by (intro image_eqI [of _ _ q]) (simp_all add: toLegacyProduct_def)
  have only: "productEan p = actionGtin action" if "p \<in> set (matchProducts h (toLegacyNeed n) ?r ?ps)" for p
    using matchProducts_sound [OF that] by (auto simp: satisfies_def exactRule_def)
  have "map productEan (matchProducts h (toLegacyNeed n) ?r ?ps) = [actionGtin action]"
    using mem only by (intro sorted_singleton [OF matchProducts_sorted]) auto
  then show ?thesis by (simp add: matchedGtins_def)
qed

section \<open>What a need may buy\<close>

lemma choices2_ean:
  assumes "a \<in> set (choices2 h input now n)"
  obtains rule where "map_of (rulesMap input) (planningRuleId n) = Some rule" "a2Ean a \<in> set (matchedGtins h input n rule)"
    "a2NeedId a = planningNeedId n"
proof -
  obtain rule where rule: "map_of (rules2 input) (planningRuleId n) = Some rule"
    and "a \<in> set (candidates2 h input now CHAIN_ORDER rule n)"
    using assms by (cases "map_of (rules2 input) (planningRuleId n)") (auto simp: choices2_def)
  then obtain p where "priceCandidate n CHAIN_ORDER (map productEan (matchProducts h (toLegacyNeed n) rule (map toLegacyProduct (planningProducts input))))
      (newMap (map (\<lambda>p. (planningEan p, p)) (planningProducts input)))
      (indexOfficialOffers (officialOffers input)) (offerContextOf input now) p = Some a"
    by (auto simp: candidates2_def candidatesForV2_def Let_def mem_map_filter)
  then have "a2Ean a \<in> set (matchedGtins h input n rule)" "a2NeedId a = planningNeedId n"
    by (auto elim!: priceCandidate_Some simp: matchedGtins_def)
  with rule that show thesis by (simp add: rulesMap_def rules2_def)
qed

lemma choices2_same:
  assumes "map_of (rulesMap new) (planningRuleId n) = map_of (rulesMap old) (planningRuleId n)"
    and "planningProducts new = planningProducts old" "ordinaryPrices new = ordinaryPrices old"
    and "officialOffers new = officialOffers old" "planningEligibility new = planningEligibility old"
  shows "choices2 h new now n = choices2 h old now n"
proof -
  have "candidates2 h new now S rule n = candidates2 h old now S rule n" for S rule
    using assms(2-5) by (simp add: candidates2_def candidatesForV2_def prices2_def offerContextOf_def Let_def)
  then show ?thesis using assms(1) by (auto simp: choices2_def rulesMap_def rules2_def split: option.split)
qed

section \<open>The meaning of a mutation\<close>

text \<open>
  The mutation of a planning input: everything but the target need and its rule is as before, and the target may buy
  the product of the action only.
\<close>

definition mutationTo :: "host \<Rightarrow> planning_input \<Rightarrow> impact_action \<Rightarrow> planning_input \<Rightarrow> planning_need \<Rightarrow> bool" where
  "mutationTo h planning action new target \<longleftrightarrow>
     planningProducts new = planningProducts planning \<and> ordinaryPrices new = ordinaryPrices planning
     \<and> officialOffers new = officialOffers planning \<and> planningEligibility new = planningEligibility planning
     \<and> planningMaxStores new = planningMaxStores planning
     \<and> (if actionKind action = AddKind
        then planningNeeds new = planningNeeds planning @ [target]
             \<and> planningRequested target = \<lparr>measureAmount = 1, measureUnit = Package\<rparr>
        else (\<exists>old \<in> set (planningNeeds planning). planningNeedId old = actionNeedId action
             \<and> target = old\<lparr>planningRuleId := planningRuleId target\<rparr>
             \<and> planningNeeds new = map (\<lambda>n. if n = old then target else n) (planningNeeds planning)))
     \<and> map_of (rulesMap new) (planningRuleId target) = Some (exactRule action (planningRuleId target))
     \<and> matchedGtins h new target (exactRule action (planningRuleId target)) = [actionGtin action]
     \<and> (\<forall>n \<in> set (planningNeeds new) - {target}. n \<in> set (planningNeeds planning)
          \<and> map_of (rulesMap new) (planningRuleId n) = map_of (rulesMap planning) (planningRuleId n))"

text \<open>A need that is bought exactly as the product.\<close>

definition boughtExactly :: "planning_input \<Rightarrow> string \<Rightarrow> planning_need \<Rightarrow> bool" where
  "boughtExactly planning gtin n \<longleftrightarrow>
     (\<exists>r. map_of (rulesMap planning) (planningRuleId n) = Some r \<and> ruleMode r = ExactMode \<and> exactEan r = Some gtin)"

fun ineligibleFor :: "host \<Rightarrow> planning_input \<Rightarrow> impact_action \<Rightarrow> ineligible_reason \<Rightarrow> bool" where
  "ineligibleFor h planning action UnknownProduct \<longleftrightarrow> actionGtin action \<notin> planningEan ` set (planningProducts planning)"
| "ineligibleFor h planning action UnknownNeed \<longleftrightarrow>
     actionKind action \<noteq> AddKind \<and> actionNeedId action \<notin> planningNeedId ` set (planningNeeds planning)"
| "ineligibleFor h planning action AlreadyPresent \<longleftrightarrow>
     actionKind action = AddKind \<and> (\<exists>n \<in> set (planningNeeds planning). boughtExactly planning (actionGtin action) n)"
| "ineligibleFor h planning action AlreadyExact \<longleftrightarrow>
     actionKind action \<noteq> AddKind
     \<and> (\<exists>n \<in> set (planningNeeds planning). planningNeedId n = actionNeedId action \<and> boughtExactly planning (actionGtin action) n)"
| "ineligibleFor h planning action NotLockableNeed \<longleftrightarrow>
     actionKind action = LockKind
     \<and> (\<exists>n \<in> set (planningNeeds planning). \<exists>r. planningNeedId n = actionNeedId action
          \<and> map_of (rulesMap planning) (planningRuleId n) = Some r \<and> ruleMode r = ExactMode \<and> exactEan r \<noteq> Some (actionGtin action))"
| "ineligibleFor h planning action NotReviewedFamilyCandidate \<longleftrightarrow>
     actionKind action = LockKind
     \<and> (\<exists>n \<in> set (planningNeeds planning). \<exists>r. planningNeedId n = actionNeedId action
          \<and> map_of (rulesMap planning) (planningRuleId n) = Some r \<and> actionGtin action \<notin> set (matchedGtins h planning n r))"
| "ineligibleFor h planning action BasketLimit \<longleftrightarrow>
     length (planningRules planning) = 50
       \<and> (actionKind action = AddKind
            \<or> (\<exists>n \<in> set (planningNeeds planning). \<exists>m \<in> set (planningNeeds planning). planningNeedId n = actionNeedId action
                  \<and> m \<noteq> n \<and> planningRuleId m = planningRuleId n))
     \<or> actionKind action = AddKind \<and> length (planningNeeds planning) = 50"

section \<open>Adding\<close>

lemma referencedExactEans_iff: "g \<in> set (referencedExactEans planning) \<longleftrightarrow> (\<exists>n \<in> set (planningNeeds planning). boughtExactly planning g n)"
  unfolding referencedExactEans_def set_uniq mem_map_filter boughtExactly_def
  by (intro bex_cong refl) (auto split: option.split)

lemma impact_identifier:
  assumes "0 \<le> sequence" and "sequence < 8" and "length occupied \<le> 50" and "t \<in> {'':add:need'', '':add:rule'', '':replace:rule'', '':lock:rule''}"
  shows "identifierSchema (uniqueIdentifier (''impact:'' @ intText (sequence + 1) @ t) occupied)
    = Some (uniqueIdentifier (''impact:'' @ intText (sequence + 1) @ t) occupied)"
proof (rule uniqueIdentifier_admitted)
  note two = intText_two [of "sequence + 1"]
  show "list_all (\<lambda>c. \<not> isJsSpace c) (''impact:'' @ intText (sequence + 1) @ t)"
  proof -
    have "list_all (\<lambda>c. \<not> isJsSpace c) (intText (sequence + 1))" using two assms by (auto simp: list_all_iff digit_not_space)
    moreover have "list_all (\<lambda>c. \<not> isJsSpace c) ''impact:''" by (simp add: isJsSpace_def)
    moreover have "list_all (\<lambda>c. \<not> isJsSpace c) t" using assms(4) by (auto simp: isJsSpace_def)
    ultimately show ?thesis by simp
  qed
  show "1 \<le> length (''impact:'' @ intText (sequence + 1) @ t)" "length (''impact:'' @ intText (sequence + 1) @ t) \<le> 190"
    using two assms by auto
qed (rule assms)

lemma compileAdd_outcome:
  assumes ok: "partsAccepted planning" "sizesAccepted planning" "planningInputRefinement planning"
    and seq: "0 \<le> sequence" "sequence < 8" and kind: "actionKind action = AddKind"
    and item: "item \<in> set (planningProducts planning)" "planningEan item = actionGtin action"
  shows "case compileAdd planning action item sequence of
      Inl reason \<Rightarrow> ineligibleFor h planning action reason
    | Inr new \<Rightarrow> serverPlanningInputV2Schema new = Some new \<and> (\<exists>target. mutationTo h planning action new target)
        \<and> (\<forall>reason. \<not> ineligibleFor h planning action reason)"
proof (cases "length (planningNeeds planning) \<ge> 50 \<or> planningEan item \<in> set (referencedExactEans planning)")
  case True
  then show ?thesis
    using ok(2) kind item(2) by (auto simp: compileAdd_def sizesAccepted_def referencedExactEans_iff)
next
  case False
  note ref = refinement_rules [OF ok(3)]
  define i where "i = uniqueIdentifier (''impact:'' @ intText (sequence + 1) @ '':add:need'') (map planningNeedId (planningNeeds planning))"
  define j where "j = uniqueIdentifier (''impact:'' @ intText (sequence + 1) @ '':add:rule'') (map ruleId (planningRules planning))"
  define target where "target = \<lparr>planningNeedId = i, planningQuery = planningName item,
      planningRequested = \<lparr>measureAmount = 1, measureUnit = Package\<rparr>, planningRuleId = j\<rparr>"
  define new where "new = planning\<lparr>planningRules := planningRules planning @ [exactRule action j],
      planningNeeds := planningNeeds planning @ [target]\<rparr>"
  have step: "compileAdd planning action item sequence = parsedOrLimit new"
    using False by (auto simp: compileAdd_def Let_def i_def j_def target_def new_def)
  have p: "planningProductV2Schema item = Some item" using ok(1) item(1) by (simp add: partsAccepted_def)
  have ids: "identifierSchema i = Some i" "identifierSchema j = Some j"
    unfolding i_def j_def using ok(2) seq by (intro impact_identifier; simp add: sizesAccepted_def)+
  have fresh: "i \<notin> planningNeedId ` set (planningNeeds planning)" "j \<notin> ruleId ` set (planningRules planning)"
    unfolding i_def j_def using uniqueIdentifier_fresh by (metis list.set_map)+
  have need: "planningNeedV2Schema target = Some target"
    using ids product_fields(1) [OF p]
    by (simp add: planningNeedV2Schema_def target_def packageMeasureSchema_def positiveSafeInteger_def MAX_SAFE_INTEGER_def normalizedMeasureUnit_def)
  have rule: "matchRuleSchema (exactRule action j) = Some (exactRule action j)"
    using product_fields(2) [OF p] item(2) identifier_nonEmpty [OF ids(2)] by (intro exactRule_admitted [of action "planningEan item"]) simp_all
  have parts: "partsAccepted new" using ok(1) need rule by (auto simp: partsAccepted_def new_def)
  have distinct_rules: "distinct (map ruleId (planningRules new))" using ref(2) fresh(2) by (simp add: new_def exactRule_def)
  have found: "map_of (rulesMap new) (planningRuleId n) = map_of (rulesMap planning) (planningRuleId n)" if "n \<in> set (planningNeeds planning)" for n
  proof -
    have "planningRuleId n \<noteq> j" using ref(4) [OF that] fresh(2) by (metis imageI)
    then show ?thesis unfolding rulesMap_find [OF distinct_rules] rulesMap_find [OF ref(2)]
      by (simp add: new_def find_snoc exactRule_def split: option.split)
  qed
  have target_rule: "map_of (rulesMap new) j = Some (exactRule action j)"
  proof -
    have "find (\<lambda>r. ruleId r = j) (planningRules planning) = None" using fresh(2) by (auto simp: find_None_iff)
    then show ?thesis unfolding rulesMap_find [OF distinct_rules] by (simp add: new_def find_snoc exactRule_def)
  qed
  have "planningInputRefinement new"
  proof -
    have "map_of (newMap (map (\<lambda>r. (ruleId r, r)) (planningRules new))) (planningRuleId n) \<noteq> None" if "n \<in> set (planningNeeds new)" for n
    proof (cases "n = target")
      case True
      then show ?thesis using target_rule unfolding rulesMap_def by (simp add: target_def)
    next
      case False
      with that have n: "n \<in> set (planningNeeds planning)" by (simp add: new_def)
      obtain r where "map_of (rulesMap planning) (planningRuleId n) = Some r" using ref(4) [OF n] by blast
      with found [OF n] show ?thesis unfolding rulesMap_def by simp
    qed
    moreover have "distinct (map planningNeedId (planningNeeds new))" using ref(1) fresh(1) by (simp add: new_def target_def)
    ultimately show ?thesis using ok(3) distinct_rules
      by (simp add: planningInputRefinement_def list_ex_iff) (simp add: new_def)
  qed
  then have schema: "serverPlanningInputV2Schema new = (if length (planningRules planning) < 50 then Some new else None)"
    using False ok(2) by (simp add: accept_parts [OF parts]) (auto simp: sizesAccepted_def new_def)
  have "mutationTo h planning action new target"
  proof -
    have "matchedGtins h new target (exactRule action j) = [actionGtin action]"
      using exact_matches [OF parts need, of item action h] item by (simp add: new_def target_def)
    moreover have "planningRuleId target = j" "planningRequested target = \<lparr>measureAmount = 1, measureUnit = Package\<rparr>" by (simp_all add: target_def)
    moreover have "planningNeeds new = planningNeeds planning @ [target]" by (simp add: new_def)
    ultimately show ?thesis
      unfolding mutationTo_def using kind target_rule found by (auto simp: new_def)
  qed
  moreover have "length (planningRules planning) \<le> 50" using ok(2) by (simp add: sizesAccepted_def)
  moreover have "\<not> ineligibleFor h planning action reason" if "length (planningRules planning) < 50" for reason
    using False that kind item referencedExactEans_iff by (cases reason) force+
  ultimately show ?thesis unfolding step parsedOrLimit_def using schema kind by auto
qed

section \<open>Replacing and locking\<close>

lemma find_kept: "(\<And>x. P x \<Longrightarrow> Q x) \<Longrightarrow> find P (filter Q xs) = find P xs"
  by (induction xs) auto

lemma filter_shorter: "length (filter P xs) < length xs \<longleftrightarrow> \<not> (\<forall>x \<in> set xs. P x)"
  by (induction xs) (auto simp: less_Suc_eq_le)

lemma compileTargeted_outcome:
  assumes ok: "partsAccepted planning" "sizesAccepted planning" "planningInputRefinement planning"
    and seq: "0 \<le> sequence" "sequence < 8" and kind: "actionKind action \<noteq> AddKind"
    and item: "item \<in> set (planningProducts planning)" "planningEan item = actionGtin action"
    and sets: "\<And>n r. n \<in> set (planningNeeds planning) \<Longrightarrow> map_of (rulesMap planning) (planningRuleId n) = Some r \<Longrightarrow>
      \<exists>gtins. map_of sets (planningNeedId n) = Some gtins \<and> set gtins = set (matchedGtins h planning n r)"
  shows "case compileTargeted planning action sets item sequence of
      Inl reason \<Rightarrow> ineligibleFor h planning action reason
    | Inr new \<Rightarrow> serverPlanningInputV2Schema new = Some new \<and> (\<exists>target. mutationTo h planning action new target)
        \<and> (\<forall>reason. \<not> ineligibleFor h planning action reason)"
proof (cases "find (\<lambda>n. planningNeedId n = actionNeedId action) (planningNeeds planning)")
  case None
  then have "compileTargeted planning action sets item sequence = Inl UnknownNeed" by (simp add: compileTargeted_def)
  moreover have "actionNeedId action \<notin> planningNeedId ` set (planningNeeds planning)" using None by (auto simp: find_None_iff)
  ultimately show ?thesis using kind by simp
next
  case (Some old)
  note ref = refinement_rules [OF ok(3)]
  from Some have old: "old \<in> set (planningNeeds planning)" "planningNeedId old = actionNeedId action" by (auto dest: find_SomeD)
  obtain oldRule where oldRule: "map_of (rulesMap planning) (planningRuleId old) = Some oldRule" "ruleId oldRule = planningRuleId old"
      "oldRule \<in> set (planningRules planning)"
    using ref(4) [OF old(1)] by blast
  have find: "find (\<lambda>r. ruleId r = planningRuleId old) (planningRules planning) = Some oldRule"
    using oldRule(1) rulesMap_find [OF ref(2)] by simp
  obtain gtins where gtins: "map_of sets (planningNeedId old) = Some gtins" "set gtins = set (matchedGtins h planning old oldRule)"
    using sets [OF old(1) oldRule(1)] by blast
  show ?thesis
  proof (cases "ruleMode oldRule = ExactMode \<and> exactEan oldRule = Some (planningEan item)
      \<or> actionKind action = LockKind \<and> (ruleMode oldRule = ExactMode \<or> planningEan item \<notin> set gtins)")
    case True
    with Some find gtins old oldRule(1) kind item(2) show ?thesis
      by (auto simp: compileTargeted_def boughtExactly_def)
  next
    case False
    define j where "j = uniqueIdentifier (''impact:'' @ intText (sequence + 1) @ '':'' @ actionKindText (actionKind action) @ '':rule'')
      (map ruleId (planningRules planning))"
    define target where "target = old\<lparr>planningRuleId := j\<rparr>"
    define needs where "needs = map (\<lambda>n. if planningNeedId n = planningNeedId old then n\<lparr>planningRuleId := j\<rparr> else n) (planningNeeds planning)"
    define kept where "kept = filter (\<lambda>r. ruleId r \<noteq> ruleId oldRule \<or> ruleId r \<in> set (map planningRuleId needs)) (planningRules planning)"
    define new where "new = planning\<lparr>planningRules := kept @ [exactRule action j], planningNeeds := needs\<rparr>"
    have step: "compileTargeted planning action sets item sequence = parsedOrLimit new"
    proof -
      have "(ruleMode oldRule = ExactMode \<and> exactEan oldRule = Some (planningEan item)) = False"
        "(actionKind action = LockKind \<and> ruleMode oldRule = ExactMode) = False"
        "(actionKind action = LockKind \<and> \<not> (case map_of sets (planningNeedId old) of None \<Rightarrow> False | Some gtins \<Rightarrow> planningEan item \<in> set gtins)) = False"
        using False gtins(1) by auto
      then show ?thesis
        by (simp only: compileTargeted_def Some find option.case if_False Let_def j_def needs_def kept_def new_def)
    qed
    have "needs = map (\<lambda>n. if n = old then target else n) (planningNeeds planning)"
      unfolding needs_def using ref(1) old(1) by (auto simp: target_def distinct_map inj_on_def)
    then have needs: "planningNeeds new = map (\<lambda>n. if n = old then target else n) (planningNeeds planning)" by (simp add: new_def)
    have p: "planningProductV2Schema item = Some item" using ok(1) item(1) by (simp add: partsAccepted_def)
    have "'':'' @ actionKindText (actionKind action) @ '':rule'' \<in> {'':replace:rule'', '':lock:rule''}"
      using kind by (cases "actionKind action") simp_all
    then have jid: "identifierSchema j = Some j"
      unfolding j_def using ok(2) seq by (intro impact_identifier) (auto simp: sizesAccepted_def)
    have fresh: "j \<notin> ruleId ` set (planningRules planning)"
      unfolding j_def using uniqueIdentifier_fresh by (metis list.set_map)
    have need: "planningNeedV2Schema target = Some target"
    proof -
      have "planningNeedV2Schema old = Some old" using ok(1) old(1) by (simp add: partsAccepted_def)
      then obtain x q r where x: "identifierSchema (planningNeedId old) = Some x" "nonEmptyStringSchema (planningQuery old) = Some q"
          "packageMeasureSchema (planningRequested old) \<noteq> None" and e: "old\<lparr>planningNeedId := x, planningQuery := q, planningRuleId := r\<rparr> = old"
        by (auto simp: planningNeedV2Schema_def split: option.splits)
      have "planningNeedId old = x" "planningQuery old = q"
        using arg_cong [OF e, of planningNeedId] arg_cong [OF e, of planningQuery] by simp_all
      with x jid show ?thesis by (auto simp: planningNeedV2Schema_def target_def)
    qed
    have rule: "matchRuleSchema (exactRule action j) = Some (exactRule action j)"
      using product_fields(2) [OF p] item(2) identifier_nonEmpty [OF jid] by (intro exactRule_admitted [of action "planningEan item"]) simp_all
    have parts: "partsAccepted new"
      using ok(1) need rule unfolding partsAccepted_def needs by (auto simp: new_def kept_def)
    have "distinct (map ruleId kept)" using ref(2) by (simp add: kept_def distinct_map_filter)
    then have distinct_rules: "distinct (map ruleId (planningRules new))"
      using fresh by (auto simp: new_def exactRule_def kept_def)
    have found: "map_of (rulesMap new) (planningRuleId n) = map_of (rulesMap planning) (planningRuleId n)"
      if n: "n \<in> set (planningNeeds planning)" "n \<noteq> old" for n
    proof -
      have "planningRuleId n \<noteq> j" using ref(4) [OF n(1)] fresh by (metis imageI)
      moreover have "n \<in> set needs" using n needs by (force simp: new_def)
      then have "planningRuleId n \<in> set (map planningRuleId needs)" by simp
      then have "find (\<lambda>r. ruleId r = planningRuleId n) kept = find (\<lambda>r. ruleId r = planningRuleId n) (planningRules planning)"
        unfolding kept_def by (intro find_kept) simp
      ultimately show ?thesis unfolding rulesMap_find [OF distinct_rules] rulesMap_find [OF ref(2)]
        by (simp add: new_def find_snoc exactRule_def split: option.split)
    qed
    have target_rule: "map_of (rulesMap new) j = Some (exactRule action j)"
    proof -
      have "find (\<lambda>r. ruleId r = j) kept = None" using fresh by (auto simp: find_None_iff kept_def)
      then show ?thesis unfolding rulesMap_find [OF distinct_rules] by (simp add: new_def find_snoc exactRule_def)
    qed
    have "planningInputRefinement new"
    proof -
      have "map_of (newMap (map (\<lambda>r. (ruleId r, r)) (planningRules new))) (planningRuleId n) \<noteq> None" if "n \<in> set (planningNeeds new)" for n
      proof (cases "n = target")
        case True
        then show ?thesis using target_rule unfolding rulesMap_def by (simp add: target_def)
      next
        case False
        with that have n: "n \<in> set (planningNeeds planning)" "n \<noteq> old" unfolding needs by auto
        obtain r where "map_of (rulesMap planning) (planningRuleId n) = Some r" using ref(4) [OF n(1)] by blast
        with found [OF n] show ?thesis unfolding rulesMap_def by simp
      qed
      moreover have "map planningNeedId (planningNeeds new) = map planningNeedId (planningNeeds planning)"
        unfolding needs by (simp add: target_def)
      ultimately show ?thesis using ok(3) distinct_rules
        by (simp add: planningInputRefinement_def list_ex_iff) (simp add: new_def)
    qed
    moreover have "length kept \<le> length (planningRules planning)" by (simp add: kept_def)
    ultimately have schema: "serverPlanningInputV2Schema new = (if length kept < 50 then Some new else None)"
      using ok(2) by (simp add: accept_parts [OF parts]) (auto simp: sizesAccepted_def new_def needs_def)
    have "mutationTo h planning action new target"
    proof -
      have "matchedGtins h new target (exactRule action j) = [actionGtin action]"
        using exact_matches [OF parts need, of item action h] item by (simp add: new_def target_def)
      moreover have "planningRuleId target = j" by (simp add: target_def)
      moreover have "n \<in> set (planningNeeds planning) \<and> n \<noteq> old" if "n \<in> set (planningNeeds new) - {target}" for n
        using that unfolding needs by auto
      moreover have "\<exists>old \<in> set (planningNeeds planning). planningNeedId old = actionNeedId action
          \<and> target = old\<lparr>planningRuleId := planningRuleId target\<rparr> \<and> planningNeeds new = map (\<lambda>n. if n = old then target else n) (planningNeeds planning)"
        using old needs by (intro bexI [of _ old]) (simp_all add: target_def)
      moreover have "planningProducts new = planningProducts planning" "ordinaryPrices new = ordinaryPrices planning"
        "officialOffers new = officialOffers planning" "planningEligibility new = planningEligibility planning"
        "planningMaxStores new = planningMaxStores planning" by (simp_all add: new_def)
      ultimately show ?thesis
        unfolding mutationTo_def using kind target_rule found by simp
    qed
    moreover have basket: "length kept < 50 \<longleftrightarrow> \<not> ineligibleFor h planning action BasketLimit"
    proof -
      have "length kept < length (planningRules planning) \<longleftrightarrow> \<not> (\<forall>r \<in> set (planningRules planning). ruleId r \<noteq> ruleId oldRule \<or> ruleId r \<in> set (map planningRuleId needs))"
        unfolding kept_def by (rule filter_shorter)
      also have "\<dots> \<longleftrightarrow> ruleId oldRule \<notin> set (map planningRuleId needs)" using oldRule(3) by auto
      also have "\<dots> \<longleftrightarrow> \<not> (\<exists>m \<in> set (planningNeeds planning). m \<noteq> old \<and> planningRuleId m = planningRuleId old)"
      proof -
        have "j \<noteq> planningRuleId old" using oldRule(2,3) fresh by (metis imageI)
        moreover have "set (map planningRuleId needs) = insert j (planningRuleId ` (set (planningNeeds planning) - {old}))"
          using needs old(1) by (auto simp: new_def target_def)
        moreover have "planningRuleId old \<in> planningRuleId ` (set (planningNeeds planning) - {old})
            \<longleftrightarrow> (\<exists>m \<in> set (planningNeeds planning). m \<noteq> old \<and> planningRuleId m = planningRuleId old)"
          unfolding image_iff by (metis DiffE DiffI singletonD singletonI)
        ultimately show ?thesis unfolding oldRule(2) by (simp only: insert_iff) simp
      qed
      finally have "length kept < length (planningRules planning) \<longleftrightarrow> \<not> (\<exists>m \<in> set (planningNeeds planning). m \<noteq> old \<and> planningRuleId m = planningRuleId old)" .
      moreover have "ineligibleFor h planning action BasketLimit \<longleftrightarrow> length (planningRules planning) = 50
          \<and> (\<exists>m \<in> set (planningNeeds planning). m \<noteq> old \<and> planningRuleId m = planningRuleId old)"
      proof -
        have "n = old" if "n \<in> set (planningNeeds planning)" "planningNeedId n = actionNeedId action" for n
          using that old ref(1) by (auto simp: distinct_map inj_on_def)
        then have "(\<exists>n \<in> set (planningNeeds planning). \<exists>m \<in> set (planningNeeds planning). planningNeedId n = actionNeedId action
            \<and> m \<noteq> n \<and> planningRuleId m = planningRuleId n)
          \<longleftrightarrow> (\<exists>m \<in> set (planningNeeds planning). m \<noteq> old \<and> planningRuleId m = planningRuleId old)" using old by metis
        then show ?thesis using kind by (simp only: ineligibleFor.simps simp_thms)
      qed
      moreover have "length (planningRules planning) \<le> 50" using ok(2) by (simp add: sizesAccepted_def)
      ultimately show ?thesis using \<open>length kept \<le> length (planningRules planning)\<close> by linarith
    qed
    moreover have "\<not> ineligibleFor h planning action reason" if "reason \<noteq> BasketLimit" for reason
    proof -
      have same: "n = old" if "n \<in> set (planningNeeds planning)" "planningNeedId n = actionNeedId action" for n
        using that old ref(1) by (auto simp: distinct_map inj_on_def)
      then have only: "(\<exists>n \<in> set (planningNeeds planning). planningNeedId n = actionNeedId action \<and> P n) \<longleftrightarrow> P old" for P
        using old by metis
      show ?thesis
      proof (cases reason)
        case UnknownProduct
        then show ?thesis using item by (metis ineligibleFor.simps(1) imageI)
      next
        case UnknownNeed
        then show ?thesis using old by (metis ineligibleFor.simps(2) imageI)
      next
        case NotLockableNeed
        then show ?thesis using False item(2) oldRule(1) only [of "\<lambda>n. \<exists>r. map_of (rulesMap planning) (planningRuleId n) = Some r
            \<and> ruleMode r = ExactMode \<and> exactEan r \<noteq> Some (actionGtin action)"] by auto
      next
        case NotReviewedFamilyCandidate
        then show ?thesis using False item(2) oldRule(1) gtins(2) only [of "\<lambda>n. \<exists>r. map_of (rulesMap planning) (planningRuleId n) = Some r
            \<and> actionGtin action \<notin> set (matchedGtins h planning n r)"] by auto
      next
        case AlreadyExact
        then show ?thesis using False item(2) oldRule(1) only [of "boughtExactly planning (actionGtin action)"] by (auto simp: boughtExactly_def)
      qed (use kind that in simp_all)
    qed
    ultimately have mutation: "mutationTo h planning action new target" and basket: "length kept < 50 \<longleftrightarrow> \<not> ineligibleFor h planning action BasketLimit"
      and others: "\<And>reason. reason \<noteq> BasketLimit \<Longrightarrow> \<not> ineligibleFor h planning action reason" by this+
    show ?thesis
    proof (cases "length kept < 50")
      case True
      then have result: "compileTargeted planning action sets item sequence = Inr new"
        and accepted: "serverPlanningInputV2Schema new = Some new" unfolding step by (simp_all only: parsedOrLimit_def schema if_True option.case)
      have "\<forall>reason. \<not> ineligibleFor h planning action reason" using True basket others by metis
      then show ?thesis unfolding result sum.case using accepted mutation by (intro conjI exI [of _ target])
    next
      case False
      then have result: "compileTargeted planning action sets item sequence = Inl BasketLimit" unfolding step
        by (simp only: parsedOrLimit_def schema if_False option.case)
      show ?thesis unfolding result sum.case using False basket by blast
    qed
  qed
qed

section \<open>Compiling a mutation\<close>

lemma validated_matches:
  assumes "validatedBaselineCandidateSets h planning input = Some sets" and "n \<in> set (planningNeeds planning)"
    and "map_of (rulesMap planning) (planningRuleId n) = Some r"
  shows "\<exists>gtins. map_of sets (planningNeedId n) = Some gtins \<and> set gtins = set (matchedGtins h planning n r)"
proof -
  have "list_all (declaredMatches h planning sets) (planningNeeds planning)"
    using assms(1) by (auto simp: validatedBaselineCandidateSets_def split: if_splits option.splits)
  then have "declaredMatches h planning sets n" using assms(2) by (simp add: list_all_iff)
  then show ?thesis using assms(3) by (auto simp: declaredMatches_def split: option.splits)
qed

lemma compile_outcome:
  assumes raw: "serverPlanningInputV2Schema rawPlanning = Some planning" "discoveryImpactActionV1Schema rawAction = Some action"
    and size: "length (planningProducts planning) \<le> DISCOVERY_IMPACT_PRODUCT_UNION_MAX"
    and seq: "0 \<le> sequence" "sequence < int DISCOVERY_IMPACT_ACTION_MAX"
    and sets: "validatedBaselineCandidateSets h planning candidateSets \<noteq> None"
  obtains reason where "compileDiscoveryImpactMutationV1 h rawAction candidateSets rawPlanning sequence = Some (Inl reason)"
      "ineligibleFor h planning action reason"
  | new target where "compileDiscoveryImpactMutationV1 h rawAction candidateSets rawPlanning sequence = Some (Inr new)"
      "serverPlanningInputV2Schema new = Some new" "mutationTo h planning action new target"
      "\<And>reason. \<not> ineligibleFor h planning action reason"
proof -
  obtain gtins where gtins: "validatedBaselineCandidateSets h planning candidateSets = Some gtins" using sets by blast
  have safe: "isSafeInt sequence" "sequence < 8"
    using seq by (auto simp: isSafeInt_def MAX_SAFE_INTEGER_def DISCOVERY_IMPACT_ACTION_MAX_def)
  note p = planning_parsed [OF raw(1)]
  define result where "result = (case find (\<lambda>p. planningEan p = actionGtin action) (planningProducts planning) of
      None \<Rightarrow> Inl UnknownProduct
    | Some item \<Rightarrow> if actionKind action = AddKind then compileAdd planning action item sequence
        else compileTargeted planning action gtins item sequence)"
  have step: "compileDiscoveryImpactMutationV1 h rawAction candidateSets rawPlanning sequence = Some result"
    using raw size seq safe gtins by (simp add: compileDiscoveryImpactMutationV1_def result_def)
  have "case result of Inl reason \<Rightarrow> ineligibleFor h planning action reason
    | Inr new \<Rightarrow> serverPlanningInputV2Schema new = Some new \<and> (\<exists>target. mutationTo h planning action new target)
        \<and> (\<forall>reason. \<not> ineligibleFor h planning action reason)"
  proof (cases "find (\<lambda>p. planningEan p = actionGtin action) (planningProducts planning)")
    case None
    then have "actionGtin action \<notin> planningEan ` set (planningProducts planning)" by (auto simp: find_None_iff)
    moreover have "result = Inl UnknownProduct" by (simp add: result_def None)
    ultimately show ?thesis by simp
  next
    case (Some item)
    then have item: "item \<in> set (planningProducts planning)" "planningEan item = actionGtin action" by (auto dest: find_SomeD)
    show ?thesis
    proof (cases "actionKind action = AddKind")
      case True
      then have "result = compileAdd planning action item sequence" by (simp add: result_def Some)
      then show ?thesis using compileAdd_outcome [OF p(1-3) seq(1) safe(2) True item, of h] by (simp only:)
    next
      case False
      then have "result = compileTargeted planning action gtins item sequence" by (simp add: result_def Some)
      then show ?thesis
        using compileTargeted_outcome [OF p(1-3) seq(1) safe(2) False item validated_matches [OF gtins]] by (simp only:)
    qed
  qed
  then show thesis using that step by (cases result) (simp_all only: sum.case, blast+)
qed

lemma compile_Some:
  assumes "compileDiscoveryImpactMutationV1 h rawAction candidateSets rawPlanning sequence = Some result"
  obtains planning action where "serverPlanningInputV2Schema rawPlanning = Some planning"
    "discoveryImpactActionV1Schema rawAction = Some action" "length (planningProducts planning) \<le> DISCOVERY_IMPACT_PRODUCT_UNION_MAX"
    "0 \<le> sequence" "sequence < int DISCOVERY_IMPACT_ACTION_MAX" "validatedBaselineCandidateSets h planning candidateSets \<noteq> None"
  using assms unfolding compileDiscoveryImpactMutationV1_def by (auto split: option.splits if_splits)

section \<open>The plans of a mutation\<close>

lemma enumerated_mem:
  assumes "p \<in> set (enumerateCompletePlanCandidatesV2 h input now)"
  shows "acceptedInput2 input now \<and> p \<in> set (subsetPlans2 h input now)"
  using assms
  by (auto simp: enumerateCompletePlanCandidatesV2_def acceptedInput2_def subsetPlans2_def subsetPlan2_def [abs_def]
      rules2_def prices2_def chains2_def Let_def one_per_key_def [symmetric] split: if_splits dest!: one_per_key_mem)

lemma evaluated_plan:
  assumes "p \<in> set (evaluationPlans (evaluateImpact h planning moment weight))"
  obtains as where "acceptedInput2 planning moment" "completePurchase2 h planning moment as" "mset (p2Assignments p) = mset as"
    "p2TotalOre p = sum_list (map a2CostOre as)" "set (p2Chains p) = a2Chain ` set as" "length (p2Chains p) = card (a2Chain ` set as)"
    "planResultV2Schema (plan_v2.truncate p) = Some (plan_v2.truncate p)" "frontierTravel2 p = None"
proof -
  let ?raw = "map (\<lambda>p. ShapedCandidate p None) (enumerateCompletePlanCandidatesV2 h planning moment)"
  have "p \<in> set (paretoFrontierV2 (map asCandidate (paretoFrontierV2 ?raw)))"
    using assms unfolding evaluateImpact_def projectRepresentativesV2_def Let_def impact_evaluation.simps by (rule subsetD [OF projectBy_subset])
  then have "p \<in> set (canonicalCandidatesV2 (map asCandidate (paretoFrontierV2 ?raw)))"
    unfolding paretoFrontierV2_def canonicalCandidatesV2_def
    using pareto_mem [OF frontier_source_v2.canonical_distinct] by blast
  then obtain q where q: "q \<in> set (paretoFrontierV2 ?raw)" "parseCandidateV2 (asCandidate q) = Some p"
    unfolding canonicalCandidatesV2_def frontier_source_v2.canonical_mem by auto
  have "q \<in> set (canonicalCandidatesV2 ?raw)"
    using q(1) unfolding paretoFrontierV2_def canonicalCandidatesV2_def
    using pareto_mem [OF frontier_source_v2.canonical_distinct] by blast
  then obtain r where r: "r \<in> set (enumerateCompletePlanCandidatesV2 h planning moment)" "parseCandidateV2 (ShapedCandidate r None) = Some q"
    unfolding canonicalCandidatesV2_def frontier_source_v2.canonical_mem by auto
  have "p = q" using parse_asCandidate [OF r(2)] q(2) by simp
  have acc: "acceptedInput2 planning moment" and sub: "r \<in> set (subsetPlans2 h planning moment)"
    using enumerated_mem [OF r(1)] by blast+
  obtain S where "subsetPlan2 h planning moment S = Some r" using subsetPlans2_mem [OF sub] by blast
  then obtain bs where bs: "completePurchase2 h planning moment bs" "r = planOf2 planning bs"
    using subsetPlan2_Some [OF acc] by blast
  have p: "planResultV2Schema r = Some r" "p = canonicalPlanV2 r None"
    using r(2) by (auto simp: \<open>p = q\<close> split: option.splits if_splits)
  have "mset (p2Assignments p) = mset bs" "p2TotalOre p = sum_list (map a2CostOre bs)" "set (p2Chains p) = a2Chain ` set bs"
    "length (p2Chains p) = card (a2Chain ` set bs)"
    unfolding p(2) bs(2) canonicalPlanV2_def by (simp_all add: planOf2_fields)
  moreover have "planResultV2Schema (plan_v2.truncate p) = Some (plan_v2.truncate p)"
    using canonicalPlanV2_admitted [OF p(1), of None] by (simp add: p(2))
  moreover have "frontierTravel2 p = None" by (simp add: p(2) canonicalPlanV2_def)
  ultimately show thesis using that acc bs(1) by blast
qed

section \<open>A concrete mutation\<close>

text \<open>Tea bags in place of the coffee of the second planner's example.\<close>

definition exampleTea :: planning_product where
  "exampleTea = \<lparr>planningProductId = ''product:tea'', planningEan = ''7038010000027'', planningName = ''Te'',
     planningBrand = None, planningMeasure = \<lparr>measureAmount = 10, measureUnit = Piece\<rparr>, planningFamily = None\<rparr>"

definition exampleImpactPlanning :: planning_input where
  "exampleImpactPlanning = exampleInput2\<lparr>planningProducts := planningProducts exampleInput2 @ [exampleTea],
     ordinaryPrices := ordinaryPrices exampleInput2 @
       [\<lparr>priceEan = ''7038010000027'', priceChain = Extra, amountOre = 3000, priceObservedAt = ''2026-07-16T11:00:00.000Z'',
         priceSource = ''licensed-price-feed''\<rparr>]\<rparr>"

definition exampleImpactSets :: "candidate_set unknown list" where
  "exampleImpactSets = [Shaped \<lparr>candidateGtins = [''7038010000010''], candidateNeedId = ''need:coffee''\<rparr>]"

definition exampleReplace :: impact_action where
  "exampleReplace = ReplaceAction ''action:1'' ''7038010000027'' ''need:coffee''"

lemma exampleImpact_parsed: "serverPlanningInputV2Schema exampleImpactPlanning = Some exampleImpactPlanning"
  by code_simp

lemma exampleReplace_parsed: "discoveryImpactActionV1Schema exampleReplace = Some exampleReplace"
  by code_simp

lemma exampleImpact_sets:
  "validatedBaselineCandidateSets exampleHost exampleImpactPlanning exampleImpactSets \<noteq> None"
  by code_simp

definition exampleVariant :: planning_input where
  "exampleVariant = exampleImpactPlanning\<lparr>planningRules := [exactRule exampleReplace ''impact:1:replace:rule''],
     planningNeeds := map (\<lambda>n. n\<lparr>planningRuleId := ''impact:1:replace:rule''\<rparr>) (planningNeeds exampleImpactPlanning)\<rparr>"

lemma exampleReplace_compiled:
  "compileDiscoveryImpactMutationV1 exampleHost exampleReplace exampleImpactSets exampleImpactPlanning 0 = Some (Inr exampleVariant)"
  by code_simp

section \<open>The batch\<close>

lemma select_total:
  assumes "basisPoints weight"
  shows "selectDiscoveryImpactPlanV1 plans weight = None \<longleftrightarrow> plans = []"
    "selectDiscoveryImpactPlanV1 plans weight = Some p \<Longrightarrow> p \<in> set plans"
proof -
  let ?i = "nat (((10000 - weight) * int (length plans - 1)) div 10000)"
  have inside: "?i < length plans" if "plans \<noteq> []"
  proof -
    have w: "0 \<le> weight" "weight \<le> 10000" using assms by (simp_all add: basisPoints_def)
    have "(10000 - weight) * int (length plans - 1) \<le> 10000 * int (length plans - 1)" using w by (intro mult_right_mono) simp_all
    from zdiv_mono1 [OF this, of 10000] have "((10000 - weight) * int (length plans - 1)) div 10000 \<le> int (length plans - 1)" by simp
    moreover have "0 < length plans" using that by simp
    ultimately show ?thesis by linarith
  qed
  show "selectDiscoveryImpactPlanV1 plans weight = None \<longleftrightarrow> plans = []"
    using assms inside by (simp add: selectDiscoveryImpactPlanV1_def Let_def)
  show "p \<in> set plans" if "selectDiscoveryImpactPlanV1 plans weight = Some p"
    using that nth_mem [of ?i plans] nth_mem [of 0 plans]
    unfolding selectDiscoveryImpactPlanV1_def Let_def by (auto simp del: of_nat_diff split: if_splits)
qed

text \<open>What the batch demands of its input beyond the planning input and the actions.\<close>

definition batchAccepted :: "host \<Rightarrow> impact_input \<Rightarrow> planning_input \<Rightarrow> impact_action list \<Rightarrow> bool" where
  "batchAccepted h input planning actions \<longleftrightarrow>
     basisPoints (impactWeight input) \<and> isFiniteDate (impactEvaluatedAt input) \<and> 1 \<le> length actions \<and> length actions \<le> 8
     \<and> length (planningProducts planning) \<le> 50 \<and> distinct (map actionId actions) \<and> distinct (map mutationIdentity actions)
     \<and> validatedBaselineCandidateSets h planning (impactCandidateSets input) \<noteq> None"

text \<open>What an outcome must say of its action.\<close>

definition outcomeTrue :: "host \<Rightarrow> impact_input \<Rightarrow> planning_input \<Rightarrow> impact_action \<Rightarrow> impact_outcome \<Rightarrow> bool" where
  "outcomeTrue h input planning action outcome \<longleftrightarrow>
     outcomeActionId outcome = actionId action \<and> outcomeActionKind outcome = actionKind action
     \<and> (case outcomeState outcome of
          Inl reason \<Rightarrow> ineligibleFor h planning action reason
        | Inr (new, evaluation) \<Rightarrow>
            (\<exists>target. mutationTo h planning action new target) \<and> (\<forall>reason. \<not> ineligibleFor h planning action reason)
            \<and> evaluation = evaluateImpact h new (impactEvaluatedAt input) (impactWeight input)
            \<and> (case evaluationSelected evaluation of
                 None \<Rightarrow> evaluationPlans evaluation = [] | Some p \<Rightarrow> p \<in> set (evaluationPlans evaluation)))"

lemma actionSchema_idem: "discoveryImpactActionV1Schema raw = Some action \<Longrightarrow> discoveryImpactActionV1Schema action = Some action"
proof -
  assume parsed: "discoveryImpactActionV1Schema raw = Some action"
  have i: "identifierSchema s = Some t \<Longrightarrow> identifierSchema t = Some t" and g: "gtinSchema s = Some t \<Longrightarrow> gtinSchema t = Some t" for s t
    using text_schema_idem gtinSchema_eq by metis+
  show ?thesis
  proof (cases raw)
    case (AddAction a b)
    with parsed obtain a' b' where "identifierSchema a = Some a'" "gtinSchema b = Some b'" "action = AddAction a' b'"
      by (auto split: option.splits)
    then show ?thesis by (simp add: i [of a a'] g [of b b'])
  next
    case (ReplaceAction a b c)
    with parsed obtain a' b' c' where "identifierSchema a = Some a'" "gtinSchema b = Some b'" "identifierSchema c = Some c'"
      "action = ReplaceAction a' b' c'" by (auto split: option.splits)
    then show ?thesis by (simp add: i [of a a'] g [of b b'] i [of c c'])
  next
    case (LockAction a b c)
    with parsed obtain a' b' c' where "identifierSchema a = Some a'" "gtinSchema b = Some b'" "identifierSchema c = Some c'"
      "action = LockAction a' b' c'" by (auto split: option.splits)
    then show ?thesis by (simp add: i [of a a'] g [of b b'] i [of c c'])
  qed
qed

lemma outcomeOf_true:
  assumes planning: "serverPlanningInputV2Schema planning = Some planning" "batchAccepted h input planning actions"
    and action: "discoveryImpactActionV1Schema action = Some action" and k: "k < length actions"
  shows "\<exists>outcome. outcomeOf h input planning (k, action) = Some outcome \<and> outcomeTrue h input planning action outcome"
proof -
  have w: "basisPoints (impactWeight input)" using planning(2) by (simp add: batchAccepted_def)
  have selected: "case evaluationSelected (evaluateImpact h new moment (impactWeight input)) of
      None \<Rightarrow> evaluationPlans (evaluateImpact h new moment (impactWeight input)) = []
    | Some p \<Rightarrow> p \<in> set (evaluationPlans (evaluateImpact h new moment (impactWeight input)))" for new moment
  proof -
    have e: "evaluationSelected (evaluateImpact h new moment (impactWeight input))
        = selectDiscoveryImpactPlanV1 (evaluationPlans (evaluateImpact h new moment (impactWeight input))) (impactWeight input)"
      by (simp add: evaluateImpact_def Let_def)
    show ?thesis unfolding e using select_total(1) [OF w] select_total(2) [OF w] by (auto split: option.split)
  qed
  show ?thesis
  proof (rule compile_outcome [OF planning(1) action, of "int k" h "impactCandidateSets input"])
    show "length (planningProducts planning) \<le> DISCOVERY_IMPACT_PRODUCT_UNION_MAX"
      "validatedBaselineCandidateSets h planning (impactCandidateSets input) \<noteq> None" "int k < int DISCOVERY_IMPACT_ACTION_MAX"
      using planning(2) k by (auto simp: batchAccepted_def DISCOVERY_IMPACT_PRODUCT_UNION_MAX_def DISCOVERY_IMPACT_ACTION_MAX_def)
    fix reason assume c: "compileDiscoveryImpactMutationV1 h action (impactCandidateSets input) planning (int k) = Some (Inl reason)"
      and r: "ineligibleFor h planning action reason"
    let ?o = "\<lparr>outcomeActionId = actionId action, outcomeActionKind = actionKind action, outcomeState = Inl reason\<rparr>"
    have "outcomeOf h input planning (k, action) = Some ?o" by (simp add: outcomeOf_def c)
    moreover have "outcomeTrue h input planning action ?o" using r by (simp add: outcomeTrue_def del: ineligibleFor.simps)
    ultimately show ?thesis by blast
  next
    fix new target
    assume c: "compileDiscoveryImpactMutationV1 h action (impactCandidateSets input) planning (int k) = Some (Inr new)"
      and m: "mutationTo h planning action new target" and n: "\<And>reason. \<not> ineligibleFor h planning action reason"
    let ?e = "evaluateImpact h new (impactEvaluatedAt input) (impactWeight input)"
    let ?o = "\<lparr>outcomeActionId = actionId action, outcomeActionKind = actionKind action, outcomeState = Inr (new, ?e)\<rparr>"
    have "outcomeOf h input planning (k, action) = Some ?o" by (simp add: outcomeOf_def c)
    moreover have "outcomeTrue h input planning action ?o"
      unfolding outcomeTrue_def impact_outcome.simps sum.case prod.case
      by (intro conjI refl allI exI [of _ target] m n selected)
    ultimately show ?thesis by blast
  qed simp
qed

lemma mutation_choice:
  assumes m: "mutationTo h planning action new target" and n: "n \<in> set (planningNeeds new)" and a: "a \<in> set (choices2 h new moment n)"
  shows "a2NeedId a = planningNeedId n \<and> (if n = target then a2Ean a = actionGtin action
    else n \<in> set (planningNeeds planning) \<and> a \<in> set (choices2 h planning moment n))"
proof (cases "n = target")
  case True
  obtain rule where "map_of (rulesMap new) (planningRuleId n) = Some rule" "a2Ean a \<in> set (matchedGtins h new n rule)"
      "a2NeedId a = planningNeedId n"
    using choices2_ean [OF a] .
  then show ?thesis using m True by (auto simp: mutationTo_def)
next
  case False
  have needId: "a2NeedId a = planningNeedId n" using choices2_ean [OF a] .
  have "n \<in> set (planningNeeds planning)" "map_of (rulesMap new) (planningRuleId n) = map_of (rulesMap planning) (planningRuleId n)"
    using m n False unfolding mutationTo_def by blast+
  moreover have "choices2 h new moment n = choices2 h planning moment n"
    using m by (intro choices2_same calculation(2)) (simp_all add: mutationTo_def)
  ultimately show ?thesis using False a needId by simp
qed

lemma exampleVariant_plans:
  "map p2TotalOre (evaluationPlans (evaluateImpact exampleHost exampleVariant exampleNow 5000)) = [3000]"
  by code_simp

lemma exampleVariant_needs: "map planningNeedId (planningNeeds exampleVariant) = [''need:coffee'']"
  by code_simp

lemma exampleVariant_target:
  assumes "mutationTo h exampleImpactPlanning exampleReplace exampleVariant target"
  shows "planningNeeds exampleVariant = [target]"
  using assms by (auto simp: mutationTo_def exampleReplace_def exampleVariant_def exampleImpactPlanning_def exampleInput2_def)

definition exampleBatch :: impact_input where
  "exampleBatch = \<lparr>impactActions = [exampleReplace], impactCandidateSets = exampleImpactSets, impactWeight = 5000,
     impactEvaluatedAt = exampleNow, impactPlanning = exampleImpactPlanning\<rparr>"

lemma exampleBatch_parsed:
  "serverPlanningInputV2Schema (impactPlanning exampleBatch) = Some exampleImpactPlanning"
  "parseAll discoveryImpactActionV1Schema (impactActions exampleBatch) = Some [exampleReplace]"
  by (simp_all add: exampleBatch_def exampleImpact_parsed exampleReplace_parsed)

lemma exampleBatch_accepted: "batchAccepted exampleHost exampleBatch exampleImpactPlanning [exampleReplace]"
proof -
  have "length (planningProducts exampleImpactPlanning) = 2" "basisPoints 5000" "isFiniteDate exampleNow" by code_simp+
  then show ?thesis using exampleImpact_sets by (simp add: batchAccepted_def exampleBatch_def)
qed

lemma outcomes_true:
  assumes planning: "serverPlanningInputV2Schema planning = Some planning" "batchAccepted h input planning actions"
    and actions: "parseAll discoveryImpactActionV1Schema actions = Some actions"
  obtains outcomes where "parseAll (outcomeOf h input planning) (enumerate 0 actions) = Some outcomes"
    "list_all2 (outcomeTrue h input planning) actions outcomes"
proof -
  define outcome where "outcome k = the (outcomeOf h input planning (k, actions ! k))" for k
  have each: "outcomeOf h input planning (k, actions ! k) = Some (outcome k) \<and> outcomeTrue h input planning (actions ! k) (outcome k)"
    if "k < length actions" for k
  proof -
    have "discoveryImpactActionV1Schema (actions ! k) = Some (actions ! k)" using actions that by (simp add: parseAll_fixed)
    from outcomeOf_true [OF planning this that] show ?thesis by (auto simp: outcome_def)
  qed
  let ?outcomes = "map outcome [0 ..< length actions]"
  have "parseAll (outcomeOf h input planning) (enumerate 0 actions) = Some ?outcomes"
    unfolding parseAll_Some list_all2_conv_all_nth using each by (simp add: nth_enumerate_eq)
  moreover have "list_all2 (outcomeTrue h input planning) actions ?outcomes"
    unfolding list_all2_conv_all_nth using each by simp
  ultimately show thesis using that by blast
qed

section \<open>Properties\<close>

text \<open>
  C29. A mutation of well-formed input is always decided. It is refused only for a reason that is true of the basket, and for
  none it is compiled: the new planning input is admitted unchanged, all but the target need and its rule is as before, and
  the target may buy the product of the action only.
\<close>

theorem impact_mutation_exact:
  assumes "serverPlanningInputV2Schema rawPlanning = Some planning" and "discoveryImpactActionV1Schema rawAction = Some action"
    and "length (planningProducts planning) \<le> DISCOVERY_IMPACT_PRODUCT_UNION_MAX"
    and "0 \<le> sequence" and "sequence < int DISCOVERY_IMPACT_ACTION_MAX"
    and "validatedBaselineCandidateSets h planning candidateSets \<noteq> None"
  shows "(\<exists>reason. compileDiscoveryImpactMutationV1 h rawAction candidateSets rawPlanning sequence = Some (Inl reason)
          \<and> ineligibleFor h planning action reason)
       \<or> (\<forall>reason. \<not> ineligibleFor h planning action reason)
          \<and> (\<exists>new target. compileDiscoveryImpactMutationV1 h rawAction candidateSets rawPlanning sequence = Some (Inr new)
               \<and> serverPlanningInputV2Schema new = Some new \<and> mutationTo h planning action new target)"
  by (rule compile_outcome [OF assms]) (blast, metis)

theorem impact_mutation_exact_witness:
  "\<exists>new target. compileDiscoveryImpactMutationV1 exampleHost exampleReplace exampleImpactSets exampleImpactPlanning 0 = Some (Inr new)
     \<and> mutationTo exampleHost exampleImpactPlanning exampleReplace new target"
proof -
  have "length (planningProducts exampleImpactPlanning) \<le> DISCOVERY_IMPACT_PRODUCT_UNION_MAX" by code_simp
  from impact_mutation_exact [OF exampleImpact_parsed exampleReplace_parsed this _ _ exampleImpact_sets, of 0]
  show ?thesis unfolding exampleReplace_compiled by (auto simp: DISCOVERY_IMPACT_ACTION_MAX_def simp del: ineligibleFor.simps)
qed

text \<open>
  C30. A plan shown for a mutation buys the product of the action for the target need, and for every other need something the
  original basket could buy too; its total and chains are those of its purchases, within the store limit of the original.
\<close>

theorem impact_plans_sound:
  assumes "compileDiscoveryImpactMutationV1 h rawAction candidateSets rawPlanning sequence = Some (Inr new)"
    and "p \<in> set (evaluationPlans (evaluateImpact h new moment weight))"
  shows "\<exists>planning action target as. serverPlanningInputV2Schema rawPlanning = Some planning
    \<and> discoveryImpactActionV1Schema rawAction = Some action \<and> mutationTo h planning action new target
    \<and> mset (p2Assignments p) = mset as
    \<and> list_all2 (\<lambda>n a. a2NeedId a = planningNeedId n
         \<and> (if n = target then a2Ean a = actionGtin action else n \<in> set (planningNeeds planning) \<and> a \<in> set (choices2 h planning moment n)))
        (planningNeeds new) as
    \<and> p2TotalOre p = sum_list (map a2CostOre as) \<and> set (p2Chains p) = a2Chain ` set as
    \<and> length (p2Chains p) \<le> planningMaxStores planning"
proof -
  obtain planning action where raw: "serverPlanningInputV2Schema rawPlanning = Some planning"
      "discoveryImpactActionV1Schema rawAction = Some action" and more: "length (planningProducts planning) \<le> DISCOVERY_IMPACT_PRODUCT_UNION_MAX"
      "0 \<le> sequence" "sequence < int DISCOVERY_IMPACT_ACTION_MAX" "validatedBaselineCandidateSets h planning candidateSets \<noteq> None"
    using compile_Some [OF assms(1)] .
  obtain target where m: "mutationTo h planning action new target"
    using compile_outcome [OF raw more] assms(1) by (metis option.inject sum.distinct(1) sum.inject(2))
  obtain as where as: "completePurchase2 h new moment as" "mset (p2Assignments p) = mset as" "p2TotalOre p = sum_list (map a2CostOre as)"
      "set (p2Chains p) = a2Chain ` set as" "length (p2Chains p) = card (a2Chain ` set as)"
    using evaluated_plan [OF assms(2)] .
  have "list_all2 (\<lambda>n a. a \<in> set (choices2 h new moment n)) (planningNeeds new) as"
    using as(1) by (simp add: completePurchase2_def)
  then have "list_all2 (\<lambda>n a. a2NeedId a = planningNeedId n \<and> (if n = target then a2Ean a = actionGtin action
      else n \<in> set (planningNeeds planning) \<and> a \<in> set (choices2 h planning moment n))) (planningNeeds new) as"
    using mutation_choice [OF m] by (rule list.rel_mono_strong)
  moreover have "length (p2Chains p) \<le> planningMaxStores planning" using as(1,5) m by (simp add: completePurchase2_def mutationTo_def)
  ultimately show ?thesis using raw m as(2-4) by blast
qed

theorem impact_plans_sound_witness:
  "\<exists>p as. set (evaluationPlans (evaluateImpact exampleHost exampleVariant exampleNow 5000)) = {p} \<and> p2TotalOre p = 3000
     \<and> mset (p2Assignments p) = mset as \<and> map a2NeedId as = [''need:coffee''] \<and> a2Ean ` set as = {''7038010000027''}"
proof -
  obtain p where p: "evaluationPlans (evaluateImpact exampleHost exampleVariant exampleNow 5000) = [p]" "p2TotalOre p = 3000"
    using exampleVariant_plans by (auto simp: map_eq_Cons_conv)
  then have "p \<in> set (evaluationPlans (evaluateImpact exampleHost exampleVariant exampleNow 5000))" by simp
  from impact_plans_sound [OF exampleReplace_compiled this]
  obtain target as where m: "mutationTo exampleHost exampleImpactPlanning exampleReplace exampleVariant target"
    and as: "mset (p2Assignments p) = mset as" "list_all2 (\<lambda>n a. a2NeedId a = planningNeedId n
         \<and> (if n = target then a2Ean a = actionGtin exampleReplace else n \<in> set (planningNeeds exampleImpactPlanning)
              \<and> a \<in> set (choices2 exampleHost exampleImpactPlanning exampleNow n))) (planningNeeds exampleVariant) as"
    unfolding exampleImpact_parsed exampleReplace_parsed by auto
  obtain a where "as = [a]" "a2NeedId a = planningNeedId target" "a2Ean a = actionGtin exampleReplace"
    using as(2) unfolding exampleVariant_target [OF m] by (auto simp: list_all2_Cons1)
  moreover have "planningNeedId target = ''need:coffee''" using exampleVariant_needs unfolding exampleVariant_target [OF m] by simp
  ultimately show ?thesis using p as(1) by (intro exI [of _ p] exI [of _ as]) (simp add: exampleReplace_def)
qed

text \<open>
  C31. A batch is answered just when the weight and date are in range, there are one to eight distinct actions and at most 50
  products, and the declared candidates are those the rules match: it has one true outcome per action, in their order, and no
  action of an accepted batch makes it fail.
\<close>

theorem impact_batch_exact:
  assumes "serverPlanningInputV2Schema (impactPlanning input) = Some planning"
    and "parseAll discoveryImpactActionV1Schema (impactActions input) = Some actions"
  shows "case calculateDiscoveryImpactBatchV1 h input of
      None \<Rightarrow> \<not> batchAccepted h input planning actions
    | Some batch \<Rightarrow> batchAccepted h input planning actions
        \<and> impactBaseline batch = evaluateImpact h planning (impactEvaluatedAt input) (impactWeight input)
        \<and> list_all2 (outcomeTrue h input planning) actions (impactOutcomes batch)"
proof (cases "batchAccepted h input planning actions")
  case True
  have "parseAll discoveryImpactActionV1Schema actions = Some actions" using parseAll_idem [OF assms(2)] actionSchema_idem by blast
  then obtain outcomes where "parseAll (outcomeOf h input planning) (enumerate 0 actions) = Some outcomes"
      "list_all2 (outcomeTrue h input planning) actions outcomes"
    using outcomes_true [OF planning_parsed(4) [OF assms(1)] True] by blast
  with True show ?thesis
    using assms parseAll_length [OF assms(2)]
    by (simp add: batchAccepted_def calculateDiscoveryImpactBatchV1_def length_uniq_eq DISCOVERY_IMPACT_ACTION_MAX_def
        DISCOVERY_IMPACT_PRODUCT_UNION_MAX_def Let_def del: length_uniq)
next
  case False
  have "length (uniq (map f actions)) = length (impactActions input) \<longleftrightarrow> distinct (map f actions)" for f :: "impact_action \<Rightarrow> string"
    using length_uniq_eq [of "map f actions"] parseAll_length [OF assms(2)] by simp
  with False have "calculateDiscoveryImpactBatchV1 h input = None"
    using assms parseAll_length [OF assms(2)]
    by (auto simp: batchAccepted_def calculateDiscoveryImpactBatchV1_def DISCOVERY_IMPACT_ACTION_MAX_def
        DISCOVERY_IMPACT_PRODUCT_UNION_MAX_def Let_def Suc_le_eq simp del: length_uniq)
  with False show ?thesis by simp
qed

theorem impact_batch_exact_witness:
  "\<exists>batch outcome. calculateDiscoveryImpactBatchV1 exampleHost exampleBatch = Some batch \<and> impactOutcomes batch = [outcome]
     \<and> outcomeActionId outcome = ''action:1''"
  using impact_batch_exact [OF exampleBatch_parsed, of exampleHost] exampleBatch_accepted
  by (auto simp: list_all2_Cons1 outcomeTrue_def exampleReplace_def split: option.splits)

end
