(* ===== verification/Coverage.thy ===== *)
theory Coverage
  imports Evidence
begin

text \<open>
  \<open>packages/domain/src/coverage.ts\<close>: what is known of one product at each expected chain. A status is priced, known not
  carried, stale, ineligible or unknown; \<open>deriveComparisonScope\<close> computes it from price evidence and coverage checks.
  A \<open>Date\<close> that is finite prints by \<open>toISOString\<close>; the empty text stands for the exception on an invalid one, which the
  guards exclude.
\<close>

section \<open>Contracts\<close>

definition KNOWN_NOT_CARRIED_MAX_AGE_MS :: int where
  "KNOWN_NOT_CARRIED_MAX_AGE_MS = 72 * 60 * 60 * 1000"

datatype coverage_reason = CoverageSourceDisabled | AmbiguousProduct | CoverageAmbiguousScope | CoverageWrongScope
  | CoverageUnknownScope | CoverageNotYetValid | CoverageExpired | MembershipDisabled | InvalidEvidence

datatype unknown_reason = NotChecked | SourceUnavailable

datatype coverage_status =
    Priced string
  | KnownNotCarried string string
  | StaleCoverage string string string
  | IneligibleCoverage "string option" coverage_reason string
  | UnknownCoverage unknown_reason "string option"

fun coverageStatusSchema :: "coverage_status \<Rightarrow> coverage_status option" where
  "coverageStatusSchema (Priced i) = map_option Priced (identifierSchema i)"
| "coverageStatusSchema (KnownNotCarried s checkedAt) =
     (case sourceIdSchema s of None \<Rightarrow> None
      | Some s' \<Rightarrow> if canonicalTimestamp checkedAt then Some (KnownNotCarried s' checkedAt) else None)"
| "coverageStatusSchema (StaleCoverage i observedAt staleAt) =
     (case identifierSchema i of None \<Rightarrow> None
      | Some i' \<Rightarrow> if canonicalTimestamp observedAt \<and> canonicalTimestamp staleAt \<and> dateParse staleAt > dateParse observedAt
                  then Some (StaleCoverage i' observedAt staleAt) else None)"
| "coverageStatusSchema (IneligibleCoverage i reason evaluatedAt) =
     (case parseOptional identifierSchema i of None \<Rightarrow> None
      | Some i' \<Rightarrow> if canonicalTimestamp evaluatedAt then Some (IneligibleCoverage i' reason evaluatedAt) else None)"
| "coverageStatusSchema (UnknownCoverage reason checkedAt) =
     (if optionally canonicalTimestamp checkedAt then Some (UnknownCoverage reason checkedAt) else None)"

datatype completeness = CompleteComparison | PartialComparison

record comparison_entry =
  entryChainId :: string
  entryStatus :: coverage_status

record comparison_scope =
  scopeCompleteness :: completeness
  scopeEvaluatedAt :: string
  scopeExpectedChainIds :: "string list"
  scopeEntries :: "comparison_entry list"

fun resolvedStatus :: "coverage_status \<Rightarrow> bool" where
  "resolvedStatus (Priced _) = True"
| "resolvedStatus (KnownNotCarried _ _) = True"
| "resolvedStatus _ = False"

fun currentAbsence :: "int \<Rightarrow> coverage_status \<Rightarrow> bool" where
  "currentAbsence evaluatedAtMs (KnownNotCarried _ checkedAt) =
     (\<not> (dateParse checkedAt > evaluatedAtMs \<or> evaluatedAtMs - dateParse checkedAt > KNOWN_NOT_CARRIED_MAX_AGE_MS))"
| "currentAbsence evaluatedAtMs _ = True"

definition comparisonScopeRefinement :: "comparison_scope \<Rightarrow> bool" where
  "comparisonScopeRefinement s \<longleftrightarrow>
     (let chainIds = map entryChainId (scopeEntries s); actualChainIds = uniq chainIds
      in hasUniqueStrings (scopeExpectedChainIds s) \<and> hasUniqueStrings chainIds
         \<and> \<not> (length actualChainIds \<noteq> length (scopeExpectedChainIds s)
              \<or> list_ex (\<lambda>c. c \<notin> set actualChainIds) (scopeExpectedChainIds s))
         \<and> \<not> (scopeCompleteness s = CompleteComparison
              \<and> list_ex (\<lambda>e. \<not> resolvedStatus (entryStatus e)) (scopeEntries s))
         \<and> list_all (\<lambda>e. currentAbsence (dateParse (scopeEvaluatedAt s)) (entryStatus e)) (scopeEntries s))"

definition comparisonEntrySchema :: "comparison_entry \<Rightarrow> comparison_entry option" where
  "comparisonEntrySchema e =
     (case (identifierSchema (entryChainId e), coverageStatusSchema (entryStatus e)) of
        (Some c, Some s) \<Rightarrow> Some \<lparr>entryChainId = c, entryStatus = s\<rparr>
      | _ \<Rightarrow> None)"

definition comparisonScopeSchema :: "comparison_scope \<Rightarrow> comparison_scope option" where
  "comparisonScopeSchema s =
     (case (parseAll identifierSchema (scopeExpectedChainIds s), parseAll comparisonEntrySchema (scopeEntries s)) of
        (Some expected, Some entries) \<Rightarrow>
          (let parsed = s\<lparr>scopeExpectedChainIds := expected, scopeEntries := entries\<rparr>
           in if canonicalTimestamp (scopeEvaluatedAt s) \<and> 1 \<le> length expected \<and> 1 \<le> length entries
                 \<and> comparisonScopeRefinement parsed then Some parsed else None)
      | _ \<Rightarrow> None)"

datatype check_state = CheckNotCarried | CheckUnavailable

record coverage_check =
  checkId :: string
  checkSourceId :: string
  checkProductId :: string
  checkChainId :: string
  checkState :: check_state
  checkCheckedAt :: string
  checkScope :: geographic_scope

definition coverageCheckSchema :: "coverage_check \<Rightarrow> coverage_check option" where
  "coverageCheckSchema c =
     (case (identifierSchema (checkId c), sourceIdSchema (checkSourceId c), identifierSchema (checkProductId c),
            identifierSchema (checkChainId c), geographicScopeSchema (checkScope c)) of
        (Some i, Some s, Some p, Some k, Some g) \<Rightarrow>
          (if canonicalTimestamp (checkCheckedAt c)
           then Some (c\<lparr>checkId := i, checkSourceId := s, checkProductId := p, checkChainId := k, checkScope := g\<rparr>) else None)
      | _ \<Rightarrow> None)"

section \<open>Deriving the status of one chain\<close>

text \<open>The loop over the values; \<open>None\<close> is its early return. Equal fingerprints are equal values.\<close>

fun dedupeLoop :: "('a \<Rightarrow> string) \<Rightarrow> 'a list \<Rightarrow> (string \<times> 'a) list \<Rightarrow> (string \<times> 'a) list option" where
  "dedupeLoop ident [] seen = Some seen"
| "dedupeLoop ident (v # vs) seen =
     (case map_of seen (ident v) of
        Some previous \<Rightarrow> if previous \<noteq> v then None else dedupeLoop ident vs seen
      | None \<Rightarrow> dedupeLoop ident vs (AList.update (ident v) v seen))"

definition dedupeStrictById :: "('a \<Rightarrow> string) \<Rightarrow> 'a list \<Rightarrow> 'a list option" where
  "dedupeStrictById ident values = map_option (map snd) (dedupeLoop ident values [])"

fun evidenceConcernsProduct :: "product_match \<Rightarrow> string \<Rightarrow> bool" where
  "evidenceConcernsProduct (ExactMatch i) productId = (i = productId)"
| "evidenceConcernsProduct (AmbiguousMatch candidates) productId = (productId \<in> set candidates)"

fun mapIneligibleReason :: "ineligibility \<Rightarrow> coverage_reason" where
  "mapIneligibleReason SourceDisabled = CoverageSourceDisabled"
| "mapIneligibleReason EvidenceAmbiguous = AmbiguousProduct"
| "mapIneligibleReason EvidenceAmbiguousScope = CoverageAmbiguousScope"
| "mapIneligibleReason EvidenceWrongScope = CoverageWrongScope"
| "mapIneligibleReason EvidenceUnknownScope = CoverageUnknownScope"
| "mapIneligibleReason EvidenceNotYetValid = CoverageNotYetValid"
| "mapIneligibleReason EvidenceExpired = CoverageExpired"
| "mapIneligibleReason EvidenceFuture = InvalidEvidence"
| "mapIneligibleReason EvidenceInvalid = InvalidEvidence"
| "mapIneligibleReason EvidenceStale = InvalidEvidence"

definition isoNow :: "eligibility_context \<Rightarrow> string" where
  "isoNow c = (case eligibilityNow c of None \<Rightarrow> [] | Some t \<Rightarrow> toISOString t)"

definition evidenceStatus :: "price_evidence \<Rightarrow> eligibility_context \<Rightarrow> coverage_status" where
  "evidenceStatus evidence c =
     (case parseEligiblePriceEvidence (Shaped evidence) c of
        Inr _ \<Rightarrow> Priced (evidenceId evidence)
      | Inl reason \<Rightarrow>
          if reason = EvidenceStale
          then StaleCoverage (evidenceId evidence) (evidenceObservedAt evidence)
                 (toISOString (dateParse (evidenceObservedAt evidence) + eligibilityMaxAgeMs c))
          else IneligibleCoverage (Some (evidenceId evidence)) (mapIneligibleReason reason) (isoNow c))"

text \<open>The specificity of a scope at the location as given, which need not be the parsed one.\<close>

definition scopeSpecificity :: "eligibility_context \<Rightarrow> geographic_scope \<Rightarrow> nat option" where
  "scopeSpecificity c scope = geographicScopeSpecificity scope (eligibilityLocation c) (eligibilityDirectory c)"

definition specificityRank :: "eligibility_context \<Rightarrow> geographic_scope \<Rightarrow> int" where
  "specificityRank c scope = (case scopeSpecificity c scope of None \<Rightarrow> -1 | Some n \<Rightarrow> int n)"

definition compareEligibleEvidence :: "eligibility_context \<Rightarrow> price_evidence \<Rightarrow> price_evidence \<Rightarrow> int" where
  "compareEligibleEvidence c left right =
     js_or (specificityRank c (evidenceScope right) - specificityRank c (evidenceScope left))
     (js_or (compareText (evidenceObservedAt right) (evidenceObservedAt left))
     (js_or (evidenceAmountOre left - evidenceAmountOre right)
       (compareText (evidenceId left) (evidenceId right))))"

definition compareCheckStates :: "check_state \<Rightarrow> check_state \<Rightarrow> int" where
  "compareCheckStates left right = (if left = right then 0 else if left = CheckUnavailable then -1 else 1)"

definition compareCoverageChecks :: "eligibility_context \<Rightarrow> coverage_check \<Rightarrow> coverage_check \<Rightarrow> int" where
  "compareCoverageChecks c left right =
     js_or (specificityRank c (checkScope right) - specificityRank c (checkScope left))
     (js_or (compareText (checkCheckedAt right) (checkCheckedAt left))
     (js_or (compareCheckStates (checkState left) (checkState right))
       (compareText (checkId left) (checkId right))))"

definition compareUnresolvedEvidence :: "price_evidence \<Rightarrow> price_evidence \<Rightarrow> int" where
  "compareUnresolvedEvidence left right =
     js_or (compareText (evidenceObservedAt right) (evidenceObservedAt left)) (compareText (evidenceId left) (evidenceId right))"

definition checkIsCurrentAndApplicable :: "coverage_check \<Rightarrow> string \<Rightarrow> eligibility_context \<Rightarrow> bool" where
  "checkIsCurrentAndApplicable check productId c \<longleftrightarrow>
     (case eligibilityNow c of None \<Rightarrow> False
      | Some nowMs \<Rightarrow>
          checkProductId check = productId \<and> checkSourceId check \<in> set (eligibilitySources c)
          \<and> dateParse (checkCheckedAt check) \<le> nowMs
          \<and> nowMs - dateParse (checkCheckedAt check) \<le> eligibilityMaxAgeMs c
          \<and> (case resolveGeographicApplicability (checkScope check) (eligibilityLocation c) (eligibilityDirectory c) of
               Applicable _ \<Rightarrow> True | _ \<Rightarrow> False))"

definition isEligible :: "eligibility_context \<Rightarrow> price_evidence \<Rightarrow> bool" where
  "isEligible c candidate \<longleftrightarrow> (case parseEligiblePriceEvidence (Shaped candidate) c of Inr _ \<Rightarrow> True | Inl _ \<Rightarrow> False)"

definition staleRank :: "eligibility_context \<Rightarrow> price_evidence \<Rightarrow> int" where
  "staleRank c e = (case evidenceStatus e c of StaleCoverage _ _ _ \<Rightarrow> 0 | _ \<Rightarrow> 1)"

text \<open>
  \<open>candidateProduct\<close> is the parsed product identifier, \<open>inputProduct\<close> the one given, which the checks are compared with.
\<close>

definition chainStatus ::
    "string \<Rightarrow> string \<Rightarrow> price_evidence list \<Rightarrow> coverage_check list \<Rightarrow> eligibility_context \<Rightarrow> string \<Rightarrow> coverage_status" where
  "chainStatus inputProduct candidateProduct evidence checks c chainId =
     (let candidates = filter (\<lambda>e. evidenceChainId e = chainId \<and> evidencePriceKind e = OrdinaryPrice
            \<and> evidenceConcernsProduct (evidenceMatch e) candidateProduct) evidence;
          eligibleCandidates = sort_by (compareEligibleEvidence c) (filter (isEligible c) candidates)
      in case eligibleCandidates of
        selected # _ \<Rightarrow>
          (let equallyCurrent = filter (\<lambda>e. evidenceObservedAt e = evidenceObservedAt selected
                 \<and> scopeSpecificity c (evidenceScope e) = scopeSpecificity c (evidenceScope selected)) eligibleCandidates
           in if length (uniq (map evidenceAmountOre equallyCurrent)) > 1
              then IneligibleCoverage
                     (map_option evidenceId (first_by (\<lambda>l r. compareText (evidenceId l) (evidenceId r)) equallyCurrent))
                     InvalidEvidence (isoNow c)
              else Priced (evidenceId selected))
      | [] \<Rightarrow>
          (let applicableChecks = sort_by (compareCoverageChecks c)
                 (filter (\<lambda>k. checkChainId k = chainId \<and> checkIsCurrentAndApplicable k inputProduct c) checks)
           in case applicableChecks of
             selected # _ \<Rightarrow>
               (let equallyCurrent = filter (\<lambda>k. checkCheckedAt k = checkCheckedAt selected
                      \<and> scopeSpecificity c (checkScope k) = scopeSpecificity c (checkScope selected)) applicableChecks
                in if length (uniq (map checkState equallyCurrent)) > 1
                   then UnknownCoverage SourceUnavailable (Some (checkCheckedAt selected))
                   else (case checkState selected of
                     CheckNotCarried \<Rightarrow> KnownNotCarried (checkSourceId selected) (checkCheckedAt selected)
                   | CheckUnavailable \<Rightarrow> UnknownCoverage SourceUnavailable (Some (checkCheckedAt selected))))
           | [] \<Rightarrow>
               (case first_by (\<lambda>l r. js_or (staleRank c l - staleRank c r) (compareUnresolvedEvidence l r)) candidates of
                  None \<Rightarrow> UnknownCoverage NotChecked None
                | Some unresolved \<Rightarrow> evidenceStatus unresolved c)))"

section \<open>The comparison scope\<close>

record derivation_input =
  derivationProduct :: string
  derivationChainIds :: "string list"
  derivationEvidence :: "price_evidence unknown list"
  derivationChecks :: "coverage_check unknown list"
  derivationContext :: eligibility_context

definition validDerivation :: "derivation_input \<Rightarrow> bool" where
  "validDerivation input \<longleftrightarrow>
     (let c = derivationContext input; chainIds = derivationChainIds input
      in identifierSchema (derivationProduct input) \<noteq> None \<and> geographicContextSchema (eligibilityLocation c) \<noteq> None
         \<and> isFiniteDate (eligibilityNow c) \<and> isSafeInt (eligibilityMaxAgeMs c) \<and> \<not> eligibilityMaxAgeMs c < 0
         \<and> \<not> length chainIds < 1 \<and> \<not> length chainIds > 13
         \<and> list_all (\<lambda>i. identifierSchema i \<noteq> None) chainIds \<and> hasUniqueStrings chainIds)"

definition comparisonEntries ::
    "derivation_input \<Rightarrow> price_evidence list \<Rightarrow> coverage_check list \<Rightarrow> comparison_entry list" where
  "comparisonEntries input evidence checks =
     map (\<lambda>i. \<lparr>entryChainId = i, entryStatus = chainStatus (derivationProduct input)
                 (the (identifierSchema (derivationProduct input))) evidence checks (derivationContext input) i\<rparr>)
       (derivationChainIds input)"

definition deriveComparisonScope :: "derivation_input \<Rightarrow> comparison_scope option" where
  "deriveComparisonScope input =
     (if \<not> validDerivation input then None
      else
        (case (dedupeStrictById evidenceId (List.map_filter (parseUnknown priceEvidenceSchema) (derivationEvidence input)),
               dedupeStrictById checkId (List.map_filter (parseUnknown coverageCheckSchema) (derivationChecks input))) of
           (Some evidence, Some checks) \<Rightarrow>
             (let entries = comparisonEntries input evidence checks
              in comparisonScopeSchema
                \<lparr>scopeCompleteness = (if list_all (\<lambda>e. resolvedStatus (entryStatus e)) entries
                                      then CompleteComparison else PartialComparison),
                 scopeEvaluatedAt = isoNow (derivationContext input),
                 scopeExpectedChainIds = derivationChainIds input, scopeEntries = entries\<rparr>)
         | _ \<Rightarrow> None))"

section \<open>The most specific, latest candidates\<close>

definition bestBy :: "('a \<Rightarrow> int) \<Rightarrow> ('a \<Rightarrow> string) \<Rightarrow> 'a list \<Rightarrow> 'a list" where
  "bestBy rank time xs = filter (\<lambda>x. list_all (\<lambda>y. rank y < rank x \<or> rank y = rank x \<and> time y \<le> time x) xs) xs"

locale ranked =
  fixes cmp :: "'a cmp" and rank :: "'a \<Rightarrow> int" and time :: "'a \<Rightarrow> string" and rest :: "'a cmp"
  assumes cmp_eq: "cmp x y = js_or (rank y - rank x) (js_or (compareText (time y) (time x)) (rest x y))"
    and rest_comparator: "comparator rest"
begin

lemma cmp_comparator: "comparator cmp"
proof -
  have "cmp = (\<lambda>x y. js_or (rank y - rank x) (js_or (compareText (time y) (time x)) (rest x y)))"
    by (intro ext) (rule cmp_eq)
  moreover have "comparator (\<lambda>x y. js_or (rank y - rank x) (js_or (compareText (time y) (time x)) (rest x y)))"
    by (intro comparator_intros rest_comparator)
  ultimately show ?thesis by simp
qed

lemma cmp_le: "cmp x y \<le> 0 \<longleftrightarrow> rank y < rank x \<or> rank y = rank x \<and> (time y < time x \<or> time y = time x \<and> rest x y \<le> 0)"
  by (auto simp: cmp_eq js_or_def compareText_def)

lemma selected_best:
  assumes "sort_by cmp xs = m # ms"
  shows "m \<in> set (bestBy rank time xs)"
    "set (filter (\<lambda>x. time x = time m \<and> rank x = rank m) (m # ms)) = set (bestBy rank time xs)"
    "x \<in> set (bestBy rank time xs) \<Longrightarrow> rest m x \<le> 0 \<and> time x = time m"
proof -
  have sets: "set (m # ms) = set xs" using assms by (metis set_sort_by)
  have least: "rank x < rank m \<or> rank x = rank m \<and> (time x < time m \<or> time x = time m \<and> rest m x \<le> 0)" if "x \<in> set xs" for x
    using comparator.sort_by_hd_min [OF cmp_comparator assms that] by (simp add: cmp_le)
  have m: "m \<in> set xs" using sets by auto
  show "m \<in> set (bestBy rank time xs)" using m least by (fastforce simp: bestBy_def list_all_iff)
  have tops: "rank x = rank m \<and> time x = time m" if "x \<in> set (bestBy rank time xs)" for x
    using that m least [of x] by (fastforce simp: bestBy_def list_all_iff)
  have "x \<in> set (bestBy rank time xs)" if "x \<in> set xs" "rank x = rank m" "time x = time m" for x
    using that least by (fastforce simp: bestBy_def list_all_iff)
  with tops have iff: "x \<in> set (bestBy rank time xs) \<longleftrightarrow> x \<in> set xs \<and> rank x = rank m \<and> time x = time m" for x
    by (auto simp: bestBy_def)
  show "set (filter (\<lambda>x. time x = time m \<and> rank x = rank m) (m # ms)) = set (bestBy rank time xs)"
    unfolding set_filter sets using iff by blast
  show "x \<in> set (bestBy rank time xs) \<Longrightarrow> rest m x \<le> 0 \<and> time x = time m"
    using iff [of x] least [of x] by auto
qed

end

interpretation by_evidence: ranked "compareEligibleEvidence c" "\<lambda>e. specificityRank c (evidenceScope e)" evidenceObservedAt
    "\<lambda>l r. js_or (evidenceAmountOre l - evidenceAmountOre r) (compareText (evidenceId l) (evidenceId r))" for c
proof (rule ranked.intro)
  show "comparator (\<lambda>l r. js_or (evidenceAmountOre l - evidenceAmountOre r) (compareText (evidenceId l) (evidenceId r)))"
    by (intro comparator_intros)
qed (simp add: compareEligibleEvidence_def)

lemma compareCheckStates_key:
  "compareCheckStates x y = compareNumber (case x of CheckUnavailable \<Rightarrow> 0 | _ \<Rightarrow> 1) (case y of CheckUnavailable \<Rightarrow> 0 | _ \<Rightarrow> 1)"
  by (auto simp: compareCheckStates_def compareNumber_def split: check_state.splits)

lemma comparator_states: "comparator (\<lambda>l r. compareCheckStates (checkState l) (checkState r))"
  unfolding compareCheckStates_key by (rule comparator_number_key)

interpretation by_check: ranked "compareCoverageChecks c" "\<lambda>k. specificityRank c (checkScope k)" checkCheckedAt
    "\<lambda>l r. js_or (compareCheckStates (checkState l) (checkState r)) (compareText (checkId l) (checkId r))" for c
proof (rule ranked.intro)
  show "comparator (\<lambda>l r. js_or (compareCheckStates (checkState l) (checkState r)) (compareText (checkId l) (checkId r)))"
    by (intro comparator_intros comparator_states)
qed (simp add: compareCoverageChecks_def)

lemma same_specificity: "scopeSpecificity c g = scopeSpecificity c h \<longleftrightarrow> specificityRank c g = specificityRank c h"
  by (auto simp: specificityRank_def split: option.splits)

text \<open>What the selections mean.\<close>

definition usableAt :: "eligibility_context \<Rightarrow> string \<Rightarrow> string \<Rightarrow> price_evidence list \<Rightarrow> price_evidence list" where
  "usableAt c productId chainId evidence =
     filter (\<lambda>e. evidenceChainId e = chainId \<and> evidencePriceKind e = OrdinaryPrice
       \<and> evidenceMatch e = ExactMatch productId \<and> usableEvidence e c) evidence"

text \<open>How specific a scope is at the location, and the most specific and then latest of what there is.\<close>

definition specificityAt :: "eligibility_context \<Rightarrow> geographic_scope \<Rightarrow> nat option" where
  "specificityAt c scope = geographicScopeSpecificity scope (eligibilityLocation c) (eligibilityDirectory c)"

fun moreSpecific :: "nat option \<Rightarrow> nat option \<Rightarrow> bool" where
  "moreSpecific (Some m) (Some n) = (n < m)"
| "moreSpecific (Some m) None = True"
| "moreSpecific None _ = False"

definition decidingBy :: "('a \<Rightarrow> nat option) \<Rightarrow> ('a \<Rightarrow> string) \<Rightarrow> 'a list \<Rightarrow> 'a list" where
  "decidingBy specificity time xs =
     filter (\<lambda>x. \<forall>y \<in> set xs. \<not> moreSpecific (specificity y) (specificity x)
       \<and> (specificity y = specificity x \<longrightarrow> time y \<le> time x)) xs"

definition bestEvidence :: "eligibility_context \<Rightarrow> price_evidence list \<Rightarrow> price_evidence list" where
  "bestEvidence c = decidingBy (specificityAt c \<circ> evidenceScope) evidenceObservedAt"

definition bestChecks :: "eligibility_context \<Rightarrow> coverage_check list \<Rightarrow> coverage_check list" where
  "bestChecks c = decidingBy (specificityAt c \<circ> checkScope) checkCheckedAt"

lemma moreSpecific_rank:
  "moreSpecific (scopeSpecificity c g) (scopeSpecificity c h) \<longleftrightarrow> specificityRank c h < specificityRank c g"
  by (cases "scopeSpecificity c g"; cases "scopeSpecificity c h") (simp_all add: specificityRank_def)

lemma bestBy_deciding: "bestBy (\<lambda>x. specificityRank c (scope x)) time xs = decidingBy (specificityAt c \<circ> scope) time xs"
proof -
  have "specificityAt c g = scopeSpecificity c g" for g by (simp add: specificityAt_def scopeSpecificity_def)
  then show ?thesis
    unfolding bestBy_def decidingBy_def list_all_iff o_apply same_specificity
    by (intro filter_cong refl ball_cong) (auto simp: moreSpecific_rank same_specificity not_less)
qed

lemma best_by:
  "bestBy (\<lambda>e. specificityRank c (evidenceScope e)) evidenceObservedAt xs = bestEvidence c xs"
  "bestBy (\<lambda>k. specificityRank c (checkScope k)) checkCheckedAt ks = bestChecks c ks"
  unfolding bestEvidence_def bestChecks_def by (rule bestBy_deciding)+

text \<open>A check that counts: of this product, by an enabled source, no older than the maximum age, and where the shopper is.\<close>

definition currentCheck :: "eligibility_context \<Rightarrow> string \<Rightarrow> coverage_check \<Rightarrow> bool" where
  "currentCheck c productId k \<longleftrightarrow>
     checkProductId k = productId \<and> checkSourceId k \<in> set (eligibilitySources c)
     \<and> eligibilityNow c \<noteq> None \<and> the (eligibilityNow c) - eligibilityMaxAgeMs c \<le> dateParse (checkCheckedAt k)
     \<and> dateParse (checkCheckedAt k) \<le> the (eligibilityNow c)
     \<and> geographicScopeIncludes (checkScope k) (eligibilityLocation c) (eligibilityDirectory c)"

definition checksAt :: "eligibility_context \<Rightarrow> string \<Rightarrow> string \<Rightarrow> coverage_check list \<Rightarrow> coverage_check list" where
  "checksAt c productId chainId checks = filter (\<lambda>k. checkChainId k = chainId \<and> currentCheck c productId k) checks"

lemma checksAt_code:
  "filter (\<lambda>k. checkChainId k = chainId \<and> checkIsCurrentAndApplicable k productId c) checks = checksAt c productId chainId checks"
proof -
  have "checkIsCurrentAndApplicable k productId c \<longleftrightarrow> currentCheck c productId k" for k
    by (cases "eligibilityNow c")
      (auto simp: checkIsCurrentAndApplicable_def currentCheck_def geographicScopeIncludes_def split: applicability.splits)
  then show ?thesis by (simp add: checksAt_def)
qed

text \<open>
  What is said of a piece of evidence that is not usable: the first of its defects, in this order. The maximum age must be a safe
  integer and not negative, and the moment and the location valid; otherwise, as for an observation in the future, the
  evidence counts as invalid.
\<close>

definition defectStatus :: "eligibility_context \<Rightarrow> price_evidence \<Rightarrow> coverage_status" where
  "defectStatus c e =
     (let ineligible = (\<lambda>reason. IneligibleCoverage (Some (evidenceId e)) reason (isoNow c));
          observed = dateParse (evidenceObservedAt e); age = eligibilityMaxAgeMs c; t = the (eligibilityNow c)
      in if eligibilityNow c = None \<or> geographicContextSchema (eligibilityLocation c) = None \<or> age < 0 \<or> MAX_SAFE_INTEGER < age
         then ineligible InvalidEvidence
         else if evidenceSourceId e \<notin> set (eligibilitySources c) then ineligible CoverageSourceDisabled
         else if evidenceLevel e = AmbiguousLevel \<or> (case evidenceMatch e of ExactMatch _ \<Rightarrow> False | AmbiguousMatch _ \<Rightarrow> True) then ineligible AmbiguousProduct
         else if t < observed then ineligible InvalidEvidence
         else if observed + age < t then StaleCoverage (evidenceId e) (evidenceObservedAt e) (toISOString (observed + age))
         else if evidenceValidFrom e \<noteq> None \<and> t < dateParse (the (evidenceValidFrom e)) then ineligible CoverageNotYetValid
         else if evidenceValidUntil e \<noteq> None \<and> dateParse (the (evidenceValidUntil e)) < t then ineligible CoverageExpired
         else (case resolveGeographicApplicability (evidenceScope e) (the (geographicContextSchema (eligibilityLocation c))) (eligibilityDirectory c) of
             UnknownApplicability _ \<Rightarrow> ineligible CoverageUnknownScope
           | AmbiguousApplicability _ \<Rightarrow> ineligible CoverageAmbiguousScope
           | NotApplicable \<Rightarrow> ineligible CoverageWrongScope
           | Applicable _ \<Rightarrow> Priced (evidenceId e)))"

text \<open>The evidence to be explained: the stale first, then the latest, then the least identifier.\<close>

fun isStale :: "coverage_status \<Rightarrow> bool" where
  "isStale (StaleCoverage _ _ _) = True"
| "isStale _ = False"

definition explainedFirst :: "eligibility_context \<Rightarrow> price_evidence \<Rightarrow> price_evidence \<Rightarrow> bool" where
  "explainedFirst c x y \<longleftrightarrow>
     (let sx = isStale (defectStatus c x); sy = isStale (defectStatus c y)
      in sx \<and> \<not> sy \<or> sx = sy \<and> (evidenceObservedAt y < evidenceObservedAt x
           \<or> evidenceObservedAt y = evidenceObservedAt x \<and> evidenceId x \<le> evidenceId y))"

definition concerning :: "string \<Rightarrow> string \<Rightarrow> price_evidence list \<Rightarrow> price_evidence list" where
  "concerning productId chainId evidence =
     filter (\<lambda>e. evidenceChainId e = chainId \<and> evidencePriceKind e = OrdinaryPrice
       \<and> (case evidenceMatch e of ExactMatch i \<Rightarrow> i = productId | AmbiguousMatch candidates \<Rightarrow> productId \<in> set candidates)) evidence"

lemma concerning_code:
  "filter (\<lambda>e. evidenceChainId e = chainId \<and> evidencePriceKind e = OrdinaryPrice
     \<and> evidenceConcernsProduct (evidenceMatch e) productId) evidence = concerning productId chainId evidence"
proof -
  have "evidenceConcernsProduct m productId =
    (case m of ExactMatch i \<Rightarrow> i = productId | AmbiguousMatch candidates \<Rightarrow> productId \<in> set candidates)" for m by (cases m) simp_all
  then show ?thesis by (simp add: concerning_def)
qed

lemma evidenceStatus_defect:
  assumes "priceEvidenceSchema e = Some e"
  shows "evidenceStatus e c = defectStatus c e"
proof (cases "eligibilityNow c"; cases "geographicContextSchema (eligibilityLocation c)")
  fix t place assume c: "eligibilityNow c = Some t" "geographicContextSchema (eligibilityLocation c) = Some place"
  have ages: "\<not> isSafeInt (eligibilityMaxAgeMs c) \<or> eligibilityMaxAgeMs c < 0 \<longleftrightarrow> eligibilityMaxAgeMs c < 0 \<or> MAX_SAFE_INTEGER < eligibilityMaxAgeMs c"
    by (auto simp: isSafeInt_def MAX_SAFE_INTEGER_def)
  show ?thesis
    unfolding evidenceStatus_def parseEligiblePriceEvidence_def defectStatus_def parseUnknown.simps assms c ages Let_def
    by (auto simp: not_less split: option.splits applicability.splits)
qed (simp_all add: evidenceStatus_def parseEligiblePriceEvidence_def defectStatus_def assms)

lemma staleRank_iff:
  assumes "priceEvidenceSchema e = Some e"
  shows "staleRank c e = (if isStale (defectStatus c e) then 0 else 1)"
  unfolding staleRank_def evidenceStatus_defect [OF assms] by (cases "defectStatus c e") simp_all

lemma eligible_iff:
  assumes "priceEvidenceSchema e = Some e"
  shows "isEligible c e \<longleftrightarrow> usableEvidence e c"
  using eligible_shaped [OF assms, of c]
  by (cases "parseEligiblePriceEvidence (Shaped e) c") (auto simp: isEligible_def)

lemma eligible_candidates:
  assumes "\<forall>e \<in> set evidence. priceEvidenceSchema e = Some e"
  shows "filter (isEligible c) (filter (\<lambda>e. evidenceChainId e = chainId \<and> evidencePriceKind e = OrdinaryPrice
      \<and> evidenceConcernsProduct (evidenceMatch e) productId) evidence) = usableAt c productId chainId evidence"
  unfolding usableAt_def filter_filter
proof (rule filter_cong [OF refl])
  fix e assume "e \<in> set evidence"
  then have "isEligible c e \<longleftrightarrow> usableEvidence e c" using assms eligible_iff by blast
  moreover have "\<exists>i. evidenceMatch e = ExactMatch i" if "usableEvidence e c" using that by (simp add: usableEvidence_def)
  ultimately show "((evidenceChainId e = chainId \<and> evidencePriceKind e = OrdinaryPrice \<and> evidenceConcernsProduct (evidenceMatch e) productId) \<and> isEligible c e)
      = (evidenceChainId e = chainId \<and> evidencePriceKind e = OrdinaryPrice \<and> evidenceMatch e = ExactMatch productId \<and> usableEvidence e c)"
    by auto
qed

lemma card_le_1: "finite S \<Longrightarrow> x \<in> S \<Longrightarrow> \<not> card S > 1 \<longleftrightarrow> (\<forall>y \<in> S. y = x)"
  by (metis One_nat_def card_le_Suc0_iff_eq linorder_not_le)

lemma first_text_Min:
  assumes "xs \<noteq> []"
  shows "map_option k (first_by (\<lambda>l r. compareText (k l) (k r)) xs) = Some (Min (k ` set xs))"
proof -
  obtain m where m: "first_by (\<lambda>l r. compareText (k l) (k r)) xs = Some m" using assms first_by_None by fastforce
  have "k m \<le> k x" if "x \<in> set xs" for x
    using first_by_min [OF comparator_text_key m that] by simp
  then have "Min (k ` set xs) = k m" using first_by_in [OF m] by (intro Min_eqI) auto
  with m show ?thesis by simp
qed

lemma chain_usable:
  assumes adm: "\<forall>e \<in> set evidence. priceEvidenceSchema e = Some e" and ne: "usableAt c productId chainId evidence \<noteq> []"
  defines "best \<equiv> bestEvidence c (usableAt c productId chainId evidence)"
  shows "chainStatus inputProduct productId evidence checks c chainId =
    (if card (evidenceAmountOre ` set best) > 1
     then IneligibleCoverage (Some (Min (evidenceId ` set best))) InvalidEvidence (isoNow c)
     else Priced (Min (evidenceId ` set best)))"
proof -
  obtain m ms where sorted: "sort_by (compareEligibleEvidence c) (usableAt c productId chainId evidence) = m # ms"
    using ne by (metis list.exhaust sort_by_Nil_iff)
  note sel = by_evidence.selected_best [OF sorted, unfolded best_by, folded best_def]
  define equal where "equal = filter (\<lambda>e. evidenceObservedAt e = evidenceObservedAt m
      \<and> scopeSpecificity c (evidenceScope e) = scopeSpecificity c (evidenceScope m)) (m # ms)"
  have set_equal: "set equal = set best" using sel(2) unfolding equal_def same_specificity .
  then have "equal \<noteq> []" using sel(1) by auto
  then have least: "map_option evidenceId (first_by (\<lambda>l r. compareText (evidenceId l) (evidenceId r)) equal) = Some (Min (evidenceId ` set best))"
    using first_text_Min [of equal evidenceId] by (simp add: set_equal)
  have "evidenceId m = Min (evidenceId ` set best)" if one: "\<not> card (evidenceAmountOre ` set best) > 1"
  proof -
    have "\<forall>y \<in> evidenceAmountOre ` set best. y = evidenceAmountOre m"
      by (rule iffD1 [OF card_le_1 one]) (simp_all add: sel(1))
    then have "evidenceId m \<le> evidenceId x" if "x \<in> set best" for x
      using that sel(3) [OF that] by (metis (no_types) compareText_le diff_self imageI js_or_def)
    then show ?thesis using sel(1) by (intro Min_eqI [symmetric]) auto
  qed
  moreover have "chainStatus inputProduct productId evidence checks c chainId =
    (if card (evidenceAmountOre ` set best) > 1
     then IneligibleCoverage (Some (Min (evidenceId ` set best))) InvalidEvidence (isoNow c) else Priced (evidenceId m))"
    unfolding chainStatus_def Let_def eligible_candidates [OF adm] sorted list.case equal_def [symmetric] least length_uniq set_map set_equal ..
  ultimately show ?thesis by presburger
qed

lemma chain_checked:
  assumes adm: "\<forall>e \<in> set evidence. priceEvidenceSchema e = Some e" and none: "usableAt c productId chainId evidence = []"
    and ne: "checksAt c inputProduct chainId checks \<noteq> []"
  defines "best \<equiv> bestChecks c (checksAt c inputProduct chainId checks)"
  obtains k where "k \<in> set best" "\<forall>l \<in> set best. checkCheckedAt l = checkCheckedAt k"
    "chainStatus inputProduct productId evidence checks c chainId =
      (if \<forall>l \<in> set best. checkState l = CheckNotCarried then KnownNotCarried (checkSourceId k) (checkCheckedAt k)
       else UnknownCoverage SourceUnavailable (Some (checkCheckedAt k)))"
    "(\<forall>l \<in> set best. checkState l = CheckNotCarried) \<Longrightarrow> checkId k = Min (checkId ` set best)"
proof -
  obtain m ms where sorted: "sort_by (compareCoverageChecks c) (checksAt c inputProduct chainId checks) = m # ms"
    using ne by (metis list.exhaust sort_by_Nil_iff)
  note sel = by_check.selected_best [OF sorted, unfolded best_by, folded best_def]
  define equal where "equal = filter (\<lambda>e. checkCheckedAt e = checkCheckedAt m
      \<and> scopeSpecificity c (checkScope e) = scopeSpecificity c (checkScope m)) (m # ms)"
  have set_equal: "set equal = set best" using sel(2) unfolding equal_def same_specificity .
  have status: "chainStatus inputProduct productId evidence checks c chainId =
      (if card (checkState ` set best) > 1 then UnknownCoverage SourceUnavailable (Some (checkCheckedAt m))
       else case checkState m of CheckNotCarried \<Rightarrow> KnownNotCarried (checkSourceId m) (checkCheckedAt m)
         | CheckUnavailable \<Rightarrow> UnknownCoverage SourceUnavailable (Some (checkCheckedAt m)))"
    unfolding chainStatus_def Let_def eligible_candidates [OF adm] none sort_by.simps list.case checksAt_code
      sorted equal_def [symmetric] length_uniq set_map set_equal ..
  have all: "(\<forall>l \<in> set best. checkState l = CheckNotCarried) \<longleftrightarrow> \<not> card (checkState ` set best) > 1 \<and> checkState m = CheckNotCarried"
    using sel(1) card_le_1 [of "checkState ` set best" "checkState m"] by auto
  have "checkId m = Min (checkId ` set best)" if same: "\<forall>l \<in> set best. checkState l = CheckNotCarried"
  proof -
    have "checkId m \<le> checkId x" if "x \<in> set best" for x
      using that sel(3) [OF that] same sel(1) by (simp add: js_or_def compareCheckStates_def)
    then show ?thesis using sel(1) by (intro Min_eqI [symmetric]) auto
  qed
  moreover have "chainStatus inputProduct productId evidence checks c chainId =
      (if \<forall>l \<in> set best. checkState l = CheckNotCarried then KnownNotCarried (checkSourceId m) (checkCheckedAt m)
       else UnknownCoverage SourceUnavailable (Some (checkCheckedAt m)))"
    unfolding status all by (cases "checkState m") simp_all
  moreover have "\<forall>l \<in> set best. checkCheckedAt l = checkCheckedAt m" using sel(3) by blast
  ultimately show thesis using sel(1) by (intro that [of m])
qed

lemma evidenceStatus_resolved: "resolvedStatus (evidenceStatus e c) \<longleftrightarrow> isEligible c e"
  by (auto simp: evidenceStatus_def isEligible_def split: sum.split)

lemma explainedFirst_iff:
  assumes "priceEvidenceSchema l = Some l" "priceEvidenceSchema r = Some r"
  shows "js_or (staleRank c l - staleRank c r) (compareUnresolvedEvidence l r) \<le> 0 \<longleftrightarrow> explainedFirst c l r"
proof -
  have "js_or (compareText s t) (compareText i j) \<le> 0 \<longleftrightarrow> s < t \<or> s = t \<and> i \<le> j" for s t i j :: string
    by (auto simp: js_or_def compareText_def)
  then show ?thesis
    unfolding staleRank_iff [OF assms(1)] staleRank_iff [OF assms(2)] explainedFirst_def compareUnresolvedEvidence_def Let_def
    by (cases "isStale (defectStatus c l)"; cases "isStale (defectStatus c r)") (auto simp: js_or_def [of 0] js_or_def [of 1] js_or_def [of "-1"])
qed

lemma chain_unresolved:
  assumes adm: "\<forall>e \<in> set evidence. priceEvidenceSchema e = Some e" and none: "usableAt c productId chainId evidence = []"
    and uncheckd: "checksAt c inputProduct chainId checks = []"
  defines "candidates \<equiv> concerning productId chainId evidence" and "status \<equiv> chainStatus inputProduct productId evidence checks c chainId"
  shows "\<not> resolvedStatus status"
    "candidates = [] \<Longrightarrow> status = UnknownCoverage NotChecked None"
    "candidates \<noteq> [] \<Longrightarrow> \<exists>e \<in> set candidates. (\<forall>x \<in> set candidates. explainedFirst c e x) \<and> status = defectStatus c e"
proof -
  let ?order = "\<lambda>l r. js_or (staleRank c l - staleRank c r) (compareUnresolvedEvidence l r)"
  have eq: "status = (case first_by ?order candidates of None \<Rightarrow> UnknownCoverage NotChecked None | Some unresolved \<Rightarrow> evidenceStatus unresolved c)"
    unfolding status_def candidates_def chainStatus_def Let_def eligible_candidates [OF adm] none sort_by.simps list.case checksAt_code uncheckd
    unfolding concerning_code ..
  have within: "priceEvidenceSchema e = Some e" if "e \<in> set candidates" for e
    using adm that by (auto simp: candidates_def concerning_def)
  have unusable: "\<not> isEligible c e" if "e \<in> set candidates" for e
    using that none unfolding eligible_candidates [OF adm, symmetric] concerning_code candidates_def
    by (simp only: filter_empty_conv) blast
  show "\<not> resolvedStatus status"
    unfolding eq using first_by_in [of ?order candidates] unusable
    by (cases "first_by ?order candidates") (simp_all only: option.case evidenceStatus_resolved resolvedStatus.simps not_False_eq_True)
  show "candidates = [] \<Longrightarrow> status = UnknownCoverage NotChecked None" unfolding eq by simp
  assume "candidates \<noteq> []"
  then obtain e where e: "first_by ?order candidates = Some e" using first_by_None by fastforce
  note mem = first_by_in [OF e]
  have "comparator ?order"
    unfolding compareUnresolvedEvidence_def by (intro comparator_intros)
  then have "?order e x \<le> 0" if "x \<in> set candidates" for x using first_by_min [OF _ e that] by blast
  then have "explainedFirst c e x" if "x \<in> set candidates" for x
    using that explainedFirst_iff [OF within [OF mem] within [OF that]] by blast
  moreover have "status = defectStatus c e" unfolding eq e by (simp add: evidenceStatus_defect [OF within [OF mem]])
  ultimately show "\<exists>e \<in> set candidates. (\<forall>x \<in> set candidates. explainedFirst c e x) \<and> status = defectStatus c e" using mem by blast
qed

section \<open>Admission of the result\<close>

lemma dedupeLoop_set:
  "dedupeLoop ident vs seen = Some result \<Longrightarrow> \<forall>(i, v) \<in> set seen. i = ident v \<Longrightarrow>
     snd ` set result = snd ` set seen \<union> set vs \<and> (\<forall>(i, v) \<in> set result. i = ident v)"
proof (induction vs arbitrary: seen)
  case (Cons v vs)
  show ?case
  proof (cases "map_of seen (ident v)")
    case None
    then have up: "AList.update (ident v) v seen = seen @ [(ident v, v)]" by (intro update_fresh) (simp add: map_of_eq_None_iff)
    have "snd ` set result = snd ` set (seen @ [(ident v, v)]) \<union> set vs \<and> (\<forall>(i, v) \<in> set result. i = ident v)"
      using Cons.prems None up by (intro Cons.IH) auto
    then show ?thesis by auto
  next
    case (Some previous)
    then have "previous = v" "dedupeLoop ident vs seen = Some result" using Cons.prems(1) by (auto split: if_splits)
    with Cons.IH Cons.prems(2) have "snd ` set result = snd ` set seen \<union> set vs \<and> (\<forall>(i, v) \<in> set result. i = ident v)" by blast
    moreover have "v \<in> snd ` set seen" using Some \<open>previous = v\<close> by (force dest: map_of_SomeD)
    ultimately show ?thesis by auto
  qed
qed simp

lemma dedupe_set: "dedupeStrictById ident vs = Some ws \<Longrightarrow> set ws = set vs"
  using dedupeLoop_set [of ident vs "[]"] by (auto simp: dedupeStrictById_def)

lemma evidence_fields:
  assumes "priceEvidenceSchema e = Some e"
  shows "identifierSchema (evidenceId e) = Some (evidenceId e)" "canonicalTimestamp (evidenceObservedAt e)"
proof -
  obtain i s r k m g where p: "identifierSchema (evidenceId e) = Some i" and eq: "e = e\<lparr>evidenceId := i, evidenceSourceId := s,
      evidenceRecordId := r, evidenceChainId := k, evidenceMatch := m, evidenceScope := g\<rparr>"
    using assms unfolding priceEvidenceSchema_iff by blast
  have "evidenceId e = i" using arg_cong [OF eq, of evidenceId] by simp
  with p show "identifierSchema (evidenceId e) = Some (evidenceId e)" by simp
  show "canonicalTimestamp (evidenceObservedAt e)" using assms unfolding priceEvidenceSchema_iff by blast
qed

lemma check_fields:
  assumes "coverageCheckSchema raw = Some k"
  shows "sourceIdSchema (checkSourceId k) = Some (checkSourceId k)" "canonicalTimestamp (checkCheckedAt k)"
  using assms by (auto simp: coverageCheckSchema_def sourceIdSchema_def split: option.splits if_splits dest: identifierSchema_idem)

lemma stale_reason:
  assumes "parseEligiblePriceEvidence (Shaped e) c = Inl EvidenceStale" and "priceEvidenceSchema e = Some e" and "eligibilityNow c = Some t"
  shows "dateParse (evidenceObservedAt e) + eligibilityMaxAgeMs c < t"
  using assms by (auto simp: parseEligiblePriceEvidence_def Let_def split: option.splits if_splits applicability.splits)

definition admissibleContext :: "eligibility_context \<Rightarrow> bool" where
  "admissibleContext c \<longleftrightarrow>
     (\<exists>t. eligibilityNow c = Some t \<and> MIN_CANONICAL_MS \<le> t \<and> t \<le> MAX_CANONICAL_MS)
     \<and> 1 \<le> eligibilityMaxAgeMs c \<and> eligibilityMaxAgeMs c \<le> KNOWN_NOT_CARRIED_MAX_AGE_MS"

lemma isoNow_canonical:
  assumes "admissibleContext c"
  obtains t where "eligibilityNow c = Some t" "canonicalTimestamp (isoNow c)" "dateParse (isoNow c) = t" "t \<le> MAX_CANONICAL_MS"
  using assms dateParse_toISOString by (auto simp: admissibleContext_def isoNow_def)

lemma evidenceStatus_admitted:
  assumes "priceEvidenceSchema e = Some e" and "admissibleContext c"
  shows "coverageStatusSchema (evidenceStatus e c) = Some (evidenceStatus e c)"
    "currentAbsence now (evidenceStatus e c)"
proof -
  note f = evidence_fields [OF assms(1)]
  obtain t where t: "eligibilityNow c = Some t" "canonicalTimestamp (isoNow c)" "t \<le> MAX_CANONICAL_MS"
    using isoNow_canonical [OF assms(2)] by metis
  have age: "1 \<le> eligibilityMaxAgeMs c" using assms(2) by (simp add: admissibleContext_def)
  show "coverageStatusSchema (evidenceStatus e c) = Some (evidenceStatus e c)"
  proof (cases "parseEligiblePriceEvidence (Shaped e) c = Inl EvidenceStale")
    case True
    have "MIN_CANONICAL_MS \<le> dateParse (evidenceObservedAt e)" using dateParse_range [OF f(2)] by simp
    then have "canonicalTimestamp (toISOString (dateParse (evidenceObservedAt e) + eligibilityMaxAgeMs c))
        \<and> dateParse (toISOString (dateParse (evidenceObservedAt e) + eligibilityMaxAgeMs c)) = dateParse (evidenceObservedAt e) + eligibilityMaxAgeMs c"
      using stale_reason [OF True assms(1) t(1)] t(3) age by (intro dateParse_toISOString) linarith+
    then show ?thesis using True f age by (simp add: evidenceStatus_def)
  next
    case False
    then show ?thesis using f t(2) by (auto simp: evidenceStatus_def split: sum.split)
  qed
  show "currentAbsence now (evidenceStatus e c)" by (auto simp: evidenceStatus_def split: sum.split)
qed

lemma chainStatus_admitted:
  assumes adm: "\<forall>e \<in> set evidence. priceEvidenceSchema e = Some e" and chk: "\<forall>k \<in> set checks. \<exists>raw. coverageCheckSchema raw = Some k"
    and ctx: "admissibleContext c" and status_def: "status = chainStatus inputProduct productId evidence checks c chainId"
  shows "coverageStatusSchema status = Some status \<and> currentAbsence (dateParse (isoNow c)) status"
proof -
  obtain t where t: "eligibilityNow c = Some t" "canonicalTimestamp (isoNow c)" "dateParse (isoNow c) = t"
    using isoNow_canonical [OF ctx] by metis
  show ?thesis
  proof (cases "usableAt c productId chainId evidence = []")
    case False
    let ?best = "bestEvidence c (usableAt c productId chainId evidence)"
    have sub: "set ?best \<subseteq> set evidence" by (auto simp: bestEvidence_def decidingBy_def usableAt_def)
    have ne: "?best \<noteq> []"
    proof -
      obtain m ms where "sort_by (compareEligibleEvidence c) (usableAt c productId chainId evidence) = m # ms"
        using False by (metis list.exhaust sort_by_Nil_iff)
      from by_evidence.selected_best(1) [OF this] show ?thesis unfolding best_by by force
    qed
    then have "Min (evidenceId ` set ?best) \<in> evidenceId ` set ?best" by (intro Min_in) simp_all
    then have "identifierSchema (Min (evidenceId ` set ?best)) = Some (Min (evidenceId ` set ?best))"
      using sub adm evidence_fields(1) by (metis (no_types, lifting) imageE subsetD)
    then show ?thesis unfolding status_def chain_usable [OF adm False] using t(2) by simp
  next
    case none: True
    show ?thesis
    proof (cases "checksAt c inputProduct chainId checks = []")
      case False
      let ?best = "bestChecks c (checksAt c inputProduct chainId checks)"
      obtain k where k: "k \<in> set ?best" and eq: "status =
        (if \<forall>l \<in> set ?best. checkState l = CheckNotCarried then KnownNotCarried (checkSourceId k) (checkCheckedAt k)
         else UnknownCoverage SourceUnavailable (Some (checkCheckedAt k)))"
        using chain_checked [OF adm none False] unfolding status_def by metis
      have in_checks: "k \<in> set checks" "currentCheck c inputProduct k"
        using k by (auto simp: bestChecks_def decidingBy_def checksAt_def)
      then obtain raw where "coverageCheckSchema raw = Some k" using chk by blast
      note f = check_fields [OF this]
      have "dateParse (checkCheckedAt k) \<le> t" "t - dateParse (checkCheckedAt k) \<le> KNOWN_NOT_CARRIED_MAX_AGE_MS"
        using in_checks(2) t(1) ctx by (auto simp: currentCheck_def admissibleContext_def)
      then show ?thesis using f t(3) by (simp add: eq)
    next
      case True
      let ?candidates = "filter (\<lambda>e. evidenceChainId e = chainId \<and> evidencePriceKind e = OrdinaryPrice
          \<and> evidenceConcernsProduct (evidenceMatch e) productId) evidence"
      have eq: "status =
        (case first_by (\<lambda>l r. js_or (staleRank c l - staleRank c r) (compareUnresolvedEvidence l r)) ?candidates of
           None \<Rightarrow> UnknownCoverage NotChecked None | Some unresolved \<Rightarrow> evidenceStatus unresolved c)"
        unfolding status_def chainStatus_def Let_def eligible_candidates [OF adm] none sort_by.simps list.case checksAt_code True ..
      show ?thesis
      proof (cases "first_by (\<lambda>l r. js_or (staleRank c l - staleRank c r) (compareUnresolvedEvidence l r)) ?candidates")
        case (Some e)
        then have "e \<in> set evidence" by (auto dest: first_by_in)
        then show ?thesis using adm evidenceStatus_admitted [OF _ ctx] by (simp add: eq Some)
      qed (simp add: eq)
    qed
  qed
qed

section \<open>Properties\<close>

text \<open>
  C24. The status of a chain. If there is usable evidence of an ordinary price for exactly this product, the most
  specific and then latest of it decides: one price is priced (by the evidence of least identifier), different prices
  for the same scope and moment are invalid evidence. Otherwise the most specific, latest current checks decide: known
  not carried, by the source of the check of least identifier, exactly when they all say so, else the source is unavailable. Otherwise,
  without any evidence of an ordinary price concerning the product the chain was not checked; and of the evidence there is, stale before
  other, latest first, then of least identifier, the first one's defect is the status.
\<close>

theorem chain_status_exact:
  assumes "\<forall>e \<in> set evidence. priceEvidenceSchema e = Some e"
  shows "let usable = usableAt c productId chainId evidence; current = checksAt c inputProduct chainId checks;
      best = set (bestEvidence c usable); deciding = set (bestChecks c current); candidates = set (concerning productId chainId evidence);
      status = chainStatus inputProduct productId evidence checks c chainId
    in (usable \<noteq> [] \<longrightarrow> status =
         (if card (evidenceAmountOre ` best) > 1
          then IneligibleCoverage (Some (Min (evidenceId ` best))) InvalidEvidence (isoNow c)
          else Priced (Min (evidenceId ` best))))
      \<and> (usable = [] \<and> current \<noteq> [] \<longrightarrow>
          (\<exists>k \<in> deciding. (\<forall>l \<in> deciding. checkCheckedAt l = checkCheckedAt k) \<and>
             (if \<forall>l \<in> deciding. checkState l = CheckNotCarried
              then checkId k = Min (checkId ` deciding) \<and> status = KnownNotCarried (checkSourceId k) (checkCheckedAt k)
              else status = UnknownCoverage SourceUnavailable (Some (checkCheckedAt k)))))
      \<and> (usable = [] \<and> current = [] \<longrightarrow> \<not> resolvedStatus status \<and>
          (if candidates = {} then status = UnknownCoverage NotChecked None
           else \<exists>e \<in> candidates. (\<forall>x \<in> candidates. explainedFirst c e x) \<and> status = defectStatus c e))"
  unfolding Let_def
proof (intro conjI impI; (elim conjE)?)
  assume "usableAt c productId chainId evidence \<noteq> []"
  from chain_usable [OF assms this] show "chainStatus inputProduct productId evidence checks c chainId =
     (if card (evidenceAmountOre ` set (bestEvidence c (usableAt c productId chainId evidence))) > 1
      then IneligibleCoverage (Some (Min (evidenceId ` set (bestEvidence c (usableAt c productId chainId evidence))))) InvalidEvidence (isoNow c)
      else Priced (Min (evidenceId ` set (bestEvidence c (usableAt c productId chainId evidence)))))" .
next
  assume none: "usableAt c productId chainId evidence = []" "checksAt c inputProduct chainId checks \<noteq> []"
  let ?deciding = "set (bestChecks c (checksAt c inputProduct chainId checks))"
  show "\<exists>k \<in> ?deciding. (\<forall>l \<in> ?deciding. checkCheckedAt l = checkCheckedAt k) \<and>
      (if \<forall>l \<in> ?deciding. checkState l = CheckNotCarried
       then checkId k = Min (checkId ` ?deciding)
         \<and> chainStatus inputProduct productId evidence checks c chainId = KnownNotCarried (checkSourceId k) (checkCheckedAt k)
       else chainStatus inputProduct productId evidence checks c chainId = UnknownCoverage SourceUnavailable (Some (checkCheckedAt k)))"
  proof (rule chain_checked [OF assms none])
    fix k assume k: "k \<in> ?deciding" and rest: "\<forall>l \<in> ?deciding. checkCheckedAt l = checkCheckedAt k"
      "chainStatus inputProduct productId evidence checks c chainId =
        (if \<forall>l \<in> ?deciding. checkState l = CheckNotCarried then KnownNotCarried (checkSourceId k) (checkCheckedAt k)
         else UnknownCoverage SourceUnavailable (Some (checkCheckedAt k)))"
      "(\<forall>l \<in> ?deciding. checkState l = CheckNotCarried) \<Longrightarrow> checkId k = Min (checkId ` ?deciding)"
    show ?thesis
    proof (rule bexI [OF _ k], rule conjI [OF rest(1)])
      show "if \<forall>l \<in> ?deciding. checkState l = CheckNotCarried
         then checkId k = Min (checkId ` ?deciding)
           \<and> chainStatus inputProduct productId evidence checks c chainId = KnownNotCarried (checkSourceId k) (checkCheckedAt k)
         else chainStatus inputProduct productId evidence checks c chainId = UnknownCoverage SourceUnavailable (Some (checkCheckedAt k))"
        unfolding rest(2) using rest(3) by (simp only: if_True if_False split: if_splits) blast
    qed
  qed
next
  assume none: "usableAt c productId chainId evidence = []" "checksAt c inputProduct chainId checks = []"
  note u = chain_unresolved [OF assms none]
  show "\<not> resolvedStatus (chainStatus inputProduct productId evidence checks c chainId)" by (rule u(1))
  show "if set (concerning productId chainId evidence) = {} then chainStatus inputProduct productId evidence checks c chainId = UnknownCoverage NotChecked None
     else \<exists>e \<in> set (concerning productId chainId evidence). (\<forall>x \<in> set (concerning productId chainId evidence). explainedFirst c e x)
       \<and> chainStatus inputProduct productId evidence checks c chainId = defectStatus c e"
    using u(2,3) by simp
qed

text \<open>
  C25. \<open>deriveComparisonScope\<close> answers for every well-formed request without contradictory duplicates, when the maximum age
  is between one millisecond and 72 hours: with one entry per expected chain, in order, complete exactly when every
  entry is resolved. The published contract admits that answer unchanged.
\<close>

theorem comparison_scope_total:
  assumes "validDerivation input" and "admissibleContext (derivationContext input)"
    and "\<forall>i \<in> set (derivationChainIds input). identifierSchema i = Some i"
    and "dedupeStrictById evidenceId (List.map_filter (parseUnknown priceEvidenceSchema) (derivationEvidence input)) = Some evidence"
    and "dedupeStrictById checkId (List.map_filter (parseUnknown coverageCheckSchema) (derivationChecks input)) = Some checks"
  shows "deriveComparisonScope input = Some
    \<lparr>scopeCompleteness = (if \<forall>e \<in> set (comparisonEntries input evidence checks). resolvedStatus (entryStatus e)
                          then CompleteComparison else PartialComparison),
     scopeEvaluatedAt = isoNow (derivationContext input), scopeExpectedChainIds = derivationChainIds input,
     scopeEntries = comparisonEntries input evidence checks\<rparr>"
proof -
  let ?entries = "comparisonEntries input evidence checks" and ?c = "derivationContext input"
  have adm: "\<forall>e \<in> set evidence. priceEvidenceSchema e = Some e"
  proof
    fix e assume "e \<in> set evidence"
    then obtain raw where "parseUnknown priceEvidenceSchema raw = Some e" using dedupe_set [OF assms(4)] by (auto simp: mem_map_filter)
    then show "priceEvidenceSchema e = Some e" by (cases raw) (auto intro: priceEvidenceSchema_idem)
  qed
  have chk: "\<forall>k \<in> set checks. \<exists>raw. coverageCheckSchema raw = Some k"
  proof
    fix k assume "k \<in> set checks"
    then obtain raw where "parseUnknown coverageCheckSchema raw = Some k" using dedupe_set [OF assms(5)] by (auto simp: mem_map_filter)
    then show "\<exists>raw. coverageCheckSchema raw = Some k" by (cases raw) auto
  qed
  have status: "coverageStatusSchema (entryStatus e) = Some (entryStatus e) \<and> currentAbsence (dateParse (isoNow ?c)) (entryStatus e)"
    and chain: "identifierSchema (entryChainId e) = Some (entryChainId e)" if "e \<in> set ?entries" for e
    using that assms(3) chainStatus_admitted [OF adm chk assms(2) refl] by (auto simp: comparisonEntries_def)
  have ids: "map entryChainId ?entries = derivationChainIds input" by (simp add: comparisonEntries_def comp_def)
  have d: "distinct (derivationChainIds input)" and len: "1 \<le> length (derivationChainIds input)"
    using assms(1) by (simp_all add: validDerivation_def Let_def Suc_le_eq)
  have "parseAll comparisonEntrySchema ?entries = Some ?entries"
    using status chain by (intro parseAll_id) (simp add: comparisonEntrySchema_def)
  moreover have "parseAll identifierSchema (derivationChainIds input) = Some (derivationChainIds input)"
    using assms(3) by (intro parseAll_id) simp
  moreover have "canonicalTimestamp (isoNow ?c)" using isoNow_canonical [OF assms(2)] by metis
  moreover have "comparisonScopeRefinement \<lparr>scopeCompleteness = (if \<forall>e \<in> set ?entries. resolvedStatus (entryStatus e)
       then CompleteComparison else PartialComparison), scopeEvaluatedAt = isoNow ?c,
       scopeExpectedChainIds = derivationChainIds input, scopeEntries = ?entries\<rparr>"
    using d status distinct_card [OF d] by (auto simp: comparisonScopeRefinement_def Let_def ids list_all_iff list_ex_iff)
  moreover have "1 \<le> length ?entries" using len by (simp add: comparisonEntries_def)
  ultimately show ?thesis
    using len unfolding deriveComparisonScope_def assms(4,5) Let_def
    by (simp add: assms(1) comparisonScopeSchema_def list_all_iff)
qed

section \<open>A concrete product\<close>

definition exampleCoverageContext :: "int \<Rightarrow> eligibility_context" where
  "exampleCoverageContext maxAgeMs =
     \<lparr>eligibilityNow = Some 1784203260000, eligibilityMaxAgeMs = maxAgeMs,
      eligibilityLocation = \<lparr>locationCountry = ''NO'', locationRegion = None, locationPostal = None, locationStore = None\<rparr>,
      eligibilitySources = [''feed''], eligibilityDirectory = None\<rparr>"

definition exampleEvidence :: "string \<Rightarrow> string \<Rightarrow> int \<Rightarrow> string \<Rightarrow> price_evidence" where
  "exampleEvidence i chainId ore observedAt =
     \<lparr>evidenceId = i, evidenceSourceId = ''feed'', evidenceRecordId = ''r'', evidenceChainId = chainId,
      evidenceMatch = ExactMatch ''product:1'', evidenceAmountOre = ore, evidencePriceKind = OrdinaryPrice,
      evidenceLevel = Authoritative, evidenceObservedAt = observedAt, evidenceValidFrom = None, evidenceValidUntil = None,
      evidenceScope = NationalScope ''NO''\<rparr>"

definition exampleCheck :: "string \<Rightarrow> coverage_check" where
  "exampleCheck checkedAt =
     \<lparr>checkId = ''c'', checkSourceId = ''feed'', checkProductId = ''product:1'', checkChainId = ''meny'', checkState = CheckNotCarried,
      checkCheckedAt = checkedAt, checkScope = NationalScope ''NO''\<rparr>"

definition exampleDerivation :: "int \<Rightarrow> derivation_input" where
  "exampleDerivation maxAgeMs =
     \<lparr>derivationProduct = ''product:1'', derivationChainIds = [''extra'', ''meny'', ''oda''],
      derivationEvidence = [Shaped (exampleEvidence ''e1'' ''extra'' 2000 ''2026-07-16T11:00:00.000Z''),
        Shaped (exampleEvidence ''e2'' ''extra'' 2000 ''2026-07-16T11:00:00.000Z''), Malformed],
      derivationChecks = [Shaped (exampleCheck ''2026-07-15T12:00:00.000Z'')], derivationContext = exampleCoverageContext maxAgeMs\<rparr>"

theorem chain_status_exact_witness:
  "chainStatus ''product:1'' ''product:1'' [exampleEvidence ''e2'' ''extra'' 2000 ''2026-07-16T11:00:00.000Z'',
      exampleEvidence ''e1'' ''extra'' 2000 ''2026-07-16T11:00:00.000Z''] [] (exampleCoverageContext 259200000) ''extra'' = Priced ''e1''
   \<and> chainStatus ''product:1'' ''product:1'' [exampleEvidence ''e3'' ''extra'' 2000 ''2026-07-01T11:00:00.000Z''] []
       (exampleCoverageContext 259200000) ''extra'' = StaleCoverage ''e3'' ''2026-07-01T11:00:00.000Z'' ''2026-07-04T11:00:00.000Z''"
proof (rule conjI)
  let ?e = "\<lambda>i. exampleEvidence i ''extra'' 2000 ''2026-07-16T11:00:00.000Z''"
  let ?c = "exampleCoverageContext 259200000"
  have adm: "\<forall>e \<in> set [?e ''e2'', ?e ''e1'']. priceEvidenceSchema e = Some e"
  proof -
    have "priceEvidenceSchema (?e ''e2'') = Some (?e ''e2'')" "priceEvidenceSchema (?e ''e1'') = Some (?e ''e1'')" by code_simp+
    then show ?thesis by simp
  qed
  have "isEligible ?c (?e ''e2'')" "isEligible ?c (?e ''e1'')" by code_simp+
  then have "usableEvidence (?e ''e2'') ?c" "usableEvidence (?e ''e1'') ?c" using adm eligible_iff by auto
  then have usable: "usableAt ?c ''product:1'' ''extra'' [?e ''e2'', ?e ''e1''] = [?e ''e2'', ?e ''e1'']"
    by (simp add: usableAt_def exampleEvidence_def)
  have best: "bestEvidence ?c [?e ''e2'', ?e ''e1''] = [?e ''e2'', ?e ''e1'']"
  proof -
    have "\<not> moreSpecific m m" for m by (cases m) simp_all
    then show ?thesis by (simp add: bestEvidence_def decidingBy_def exampleEvidence_def)
  qed
  show "chainStatus ''product:1'' ''product:1'' [?e ''e2'', ?e ''e1''] [] ?c ''extra'' = Priced ''e1''"
    using chain_status_exact [OF adm, of ?c "''product:1''" "''extra''" "''product:1''" "[]"]
    unfolding usable best Let_def by (simp add: exampleEvidence_def)
next
  let ?e = "exampleEvidence ''e3'' ''extra'' 2000 ''2026-07-01T11:00:00.000Z''" and ?c = "exampleCoverageContext 259200000"
  have fixed: "priceEvidenceSchema ?e = Some ?e" and stale: "\<not> isEligible ?c ?e"
    and says: "defectStatus ?c ?e = StaleCoverage ''e3'' ''2026-07-01T11:00:00.000Z'' ''2026-07-04T11:00:00.000Z''" by code_simp+
  have "usableAt ?c ''product:1'' ''extra'' [?e] = []" using stale eligible_iff [OF fixed] by (simp add: usableAt_def)
  moreover have "concerning ''product:1'' ''extra'' [?e] = [?e]" by (simp add: concerning_def exampleEvidence_def)
  ultimately show "chainStatus ''product:1'' ''product:1'' [?e] [] ?c ''extra'' =
      StaleCoverage ''e3'' ''2026-07-01T11:00:00.000Z'' ''2026-07-04T11:00:00.000Z''"
    using chain_status_exact [of "[?e]" ?c "''product:1''" "''extra''" "''product:1''" "[]"] fixed says
    by (simp add: checksAt_def Let_def)
qed

theorem comparison_scope_total_witness:
  "map_option (map entryStatus \<circ> scopeEntries) (deriveComparisonScope (exampleDerivation 259200000)) =
     Some [Priced ''e1'', KnownNotCarried ''feed'' ''2026-07-15T12:00:00.000Z'', UnknownCoverage NotChecked None]"
proof -
  let ?d = "exampleDerivation 259200000"
  have v: "validDerivation ?d" by code_simp
  have c: "admissibleContext (derivationContext ?d)"
    by (simp add: admissibleContext_def exampleDerivation_def exampleCoverageContext_def MIN_CANONICAL_MS_def
        MAX_CANONICAL_MS_def KNOWN_NOT_CARRIED_MAX_AGE_MS_def)
  have i: "\<forall>i \<in> set (derivationChainIds ?d). identifierSchema i = Some i"
  proof -
    have "list_all (\<lambda>i. identifierSchema i = Some i) (derivationChainIds ?d)" by code_simp
    then show ?thesis by (simp add: list_all_iff)
  qed
  have e: "dedupeStrictById evidenceId (List.map_filter (parseUnknown priceEvidenceSchema) (derivationEvidence ?d)) =
      Some [exampleEvidence ''e1'' ''extra'' 2000 ''2026-07-16T11:00:00.000Z'', exampleEvidence ''e2'' ''extra'' 2000 ''2026-07-16T11:00:00.000Z'']"
    by code_simp
  have k: "dedupeStrictById checkId (List.map_filter (parseUnknown coverageCheckSchema) (derivationChecks ?d)) =
      Some [exampleCheck ''2026-07-15T12:00:00.000Z'']" by code_simp
  have "map entryStatus (comparisonEntries ?d [exampleEvidence ''e1'' ''extra'' 2000 ''2026-07-16T11:00:00.000Z'',
        exampleEvidence ''e2'' ''extra'' 2000 ''2026-07-16T11:00:00.000Z''] [exampleCheck ''2026-07-15T12:00:00.000Z'']) =
     [Priced ''e1'', KnownNotCarried ''feed'' ''2026-07-15T12:00:00.000Z'', UnknownCoverage NotChecked None]" by code_simp
  then show ?thesis using comparison_scope_total [OF v c i e k] by simp
qed

text \<open>
  Outside those ages the answer may be lost: with a maximum age of zero one stale price (stale at the very moment it was
  observed), and with more than 72 hours one older check, makes the whole comparison \<open>null\<close>.
\<close>

lemma zero_age_loses_comparison: "deriveComparisonScope (exampleDerivation 0) = None"
  by code_simp

lemma long_age_loses_comparison:
  "deriveComparisonScope ((exampleDerivation 864000000)\<lparr>derivationChecks := [Shaped (exampleCheck ''2026-07-10T12:00:00.000Z'')]\<rparr>) = None"
  by code_simp

end
