(* ===== verification/History.thy ===== *)
theory History
  imports Coverage Matching
begin

text \<open>
  \<open>packages/domain/src/history.ts\<close>: the claim that a current price is below the median of the last 30 days, derived from
  visible evidence and verified by deriving it again. \<open>localeCompare\<close> is a parameter (\<open>host\<close>). The literal
  \<open>kind\<close> and \<open>baselineMethod\<close> are left out. A value that makes the refinement throw (a baseline of 0 with a negative price, whose
  fields fail their bounds, divides by zero) is refused like any other: \<open>None\<close>.
\<close>

definition THIRTY_DAYS_MS :: int where
  "THIRTY_DAYS_MS = 30 * 24 * 60 * 60 * 1000"

definition MAX_CURRENT_EVIDENCE_AGE_MS :: int where
  "MAX_CURRENT_EVIDENCE_AGE_MS = 72 * 60 * 60 * 1000"

definition calculateBasisPoints :: "int \<Rightarrow> int \<Rightarrow> int" where
  "calculateBasisPoints savingsOre baselineOre = (savingsOre * 10000) div baselineOre"

section \<open>The comparison\<close>

record historical_comparison =
  historyId :: string
  historyProductId :: string
  historyChainId :: string
  historyEvidenceId :: string
  historyBaselineOre :: int
  historyCurrentOre :: int
  historySavingsOre :: int
  historyBasisPoints :: int
  historyObservationDays :: int
  historyWindowStartsAt :: string
  historyWindowEndsAt :: string
  historyDerivedAt :: string
  historySourceIds :: "string list"

definition historicalComparisonRefinement :: "historical_comparison \<Rightarrow> bool" where
  "historicalComparisonRefinement r \<longleftrightarrow>
     (let windowStartsAt = dateParse (historyWindowStartsAt r); windowEndsAt = dateParse (historyWindowEndsAt r);
          derivedAt = dateParse (historyDerivedAt r); expectedSavings = historyBaselineOre r - historyCurrentOre r
      in \<not> windowEndsAt - windowStartsAt \<noteq> THIRTY_DAYS_MS \<and> \<not> derivedAt < windowEndsAt
         \<and> \<not> derivedAt - windowEndsAt > MAX_CURRENT_EVIDENCE_AGE_MS
         \<and> \<not> historyCurrentOre r \<ge> historyBaselineOre r
         \<and> \<not> historySavingsOre r \<noteq> expectedSavings
         \<and> \<not> historyBasisPoints r \<noteq> calculateBasisPoints expectedSavings (historyBaselineOre r)
         \<and> hasUniqueStrings (historySourceIds r)
         \<and> \<not> int (length (historySourceIds r)) < historyObservationDays r
         \<and> historyEvidenceId r \<notin> set (historySourceIds r))"

definition historicalComparisonSchema :: "historical_comparison \<Rightarrow> historical_comparison option" where
  "historicalComparisonSchema r =
     (case (identifierSchema (historyId r), identifierSchema (historyProductId r), identifierSchema (historyChainId r),
            identifierSchema (historyEvidenceId r), parseAll identifierSchema (historySourceIds r)) of
        (Some i, Some p, Some c, Some e, Some sources) \<Rightarrow>
          (let parsed = r\<lparr>historyId := i, historyProductId := p, historyChainId := c, historyEvidenceId := e,
                          historySourceIds := sources\<rparr>
           in if positiveSafeInteger (historyBaselineOre r) \<and> moneyOreSchema (historyCurrentOre r)
                 \<and> moneyOreSchema (historySavingsOre r) \<and> basisPoints (historyBasisPoints r)
                 \<and> 7 \<le> historyObservationDays r \<and> historyObservationDays r \<le> 31
                 \<and> canonicalTimestamp (historyWindowStartsAt r) \<and> canonicalTimestamp (historyWindowEndsAt r)
                 \<and> canonicalTimestamp (historyDerivedAt r) \<and> 7 \<le> length sources
                 \<and> historicalComparisonRefinement parsed
              then Some parsed else None)
      | _ \<Rightarrow> None)"

section \<open>Derivation\<close>

record history_eligibility =
  historyMaxAgeMs :: int
  historyEnabledSources :: "string list"
  historyLocation :: geographic_context
  historyDirectory :: "directory_evidence option"

record history_input =
  historyComparisonId :: string
  historyCurrent :: "price_evidence unknown"
  historyEvidence :: "price_evidence unknown list"
  historyNow :: date
  historyEligibility :: "history_eligibility option"

definition calculateMedianOre :: "price_evidence list \<Rightarrow> int" where
  "calculateMedianOre evidence =
     (let amounts = sort_by (\<lambda>l r. l - r) (map evidenceAmountOre evidence); upperIndex = length amounts div 2
      in if length amounts mod 2 = 1 then amounts ! upperIndex
         else (amounts ! (upperIndex - 1) + amounts ! upperIndex) div 2)"

definition compareEvidenceOrder :: "host \<Rightarrow> price_evidence \<Rightarrow> price_evidence \<Rightarrow> int" where
  "compareEvidenceOrder h left right =
     js_or (localeCompare h (evidenceObservedAt left) (evidenceObservedAt right))
       (localeCompare h (evidenceId left) (evidenceId right))"

fun geographicScopeFingerprint :: "geographic_scope \<Rightarrow> string" where
  "geographicScopeFingerprint (NationalScope cc) = ''national:'' @ cc"
| "geographicScopeFingerprint (RegionsScope cc codes) =
     ''regions:'' @ cc @ '':'' @ joinText '','' (sort_by compareText codes)"
| "geographicScopeFingerprint (PostalSetScope cc codes) =
     ''postal-set:'' @ cc @ '':'' @ joinText '','' (sort_by compareText codes)"
| "geographicScopeFingerprint (StoresScope ids) = ''stores:'' @ joinText '','' (sort_by compareText ids)"
| "geographicScopeFingerprint (UnknownScope reason) = ''unknown:'' @ reason"

text \<open>The loop over the candidates; \<open>None\<close> is its early return.\<close>

fun collectHistory ::
    "price_evidence unknown list \<Rightarrow> (string \<times> price_evidence) list \<Rightarrow> (string \<times> price_evidence) list option" where
  "collectHistory [] seen = Some seen"
| "collectHistory (candidate # rest) seen =
     (case parseUnknown priceEvidenceSchema candidate of
        None \<Rightarrow> collectHistory rest seen
      | Some evidence \<Rightarrow>
          (case map_of seen (evidenceId evidence) of
             Some previous \<Rightarrow> if previous \<noteq> evidence then None else collectHistory rest seen
           | None \<Rightarrow> collectHistory rest (AList.update (evidenceId evidence) evidence seen)))"

definition historyContext :: "history_eligibility \<Rightarrow> date \<Rightarrow> int \<Rightarrow> eligibility_context" where
  "historyContext e now maxAgeMs =
     \<lparr>eligibilityNow = now, eligibilityMaxAgeMs = maxAgeMs, eligibilityLocation = historyLocation e,
      eligibilitySources = historyEnabledSources e, eligibilityDirectory = historyDirectory e\<rparr>"

definition isBaselineEvidence ::
    "history_eligibility \<Rightarrow> price_evidence \<Rightarrow> string \<Rightarrow> int \<Rightarrow> int \<Rightarrow> price_evidence \<Rightarrow> bool" where
  "isBaselineEvidence eligibility current productId windowStartsAtMs windowEndsAtMs evidence \<longleftrightarrow>
     (if evidenceId evidence = evidenceId current \<or> evidenceMatch evidence \<noteq> ExactMatch productId
         \<or> evidenceChainId evidence \<noteq> evidenceChainId current \<or> evidenceSourceId evidence \<noteq> evidenceSourceId current
         \<or> geographicScopeFingerprint (evidenceScope evidence) \<noteq> geographicScopeFingerprint (evidenceScope current)
         \<or> evidencePriceKind evidence \<noteq> OrdinaryPrice \<or> evidenceLevel evidence = AmbiguousLevel then False
      else
        (let observedAtMs = dateParse (evidenceObservedAt evidence)
         in isEligible (historyContext eligibility (Some observedAtMs) 0) evidence
            \<and> observedAtMs \<ge> windowStartsAtMs \<and> observedAtMs < windowEndsAtMs))"

definition baselineEvidence ::
    "host \<Rightarrow> history_eligibility \<Rightarrow> price_evidence \<Rightarrow> string \<Rightarrow> price_evidence list \<Rightarrow> price_evidence list" where
  "baselineEvidence h eligibility current productId unique =
     (let windowEndsAtMs = dateParse (evidenceObservedAt current); windowStartsAtMs = windowEndsAtMs - THIRTY_DAYS_MS
      in sort_by (compareEvidenceOrder h)
           (filter (isBaselineEvidence eligibility current productId windowStartsAtMs windowEndsAtMs) unique))"

definition observationDays :: "price_evidence list \<Rightarrow> string list" where
  "observationDays evidence = uniq (map (\<lambda>e. take 10 (evidenceObservedAt e)) evidence)"

text \<open>The claim computed from the baseline, from line 321 on.\<close>

definition claimFrom ::
    "string \<Rightarrow> string \<Rightarrow> price_evidence \<Rightarrow> price_evidence list \<Rightarrow> int \<Rightarrow> historical_comparison option" where
  "claimFrom comparisonId productId current baseline nowMs =
     (let days = length (observationDays baseline); baselineOre = calculateMedianOre baseline;
          windowStartsAtMs = dateParse (evidenceObservedAt current) - THIRTY_DAYS_MS
      in if days < 7 then None
         else if baselineOre \<le> 0 \<or> evidenceAmountOre current \<ge> baselineOre then None
         else
           (let savingsOre = baselineOre - evidenceAmountOre current
            in historicalComparisonSchema
              \<lparr>historyId = comparisonId, historyProductId = productId, historyChainId = evidenceChainId current,
               historyEvidenceId = evidenceId current, historyBaselineOre = baselineOre,
               historyCurrentOre = evidenceAmountOre current, historySavingsOre = savingsOre,
               historyBasisPoints = calculateBasisPoints savingsOre baselineOre, historyObservationDays = int days,
               historyWindowStartsAt = toISOString windowStartsAtMs, historyWindowEndsAt = evidenceObservedAt current,
               historyDerivedAt = toISOString nowMs, historySourceIds = map evidenceId baseline\<rparr>))"

definition deriveHistoricalComparison :: "host \<Rightarrow> history_input \<Rightarrow> historical_comparison option" where
  "deriveHistoricalComparison h input =
     (case (identifierSchema (historyComparisonId input), parseUnknown priceEvidenceSchema (historyCurrent input),
            historyNow input, historyEligibility input) of
        (Some comparisonId, Some current, Some nowMs, Some eligibility) \<Rightarrow>
          (if \<not> isSafeInt (historyMaxAgeMs eligibility) \<or> historyMaxAgeMs eligibility < 0
              \<or> historyMaxAgeMs eligibility > MAX_CURRENT_EVIDENCE_AGE_MS then None
           else if \<not> isEligible (historyContext eligibility (Some nowMs) (historyMaxAgeMs eligibility)) current then None
           else (case evidenceMatch current of
               AmbiguousMatch _ \<Rightarrow> None
             | ExactMatch productId \<Rightarrow>
                 if evidencePriceKind current \<noteq> OrdinaryPrice \<or> evidenceLevel current = AmbiguousLevel then None
                 else if dateParse (evidenceObservedAt current) > nowMs then None
                 else (case collectHistory (historyEvidence input) [(evidenceId current, current)] of
                     None \<Rightarrow> None
                   | Some unique \<Rightarrow>
                       claimFrom comparisonId productId current
                         (baselineEvidence h eligibility current productId (map snd unique)) nowMs)))
      | _ \<Rightarrow> None)"

definition historicalComparisonMatchesEvidence :: "host \<Rightarrow> historical_comparison unknown \<Rightarrow> history_input \<Rightarrow> bool" where
  "historicalComparisonMatchesEvidence h comparison input \<longleftrightarrow>
     (case parseUnknown historicalComparisonSchema comparison of
        None \<Rightarrow> False
      | Some parsed \<Rightarrow>
          deriveHistoricalComparison h (input\<lparr>historyComparisonId := historyId parsed\<rparr>) = Some parsed)"

section \<open>Instants and days\<close>

lemma toISOString_range:
  assumes "canonicalTimestamp (toISOString t)"
  shows "MIN_CANONICAL_MS \<le> t" "t \<le> MAX_CANONICAL_MS"
proof -
  define n where "n = t div 86400000 + 719528"
  have len: "length (toISOString t) = 20 + length (yearText (yearOfDay n))"
    by (simp add: toISOString_def Let_def n_def)
  have "length (yearText (yearOfDay n)) = 4"
    using assms len by (simp add: canonicalTimestamp_def)
  then have y: "0 \<le> yearOfDay n" "yearOfDay n \<le> 9999" by (auto simp: yearText_def split: if_splits)
  have "daysBeforeYear 0 \<le> daysBeforeYear (yearOfDay n)" "daysBeforeYear (yearOfDay n + 1) \<le> daysBeforeYear 10000"
    using daysBeforeYear_mono [of "-1" "yearOfDay n"] daysBeforeYear_mono [of "yearOfDay n" 10000] y by simp_all
  moreover have "daysBeforeYear 0 = 0" "daysBeforeYear 10000 = 3652425" by (simp_all add: daysBeforeYear_def)
  ultimately have "0 \<le> n" "n < 3652425" using yearOfDay_bounds [of n] by linarith+
  then show "MIN_CANONICAL_MS \<le> t" "t \<le> MAX_CANONICAL_MS"
    by (simp_all add: n_def MIN_CANONICAL_MS_def MAX_CANONICAL_MS_def)
qed

lemma canonical_iso_iff: "canonicalTimestamp (toISOString t) \<longleftrightarrow> MIN_CANONICAL_MS \<le> t \<and> t \<le> MAX_CANONICAL_MS"
  using toISOString_range dateParse_toISOString by blast

text \<open>The day of an instant, the first ten characters of its text.\<close>

definition dayText :: "int \<Rightarrow> string" where
  "dayText n = take 10 (toISOString (n * 86400000))"

lemma day_of_timestamp:
  assumes "canonicalTimestamp s"
  shows "take 10 s = dayText (dateParse s div 86400000)"
proof -
  have *: "take 10 (toISOString t) = dayText (t div 86400000)" for t
    by (simp add: dayText_def toISOString_def Let_def take_append yearText_def)
  show ?thesis using * [of "dateParse s"] toISOString_dateParse [OF assms] by simp
qed

text \<open>A window of 30 times 24 hours touches at most 31 days.\<close>

lemma window_days:
  assumes "finite S" and window: "\<And>s. s \<in> S \<Longrightarrow> canonicalTimestamp s \<and> w - THIRTY_DAYS_MS \<le> dateParse s \<and> dateParse s < w"
  shows "card (take 10 ` S) \<le> 31"
proof -
  let ?lo = "(w - THIRTY_DAYS_MS) div 86400000"
  have "take 10 ` S \<subseteq> dayText ` {?lo .. ?lo + 30}"
  proof
    fix d assume "d \<in> take 10 ` S"
    then obtain s where s: "s \<in> S" "d = take 10 s" by blast
    have "?lo \<le> dateParse s div 86400000" using window [OF s(1)] by (intro zdiv_mono1) auto
    moreover have "dateParse s div 86400000 \<le> ?lo + 30"
    proof -
      have "dateParse s div 86400000 \<le> w div 86400000" using window [OF s(1)] by (intro zdiv_mono1) auto
      also have "w = (w - THIRTY_DAYS_MS) + 30 * 86400000" by (simp add: THIRTY_DAYS_MS_def)
      finally show ?thesis by simp
    qed
    ultimately show "d \<in> dayText ` {?lo .. ?lo + 30}" using day_of_timestamp [of s] window [OF s(1)] s(2) by auto
  qed
  then have "card (take 10 ` S) \<le> card (dayText ` {?lo .. ?lo + 30})" by (intro card_mono) auto
  also have "\<dots> \<le> card {?lo .. ?lo + 30}" by (rule card_image_le) simp
  finally show ?thesis by simp
qed

section \<open>The median\<close>

text \<open>The median of a collection of amounts, rounded down: the middle of the sorted amounts.\<close>

definition medianOf :: "int multiset \<Rightarrow> int" where
  "medianOf M = (let xs = sorted_list_of_multiset M; n = length xs
     in (xs ! ((n - 1) div 2) + xs ! (n div 2)) div 2)"

lemma sort_numbers: "sort_by (\<lambda>l r. l - r) xs = sort xs" for xs :: "int list"
proof -
  have "comparator (\<lambda>l r. l - r :: int)" by (rule comparator_minus_key [of "\<lambda>x. x"])
  then have "sorted_wrt (\<lambda>x y. x - y \<le> 0) (sort_by (\<lambda>l r. l - r) xs)" by (rule comparator.sorted_sort_by)
  then have "sorted (sort_by (\<lambda>l r. l - r) xs)" by (simp add: sorted_wrt_iff_nth_less)
  then show ?thesis by (metis mset_sort_by properties_for_sort)
qed

lemma calculateMedianOre_medianOf:
  assumes "evidence \<noteq> []"
  shows "calculateMedianOre evidence = medianOf (image_mset evidenceAmountOre (mset evidence))"
proof -
  let ?n = "length evidence"
  have "sorted_list_of_multiset (image_mset evidenceAmountOre (mset evidence)) = sort (map evidenceAmountOre evidence)"
    by (metis mset_map sorted_list_of_multiset_mset)
  moreover have "(?n - 1) div 2 = (if ?n mod 2 = 1 then ?n div 2 else ?n div 2 - 1)"
  proof -
    have "0 < ?n" using assms by simp
    then show ?thesis by presburger
  qed
  ultimately show ?thesis
    by (simp add: calculateMedianOre_def medianOf_def sort_numbers Let_def)
qed

text \<open>At least half of the amounts are at most, and at least half at least, the median.\<close>

lemma median_halves:
  assumes "M \<noteq> {#}"
  shows "size M \<le> 2 * size (filter_mset (\<lambda>x. x \<le> medianOf M) M)"
    and "size M \<le> 2 * size (filter_mset (\<lambda>x. medianOf M \<le> x) M)"
    and "\<exists>x \<in># M. medianOf M \<le> x" and "\<exists>x \<in># M. x \<le> medianOf M"
proof -
  define xs where "xs = sorted_list_of_multiset M"
  define n where "n = length xs"
  have xs: "mset xs = M" "sorted xs" by (simp_all add: xs_def)
  have n: "0 < n" using assms xs by (cases xs) (auto simp: n_def)
  let ?lo = "xs ! ((n - 1) div 2)" and ?hi = "xs ! (n div 2)"
  have m: "medianOf M = (?lo + ?hi) div 2" by (simp add: medianOf_def xs_def n_def Let_def)
  have "(n - 1) div 2 \<le> n div 2" "n div 2 < n" using n by auto
  then have le: "?lo \<le> ?hi" using xs(2) by (intro sorted_nth_mono) (auto simp: n_def)
  have between: "?lo \<le> medianOf M" "medianOf M \<le> ?hi" using le by (simp_all add: m)
  have size: "size M = n" using xs(1) size_mset [of xs] by (simp add: n_def)
  have count: "size (filter_mset P M) = card {i. i < n \<and> P (xs ! i)}" for P
    using xs(1) by (metis mset_filter length_filter_conv_card n_def size_mset)
  have "{i. i \<le> (n - 1) div 2} \<subseteq> {i. i < n \<and> xs ! i \<le> medianOf M}"
  proof
    fix i assume "i \<in> {i. i \<le> (n - 1) div 2}"
    then have i: "i \<le> (n - 1) div 2" "(n - 1) div 2 < n" using n by auto
    then have "xs ! i \<le> ?lo" "i < n" using xs(2) by (auto intro!: sorted_nth_mono simp: n_def)
    then show "i \<in> {i. i < n \<and> xs ! i \<le> medianOf M}" using between by simp
  qed
  then have "card {i. i \<le> (n - 1) div 2} \<le> card {i. i < n \<and> xs ! i \<le> medianOf M}" by (intro card_mono) auto
  then show "size M \<le> 2 * size (filter_mset (\<lambda>x. x \<le> medianOf M) M)"
    using n unfolding count size by simp
  have "{i. n div 2 \<le> i \<and> i < n} \<subseteq> {i. i < n \<and> medianOf M \<le> xs ! i}"
  proof
    fix i assume "i \<in> {i. n div 2 \<le> i \<and> i < n}"
    then have "?hi \<le> xs ! i" "i < n" using xs(2) by (auto intro!: sorted_nth_mono simp: n_def)
    then show "i \<in> {i. i < n \<and> medianOf M \<le> xs ! i}" using between by simp
  qed
  then have "card {i. n div 2 \<le> i \<and> i < n} \<le> card {i. i < n \<and> medianOf M \<le> xs ! i}" by (intro card_mono) auto
  moreover have "{i. n div 2 \<le> i \<and> i < n} = {n div 2 ..< n}" by auto
  then have "card {i. n div 2 \<le> i \<and> i < n} = n - n div 2" by simp
  ultimately show "size M \<le> 2 * size (filter_mset (\<lambda>x. medianOf M \<le> x) M)"
    unfolding count size by linarith
  have "(n - 1) div 2 < n" "n div 2 < n" using n by linarith+
  then have "?hi \<in> set xs" "?lo \<in> set xs" unfolding n_def by (auto intro: nth_mem)
  moreover have "set xs = set_mset M" using xs(1) set_mset_mset [of xs] by simp
  ultimately show "\<exists>x \<in># M. medianOf M \<le> x" "\<exists>x \<in># M. x \<le> medianOf M" using between by blast+
qed

section \<open>The evidence behind a claim\<close>

definition parsedHistory :: "history_input \<Rightarrow> price_evidence set" where
  "parsedHistory input = set (List.map_filter (parseUnknown priceEvidenceSchema) (historyEvidence input))"

definition oneValuePerId :: "price_evidence set \<Rightarrow> bool" where
  "oneValuePerId S \<longleftrightarrow> (\<forall>e \<in> S. \<forall>f \<in> S. evidenceId e = evidenceId f \<longrightarrow> e = f)"

lemma parseUnknown_evidence_idem: "parseUnknown priceEvidenceSchema raw = Some e \<Longrightarrow> priceEvidenceSchema e = Some e"
  by (cases raw) (auto dest: priceEvidenceSchema_idem)

lemma parsedHistory_fixed: "e \<in> parsedHistory input \<Longrightarrow> priceEvidenceSchema e = Some e"
  by (auto simp: parsedHistory_def mem_map_filter dest: parseUnknown_evidence_idem)

definition keyedById :: "(string \<times> price_evidence) list \<Rightarrow> bool" where
  "keyedById seen \<longleftrightarrow> distinct (map fst seen) \<and> (\<forall>(i, e) \<in> set seen. i = evidenceId e)"

lemma keyedById_lookup: "keyedById seen \<Longrightarrow> map_of seen i = Some e \<longleftrightarrow> e \<in> snd ` set seen \<and> i = evidenceId e"
  by (force simp: keyedById_def map_of_eq_Some_iff image_iff)

lemma keyedById_one: "keyedById seen \<Longrightarrow> oneValuePerId (snd ` set seen)"
  unfolding oneValuePerId_def by (metis keyedById_lookup option.inject)

lemma keyedById_update:
  assumes "keyedById seen" and "map_of seen (evidenceId e) = None"
  shows "keyedById (AList.update (evidenceId e) e seen)" "snd ` set (AList.update (evidenceId e) e seen) = insert e (snd ` set seen)"
proof -
  have "AList.update (evidenceId e) e seen = seen @ [(evidenceId e, e)]"
    using assms(2) by (intro update_fresh) (simp add: map_of_eq_None_iff)
  then show "keyedById (AList.update (evidenceId e) e seen)" "snd ` set (AList.update (evidenceId e) e seen) = insert e (snd ` set seen)"
    using assms by (auto simp: keyedById_def map_of_eq_None_iff)
qed

lemma collectHistory_outcome:
  assumes "keyedById seen"
  shows "case collectHistory raws seen of
      None \<Rightarrow> \<not> oneValuePerId (snd ` set seen \<union> set (List.map_filter (parseUnknown priceEvidenceSchema) raws))
    | Some result \<Rightarrow> keyedById result
        \<and> snd ` set result = snd ` set seen \<union> set (List.map_filter (parseUnknown priceEvidenceSchema) raws)"
  using assms
proof (induction raws arbitrary: seen)
  case (Cons raw raws)
  show ?case
  proof (cases "parseUnknown priceEvidenceSchema raw")
    case None
    then show ?thesis using Cons.IH [OF Cons.prems] by (simp add: map_filter_simps split: option.splits)
  next
    case (Some e)
    show ?thesis
    proof (cases "map_of seen (evidenceId e)")
      case None
      from Cons.IH [OF keyedById_update(1) [OF Cons.prems None]] keyedById_update(2) [OF Cons.prems None] Some None
      show ?thesis by (simp add: map_filter_simps split: option.splits)
    next
      case prev: (Some f)
      then have f: "f \<in> snd ` set seen" "evidenceId e = evidenceId f" using keyedById_lookup [OF Cons.prems] by auto
      show ?thesis
      proof (cases "f = e")
        case True
        have "snd ` set seen \<union> set (List.map_filter (parseUnknown priceEvidenceSchema) (raw # raws)) =
            snd ` set seen \<union> set (List.map_filter (parseUnknown priceEvidenceSchema) raws)"
        proof -
          have "e \<in> snd ` set seen" using f(1) True by (simp only:)
          moreover have "set (List.map_filter (parseUnknown priceEvidenceSchema) (raw # raws)) =
              insert e (set (List.map_filter (parseUnknown priceEvidenceSchema) raws))" using Some by (simp add: map_filter_simps)
          ultimately show ?thesis by blast
        qed
        moreover have "collectHistory (raw # raws) seen = collectHistory raws seen" using Some prev True by simp
        ultimately show ?thesis using Cons.IH [OF Cons.prems] by (simp only:)
      next
        case False
        then have "\<not> oneValuePerId (snd ` set seen \<union> set (List.map_filter (parseUnknown priceEvidenceSchema) (raw # raws)))"
          using f Some unfolding oneValuePerId_def by (auto simp: map_filter_simps)
        with Some prev False show ?thesis by simp
      qed
    qed
  qed
qed (simp add: List.map_filter_def)

lemma collectHistory_current:
  "collectHistory (historyEvidence input) [(evidenceId current, current)] = None
     \<longleftrightarrow> \<not> oneValuePerId (insert current (parsedHistory input))"
  "collectHistory (historyEvidence input) [(evidenceId current, current)] = Some unique
     \<Longrightarrow> keyedById unique \<and> snd ` set unique = insert current (parsedHistory input)"
proof -
  have *: "keyedById [(evidenceId current, current)]" by (simp add: keyedById_def)
  note o = collectHistory_outcome [OF *, of "historyEvidence input", folded parsedHistory_def]
  show "collectHistory (historyEvidence input) [(evidenceId current, current)] = Some unique
     \<Longrightarrow> keyedById unique \<and> snd ` set unique = insert current (parsedHistory input)" using o by simp
  show "collectHistory (historyEvidence input) [(evidenceId current, current)] = None
     \<longleftrightarrow> \<not> oneValuePerId (insert current (parsedHistory input))"
  proof (cases "collectHistory (historyEvidence input) [(evidenceId current, current)]")
    case (Some result)
    with o have "keyedById result" "snd ` set result = insert current (parsedHistory input)" by simp_all
    with keyedById_one [of result] Some show ?thesis by simp
  qed (use o in simp)
qed

text \<open>The baseline as a set: the comparable observations of the 30 days before the current one.\<close>

definition baselineOf :: "history_input \<Rightarrow> history_eligibility \<Rightarrow> price_evidence \<Rightarrow> string \<Rightarrow> price_evidence set" where
  "baselineOf input eligibility current productId =
     {e \<in> parsedHistory input. evidenceId e \<noteq> evidenceId current \<and> evidenceMatch e = ExactMatch productId
        \<and> evidenceChainId e = evidenceChainId current \<and> evidenceSourceId e = evidenceSourceId current
        \<and> geographicScopeFingerprint (evidenceScope e) = geographicScopeFingerprint (evidenceScope current)
        \<and> evidencePriceKind e = OrdinaryPrice
        \<and> usableEvidence e (historyContext eligibility (Some (dateParse (evidenceObservedAt e))) 0)
        \<and> dateParse (evidenceObservedAt current) - THIRTY_DAYS_MS \<le> dateParse (evidenceObservedAt e)
        \<and> dateParse (evidenceObservedAt e) < dateParse (evidenceObservedAt current)}"

lemma baselineEvidence_set:
  assumes "priceEvidenceSchema current = Some current"
    and "collectHistory (historyEvidence input) [(evidenceId current, current)] = Some unique"
  shows "set (baselineEvidence h eligibility current productId (map snd unique)) = baselineOf input eligibility current productId"
    and "distinct (map evidenceId (baselineEvidence h eligibility current productId (map snd unique)))"
proof -
  note u = collectHistory_current(2) [OF assms(2)]
  have fixed: "priceEvidenceSchema e = Some e" if "e \<in> snd ` set unique" for e
    using that u assms(1) parsedHistory_fixed by auto
  have level: "usableEvidence e c \<Longrightarrow> evidenceLevel e \<noteq> AmbiguousLevel" for e c by (simp add: usableEvidence_def)
  show "set (baselineEvidence h eligibility current productId (map snd unique)) = baselineOf input eligibility current productId"
    using u by (auto simp: baselineEvidence_def baselineOf_def isBaselineEvidence_def Let_def eligible_iff fixed
        split: if_splits dest: level)
  have "map evidenceId (map snd unique) = map fst unique" using u by (auto simp: keyedById_def)
  then have "distinct (map evidenceId (map snd unique))" using u by (simp only: keyedById_def)
  then show "distinct (map evidenceId (baselineEvidence h eligibility current productId (map snd unique)))"
    by (simp add: baselineEvidence_def Let_def distinct_map_filter del: map_map)
qed

section \<open>The claim\<close>

lemma evidence_shape:
  assumes "priceEvidenceSchema e = Some e"
  shows "identifierSchema (evidenceChainId e) = Some (evidenceChainId e)" "moneyOreSchema (evidenceAmountOre e)"
    "evidenceMatch e = ExactMatch p \<Longrightarrow> identifierSchema p = Some p"
proof -
  obtain i s r k m g where p: "identifierSchema (evidenceChainId e) = Some k" "evidenceProductMatchSchema (evidenceMatch e) = Some m"
    "moneyOreSchema (evidenceAmountOre e)" and eq: "e = e\<lparr>evidenceId := i, evidenceSourceId := s,
      evidenceRecordId := r, evidenceChainId := k, evidenceMatch := m, evidenceScope := g\<rparr>"
    using assms unfolding priceEvidenceSchema_iff by blast
  have "evidenceChainId e = k" "evidenceMatch e = m"
    using arg_cong [OF eq, of evidenceChainId] arg_cong [OF eq, of evidenceMatch] by simp_all
  with p show "identifierSchema (evidenceChainId e) = Some (evidenceChainId e)" "moneyOreSchema (evidenceAmountOre e)"
    "evidenceMatch e = ExactMatch p \<Longrightarrow> identifierSchema p = Some p"
    by auto
qed

definition baselineDays :: "price_evidence set \<Rightarrow> string set" where
  "baselineDays B = (\<lambda>e. take 10 (evidenceObservedAt e)) ` B"

definition baselineMedian :: "price_evidence set \<Rightarrow> int" where
  "baselineMedian B = medianOf (image_mset evidenceAmountOre (mset_set B))"

lemma basis_points_bounds:
  assumes "0 < savings" and "savings \<le> baseline"
  shows "0 \<le> calculateBasisPoints savings baseline" "calculateBasisPoints savings baseline \<le> 10000"
    "calculateBasisPoints savings baseline * baseline \<le> savings * 10000"
    "savings * 10000 < (calculateBasisPoints savings baseline + 1) * baseline"
proof -
  have b: "0 < baseline" using assms by simp
  show "0 \<le> calculateBasisPoints savings baseline"
    using assms b by (simp add: calculateBasisPoints_def pos_imp_zdiv_nonneg_iff)
  have "savings * 10000 \<le> 10000 * baseline" using assms by simp
  then have "(savings * 10000) div baseline \<le> (10000 * baseline) div baseline" using b by (intro zdiv_mono1)
  then show "calculateBasisPoints savings baseline \<le> 10000" using b by (simp add: calculateBasisPoints_def)
  have eq: "calculateBasisPoints savings baseline * baseline + (savings * 10000) mod baseline = savings * 10000"
    by (simp add: calculateBasisPoints_def)
  have "0 \<le> (savings * 10000) mod baseline" "(savings * 10000) mod baseline < baseline" using b by simp_all
  with eq show "calculateBasisPoints savings baseline * baseline \<le> savings * 10000"
    "savings * 10000 < (calculateBasisPoints savings baseline + 1) * baseline" by (simp_all add: distrib_right)
qed

lemma historicalComparisonSchema_fixed:
  assumes "identifierSchema (historyId r) = Some (historyId r)" "identifierSchema (historyProductId r) = Some (historyProductId r)"
    "identifierSchema (historyChainId r) = Some (historyChainId r)" "identifierSchema (historyEvidenceId r) = Some (historyEvidenceId r)"
    "\<And>i. i \<in> set (historySourceIds r) \<Longrightarrow> identifierSchema i = Some i"
  shows "historicalComparisonSchema r =
    (if positiveSafeInteger (historyBaselineOre r) \<and> moneyOreSchema (historyCurrentOre r)
                 \<and> moneyOreSchema (historySavingsOre r) \<and> basisPoints (historyBasisPoints r)
                 \<and> 7 \<le> historyObservationDays r \<and> historyObservationDays r \<le> 31
                 \<and> canonicalTimestamp (historyWindowStartsAt r) \<and> canonicalTimestamp (historyWindowEndsAt r)
                 \<and> canonicalTimestamp (historyDerivedAt r) \<and> 7 \<le> length (historySourceIds r)
                 \<and> historicalComparisonRefinement r
     then Some r else None)"
proof -
  have "parseAll identifierSchema (historySourceIds r) = Some (historySourceIds r)"
    using assms(5) by (intro parseAll_id)
  then show ?thesis using assms(1-4) by (simp add: historicalComparisonSchema_def Let_def)
qed

text \<open>The claim that follows from a baseline.\<close>

definition claimOf :: "string \<Rightarrow> string \<Rightarrow> price_evidence \<Rightarrow> price_evidence list \<Rightarrow> int \<Rightarrow> historical_comparison" where
  "claimOf comparisonId productId current baseline t =
     (let median = baselineMedian (set baseline); savings = median - evidenceAmountOre current
      in \<lparr>historyId = comparisonId, historyProductId = productId, historyChainId = evidenceChainId current,
          historyEvidenceId = evidenceId current, historyBaselineOre = median, historyCurrentOre = evidenceAmountOre current,
          historySavingsOre = savings, historyBasisPoints = calculateBasisPoints savings median,
          historyObservationDays = int (card (baselineDays (set baseline))),
          historyWindowStartsAt = toISOString (dateParse (evidenceObservedAt current) - THIRTY_DAYS_MS),
          historyWindowEndsAt = evidenceObservedAt current, historyDerivedAt = toISOString t,
          historySourceIds = map evidenceId baseline\<rparr>)"

definition claimPossible :: "price_evidence \<Rightarrow> price_evidence set \<Rightarrow> int \<Rightarrow> bool" where
  "claimPossible current B t \<longleftrightarrow>
     7 \<le> card (baselineDays B) \<and> evidenceAmountOre current < baselineMedian B
     \<and> MIN_CANONICAL_MS \<le> dateParse (evidenceObservedAt current) - THIRTY_DAYS_MS \<and> t \<le> MAX_CANONICAL_MS"

lemma claimFrom_iff:
  assumes comparison: "identifierSchema comparisonId = Some comparisonId"
    and current: "priceEvidenceSchema current = Some current" "evidenceMatch current = ExactMatch productId"
      "dateParse (evidenceObservedAt current) \<le> t" "t \<le> dateParse (evidenceObservedAt current) + MAX_CURRENT_EVIDENCE_AGE_MS"
    and fixed: "\<And>e. e \<in> set baseline \<Longrightarrow> priceEvidenceSchema e = Some e"
    and window: "\<And>e. e \<in> set baseline \<Longrightarrow> dateParse (evidenceObservedAt current) - THIRTY_DAYS_MS \<le> dateParse (evidenceObservedAt e)
        \<and> dateParse (evidenceObservedAt e) < dateParse (evidenceObservedAt current)"
    and other: "\<And>e. e \<in> set baseline \<Longrightarrow> evidenceId e \<noteq> evidenceId current"
    and ids: "distinct (map evidenceId baseline)"
  shows "claimFrom comparisonId productId current baseline t =
     (if claimPossible current (set baseline) t then Some (claimOf comparisonId productId current baseline t) else None)"
proof -
  let ?B = "set baseline" and ?r = "claimOf comparisonId productId current baseline t"
  have days: "length (observationDays baseline) = card (baselineDays ?B)"
    by (simp add: observationDays_def baselineDays_def)
  show ?thesis
  proof (cases "7 \<le> card (baselineDays ?B) \<and> evidenceAmountOre current < baselineMedian ?B")
    case False
    have "baseline \<noteq> [] \<Longrightarrow> calculateMedianOre baseline = baselineMedian ?B"
      using ids by (simp add: calculateMedianOre_medianOf baselineMedian_def mset_set_set distinct_map)
    with False show ?thesis by (cases "baseline = []") (auto simp: claimFrom_def claimPossible_def days Let_def baselineDays_def observationDays_def)
  next
    case True
    then have ne: "baseline \<noteq> []" by (auto simp: baselineDays_def)
    have median: "calculateMedianOre baseline = baselineMedian ?B"
      using ids ne by (simp add: calculateMedianOre_medianOf baselineMedian_def mset_set_set distinct_map)
    obtain e where e: "e \<in> ?B" "baselineMedian ?B \<le> evidenceAmountOre e"
      using median_halves(3) [of "image_mset evidenceAmountOre (mset_set ?B)"] ne by (auto simp: baselineMedian_def mset_set_empty_iff)
    have money: "0 \<le> evidenceAmountOre current" "evidenceAmountOre e \<le> MAX_PERSISTED_MONEY_ORE"
      "MAX_PERSISTED_MONEY_ORE \<le> MAX_SAFE_INTEGER"
      using evidence_shape(2) [OF current(1)] evidence_shape(2) [OF fixed [OF e(1)]] by (auto simp: moneyOreSchema_def MAX_SAFE_INTEGER_def MAX_PERSISTED_MONEY_ORE_def)
    have bounds: "baselineMedian ?B \<le> MAX_SAFE_INTEGER" "evidenceAmountOre current \<le> MAX_PERSISTED_MONEY_ORE"
      "baselineMedian ?B - evidenceAmountOre current \<le> MAX_PERSISTED_MONEY_ORE"
      using e(2) money True by linarith+
    have positive: "\<not> baselineMedian ?B \<le> 0" using True money by simp
    have savings: "0 < baselineMedian ?B - evidenceAmountOre current" "baselineMedian ?B - evidenceAmountOre current \<le> baselineMedian ?B"
      using True money by simp_all
    have step: "claimFrom comparisonId productId current baseline t = historicalComparisonSchema ?r"
      using True positive by (simp add: claimFrom_def days median Let_def claimOf_def)
    have "card (take 10 ` evidenceObservedAt ` ?B) \<le> 31"
      using window evidence_fields(2) [OF fixed] by (intro window_days [of _ "dateParse (evidenceObservedAt current)"]) auto
    then have upper: "card (baselineDays ?B) \<le> 31" by (simp add: baselineDays_def image_image)
    have many: "card (baselineDays ?B) \<le> length baseline"
      using card_image_le [of ?B "\<lambda>e. take 10 (evidenceObservedAt e)"] card_length [of baseline] by (simp add: baselineDays_def)
    have range: "MIN_CANONICAL_MS \<le> t" "dateParse (evidenceObservedAt current) - THIRTY_DAYS_MS \<le> MAX_CANONICAL_MS"
      using current(3) dateParse_range [OF evidence_fields(2) [OF current(1)]] by (simp_all add: THIRTY_DAYS_MS_def)
    have shape: "historicalComparisonSchema ?r =
      (if positiveSafeInteger (historyBaselineOre ?r) \<and> moneyOreSchema (historyCurrentOre ?r)
                 \<and> moneyOreSchema (historySavingsOre ?r) \<and> basisPoints (historyBasisPoints ?r)
                 \<and> 7 \<le> historyObservationDays ?r \<and> historyObservationDays ?r \<le> 31
                 \<and> canonicalTimestamp (historyWindowStartsAt ?r) \<and> canonicalTimestamp (historyWindowEndsAt ?r)
                 \<and> canonicalTimestamp (historyDerivedAt ?r) \<and> 7 \<le> length (historySourceIds ?r)
                 \<and> historicalComparisonRefinement ?r
       then Some ?r else None)"
      using comparison evidence_fields(1) [OF current(1)] evidence_fields(1) [OF fixed] evidence_shape(1,3) [OF current(1)] current(2)
      by (intro historicalComparisonSchema_fixed) (auto simp: claimOf_def Let_def)
    let ?start = "toISOString (dateParse (evidenceObservedAt current) - THIRTY_DAYS_MS)" and ?at = "toISOString t"
    have "historicalComparisonSchema ?r = (if canonicalTimestamp ?start \<and> canonicalTimestamp ?at then Some ?r else None)"
    proof (cases "canonicalTimestamp ?start \<and> canonicalTimestamp ?at")
      case c: True
      then have "dateParse ?start = dateParse (evidenceObservedAt current) - THIRTY_DAYS_MS" "dateParse ?at = t"
        using dateParse_toISOString toISOString_range by blast+
      moreover have "evidenceId current \<notin> evidenceId ` ?B" using other by fastforce
      ultimately have "historicalComparisonRefinement ?r"
        using True many ids current(3,4) by (simp add: historicalComparisonRefinement_def claimOf_def Let_def)
      then show ?thesis
        using shape c True upper many money bounds savings basis_points_bounds(1,2) [OF savings] evidence_fields(2) [OF current(1)]
        by (simp add: claimOf_def Let_def positiveSafeInteger_def moneyOreSchema_def basisPoints_def)
    next
      case False
      moreover have "historyWindowStartsAt ?r = ?start" "historyDerivedAt ?r = ?at" by (simp_all add: claimOf_def Let_def)
      ultimately show ?thesis unfolding shape by auto
    qed
    then show ?thesis
      using step True range by (simp add: claimPossible_def canonical_iso_iff)
  qed
qed

text \<open>What a claim rests on: well-formed input, a usable current price and no two different observations with one identifier.\<close>

definition claimBasis :: "history_input \<Rightarrow> string \<Rightarrow> price_evidence \<Rightarrow> string \<Rightarrow> int \<Rightarrow> history_eligibility \<Rightarrow> bool" where
  "claimBasis input comparisonId current productId t eligibility \<longleftrightarrow>
     identifierSchema (historyComparisonId input) = Some comparisonId
     \<and> parseUnknown priceEvidenceSchema (historyCurrent input) = Some current
     \<and> historyNow input = Some t \<and> historyEligibility input = Some eligibility
     \<and> historyMaxAgeMs eligibility \<le> MAX_CURRENT_EVIDENCE_AGE_MS
     \<and> usableEvidence current (historyContext eligibility (Some t) (historyMaxAgeMs eligibility))
     \<and> evidenceMatch current = ExactMatch productId \<and> evidencePriceKind current = OrdinaryPrice
     \<and> oneValuePerId (insert current (parsedHistory input))"

lemma claimBasis_times:
  assumes "claimBasis input comparisonId current productId t eligibility"
  shows "priceEvidenceSchema current = Some current" "dateParse (evidenceObservedAt current) \<le> t"
    "t \<le> dateParse (evidenceObservedAt current) + MAX_CURRENT_EVIDENCE_AGE_MS"
  using assms by (auto simp: claimBasis_def usableEvidence_def historyContext_def dest: parseUnknown_evidence_idem)

lemma derive_needs_basis:
  assumes "deriveHistoricalComparison h input = Some r"
  shows "\<exists>comparisonId current productId t eligibility. claimBasis input comparisonId current productId t eligibility"
proof -
  obtain comparisonId current t eligibility productId where
    p: "identifierSchema (historyComparisonId input) = Some comparisonId"
      "parseUnknown priceEvidenceSchema (historyCurrent input) = Some current" "historyNow input = Some t"
      "historyEligibility input = Some eligibility" "historyMaxAgeMs eligibility \<le> MAX_CURRENT_EVIDENCE_AGE_MS"
      "isEligible (historyContext eligibility (Some t) (historyMaxAgeMs eligibility)) current"
      "evidenceMatch current = ExactMatch productId" "evidencePriceKind current = OrdinaryPrice"
      "collectHistory (historyEvidence input) [(evidenceId current, current)] \<noteq> None"
    using assms by (auto simp: deriveHistoricalComparison_def split: option.splits if_splits product_match.splits)
  then have "claimBasis input comparisonId current productId t eligibility"
    using eligible_iff [OF parseUnknown_evidence_idem [OF p(2)]] collectHistory_current(1) [of input current]
    by (simp add: claimBasis_def)
  then show ?thesis by blast
qed

text \<open>The baseline in the order of the claim's sources.\<close>

definition claimBaseline :: "host \<Rightarrow> history_input \<Rightarrow> history_eligibility \<Rightarrow> price_evidence \<Rightarrow> string \<Rightarrow> price_evidence list" where
  "claimBaseline h input eligibility current productId =
     baselineEvidence h eligibility current productId
       (map snd (the (collectHistory (historyEvidence input) [(evidenceId current, current)])))"

lemma derive_on_basis:
  assumes basis: "claimBasis input comparisonId current productId t eligibility"
  shows "set (claimBaseline h input eligibility current productId) = baselineOf input eligibility current productId"
    and "distinct (map evidenceId (claimBaseline h input eligibility current productId))"
    and "deriveHistoricalComparison h input =
       (if claimPossible current (baselineOf input eligibility current productId) t
        then Some (claimOf comparisonId productId current (claimBaseline h input eligibility current productId) t) else None)"
proof -
  note times = claimBasis_times [OF basis]
  let ?baseline = "claimBaseline h input eligibility current productId"
  have "collectHistory (historyEvidence input) [(evidenceId current, current)] \<noteq> None"
    using basis collectHistory_current(1) [of input current] by (simp add: claimBasis_def)
  then obtain unique where unique: "collectHistory (historyEvidence input) [(evidenceId current, current)] = Some unique" by blast
  then have baseline: "?baseline = baselineEvidence h eligibility current productId (map snd unique)" by (simp add: claimBaseline_def)
  show set: "set ?baseline = baselineOf input eligibility current productId" "distinct (map evidenceId ?baseline)"
    unfolding baseline by (rule baselineEvidence_set [OF times(1) unique])+
  have "deriveHistoricalComparison h input = claimFrom comparisonId productId current ?baseline t"
    using basis times(2) unique eligible_iff [OF times(1)] unfolding baseline
    by (simp add: claimBasis_def deriveHistoricalComparison_def usableEvidence_def historyContext_def)
  moreover have "identifierSchema comparisonId = Some comparisonId" "evidenceMatch current = ExactMatch productId"
    using basis by (auto simp: claimBasis_def dest: identifierSchema_idem)
  moreover have "priceEvidenceSchema e = Some e" "evidenceId e \<noteq> evidenceId current"
    "dateParse (evidenceObservedAt current) - THIRTY_DAYS_MS \<le> dateParse (evidenceObservedAt e)
        \<and> dateParse (evidenceObservedAt e) < dateParse (evidenceObservedAt current)" if "e \<in> set ?baseline" for e
    using that parsedHistory_fixed unfolding set(1) by (auto simp: baselineOf_def)
  ultimately show "deriveHistoricalComparison h input =
       (if claimPossible current (baselineOf input eligibility current productId) t
        then Some (claimOf comparisonId productId current ?baseline t) else None)"
    using claimFrom_iff [of comparisonId current productId t ?baseline] times set by simp
qed

lemma derived_on_basis:
  assumes "deriveHistoricalComparison h input = Some r"
  obtains comparisonId current productId t eligibility where "claimBasis input comparisonId current productId t eligibility"
    "claimPossible current (baselineOf input eligibility current productId) t"
    "r = claimOf comparisonId productId current (claimBaseline h input eligibility current productId) t"
proof -
  obtain comparisonId current productId t eligibility where
    b: "claimBasis input comparisonId current productId t eligibility" using derive_needs_basis [OF assms] by blast
  from derive_on_basis(3) [OF b, of h] assms that [OF b] show thesis by (simp split: if_splits)
qed

lemma derive_other_id:
  assumes "deriveHistoricalComparison h input = Some r" and "identifierSchema i = Some i"
  shows "deriveHistoricalComparison h (input\<lparr>historyComparisonId := i\<rparr>) = Some (r\<lparr>historyId := i\<rparr>)"
proof -
  obtain comparisonId current productId t eligibility where b: "claimBasis input comparisonId current productId t eligibility"
    "claimPossible current (baselineOf input eligibility current productId) t"
    "r = claimOf comparisonId productId current (claimBaseline h input eligibility current productId) t"
    using assms(1) by (rule derived_on_basis)
  have same: "parsedHistory (input\<lparr>historyComparisonId := i\<rparr>) = parsedHistory input"
    "baselineOf (input\<lparr>historyComparisonId := i\<rparr>) = baselineOf input"
    "claimBaseline h (input\<lparr>historyComparisonId := i\<rparr>) = claimBaseline h input"
    by (simp_all add: parsedHistory_def baselineOf_def claimBaseline_def fun_eq_iff)
  have "claimBasis (input\<lparr>historyComparisonId := i\<rparr>) i current productId t eligibility"
    using b(1) assms(2) by (simp add: claimBasis_def same)
  from derive_on_basis(3) [OF this, of h] b(2,3) show ?thesis by (simp add: same claimOf_def Let_def)
qed

lemma median_cards:
  assumes "finite B" and "B \<noteq> {}"
  shows "card B \<le> 2 * card {e \<in> B. evidenceAmountOre e \<le> baselineMedian B}"
    "card B \<le> 2 * card {e \<in> B. baselineMedian B \<le> evidenceAmountOre e}"
proof -
  have size: "size (filter_mset P (image_mset evidenceAmountOre (mset_set B))) = card {e \<in> B. P (evidenceAmountOre e)}" for P
    using assms(1) by (simp add: filter_mset_image_mset filter_mset_mset_set)
  have "image_mset evidenceAmountOre (mset_set B) \<noteq> {#}" using assms by (simp add: mset_set_empty_iff)
  from median_halves(1,2) [OF this] show "card B \<le> 2 * card {e \<in> B. evidenceAmountOre e \<le> baselineMedian B}"
    "card B \<le> 2 * card {e \<in> B. baselineMedian B \<le> evidenceAmountOre e}"
    unfolding size baselineMedian_def [symmetric] by simp_all
qed

lemma claim_facts:
  assumes basis: "claimBasis input comparisonId current productId t eligibility"
    and possible: "claimPossible current (baselineOf input eligibility current productId) t"
    and B_def: "B = baselineOf input eligibility current productId"
    and r_def: "r = claimOf comparisonId productId current (claimBaseline h input eligibility current productId) t"
  shows "distinct (historySourceIds r)" "set (historySourceIds r) = evidenceId ` B" "length (historySourceIds r) = card B"
    "historyBaselineOre r = baselineMedian B"
    "card B \<le> 2 * card {e \<in> B. evidenceAmountOre e \<le> historyBaselineOre r}"
    "card B \<le> 2 * card {e \<in> B. historyBaselineOre r \<le> evidenceAmountOre e}"
    "historyCurrentOre r = evidenceAmountOre current"
    "historySavingsOre r = historyBaselineOre r - evidenceAmountOre current" "0 < historySavingsOre r"
    "historyBasisPoints r * historyBaselineOre r \<le> historySavingsOre r * 10000"
    "historySavingsOre r * 10000 < (historyBasisPoints r + 1) * historyBaselineOre r"
    "historyObservationDays r = int (card (baselineDays B))" "7 \<le> card (baselineDays B)" "card (baselineDays B) \<le> 31"
    "dateParse (historyWindowEndsAt r) = dateParse (evidenceObservedAt current)"
    "dateParse (historyWindowStartsAt r) = dateParse (evidenceObservedAt current) - THIRTY_DAYS_MS"
    "dateParse (historyDerivedAt r) = t" "t \<le> dateParse (historyWindowEndsAt r) + MAX_CURRENT_EVIDENCE_AGE_MS"
    "historyId r = comparisonId" "historyProductId r = productId" "historyChainId r = evidenceChainId current"
    "historyEvidenceId r = evidenceId current" "historyEvidenceId r \<notin> set (historySourceIds r)"
proof -
  note times = claimBasis_times [OF basis]
  note baseline = derive_on_basis(1,2) [OF basis, of h, folded B_def]
  have set: "B = set (claimBaseline h input eligibility current productId)" by (simp only: baseline)
  note p = possible [folded B_def, unfolded claimPossible_def]
  have fixed: "priceEvidenceSchema e = Some e" if "e \<in> B" for e using that parsedHistory_fixed by (auto simp: B_def baselineOf_def)
  have fields: "historyBaselineOre r = baselineMedian B" "historySavingsOre r = baselineMedian B - evidenceAmountOre current"
    "historyBasisPoints r = calculateBasisPoints (baselineMedian B - evidenceAmountOre current) (baselineMedian B)"
    "historySourceIds r = map evidenceId (claimBaseline h input eligibility current productId)"
    "historyWindowEndsAt r = evidenceObservedAt current" "historyDerivedAt r = toISOString t"
    "historyWindowStartsAt r = toISOString (dateParse (evidenceObservedAt current) - THIRTY_DAYS_MS)"
    by (simp_all add: r_def claimOf_def Let_def set)
  show "historyCurrentOre r = evidenceAmountOre current" "historyObservationDays r = int (card (baselineDays B))"
    "historyId r = comparisonId" "historyProductId r = productId" "historyChainId r = evidenceChainId current"
    "historyEvidenceId r = evidenceId current"
    by (simp_all add: r_def claimOf_def Let_def set)
  have "evidenceId current \<notin> evidenceId ` B" by (auto simp: B_def baselineOf_def)
  moreover have sources: "set (historySourceIds r) = evidenceId ` B" by (simp add: fields set)
  ultimately show "historyEvidenceId r \<notin> set (historySourceIds r)"
    using \<open>historyEvidenceId r = evidenceId current\<close> by (simp only: simp_thms)
  show "historyBaselineOre r = baselineMedian B" "7 \<le> card (baselineDays B)" using p fields by simp_all
  show "distinct (historySourceIds r)" "set (historySourceIds r) = evidenceId ` B" using baseline by (simp_all add: fields)
  show "length (historySourceIds r) = card B"
    using distinct_card [of "claimBaseline h input eligibility current productId"] baseline(2) by (simp add: fields set distinct_map)
  have Bfin: "finite B" "B \<noteq> {}" using p by (auto simp: set baselineDays_def)
  from median_cards [OF Bfin] show "card B \<le> 2 * card {e \<in> B. evidenceAmountOre e \<le> historyBaselineOre r}"
    "card B \<le> 2 * card {e \<in> B. historyBaselineOre r \<le> evidenceAmountOre e}" unfolding fields .
  have "card (take 10 ` evidenceObservedAt ` B) \<le> 31"
    using Bfin(1) evidence_fields(2) [OF fixed] by (intro window_days [of _ "dateParse (evidenceObservedAt current)"])
      (auto simp: B_def baselineOf_def)
  then show "card (baselineDays B) \<le> 31" by (simp add: baselineDays_def image_image)
  have "0 \<le> evidenceAmountOre current" using evidence_shape(2) [OF times(1)] by (simp add: moneyOreSchema_def)
  then have s: "0 < historySavingsOre r" "historySavingsOre r \<le> historyBaselineOre r" using p by (simp_all add: fields)
  then show "0 < historySavingsOre r" "historySavingsOre r = historyBaselineOre r - evidenceAmountOre current"
    "historyBasisPoints r * historyBaselineOre r \<le> historySavingsOre r * 10000"
    "historySavingsOre r * 10000 < (historyBasisPoints r + 1) * historyBaselineOre r"
    using basis_points_bounds [OF s] by (simp_all add: fields)
  have range: "MIN_CANONICAL_MS \<le> t" "dateParse (evidenceObservedAt current) - THIRTY_DAYS_MS \<le> MAX_CANONICAL_MS"
    using times(2) dateParse_range [OF evidence_fields(2) [OF times(1)]] by (simp_all add: THIRTY_DAYS_MS_def)
  then show "dateParse (historyWindowStartsAt r) = dateParse (evidenceObservedAt current) - THIRTY_DAYS_MS"
    "dateParse (historyDerivedAt r) = t" using p dateParse_toISOString by (simp_all add: fields)
  show "dateParse (historyWindowEndsAt r) = dateParse (evidenceObservedAt current)"
    "t \<le> dateParse (historyWindowEndsAt r) + MAX_CURRENT_EVIDENCE_AGE_MS" using times(3) by (simp_all add: fields)
qed

lemma historicalComparisonSchema_idem:
  assumes "historicalComparisonSchema x = Some r"
  shows "historicalComparisonSchema r = Some r" "identifierSchema (historyId r) = Some (historyId r)"
proof -
  obtain i p c e sources where ids: "identifierSchema (historyId x) = Some i" "identifierSchema (historyProductId x) = Some p"
      "identifierSchema (historyChainId x) = Some c" "identifierSchema (historyEvidenceId x) = Some e"
      "parseAll identifierSchema (historySourceIds x) = Some sources"
    and r: "r = x\<lparr>historyId := i, historyProductId := p, historyChainId := c, historyEvidenceId := e, historySourceIds := sources\<rparr>"
    using assms by (auto simp: historicalComparisonSchema_def Let_def split: option.splits if_splits)
  show id: "identifierSchema (historyId r) = Some (historyId r)" using ids(1) r by (auto dest: identifierSchema_idem)
  have "identifierSchema j = Some j" if "j \<in> set (historySourceIds r)" for j
    using parseAll_in [OF ids(5), of j] that r by (auto dest: identifierSchema_idem)
  then show "historicalComparisonSchema r = Some r"
    using assms ids r id by (subst historicalComparisonSchema_fixed)
      (auto simp: historicalComparisonSchema_def Let_def split: if_splits dest: identifierSchema_idem)
qed

lemma derived_parses: "deriveHistoricalComparison h input = Some r \<Longrightarrow> \<exists>x. historicalComparisonSchema x = Some r"
  by (auto simp: deriveHistoricalComparison_def claimFrom_def Let_def split: option.splits if_splits product_match.splits)

section \<open>Properties\<close>

text \<open>
  C26. A claim is derived exactly when there is a basis for one: at least seven days of comparable observations in the 30
  days before a usable current price, whose median lies above it, and a window and an instant that print as timestamps.
  The checks of the result's own schema (unique sources, at most 31 days, basis points of at most 10000) never reject it.
\<close>

theorem historical_claim_exists:
  "deriveHistoricalComparison h input \<noteq> None \<longleftrightarrow>
     (\<exists>comparisonId current productId t eligibility. claimBasis input comparisonId current productId t eligibility
        \<and> claimPossible current (baselineOf input eligibility current productId) t)"
proof
  assume "deriveHistoricalComparison h input \<noteq> None"
  then obtain r where r: "deriveHistoricalComparison h input = Some r" by blast
  then obtain comparisonId current productId t eligibility where
    b: "claimBasis input comparisonId current productId t eligibility" using derive_needs_basis by blast
  with derive_on_basis(3) [OF b, of h] r show "\<exists>comparisonId current productId t eligibility.
      claimBasis input comparisonId current productId t eligibility
        \<and> claimPossible current (baselineOf input eligibility current productId) t"
    by (metis option.distinct(1))
next
  assume "\<exists>comparisonId current productId t eligibility. claimBasis input comparisonId current productId t eligibility
        \<and> claimPossible current (baselineOf input eligibility current productId) t"
  then obtain comparisonId current productId t eligibility where
    b: "claimBasis input comparisonId current productId t eligibility"
    and p: "claimPossible current (baselineOf input eligibility current productId) t" by blast
  from derive_on_basis(3) [OF b, of h] p show "deriveHistoricalComparison h input \<noteq> None" by simp
qed

text \<open>
  C27. What a derived claim says is true of the evidence: its sources are exactly the comparable observations of the window,
  its baseline is their median (at least half of them cost at most that, at least half at least that), the current price
  is below it, the savings and basis points are those of the two prices rounded down, and the window is the 30 days up to a
  current price that is at most 72 hours old.
\<close>

theorem historical_claim_sound:
  assumes "deriveHistoricalComparison h input = Some r"
  shows "\<exists>comparisonId current productId t eligibility. claimBasis input comparisonId current productId t eligibility
    \<and> (let B = baselineOf input eligibility current productId; median = historyBaselineOre r; savings = historySavingsOre r
       in distinct (historySourceIds r) \<and> set (historySourceIds r) = evidenceId ` B \<and> length (historySourceIds r) = card B
        \<and> median = baselineMedian B
        \<and> card B \<le> 2 * card {e \<in> B. evidenceAmountOre e \<le> median} \<and> card B \<le> 2 * card {e \<in> B. median \<le> evidenceAmountOre e}
        \<and> historyCurrentOre r = evidenceAmountOre current \<and> savings = median - evidenceAmountOre current \<and> 0 < savings
        \<and> historyBasisPoints r * median \<le> savings * 10000 \<and> savings * 10000 < (historyBasisPoints r + 1) * median
        \<and> historyObservationDays r = int (card (baselineDays B)) \<and> 7 \<le> card (baselineDays B) \<and> card (baselineDays B) \<le> 31
        \<and> dateParse (historyWindowEndsAt r) = dateParse (evidenceObservedAt current)
        \<and> dateParse (historyWindowStartsAt r) = dateParse (evidenceObservedAt current) - THIRTY_DAYS_MS
        \<and> dateParse (historyDerivedAt r) = t \<and> t \<le> dateParse (historyWindowEndsAt r) + MAX_CURRENT_EVIDENCE_AGE_MS
        \<and> historyId r = comparisonId \<and> historyProductId r = productId \<and> historyChainId r = evidenceChainId current
        \<and> historyEvidenceId r = evidenceId current \<and> historyEvidenceId r \<notin> set (historySourceIds r))"
proof -
  obtain comparisonId current productId t eligibility where b: "claimBasis input comparisonId current productId t eligibility"
    and possible: "claimPossible current (baselineOf input eligibility current productId) t"
    and r: "r = claimOf comparisonId productId current (claimBaseline h input eligibility current productId) t"
    using assms by (rule derived_on_basis)
  let ?B = "baselineOf input eligibility current productId"
  note facts = claim_facts [OF b possible refl r]
  show ?thesis
    unfolding Let_def by (intro exI conjI; (rule b | rule facts))
qed

text \<open>
  C28. A claim that was derived verifies against the same evidence, and the claims that verify against that evidence are
  just those that parse to it, under whatever identifier.
\<close>

theorem historical_claim_verifies:
  assumes "deriveHistoricalComparison h input = Some r"
  shows "historicalComparisonMatchesEvidence h (Shaped r) input
    \<and> (\<forall>claim. historicalComparisonMatchesEvidence h claim input
        \<longleftrightarrow> (\<exists>i. parseUnknown historicalComparisonSchema claim = Some (r\<lparr>historyId := i\<rparr>)))"
proof -
  have other: "deriveHistoricalComparison h (input\<lparr>historyComparisonId := i\<rparr>) = Some (r\<lparr>historyId := i\<rparr>)"
    if "identifierSchema i = Some i" for i using derive_other_id [OF assms that] .
  have parsed: "identifierSchema (historyId p) = Some (historyId p)" if "parseUnknown historicalComparisonSchema claim = Some p" for claim p
    using that by (cases claim) (auto dest: historicalComparisonSchema_idem)
  have matches: "historicalComparisonMatchesEvidence h claim input
        \<longleftrightarrow> (\<exists>i. parseUnknown historicalComparisonSchema claim = Some (r\<lparr>historyId := i\<rparr>))" for claim
  proof (cases "parseUnknown historicalComparisonSchema claim")
    case (Some p)
    then have "historicalComparisonMatchesEvidence h claim input \<longleftrightarrow> p = r\<lparr>historyId := historyId p\<rparr>"
      using other [OF parsed [OF Some]] by (auto simp: historicalComparisonMatchesEvidence_def)
    moreover have "(\<exists>i. p = r\<lparr>historyId := i\<rparr>) \<longleftrightarrow> p = r\<lparr>historyId := historyId p\<rparr>" by (cases p; cases r) auto
    ultimately show ?thesis using Some by simp
  qed (simp add: historicalComparisonMatchesEvidence_def)
  moreover have "historicalComparisonSchema r = Some (r\<lparr>historyId := historyId r\<rparr>)"
  proof -
    obtain x where "historicalComparisonSchema x = Some r" using derived_parses [OF assms] by blast
    then show ?thesis using historicalComparisonSchema_idem by simp
  qed
  ultimately show ?thesis by (metis parseUnknown.simps(2))
qed

section \<open>An example\<close>

definition textHost :: host where
  "textHost = \<lparr>localeLower = (\<lambda>s. s), localeCompare = compareText, numberText = (\<lambda>q. [])\<rparr>"

definition exampleHistory :: "(string \<times> string \<times> int) list \<Rightarrow> history_input" where
  "exampleHistory observations =
     \<lparr>historyComparisonId = ''claim'', historyCurrent = Shaped (exampleEvidence ''now'' ''extra'' 1500 ''2026-07-16T11:00:00.000Z''),
      historyEvidence = Malformed # map (\<lambda>(i, day, ore). Shaped (exampleEvidence i ''extra'' ore (''2026-07-'' @ day @ ''T09:00:00.000Z''))) observations,
      historyNow = Some 1784203260000,
      historyEligibility = Some \<lparr>historyMaxAgeMs = 86400000, historyEnabledSources = [''feed''],
        historyLocation = \<lparr>locationCountry = ''NO'', locationRegion = None, locationPostal = None, locationStore = None\<rparr>,
        historyDirectory = None\<rparr>\<rparr>"

definition exampleObservations :: "(string \<times> string \<times> int) list" where
  "exampleObservations = [(''g'', ''15'', 1900), (''a'', ''02'', 2200), (''b'', ''03'', 2000), (''c'', ''04'', 1800), (''c'', ''04'', 1800), (''d'', ''06'', 2101),
     (''e'', ''08'', 1700), (''f'', ''11'', 2000), (''old'', ''16'', 9900)]"

definition exampleClaim :: historical_comparison where
  "exampleClaim =
     \<lparr>historyId = ''claim'', historyProductId = ''product:1'', historyChainId = ''extra'', historyEvidenceId = ''now'',
      historyBaselineOre = 2000, historyCurrentOre = 1500, historySavingsOre = 500, historyBasisPoints = 2500,
      historyObservationDays = 8, historyWindowStartsAt = ''2026-06-16T11:00:00.000Z'',
      historyWindowEndsAt = ''2026-07-16T11:00:00.000Z'', historyDerivedAt = ''2026-07-16T12:01:00.000Z'',
      historySourceIds = [''a'', ''b'', ''c'', ''d'', ''e'', ''f'', ''g'', ''old'']\<rparr>"

abbreviation (input) exampleCurrent :: price_evidence where
  "exampleCurrent \<equiv> exampleEvidence ''now'' ''extra'' 1500 ''2026-07-16T11:00:00.000Z''"

definition exampleObservation :: "string \<times> string \<times> int \<Rightarrow> price_evidence" where
  "exampleObservation = (\<lambda>(i, day, ore). exampleEvidence i ''extra'' ore (''2026-07-'' @ day @ ''T09:00:00.000Z''))"

lemma example_unique:
  "collectHistory (historyEvidence (exampleHistory exampleObservations)) [(''now'', exampleCurrent)] =
     Some ((''now'', exampleCurrent) # map (\<lambda>e. (evidenceId e, e)) (map exampleObservation (remdups exampleObservations)))"
  by code_simp

lemma example_baseline:
  "baselineEvidence textHost (the (historyEligibility (exampleHistory []))) exampleCurrent ''product:1''
      (exampleCurrent # map exampleObservation (remdups exampleObservations)) =
   map exampleObservation (sort_by (\<lambda>x y. compareText (fst (snd x)) (fst (snd y))) (remdups exampleObservations))"
  by code_simp

lemma example_claim:
  "claimFrom ''claim'' ''product:1'' exampleCurrent
     (map exampleObservation (sort_by (\<lambda>x y. compareText (fst (snd x)) (fst (snd y))) (remdups exampleObservations))) 1784203260000 =
   Some exampleClaim"
  by code_simp

lemma derive_by_steps:
  assumes "identifierSchema (historyComparisonId input) = Some comparisonId"
    and "parseUnknown priceEvidenceSchema (historyCurrent input) = Some current" and "historyNow input = Some t"
    and "historyEligibility input = Some eligibility"
    and "isSafeInt (historyMaxAgeMs eligibility)" "0 \<le> historyMaxAgeMs eligibility" "historyMaxAgeMs eligibility \<le> MAX_CURRENT_EVIDENCE_AGE_MS"
    and "isEligible (historyContext eligibility (Some t) (historyMaxAgeMs eligibility)) current"
    and "evidenceMatch current = ExactMatch productId" "evidencePriceKind current = OrdinaryPrice" "evidenceLevel current \<noteq> AmbiguousLevel"
    and "dateParse (evidenceObservedAt current) \<le> t"
    and "collectHistory (historyEvidence input) [(evidenceId current, current)] = Some unique"
    and "baselineEvidence h eligibility current productId (map snd unique) = baseline"
    and "claimFrom comparisonId productId current baseline t = Some r"
  shows "deriveHistoricalComparison h input = Some r"
  using assms by (simp add: deriveHistoricalComparison_def)

lemma example_derived: "deriveHistoricalComparison textHost (exampleHistory exampleObservations) = Some exampleClaim"
proof (rule derive_by_steps)
  show "collectHistory (historyEvidence (exampleHistory exampleObservations)) [(evidenceId exampleCurrent, exampleCurrent)] =
     Some ((''now'', exampleCurrent) # map (\<lambda>e. (evidenceId e, e)) (map exampleObservation (remdups exampleObservations)))"
    using example_unique by (simp only: exampleEvidence_def price_evidence.simps)
  have "map snd ((''now'', exampleCurrent) # map (\<lambda>e. (evidenceId e, e)) es) = exampleCurrent # es" for es
    by (induction es) auto
  then show "baselineEvidence textHost (the (historyEligibility (exampleHistory []))) exampleCurrent ''product:1''
      (map snd ((''now'', exampleCurrent) # map (\<lambda>e. (evidenceId e, e)) (map exampleObservation (remdups exampleObservations)))) =
   map exampleObservation (sort_by (\<lambda>x y. compareText (fst (snd x)) (fst (snd y))) (remdups exampleObservations))"
    using example_baseline by (simp only:)
  show "claimFrom ''claim'' ''product:1'' exampleCurrent
     (map exampleObservation (sort_by (\<lambda>x y. compareText (fst (snd x)) (fst (snd y))) (remdups exampleObservations))) 1784203260000 =
   Some exampleClaim" by (rule example_claim)
  show "historyEligibility (exampleHistory exampleObservations) = Some (the (historyEligibility (exampleHistory [])))"
    "historyNow (exampleHistory exampleObservations) = Some 1784203260000"
    by (simp_all only: exampleHistory_def history_input.simps option.sel)
qed code_simp+

theorem historical_claim_sound_witness:
  "\<exists>current eligibility. evidenceAmountOre current = 1500
     \<and> baselineMedian (baselineOf (exampleHistory exampleObservations) eligibility current ''product:1'') = 2000
     \<and> card (baselineOf (exampleHistory exampleObservations) eligibility current ''product:1'') = 8"
proof -
  have fields: "historyBaselineOre exampleClaim = 2000" "historyCurrentOre exampleClaim = 1500"
    "length (historySourceIds exampleClaim) = 8" "historyProductId exampleClaim = ''product:1''"
    by (simp_all add: exampleClaim_def)
  obtain comparisonId current productId t eligibility where
    "length (historySourceIds exampleClaim) = card (baselineOf (exampleHistory exampleObservations) eligibility current productId)"
    "historyBaselineOre exampleClaim = baselineMedian (baselineOf (exampleHistory exampleObservations) eligibility current productId)"
    "historyCurrentOre exampleClaim = evidenceAmountOre current" "historyProductId exampleClaim = productId"
    using historical_claim_sound [OF example_derived] unfolding Let_def by blast
  with fields have "evidenceAmountOre current = 1500"
    "baselineMedian (baselineOf (exampleHistory exampleObservations) eligibility current ''product:1'') = 2000"
    "card (baselineOf (exampleHistory exampleObservations) eligibility current ''product:1'') = 8" by metis+
  then show ?thesis by blast
qed

theorem historical_claim_verifies_witness:
  "historicalComparisonMatchesEvidence textHost (Shaped exampleClaim) (exampleHistory exampleObservations)"
  using historical_claim_verifies [OF example_derived] by (rule conjunct1)

text \<open>
  The fingerprint of a scope joins codes with commas, and codes may contain commas.
\<close>

lemma fingerprint_collision:
  "geographicScopeSchema (RegionsScope ''NO'' [''a,b'']) = Some (RegionsScope ''NO'' [''a,b''])"
  "geographicScopeFingerprint (RegionsScope ''NO'' [''a,b'']) = geographicScopeFingerprint (RegionsScope ''NO'' [''a'', ''b''])"
  by code_simp+

text \<open>
  Two observations of one instant are ordered by \<open>localeCompare\<close> of their identifiers, and the order of the sources is
  part of the claim, so a reader whose collation differs from the deriver's refuses a claim derived from the same evidence.
\<close>

definition reverseHost :: host where
  "reverseHost = textHost\<lparr>localeCompare := (\<lambda>l r. compareText r l)\<rparr>"

lemma source_order_depends_on_collation:
  "sort_by (compareEvidenceOrder textHost) (map exampleObservation [(''a'', ''02'', 2200), (''b'', ''02'', 2000)])
     \<noteq> sort_by (compareEvidenceOrder reverseHost) (map exampleObservation [(''a'', ''02'', 2200), (''b'', ''02'', 2000)])"
  by code_simp

end
