(* ===== verification/Plan_Delta.thy ===== *)
theory Plan_Delta
  imports Frontier_V2 Market_Context Coverage Travel
begin

text \<open>
  \<open>packages/domain/src/plan-delta-explanations.ts\<close> and \<open>money.ts\<close>: for the plans of one planning snapshot, how each differs
  from the first, with the Norwegian copy that is shown. The texts of numbers come from \<open>Intl.NumberFormat\<close>: they are
  the fields of a record that the functions take. Characters outside ASCII are written by their code.
\<close>

record number_format =
  nokText :: "rat \<Rightarrow> string"
  kilometreText :: "rat \<Rightarrow> string"

text \<open>The code also replaces U+202F, which is not among the characters of the model.\<close>

definition formatNok :: "number_format \<Rightarrow> int \<Rightarrow> string" where
  "formatNok f amount = map (\<lambda>c. if c = CHR 0xA0 then CHR '' '' else c) (nokText f (of_int amount / 100))"

section \<open>Contracts\<close>

datatype withheld_reason = IneligibleWithheld | PartialWithheld | UnknownWithheld

record quantity_snapshot =
  snapshotCount :: int
  snapshotPackage :: package_measure
  snapshotPurchased :: package_measure
  snapshotSurplus :: package_measure

definition quantitySnapshotSchema :: "quantity_snapshot \<Rightarrow> bool" where
  "quantitySnapshotSchema q \<longleftrightarrow>
     positiveSafeInteger (snapshotCount q) \<and> packageMeasureSchema (snapshotPackage q) \<noteq> None
     \<and> packageMeasureSchema (snapshotPurchased q) \<noteq> None \<and> nonNegativeMeasureSchema (snapshotSurplus q) \<noteq> None"

datatype price_delta =
    ReferencePrice string
  | SamePrice string
  | CheaperPrice int int string
  | MoreExpensivePrice int string
  | WithheldPrice withheld_reason string

fun planBasketPriceDeltaV1Schema :: "price_delta \<Rightarrow> price_delta option" where
  "planBasketPriceDeltaV1Schema (ReferencePrice m) = map_option ReferencePrice (nonEmptyStringSchema m)"
| "planBasketPriceDeltaV1Schema (SamePrice m) = map_option SamePrice (nonEmptyStringSchema m)"
| "planBasketPriceDeltaV1Schema (CheaperPrice difference saving m) =
     (if moneyOreSchema difference \<and> difference > 0 \<and> moneyOreSchema saving \<and> saving > 0 \<and> difference = saving
      then map_option (CheaperPrice difference saving) (nonEmptyStringSchema m) else None)"
| "planBasketPriceDeltaV1Schema (MoreExpensivePrice difference m) =
     (if moneyOreSchema difference \<and> difference > 0
      then map_option (MoreExpensivePrice difference) (nonEmptyStringSchema m) else None)"
| "planBasketPriceDeltaV1Schema (WithheldPrice reason m) = map_option (WithheldPrice reason) (nonEmptyStringSchema m)"

datatype offer_saving = NoSaving string | DocumentedSaving int string | WithheldSaving withheld_reason string

fun offerSavingV1Schema :: "offer_saving \<Rightarrow> offer_saving option" where
  "offerSavingV1Schema (NoSaving m) = map_option NoSaving (nonEmptyStringSchema m)"
| "offerSavingV1Schema (DocumentedSaving amount m) =
     (if moneyOreSchema amount \<and> amount > 0 then map_option (DocumentedSaving amount) (nonEmptyStringSchema m) else None)"
| "offerSavingV1Schema (WithheldSaving reason m) = map_option (WithheldSaving reason) (nonEmptyStringSchema m)"

datatype product_delta = SameProduct string string | ChangedProduct string string string string

fun productDeltaV1Schema :: "product_delta \<Rightarrow> product_delta option" where
  "productDeltaV1Schema (SameProduct i g) =
     (case (identifierSchema i, gtinSchema g) of (Some i', Some g') \<Rightarrow> Some (SameProduct i' g') | _ \<Rightarrow> None)"
| "productDeltaV1Schema (ChangedProduct i g j k) =
     (case (identifierSchema i, gtinSchema g, identifierSchema j, gtinSchema k) of
        (Some i', Some g', Some j', Some k') \<Rightarrow> Some (ChangedProduct i' g' j' k') | _ \<Rightarrow> None)"

datatype quantity_delta = SameQuantity quantity_snapshot | ChangedQuantity quantity_snapshot quantity_snapshot

fun quantityDeltaV1Schema :: "quantity_delta \<Rightarrow> bool" where
  "quantityDeltaV1Schema (SameQuantity q) = quantitySnapshotSchema q"
| "quantityDeltaV1Schema (ChangedQuantity q r) = (quantitySnapshotSchema q \<and> quantitySnapshotSchema r)"

datatype offer_delta = SameOffer "string option" | AddedOffer string | RemovedOffer string | ChangedOffer string string

fun offerDeltaV1Schema :: "offer_delta \<Rightarrow> offer_delta option" where
  "offerDeltaV1Schema (SameOffer i) = map_option SameOffer (parseOptional identifierSchema i)"
| "offerDeltaV1Schema (AddedOffer i) = map_option AddedOffer (identifierSchema i)"
| "offerDeltaV1Schema (RemovedOffer i) = map_option RemovedOffer (identifierSchema i)"
| "offerDeltaV1Schema (ChangedOffer i j) =
     (case (identifierSchema i, identifierSchema j) of (Some i', Some j') \<Rightarrow> Some (ChangedOffer i' j') | _ \<Rightarrow> None)"

datatype chain_delta = SameChain chain | ChangedChain chain chain

record need_delta =
  deltaNeedId :: string
  deltaProduct :: product_delta
  deltaQuantity :: quantity_delta
  deltaOffer :: offer_delta
  deltaChain :: chain_delta
  deltaMessage :: string

definition planNeedDeltaExplanationV1Schema :: "need_delta \<Rightarrow> need_delta option" where
  "planNeedDeltaExplanationV1Schema d =
     (case (identifierSchema (deltaNeedId d), productDeltaV1Schema (deltaProduct d), offerDeltaV1Schema (deltaOffer d),
            nonEmptyStringSchema (deltaMessage d)) of
        (Some i, Some p, Some offer, Some m) \<Rightarrow>
          (if quantityDeltaV1Schema (deltaQuantity d)
           then Some (d\<lparr>deltaNeedId := i, deltaProduct := p, deltaOffer := offer, deltaMessage := m\<rparr>) else None)
      | _ \<Rightarrow> None)"

record store_delta =
  storeCount :: nat
  storeChainIds :: "chain list"
  storeReferenceCount :: nat
  storeReferenceChainIds :: "chain list"
  storeAdded :: "chain list"
  storeRemoved :: "chain list"
  storeMessage :: string

definition storeDeltaV1Schema :: "store_delta \<Rightarrow> store_delta option" where
  "storeDeltaV1Schema s =
     (case nonEmptyStringSchema (storeMessage s) of
        None \<Rightarrow> None
      | Some m \<Rightarrow>
          if 1 \<le> storeCount s \<and> storeCount s \<le> 3 \<and> 1 \<le> length (storeChainIds s) \<and> length (storeChainIds s) \<le> 3
             \<and> 1 \<le> storeReferenceCount s \<and> storeReferenceCount s \<le> 3
             \<and> 1 \<le> length (storeReferenceChainIds s) \<and> length (storeReferenceChainIds s) \<le> 3
             \<and> length (storeAdded s) \<le> 3 \<and> length (storeRemoved s) \<le> 3
             \<and> list_all (\<lambda>values. hasUniqueStrings (map chainText values))
                  [storeChainIds s, storeReferenceChainIds s, storeAdded s, storeRemoved s]
          then Some (s\<lparr>storeMessage := m\<rparr>) else None)"

datatype axis_delta = SameAxis | LessAxis int | MoreAxis int

fun travelAxisDeltaV1Schema :: "axis_delta \<Rightarrow> bool" where
  "travelAxisDeltaV1Schema SameAxis = True"
| "travelAxisDeltaV1Schema (LessAxis difference) = (nonNegativeSafeInteger difference \<and> difference > 0)"
| "travelAxisDeltaV1Schema (MoreAxis difference) = (nonNegativeSafeInteger difference \<and> difference > 0)"

datatype travel_delta = ReferenceTravel string | ComparedTravel axis_delta axis_delta string

fun planTravelDeltaV1Schema :: "travel_delta \<Rightarrow> travel_delta option" where
  "planTravelDeltaV1Schema (ReferenceTravel m) = map_option ReferenceTravel (nonEmptyStringSchema m)"
| "planTravelDeltaV1Schema (ComparedTravel duration distance m) =
     (if travelAxisDeltaV1Schema duration \<and> travelAxisDeltaV1Schema distance
      then map_option (ComparedTravel duration distance) (nonEmptyStringSchema m) else None)"

datatype presentation_role = OnlyRole | ConvenienceRole | BalancedRole | SavingsRole | AlternativeRole | EquivalentRole

record plan_delta =
  deltaPlanId :: string
  deltaReferenceId :: string
  deltaRole :: presentation_role
  deltaLabel :: string
  deltaPrice :: price_delta
  deltaSaving :: offer_saving
  deltaStores :: store_delta
  deltaNeeds :: "need_delta list"
  deltaTravel :: "travel_delta option"
  deltaSummary :: string

definition planDeltaExplanationV1Schema :: "plan_delta \<Rightarrow> plan_delta option" where
  "planDeltaExplanationV1Schema d =
     (case (identifierSchema (deltaPlanId d), identifierSchema (deltaReferenceId d), nonEmptyStringSchema (deltaLabel d),
            planBasketPriceDeltaV1Schema (deltaPrice d), offerSavingV1Schema (deltaSaving d), storeDeltaV1Schema (deltaStores d),
            parseAll planNeedDeltaExplanationV1Schema (deltaNeeds d), parseOptional planTravelDeltaV1Schema (deltaTravel d),
            nonEmptyStringSchema (deltaSummary d)) of
        (Some i, Some r, Some l, Some p, Some s, Some stores, Some needs, Some t, Some summary) \<Rightarrow>
          (if length needs \<le> 50
           then Some \<lparr>deltaPlanId = i, deltaReferenceId = r, deltaRole = deltaRole d, deltaLabel = l, deltaPrice = p,
                      deltaSaving = s, deltaStores = stores, deltaNeeds = needs, deltaTravel = t, deltaSummary = summary\<rparr>
           else None)
      | _ \<Rightarrow> None)"

record route_binding =
  boundPlanId :: string
  boundCalculatedAt :: string
  boundMode :: travel_mode
  boundProviderId :: string
  boundFingerprint :: string

definition routeBindingV1Schema :: "route_binding \<Rightarrow> route_binding option" where
  "routeBindingV1Schema b =
     (case (identifierSchema (boundPlanId b), sourceIdSchema (boundProviderId b), identifierSchema (boundFingerprint b)) of
        (Some i, Some p, Some f) \<Rightarrow>
          (if canonicalTimestamp (boundCalculatedAt b)
           then Some (b\<lparr>boundPlanId := i, boundProviderId := p, boundFingerprint := f\<rparr>) else None)
      | _ \<Rightarrow> None)"

datatype bound_comparison = BoundComplete | BoundPartial | BoundNotApplicable

record delta_binding =
  bindingGeneratedAt :: string
  bindingMarket :: market_context
  bindingPlanIds :: "string list"
  bindingEvidenceIds :: "string list"
  bindingOfferIds :: "string list"
  bindingComparison :: bound_comparison
  bindingReasons :: "withheld_reason list"
  bindingRoutes :: "route_binding list option"

record delta_set =
  setBinding :: delta_binding
  setReferencePlanId :: "string option"
  setQualifier :: string
  setEntries :: "plan_delta list"

definition deltaBindingSchema :: "delta_binding \<Rightarrow> delta_binding option" where
  "deltaBindingSchema b =
     (case (marketContextV1Schema (bindingMarket b), parseAll identifierSchema (bindingPlanIds b),
            parseAll identifierSchema (bindingEvidenceIds b), parseAll identifierSchema (bindingOfferIds b),
            parseOptional (parseAll routeBindingV1Schema) (bindingRoutes b)) of
        (Some m, Some plans, Some evidence, Some offers, Some routes) \<Rightarrow>
          (if canonicalTimestamp (bindingGeneratedAt b) \<and> length plans \<le> 7 \<and> length evidence \<le> 350 \<and> length offers \<le> 350
              \<and> length (bindingReasons b) \<le> 3 \<and> optionally (\<lambda>rs. length rs \<le> 7) routes
           then Some (b\<lparr>bindingMarket := m, bindingPlanIds := plans, bindingEvidenceIds := evidence, bindingOfferIds := offers,
                        bindingRoutes := routes\<rparr>) else None)
      | _ \<Rightarrow> None)"

definition deltaSetRefinement :: "delta_set \<Rightarrow> bool" where
  "deltaSetRefinement s \<longleftrightarrow>
     (let binding = setBinding s; entries = setEntries s; entryIds = map deltaPlanId entries;
          hasRoutes = (bindingRoutes binding \<noteq> None)
      in hasUniqueStrings (bindingPlanIds binding) \<and> hasUniqueStrings (bindingEvidenceIds binding)
         \<and> hasUniqueStrings (bindingOfferIds binding) \<and> distinct (bindingReasons binding) \<and> hasUniqueStrings entryIds
         \<and> bindingPlanIds binding = entryIds
         \<and> (if length (bindingPlanIds binding) = 0
            then \<not> (setReferencePlanId s \<noteq> None \<or> length entries \<noteq> 0 \<or> bindingComparison binding \<noteq> BoundNotApplicable)
            else \<not> (setReferencePlanId s \<noteq> Some (bindingPlanIds binding ! 0)
                    \<or> list_ex (\<lambda>e. Some (deltaReferenceId e) \<noteq> setReferencePlanId s) entries))
         \<and> \<not> (length entries > 0 \<and> hasRoutes \<noteq> list_all (\<lambda>e. deltaTravel e \<noteq> None) entries)
         \<and> (case bindingRoutes binding of
              None \<Rightarrow> True
            | Some routes \<Rightarrow> map boundPlanId routes = bindingPlanIds binding \<and> hasUniqueStrings (map boundFingerprint routes)))"

definition planDeltaExplanationSetV1Schema :: "delta_set \<Rightarrow> delta_set option" where
  "planDeltaExplanationSetV1Schema s =
     (case (deltaBindingSchema (setBinding s), parseOptional identifierSchema (setReferencePlanId s),
            nonEmptyStringSchema (setQualifier s), parseAll planDeltaExplanationV1Schema (setEntries s)) of
        (Some b, Some r, Some q, Some entries) \<Rightarrow>
          (let parsed = \<lparr>setBinding = b, setReferencePlanId = r, setQualifier = q, setEntries = entries\<rparr>
           in if length entries \<le> 7 \<and> deltaSetRefinement parsed then Some parsed else None)
      | _ \<Rightarrow> None)"

section \<open>Texts\<close>

text \<open>\<open>replace(/^./u, (value) => value.toUpperCase())\<close>; every text it is applied to begins with a digit or a letter from a to z.\<close>

definition upperFirst :: "string \<Rightarrow> string" where
  "upperFirst s = (case s of [] \<Rightarrow> []
     | c # cs \<Rightarrow> (if CHR ''a'' \<le> c \<and> c \<le> CHR ''z'' then char_of ((of_char c :: nat) - 32) else c) # cs)"

definition chainName :: "chain \<Rightarrow> string" where
  "chainName c = (if c = Rema1000 then ''REMA 1000'' else if c = Bunnpris then ''Bunnpris'' else ''Extra'')"

definition joinNorwegian :: "string list \<Rightarrow> string" where
  "joinNorwegian values =
     (if length values < 2 then (if values = [] then [] else values ! 0)
      else if length values = 2 then values ! 0 @ '' og '' @ values ! 1
      else joinText '', '' (butlast values) @ '' og '' @ last values)"

fun withheldMessage :: "withheld_reason \<Rightarrow> string" where
  "withheldMessage IneligibleWithheld =
     ''Prisforskjell oppgis ikke fordi sammenligningen inneholder prisgrunnlag som ikke er kvalifisert.''"
| "withheldMessage UnknownWithheld = ''Prisforskjell oppgis ikke fordi deler av kjededekningen er ukjent eller utdatert.''"
| "withheldMessage PartialWithheld = ''Prisforskjell oppgis ikke fordi kjededekningen ikke er komplett.''"

fun withheldOfferMessage :: "withheld_reason \<Rightarrow> string" where
  "withheldOfferMessage IneligibleWithheld =
     ''Dokumentert tilbudssparing oppgis ikke fordi prisgrunnlaget ikke er kvalifisert.''"
| "withheldOfferMessage UnknownWithheld =
     ''Dokumentert tilbudssparing oppgis ikke fordi deler av kjededekningen er ukjent eller utdatert.''"
| "withheldOfferMessage PartialWithheld = ''Dokumentert tilbudssparing oppgis ikke fordi kjededekningen ikke er komplett.''"

section \<open>One plan against the first\<close>

definition storeDelta :: "plan_v2 \<Rightarrow> plan_v2 \<Rightarrow> store_delta" where
  "storeDelta plan reference =
     (let addedChainIds = filter (\<lambda>c. c \<notin> set (p2Chains reference)) (p2Chains plan);
          removedChainIds = filter (\<lambda>c. c \<notin> set (p2Chains plan)) (p2Chains reference);
          changes = (if addedChainIds = [] then [] else [''legger til '' @ joinNorwegian (map chainName addedChainIds)])
            @ (if removedChainIds = [] then [] else [''tar bort '' @ joinNorwegian (map chainName removedChainIds)])
      in \<lparr>storeCount = length (p2Chains plan), storeChainIds = p2Chains plan,
          storeReferenceCount = length (p2Chains reference), storeReferenceChainIds = p2Chains reference,
          storeAdded = addedChainIds, storeRemoved = removedChainIds,
          storeMessage =
            (if length addedChainIds > 0 \<or> length removedChainIds > 0 then upperFirst (joinText '' og '' changes) @ ''.''
             else ''Samme butikksett som f'' @ [CHR 0xF8] @ ''rste plan.'')\<rparr>)"

definition quantitySnapshot :: "assignment_v2 \<Rightarrow> quantity_snapshot" where
  "quantitySnapshot a =
     \<lparr>snapshotCount = v2PackageCount (a2Fulfilment a), snapshotPackage = v2Package (a2Fulfilment a),
      snapshotPurchased = v2Purchased (a2Fulfilment a), snapshotSurplus = v2Surplus (a2Fulfilment a)\<rparr>"

definition productChange :: "assignment_v2 \<Rightarrow> assignment_v2 \<Rightarrow> product_delta" where
  "productChange current reference =
     (if a2ProductId current = a2ProductId reference \<and> a2Ean current = a2Ean reference
      then SameProduct (a2ProductId current) (a2Ean current)
      else ChangedProduct (a2ProductId reference) (a2Ean reference) (a2ProductId current) (a2Ean current))"

definition quantityChange :: "assignment_v2 \<Rightarrow> assignment_v2 \<Rightarrow> quantity_delta" where
  "quantityChange current reference =
     (if quantitySnapshot current = quantitySnapshot reference then SameQuantity (quantitySnapshot current)
      else ChangedQuantity (quantitySnapshot reference) (quantitySnapshot current))"

definition offerChange :: "assignment_v2 \<Rightarrow> assignment_v2 \<Rightarrow> offer_delta" where
  "offerChange current reference =
     (if appliedOfferId (a2Checkout current) = appliedOfferId (a2Checkout reference)
      then SameOffer (appliedOfferId (a2Checkout current))
      else (case (appliedOfferId (a2Checkout reference), appliedOfferId (a2Checkout current)) of
          (None, Some i) \<Rightarrow> AddedOffer i
        | (Some j, None) \<Rightarrow> RemovedOffer j
        | (Some j, Some i) \<Rightarrow> ChangedOffer j i
        | (None, None) \<Rightarrow> SameOffer None))"

definition chainChange :: "assignment_v2 \<Rightarrow> assignment_v2 \<Rightarrow> chain_delta" where
  "chainChange current reference =
     (if a2Chain current = a2Chain reference then SameChain (a2Chain current)
      else ChangedChain (a2Chain reference) (a2Chain current))"

text \<open>The parts of the message of a need.\<close>

definition needChanges :: "product_delta \<Rightarrow> quantity_delta \<Rightarrow> offer_delta \<Rightarrow> chain_delta \<Rightarrow> string list" where
  "needChanges p q offer c =
     (case p of ChangedProduct _ _ _ _ \<Rightarrow> [''Bytter produkt''] | _ \<Rightarrow> [])
     @ (case q of ChangedQuantity from to \<Rightarrow>
            [''endrer pakkeantall fra '' @ intText (snapshotCount from) @ '' til '' @ intText (snapshotCount to)] | _ \<Rightarrow> [])
     @ (case offer of AddedOffer _ \<Rightarrow> [''bruker et dokumentert tilbud'']
          | RemovedOffer _ \<Rightarrow> [''bruker ikke tilbudet fra f'' @ [CHR 0xF8] @ ''rste plan'']
          | ChangedOffer _ _ \<Rightarrow> [''bruker et annet dokumentert tilbud''] | _ \<Rightarrow> [])
     @ (case c of ChangedChain from to \<Rightarrow> [''flytter varen fra '' @ chainName from @ '' til '' @ chainName to] | _ \<Rightarrow> [])"

definition needDelta :: "assignment_v2 \<Rightarrow> assignment_v2 \<Rightarrow> need_delta" where
  "needDelta current reference =
     (let p = productChange current reference; q = quantityChange current reference;
          offer = offerChange current reference; c = chainChange current reference; changes = needChanges p q offer c
      in \<lparr>deltaNeedId = a2NeedId current, deltaProduct = p, deltaQuantity = q, deltaOffer = offer, deltaChain = c,
          deltaMessage = (if changes = [] then ''Samme produkt, mengde, tilbud og butikk som i f'' @ [CHR 0xF8] @ ''rste plan.''
                          else upperFirst (joinText '', '' changes) @ ''.'')\<rparr>)"

definition scopeReasons :: "comparison_scope \<Rightarrow> withheld_reason list" where
  "scopeReasons scope =
     (if scopeCompleteness scope = PartialComparison then [PartialWithheld] else [])
     @ concat (map (\<lambda>e. case entryStatus e of
           IneligibleCoverage _ _ _ \<Rightarrow> [IneligibleWithheld]
         | UnknownCoverage _ _ \<Rightarrow> [UnknownWithheld]
         | StaleCoverage _ _ _ \<Rightarrow> [UnknownWithheld]
         | _ \<Rightarrow> []) (scopeEntries scope))"

definition unresolvedReasons :: "comparison_scope list \<Rightarrow> withheld_reason list" where
  "unresolvedReasons scopes =
     (let reasons = concat (map scopeReasons scopes)
      in filter (\<lambda>r. r \<in> set reasons) [IneligibleWithheld, UnknownWithheld, PartialWithheld])"

definition priceDelta :: "number_format \<Rightarrow> plan_v2 \<Rightarrow> plan_v2 \<Rightarrow> withheld_reason option \<Rightarrow> price_delta" where
  "priceDelta f plan reference reason =
     (if p2Id plan = p2Id reference
      then ReferencePrice (''F'' @ [CHR 0xF8] @ ''rste returnerte plan er sammenligningsgrunnlaget.'')
      else (case reason of
          Some r \<Rightarrow> WithheldPrice r (withheldMessage r)
        | None \<Rightarrow>
            (let difference = p2TotalOre plan - p2TotalOre reference
             in if difference = 0 then SamePrice (''Samme beregnede kurvpris som f'' @ [CHR 0xF8] @ ''rste plan.'')
                else (let magnitude = (if difference < 0 then - difference else difference)
                      in if difference < 0
                         then CheaperPrice magnitude magnitude
                                (formatNok f magnitude @ '' lavere beregnet kurvpris enn f'' @ [CHR 0xF8] @ ''rste plan.'')
                         else MoreExpensivePrice magnitude
                                (formatNok f magnitude @ '' h'' @ [CHR 0xF8] @ ''yere beregnet kurvpris enn f'' @ [CHR 0xF8] @ ''rste plan.'')))))"

definition offerSaving :: "number_format \<Rightarrow> plan_v2 \<Rightarrow> withheld_reason option \<Rightarrow> offer_saving option" where
  "offerSaving f plan reason =
     (case reason of
        Some r \<Rightarrow> Some (WithheldSaving r (withheldOfferMessage r))
      | None \<Rightarrow>
          (let total = foldl (\<lambda>t a. t + savingOre (a2Checkout a)) 0 (p2Assignments plan)
           in if total > MAX_SAFE_INTEGER then None
              else if total = 0 then Some (NoSaving ''Ingen dokumentert tilbudssparing i denne planen.'')
              else Some (DocumentedSaving total (formatNok f total @ '' dokumentert tilbudssparing i denne planen.''))))"

fun priceMessage :: "price_delta \<Rightarrow> string" where
  "priceMessage (ReferencePrice m) = m"
| "priceMessage (SamePrice m) = m"
| "priceMessage (CheaperPrice _ _ m) = m"
| "priceMessage (MoreExpensivePrice _ m) = m"
| "priceMessage (WithheldPrice _ m) = m"

fun travelMessage :: "travel_delta \<Rightarrow> string" where
  "travelMessage (ReferenceTravel m) = m"
| "travelMessage (ComparedTravel _ _ m) = m"

definition axisDelta :: "int \<Rightarrow> int \<Rightarrow> axis_delta" where
  "axisDelta current reference =
     (let difference = current - reference
      in if difference = 0 then SameAxis else if difference < 0 then LessAxis \<bar>difference\<bar> else MoreAxis \<bar>difference\<bar>)"

text \<open>\<open>Math.round\<close> of a sixtieth of a positive number.\<close>

definition roundedMinutes :: "int \<Rightarrow> int" where
  "roundedMinutes seconds = max 1 ((2 * seconds + 60) div 120)"

fun durationCopy :: "axis_delta \<Rightarrow> string" where
  "durationCopy SameAxis = ''samme estimerte reisetid''"
| "durationCopy (LessAxis difference) = intText (roundedMinutes difference) @ '' min kortere estimert reisetid''"
| "durationCopy (MoreAxis difference) = intText (roundedMinutes difference) @ '' min lengre estimert reisetid''"

definition distanceText :: "number_format \<Rightarrow> int \<Rightarrow> string" where
  "distanceText f difference =
     (if difference < 1000 then intText difference @ '' m'' else kilometreText f (of_int difference / 1000) @ '' km'')"

fun distanceCopy :: "number_format \<Rightarrow> axis_delta \<Rightarrow> string" where
  "distanceCopy f SameAxis = ''samme estimerte avstand''"
| "distanceCopy f (LessAxis difference) = distanceText f difference @ '' kortere estimert rute''"
| "distanceCopy f (MoreAxis difference) = distanceText f difference @ '' lengre estimert rute''"

definition travelDelta :: "number_format \<Rightarrow> string \<Rightarrow> string \<Rightarrow> route_evidence \<Rightarrow> route_evidence \<Rightarrow> travel_delta" where
  "travelDelta f ofPlanId referencePlanId route referenceRoute =
     (if ofPlanId = referencePlanId
      then ReferenceTravel (''F'' @ [CHR 0xF8] @ ''rste plan er sammenligningsgrunnlaget for reisetid.'')
      else
        (let duration = axisDelta (aggregateDurationSeconds (routeAggregate route)) (aggregateDurationSeconds (routeAggregate referenceRoute));
             distance = axisDelta (aggregateDistanceMeters (routeAggregate route)) (aggregateDistanceMeters (routeAggregate referenceRoute));
             durationMessage = (if duration = SameAxis then ''Samme estimerte reisetid som f'' @ [CHR 0xF8] @ ''rste plan''
               else upperFirst (durationCopy duration) @ '' enn f'' @ [CHR 0xF8] @ ''rste plan'');
             distanceMessage = (if distance = SameAxis then ''samme estimerte avstand som f'' @ [CHR 0xF8] @ ''rste plan''
               else distanceCopy f distance @ '' enn f'' @ [CHR 0xF8] @ ''rste plan'')
         in ComparedTravel duration distance (durationMessage @ '' og '' @ distanceMessage @ ''.'')))"

section \<open>Roles\<close>

type_synonym routes_by_plan = "(string \<times> route_evidence) list option"

text \<open>\<open>routesByPlan.get(id)!.aggregate.durationSeconds\<close>; 0 stands for the exception, which the guards exclude.\<close>

definition routeDuration :: "routes_by_plan \<Rightarrow> plan_v2 \<Rightarrow> int" where
  "routeDuration routesByPlan plan =
     (case routesByPlan of None \<Rightarrow> 0
      | Some routes \<Rightarrow>
          (case map_of routes (p2Id plan) of None \<Rightarrow> 0 | Some route \<Rightarrow> aggregateDurationSeconds (routeAggregate route)))"

definition compareRoutes :: "routes_by_plan \<Rightarrow> plan_v2 \<Rightarrow> plan_v2 \<Rightarrow> int" where
  "compareRoutes routesByPlan left right =
     (if routesByPlan = None then 0 else routeDuration routesByPlan left - routeDuration routesByPlan right)"

definition compareConvenienceObjective :: "routes_by_plan \<Rightarrow> plan_v2 \<Rightarrow> plan_v2 \<Rightarrow> int" where
  "compareConvenienceObjective routesByPlan left right =
     js_or (int (length (p2Chains left)) - int (length (p2Chains right)))
     (js_or (compareRoutes routesByPlan left right)
     (js_or (p2TotalOre left - p2TotalOre right)
     (js_or (int (length (p2Substitutions left)) - int (length (p2Substitutions right)))
       (compareText (p2Id left) (p2Id right)))))"

definition compareSavingsObjective :: "routes_by_plan \<Rightarrow> plan_v2 \<Rightarrow> plan_v2 \<Rightarrow> int" where
  "compareSavingsObjective routesByPlan left right =
     js_or (p2TotalOre left - p2TotalOre right)
     (js_or (compareRoutes routesByPlan left right)
     (js_or (int (length (p2Substitutions left)) - int (length (p2Substitutions right)))
     (js_or (int (length (p2Chains left)) - int (length (p2Chains right)))
       (compareText (p2Id left) (p2Id right)))))"

definition uniqueShortestTravelPlanId :: "plan_v2 list \<Rightarrow> routes_by_plan \<Rightarrow> string option" where
  "uniqueShortestTravelPlanId plans routesByPlan =
     (if routesByPlan = None then None
      else
        (let durations = map (routeDuration routesByPlan) plans;
             shortestDuration = (case durations of [] \<Rightarrow> 0 | d # ds \<Rightarrow> foldl min d ds);
             shortestPlans = filter (\<lambda>p. routeDuration routesByPlan p = shortestDuration) plans
         in if length shortestPlans = 1 then Some (p2Id (shortestPlans ! 0)) else None))"

definition presentation ::
    "string \<Rightarrow> nat \<Rightarrow> nat \<Rightarrow> bool \<Rightarrow> bool \<Rightarrow> string \<Rightarrow> string \<Rightarrow> string option \<Rightarrow> presentation_role \<times> string" where
  "presentation ofPlanId index planCount objectivesAreEquivalent comparisonIsComplete conveniencePlanId savingsPlanId shortestTravelPlanId =
     (if planCount = 1 then (OnlyRole, ''Eneste komplette plan'')
      else if \<not> comparisonIsComplete then (AlternativeRole, ''Alternativ '' @ intText (int index + 1))
      else if objectivesAreEquivalent then (EquivalentRole, ''Likeverdig alternativ '' @ intText (int index + 1))
      else if conveniencePlanId = savingsPlanId then
        (if ofPlanId = conveniencePlanId then (ConvenienceRole, ''Enklest og lavest pris'')
         else if Some ofPlanId = shortestTravelPlanId then (AlternativeRole, ''Kortest reise'')
         else (AlternativeRole, ''Alternativ '' @ intText (int index + 1)))
      else if ofPlanId = conveniencePlanId then (ConvenienceRole, ''Enklest'')
      else if ofPlanId = savingsPlanId then (SavingsRole, ''Mest spart'')
      else if index = (planCount - 1) div 2 then (BalancedRole, ''Balansert'')
      else (AlternativeRole, ''Alternativ '' @ intText (int index + 1)))"

section \<open>The derivation\<close>

record delta_evidence =
  evidencePlanId :: string
  evidenceNeedId :: string
  evidenceProductId :: string
  evidenceChainId :: string
  evidenceEvidenceId :: string
  evidenceOfferId :: "string option"
  evidenceScope :: comparison_scope

record delta_input =
  deltaInputPlans :: "plan_v2 list"
  deltaInputGeneratedAt :: string
  deltaInputMarket :: market_context
  deltaInputEvidence :: "delta_evidence list"
  deltaInputRoutes :: "route_evidence list option"

definition calculatedTravelOf :: "route_evidence \<Rightarrow> calculated_travel" where
  "calculatedTravelOf route =
     \<lparr>travelDuration = aggregateDurationSeconds (routeAggregate route), travelDistance = aggregateDistanceMeters (routeAggregate route),
      travelProvider = aggregateProviderId (routeAggregate route), travelCalculatedAt = aggregateCalculatedAt (routeAggregate route),
      travelFingerprint = aggregateFingerprint (routeAggregate route)\<rparr>"

definition atMost7 :: "('a \<Rightarrow> 'a option) \<Rightarrow> 'a list \<Rightarrow> 'a list option" where
  "atMost7 schema xs = (case parseAll schema xs of None \<Rightarrow> None | Some ys \<Rightarrow> if length ys \<le> 7 then Some ys else None)"

definition canonicalPlans :: "plan_v2 list \<Rightarrow> route_evidence list option \<Rightarrow> plan_v2 list option" where
  "canonicalPlans plans routes =
     (case atMost7 planResultV2Schema plans of
        None \<Rightarrow> None
      | Some parsed \<Rightarrow>
          (case routes of
             None \<Rightarrow>
               if canonicalProjectedPlanResultsV2 (map (\<lambda>p. ShapedCandidate p None) parsed) 7 None = Some parsed then Some parsed else None
           | Some rawRoutes \<Rightarrow>
               (case atMost7 travelRouteEvidenceSchema rawRoutes of
                  None \<Rightarrow> None
                | Some parsedRoutes \<Rightarrow>
                    if length parsedRoutes \<noteq> length parsed then None
                    else if list_ex (\<lambda>(route, plan). routePlanId route \<noteq> p2Id plan) (zip parsedRoutes parsed) then None
                    else
                      (let travelEvidence = map (\<lambda>(plan, route). TravelEntry (p2Id plan) (Shaped (CalculatedTravel (calculatedTravelOf route))))
                             (zip parsed parsedRoutes)
                       in if canonicalProjectedPlanResultsV2 (map (\<lambda>p. ShapedCandidate p None) parsed) 7 (Some travelEvidence) = Some parsed
                          then Some parsed else None))))"

definition bindingKey :: "string \<Rightarrow> string \<Rightarrow> string" where
  "bindingKey ofPlanId ofNeedId = ofPlanId @ [char_of (0 :: nat)] @ ofNeedId"

fun bindEvidence :: "string \<Rightarrow> delta_evidence list \<Rightarrow> (string \<times> delta_evidence) list \<Rightarrow> (string \<times> delta_evidence) list option" where
  "bindEvidence generatedAt [] bindingByKey = Some bindingByKey"
| "bindEvidence generatedAt (raw # rest) bindingByKey =
     (case comparisonScopeSchema (evidenceScope raw) of
        None \<Rightarrow> None
      | Some scope \<Rightarrow>
          if scopeEvaluatedAt scope \<noteq> generatedAt then None
          else
            (let key = bindingKey (evidencePlanId raw) (evidenceNeedId raw)
             in if map_of bindingByKey key \<noteq> None then None
                else bindEvidence generatedAt rest (AList.update key (raw\<lparr>evidenceScope := scope\<rparr>) bindingByKey)))"

text \<open>The binding of one assignment, when it is there and agrees with it.\<close>

definition assignmentBinding :: "(string \<times> delta_evidence) list \<Rightarrow> plan_v2 \<Rightarrow> assignment_v2 \<Rightarrow> delta_evidence option" where
  "assignmentBinding bindingByKey plan assignment =
     (case map_of bindingByKey (bindingKey (p2Id plan) (a2NeedId assignment)) of
        None \<Rightarrow> None
      | Some binding \<Rightarrow>
          (case find (\<lambda>e. entryChainId e = chainText (a2Chain assignment)) (scopeEntries (evidenceScope binding)) of
             None \<Rightarrow> None
           | Some scopeEntry \<Rightarrow>
               if evidencePlanId binding \<noteq> p2Id plan \<or> evidenceNeedId binding \<noteq> a2NeedId assignment
                  \<or> evidenceProductId binding \<noteq> a2ProductId assignment \<or> evidenceChainId binding \<noteq> chainText (a2Chain assignment)
                  \<or> evidenceOfferId binding \<noteq> appliedOfferId (a2Checkout assignment)
                  \<or> entryStatus scopeEntry \<noteq> Priced (evidenceEvidenceId binding) then None
               else Some binding))"

definition pricedIds :: "comparison_scope \<Rightarrow> string list" where
  "pricedIds scope = List.map_filter (\<lambda>e. case entryStatus e of Priced i \<Rightarrow> Some i | _ \<Rightarrow> None) (scopeEntries scope)"

definition planScopes :: "(string \<times> comparison_scope list) list \<Rightarrow> string \<Rightarrow> comparison_scope list" where
  "planScopes scopesByPlan ofPlanId = (case map_of scopesByPlan ofPlanId of None \<Rightarrow> [] | Some scopes \<Rightarrow> scopes)"

text \<open>The needs of a plan against the first one's, in the order of their identifiers.\<close>

definition needDeltas :: "plan_v2 \<Rightarrow> plan_v2 \<Rightarrow> need_delta list option" where
  "needDeltas plan reference =
     (if p2Id plan = p2Id reference then Some []
      else
        (let referenceAssignments = newMap (map (\<lambda>a. (a2NeedId a, a)) (p2Assignments reference))
         in parseAll (\<lambda>a. map_option (needDelta a) (map_of referenceAssignments (a2NeedId a)))
              (sort_by (\<lambda>l r. compareText (a2NeedId l) (a2NeedId r)) (p2Assignments plan))))"

definition mismatchedRoute :: "string \<Rightarrow> plan_v2 list \<Rightarrow> nat \<times> route_evidence \<Rightarrow> bool" where
  "mismatchedRoute generatedAt plans = (\<lambda>(index, route).
     index \<ge> length plans \<or> routePlanId route \<noteq> p2Id (plans ! index)
     \<or> aggregateCalculatedAt (routeAggregate route) \<noteq> generatedAt
     \<or> sort_by compareText (map (chainText \<circ> stopChain) (routeStops route))
         \<noteq> sort_by compareText (map chainText (p2Chains (plans ! index))))"

definition objectivesEquivalent :: "plan_v2 list \<Rightarrow> plan_v2 \<Rightarrow> routes_by_plan \<Rightarrow> bool" where
  "objectivesEquivalent plans reference routesByPlan \<longleftrightarrow>
     list_all (\<lambda>p. p2TotalOre p = p2TotalOre reference \<and> length (p2Chains p) = length (p2Chains reference)
         \<and> length (p2Substitutions p) = length (p2Substitutions reference)
         \<and> (routesByPlan = None \<or> routeDuration routesByPlan p = routeDuration routesByPlan reference)) plans"

text \<open>One entry; \<open>allReasons\<close> are the unresolved reasons of all plans.\<close>

definition deltaEntry ::
    "number_format \<Rightarrow> plan_v2 list \<Rightarrow> routes_by_plan \<Rightarrow> (string \<times> comparison_scope list) list \<Rightarrow> withheld_reason list
     \<Rightarrow> nat \<times> plan_v2 \<Rightarrow> plan_delta option" where
  "deltaEntry f plans routesByPlan scopesByPlan allReasons = (\<lambda>(index, plan).
     (let reference = plans ! 0;
          pairScopes = planScopes scopesByPlan (p2Id reference) @ planScopes scopesByPlan (p2Id plan);
          reason = (case unresolvedReasons pairScopes of [] \<Rightarrow> None | r # _ \<Rightarrow> Some r);
          price = priceDelta f plan reference reason
      in case offerSaving f plan reason of
           None \<Rightarrow> None
         | Some saving \<Rightarrow>
             (let stores = storeDelta plan reference
              in case needDeltas plan reference of
                   None \<Rightarrow> None
                 | Some needs \<Rightarrow>
                     (let routeOf = (\<lambda>i. case routesByPlan of None \<Rightarrow> None | Some routes \<Rightarrow> map_of routes i);
                          travel = (case (routeOf (p2Id plan), routeOf (p2Id reference)) of
                              (Some route, Some referenceRoute) \<Rightarrow> Some (travelDelta f (p2Id plan) (p2Id reference) route referenceRoute)
                            | _ \<Rightarrow> None);
                          conveniencePlanId = p2Id (hd (sort_by (compareConvenienceObjective routesByPlan) plans));
                          savingsPlanId = p2Id (hd (sort_by (compareSavingsObjective routesByPlan) plans));
                          shown = presentation (p2Id plan) index (length plans) (objectivesEquivalent plans reference routesByPlan)
                            (allReasons = []) conveniencePlanId savingsPlanId (uniqueShortestTravelPlanId plans routesByPlan)
                      in Some \<lparr>deltaPlanId = p2Id plan, deltaReferenceId = p2Id reference, deltaRole = fst shown, deltaLabel = snd shown,
                           deltaPrice = price, deltaSaving = saving, deltaStores = stores, deltaNeeds = needs, deltaTravel = travel,
                           deltaSummary = joinText '' '' ([priceMessage price, storeMessage stores]
                             @ (case travel of None \<Rightarrow> [] | Some t \<Rightarrow> [travelMessage t]))\<rparr>))))"

definition noPlansSet :: "string \<Rightarrow> market_context \<Rightarrow> delta_set" where
  "noPlansSet generatedAt market =
     \<lparr>setBinding = \<lparr>bindingGeneratedAt = generatedAt, bindingMarket = market, bindingPlanIds = [], bindingEvidenceIds = [],
        bindingOfferIds = [], bindingComparison = BoundNotApplicable, bindingReasons = [], bindingRoutes = None\<rparr>,
      setReferencePlanId = None,
      setQualifier = ''Ingen komplett plan ble returnert, s'' @ [CHR 0xE5] @ '' ingen forskjell er beregnet.'',
      setEntries = []\<rparr>"

definition routeBindingOf :: "route_evidence \<Rightarrow> route_binding" where
  "routeBindingOf route =
     \<lparr>boundPlanId = routePlanId route, boundCalculatedAt = aggregateCalculatedAt (routeAggregate route),
      boundMode = aggregateMode (routeAggregate route), boundProviderId = aggregateProviderId (routeAggregate route),
      boundFingerprint = aggregateFingerprint (routeAggregate route)\<rparr>"

text \<open>The candidate of the last lines, from the plans, the bindings of their assignments and the routes.\<close>

definition deltaCandidate ::
    "number_format \<Rightarrow> string \<Rightarrow> market_context \<Rightarrow> plan_v2 list \<Rightarrow> delta_evidence list list \<Rightarrow> route_evidence list option
     \<Rightarrow> delta_set option" where
  "deltaCandidate f generatedAt market plans bindings routes =
     (let scopesByPlan = newMap (zip (map p2Id plans) (map (map evidenceScope) bindings));
          allReasons = unresolvedReasons (concat (map snd scopesByPlan));
          routesByPlan = map_option (\<lambda>rs. newMap (map (\<lambda>r. (routePlanId r, r)) rs)) routes;
          evidenceIds = uniq (concat (map (\<lambda>b. evidenceEvidenceId b # pricedIds (evidenceScope b)) (concat bindings)));
          officialOfferIds = uniq (List.map_filter evidenceOfferId (concat bindings))
      in case parseAll (deltaEntry f plans routesByPlan scopesByPlan allReasons) (enumerate 0 plans) of
           None \<Rightarrow> None
         | Some entries \<Rightarrow>
             Some \<lparr>setBinding = \<lparr>bindingGeneratedAt = generatedAt, bindingMarket = market, bindingPlanIds = map p2Id plans,
                      bindingEvidenceIds = sort_by compareText evidenceIds, bindingOfferIds = sort_by compareText officialOfferIds,
                      bindingComparison = (if allReasons = [] then BoundComplete else BoundPartial), bindingReasons = allReasons,
                      bindingRoutes = map_option (map routeBindingOf) routes\<rparr>,
                    setReferencePlanId = Some (p2Id (plans ! 0)),
                    setQualifier = ''Forskjellene gjelder bare de returnerte komplette planene i dette pris'' @ [CHR 0xF8]
                      @ ''yeblikket; lager og lokal hyllepris er ikke bekreftet.'',
                    setEntries = entries\<rparr>)"

definition incompletePlan :: "plan_v2 \<Rightarrow> plan_v2 \<Rightarrow> bool" where
  "incompletePlan reference plan \<longleftrightarrow>
     length (p2Chains plan) > 3 \<or> list_ex (\<lambda>(_, state). state \<noteq> ''eligible'') (p2Freshness plan)
     \<or> sort_by compareText (map a2NeedId (p2Assignments plan)) \<noteq> sort_by compareText (map a2NeedId (p2Assignments reference))"

definition derivePlanDeltaExplanationsV1 :: "number_format \<Rightarrow> delta_input \<Rightarrow> delta_set option" where
  "derivePlanDeltaExplanationsV1 f input =
     (case (canonicalTimestampSchema (deltaInputGeneratedAt input), marketContextV1Schema (deltaInputMarket input),
            parseOptional (atMost7 travelRouteEvidenceSchema) (deltaInputRoutes input)) of
        (Some generatedAt, Some market, Some routes) \<Rightarrow>
          (case canonicalPlans (deltaInputPlans input) routes of
             None \<Rightarrow> None
           | Some plans \<Rightarrow>
               if plans = [] then
                 (if length (deltaInputEvidence input) \<noteq> 0 \<or> routes \<noteq> None then None
                  else planDeltaExplanationSetV1Schema (noPlansSet generatedAt market))
               else if list_ex (incompletePlan (plans ! 0)) plans then None
               else (case bindEvidence generatedAt (deltaInputEvidence input) [] of
                   None \<Rightarrow> None
                 | Some bindingByKey \<Rightarrow>
                     if length bindingByKey \<noteq> foldl (\<lambda>t p. t + length (p2Assignments p)) 0 plans then None
                     else (case parseAll (\<lambda>p. parseAll (assignmentBinding bindingByKey p) (p2Assignments p)) plans of
                         None \<Rightarrow> None
                       | Some bindings \<Rightarrow>
                           if (case routes of None \<Rightarrow> False
                               | Some rs \<Rightarrow> list_ex (mismatchedRoute generatedAt plans) (enumerate 0 rs)) then None
                           else (case deltaCandidate f generatedAt market plans bindings routes of
                               None \<Rightarrow> None
                             | Some candidate \<Rightarrow> planDeltaExplanationSetV1Schema candidate))))
      | _ \<Rightarrow> None)"

end
