(* ===== verification/Plan_Delta_Frontier.thy ===== *)
theory Plan_Delta_Frontier
  imports Plan_Delta
begin

text \<open>
  The plans that \<open>derivePlanDeltaExplanationsV1\<close> of \<open>plan-delta-explanations.ts\<close> accepts are the frontier of themselves, in its
  order: the first is the most convenient, and the first or the last is the cheapest.
\<close>

section \<open>Routes\<close>

lemma travelStop_idem:
  assumes "travelPublicBranchStopSchema s = Some t"
  shows "travelPublicBranchStopSchema t = Some t"
proof -
  obtain i n where p: "identifierSchema (stopBranchId s) = Some i" "nonEmptyStringSchema (stopName s) = Some n"
      "positiveSafeInteger (stopSequence s)" "stopSequence s \<le> 3" and t: "t = s\<lparr>stopBranchId := i, stopName := n\<rparr>"
    using assms by (auto simp: travelPublicBranchStopSchema_def split: option.splits if_splits)
  show ?thesis using p(3,4) identifierSchema_idem [OF p(1)] nonEmptyStringSchema_idem [OF p(2)]
    by (simp add: travelPublicBranchStopSchema_def t)
qed

lemma routeAggregate_idem:
  assumes "travelRouteAggregateSchema a = Some b"
  shows "travelRouteAggregateSchema b = Some b"
proof -
  obtain p f where p: "sourceIdSchema (aggregateProviderId a) = Some p" "identifierSchema (aggregateFingerprint a) = Some f"
      "canonicalTimestamp (aggregateCalculatedAt a)" "nonNegativeSafeInteger (aggregateDistanceMeters a)"
      "nonNegativeSafeInteger (aggregateDurationSeconds a)" and b: "b = a\<lparr>aggregateProviderId := p, aggregateFingerprint := f\<rparr>"
    using assms by (auto simp: travelRouteAggregateSchema_def split: option.splits if_splits)
  show ?thesis using p(3-5) sourceIdSchema_idem [OF p(1)] identifierSchema_idem [OF p(2)]
    by (simp add: travelRouteAggregateSchema_def b)
qed

lemma routeEvidence_idem:
  assumes "travelRouteEvidenceSchema e = Some r"
  shows "travelRouteEvidenceSchema r = Some r"
proof -
  obtain a i stops where p: "travelRouteAggregateSchema (routeAggregate e) = Some a" "identifierSchema (routePlanId e) = Some i"
      "parseAll travelPublicBranchStopSchema (routeStops e) = Some stops" "1 \<le> length stops" "length stops \<le> 3" "routeStopsRefinement stops"
    and r: "r = \<lparr>routeAggregate = a, routePlanId = i, routeStops = stops\<rparr>"
    using assms by (auto simp: travelRouteEvidenceSchema_def split: option.splits if_splits)
  have "parseAll travelPublicBranchStopSchema stops = Some stops" using parseAll_idem [OF p(3)] travelStop_idem by blast
  then show ?thesis
    using p(4-6) routeAggregate_idem [OF p(1)] identifierSchema_idem [OF p(2)] by (simp add: travelRouteEvidenceSchema_def r)
qed

lemma atMost7_Some: "atMost7 schema xs = Some ys \<longleftrightarrow> parseAll schema xs = Some ys \<and> length ys \<le> 7"
  by (auto simp: atMost7_def split: option.splits if_splits)

definition routesMap :: "route_evidence list option \<Rightarrow> routes_by_plan" where
  "routesMap routes = map_option (\<lambda>rs. newMap (map (\<lambda>r. (routePlanId r, r)) rs)) routes"

lemma routesMap_find:
  assumes "distinct (map routePlanId rs)"
  shows "routesMap (Some rs) = Some (map (\<lambda>r. (routePlanId r, r)) rs)"
  using assms by (simp add: routesMap_def newMap_distinct_id comp_def)

section \<open>The plans are a frontier\<close>

lemma parsed_travel: "parseTravelV2 (Shaped (CalculatedTravel c)) = Some t \<Longrightarrow> t = c"
  by (auto split: option.splits travel_result.splits if_splits)

lemma matched_routes:
  assumes m: "travelMatches plans (Some (map (\<lambda>(p, r). TravelEntry (p2Id p) (Shaped (CalculatedTravel (calculatedTravelOf r)))) (zip ps rs))) ts"
    and ids: "map routePlanId rs = map p2Id ps"
  shows "ts = map (\<lambda>r. (routePlanId r, calculatedTravelOf r)) rs"
proof -
  have all: "list_all2 (\<lambda>e (i, t). \<exists>raw. e = TravelEntry i raw \<and> parseTravelV2 raw = Some t)
      (map (\<lambda>(p, r). TravelEntry (p2Id p) (Shaped (CalculatedTravel (calculatedTravelOf r)))) (zip ps rs)) ts"
    using m by (simp add: travelMatches_def matchedTravel_def)
  have "length ps = length rs" using ids by (metis length_map)
  then show ?thesis using all ids
  proof (induction ps rs arbitrary: ts rule: list_induct2)
    case (Cons p ps r rs)
    then show ?case by (cases ts) (auto simp del: parseTravelV2.simps dest: parsed_travel)
  qed simp
qed

lemma map_of_calculated:
  "map_of (map (\<lambda>r. (routePlanId r, calculatedTravelOf r)) rs) i = map_option calculatedTravelOf (map_of (map (\<lambda>r. (routePlanId r, r)) rs) i)"
  by (induction rs) auto

lemma orderCandidates_cohort:
  assumes "cohort v cs" shows "orderCandidatesBy v cs = orderCohortBy v cs"
proof (cases "\<exists>c \<in> set cs. hasTravel v c")
  case True
  then have "\<forall>c \<in> set cs. hasTravel v c" using assms unfolding cohort_def by blast
  then have "filter (\<lambda>c. \<not> hasTravel v c) cs = []" "filter (hasTravel v) cs = cs"
    by (simp_all add: filter_empty_conv filter_id_conv)
  then show ?thesis by (simp add: orderCandidatesBy_def orderCohortBy_def [of v "[]"])
next
  case False
  then have "filter (\<lambda>c. \<not> hasTravel v c) cs = cs" "filter (hasTravel v) cs = []"
    by (simp_all add: filter_empty_conv filter_id_conv)
  then show ?thesis by (simp add: orderCandidatesBy_def orderCohortBy_def [of v "[]"])
qed

lemma filter_whole:
  assumes "length (filter P xs) = length xs" shows "filter P xs = xs"
proof (rule filter_True, rule ballI, rule ccontr)
  fix x assume "x \<in> set xs" "\<not> P x"
  then have "length (filter P xs) < length xs" by (rule length_filter_less)
  with assms show False by simp
qed

lemma projected_all:
  assumes result: "canonicalProjectedPlanResultsV2 plans 7 travel = Some results"
    and len: "length results = length plans" "length plans \<le> 7" and ne: "results \<noteq> []"
  obtains cs where "results = map plan_v2.truncate (orderCohortBy frontierViewV2 cs)" "cohort frontierViewV2 cs"
    "distinct (map p2Id cs)" "cs = attachOptionalTravelEvidenceV2 plans travel"
    "\<And>p q. p \<in> set cs \<Longrightarrow> q \<in> set cs \<Longrightarrow> \<not> dominatesBy frontierViewV2 q p"
    "travel = None \<or> (\<exists>ts. travelMatches plans travel ts)"
proof -
  let ?v = frontierViewV2
  define cs where "cs = attachOptionalTravelEvidenceV2 plans travel"
  have d: "distinct (map (viewId ?v) cs)" using attachedV2_distinct by (simp add: cs_def)
  have c: "length (canonicalCandidatesV2 plans) = length plans" "travel = None \<or> plans = [] \<or> (\<exists>ts. travelMatches plans travel ts)"
    and results: "results = map plan_v2.truncate (projectBy ?v (paretoBy ?v cs) 7)"
    using result projectedV2_eq(1) [of plans 7 travel] by (auto simp: cs_def split: if_splits)
  have lc: "length cs = length plans" using c(1) by (simp add: cs_def attachedV2_length)
  have front: "paretoBy ?v cs = orderCandidatesBy ?v (nonDominated (dominatesBy ?v) cs)" by (rule pareto_eq [OF d])
  have dn: "distinct (map (viewId ?v) (nonDominated (dominatesBy ?v) cs))" using d by (simp add: nonDominated_def distinct_map_filter)
  have lf: "length (paretoBy ?v cs) = length (nonDominated (dominatesBy ?v) cs)" unfolding front by (rule orderCandidates_length [OF dn])
  also have "\<dots> \<le> length cs" by (simp add: nonDominated_def)
  finally have "projectBy ?v (paretoBy ?v cs) 7 = paretoBy ?v cs" using lc len(2) by (simp add: projectBy_def)
  then have r: "results = map plan_v2.truncate (paretoBy ?v cs)" using results by simp
  then have "length (nonDominated (dominatesBy ?v) cs) = length cs" using lf len(1) lc by simp
  then have all: "nonDominated (dominatesBy ?v) cs = cs" unfolding nonDominated_def by (rule filter_whole)
  have same: "cohort ?v cs" using attachedV2_mem(4) unfolding cohort_def cs_def by blast
  show thesis
  proof (rule that [of cs])
    show "results = map plan_v2.truncate (orderCohortBy ?v cs)" using r front all orderCandidates_cohort [OF same] by simp
    show "distinct (map p2Id cs)" using d by simp
    show "\<not> dominatesBy ?v q p" if "p \<in> set cs" "q \<in> set cs" for p q
      using all that view_dominance.nonDominated_iff by metis
    show "travel = None \<or> (\<exists>ts. travelMatches plans travel ts)" using c(2) ne len(1) by auto
  qed (simp_all add: cs_def same [unfolded cs_def])
qed

text \<open>The plans explained are the canonical frontier of themselves, with the travel of their routes.\<close>

lemma canonicalPlans_Some:
  assumes "canonicalPlans raw routes = Some plans" and parsed: "optionally (list_all (\<lambda>r. travelRouteEvidenceSchema r = Some r)) routes"
  shows "length plans \<le> 7"
    "routes = Some rs \<Longrightarrow> map routePlanId rs = map p2Id plans"
    "canonicalProjectedPlanResultsV2 (map (\<lambda>p. ShapedCandidate p None) plans) 7
       (map_option (\<lambda>rs. map (\<lambda>(p, r). TravelEntry (p2Id p) (Shaped (CalculatedTravel (calculatedTravelOf r)))) (zip plans rs)) routes)
       = Some plans"
proof -
  have p: "atMost7 planResultV2Schema raw = Some plans"
    using assms(1) by (auto simp: canonicalPlans_def Let_def split: option.splits if_splits)
  then show "length plans \<le> 7" by (simp add: atMost7_Some)
  have fixed: "parseAll travelRouteEvidenceSchema rs = Some rs" if "routes = Some rs" for rs
    using parsed that by (simp add: parseAll_fixed list_all_iff)
  show "map routePlanId rs = map p2Id plans" if r: "routes = Some rs"
  proof (rule nth_equalityI)
    show len: "length (map routePlanId rs) = length (map p2Id plans)"
      using assms(1) p fixed [OF r] r by (auto simp: canonicalPlans_def atMost7_def Let_def split: option.splits if_splits)
    have "\<not> list_ex (\<lambda>(route, plan). routePlanId route \<noteq> p2Id plan) (zip rs plans)"
      using assms(1) p fixed [OF r] r by (auto simp: canonicalPlans_def atMost7_def Let_def split: option.splits if_splits)
    then show "map routePlanId rs ! i = map p2Id plans ! i" if "i < length (map routePlanId rs)" for i
      using that len by (auto simp: list_ex_iff in_set_zip)
  qed
  show "canonicalProjectedPlanResultsV2 (map (\<lambda>p. ShapedCandidate p None) plans) 7
       (map_option (\<lambda>rs. map (\<lambda>(p, r). TravelEntry (p2Id p) (Shaped (CalculatedTravel (calculatedTravelOf r)))) (zip plans rs)) routes)
       = Some plans"
  proof (cases routes)
    case None
    then show ?thesis using assms(1) p by (auto simp: canonicalPlans_def split: if_splits)
  next
    case (Some rs)
    then show ?thesis using assms(1) p fixed [OF Some]
      by (auto simp: canonicalPlans_def atMost7_def Let_def split: option.splits if_splits)
  qed
qed

lemma map_of_zip_ids: "map_of (map (\<lambda>r. (f r, r)) rs) i = find (\<lambda>r. f r = i) rs"
  by (induction rs) auto

lemma canonicalPlans_frontier:
  assumes c: "canonicalPlans raw routes = Some plans" and parsed: "optionally (list_all (\<lambda>r. travelRouteEvidenceSchema r = Some r)) routes"
    and ne: "plans \<noteq> []"
  obtains cs where "plans = map plan_v2.truncate (orderCohortBy frontierViewV2 cs)" "cohort frontierViewV2 cs" "distinct (map p2Id cs)"
    "\<And>p q. p \<in> set cs \<Longrightarrow> q \<in> set cs \<Longrightarrow> \<not> dominatesBy frontierViewV2 q p"
    "\<And>p. p \<in> set cs \<Longrightarrow> travelKey frontierViewV2 p = routeDuration (routesMap routes) (plan_v2.truncate p)"
    "\<And>p. p \<in> set cs \<Longrightarrow> planResultV2Schema (plan_v2.truncate p) = Some (plan_v2.truncate p)"
proof -
  let ?travel = "map_option (\<lambda>rs. map (\<lambda>(p, r). TravelEntry (p2Id p) (Shaped (CalculatedTravel (calculatedTravelOf r)))) (zip plans rs)) routes"
  let ?plans = "map (\<lambda>p. ShapedCandidate p None) plans"
  note s = canonicalPlans_Some [OF c parsed]
  obtain cs where cs: "plans = map plan_v2.truncate (orderCohortBy frontierViewV2 cs)" "cohort frontierViewV2 cs"
      "distinct (map p2Id cs)" "cs = attachOptionalTravelEvidenceV2 ?plans ?travel"
      "\<And>p q. p \<in> set cs \<Longrightarrow> q \<in> set cs \<Longrightarrow> \<not> dominatesBy frontierViewV2 q p"
      "?travel = None \<or> (\<exists>ts. travelMatches ?plans ?travel ts)"
    using projected_all [OF s(3)] s(1) ne by auto
  have mset: "mset (orderCohortBy frontierViewV2 cs) = mset cs" using orderCohort_mset [of frontierViewV2 cs] cs(3) by simp
  show thesis
  proof (rule that [of cs])
    fix p assume p: "p \<in> set cs"
    show "planResultV2Schema (plan_v2.truncate p) = Some (plan_v2.truncate p)"
      using attachedV2_mem(3) p unfolding cs(4) .
    show "travelKey frontierViewV2 p = routeDuration (routesMap routes) (plan_v2.truncate p)"
    proof (cases routes)
      case None
      then have "\<not> travelMatches ?plans ?travel ts" for ts by (simp add: travelMatches_def)
      from attachV2_unmatched_mset [OF this] have "p \<in> set (pricedPlans ?plans)" using p cs(4) by (metis set_mset_mset)
      then show ?thesis using None pricedPlans_mem(2) by (simp add: travelKey_def routeDuration_def routesMap_def)
    next
      case (Some rs)
      then obtain ts where m: "travelMatches ?plans ?travel ts" using cs(6) by auto
      note ids = s(2) [OF Some]
      have "ts = map (\<lambda>r. (routePlanId r, calculatedTravelOf r)) rs"
        using m ids unfolding Some option.map by (rule matched_routes)
      then have found: "map_of ts i = map_option calculatedTravelOf (map_of (map (\<lambda>r. (routePlanId r, r)) rs) i)" for i
        by (simp add: map_of_calculated)
      from attachV2_matched_mset [OF m] obtain q where q: "q \<in> set (pricedPlans ?plans)" "p = q\<lparr>frontierTravel2 := map_of ts (p2Id q)\<rparr>"
        using p cs(4) by (metis (no_types, lifting) image_iff set_map set_mset_mset)
      have "map p2Id plans = map p2Id (orderCohortBy frontierViewV2 cs)" unfolding cs(1) by (simp add: plan_v2.truncate_def)
      then have "mset (map p2Id plans) = mset (map p2Id cs)" using mset by simp
      then have "distinct (map routePlanId rs)" using cs(3) ids by (metis mset_eq_imp_distinct_iff)
      then have "routesMap routes = Some (map (\<lambda>r. (routePlanId r, r)) rs)" unfolding Some by (rule routesMap_find)
      then show ?thesis
        using found [of "p2Id q"] q(2)
        by (cases "map_of (map (\<lambda>r. (routePlanId r, r)) rs) (p2Id q)")
          (simp_all add: travelKey_def routeDuration_def plan_v2.truncate_def calculatedTravelOf_def)
    qed
  qed (rule cs(1), rule cs(2), rule cs(3), erule (1) cs(5))
qed

section \<open>The first plan is the most convenient, the cheapest comes first or last\<close>

lemma compareRoutes_eq: "compareRoutes R = (\<lambda>left right. routeDuration R left - routeDuration R right)"
  by (intro ext) (auto simp: compareRoutes_def routeDuration_def)

interpretation by_convenience_objective: comparator "compareConvenienceObjective R" for R
  unfolding compareConvenienceObjective_def compareRoutes_eq by (intro comparator_intros)

interpretation by_savings_objective: comparator "compareSavingsObjective R" for R
  unfolding compareSavingsObjective_def compareRoutes_eq by (intro comparator_intros)

lemma truncate_fields:
  "p2Id (plan_v2.truncate p) = p2Id p" "p2TotalOre (plan_v2.truncate p) = p2TotalOre p" "p2Chains (plan_v2.truncate p) = p2Chains p"
  "p2Substitutions (plan_v2.truncate p) = p2Substitutions p"
  by (simp_all add: plan_v2.truncate_def)

lemma objective_signs:
  assumes "travelKey frontierViewV2 p = routeDuration R (plan_v2.truncate p)" "travelKey frontierViewV2 q = routeDuration R (plan_v2.truncate q)"
  shows "compareConvenienceObjective R (plan_v2.truncate p) (plan_v2.truncate q) \<le> 0 \<longleftrightarrow> convenienceKey frontierViewV2 p q \<le> 0"
    "compareSavingsObjective R (plan_v2.truncate p) (plan_v2.truncate q) \<le> 0 \<longleftrightarrow> savingsKey frontierViewV2 p q \<le> 0"
  unfolding compareConvenienceObjective_def compareSavingsObjective_def convenienceKey_def savingsKey_def compareRoutes_eq
    assms [symmetric] truncate_fields frontierViewV2_simps
  by (auto simp: js_or_def compareNumber_def)

lemma objective_ids:
  "compareConvenienceObjective R p q = 0 \<Longrightarrow> p2Id p = p2Id q" "compareSavingsObjective R p q = 0 \<Longrightarrow> p2Id p = p2Id q"
  by (simp_all add: compareConvenienceObjective_def compareSavingsObjective_def js_or_0)

text \<open>What the derivation relies on: the plans it is given are ordered.\<close>

definition orderedPlans :: "routes_by_plan \<Rightarrow> plan_v2 list \<Rightarrow> bool" where
  "orderedPlans R plans \<longleftrightarrow>
     (\<forall>p \<in> set plans. compareConvenienceObjective R (hd plans) p \<le> 0)
     \<and> ((\<forall>p \<in> set plans. compareSavingsObjective R (hd plans) p \<le> 0) \<or> (\<forall>p \<in> set plans. compareSavingsObjective R (last plans) p \<le> 0))"

lemma canonicalPlans_ordered:
  assumes c: "canonicalPlans raw routes = Some plans" and parsed: "optionally (list_all (\<lambda>r. travelRouteEvidenceSchema r = Some r)) routes"
    and ne: "plans \<noteq> []"
  shows "orderedPlans (routesMap routes) plans" "distinct (map p2Id plans)" "\<And>p. p \<in> set plans \<Longrightarrow> planResultV2Schema p = Some p"
proof -
  let ?v = frontierViewV2
  obtain cs where cs: "plans = map plan_v2.truncate (orderCohortBy ?v cs)" "cohort ?v cs" "distinct (map p2Id cs)"
      "\<And>p q. p \<in> set cs \<Longrightarrow> q \<in> set cs \<Longrightarrow> \<not> dominatesBy ?v q p"
      "\<And>p. p \<in> set cs \<Longrightarrow> travelKey ?v p = routeDuration (routesMap routes) (plan_v2.truncate p)"
      "\<And>p. p \<in> set cs \<Longrightarrow> planResultV2Schema (plan_v2.truncate p) = Some (plan_v2.truncate p)"
    using canonicalPlans_frontier [OF c parsed ne] by metis
  have d: "distinct (map (viewId ?v) cs)" using cs(3) by simp
  have m: "mset (orderCohortBy ?v cs) = mset cs" by (rule orderCohort_mset [OF d])
  then have set: "set (orderCohortBy ?v cs) = set cs" by (rule mset_eq_setD)
  then have plans: "set plans = plan_v2.truncate ` set cs" by (simp add: cs(1))
  show "planResultV2Schema p = Some p" if "p \<in> set plans" for p using that cs(6) unfolding plans by auto
  have "map p2Id plans = map p2Id (orderCohortBy ?v cs)" unfolding cs(1) by (simp add: plan_v2.truncate_def)
  moreover have "mset (map p2Id (orderCohortBy ?v cs)) = mset (map p2Id cs)" using m by simp
  ultimately show "distinct (map p2Id plans)" using cs(3) by (metis mset_eq_imp_distinct_iff)
  have oc: "orderCohortBy ?v cs \<noteq> []" using ne cs(1) by auto
  then have hd: "hd plans = plan_v2.truncate (hd (orderCohortBy ?v cs))" "hd (orderCohortBy ?v cs) \<in> set cs"
    and last: "last plans = plan_v2.truncate (last (orderCohortBy ?v cs))" "last (orderCohortBy ?v cs) \<in> set cs"
    using set by (simp_all add: cs(1) hd_map last_map flip: set)
  note ends = orderCohort_ends [OF cs(2) d]
  have conv: "compareConvenienceObjective (routesMap routes) (hd plans) p \<le> 0" if "p \<in> set plans" for p
    using that ends(1) objective_signs(1) [OF cs(5) cs(5)] hd unfolding plans by auto
  have "savingsKey ?v (hd (orderCohortBy ?v cs)) p \<le> 0 \<or> savingsKey ?v (last (orderCohortBy ?v cs)) p \<le> 0" if "p \<in> set cs" for p
    using ends(2) that .
  then have "(\<forall>p \<in> set cs. savingsKey ?v (hd (orderCohortBy ?v cs)) p \<le> 0) \<or> (\<forall>p \<in> set cs. savingsKey ?v (last (orderCohortBy ?v cs)) p \<le> 0)"
    by (meson by_savings.cmp_total by_savings.cmp_trans)
  then have "(\<forall>p \<in> set plans. compareSavingsObjective (routesMap routes) (hd plans) p \<le> 0)
      \<or> (\<forall>p \<in> set plans. compareSavingsObjective (routesMap routes) (last plans) p \<le> 0)"
    using objective_signs(2) [OF cs(5) cs(5)] hd last unfolding plans by auto
  then show "orderedPlans (routesMap routes) plans" using conv by (simp add: orderedPlans_def)
qed

end
