(* ===== verification/Plan_Delta_Evidence.thy ===== *)
theory Plan_Delta_Evidence
  imports Plan_Delta_Frontier
begin

text \<open>
  The evidence that \<open>derivePlanDeltaExplanationsV1\<close> binds: one admitted piece for every assignment, pricing it. The input that
  can be explained is a predicate, \<open>explainable\<close>, and the derivation gets as far as its candidate exactly for such an input.
\<close>

section \<open>The evidence of each assignment\<close>

lemma coverageStatus_idem: "coverageStatusSchema s = Some t \<Longrightarrow> coverageStatusSchema t = Some t"
proof (cases s)
  case (IneligibleCoverage i reason evaluatedAt)
  assume "coverageStatusSchema s = Some t"
  then obtain j where j: "parseOptional identifierSchema i = Some j" and t: "canonicalTimestamp evaluatedAt" "t = IneligibleCoverage j reason evaluatedAt"
    using IneligibleCoverage by (auto split: option.splits if_splits)
  have "parseOptional identifierSchema j = Some j" using parseOptional_idem [OF j] identifierSchema_idem by blast
  then show ?thesis using t by simp
qed (auto split: option.splits if_splits dest: identifierSchema_idem sourceIdSchema_idem)

lemma comparisonEntry_idem:
  assumes "comparisonEntrySchema e = Some e'"
  shows "comparisonEntrySchema e' = Some e'"
proof -
  obtain c s where p: "identifierSchema (entryChainId e) = Some c" "coverageStatusSchema (entryStatus e) = Some s"
    and e': "e' = \<lparr>entryChainId = c, entryStatus = s\<rparr>"
    using assms by (auto simp: comparisonEntrySchema_def split: option.splits)
  show ?thesis using identifierSchema_idem [OF p(1)] coverageStatus_idem [OF p(2)] by (simp add: comparisonEntrySchema_def e')
qed

lemma comparisonScope_idem:
  assumes "comparisonScopeSchema s = Some t"
  shows "comparisonScopeSchema t = Some t"
proof -
  obtain expected entries where p: "parseAll identifierSchema (scopeExpectedChainIds s) = Some expected"
      "parseAll comparisonEntrySchema (scopeEntries s) = Some entries"
    and c: "canonicalTimestamp (scopeEvaluatedAt s)" "1 \<le> length expected" "1 \<le> length entries" "comparisonScopeRefinement t"
    and t: "t = s\<lparr>scopeExpectedChainIds := expected, scopeEntries := entries\<rparr>"
    using assms by (auto simp: comparisonScopeSchema_def Let_def split: option.splits if_splits)
  have "parseAll identifierSchema expected = Some expected" by (rule parseAll_idem [OF p(1)]) (rule identifierSchema_idem)
  moreover have "parseAll comparisonEntrySchema entries = Some entries" by (rule parseAll_idem [OF p(2)]) (rule comparisonEntry_idem)
  ultimately show ?thesis using c by (simp add: comparisonScopeSchema_def t)
qed

text \<open>The binding a piece of evidence becomes: its scope is parsed.\<close>

definition boundAs :: "string \<Rightarrow> delta_evidence \<Rightarrow> delta_evidence \<Rightarrow> bool" where
  "boundAs generatedAt raw b \<longleftrightarrow>
     (\<exists>scope. comparisonScopeSchema (evidenceScope raw) = Some scope \<and> scopeEvaluatedAt scope = generatedAt \<and> b = raw\<lparr>evidenceScope := scope\<rparr>)"

definition keyOf :: "delta_evidence \<Rightarrow> string" where
  "keyOf b = bindingKey (evidencePlanId b) (evidenceNeedId b)"

lemma boundAs_fields:
  "boundAs generatedAt raw b \<Longrightarrow> evidencePlanId b = evidencePlanId raw \<and> evidenceNeedId b = evidenceNeedId raw
     \<and> evidenceProductId b = evidenceProductId raw \<and> evidenceChainId b = evidenceChainId raw \<and> evidenceEvidenceId b = evidenceEvidenceId raw
     \<and> evidenceOfferId b = evidenceOfferId raw \<and> comparisonScopeSchema (evidenceScope raw) = Some (evidenceScope b)
     \<and> scopeEvaluatedAt (evidenceScope b) = generatedAt"
  by (auto simp: boundAs_def)

lemma bindEvidence_Some:
  assumes "bindEvidence generatedAt raws m = Some m'" and "distinct (map fst m)"
  shows "\<exists>bs. list_all2 (boundAs generatedAt) raws bs \<and> m' = m @ map (\<lambda>b. (keyOf b, b)) bs \<and> distinct (map fst m')"
  using assms
proof (induction generatedAt raws m rule: bindEvidence.induct)
  case (2 generatedAt raw rest m)
  let ?key = "bindingKey (evidencePlanId raw) (evidenceNeedId raw)"
  obtain scope where scope: "comparisonScopeSchema (evidenceScope raw) = Some scope" "scopeEvaluatedAt scope = generatedAt"
    and new: "map_of m ?key = None"
    and more: "bindEvidence generatedAt rest (AList.update ?key (raw\<lparr>evidenceScope := scope\<rparr>) m) = Some m'"
    using 2(2) by (auto simp: Let_def split: option.splits if_splits)
  let ?b = "raw\<lparr>evidenceScope := scope\<rparr>"
  have fresh: "?key \<notin> fst ` set m" using new by (simp add: map_of_eq_None_iff)
  have grown: "AList.update ?key ?b m = m @ [(keyOf ?b, ?b)]" using update_fresh [OF fresh] by (simp add: keyOf_def)
  have "distinct (map fst (AList.update ?key ?b m))" using fresh 2(3) unfolding grown by (simp add: keyOf_def)
  from 2(1) [OF scope(1) _ refl _ more this] scope(2) new
  obtain bs where bs: "list_all2 (boundAs generatedAt) rest bs" "m' = (m @ [(keyOf ?b, ?b)]) @ map (\<lambda>b. (keyOf b, b)) bs" "distinct (map fst m')"
    unfolding grown by auto
  have "boundAs generatedAt raw ?b" using scope by (auto simp: boundAs_def)
  with bs show ?case by (intro exI [of _ "?b # bs"]) simp
qed auto

text \<open>What the binding of an assignment says.\<close>

definition bindingTrue :: "string \<Rightarrow> plan_v2 \<Rightarrow> assignment_v2 \<Rightarrow> delta_evidence \<Rightarrow> bool" where
  "bindingTrue generatedAt p a b \<longleftrightarrow>
     evidencePlanId b = p2Id p \<and> evidenceNeedId b = a2NeedId a \<and> evidenceProductId b = a2ProductId a
     \<and> evidenceChainId b = chainText (a2Chain a) \<and> evidenceOfferId b = appliedOfferId (a2Checkout a)
     \<and> comparisonScopeSchema (evidenceScope b) = Some (evidenceScope b) \<and> scopeEvaluatedAt (evidenceScope b) = generatedAt
     \<and> (\<exists>e \<in> set (scopeEntries (evidenceScope b)). entryChainId e = chainText (a2Chain a) \<and> entryStatus e = Priced (evidenceEvidenceId b))"

lemma assignmentBinding_Some:
  assumes "assignmentBinding m p a = Some b"
  shows "map_of m (bindingKey (p2Id p) (a2NeedId a)) = Some b" "evidencePlanId b = p2Id p" "evidenceNeedId b = a2NeedId a"
    "evidenceProductId b = a2ProductId a" "evidenceChainId b = chainText (a2Chain a)" "evidenceOfferId b = appliedOfferId (a2Checkout a)"
    "\<exists>e \<in> set (scopeEntries (evidenceScope b)). entryChainId e = chainText (a2Chain a) \<and> entryStatus e = Priced (evidenceEvidenceId b)"
proof -
  obtain b' e where b': "map_of m (bindingKey (p2Id p) (a2NeedId a)) = Some b'"
      "find (\<lambda>e. entryChainId e = chainText (a2Chain a)) (scopeEntries (evidenceScope b')) = Some e"
    using assms by (auto simp: assignmentBinding_def split: option.splits)
  with assms have c: "b' = b" "evidencePlanId b = p2Id p" "evidenceNeedId b = a2NeedId a" "evidenceProductId b = a2ProductId a"
      "evidenceChainId b = chainText (a2Chain a)" "evidenceOfferId b = appliedOfferId (a2Checkout a)"
      "entryStatus e = Priced (evidenceEvidenceId b)"
    by (auto simp: assignmentBinding_def split: if_splits)
  show "evidencePlanId b = p2Id p" "evidenceNeedId b = a2NeedId a" "evidenceProductId b = a2ProductId a"
    "evidenceChainId b = chainText (a2Chain a)" "evidenceOfferId b = appliedOfferId (a2Checkout a)" by (rule c)+
  show "map_of m (bindingKey (p2Id p) (a2NeedId a)) = Some b" using b'(1) c(1) by simp
  show "\<exists>e \<in> set (scopeEntries (evidenceScope b)). entryChainId e = chainText (a2Chain a) \<and> entryStatus e = Priced (evidenceEvidenceId b)"
    using b'(2) c(1,7) by (auto dest!: find_SomeD)
qed

section \<open>When there is something to explain\<close>

lemma eligible_states: "planResultV2Schema p = Some p \<Longrightarrow> (k, v) \<in> set (p2Freshness p) \<Longrightarrow> v = ''eligible''"
  using planResultV2_fixedE(4) [of p] unfolding parseAll_fixed
  by (auto simp: freshnessEntry_def split: if_splits)

lemma need_ids: "planResultV2Schema p = Some p \<Longrightarrow> distinct (map a2NeedId (p2Assignments p))"
  using planResultV2_fixedE(12) [of p] by (simp add: planResultV2Refinement_def Let_def)

lemma incompletePlan_iff:
  assumes "planResultV2Schema p = Some p" "planResultV2Schema q = Some q"
  shows "incompletePlan q p \<longleftrightarrow> a2NeedId ` set (p2Assignments p) \<noteq> a2NeedId ` set (p2Assignments q)"
proof -
  have "\<not> length (p2Chains p) > 3" using planResultV2_fixedE(10) [OF assms(1)] by simp
  moreover have "\<not> list_ex (\<lambda>(_, state). state \<noteq> ''eligible'') (p2Freshness p)"
    using eligible_states [OF assms(1)] by (auto simp: list_ex_iff)
  moreover note sort_text_eq [OF need_ids [OF assms(1)] need_ids [OF assms(2)]]
  ultimately show ?thesis unfolding incompletePlan_def set_map by blast
qed

definition needPairs :: "plan_v2 list \<Rightarrow> (string \<times> string) list" where
  "needPairs plans = concat (map (\<lambda>p. map (\<lambda>a. (p2Id p, a2NeedId a)) (p2Assignments p)) plans)"

lemma needPairs_distinct:
  assumes "distinct (map p2Id plans)" and "\<And>p. p \<in> set plans \<Longrightarrow> distinct (map a2NeedId (p2Assignments p))"
  shows "distinct (needPairs plans)"
  using assms
proof (induction plans)
  case (Cons p plans)
  have "distinct (map (\<lambda>a. (p2Id p, a2NeedId a)) (p2Assignments p))" using Cons.prems(2) [of p] by (simp add: distinct_map inj_on_def)
  moreover have "distinct (needPairs plans)" using Cons by simp
  moreover have "set (map (\<lambda>a. (p2Id p, a2NeedId a)) (p2Assignments p)) \<inter> set (needPairs plans) = {}"
    using Cons.prems(1) by (auto simp: needPairs_def)
  ultimately show ?case by (simp add: needPairs_def)
qed (simp add: needPairs_def)

definition pairOf :: "delta_evidence \<Rightarrow> string \<times> string" where
  "pairOf b = (evidencePlanId b, evidenceNeedId b)"

lemma bindings_pairs:
  assumes "list_all2 (\<lambda>p bs. list_all2 (bindingTrue generatedAt p) (p2Assignments p) bs) plans bindings"
  shows "map pairOf (concat bindings) = needPairs plans"
  using assms
proof (induction rule: list_all2_induct)
  case (Cons p plans bs bindings)
  have "map pairOf bs = map (\<lambda>a. (p2Id p, a2NeedId a)) (p2Assignments p)"
    using Cons(1) by (induction rule: list_all2_induct) (simp_all add: bindingTrue_def pairOf_def)
  with Cons show ?case by (simp add: needPairs_def)
qed (simp add: needPairs_def)

definition routesTrue :: "string \<Rightarrow> plan_v2 list \<Rightarrow> route_evidence list option \<Rightarrow> bool" where
  "routesTrue generatedAt plans routes \<longleftrightarrow>
     optionally (\<lambda>rs. list_all2 (\<lambda>r p. travelRouteEvidenceSchema r = Some r \<and> routePlanId r = p2Id p
       \<and> aggregateCalculatedAt (routeAggregate r) = generatedAt \<and> stopChain ` set (routeStops r) = set (p2Chains p)) rs plans) routes"

text \<open>
  The input can be explained: it parses, its plans are the canonical frontier of themselves and buy the same needs, there is
  exactly one admitted piece of evidence for every assignment, which prices it, and the routes are those of the plans.
\<close>

definition explainable :: "delta_input \<Rightarrow> plan_v2 list \<Rightarrow> route_evidence list option \<Rightarrow> delta_evidence list \<Rightarrow> bool" where
  "explainable input plans routes bs \<longleftrightarrow>
     canonicalTimestamp (deltaInputGeneratedAt input) \<and> marketContextV1Schema (deltaInputMarket input) \<noteq> None
     \<and> parseOptional (atMost7 travelRouteEvidenceSchema) (deltaInputRoutes input) = Some routes
     \<and> canonicalPlans (deltaInputPlans input) routes = Some plans \<and> plans \<noteq> []
     \<and> (\<forall>p \<in> set plans. a2NeedId ` set (p2Assignments p) = a2NeedId ` set (p2Assignments (hd plans)))
     \<and> list_all2 (boundAs (deltaInputGeneratedAt input)) (deltaInputEvidence input) bs \<and> distinct (map keyOf bs)
     \<and> mset (map pairOf bs) = mset (needPairs plans)
     \<and> (\<forall>p \<in> set plans. \<forall>a \<in> set (p2Assignments p). \<exists>b \<in> set bs. bindingTrue (deltaInputGeneratedAt input) p a b)
     \<and> routesTrue (deltaInputGeneratedAt input) plans routes"

lemma market_same: "marketContextV1Schema m = Some m' \<Longrightarrow> m' = m"
  by (cases m) (auto split: if_splits)

lemma parsed_routes:
  assumes "parseOptional (atMost7 travelRouteEvidenceSchema) raw = Some routes"
  shows "optionally (list_all (\<lambda>r. travelRouteEvidenceSchema r = Some r)) routes" "optionally (\<lambda>rs. length rs \<le> 7) routes"
proof -
  have "travelRouteEvidenceSchema r = Some r" if "parseAll travelRouteEvidenceSchema xs = Some rs" "r \<in> set rs" for xs rs r
    using parseAll_in [OF that] routeEvidence_idem by blast
  then show "optionally (list_all (\<lambda>r. travelRouteEvidenceSchema r = Some r)) routes" "optionally (\<lambda>rs. length rs \<le> 7) routes"
    using assms by (cases raw; auto simp: atMost7_Some list_all_iff split: option.splits)+
qed

lemma explainable_plans:
  assumes "explainable input plans routes bs"
  shows "plans \<noteq> []" "length plans \<le> 7" "distinct (map p2Id plans)" "\<And>p. p \<in> set plans \<Longrightarrow> planResultV2Schema p = Some p"
    "orderedPlans (routesMap routes) plans" "optionally (list_all (\<lambda>r. travelRouteEvidenceSchema r = Some r)) routes"
    "\<And>rs. routes = Some rs \<Longrightarrow> map routePlanId rs = map p2Id plans" "distinct (needPairs plans)"
proof -
  have c: "canonicalPlans (deltaInputPlans input) routes = Some plans" and ne: "plans \<noteq> []"
    and r: "parseOptional (atMost7 travelRouteEvidenceSchema) (deltaInputRoutes input) = Some routes"
    using assms by (simp_all add: explainable_def)
  note p = parsed_routes [OF r]
  show "plans \<noteq> []" by (rule ne)
  show "length plans \<le> 7" using canonicalPlans_Some(1) [OF c p(1)] .
  note o = canonicalPlans_ordered [OF c p(1) ne]
  show "orderedPlans (routesMap routes) plans" "distinct (map p2Id plans)" by (rule o)+
  show fixed: "planResultV2Schema p = Some p" if "p \<in> set plans" for p using o(3) that .
  show "optionally (list_all (\<lambda>r. travelRouteEvidenceSchema r = Some r)) routes" by (rule p(1))
  show "map routePlanId rs = map p2Id plans" if "routes = Some rs" for rs using canonicalPlans_Some(2) [OF c p(1) that] .
  show "distinct (needPairs plans)" using needPairs_distinct [OF o(2)] need_ids fixed by blast
qed

lemma bindEvidence_complete:
  assumes "list_all2 (boundAs generatedAt) raws bs" and "distinct (map fst m @ map keyOf bs)"
  shows "bindEvidence generatedAt raws m = Some (m @ map (\<lambda>b. (keyOf b, b)) bs)"
  using assms
proof (induction arbitrary: m rule: list_all2_induct)
  case (Cons raw raws b bs)
  obtain scope where scope: "comparisonScopeSchema (evidenceScope raw) = Some scope" "scopeEvaluatedAt scope = generatedAt"
      and b: "b = raw\<lparr>evidenceScope := scope\<rparr>" using Cons(1) by (auto simp: boundAs_def)
  let ?key = "bindingKey (evidencePlanId raw) (evidenceNeedId raw)"
  have key: "keyOf b = ?key" by (simp add: b keyOf_def)
  have fresh: "?key \<notin> fst ` set m" using Cons.prems by (simp add: key)
  then have "AList.update ?key b m = m @ [(keyOf b, b)]" by (simp add: update_fresh key)
  moreover have "map_of m ?key = None" using fresh by (simp add: map_of_eq_None_iff)
  moreover have "bindEvidence generatedAt raws (m @ [(keyOf b, b)]) = Some ((m @ [(keyOf b, b)]) @ map (\<lambda>b. (keyOf b, b)) bs)"
    using Cons.prems by (intro Cons.IH) simp
  ultimately show ?case using scope by (simp add: b [symmetric] Let_def)
qed simp

lemma bindEvidence_all:
  assumes "list_all2 (boundAs generatedAt) raws bs" and "distinct (map keyOf bs)"
  shows "bindEvidence generatedAt raws [] = Some (map (\<lambda>b. (keyOf b, b)) bs)"
  using bindEvidence_complete [OF assms(1), of "[]"] assms(2) by simp

lemma scope_chains: "comparisonScopeSchema s = Some s \<Longrightarrow> distinct (map entryChainId (scopeEntries s))"
proof -
  assume "comparisonScopeSchema s = Some s"
  then have "comparisonScopeRefinement s" by (auto simp: comparisonScopeSchema_def Let_def split: option.splits if_splits)
  then show ?thesis by (simp add: comparisonScopeRefinement_def Let_def)
qed

lemma find_unique:
  assumes "distinct (map f xs)" and "x \<in> set xs"
  shows "find (\<lambda>y. f y = f x) xs = Some x"
  using assms by (induction xs) auto

lemma assignmentBinding_found:
  assumes "distinct (map keyOf bs)" and "b \<in> set bs" and "bindingTrue generatedAt p a b"
  shows "assignmentBinding (map (\<lambda>b. (keyOf b, b)) bs) p a = Some b"
proof -
  obtain e where e: "e \<in> set (scopeEntries (evidenceScope b))" "entryChainId e = chainText (a2Chain a)" "entryStatus e = Priced (evidenceEvidenceId b)"
    using assms(3) by (auto simp: bindingTrue_def)
  have "distinct (map entryChainId (scopeEntries (evidenceScope b)))" using assms(3) by (simp add: bindingTrue_def scope_chains)
  from find_unique [OF this e(1)] have found: "find (\<lambda>e. entryChainId e = chainText (a2Chain a)) (scopeEntries (evidenceScope b)) = Some e"
    by (simp add: e(2))
  have "keyOf b = bindingKey (p2Id p) (a2NeedId a)" using assms(3) by (simp add: bindingTrue_def keyOf_def)
  moreover have "map_of (map (\<lambda>b. (keyOf b, b)) bs) (keyOf b) = Some b" using find_unique [OF assms(1,2)] by (simp add: map_of_zip_ids)
  ultimately show ?thesis using found e(3) assms(3) by (simp add: assignmentBinding_def bindingTrue_def)
qed

lemma total_assignments: "foldl (\<lambda>t p. t + length (p2Assignments p)) 0 plans = length (needPairs plans)"
proof -
  have "foldl (\<lambda>t p. t + length (p2Assignments p)) k plans = k + length (needPairs plans)" for k
    by (induction plans arbitrary: k) (simp_all add: needPairs_def)
  then show ?thesis by simp
qed

lemma all_bound:
  assumes "\<forall>p \<in> set plans. \<forall>a \<in> set (p2Assignments p). \<exists>b. lookup p a = Some b \<and> R p a b"
  obtains bindings where "parseAll (\<lambda>p. parseAll (lookup p) (p2Assignments p)) plans = Some bindings"
    "list_all2 (\<lambda>p bs. list_all2 (R p) (p2Assignments p) bs) plans bindings"
proof -
  let ?bs = "\<lambda>p. map (\<lambda>a. the (lookup p a)) (p2Assignments p)"
  have each: "parseAll (lookup p) (p2Assignments p) = Some (?bs p) \<and> list_all2 (R p) (p2Assignments p) (?bs p)" if "p \<in> set plans" for p
  proof
    show "parseAll (lookup p) (p2Assignments p) = Some (?bs p)"
      unfolding parseAll_Some list.rel_map by (rule list.rel_refl_strong) (use assms that in fastforce)
    show "list_all2 (R p) (p2Assignments p) (?bs p)" unfolding list.rel_map by (rule list.rel_refl_strong) (use assms that in fastforce)
  qed
  show thesis
  proof (rule that [of "map ?bs plans"])
    show "parseAll (\<lambda>p. parseAll (lookup p) (p2Assignments p)) plans = Some (map ?bs plans)"
      using each by (auto simp: parseAll_Some [where xs = plans] list.rel_map intro!: list.rel_refl_strong)
    show "list_all2 (\<lambda>p bs. list_all2 (R p) (p2Assignments p) bs) plans (map ?bs plans)"
      unfolding list.rel_map(2) [where g = ?bs] by (rule list.rel_refl_strong) (use each in blast)
  qed
qed

lemma route_fixedE:
  assumes "travelRouteEvidenceSchema r = Some r"
  shows "travelRouteAggregateSchema (routeAggregate r) = Some (routeAggregate r)" "identifierSchema (routePlanId r) = Some (routePlanId r)"
    "routeStopsRefinement (routeStops r)"
proof -
  obtain a i stops where p: "travelRouteAggregateSchema (routeAggregate r) = Some a" "identifierSchema (routePlanId r) = Some i"
      "routeStopsRefinement stops" and r: "\<lparr>routeAggregate = a, routePlanId = i, routeStops = stops\<rparr> = r"
    using assms by (auto simp: travelRouteEvidenceSchema_def split: option.splits if_splits)
  have "routeAggregate r = a" "routePlanId r = i" "routeStops r = stops"
    using arg_cong [OF r, of routeAggregate] arg_cong [OF r, of routePlanId] arg_cong [OF r, of routeStops] by simp_all
  with p show "travelRouteAggregateSchema (routeAggregate r) = Some (routeAggregate r)" "identifierSchema (routePlanId r) = Some (routePlanId r)"
    "routeStopsRefinement (routeStops r)" by simp_all
qed

lemma routes_matched:
  assumes ids: "\<And>rs. routes = Some rs \<Longrightarrow> map routePlanId rs = map p2Id plans"
    and parsed: "optionally (list_all (\<lambda>r. travelRouteEvidenceSchema r = Some r)) routes"
    and plans: "\<And>p. p \<in> set plans \<Longrightarrow> planResultV2Schema p = Some p"
  shows "(case routes of None \<Rightarrow> False | Some rs \<Rightarrow> list_ex (mismatchedRoute generatedAt plans) (enumerate 0 rs))
    \<longleftrightarrow> \<not> routesTrue generatedAt plans routes"
proof (cases routes)
  case (Some rs)
  have len: "length rs = length plans" using ids [OF Some] by (metis length_map)
  have "mismatchedRoute generatedAt plans (i, rs ! i) \<longleftrightarrow>
      \<not> (travelRouteEvidenceSchema (rs ! i) = Some (rs ! i) \<and> routePlanId (rs ! i) = p2Id (plans ! i)
         \<and> aggregateCalculatedAt (routeAggregate (rs ! i)) = generatedAt \<and> stopChain ` set (routeStops (rs ! i)) = set (p2Chains (plans ! i)))"
    if i: "i < length rs" for i
  proof -
    have r: "travelRouteEvidenceSchema (rs ! i) = Some (rs ! i)" using parsed i by (simp add: Some list_all_iff)
    then have d: "distinct (map (chainText \<circ> stopChain) (routeStops (rs ! i)))"
      using route_fixedE(3) by (simp add: routeStopsRefinement_def)
    have "planResultV2Refinement (plans ! i)" using planResultV2_fixedE(12) plans i len by simp
    then have e: "distinct (map chainText (p2Chains (plans ! i)))" by (simp add: planResultV2Refinement_def Let_def)
    have "sort_by compareText (map (chainText \<circ> stopChain) (routeStops (rs ! i))) = sort_by compareText (map chainText (p2Chains (plans ! i)))
        \<longleftrightarrow> chainText ` stopChain ` set (routeStops (rs ! i)) = chainText ` set (p2Chains (plans ! i))"
      using sort_text_eq [OF d e] by (simp add: image_comp)
    also have "\<dots> \<longleftrightarrow> stopChain ` set (routeStops (rs ! i)) = set (p2Chains (plans ! i))"
      using chainText_inj by (intro inj_image_eq_iff) (auto intro: injI)
    finally show ?thesis using r i len ids [OF Some] by (auto simp: mismatchedRoute_def list_eq_iff_nth_eq)
  qed
  then show ?thesis unfolding Some routesTrue_def list_ex_enumerate option.case optionally.simps list_all2_conv_all_nth
    using len by blast
qed (simp add: routesTrue_def)

lemma derive_explainable:
  assumes ex: "explainable input plans routes bs"
  obtains bindings where
    "list_all2 (\<lambda>p bs. list_all2 (bindingTrue (deltaInputGeneratedAt input) p) (p2Assignments p) bs) plans bindings"
    "set (concat bindings) \<subseteq> set bs"
    "derivePlanDeltaExplanationsV1 f input =
       (case deltaCandidate f (deltaInputGeneratedAt input) (deltaInputMarket input) plans bindings routes of
          None \<Rightarrow> None | Some candidate \<Rightarrow> planDeltaExplanationSetV1Schema candidate)"
proof -
  let ?g = "deltaInputGeneratedAt input" and ?m = "map (\<lambda>b. (keyOf b, b)) bs"
  note p = explainable_plans [OF ex]
  have e: "canonicalTimestamp ?g" "parseOptional (atMost7 travelRouteEvidenceSchema) (deltaInputRoutes input) = Some routes"
      "canonicalPlans (deltaInputPlans input) routes = Some plans"
      "\<forall>p \<in> set plans. a2NeedId ` set (p2Assignments p) = a2NeedId ` set (p2Assignments (hd plans))"
      "list_all2 (boundAs ?g) (deltaInputEvidence input) bs" "distinct (map keyOf bs)" "mset (map pairOf bs) = mset (needPairs plans)"
      "\<forall>p \<in> set plans. \<forall>a \<in> set (p2Assignments p). \<exists>b \<in> set bs. bindingTrue ?g p a b" "routesTrue ?g plans routes"
    using ex unfolding explainable_def by blast+
  have market: "marketContextV1Schema (deltaInputMarket input) = Some (deltaInputMarket input)"
    using ex market_same unfolding explainable_def by (metis not_None_eq)
  have hd: "plans ! 0 = hd plans" using p(1) by (simp add: hd_conv_nth)
  have complete: "\<not> list_ex (incompletePlan (plans ! 0)) plans"
    unfolding hd list_ex_iff using incompletePlan_iff [OF p(4) p(4)] hd_in_set [OF p(1)] e(4) by blast
  have bind: "bindEvidence ?g (deltaInputEvidence input) [] = Some ?m"
    using bindEvidence_all [OF e(5,6)] .
  have "length ?m = length (needPairs plans)" using mset_eq_length [OF e(7)] by simp
  then have size: "length ?m = foldl (\<lambda>t p. t + length (p2Assignments p)) 0 plans" by (simp only: total_assignments)
  have "\<forall>p \<in> set plans. \<forall>a \<in> set (p2Assignments p). \<exists>b. assignmentBinding ?m p a = Some b \<and> (bindingTrue ?g p a b \<and> b \<in> set bs)"
    using e(8) assignmentBinding_found [OF e(6)] by blast
  then obtain bindings where b: "parseAll (\<lambda>p. parseAll (assignmentBinding ?m p) (p2Assignments p)) plans = Some bindings"
      "list_all2 (\<lambda>p cs. list_all2 (\<lambda>a b. bindingTrue ?g p a b \<and> b \<in> set bs) (p2Assignments p) cs) plans bindings"
    by (rule all_bound)
  have "derivePlanDeltaExplanationsV1 f input =
       (case deltaCandidate f ?g (deltaInputMarket input) plans bindings routes of
          None \<Rightarrow> None | Some candidate \<Rightarrow> planDeltaExplanationSetV1Schema candidate)"
    using e(1-3) market p(1) complete bind size b(1) routes_matched [OF p(7) p(6) p(4)] e(9)
    by (simp add: derivePlanDeltaExplanationsV1_def canonicalTimestampSchema_def)
  moreover have "list_all2 (\<lambda>p bs. list_all2 (bindingTrue ?g p) (p2Assignments p) bs) plans bindings"
    by (rule list_all2_mono [OF b(2)]) (erule list_all2_mono, simp)
  moreover have "set (concat bindings) \<subseteq> set bs"
    using b(2) by (induction rule: list_all2_induct) (auto simp: list_all2_conv_all_nth in_set_conv_nth)
  ultimately show thesis using that by blast
qed

lemma list_all2_left: "list_all2 P xs ys \<Longrightarrow> x \<in> set xs \<Longrightarrow> \<exists>y \<in> set ys. P x y"
  by (induction rule: list_all2_induct) auto

lemma mset_of_part:
  assumes "distinct xs" and "set xs \<subseteq> set ys" and "length xs = length ys"
  shows "mset xs = mset ys"
proof -
  have "card (set ys) \<le> card (set xs)" using distinct_card [OF assms(1)] assms(3) card_length [of ys] by simp
  then have sets: "set xs = set ys" using assms(2) by (intro card_seteq) simp_all
  then have "distinct ys" using assms(1,3) by (metis card_distinct distinct_card)
  then show ?thesis using sets assms(1) by (simp add: set_eq_iff_mset_eq_distinct)
qed

lemma bound_lookup:
  assumes "parseAll (\<lambda>p. parseAll (lookup p) (p2Assignments p)) plans = Some bindings"
  shows "list_all2 (\<lambda>p bs. list_all2 (\<lambda>a b. lookup p a = Some b) (p2Assignments p) bs) plans bindings"
  using assms by (simp add: parseAll_Some)

lemma bindings_explained:
  assumes bs: "list_all2 (boundAs generatedAt) raws bs" "distinct (map keyOf bs)"
    and b: "parseAll (\<lambda>p. parseAll (assignmentBinding (map (\<lambda>b. (keyOf b, b)) bs) p) (p2Assignments p)) plans = Some bindings"
    and plans: "distinct (map p2Id plans)" "\<And>p. p \<in> set plans \<Longrightarrow> planResultV2Schema p = Some p"
    and size: "length bs = length (needPairs plans)"
  shows "mset (map pairOf bs) = mset (needPairs plans)"
    "\<forall>p \<in> set plans. \<forall>a \<in> set (p2Assignments p). \<exists>b \<in> set bs. bindingTrue generatedAt p a b"
proof -
  let ?m = "map (\<lambda>b. (keyOf b, b)) bs"
  have true: "bindingTrue generatedAt p a b \<and> b \<in> set bs" if "assignmentBinding ?m p a = Some b" for p a b
  proof -
    note s = assignmentBinding_Some [OF that]
    have "(bindingKey (p2Id p) (a2NeedId a), b) \<in> set ?m" using s(1) by (rule map_of_SomeD)
    then have in_bs: "b \<in> set bs" by auto
    then obtain raw where raw: "boundAs generatedAt raw b" using bs(1) by (meson list_all2_right)
    then have "comparisonScopeSchema (evidenceScope b) = Some (evidenceScope b)" "scopeEvaluatedAt (evidenceScope b) = generatedAt"
      using boundAs_fields comparisonScope_idem by blast+
    with s(2-) in_bs show ?thesis by (simp add: bindingTrue_def)
  qed
  have all: "list_all2 (\<lambda>p cs. list_all2 (bindingTrue generatedAt p) (p2Assignments p) cs) plans bindings"
    by (rule list_all2_mono [OF bound_lookup [OF b]]) (erule list_all2_mono, simp add: true)
  have inside: "set (concat bindings) \<subseteq> set bs"
  proof
    fix b' assume "b' \<in> set (concat bindings)"
    then obtain cs where cs: "cs \<in> set bindings" "b' \<in> set cs" by auto
    obtain p where "list_all2 (\<lambda>a b. assignmentBinding ?m p a = Some b) (p2Assignments p) cs"
      using list_all2_right [OF bound_lookup [OF b] cs(1)] by blast
    from list_all2_right [OF this cs(2)] true show "b' \<in> set bs" by blast
  qed
  note pairs = bindings_pairs [OF all]
  have dn: "distinct (needPairs plans)" using needPairs_distinct [OF plans(1)] need_ids plans(2) by blast
  have "distinct (concat bindings)" using dn pairs by (metis distinct_map)
  moreover have "length (concat bindings) = length bs" using pairs size by (metis length_map)
  ultimately have "mset (concat bindings) = mset bs" using inside by (intro mset_of_part)
  then have "mset (map pairOf bs) = mset (map pairOf (concat bindings))" by simp
  then show "mset (map pairOf bs) = mset (needPairs plans)" using pairs by simp
  show "\<forall>p \<in> set plans. \<forall>a \<in> set (p2Assignments p). \<exists>b \<in> set bs. bindingTrue generatedAt p a b"
  proof (intro ballI)
    fix p a assume p: "p \<in> set plans" and a: "a \<in> set (p2Assignments p)"
    obtain cs where "list_all2 (\<lambda>a b. assignmentBinding ?m p a = Some b) (p2Assignments p) cs"
      using list_all2_left [OF bound_lookup [OF b] p] by blast
    from list_all2_left [OF this a] true show "\<exists>b \<in> set bs. bindingTrue generatedAt p a b" by blast
  qed
qed

lemma derive_Some:
  assumes "derivePlanDeltaExplanationsV1 f input = Some result"
  shows "deltaInputPlans input = [] \<or> (\<exists>plans routes bs. explainable input plans routes bs)"
proof -
  let ?g = "deltaInputGeneratedAt input"
  obtain market routes plans where g: "canonicalTimestamp ?g" "marketContextV1Schema (deltaInputMarket input) = Some market"
      "parseOptional (atMost7 travelRouteEvidenceSchema) (deltaInputRoutes input) = Some routes"
      "canonicalPlans (deltaInputPlans input) routes = Some plans"
    using assms by (auto simp: derivePlanDeltaExplanationsV1_def canonicalTimestampSchema_def split: option.splits if_splits)
  have step: "(if plans = [] then
        (if length (deltaInputEvidence input) \<noteq> 0 \<or> routes \<noteq> None then None else planDeltaExplanationSetV1Schema (noPlansSet ?g market))
      else if list_ex (incompletePlan (plans ! 0)) plans then None
      else (case bindEvidence ?g (deltaInputEvidence input) [] of
          None \<Rightarrow> None
        | Some m \<Rightarrow>
            if length m \<noteq> foldl (\<lambda>t p. t + length (p2Assignments p)) 0 plans then None
            else (case parseAll (\<lambda>p. parseAll (assignmentBinding m p) (p2Assignments p)) plans of
                None \<Rightarrow> None
              | Some bindings \<Rightarrow>
                  if (case routes of None \<Rightarrow> False | Some rs \<Rightarrow> list_ex (mismatchedRoute ?g plans) (enumerate 0 rs)) then None
                  else (case deltaCandidate f ?g market plans bindings routes of
                      None \<Rightarrow> None
                    | Some candidate \<Rightarrow> planDeltaExplanationSetV1Schema candidate)))) = Some result"
    using assms g by (simp only: derivePlanDeltaExplanationsV1_def canonicalTimestampSchema_def if_True option.case prod.case)
  show ?thesis
  proof (cases "plans = []")
    case True
    with g(4) have "canonicalPlans (deltaInputPlans input) routes = Some []" by simp
    then have "atMost7 planResultV2Schema (deltaInputPlans input) = Some []"
      by (auto simp: canonicalPlans_def Let_def split: option.splits if_splits)
    then have "length (deltaInputPlans input) = 0" by (auto simp: atMost7_Some dest: parseAll_length)
    then show ?thesis by simp
  next
    case False
    with step obtain m bindings where c: "\<not> list_ex (incompletePlan (plans ! 0)) plans"
        "bindEvidence ?g (deltaInputEvidence input) [] = Some m"
        "length m = foldl (\<lambda>t p. t + length (p2Assignments p)) 0 plans"
        "parseAll (\<lambda>p. parseAll (assignmentBinding m p) (p2Assignments p)) plans = Some bindings"
        "\<not> (case routes of None \<Rightarrow> False | Some rs \<Rightarrow> list_ex (mismatchedRoute ?g plans) (enumerate 0 rs))"
      by (simp only: if_False) (auto split: option.splits if_splits)
    note p = parsed_routes [OF g(3)]
    note o = canonicalPlans_ordered [OF g(4) p(1) False]
    have hd: "plans ! 0 = hd plans" using False by (simp add: hd_conv_nth)
    have needs: "\<forall>p \<in> set plans. a2NeedId ` set (p2Assignments p) = a2NeedId ` set (p2Assignments (hd plans))"
      using c(1) incompletePlan_iff [OF o(3) o(3)] hd_in_set [OF False] unfolding hd list_ex_iff by blast
    obtain bs where bs: "list_all2 (boundAs ?g) (deltaInputEvidence input) bs" "m = map (\<lambda>b. (keyOf b, b)) bs" "distinct (map keyOf bs)"
      using bindEvidence_Some [OF c(2)] by (auto simp: comp_def)
    have size: "length bs = length (needPairs plans)" using c(3) bs(2) by (simp add: total_assignments)
    note b = bindings_explained [OF bs(1,3) c(4) [unfolded bs(2)] o(2,3) size]
    have "routesTrue ?g plans routes"
      using c(5) routes_matched [OF canonicalPlans_Some(2) [OF g(4) p(1)] p(1) o(3)] by blast
    then have "explainable input plans routes bs"
      using g False needs bs(1,3) b unfolding explainable_def by blast
    then show ?thesis by blast
  qed
qed

end
