(* ===== verification/Plan_Delta_Truth.thy ===== *)
theory Plan_Delta_Truth
  imports Plan_Delta_Evidence
begin

text \<open>
  What a true explanation says, as predicates over the two plans compared and the evidence, and that every part of an entry
  says it: the price, the offer saving, the stores, the needs and the travel.
\<close>

section \<open>What a true explanation says\<close>

fun statusReason :: "coverage_status \<Rightarrow> withheld_reason \<Rightarrow> bool" where
  "statusReason (IneligibleCoverage _ _ _) r = (r = IneligibleWithheld)"
| "statusReason (UnknownCoverage _ _) r = (r = UnknownWithheld)"
| "statusReason (StaleCoverage _ _ _) r = (r = UnknownWithheld)"
| "statusReason _ r = False"

definition reasonIn :: "comparison_scope \<Rightarrow> withheld_reason \<Rightarrow> bool" where
  "reasonIn scope r \<longleftrightarrow> r = PartialWithheld \<and> scopeCompleteness scope = PartialComparison
     \<or> (\<exists>e \<in> set (scopeEntries scope). statusReason (entryStatus e) r)"

lemma scopeReasons_iff: "r \<in> set (scopeReasons scope) \<longleftrightarrow> reasonIn scope r"
proof -
  have "r \<in> set (case s of IneligibleCoverage _ _ _ \<Rightarrow> [IneligibleWithheld] | UnknownCoverage _ _ \<Rightarrow> [UnknownWithheld]
      | StaleCoverage _ _ _ \<Rightarrow> [UnknownWithheld] | _ \<Rightarrow> []) \<longleftrightarrow> statusReason s r" for s
    by (cases s) auto
  then show ?thesis by (auto simp: scopeReasons_def reasonIn_def)
qed

lemma unresolvedReasons_iff: "r \<in> set (unresolvedReasons scopes) \<longleftrightarrow> (\<exists>s \<in> set scopes. reasonIn s r)"
  by (cases r) (auto simp: unresolvedReasons_def Let_def scopeReasons_iff)

text \<open>An admitted scope has an unresolved reason just when it is partial.\<close>

lemma reasonIn_partial:
  assumes "comparisonScopeSchema s = Some s"
  shows "(\<exists>r. reasonIn s r) \<longleftrightarrow> scopeCompleteness s = PartialComparison"
proof -
  have "comparisonScopeRefinement s" using assms by (auto simp: comparisonScopeSchema_def Let_def split: option.splits if_splits)
  then have resolved: "resolvedStatus (entryStatus e)" if "scopeCompleteness s = CompleteComparison" "e \<in> set (scopeEntries s)" for e
    using that by (auto simp: comparisonScopeRefinement_def Let_def list_ex_iff)
  have "\<not> statusReason t r" if "resolvedStatus t" for t r using that by (cases t) simp_all
  with resolved show ?thesis unfolding reasonIn_def by (metis completeness.exhaust)
qed

definition fullyCompared :: "delta_evidence list \<Rightarrow> string set \<Rightarrow> bool" where
  "fullyCompared bs ids \<longleftrightarrow> (\<forall>b \<in> set bs. evidencePlanId b \<in> ids \<longrightarrow> scopeCompleteness (evidenceScope b) = CompleteComparison)"

definition withheldFor :: "delta_evidence list \<Rightarrow> string set \<Rightarrow> withheld_reason \<Rightarrow> bool" where
  "withheldFor bs ids r \<longleftrightarrow> (\<exists>b \<in> set bs. evidencePlanId b \<in> ids \<and> reasonIn (evidenceScope b) r)"

fun priceTrue :: "delta_evidence list \<Rightarrow> plan_v2 \<Rightarrow> plan_v2 \<Rightarrow> price_delta \<Rightarrow> bool" where
  "priceTrue bs first p (ReferencePrice _) \<longleftrightarrow> p = first"
| "priceTrue bs first p (SamePrice _) \<longleftrightarrow> p \<noteq> first \<and> fullyCompared bs {p2Id first, p2Id p} \<and> p2TotalOre p = p2TotalOre first"
| "priceTrue bs first p (CheaperPrice difference saving _) \<longleftrightarrow>
     p \<noteq> first \<and> fullyCompared bs {p2Id first, p2Id p} \<and> 0 < difference \<and> p2TotalOre p + difference = p2TotalOre first \<and> saving = difference"
| "priceTrue bs first p (MoreExpensivePrice difference _) \<longleftrightarrow>
     p \<noteq> first \<and> fullyCompared bs {p2Id first, p2Id p} \<and> 0 < difference \<and> p2TotalOre p = p2TotalOre first + difference"
| "priceTrue bs first p (WithheldPrice r _) \<longleftrightarrow> p \<noteq> first \<and> withheldFor bs {p2Id first, p2Id p} r"

fun savingTrue :: "delta_evidence list \<Rightarrow> plan_v2 \<Rightarrow> plan_v2 \<Rightarrow> offer_saving \<Rightarrow> bool" where
  "savingTrue bs first p (NoSaving _) \<longleftrightarrow>
     fullyCompared bs {p2Id first, p2Id p} \<and> (\<forall>a \<in> set (p2Assignments p). appliedOfferId (a2Checkout a) = None)"
| "savingTrue bs first p (DocumentedSaving amount _) \<longleftrightarrow>
     fullyCompared bs {p2Id first, p2Id p} \<and> 0 < amount
     \<and> p2TotalOre p + amount = sum_list (map (\<lambda>a. ordinaryTotalOre (a2Checkout a)) (p2Assignments p))"
| "savingTrue bs first p (WithheldSaving r _) \<longleftrightarrow> withheldFor bs {p2Id first, p2Id p} r"

definition storesTrue :: "plan_v2 \<Rightarrow> plan_v2 \<Rightarrow> store_delta \<Rightarrow> bool" where
  "storesTrue first p s \<longleftrightarrow>
     storeCount s = card (a2Chain ` set (p2Assignments p)) \<and> set (storeChainIds s) = a2Chain ` set (p2Assignments p)
     \<and> storeReferenceCount s = card (a2Chain ` set (p2Assignments first)) \<and> set (storeReferenceChainIds s) = a2Chain ` set (p2Assignments first)
     \<and> set (storeAdded s) = a2Chain ` set (p2Assignments p) - a2Chain ` set (p2Assignments first)
     \<and> set (storeRemoved s) = a2Chain ` set (p2Assignments first) - a2Chain ` set (p2Assignments p)"

fun productTrue :: "assignment_v2 \<Rightarrow> assignment_v2 \<Rightarrow> product_delta \<Rightarrow> bool" where
  "productTrue a b (SameProduct i g) \<longleftrightarrow> a2ProductId a = i \<and> a2ProductId b = i \<and> a2Ean a = g \<and> a2Ean b = g"
| "productTrue a b (ChangedProduct i g j k) \<longleftrightarrow>
     (a2ProductId b, a2Ean b) = (i, g) \<and> (a2ProductId a, a2Ean a) = (j, k) \<and> (i, g) \<noteq> (j, k)"

fun quantityTrue :: "assignment_v2 \<Rightarrow> assignment_v2 \<Rightarrow> quantity_delta \<Rightarrow> bool" where
  "quantityTrue a b (SameQuantity q) \<longleftrightarrow> quantitySnapshot a = q \<and> quantitySnapshot b = q"
| "quantityTrue a b (ChangedQuantity q r) \<longleftrightarrow> quantitySnapshot b = q \<and> quantitySnapshot a = r \<and> q \<noteq> r"

fun offerTrue :: "assignment_v2 \<Rightarrow> assignment_v2 \<Rightarrow> offer_delta \<Rightarrow> bool" where
  "offerTrue a b (SameOffer i) \<longleftrightarrow> appliedOfferId (a2Checkout a) = i \<and> appliedOfferId (a2Checkout b) = i"
| "offerTrue a b (AddedOffer i) \<longleftrightarrow> appliedOfferId (a2Checkout a) = Some i \<and> appliedOfferId (a2Checkout b) = None"
| "offerTrue a b (RemovedOffer i) \<longleftrightarrow> appliedOfferId (a2Checkout a) = None \<and> appliedOfferId (a2Checkout b) = Some i"
| "offerTrue a b (ChangedOffer i j) \<longleftrightarrow>
     appliedOfferId (a2Checkout b) = Some i \<and> appliedOfferId (a2Checkout a) = Some j \<and> i \<noteq> j"

fun chainTrue :: "assignment_v2 \<Rightarrow> assignment_v2 \<Rightarrow> chain_delta \<Rightarrow> bool" where
  "chainTrue a b (SameChain c) \<longleftrightarrow> a2Chain a = c \<and> a2Chain b = c"
| "chainTrue a b (ChangedChain c d) \<longleftrightarrow> a2Chain b = c \<and> a2Chain a = d \<and> c \<noteq> d"

definition needTrue :: "plan_v2 \<Rightarrow> plan_v2 \<Rightarrow> need_delta \<Rightarrow> bool" where
  "needTrue first p d \<longleftrightarrow>
     (\<exists>a \<in> set (p2Assignments p). \<exists>b \<in> set (p2Assignments first). a2NeedId a = deltaNeedId d \<and> a2NeedId b = deltaNeedId d
        \<and> productTrue a b (deltaProduct d) \<and> quantityTrue a b (deltaQuantity d) \<and> offerTrue a b (deltaOffer d) \<and> chainTrue a b (deltaChain d))"

definition needsTrue :: "plan_v2 \<Rightarrow> plan_v2 \<Rightarrow> need_delta list \<Rightarrow> bool" where
  "needsTrue first p needs \<longleftrightarrow>
     (if p = first then needs = []
      else sorted_wrt (<) (map deltaNeedId needs) \<and> deltaNeedId ` set needs = a2NeedId ` set (p2Assignments p)
           \<and> list_all (needTrue first p) needs)"

fun axisTrue :: "int \<Rightarrow> int \<Rightarrow> axis_delta \<Rightarrow> bool" where
  "axisTrue x y SameAxis \<longleftrightarrow> x = y"
| "axisTrue x y (LessAxis d) \<longleftrightarrow> 0 < d \<and> x + d = y"
| "axisTrue x y (MoreAxis d) \<longleftrightarrow> 0 < d \<and> x = y + d"

fun travelTrue :: "route_evidence \<Rightarrow> route_evidence \<Rightarrow> travel_delta \<Rightarrow> bool" where
  "travelTrue first r (ReferenceTravel _) \<longleftrightarrow> routePlanId r = routePlanId first"
| "travelTrue first r (ComparedTravel duration distance _) \<longleftrightarrow>
     routePlanId r \<noteq> routePlanId first
     \<and> axisTrue (aggregateDurationSeconds (routeAggregate r)) (aggregateDurationSeconds (routeAggregate first)) duration
     \<and> axisTrue (aggregateDistanceMeters (routeAggregate r)) (aggregateDistanceMeters (routeAggregate first)) distance"

definition entryTrue :: "delta_evidence list \<Rightarrow> plan_v2 \<Rightarrow> plan_v2 \<Rightarrow> plan_delta \<Rightarrow> bool" where
  "entryTrue bs first p e \<longleftrightarrow>
     deltaPlanId e = p2Id p \<and> deltaReferenceId e = p2Id first \<and> priceTrue bs first p (deltaPrice e) \<and> savingTrue bs first p (deltaSaving e)
     \<and> storesTrue first p (deltaStores e) \<and> needsTrue first p (deltaNeeds e)"

lemma changes_true:
  "productTrue a b (productChange a b)" "quantityTrue a b (quantityChange a b)" "offerTrue a b (offerChange a b)" "chainTrue a b (chainChange a b)"
  by (auto simp: productChange_def quantityChange_def offerChange_def chainChange_def split: option.splits)

lemma axisDelta_true: "axisTrue x y (axisDelta x y)"
  by (simp add: axisDelta_def Let_def)

lemma travelDelta_true: "travelTrue first r (travelDelta f (routePlanId r) (routePlanId first) r first)"
  by (simp add: travelDelta_def Let_def axisDelta_true)

section \<open>The parts of an entry are true\<close>

lemma price_true:
  assumes "fullyCompared bs {p2Id first, p2Id p} \<longleftrightarrow> reason = None" and "\<And>r. reason = Some r \<Longrightarrow> withheldFor bs {p2Id first, p2Id p} r"
    and "p2Id p = p2Id first \<longleftrightarrow> p = first"
  shows "priceTrue bs first p (priceDelta f p first reason)"
  using assms by (cases reason) (auto simp: priceDelta_def Let_def)

definition totalSaving :: "plan_v2 \<Rightarrow> int" where
  "totalSaving p = sum_list (map (\<lambda>a. savingOre (a2Checkout a)) (p2Assignments p))"

lemma totalSaving_eq:
  assumes "planResultV2Schema p = Some p"
  shows "p2TotalOre p + totalSaving p = sum_list (map (\<lambda>a. ordinaryTotalOre (a2Checkout a)) (p2Assignments p))"
    "0 \<le> totalSaving p" "totalSaving p = 0 \<longleftrightarrow> (\<forall>a \<in> set (p2Assignments p). appliedOfferId (a2Checkout a) = None)"
proof -
  note a = plan_assignments [OF assms]
  have "p2TotalOre p = sum_list (map a2CostOre (p2Assignments p))"
    using planResultV2_fixedE(12) [OF assms] by (simp add: planResultV2Refinement_def Let_def foldl_sum)
  also have "\<dots> = sum_list (map (\<lambda>a. ordinaryTotalOre (a2Checkout a) - savingOre (a2Checkout a)) (p2Assignments p))"
    using a(2) by (simp cong: map_cong)
  finally show "p2TotalOre p + totalSaving p = sum_list (map (\<lambda>a. ordinaryTotalOre (a2Checkout a)) (p2Assignments p))"
    by (simp add: totalSaving_def sum_list_subtractf)
  show "0 \<le> totalSaving p" unfolding totalSaving_def using a(4) by (intro sum_list_nonneg) auto
  have "sum_list (map s xs) = 0 \<longleftrightarrow> (\<forall>x \<in> set xs. s x = 0)" if "\<forall>x \<in> set xs. 0 \<le> s x" for s :: "assignment_v2 \<Rightarrow> int" and xs
    using that sum_list_nonneg_eq_0_iff [of "map s xs"] by auto
  then show "totalSaving p = 0 \<longleftrightarrow> (\<forall>a \<in> set (p2Assignments p). appliedOfferId (a2Checkout a) = None)"
    unfolding totalSaving_def using a(3,4) by auto
qed

lemma saving_true:
  assumes plan: "planResultV2Schema p = Some p" and "fullyCompared bs {p2Id first, p2Id p} \<longleftrightarrow> reason = None"
    and "\<And>r. reason = Some r \<Longrightarrow> withheldFor bs {p2Id first, p2Id p} r"
  shows "offerSaving f p reason = Some s \<Longrightarrow> savingTrue bs first p s"
    "offerSaving f p reason = None \<longleftrightarrow> fullyCompared bs {p2Id first, p2Id p} \<and> MAX_SAFE_INTEGER < totalSaving p"
proof -
  have total: "foldl (\<lambda>t a. t + savingOre (a2Checkout a)) 0 (p2Assignments p) = totalSaving p" by (simp add: totalSaving_def foldl_sum)
  note t = totalSaving_eq [OF plan]
  show "savingTrue bs first p s" if "offerSaving f p reason = Some s"
    using that assms(2,3) t by (cases reason) (auto simp: offerSaving_def total Let_def split: if_splits)
  show "offerSaving f p reason = None \<longleftrightarrow> fullyCompared bs {p2Id first, p2Id p} \<and> MAX_SAFE_INTEGER < totalSaving p"
    using assms(2) by (cases reason) (auto simp: offerSaving_def total Let_def)
qed

lemma plan_chains:
  assumes "planResultV2Schema p = Some p"
  shows "distinct (p2Chains p)" "set (p2Chains p) = a2Chain ` set (p2Assignments p)" "length (p2Chains p) = card (a2Chain ` set (p2Assignments p))"
proof -
  have r: "planResultV2Refinement p" using planResultV2_fixedE(12) [OF assms] .
  then show d: "distinct (p2Chains p)" by (simp add: planResultV2Refinement_def Let_def distinct_map)
  have "sort_by compareText (map chainText (uniq (map a2Chain (p2Assignments p)))) = sort_by compareText (map chainText (p2Chains p))"
    using r sameSequence_iff by (simp add: planResultV2Refinement_def Let_def)
  then have "set (map chainText (uniq (map a2Chain (p2Assignments p)))) = set (map chainText (p2Chains p))" by (metis set_sort_by)
  then have "chainText ` (a2Chain ` set (p2Assignments p)) = chainText ` set (p2Chains p)" by simp
  moreover have "inj chainText" using chainText_inj by (auto intro: injI)
  ultimately show s: "set (p2Chains p) = a2Chain ` set (p2Assignments p)" by (metis inj_image_eq_iff)
  show "length (p2Chains p) = card (a2Chain ` set (p2Assignments p))" using distinct_card [OF d] s by simp
qed

lemma stores_true:
  assumes "planResultV2Schema p = Some p" "planResultV2Schema first = Some first"
  shows "storesTrue first p (storeDelta p first)"
  using plan_chains [OF assms(1)] plan_chains [OF assms(2)] by (auto simp: storesTrue_def storeDelta_def Let_def)

lemma needs_true:
  assumes plan: "planResultV2Schema p = Some p" and first: "planResultV2Schema first = Some first"
    and ids: "p2Id p = p2Id first \<longleftrightarrow> p = first"
    and needs: "a2NeedId ` set (p2Assignments p) = a2NeedId ` set (p2Assignments first)"
  shows "\<exists>ns. needDeltas p first = Some ns \<and> needsTrue first p ns \<and> length ns \<le> length (p2Assignments p)
      \<and> (\<forall>d \<in> set ns. \<exists>a \<in> set (p2Assignments p). \<exists>b \<in> set (p2Assignments first). a2NeedId a = a2NeedId b \<and> d = needDelta a b)"
proof (cases "p = first")
  case True
  then show ?thesis by (simp add: needDeltas_def needsTrue_def)
next
  case False
  define sorted_as where "sorted_as = sort_by (\<lambda>l r. compareText (a2NeedId l) (a2NeedId r)) (p2Assignments p)"
  define m where "m = newMap (map (\<lambda>a. (a2NeedId a, a)) (p2Assignments first))"
  have d: "distinct (map a2NeedId (p2Assignments first))" "distinct (map a2NeedId (p2Assignments p))" using need_ids plan first by blast+
  then have m: "m = map (\<lambda>a. (a2NeedId a, a)) (p2Assignments first)" unfolding m_def by (intro newMap_distinct_id) (simp add: comp_def)
  have found: "\<exists>b \<in> set (p2Assignments first). map_of m (a2NeedId a) = Some b \<and> a2NeedId b = a2NeedId a" if "a \<in> set (p2Assignments p)" for a
  proof -
    have "a2NeedId a \<in> a2NeedId ` set (p2Assignments first)" using needs that by auto
    then obtain b where b: "b \<in> set (p2Assignments first)" "a2NeedId b = a2NeedId a" by auto
    then have "map_of m (a2NeedId a) = Some b" using find_unique [OF d(1) b(1)] by (simp add: m map_of_zip_ids)
    with b show ?thesis by blast
  qed
  let ?ns = "map (\<lambda>a. needDelta a (the (map_of m (a2NeedId a)))) sorted_as"
  have as: "set sorted_as = set (p2Assignments p)" by (simp add: sorted_as_def)
  have "needDeltas p first = parseAll (\<lambda>a. map_option (needDelta a) (map_of m (a2NeedId a))) sorted_as"
    using False ids by (simp add: needDeltas_def Let_def m_def sorted_as_def)
  moreover have "parseAll (\<lambda>a. map_option (needDelta a) (map_of m (a2NeedId a))) sorted_as = Some ?ns"
    unfolding parseAll_Some list.rel_map using found as by (intro list.rel_refl_strong) fastforce
  moreover have "needsTrue first p ?ns"
  proof -
    have "sorted_wrt (<) (map deltaNeedId ?ns)"
    proof -
      have "map deltaNeedId ?ns = sort_by compareText (map a2NeedId (p2Assignments p))"
        by (simp add: needDelta_def Let_def comp_def sorted_as_def sort_by_map)
      moreover have "sorted (sort_by compareText (map a2NeedId (p2Assignments p)))" by (rule sorted_sort_text)
      ultimately show ?thesis using d(2) by (simp add: strict_sorted_iff)
    qed
    moreover have "deltaNeedId ` set ?ns = a2NeedId ` set (p2Assignments p)" by (simp add: needDelta_def Let_def image_image as)
    moreover have "needTrue first p (needDelta a (the (map_of m (a2NeedId a))))" if a: "a \<in> set (p2Assignments p)" for a
    proof -
      obtain b where b: "b \<in> set (p2Assignments first)" "map_of m (a2NeedId a) = Some b" "a2NeedId b = a2NeedId a" using found [OF a] by blast
      have "deltaNeedId (needDelta a b) = a2NeedId a" "deltaProduct (needDelta a b) = productChange a b"
        "deltaQuantity (needDelta a b) = quantityChange a b" "deltaOffer (needDelta a b) = offerChange a b"
        "deltaChain (needDelta a b) = chainChange a b" by (simp_all add: needDelta_def Let_def)
      then show ?thesis unfolding needTrue_def b(2) option.sel using b(1,3) a changes_true by (intro bexI [of _ a] bexI [of _ b]) simp_all
    qed
    ultimately show ?thesis using False as by (simp add: needsTrue_def list_all_iff)
  qed
  moreover have "\<forall>d \<in> set ?ns. \<exists>a \<in> set (p2Assignments p). \<exists>b \<in> set (p2Assignments first). a2NeedId a = a2NeedId b \<and> d = needDelta a b"
  proof
    fix d assume "d \<in> set ?ns"
    then obtain a where a: "a \<in> set (p2Assignments p)" "d = needDelta a (the (map_of m (a2NeedId a)))" using as by auto
    obtain b where "b \<in> set (p2Assignments first)" "map_of m (a2NeedId a) = Some b" "a2NeedId b = a2NeedId a" using found [OF a(1)] by blast
    with a show "\<exists>a \<in> set (p2Assignments p). \<exists>b \<in> set (p2Assignments first). a2NeedId a = a2NeedId b \<and> d = needDelta a b"
      by (intro bexI [of _ a] bexI [of _ b]) simp_all
  qed
  ultimately show ?thesis by (intro exI [of _ ?ns]) (simp add: sorted_as_def)
qed

section \<open>The scopes of a plan\<close>

definition scopesOf :: "plan_v2 list \<Rightarrow> delta_evidence list list \<Rightarrow> (string \<times> comparison_scope list) list" where
  "scopesOf plans bindings = newMap (zip (map p2Id plans) (map (map evidenceScope) bindings))"

lemma explained_bindings:
  assumes ex: "explainable input plans routes bs"
    and b: "list_all2 (\<lambda>p cs. list_all2 (bindingTrue (deltaInputGeneratedAt input) p) (p2Assignments p) cs) plans bindings"
      "set (concat bindings) \<subseteq> set bs"
  shows "mset (concat bindings) = mset bs"
    "\<And>i. i < length plans \<Longrightarrow> set (bindings ! i) = {b \<in> set bs. evidencePlanId b = p2Id (plans ! i)}"
    "\<And>i. i < length plans \<Longrightarrow> planScopes (scopesOf plans bindings) (p2Id (plans ! i)) = map evidenceScope (bindings ! i)"
    "concat (map snd (scopesOf plans bindings)) = map evidenceScope (concat bindings)"
    "\<And>b. b \<in> set bs \<Longrightarrow> comparisonScopeSchema (evidenceScope b) = Some (evidenceScope b)"
proof -
  let ?g = "deltaInputGeneratedAt input"
  note p = explainable_plans [OF ex]
  note pairs = bindings_pairs [OF b(1)]
  have len: "length bindings = length plans" using b(1) by (simp add: list_all2_lengthD)
  have m: "mset (map pairOf bs) = mset (needPairs plans)" using ex unfolding explainable_def by blast
  have "distinct (concat bindings)" using p(8) pairs by (metis distinct_map)
  moreover have "length (concat bindings) = length bs" using pairs mset_eq_length [OF m] by (metis length_map)
  ultimately show all: "mset (concat bindings) = mset bs" using b(2) by (intro mset_of_part)
  have ids: "evidencePlanId c = p2Id (plans ! i)" if "i < length plans" "c \<in> set (bindings ! i)" for i c
  proof -
    have "list_all2 (bindingTrue ?g (plans ! i)) (p2Assignments (plans ! i)) (bindings ! i)" using b(1) that(1) by (rule list_all2_nthD)
    from list_all2_right [OF this that(2)] show ?thesis by (auto simp: bindingTrue_def)
  qed
  show "set (bindings ! i) = {b \<in> set bs. evidencePlanId b = p2Id (plans ! i)}" if i: "i < length plans" for i
  proof (intro equalityI subsetI)
    fix c assume "c \<in> set (bindings ! i)"
    with i len have "c \<in> set (concat bindings)" by auto
    then show "c \<in> {b \<in> set bs. evidencePlanId b = p2Id (plans ! i)}" using b(2) ids [OF i] \<open>c \<in> set (bindings ! i)\<close> by auto
  next
    fix c assume c: "c \<in> {b \<in> set bs. evidencePlanId b = p2Id (plans ! i)}"
    then have "c \<in> set (concat bindings)" using mset_eq_setD [OF all] by simp
    then obtain cs where "cs \<in> set bindings" "c \<in> set cs" by auto
    then obtain j where j: "j < length bindings" "c \<in> set (bindings ! j)" by (metis in_set_conv_nth)
    then have "p2Id (plans ! j) = p2Id (plans ! i)" using ids [of j c] c len by simp
    then have "j = i" using p(3) i j(1) len nth_eq_iff_index_eq [of "map p2Id plans" j i] by simp
    with j show "c \<in> set (bindings ! i)" by simp
  qed
  have scopes: "scopesOf plans bindings = zip (map p2Id plans) (map (map evidenceScope) bindings)"
    unfolding scopesOf_def using p(3) len by (intro newMap_distinct_id) simp
  show "planScopes (scopesOf plans bindings) (p2Id (plans ! i)) = map evidenceScope (bindings ! i)" if i: "i < length plans" for i
  proof -
    have "map_of (zip (map p2Id plans) (map (map evidenceScope) bindings)) (map p2Id plans ! i) = Some (map (map evidenceScope) bindings ! i)"
      using i len p(3) by (intro map_of_zip_nth) simp_all
    then show ?thesis using i len by (simp add: planScopes_def scopes)
  qed
  show "concat (map snd (scopesOf plans bindings)) = map evidenceScope (concat bindings)"
    using len by (simp add: scopes map_concat)
  show "comparisonScopeSchema (evidenceScope b) = Some (evidenceScope b)" if c: "b \<in> set bs" for b
  proof -
    have "list_all2 (boundAs ?g) (deltaInputEvidence input) bs" using ex unfolding explainable_def by blast
    from list_all2_right [OF this c] show ?thesis using boundAs_fields comparisonScope_idem by blast
  qed
qed

definition reasonFor :: "(string \<times> comparison_scope list) list \<Rightarrow> plan_v2 \<Rightarrow> plan_v2 \<Rightarrow> withheld_reason option" where
  "reasonFor scopes first p =
     (case unresolvedReasons (planScopes scopes (p2Id first) @ planScopes scopes (p2Id p)) of [] \<Rightarrow> None | r # _ \<Rightarrow> Some r)"

lemma unresolved_empty:
  assumes "\<And>s. s \<in> set scopes \<Longrightarrow> comparisonScopeSchema s = Some s"
  shows "unresolvedReasons scopes = [] \<longleftrightarrow> (\<forall>s \<in> set scopes. scopeCompleteness s = CompleteComparison)"
proof -
  have "unresolvedReasons scopes = [] \<longleftrightarrow> (\<forall>r. r \<notin> set (unresolvedReasons scopes))" by (cases "unresolvedReasons scopes") auto
  also have "\<dots> \<longleftrightarrow> (\<forall>s \<in> set scopes. \<not> (\<exists>r. reasonIn s r))" unfolding unresolvedReasons_iff by blast
  also have "\<dots> \<longleftrightarrow> (\<forall>s \<in> set scopes. scopeCompleteness s = CompleteComparison)"
    using reasonIn_partial [OF assms] by (metis completeness.distinct(1) completeness.exhaust)
  finally show ?thesis .
qed

lemma reasonFor_true:
  assumes ex: "explainable input plans routes bs"
    and b: "list_all2 (\<lambda>p cs. list_all2 (bindingTrue (deltaInputGeneratedAt input) p) (p2Assignments p) cs) plans bindings"
      "set (concat bindings) \<subseteq> set bs" and i: "i < length plans"
  shows "fullyCompared bs {p2Id (plans ! 0), p2Id (plans ! i)} \<longleftrightarrow> reasonFor (scopesOf plans bindings) (plans ! 0) (plans ! i) = None"
    "reasonFor (scopesOf plans bindings) (plans ! 0) (plans ! i) = Some r \<Longrightarrow> withheldFor bs {p2Id (plans ! 0), p2Id (plans ! i)} r"
    "unresolvedReasons (concat (map snd (scopesOf plans bindings))) = [] \<longleftrightarrow> fullyCompared bs UNIV"
proof -
  note e = explained_bindings [OF ex b]
  have zero: "0 < length plans" using i by linarith
  let ?scopes = "planScopes (scopesOf plans bindings) (p2Id (plans ! 0)) @ planScopes (scopesOf plans bindings) (p2Id (plans ! i))"
  have set: "set ?scopes = evidenceScope ` {b \<in> set bs. evidencePlanId b \<in> {p2Id (plans ! 0), p2Id (plans ! i)}}"
    unfolding e(3) [OF zero] e(3) [OF i] set_append set_map e(2) [OF zero] e(2) [OF i] by blast
  have fixed: "comparisonScopeSchema s = Some s" if "s \<in> set ?scopes" for s using that e(5) unfolding set by blast
  show "fullyCompared bs {p2Id (plans ! 0), p2Id (plans ! i)} \<longleftrightarrow> reasonFor (scopesOf plans bindings) (plans ! 0) (plans ! i) = None"
    using unresolved_empty [of ?scopes, OF fixed] unfolding set
    by (auto simp: reasonFor_def fullyCompared_def split: list.split)
  show "withheldFor bs {p2Id (plans ! 0), p2Id (plans ! i)} r" if "reasonFor (scopesOf plans bindings) (plans ! 0) (plans ! i) = Some r"
  proof -
    have "r \<in> set (unresolvedReasons ?scopes)" using that by (auto simp: reasonFor_def split: list.splits)
    then show ?thesis unfolding unresolvedReasons_iff set withheldFor_def by blast
  qed
  have all: "set (concat (map snd (scopesOf plans bindings))) = evidenceScope ` set bs"
    unfolding e(4) set_map mset_eq_setD [OF e(1)] ..
  have "comparisonScopeSchema s = Some s" if "s \<in> set (concat (map snd (scopesOf plans bindings)))" for s using that e(5) unfolding all by blast
  from unresolved_empty [of "concat (map snd (scopesOf plans bindings))", OF this] show "unresolvedReasons (concat (map snd (scopesOf plans bindings))) = [] \<longleftrightarrow> fullyCompared bs UNIV"
    unfolding all fullyCompared_def by simp
qed

section \<open>The entries\<close>

lemma same_plan:
  assumes "distinct (map p2Id plans)" and "i < length plans" "j < length plans"
  shows "p2Id (plans ! i) = p2Id (plans ! j) \<longleftrightarrow> i = j" "plans ! i = plans ! j \<longleftrightarrow> i = j"
  using assms nth_eq_iff_index_eq [of "map p2Id plans" i j] by auto

text \<open>The identifiers the roles are given by.\<close>

definition convenienceId :: "routes_by_plan \<Rightarrow> plan_v2 list \<Rightarrow> string" where
  "convenienceId R plans = p2Id (hd (sort_by (compareConvenienceObjective R) plans))"

definition savingsId :: "routes_by_plan \<Rightarrow> plan_v2 list \<Rightarrow> string" where
  "savingsId R plans = p2Id (hd (sort_by (compareSavingsObjective R) plans))"

definition shownRole :: "plan_v2 list \<Rightarrow> routes_by_plan \<Rightarrow> bool \<Rightarrow> nat \<Rightarrow> presentation_role \<times> string" where
  "shownRole plans R resolved i =
     presentation (p2Id (plans ! i)) i (length plans) (objectivesEquivalent plans (plans ! 0) R) resolved
       (convenienceId R plans) (savingsId R plans) (uniqueShortestTravelPlanId plans R)"

definition shownTravel :: "number_format \<Rightarrow> route_evidence list option \<Rightarrow> nat \<Rightarrow> travel_delta option" where
  "shownTravel f routes i = map_option (\<lambda>rs. travelDelta f (routePlanId (rs ! i)) (routePlanId (rs ! 0)) (rs ! i) (rs ! 0)) routes"

lemma route_found:
  assumes "map routePlanId rs = map p2Id plans" and "distinct (map p2Id plans)" and i: "i < length plans"
  shows "map_of (newMap (map (\<lambda>r. (routePlanId r, r)) rs)) (p2Id (plans ! i)) = Some (rs ! i)" "routePlanId (rs ! i) = p2Id (plans ! i)"
proof -
  have len: "length rs = length plans" using assms(1) by (metis length_map)
  show id: "routePlanId (rs ! i) = p2Id (plans ! i)" using assms(1) i len by (metis nth_map)
  have d: "distinct (map routePlanId rs)" using assms(1,2) by simp
  then have "newMap (map (\<lambda>r. (routePlanId r, r)) rs) = map (\<lambda>r. (routePlanId r, r)) rs" by (intro newMap_distinct_id) (simp add: comp_def)
  then show "map_of (newMap (map (\<lambda>r. (routePlanId r, r)) rs)) (p2Id (plans ! i)) = Some (rs ! i)"
    using find_unique [OF d, of "rs ! i"] i len by (simp add: map_of_zip_ids id)
qed

lemma deltaEntry_cases:
  assumes ex: "explainable input plans routes bs"
    and b: "list_all2 (\<lambda>p cs. list_all2 (bindingTrue (deltaInputGeneratedAt input) p) (p2Assignments p) cs) plans bindings"
      "set (concat bindings) \<subseteq> set bs" and i: "i < length plans"
  obtains needs where
    "needDeltas (plans ! i) (plans ! 0) = Some needs" "needsTrue (plans ! 0) (plans ! i) needs" "length needs \<le> length (p2Assignments (plans ! i))"
    "\<And>d. d \<in> set needs \<Longrightarrow> \<exists>a \<in> set (p2Assignments (plans ! i)). \<exists>b \<in> set (p2Assignments (plans ! 0)). a2NeedId a = a2NeedId b \<and> d = needDelta a b"
    "deltaEntry f plans (routesMap routes) (scopesOf plans bindings) allReasons (i, plans ! i) =
       map_option (\<lambda>saving. \<lparr>deltaPlanId = p2Id (plans ! i), deltaReferenceId = p2Id (plans ! 0),
           deltaRole = fst (shownRole plans (routesMap routes) (allReasons = []) i),
           deltaLabel = snd (shownRole plans (routesMap routes) (allReasons = []) i),
           deltaPrice = priceDelta f (plans ! i) (plans ! 0) (reasonFor (scopesOf plans bindings) (plans ! 0) (plans ! i)),
           deltaSaving = saving, deltaStores = storeDelta (plans ! i) (plans ! 0), deltaNeeds = needs,
           deltaTravel = shownTravel f routes i,
           deltaSummary = joinText '' ''
             ([priceMessage (priceDelta f (plans ! i) (plans ! 0) (reasonFor (scopesOf plans bindings) (plans ! 0) (plans ! i))),
               storeMessage (storeDelta (plans ! i) (plans ! 0))]
              @ (case shownTravel f routes i of None \<Rightarrow> [] | Some t \<Rightarrow> [travelMessage t]))\<rparr>)
         (offerSaving f (plans ! i) (reasonFor (scopesOf plans bindings) (plans ! 0) (plans ! i)))"
proof -
  note p = explainable_plans [OF ex]
  have zero: "0 < length plans" using i by linarith
  have mem: "plans ! i \<in> set plans" "plans ! 0 \<in> set plans" using i zero by simp_all
  have needs_eq: "a2NeedId ` set (p2Assignments (plans ! i)) = a2NeedId ` set (p2Assignments (plans ! 0))"
    using ex mem hd_conv_nth [OF p(1)] unfolding explainable_def by metis
  have ids: "p2Id (plans ! i) = p2Id (plans ! 0) \<longleftrightarrow> plans ! i = plans ! 0" using same_plan [OF p(3) i zero] by simp
  obtain needs where n: "needDeltas (plans ! i) (plans ! 0) = Some needs" "needsTrue (plans ! 0) (plans ! i) needs"
      "length needs \<le> length (p2Assignments (plans ! i))"
      "\<forall>d \<in> set needs. \<exists>a \<in> set (p2Assignments (plans ! i)). \<exists>b \<in> set (p2Assignments (plans ! 0)). a2NeedId a = a2NeedId b \<and> d = needDelta a b"
    using needs_true [OF p(4) [OF mem(1)] p(4) [OF mem(2)] ids needs_eq] by blast
  have travel: "(case (case routesMap routes of None \<Rightarrow> None | Some rs \<Rightarrow> map_of rs (p2Id (plans ! i)),
          case routesMap routes of None \<Rightarrow> None | Some rs \<Rightarrow> map_of rs (p2Id (plans ! 0))) of
        (Some r, Some first) \<Rightarrow> Some (travelDelta f (p2Id (plans ! i)) (p2Id (plans ! 0)) r first) | _ \<Rightarrow> None)
      = shownTravel f routes i"
  proof (cases routes)
    case (Some rs)
    then show ?thesis using route_found [OF p(7) [OF Some] p(3) i] route_found [OF p(7) [OF Some] p(3) zero]
      by (simp add: routesMap_def shownTravel_def)
  qed (simp add: routesMap_def shownTravel_def)
  have "deltaEntry f plans (routesMap routes) (scopesOf plans bindings) allReasons (i, plans ! i) =
       map_option (\<lambda>saving. \<lparr>deltaPlanId = p2Id (plans ! i), deltaReferenceId = p2Id (plans ! 0),
           deltaRole = fst (shownRole plans (routesMap routes) (allReasons = []) i),
           deltaLabel = snd (shownRole plans (routesMap routes) (allReasons = []) i),
           deltaPrice = priceDelta f (plans ! i) (plans ! 0) (reasonFor (scopesOf plans bindings) (plans ! 0) (plans ! i)),
           deltaSaving = saving, deltaStores = storeDelta (plans ! i) (plans ! 0), deltaNeeds = needs,
           deltaTravel = shownTravel f routes i,
           deltaSummary = joinText '' ''
             ([priceMessage (priceDelta f (plans ! i) (plans ! 0) (reasonFor (scopesOf plans bindings) (plans ! 0) (plans ! i))),
               storeMessage (storeDelta (plans ! i) (plans ! 0))]
              @ (case shownTravel f routes i of None \<Rightarrow> [] | Some t \<Rightarrow> [travelMessage t]))\<rparr>)
         (offerSaving f (plans ! i) (reasonFor (scopesOf plans bindings) (plans ! 0) (plans ! i)))"
    by (simp only: deltaEntry_def prod.case Let_def n(1) travel [unfolded prod.case] reasonFor_def [symmetric] shownRole_def convenienceId_def savingsId_def
        option.case map_option_case cong: option.case_cong)
  then show thesis using that n by blast
qed

lemma hd_sort_least:
  assumes "comparator cmp" and "x \<in> set xs" and "\<forall>y \<in> set xs. cmp x y \<le> 0"
  shows "cmp (hd (sort_by cmp xs)) x = 0"
proof -
  have ne: "xs \<noteq> []" using assms(2) by auto
  then have "sort_by cmp xs = hd (sort_by cmp xs) # tl (sort_by cmp xs)" by simp
  from comparator.sort_by_hd_min [OF assms(1) this assms(2)] have "cmp (hd (sort_by cmp xs)) x \<le> 0" .
  moreover have "cmp x (hd (sort_by cmp xs)) \<le> 0" using assms(3) hd_sort_by_in [OF ne] by blast
  ultimately show ?thesis using comparator.cmp_sgn [OF assms(1), of "hd (sort_by cmp xs)" x] by (simp add: sgn_if split: if_splits)
qed

lemma convenience_first:
  assumes "orderedPlans R plans" and "plans \<noteq> []"
  shows "convenienceId R plans = p2Id (hd plans)"
    "savingsId R plans = p2Id (hd plans) \<and> (\<forall>p \<in> set plans. compareSavingsObjective R (hd plans) p \<le> 0)
     \<or> savingsId R plans = p2Id (last plans) \<and> (\<forall>p \<in> set plans. compareSavingsObjective R (last plans) p \<le> 0)"
proof -
  have least: "p2Id (hd (sort_by (compareConvenienceObjective R) plans)) = p2Id x"
    if "x \<in> set plans" "\<forall>p \<in> set plans. compareConvenienceObjective R x p \<le> 0" for x
    using objective_ids(1) hd_sort_least [OF by_convenience_objective.comparator_axioms that] by blast
  have cheapest: "p2Id (hd (sort_by (compareSavingsObjective R) plans)) = p2Id x"
    if "x \<in> set plans" "\<forall>p \<in> set plans. compareSavingsObjective R x p \<le> 0" for x
    using objective_ids(2) hd_sort_least [OF by_savings_objective.comparator_axioms that] by blast
  have "hd plans \<in> set plans" "last plans \<in> set plans" using assms(2) by simp_all
  with assms(1) least cheapest show "convenienceId R plans = p2Id (hd plans)"
    "savingsId R plans = p2Id (hd plans) \<and> (\<forall>p \<in> set plans. compareSavingsObjective R (hd plans) p \<le> 0)
     \<or> savingsId R plans = p2Id (last plans) \<and> (\<forall>p \<in> set plans. compareSavingsObjective R (last plans) p \<le> 0)"
    unfolding convenienceId_def savingsId_def orderedPlans_def by blast+
qed

end
