(* ===== verification/Plan_Delta_Text.thy ===== *)
theory Plan_Delta_Text
  imports Plan_Delta_Truth
begin

text \<open>
  The texts of an explanation fit their schemas, given what the code relies on of \<open>Intl.NumberFormat\<close> (\<open>plainFormat\<close>).
\<close>

section \<open>The texts fit\<close>

text \<open>A text that trimming leaves as it is.\<close>

definition plainText :: "nat \<Rightarrow> string \<Rightarrow> bool" where
  "plainText n s \<longleftrightarrow> s \<noteq> [] \<and> \<not> isJsSpace (hd s) \<and> \<not> isJsSpace (last s) \<and> length s \<le> n"

lemma plainText_admitted: "plainText n s \<Longrightarrow> n \<le> 500 \<Longrightarrow> nonEmptyStringSchema s = Some s"
proof -
  assume s: "plainText n s" "n \<le> 500"
  then have "dropWhile isJsSpace s = s" "dropWhile isJsSpace (rev s) = rev s"
    by (auto simp: plainText_def hd_rev intro!: dropWhile_fix)
  then have "trim s = s" by (simp add: trim_def)
  moreover have "1 \<le> length s" using s by (cases s) (auto simp: plainText_def)
  ultimately show ?thesis using s by (simp add: nonEmptyStringSchema_def boundedText_def plainText_def)
qed

lemma plainText_more: "plainText n s \<Longrightarrow> n \<le> m \<Longrightarrow> plainText m s"
  by (simp add: plainText_def)

lemma plainText_append:
  assumes "s \<noteq> []" "\<not> isJsSpace (hd s)" "length s \<le> n" "t \<noteq> []" "\<not> isJsSpace (last t)" "length t \<le> m"
  shows "plainText (n + m) (s @ t)"
  using assms by (simp add: plainText_def)

lemma upperFirst_length: "length (upperFirst s) = length s"
  by (cases s) (simp_all add: upperFirst_def)

lemma upper_not_space: "CHR ''a'' \<le> c \<Longrightarrow> c \<le> CHR ''z'' \<Longrightarrow> \<not> isJsSpace (char_of ((of_char c :: nat) - 32))"
proof -
  assume "CHR ''a'' \<le> c" "c \<le> CHR ''z''"
  then have "(97 :: nat) \<le> of_char c" "of_char c \<le> (122 :: nat)" by (simp_all add: less_eq_char_def)
  then have c: "65 \<le> (of_char c :: nat) - 32" "(of_char c :: nat) - 32 \<le> 90" by linarith+
  have "of_char (char_of ((of_char c :: nat) - 32) :: char) = ((of_char c :: nat) - 32) mod 256" by (simp add: of_char_of)
  with c have "of_char (char_of ((of_char c :: nat) - 32) :: char) = (of_char c :: nat) - 32" by simp
  with c show ?thesis unfolding isJsSpace_def Let_def by linarith
qed

lemma upperFirst_hd: "s \<noteq> [] \<Longrightarrow> \<not> isJsSpace (hd s) \<Longrightarrow> \<not> isJsSpace (hd (upperFirst s))"
  using upper_not_space by (cases s) (simp_all add: upperFirst_def)

lemma upperFirst_Nil: "upperFirst s = [] \<longleftrightarrow> s = []"
  by (cases s) (simp_all add: upperFirst_def)

lemma intText_fits:
  assumes "0 \<le> n" and "n \<le> MAX_SAFE_INTEGER"
  shows "intText n \<noteq> []" "\<not> isJsSpace (hd (intText n))" "\<not> isJsSpace (last (intText n))" "length (intText n) \<le> 16"
proof -
  have t: "intText n = baseText 10 n" using assms by (simp add: intText_def)
  have digits: "list_all isDigit (intText n)" using assms baseText_digits by (simp add: intText_def)
  show ne: "intText n \<noteq> []" unfolding t by (subst baseText.simps) simp
  have "\<not> isJsSpace c" if "c \<in> set (intText n)" for c
    using digits that by (auto simp: list_all_iff isDigit_iff digitVal_def isJsSpace_def Let_def)
  with ne show "\<not> isJsSpace (hd (intText n))" "\<not> isJsSpace (last (intText n))" by simp_all
  show "length (intText n) \<le> 16" unfolding t using assms baseText_length [of 10 n 15] by (simp add: MAX_SAFE_INTEGER_def)
qed

text \<open>
  What the code relies on of \<open>Intl.NumberFormat\<close>: the text of an amount or a distance it shows has at most 60 characters, and
  that of an amount begins with a character that is not white space.
\<close>

definition plainFormat :: "number_format \<Rightarrow> bool" where
  "plainFormat f \<longleftrightarrow>
     (\<forall>x. 0 \<le> x \<and> x \<le> of_int MAX_PERSISTED_MONEY_ORE / 100 \<longrightarrow>
        nokText f x \<noteq> [] \<and> \<not> isJsSpace (hd (nokText f x)) \<and> length (nokText f x) \<le> 60)
     \<and> (\<forall>x. 0 \<le> x \<and> x \<le> of_int MAX_SAFE_INTEGER / 1000 \<longrightarrow> length (kilometreText f x) \<le> 60)"

lemma formatNok_fits:
  assumes "plainFormat f" and "moneyOreSchema n"
  shows "formatNok f n \<noteq> []" "\<not> isJsSpace (hd (formatNok f n))" "length (formatNok f n) \<le> 60"
proof -
  have "(0 :: rat) \<le> of_int n / 100" "(of_int n :: rat) / 100 \<le> of_int MAX_PERSISTED_MONEY_ORE / 100"
    using assms(2) by (simp_all add: moneyOreSchema_def divide_right_mono)
  then have t: "nokText f (of_int n / 100) \<noteq> []" "\<not> isJsSpace (hd (nokText f (of_int n / 100)))" "length (nokText f (of_int n / 100)) \<le> 60"
    using assms(1) unfolding plainFormat_def by blast+
  show "formatNok f n \<noteq> []" "length (formatNok f n) \<le> 60" using t by (simp_all add: formatNok_def)
  have "hd (nokText f (of_int n / 100)) \<noteq> CHR 0xA0" using t(2) by (auto simp: isJsSpace_def Let_def)
  then show "\<not> isJsSpace (hd (formatNok f n))" using t by (simp add: formatNok_def hd_map)
qed

lemma kilometreText_fits:
  assumes "plainFormat f" and "0 \<le> n" "n \<le> MAX_SAFE_INTEGER"
  shows "length (kilometreText f (of_int n / 1000)) \<le> 60"
proof -
  have "(0 :: rat) \<le> of_int n / 1000" "(of_int n :: rat) / 1000 \<le> of_int MAX_SAFE_INTEGER / 1000"
    using assms(2,3) by (simp_all add: divide_right_mono)
  then show ?thesis using assms(1) unfolding plainFormat_def by blast
qed

lemma chainName_fits: "chainName c \<noteq> []" "\<not> isJsSpace (hd (chainName c))" "\<not> isJsSpace (last (chainName c))" "length (chainName c) \<le> 9"
  by (simp_all add: chainName_def isJsSpace_def)

text \<open>Every chain but two is called Extra.\<close>

lemma chainName_conflates: "chainName c = chainName Extra \<longleftrightarrow> c \<noteq> Rema1000 \<and> c \<noteq> Bunnpris"
  by (simp add: chainName_def)

lemma joinNorwegian_fits:
  assumes "cs \<noteq> []" and "length cs \<le> 3"
  shows "joinNorwegian (map chainName cs) \<noteq> []" "\<not> isJsSpace (last (joinNorwegian (map chainName cs)))"
    "length (joinNorwegian (map chainName cs)) \<le> 33"
proof -
  consider (one) a where "cs = [a]" | (two) a b where "cs = [a, b]" | (three) a b c where "cs = [a, b, c]"
  proof -
    obtain a as where "cs = a # as" using assms(1) by (cases cs) auto
    moreover obtain "as = [] \<or> (\<exists>b. as = [b]) \<or> (\<exists>b c. as = [b, c])"
      using assms(2) calculation by (cases as; cases "tl as") auto
    ultimately show thesis using that by blast
  qed
  then have "joinNorwegian (map chainName cs) \<noteq> [] \<and> \<not> isJsSpace (last (joinNorwegian (map chainName cs)))
      \<and> length (joinNorwegian (map chainName cs)) \<le> 33"
  proof cases
    case one
    then show ?thesis using chainName_fits [of a] by (simp add: joinNorwegian_def)
  next
    case two
    then show ?thesis using chainName_fits [of a] chainName_fits [of b] by (simp add: joinNorwegian_def)
  next
    case three
    then show ?thesis using chainName_fits [of a] chainName_fits [of b] chainName_fits [of c] by (simp add: joinNorwegian_def)
  qed
  then show "joinNorwegian (map chainName cs) \<noteq> []" "\<not> isJsSpace (last (joinNorwegian (map chainName cs)))"
    "length (joinNorwegian (map chainName cs)) \<le> 33" by blast+
qed

lemma plainText_upper:
  assumes "s \<noteq> []" "\<not> isJsSpace (hd s)" "length s \<le> n"
  shows "plainText (n + 1) (upperFirst s @ ''.'')"
  using assms upperFirst_hd upperFirst_Nil upperFirst_length [of s] by (simp add: plainText_def isJsSpace_def)

lemma store_fits:
  assumes "length (p2Chains p) \<le> 3" and "length (p2Chains first) \<le> 3"
  shows "plainText 110 (storeMessage (storeDelta p first))"
proof -
  define added where "added = filter (\<lambda>c. c \<notin> set (p2Chains first)) (p2Chains p)"
  define removed where "removed = filter (\<lambda>c. c \<notin> set (p2Chains p)) (p2Chains first)"
  have "length added \<le> length (p2Chains p)" "length removed \<le> length (p2Chains first)" by (simp_all add: added_def removed_def)
  then have len: "length added \<le> 3" "length removed \<le> 3" using assms by linarith+
  let ?a = "''legger til '' @ joinNorwegian (map chainName added)" and ?r = "''tar bort '' @ joinNorwegian (map chainName removed)"
  have a: "length ?a \<le> 44" if "added \<noteq> []" using joinNorwegian_fits [OF that len(1)] by simp
  have r: "length ?r \<le> 42" if "removed \<noteq> []" using joinNorwegian_fits [OF that len(2)] by simp
  have m: "storeMessage (storeDelta p first) =
      (if length added > 0 \<or> length removed > 0
       then upperFirst (joinText '' og '' ((if added = [] then [] else [?a]) @ (if removed = [] then [] else [?r]))) @ ''.''
       else ''Samme butikksett som f'' @ [CHR 0xF8] @ ''rste plan.'')"
    by (simp add: storeDelta_def Let_def added_def removed_def)
  have "plainText 91 (storeMessage (storeDelta p first))"
  proof (cases "added = [] \<and> removed = []")
    case True
    then show ?thesis unfolding m by (simp add: plainText_def isJsSpace_def)
  next
    case False
    then have "plainText (90 + 1) (upperFirst (joinText '' og '' ((if added = [] then [] else [?a]) @ (if removed = [] then [] else [?r]))) @ ''.'')"
      using a r by (intro plainText_upper) (auto simp: isJsSpace_def)
    then show ?thesis unfolding m using False by auto
  qed
  then show ?thesis by (rule plainText_more) simp
qed

lemma price_fits:
  assumes f: "plainFormat f" and m: "moneyOreSchema (p2TotalOre p)" "moneyOreSchema (p2TotalOre first)"
  shows "plainText 110 (priceMessage (priceDelta f p first reason))" "planBasketPriceDeltaV1Schema (priceDelta f p first reason) = Some (priceDelta f p first reason)"
proof -
  have shown: "plainText 110 (formatNok f n @ t)"
    if "moneyOreSchema n" "t \<in> {'' lavere beregnet kurvpris enn f'' @ [CHR 0xF8] @ ''rste plan.'',
        '' h'' @ [CHR 0xF8] @ ''yere beregnet kurvpris enn f'' @ [CHR 0xF8] @ ''rste plan.''}" for n t
    using formatNok_fits [OF f that(1)] that(2) by (auto simp: plainText_def isJsSpace_def)
  have diff: "moneyOreSchema (p2TotalOre p - p2TotalOre first)" if "p2TotalOre first \<le> p2TotalOre p"
    using m that by (auto simp: moneyOreSchema_def)
  have diff': "moneyOreSchema (p2TotalOre first - p2TotalOre p)" if "p2TotalOre p \<le> p2TotalOre first"
    using m that by (auto simp: moneyOreSchema_def)
  have w: "plainText 110 (withheldMessage r)" for r by (cases r) (simp_all add: plainText_def isJsSpace_def)
  show p: "plainText 110 (priceMessage (priceDelta f p first reason))"
    using shown diff diff' w by (cases reason) (auto simp: priceDelta_def Let_def, (simp add: plainText_def isJsSpace_def)+)
  have "nonEmptyStringSchema (priceMessage (priceDelta f p first reason)) = Some (priceMessage (priceDelta f p first reason))"
    using plainText_admitted [OF p] by simp
  then show "planBasketPriceDeltaV1Schema (priceDelta f p first reason) = Some (priceDelta f p first reason)"
    using diff diff' by (cases reason) (auto simp: priceDelta_def Let_def)
qed

lemma saving_fits:
  assumes f: "plainFormat f" and s: "offerSaving f p reason = Some saving" and plan: "planResultV2Schema p = Some p"
  shows "offerSavingV1Schema saving = (if reason = None \<and> MAX_PERSISTED_MONEY_ORE < totalSaving p then None else Some saving)"
proof -
  have total: "foldl (\<lambda>t a. t + savingOre (a2Checkout a)) 0 (p2Assignments p) = totalSaving p" by (simp add: totalSaving_def foldl_sum)
  have nonneg: "0 \<le> totalSaving p" using totalSaving_eq(2) [OF plan] .
  show ?thesis
  proof (cases reason)
    case None
    show ?thesis
    proof (cases "totalSaving p = 0")
      case True
      then have "saving = NoSaving ''Ingen dokumentert tilbudssparing i denne planen.''"
        using s None by (auto simp: offerSaving_def total Let_def split: if_splits)
      moreover have "nonEmptyStringSchema ''Ingen dokumentert tilbudssparing i denne planen.'' = Some ''Ingen dokumentert tilbudssparing i denne planen.''"
        by (rule plainText_admitted [of 100]) (simp_all add: plainText_def isJsSpace_def)
      ultimately show ?thesis using True by (simp add: MAX_PERSISTED_MONEY_ORE_def)
    next
      case False
      then have saving: "saving = DocumentedSaving (totalSaving p) (formatNok f (totalSaving p) @ '' dokumentert tilbudssparing i denne planen.'')"
        using s None by (auto simp: offerSaving_def total Let_def split: if_splits)
      show ?thesis
      proof (cases "MAX_PERSISTED_MONEY_ORE < totalSaving p")
        case True
        then have "\<not> moneyOreSchema (totalSaving p)" by (simp add: moneyOreSchema_def)
        then show ?thesis using True None by (simp add: saving)
      next
        case small: False
        then have m: "moneyOreSchema (totalSaving p)" using nonneg by (simp add: moneyOreSchema_def)
        have "plainText 110 (formatNok f (totalSaving p) @ '' dokumentert tilbudssparing i denne planen.'')"
          using formatNok_fits [OF f m] by (simp add: plainText_def isJsSpace_def)
        then show ?thesis using plainText_admitted m small False nonneg by (simp add: saving)
      qed
    qed
  next
    case (Some r)
    then have "saving = WithheldSaving r (withheldOfferMessage r)" using s by (simp add: offerSaving_def)
    moreover have "plainText 110 (withheldOfferMessage r)" by (cases r) (simp_all add: plainText_def isJsSpace_def)
    ultimately show ?thesis using plainText_admitted Some by simp
  qed
qed

lemma snapshot_fits:
  assumes "fulfilmentV2Schema (a2Fulfilment a) = Some (a2Fulfilment a)"
  shows "quantitySnapshotSchema (quantitySnapshot a)"
  using assms by (auto simp: fulfilmentV2Schema_def quantitySnapshotSchema_def quantitySnapshot_def split: option.splits if_splits)

lemma joinText_length: "length (joinText sep xs) \<le> sum_list (map length xs) + length sep * length xs"
  by (induction sep xs rule: joinText.induct) simp_all

lemma joinText_hd: "x \<noteq> [] \<Longrightarrow> joinText sep (x # xs) \<noteq> [] \<and> hd (joinText sep (x # xs)) = hd x"
  by (cases xs) simp_all

lemma lengths_bound: "\<forall>s \<in> set xs. length s \<le> k \<Longrightarrow> sum_list (map length xs) \<le> k * length xs" for xs :: "string list"
  by (induction xs) auto

definition changeText :: "string \<Rightarrow> bool" where
  "changeText s \<longleftrightarrow> s \<noteq> [] \<and> \<not> isJsSpace (hd s) \<and> length s \<le> 70"

lemma changes_fit:
  assumes "quantityDeltaV1Schema q"
  shows "list_all changeText (needChanges p q offer c)" "length (needChanges p q offer c) \<le> 4"
proof -
  have fits: "0 \<le> snapshotCount r \<and> snapshotCount r \<le> MAX_SAFE_INTEGER" if "quantitySnapshotSchema r" for r
    using that by (simp add: quantitySnapshotSchema_def positiveSafeInteger_def)
  have "changeText (''endrer pakkeantall fra '' @ intText (snapshotCount r) @ '' til '' @ intText (snapshotCount s))"
    if "quantitySnapshotSchema r" "quantitySnapshotSchema s" for r s
    using intText_fits(4) [of "snapshotCount r"] intText_fits(4) [of "snapshotCount s"] fits [OF that(1)] fits [OF that(2)]
    by (simp add: changeText_def isJsSpace_def)
  moreover have "changeText (''flytter varen fra '' @ chainName d @ '' til '' @ chainName e)" for d e
    using chainName_fits(4) [of d] chainName_fits(4) [of e] by (simp add: changeText_def isJsSpace_def)
  moreover have "changeText ''Bytter produkt''" "changeText ''bruker et dokumentert tilbud''"
    "changeText (''bruker ikke tilbudet fra f'' @ [CHR 0xF8] @ ''rste plan'')" "changeText ''bruker et annet dokumentert tilbud''"
    by (simp_all add: changeText_def isJsSpace_def)
  ultimately show "list_all changeText (needChanges p q offer c)"
    using assms by (cases p; cases q; cases offer; cases c) (simp_all add: needChanges_def)
  show "length (needChanges p q offer c) \<le> 4" by (cases p; cases q; cases offer; cases c) (simp_all add: needChanges_def)
qed

lemma offer_id_fixed:
  assumes "checkoutCostV2Schema c = Some c"
  shows "parseOptional identifierSchema (appliedOfferId c) = Some (appliedOfferId c)"
proof -
  obtain i where i: "parseOptional identifierSchema (appliedOfferId c) = Some i" and e: "c\<lparr>appliedOfferId := i\<rparr> = c"
    using assms unfolding checkoutCostV2Schema_def
    by (cases "parseOptional identifierSchema (appliedOfferId c)") (simp_all split: if_splits)
  show ?thesis using i arg_cong [OF e, of appliedOfferId] by simp
qed

lemma need_fits:
  assumes a: "planAssignmentV2Schema a = Some a" and b: "planAssignmentV2Schema b = Some b"
  shows "planNeedDeltaExplanationV1Schema (needDelta a b) = Some (needDelta a b)"
proof -
  note fa = assignment_fixedE [OF a] and fb = assignment_fixedE [OF b]
  have product: "productDeltaV1Schema (productChange a b) = Some (productChange a b)" using fa fb by (simp add: productChange_def)
  have q: "quantityDeltaV1Schema (quantityChange a b)"
    using snapshot_fits [OF fa(4)] snapshot_fits [OF fb(4)] by (simp add: quantityChange_def)
  have offer: "offerDeltaV1Schema (offerChange a b) = Some (offerChange a b)"
    using offer_id_fixed [OF fa(5)] offer_id_fixed [OF fb(5)]
    by (cases "appliedOfferId (a2Checkout a)"; cases "appliedOfferId (a2Checkout b)") (auto simp: offerChange_def split: option.splits)
  let ?changes = "needChanges (productChange a b) (quantityChange a b) (offerChange a b) (chainChange a b)"
  have "plainText 500 (deltaMessage (needDelta a b))"
  proof (cases ?changes)
    case Nil
    then have "deltaMessage (needDelta a b) = ''Samme produkt, mengde, tilbud og butikk som i f'' @ [CHR 0xF8] @ ''rste plan.''"
      by (simp add: needDelta_def Let_def)
    then show ?thesis by (simp add: plainText_def isJsSpace_def)
  next
    case (Cons x xs)
    note c = changes_fit [OF q, of "productChange a b" "offerChange a b" "chainChange a b"]
    have "sum_list (map length ?changes) \<le> 70 * length ?changes"
    proof -
      have "\<forall>s \<in> set ?changes. length s \<le> 70" using c(1) by (auto simp: list_all_iff changeText_def)
      then show ?thesis by (rule lengths_bound)
    qed
    then have "length (joinText '', '' ?changes) \<le> 288" using joinText_length [of "'', ''" ?changes] c(2) by simp
    moreover have "changeText x" using c(1) Cons by simp
    then have "joinText '', '' ?changes \<noteq> []" "\<not> isJsSpace (hd (joinText '', '' ?changes))"
      using joinText_hd [of x "'', ''" xs] Cons by (simp_all add: changeText_def)
    ultimately have "plainText (288 + 1) (upperFirst (joinText '', '' ?changes) @ ''.'')" by (intro plainText_upper)
    moreover have "deltaMessage (needDelta a b) = upperFirst (joinText '', '' ?changes) @ ''.''"
      using Cons by (simp add: needDelta_def Let_def)
    ultimately show ?thesis by (simp add: plainText_def)
  qed
  from plainText_admitted [OF this] have "nonEmptyStringSchema (deltaMessage (needDelta a b)) = Some (deltaMessage (needDelta a b))" by simp
  moreover have "deltaNeedId (needDelta a b) = a2NeedId a" "deltaProduct (needDelta a b) = productChange a b"
    "deltaQuantity (needDelta a b) = quantityChange a b" "deltaOffer (needDelta a b) = offerChange a b" by (simp_all add: needDelta_def Let_def)
  ultimately show ?thesis
    using product q offer fa(1) unfolding planNeedDeltaExplanationV1Schema_def by (cases "needDelta a b") simp
qed

lemma roundedMinutes_range: "0 < d \<Longrightarrow> d \<le> MAX_SAFE_INTEGER \<Longrightarrow> 0 \<le> roundedMinutes d \<and> roundedMinutes d \<le> MAX_SAFE_INTEGER"
proof -
  assume d: "0 < d" "d \<le> MAX_SAFE_INTEGER"
  then have "(2 * d + 60) div 120 \<le> d" by linarith
  with d show ?thesis unfolding roundedMinutes_def by linarith
qed

definition axisFits :: "axis_delta \<Rightarrow> bool" where
  "axisFits d \<longleftrightarrow> (case d of SameAxis \<Rightarrow> True | LessAxis n \<Rightarrow> 0 < n \<and> n \<le> MAX_SAFE_INTEGER | MoreAxis n \<Rightarrow> 0 < n \<and> n \<le> MAX_SAFE_INTEGER)"

lemma axisDelta_fits: "nonNegativeSafeInteger x \<Longrightarrow> nonNegativeSafeInteger y \<Longrightarrow> axisFits (axisDelta x y)"
  by (simp add: axisFits_def axisDelta_def nonNegativeSafeInteger_def Let_def)

lemma axisFits_admitted: "axisFits d \<Longrightarrow> travelAxisDeltaV1Schema d"
  by (cases d) (simp_all add: axisFits_def nonNegativeSafeInteger_def)

lemma duration_fits:
  assumes "axisFits d" and "d \<noteq> SameAxis"
  shows "durationCopy d \<noteq> []" "\<not> isJsSpace (hd (durationCopy d))" "length (durationCopy d) \<le> 50"
proof -
  have t: "intText (roundedMinutes n) \<noteq> []" "\<not> isJsSpace (hd (intText (roundedMinutes n)))" "length (intText (roundedMinutes n)) \<le> 16"
    if "0 < n" "n \<le> MAX_SAFE_INTEGER" for n
    using intText_fits [of "roundedMinutes n"] roundedMinutes_range [OF that] by blast+
  show "durationCopy d \<noteq> []" "\<not> isJsSpace (hd (durationCopy d))" "length (durationCopy d) \<le> 50"
    using assms t by (cases d; force simp: axisFits_def)+
qed

lemma distance_fits:
  assumes f: "plainFormat f" and "axisFits d"
  shows "length (distanceCopy f d) \<le> 90"
proof -
  have "length (distanceText f n) \<le> 63" if n: "0 < n" "n \<le> MAX_SAFE_INTEGER" for n
    using intText_fits(4) [of n] kilometreText_fits [OF f, of n] n by (simp add: distanceText_def)
  then show ?thesis using assms(2) by (cases d) (force simp: axisFits_def)+
qed

lemma travel_fits:
  assumes f: "plainFormat f" and r: "travelRouteEvidenceSchema r = Some r" and first: "travelRouteEvidenceSchema first = Some first"
  shows "plainText 250 (travelMessage (travelDelta f i j r first))"
    "planTravelDeltaV1Schema (travelDelta f i j r first) = Some (travelDelta f i j r first)"
proof -
  have nonneg: "nonNegativeSafeInteger (aggregateDurationSeconds (routeAggregate s))" "nonNegativeSafeInteger (aggregateDistanceMeters (routeAggregate s))"
    if "travelRouteEvidenceSchema s = Some s" for s
    using route_fixedE(1) [OF that] by (auto simp: travelRouteAggregateSchema_def split: option.splits if_splits)
  define d where "d = axisDelta (aggregateDurationSeconds (routeAggregate r)) (aggregateDurationSeconds (routeAggregate first))"
  define m where "m = axisDelta (aggregateDistanceMeters (routeAggregate r)) (aggregateDistanceMeters (routeAggregate first))"
  have fits: "axisFits d" "axisFits m" unfolding d_def m_def using nonneg [OF r] nonneg [OF first] by (blast intro: axisDelta_fits)+
  let ?d = "if d = SameAxis then ''Samme estimerte reisetid som f'' @ [CHR 0xF8] @ ''rste plan''
     else upperFirst (durationCopy d) @ '' enn f'' @ [CHR 0xF8] @ ''rste plan''"
  let ?m = "if m = SameAxis then ''samme estimerte avstand som f'' @ [CHR 0xF8] @ ''rste plan''
     else distanceCopy f m @ '' enn f'' @ [CHR 0xF8] @ ''rste plan''"
  have dt: "?d \<noteq> [] \<and> \<not> isJsSpace (hd ?d) \<and> length ?d \<le> 70"
    using duration_fits [OF fits(1)] upperFirst_hd [of "durationCopy d"] upperFirst_Nil [of "durationCopy d"] upperFirst_length [of "durationCopy d"]
    by (cases "d = SameAxis") (simp_all add: isJsSpace_def)
  have mt: "length ?m \<le> 110" using distance_fits [OF f fits(2)] by simp
  have compared: "plainText 250 (?d @ '' og '' @ ?m @ ''.'')"
  proof -
    have "plainText (70 + 115) (?d @ ('' og '' @ ?m @ ''.''))"
      using dt mt by (intro plainText_append) (simp_all only: length_append, simp_all add: isJsSpace_def)
    then show ?thesis by (rule plainText_more) simp
  qed
  have t: "travelDelta f i j r first = (if i = j then ReferenceTravel (''F'' @ [CHR 0xF8] @ ''rste plan er sammenligningsgrunnlaget for reisetid.'')
      else ComparedTravel d m (?d @ '' og '' @ ?m @ ''.''))"
    by (simp only: travelDelta_def d_def m_def Let_def)
  show p: "plainText 250 (travelMessage (travelDelta f i j r first))"
  proof (cases "i = j")
    case True
    then show ?thesis unfolding t by (simp add: plainText_def isJsSpace_def)
  next
    case False
    then show ?thesis using compared unfolding t by (simp only: if_False travelMessage.simps)
  qed
  from plainText_admitted [OF p] have n: "nonEmptyStringSchema (travelMessage (travelDelta f i j r first)) = Some (travelMessage (travelDelta f i j r first))" by simp
  show "planTravelDeltaV1Schema (travelDelta f i j r first) = Some (travelDelta f i j r first)"
    using n axisFits_admitted [OF fits(1)] axisFits_admitted [OF fits(2)] unfolding t by (cases "i = j") (simp_all del: nonEmptyStringSchema_def)
qed

lemma label_fits:
  assumes "i < 7"
  shows "plainText 100 (snd (presentation ident i n same resolved c s t))"
proof -
  have "int i + 1 \<in> {1, 2, 3, 4, 5, 6, 7}" using assms by auto
  then have "plainText 100 (''Alternativ '' @ intText (int i + 1))" "plainText 100 (''Likeverdig alternativ '' @ intText (int i + 1))"
    using intText_fits [of "int i + 1"] by (auto simp: plainText_def isJsSpace_def MAX_SAFE_INTEGER_def)
  then show ?thesis by (auto simp: presentation_def plainText_def isJsSpace_def)
qed

end
