(* ===== verification/Plan_Delta_Correct.thy ===== *)
theory Plan_Delta_Correct
  imports Plan_Delta_Text
begin

text \<open>
  The schema of the result refuses a candidate for three reasons only, and the properties of \<open>derivePlanDeltaExplanationsV1\<close>
  follow: which inputs are explained, that every figure is true, what the explanation is bound to, and the roles.
\<close>

section \<open>The schema of the result\<close>

lemma stores_fit:
  assumes "planResultV2Schema p = Some p" "planResultV2Schema first = Some first"
  shows "storeDeltaV1Schema (storeDelta p first) = Some (storeDelta p first)"
proof -
  note p = plan_chains(1) [OF assms(1)] planResultV2_fixedE(9,10) [OF assms(1)]
    and q = plan_chains(1) [OF assms(2)] planResultV2_fixedE(9,10) [OF assms(2)]
  have "nonEmptyStringSchema (storeMessage (storeDelta p first)) = Some (storeMessage (storeDelta p first))"
    using store_fits [OF p(3) q(3)] by (rule plainText_admitted) simp
  moreover have "length (storeAdded (storeDelta p first)) \<le> length (p2Chains p)" "length (storeRemoved (storeDelta p first)) \<le> length (p2Chains first)"
    "distinct (storeAdded (storeDelta p first))" "distinct (storeRemoved (storeDelta p first))"
    using p(1) q(1) by (simp_all add: storeDelta_def Let_def)
  moreover have "storeChainIds (storeDelta p first) = p2Chains p" "storeReferenceChainIds (storeDelta p first) = p2Chains first"
    "storeCount (storeDelta p first) = length (p2Chains p)" "storeReferenceCount (storeDelta p first) = length (p2Chains first)"
    by (simp_all add: storeDelta_def Let_def)
  ultimately show ?thesis using p q by (simp add: storeDeltaV1Schema_def chain_texts_distinct)
qed

lemma summary_fits:
  assumes "plainText 110 a" "plainText 110 b" "\<And>t. c = Some t \<Longrightarrow> plainText 250 (travelMessage t)"
  shows "plainText 500 (joinText '' '' ([a, b] @ (case c of None \<Rightarrow> [] | Some t \<Rightarrow> [travelMessage t])))"
  using assms by (cases c) (auto simp: plainText_def)

lemma entry_fits:
  assumes ex: "explainable input plans routes bs" and f: "plainFormat f"
    and b: "list_all2 (\<lambda>p cs. list_all2 (bindingTrue (deltaInputGeneratedAt input) p) (p2Assignments p) cs) plans bindings"
      "set (concat bindings) \<subseteq> set bs" and i: "i < length plans"
    and e: "deltaEntry f plans (routesMap routes) (scopesOf plans bindings) allReasons (i, plans ! i) = Some e"
  shows "planDeltaExplanationV1Schema e =
    (if fullyCompared bs {p2Id (plans ! 0), p2Id (plans ! i)} \<and> MAX_PERSISTED_MONEY_ORE < totalSaving (plans ! i) then None else Some e)"
proof -
  let ?p = "plans ! i" and ?q = "plans ! 0" and ?reason = "reasonFor (scopesOf plans bindings) (plans ! 0) (plans ! i)"
  note p = explainable_plans [OF ex]
  have zero: "0 < length plans" using i by linarith
  have plan: "planResultV2Schema ?p = Some ?p" "planResultV2Schema ?q = Some ?q" using p(4) i zero by simp_all
  note pe = planResultV2_fixedE [OF plan(1)] and qe = planResultV2_fixedE [OF plan(2)]
  obtain needs where n: "length needs \<le> length (p2Assignments ?p)"
      "\<And>d. d \<in> set needs \<Longrightarrow> \<exists>a \<in> set (p2Assignments ?p). \<exists>b \<in> set (p2Assignments ?q). a2NeedId a = a2NeedId b \<and> d = needDelta a b"
    and eq: "deltaEntry f plans (routesMap routes) (scopesOf plans bindings) allReasons (i, ?p) =
       map_option (\<lambda>saving. \<lparr>deltaPlanId = p2Id ?p, deltaReferenceId = p2Id ?q,
           deltaRole = fst (shownRole plans (routesMap routes) (allReasons = []) i),
           deltaLabel = snd (shownRole plans (routesMap routes) (allReasons = []) i),
           deltaPrice = priceDelta f ?p ?q ?reason, deltaSaving = saving, deltaStores = storeDelta ?p ?q, deltaNeeds = needs,
           deltaTravel = shownTravel f routes i,
           deltaSummary = joinText '' '' ([priceMessage (priceDelta f ?p ?q ?reason), storeMessage (storeDelta ?p ?q)]
              @ (case shownTravel f routes i of None \<Rightarrow> [] | Some t \<Rightarrow> [travelMessage t]))\<rparr>)
         (offerSaving f ?p ?reason)"
    using deltaEntry_cases [OF ex b i] by metis
  obtain saving where s: "offerSaving f ?p ?reason = Some saving" using e unfolding eq by auto
  have travel: "plainText 250 (travelMessage t)" "planTravelDeltaV1Schema t = Some t" if t: "shownTravel f routes i = Some t" for t
  proof -
    obtain rs where rs: "routes = Some rs" and t: "t = travelDelta f (routePlanId (rs ! i)) (routePlanId (rs ! 0)) (rs ! i) (rs ! 0)"
      using t by (auto simp: shownTravel_def)
    have "length rs = length plans" using p(7) [OF rs] by (metis length_map)
    then have "travelRouteEvidenceSchema (rs ! i) = Some (rs ! i)" "travelRouteEvidenceSchema (rs ! 0) = Some (rs ! 0)"
      using p(6) i zero by (simp_all add: rs list_all_iff)
    then show "plainText 250 (travelMessage t)" "planTravelDeltaV1Schema t = Some t" unfolding t by (rule travel_fits [OF f])+
  qed
  have need: "planNeedDeltaExplanationV1Schema d = Some d" if "d \<in> set needs" for d
    using n(2) [OF that] need_fits plan_assignments(1) [OF plan(1)] plan_assignments(1) [OF plan(2)] by blast
  have label: "nonEmptyStringSchema (snd (shownRole plans (routesMap routes) (allReasons = []) i)) = Some (snd (shownRole plans (routesMap routes) (allReasons = []) i))"
    unfolding shownRole_def using p(2) i by (intro plainText_admitted [OF label_fits]) simp_all
  have summary: "nonEmptyStringSchema (joinText '' '' ([priceMessage (priceDelta f ?p ?q ?reason), storeMessage (storeDelta ?p ?q)]
      @ (case shownTravel f routes i of None \<Rightarrow> [] | Some t \<Rightarrow> [travelMessage t])))
    = Some (joinText '' '' ([priceMessage (priceDelta f ?p ?q ?reason), storeMessage (storeDelta ?p ?q)]
      @ (case shownTravel f routes i of None \<Rightarrow> [] | Some t \<Rightarrow> [travelMessage t])))"
    using price_fits(1) [OF f pe(8) qe(8)] store_fits [OF pe(10) qe(10)] travel(1) by (intro plainText_admitted [OF summary_fits]) simp_all
  have t: "parseOptional planTravelDeltaV1Schema (shownTravel f routes i) = Some (shownTravel f routes i)"
    using travel(2) by (cases "shownTravel f routes i") simp_all
  have "parseAll planNeedDeltaExplanationV1Schema needs = Some needs" using need by (simp add: parseAll_fixed)
  moreover have "length needs \<le> 50" using n(1) pe(7) by linarith
  moreover have "e = \<lparr>deltaPlanId = p2Id ?p, deltaReferenceId = p2Id ?q,
           deltaRole = fst (shownRole plans (routesMap routes) (allReasons = []) i),
           deltaLabel = snd (shownRole plans (routesMap routes) (allReasons = []) i),
           deltaPrice = priceDelta f ?p ?q ?reason, deltaSaving = saving, deltaStores = storeDelta ?p ?q, deltaNeeds = needs,
           deltaTravel = shownTravel f routes i,
           deltaSummary = joinText '' '' ([priceMessage (priceDelta f ?p ?q ?reason), storeMessage (storeDelta ?p ?q)]
              @ (case shownTravel f routes i of None \<Rightarrow> [] | Some t \<Rightarrow> [travelMessage t]))\<rparr>"
    using e s unfolding eq by simp
  ultimately have "planDeltaExplanationV1Schema e = map_option (\<lambda>_. e) (offerSavingV1Schema saving)"
    using label summary t pe(1) qe(1) price_fits(2) [OF f pe(8) qe(8)] stores_fit [OF plan] saving_fits [OF f s plan(1)]
    by (simp add: planDeltaExplanationV1Schema_def)
  then show ?thesis using saving_fits [OF f s plan(1)] reasonFor_true(1) [OF ex b i] by simp
qed

text \<open>Every identifier of a price a scope names.\<close>

definition evidenceIdsOf :: "delta_evidence list \<Rightarrow> string set" where
  "evidenceIdsOf bs = (\<Union>b \<in> set bs. insert (evidenceEvidenceId b) (set (pricedIds (evidenceScope b))))"

definition withinLimits :: "plan_v2 list \<Rightarrow> route_evidence list option \<Rightarrow> delta_evidence list \<Rightarrow> bool" where
  "withinLimits plans routes bs \<longleftrightarrow>
     (\<forall>p \<in> set plans. fullyCompared bs {p2Id (hd plans), p2Id p} \<longrightarrow> totalSaving p \<le> MAX_PERSISTED_MONEY_ORE)
     \<and> card (evidenceIdsOf bs) \<le> 350 \<and> optionally (\<lambda>rs. distinct (map (aggregateFingerprint \<circ> routeAggregate) rs)) routes"

lemma pricedIds_iff: "i \<in> set (pricedIds s) \<longleftrightarrow> (\<exists>e \<in> set (scopeEntries s). entryStatus e = Priced i)"
proof -
  have "(case t of Priced i \<Rightarrow> Some i | _ \<Rightarrow> None) = Some i \<longleftrightarrow> t = Priced i" for t by (cases t) auto
  then show ?thesis by (simp add: pricedIds_def mem_map_filter)
qed

lemma parseAll_None: "parseAll p xs = None \<longleftrightarrow> (\<exists>x \<in> set xs. p x = None)"
  by (induction xs) (auto split: option.splits)

lemma priced_ids:
  assumes "comparisonScopeSchema s = Some s" and "i \<in> set (pricedIds s)"
  shows "identifierSchema i = Some i"
proof -
  obtain expected entries where p: "parseAll comparisonEntrySchema (scopeEntries s) = Some entries"
    and e: "s\<lparr>scopeExpectedChainIds := expected, scopeEntries := entries\<rparr> = s"
    using assms(1) by (auto simp: comparisonScopeSchema_def Let_def split: option.splits if_splits)
  have "scopeEntries s = entries" using arg_cong [OF e, of scopeEntries] by simp
  with p have fixed: "\<forall>x \<in> set (scopeEntries s). comparisonEntrySchema x = Some x" by (simp add: parseAll_fixed)
  obtain x where x: "x \<in> set (scopeEntries s)" "entryStatus x = Priced i"
    using assms(2) by (auto simp: pricedIds_iff)
  with fixed have "comparisonEntrySchema x = Some x" by blast
  then obtain c t where "coverageStatusSchema (entryStatus x) = Some t" and eq: "\<lparr>entryChainId = c, entryStatus = t\<rparr> = x"
    by (auto simp: comparisonEntrySchema_def split: option.splits)
  moreover have "entryStatus x = t" using arg_cong [OF eq, of entryStatus] by simp
  ultimately show ?thesis using x(2) by auto
qed

lemma bound_ids:
  assumes ex: "explainable input plans routes bs" and b: "b \<in> set bs"
  shows "identifierSchema (evidenceEvidenceId b) = Some (evidenceEvidenceId b)"
    "parseOptional identifierSchema (evidenceOfferId b) = Some (evidenceOfferId b)"
    "\<And>i. i \<in> set (pricedIds (evidenceScope b)) \<Longrightarrow> identifierSchema i = Some i"
proof -
  obtain bindings where bb: "list_all2 (\<lambda>p cs. list_all2 (bindingTrue (deltaInputGeneratedAt input) p) (p2Assignments p) cs) plans bindings"
      "set (concat bindings) \<subseteq> set bs"
    using derive_explainable [OF ex] by metis
  have "b \<in> set (concat bindings)" using mset_eq_setD [OF explained_bindings(1) [OF ex bb]] b by simp
  then obtain cs where cs: "cs \<in> set bindings" "b \<in> set cs" by auto
  obtain p where p: "p \<in> set plans" "list_all2 (bindingTrue (deltaInputGeneratedAt input) p) (p2Assignments p) cs"
    using list_all2_right [OF bb(1) cs(1)] by blast
  obtain a where a: "a \<in> set (p2Assignments p)" "bindingTrue (deltaInputGeneratedAt input) p a b"
    using list_all2_right [OF p(2) cs(2)] by blast
  have scope: "comparisonScopeSchema (evidenceScope b) = Some (evidenceScope b)" using a(2) by (simp add: bindingTrue_def)
  show priced: "identifierSchema i = Some i" if "i \<in> set (pricedIds (evidenceScope b))" for i using priced_ids [OF scope that] .
  have "evidenceEvidenceId b \<in> set (pricedIds (evidenceScope b))"
    using a(2) by (auto simp: bindingTrue_def pricedIds_iff)
  then show "identifierSchema (evidenceEvidenceId b) = Some (evidenceEvidenceId b)" by (rule priced)
  have "checkoutCostV2Schema (a2Checkout a) = Some (a2Checkout a)"
    using assignment_fixedE(5) plan_assignments(1) explainable_plans(4) [OF ex p(1)] a(1) by blast
  then show "parseOptional identifierSchema (evidenceOfferId b) = Some (evidenceOfferId b)"
    using offer_id_fixed a(2) by (simp add: bindingTrue_def)
qed

lemma deltaEntry_None:
  assumes ex: "explainable input plans routes bs"
    and b: "list_all2 (\<lambda>p cs. list_all2 (bindingTrue (deltaInputGeneratedAt input) p) (p2Assignments p) cs) plans bindings"
      "set (concat bindings) \<subseteq> set bs" and i: "i < length plans"
  shows "deltaEntry f plans (routesMap routes) (scopesOf plans bindings) allReasons (i, plans ! i) = None
    \<longleftrightarrow> offerSaving f (plans ! i) (reasonFor (scopesOf plans bindings) (plans ! 0) (plans ! i)) = None"
  by (rule deltaEntry_cases [OF ex b i, of f allReasons]) (simp only: map_option_is_None)

lemma candidate_cases:
  assumes ex: "explainable input plans routes bs"
    and b: "list_all2 (\<lambda>p cs. list_all2 (bindingTrue (deltaInputGeneratedAt input) p) (p2Assignments p) cs) plans bindings"
      "set (concat bindings) \<subseteq> set bs"
  obtains (none) p where "deltaCandidate f g market plans bindings routes = None" "p \<in> set plans"
      "fullyCompared bs {p2Id (hd plans), p2Id p}" "MAX_SAFE_INTEGER < totalSaving p"
  | (some) entries where
      "deltaCandidate f g market plans bindings routes =
         Some \<lparr>setBinding = \<lparr>bindingGeneratedAt = g, bindingMarket = market, bindingPlanIds = map p2Id plans,
                  bindingEvidenceIds = sort_by compareText (uniq (concat (map (\<lambda>b. evidenceEvidenceId b # pricedIds (evidenceScope b)) (concat bindings)))),
                  bindingOfferIds = sort_by compareText (uniq (List.map_filter evidenceOfferId (concat bindings))),
                  bindingComparison = (if fullyCompared bs UNIV then BoundComplete else BoundPartial),
                  bindingReasons = unresolvedReasons (concat (map snd (scopesOf plans bindings))),
                  bindingRoutes = map_option (map routeBindingOf) routes\<rparr>,
                setReferencePlanId = Some (p2Id (hd plans)),
                setQualifier = ''Forskjellene gjelder bare de returnerte komplette planene i dette pris'' @ [CHR 0xF8]
                  @ ''yeblikket; lager og lokal hyllepris er ikke bekreftet.'',
                setEntries = entries\<rparr>"
      "length entries = length plans"
      "\<And>i. i < length plans \<Longrightarrow> deltaEntry f plans (routesMap routes) (scopesOf plans bindings)
         (unresolvedReasons (concat (map snd (scopesOf plans bindings)))) (i, plans ! i) = Some (entries ! i)"
proof -
  let ?all = "unresolvedReasons (concat (map snd (scopesOf plans bindings)))"
  let ?entry = "deltaEntry f plans (routesMap routes) (scopesOf plans bindings) ?all"
  note p = explainable_plans [OF ex]
  have hd: "plans ! 0 = hd plans" using p(1) by (simp add: hd_conv_nth)
  have zero: "0 < length plans" using p(1) by simp
  have all: "?all = [] \<longleftrightarrow> fullyCompared bs UNIV" using reasonFor_true(3) [OF ex b zero] .
  have step: "deltaCandidate f g market plans bindings routes = (case parseAll ?entry (enumerate 0 plans) of None \<Rightarrow> None
      | Some entries \<Rightarrow> Some \<lparr>setBinding = \<lparr>bindingGeneratedAt = g, bindingMarket = market, bindingPlanIds = map p2Id plans,
                  bindingEvidenceIds = sort_by compareText (uniq (concat (map (\<lambda>b. evidenceEvidenceId b # pricedIds (evidenceScope b)) (concat bindings)))),
                  bindingOfferIds = sort_by compareText (uniq (List.map_filter evidenceOfferId (concat bindings))),
                  bindingComparison = (if fullyCompared bs UNIV then BoundComplete else BoundPartial),
                  bindingReasons = ?all, bindingRoutes = map_option (map routeBindingOf) routes\<rparr>,
                setReferencePlanId = Some (p2Id (hd plans)),
                setQualifier = ''Forskjellene gjelder bare de returnerte komplette planene i dette pris'' @ [CHR 0xF8]
                  @ ''yeblikket; lager og lokal hyllepris er ikke bekreftet.'',
                setEntries = entries\<rparr>)"
    by (simp only: deltaCandidate_def Let_def scopesOf_def [symmetric] routesMap_def [symmetric] all hd)
  show thesis
  proof (cases "parseAll ?entry (enumerate 0 plans)")
    case None
    then obtain x where x: "x \<in> set (enumerate 0 plans)" "?entry x = None" using parseAll_None by metis
    have "\<exists>i < length plans. x = (i, plans ! i)" using x(1) by (auto simp: in_set_conv_nth nth_enumerate_eq)
    then obtain i where i: "i < length plans" "x = (i, plans ! i)" by blast
    have "offerSaving f (plans ! i) (reasonFor (scopesOf plans bindings) (plans ! 0) (plans ! i)) = None"
      using x(2) deltaEntry_None [OF ex b i(1), of f ?all] unfolding i(2) by blast
    then have "fullyCompared bs {p2Id (hd plans), p2Id (plans ! i)} \<and> MAX_SAFE_INTEGER < totalSaving (plans ! i)"
      using saving_true(2) [OF p(4) reasonFor_true(1,2) [OF ex b i(1)]] i(1) unfolding hd by simp
    then show thesis using none [of "plans ! i"] step None i(1) by simp
  next
    case (Some entries)
    then have l: "list_all2 (\<lambda>x e. ?entry x = Some e) (enumerate 0 plans) entries" by (simp add: parseAll_Some)
    have "?entry (i, plans ! i) = Some (entries ! i)" if "i < length plans" for i
      using list_all2_nthD [OF l, of i] that by (simp add: nth_enumerate_eq)
    moreover have "length entries = length plans" using list_all2_lengthD [OF l] by simp
    ultimately show thesis using some [of entries] step Some by simp
  qed
qed

text \<open>What the candidate is bound to.\<close>

definition boundTo :: "string \<Rightarrow> market_context \<Rightarrow> plan_v2 list \<Rightarrow> delta_evidence list list \<Rightarrow> route_evidence list option \<Rightarrow> bound_comparison \<Rightarrow> delta_binding" where
  "boundTo g market plans bindings routes comparison =
     \<lparr>bindingGeneratedAt = g, bindingMarket = market, bindingPlanIds = map p2Id plans,
      bindingEvidenceIds = sort_by compareText (uniq (concat (map (\<lambda>b. evidenceEvidenceId b # pricedIds (evidenceScope b)) (concat bindings)))),
      bindingOfferIds = sort_by compareText (uniq (List.map_filter evidenceOfferId (concat bindings))),
      bindingComparison = comparison, bindingReasons = unresolvedReasons (concat (map snd (scopesOf plans bindings))),
      bindingRoutes = map_option (map routeBindingOf) routes\<rparr>"

lemma routeBinding_fits: "travelRouteEvidenceSchema r = Some r \<Longrightarrow> routeBindingV1Schema (routeBindingOf r) = Some (routeBindingOf r)"
proof -
  assume r: "travelRouteEvidenceSchema r = Some r"
  let ?a = "routeAggregate r"
  obtain p f where p: "sourceIdSchema (aggregateProviderId ?a) = Some p" "identifierSchema (aggregateFingerprint ?a) = Some f"
      "canonicalTimestamp (aggregateCalculatedAt ?a)" and eq: "?a\<lparr>aggregateProviderId := p, aggregateFingerprint := f\<rparr> = ?a"
    using route_fixedE(1) [OF r] by (auto simp: travelRouteAggregateSchema_def split: option.splits if_splits)
  have "aggregateProviderId ?a = p" "aggregateFingerprint ?a = f"
    using arg_cong [OF eq, of aggregateProviderId] arg_cong [OF eq, of aggregateFingerprint] by simp_all
  then show ?thesis using p route_fixedE(2) [OF r] by (simp add: routeBindingV1Schema_def routeBindingOf_def)
qed

lemma unresolvedReasons_short: "length (unresolvedReasons scopes) \<le> 3" "distinct (unresolvedReasons scopes)"
proof -
  have "length (filter P xs) \<le> length xs" for P and xs :: "withheld_reason list" by simp
  from this [of _ "[IneligibleWithheld, UnknownWithheld, PartialWithheld]"]
  show "length (unresolvedReasons scopes) \<le> 3" by (simp add: unresolvedReasons_def Let_def)
  show "distinct (unresolvedReasons scopes)" by (simp add: unresolvedReasons_def Let_def)
qed

lemma map_filter_length: "length (List.map_filter f xs) \<le> length xs"
  by (induction xs) (auto simp: List.map_filter_simps split: option.splits)

lemma needPairs_length:
  assumes "\<And>p. p \<in> set plans \<Longrightarrow> length (p2Assignments p) \<le> 50"
  shows "length (needPairs plans) \<le> 50 * length plans"
  using assms by (induction plans) (fastforce simp: needPairs_def)+

lemma evidence_list:
  assumes "mset (concat bindings) = mset bs"
  shows "set (concat (map (\<lambda>b. evidenceEvidenceId b # pricedIds (evidenceScope b)) (concat bindings))) = evidenceIdsOf bs"
proof -
  have "set (concat (map (\<lambda>b. evidenceEvidenceId b # pricedIds (evidenceScope b)) xs)) = evidenceIdsOf xs" for xs
    by (simp add: evidenceIdsOf_def)
  moreover have "evidenceIdsOf (concat bindings) = evidenceIdsOf bs" unfolding evidenceIdsOf_def mset_eq_setD [OF assms] ..
  ultimately show ?thesis by metis
qed

lemma boundTo_fits:
  assumes ex: "explainable input plans routes bs"
    and b: "list_all2 (\<lambda>p cs. list_all2 (bindingTrue (deltaInputGeneratedAt input) p) (p2Assignments p) cs) plans bindings"
      "set (concat bindings) \<subseteq> set bs"
  shows "deltaBindingSchema (boundTo (deltaInputGeneratedAt input) (deltaInputMarket input) plans bindings routes c) =
    (if card (evidenceIdsOf bs) \<le> 350 then Some (boundTo (deltaInputGeneratedAt input) (deltaInputMarket input) plans bindings routes c) else None)"
proof -
  let ?B = "boundTo (deltaInputGeneratedAt input) (deltaInputMarket input) plans bindings routes c"
  note p = explainable_plans [OF ex] and e = explained_bindings [OF ex b]
  note evidence = evidence_list [OF e(1)]
  obtain m where "marketContextV1Schema (deltaInputMarket input) = Some m" using ex unfolding explainable_def by blast
  then have market: "marketContextV1Schema (bindingMarket ?B) = Some (bindingMarket ?B)" using market_same by (auto simp: boundTo_def)
  have plans: "parseAll identifierSchema (bindingPlanIds ?B) = Some (bindingPlanIds ?B)"
    using planResultV2_fixedE(1) [OF p(4)] by (simp add: parseAll_fixed boundTo_def)
  have ids: "identifierSchema i = Some i" if "i \<in> evidenceIdsOf bs" for i
    using that bound_ids(1,3) [OF ex] unfolding evidenceIdsOf_def by blast
  have evidence_ids: "parseAll identifierSchema (bindingEvidenceIds ?B) = Some (bindingEvidenceIds ?B)"
    using ids unfolding parseAll_fixed boundTo_def by (simp add: evidence del: set_concat set_map)
  have "length (bindingEvidenceIds ?B) = card (evidenceIdsOf bs)" by (simp add: boundTo_def evidence del: set_concat set_map)
  moreover have offers: "parseAll identifierSchema (bindingOfferIds ?B) = Some (bindingOfferIds ?B)"
  proof -
    have "identifierSchema i = Some i" if i: "i \<in> set (List.map_filter evidenceOfferId (concat bindings))" for i
    proof -
      obtain x where x: "x \<in> set (concat bindings)" "evidenceOfferId x = Some i" using i by (auto simp: mem_map_filter)
      then have "x \<in> set bs" using b(2) by blast
      from bound_ids(2) [OF ex this] x(2) show ?thesis by (simp split: option.splits)
    qed
    then show ?thesis by (simp add: parseAll_fixed boundTo_def)
  qed
  moreover have "length (bindingOfferIds ?B) \<le> 350"
  proof -
    have "length (bindingOfferIds ?B) = length (uniq (List.map_filter evidenceOfferId (concat bindings)))" by (simp add: boundTo_def)
    also have "\<dots> \<le> length (List.map_filter evidenceOfferId (concat bindings))" by (simp add: card_length)
    also have "\<dots> \<le> length (concat bindings)" by (rule map_filter_length)
    also have "\<dots> = length (needPairs plans)" using bindings_pairs [OF b(1)] by (metis length_map)
    also have "\<dots> \<le> 50 * length plans" by (rule needPairs_length) (rule planResultV2_fixedE(7) [OF p(4)])
    also have "\<dots> \<le> 350" using p(2) by simp
    finally show ?thesis .
  qed
  moreover have "parseOptional (parseAll routeBindingV1Schema) (bindingRoutes ?B) = Some (bindingRoutes ?B)
      \<and> optionally (\<lambda>rs. length rs \<le> 7) (bindingRoutes ?B)"
  proof (cases routes)
    case (Some rs)
    have "length rs = length plans" using p(7) [OF Some] by (metis length_map)
    moreover have "routeBindingV1Schema (routeBindingOf r) = Some (routeBindingOf r)" if "r \<in> set rs" for r
      using p(6) that routeBinding_fits by (simp add: Some list_all_iff)
    then have "parseAll routeBindingV1Schema (map routeBindingOf rs) = Some (map routeBindingOf rs)" by (simp add: parseAll_fixed)
    ultimately show ?thesis using p(2) by (simp add: boundTo_def Some)
  qed (simp add: boundTo_def)
  moreover have "canonicalTimestamp (bindingGeneratedAt ?B)" using ex by (simp add: explainable_def boundTo_def)
  moreover have "length (bindingPlanIds ?B) \<le> 7" "length (bindingReasons ?B) \<le> 3"
    using p(2) unresolvedReasons_short by (simp_all add: boundTo_def)
  ultimately show ?thesis using market plans evidence_ids unfolding deltaBindingSchema_def by simp
qed

text \<open>What one entry says, whether the schema admits it or not.\<close>

lemma entry_says:
  assumes ex: "explainable input plans routes bs"
    and b: "list_all2 (\<lambda>p cs. list_all2 (bindingTrue (deltaInputGeneratedAt input) p) (p2Assignments p) cs) plans bindings"
      "set (concat bindings) \<subseteq> set bs" and i: "i < length plans"
    and e: "deltaEntry f plans (routesMap routes) (scopesOf plans bindings) allReasons (i, plans ! i) = Some e"
  shows "deltaPlanId e = p2Id (plans ! i)" "deltaReferenceId e = p2Id (plans ! 0)" "deltaTravel e = shownTravel f routes i"
    "(deltaRole e, deltaLabel e) = shownRole plans (routesMap routes) (allReasons = []) i" "entryTrue bs (plans ! 0) (plans ! i) e"
proof -
  let ?p = "plans ! i" and ?q = "plans ! 0" and ?reason = "reasonFor (scopesOf plans bindings) (plans ! 0) (plans ! i)"
  note p = explainable_plans [OF ex]
  have zero: "0 < length plans" using i by linarith
  have plan: "planResultV2Schema ?p = Some ?p" "planResultV2Schema ?q = Some ?q" using p(4) i zero by simp_all
  have ids: "p2Id ?p = p2Id ?q \<longleftrightarrow> ?p = ?q" using same_plan [OF p(3) i zero] by simp
  note r = reasonFor_true [OF ex b i]
  obtain needs where n: "needsTrue ?q ?p needs"
    and eq: "deltaEntry f plans (routesMap routes) (scopesOf plans bindings) allReasons (i, ?p) =
       map_option (\<lambda>saving. \<lparr>deltaPlanId = p2Id ?p, deltaReferenceId = p2Id ?q,
           deltaRole = fst (shownRole plans (routesMap routes) (allReasons = []) i),
           deltaLabel = snd (shownRole plans (routesMap routes) (allReasons = []) i),
           deltaPrice = priceDelta f ?p ?q ?reason, deltaSaving = saving, deltaStores = storeDelta ?p ?q, deltaNeeds = needs,
           deltaTravel = shownTravel f routes i,
           deltaSummary = joinText '' '' ([priceMessage (priceDelta f ?p ?q ?reason), storeMessage (storeDelta ?p ?q)]
              @ (case shownTravel f routes i of None \<Rightarrow> [] | Some t \<Rightarrow> [travelMessage t]))\<rparr>)
         (offerSaving f ?p ?reason)"
    by (rule deltaEntry_cases [OF ex b i, of f allReasons])
  from e eq obtain saving where s: "offerSaving f ?p ?reason = Some saving"
    and parts: "deltaPlanId e = p2Id ?p" "deltaReferenceId e = p2Id ?q" "deltaTravel e = shownTravel f routes i"
      "deltaRole e = fst (shownRole plans (routesMap routes) (allReasons = []) i)"
      "deltaLabel e = snd (shownRole plans (routesMap routes) (allReasons = []) i)"
      "deltaPrice e = priceDelta f ?p ?q ?reason" "deltaSaving e = saving" "deltaStores e = storeDelta ?p ?q" "deltaNeeds e = needs"
    by auto
  show "deltaPlanId e = p2Id ?p" "deltaReferenceId e = p2Id ?q" "deltaTravel e = shownTravel f routes i" by (rule parts)+
  show "(deltaRole e, deltaLabel e) = shownRole plans (routesMap routes) (allReasons = []) i" using parts(4,5) by simp
  show "entryTrue bs ?q ?p e"
    using parts price_true [OF r(1,2) ids] saving_true(1) [OF plan(1) r(1,2) s] stores_true [OF plan] n
    by (simp add: entryTrue_def)
qed

lemma qualifier_fits: "nonEmptyStringSchema (''Forskjellene gjelder bare de returnerte komplette planene i dette pris'' @ [CHR 0xF8]
    @ ''yeblikket; lager og lokal hyllepris er ikke bekreftet.'')
  = Some (''Forskjellene gjelder bare de returnerte komplette planene i dette pris'' @ [CHR 0xF8]
    @ ''yeblikket; lager og lokal hyllepris er ikke bekreftet.'')"
  by (rule plainText_admitted [of 200]) (simp_all add: plainText_def isJsSpace_def)

text \<open>The schema of the result refuses a candidate only for one of the limits.\<close>

lemma candidate_result:
  assumes ex: "explainable input plans routes bs" and f: "plainFormat f"
    and b: "list_all2 (\<lambda>p cs. list_all2 (bindingTrue (deltaInputGeneratedAt input) p) (p2Assignments p) cs) plans bindings"
      "set (concat bindings) \<subseteq> set bs"
    and c: "deltaCandidate f (deltaInputGeneratedAt input) (deltaInputMarket input) plans bindings routes = Some s"
  shows "planDeltaExplanationSetV1Schema s = (if withinLimits plans routes bs then Some s else None)"
    "setBinding s = boundTo (deltaInputGeneratedAt input) (deltaInputMarket input) plans bindings routes
       (if fullyCompared bs UNIV then BoundComplete else BoundPartial)"
    "setReferencePlanId s = Some (p2Id (hd plans))" "length (setEntries s) = length plans"
    "\<And>i. i < length plans \<Longrightarrow> deltaEntry f plans (routesMap routes) (scopesOf plans bindings)
         (unresolvedReasons (concat (map snd (scopesOf plans bindings)))) (i, plans ! i) = Some (setEntries s ! i)"
proof -
  let ?g = "deltaInputGeneratedAt input" and ?market = "deltaInputMarket input"
  let ?all = "unresolvedReasons (concat (map snd (scopesOf plans bindings)))"
  let ?bound = "boundTo ?g ?market plans bindings routes (if fullyCompared bs UNIV then BoundComplete else BoundPartial)"
  let ?qualifier = "''Forskjellene gjelder bare de returnerte komplette planene i dette pris'' @ [CHR 0xF8]
      @ ''yeblikket; lager og lokal hyllepris er ikke bekreftet.''"
  note p = explainable_plans [OF ex]
  obtain entries where s: "s = \<lparr>setBinding = ?bound, setReferencePlanId = Some (p2Id (hd plans)), setQualifier = ?qualifier, setEntries = entries\<rparr>"
    and len: "length entries = length plans"
    and entry: "\<And>i. i < length plans \<Longrightarrow> deltaEntry f plans (routesMap routes) (scopesOf plans bindings) ?all (i, plans ! i) = Some (entries ! i)"
    by (rule candidate_cases [OF ex b, where f = f and g = ?g and market = ?market]) (use c in \<open>simp_all add: boundTo_def\<close>)
  show "setBinding s = ?bound" "setReferencePlanId s = Some (p2Id (hd plans))" "length (setEntries s) = length plans"
    using len by (simp_all add: s)
  show "deltaEntry f plans (routesMap routes) (scopesOf plans bindings) ?all (i, plans ! i) = Some (setEntries s ! i)" if "i < length plans" for i
    using entry [OF that] by (simp add: s)
  define small where "small = (\<forall>p \<in> set plans. fullyCompared bs {p2Id (hd plans), p2Id p} \<longrightarrow> totalSaving p \<le> MAX_PERSISTED_MONEY_ORE)"
  have hd: "plans ! 0 = hd plans" using p(1) by (simp add: hd_conv_nth)
  have fits: "planDeltaExplanationV1Schema (entries ! i) =
      (if fullyCompared bs {p2Id (hd plans), p2Id (plans ! i)} \<and> MAX_PERSISTED_MONEY_ORE < totalSaving (plans ! i) then None else Some (entries ! i))"
    if "i < length plans" for i using entry_fits [OF ex f b that entry [OF that]] unfolding hd .
  have parsed: "parseAll planDeltaExplanationV1Schema entries = (if small then Some entries else None)"
  proof (cases small)
    case True
    have "planDeltaExplanationV1Schema e = Some e" if e: "e \<in> set entries" for e
    proof -
      obtain i where i: "i < length plans" "e = entries ! i" using e len by (metis in_set_conv_nth)
      have "\<not> (fullyCompared bs {p2Id (hd plans), p2Id (plans ! i)} \<and> MAX_PERSISTED_MONEY_ORE < totalSaving (plans ! i))"
        using True nth_mem [OF i(1)] unfolding small_def not_less [symmetric] by blast
      then show ?thesis unfolding i(2) fits [OF i(1)] by (rule if_not_P)
    qed
    then show ?thesis using True by (simp add: parseAll_fixed)
  next
    case False
    then obtain i where i: "i < length plans" "fullyCompared bs {p2Id (hd plans), p2Id (plans ! i)} \<and> MAX_PERSISTED_MONEY_ORE < totalSaving (plans ! i)"
      unfolding small_def by (metis in_set_conv_nth not_le)
    have "planDeltaExplanationV1Schema (entries ! i) = None" unfolding fits [OF i(1)] using i(2) by (rule if_P)
    moreover have "entries ! i \<in> set entries" using i(1) len by simp
    ultimately have "\<exists>e \<in> set entries. planDeltaExplanationV1Schema e = None" by blast
    then show ?thesis using False by (simp add: parseAll_None)
  qed
  have ids: "map deltaPlanId entries = map p2Id plans"
    using len entry_says(1) [OF ex b _ entry] by (intro nth_equalityI) simp_all
  have at_entry: "deltaReferenceId e = p2Id (hd plans) \<and> (deltaTravel e \<noteq> None \<longleftrightarrow> routes \<noteq> None)" if e: "e \<in> set entries" for e
  proof -
    obtain i where i: "i < length plans" "e = entries ! i" using e len by (metis in_set_conv_nth)
    show ?thesis using entry_says(2,3) [OF ex b i(1) entry [OF i(1)]] hd i(2) by (auto simp: shownTravel_def)
  qed
  have routes_bound: "map boundPlanId (map routeBindingOf rs) = map p2Id plans" if "routes = Some rs" for rs
    using p(7) [OF that] by (simp add: routeBindingOf_def comp_def)
  have refined: "deltaSetRefinement s \<longleftrightarrow> optionally (\<lambda>rs. distinct (map (aggregateFingerprint \<circ> routeAggregate) rs)) routes"
  proof -
    have "entries \<noteq> []" "list_all (\<lambda>e. deltaTravel e \<noteq> None) entries \<longleftrightarrow> routes \<noteq> None"
      "\<not> list_ex (\<lambda>e. Some (deltaReferenceId e) \<noteq> Some (p2Id (hd plans))) entries"
      using at_entry len p(1) by (auto simp: list_all_iff list_ex_iff)
    then have "deltaSetRefinement s \<longleftrightarrow> (case map_option (map routeBindingOf) routes of None \<Rightarrow> True
        | Some rs \<Rightarrow> map boundPlanId rs = map p2Id plans \<and> distinct (map boundFingerprint rs))"
      using p(1,3) ids hd unresolvedReasons_short(2)
      by (auto simp: deltaSetRefinement_def Let_def s boundTo_def simp del: map_map)
    then show ?thesis using routes_bound
      by (cases routes) (simp_all add: routeBindingOf_def comp_def)
  qed
  have "identifierSchema (p2Id (hd plans)) = Some (p2Id (hd plans))" using planResultV2_fixedE(1) [OF p(4)] p(1) by simp
  moreover have "withinLimits plans routes bs \<longleftrightarrow> small \<and> card (evidenceIdsOf bs) \<le> 350 \<and> deltaSetRefinement s"
    by (simp only: withinLimits_def small_def refined)
  moreover note boundTo_fits [OF ex b, of "if fullyCompared bs UNIV then BoundComplete else BoundPartial"]
  ultimately show "planDeltaExplanationSetV1Schema s = (if withinLimits plans routes bs then Some s else None)"
    using p(2) len by (simp add: planDeltaExplanationSetV1Schema_def s parsed qualifier_fits del: append.simps append_Cons)
qed

section \<open>The result\<close>

text \<open>An explainable input within the limits is answered with its candidate, and beyond them not at all.\<close>

lemma derive_result:
  assumes ex: "explainable input plans routes bs" and f: "plainFormat f"
  obtains bindings where
    "list_all2 (\<lambda>p cs. list_all2 (bindingTrue (deltaInputGeneratedAt input) p) (p2Assignments p) cs) plans bindings"
    "set (concat bindings) \<subseteq> set bs"
    "derivePlanDeltaExplanationsV1 f input \<noteq> None \<longleftrightarrow> withinLimits plans routes bs"
    "\<And>s. derivePlanDeltaExplanationsV1 f input = Some s \<Longrightarrow>
       deltaCandidate f (deltaInputGeneratedAt input) (deltaInputMarket input) plans bindings routes = Some s"
proof -
  obtain bindings where b: "list_all2 (\<lambda>p cs. list_all2 (bindingTrue (deltaInputGeneratedAt input) p) (p2Assignments p) cs) plans bindings"
      "set (concat bindings) \<subseteq> set bs"
    and d: "derivePlanDeltaExplanationsV1 f input =
       (case deltaCandidate f (deltaInputGeneratedAt input) (deltaInputMarket input) plans bindings routes of
          None \<Rightarrow> None | Some candidate \<Rightarrow> planDeltaExplanationSetV1Schema candidate)"
    by (rule derive_explainable [OF ex])
  show thesis
  proof (cases "deltaCandidate f (deltaInputGeneratedAt input) (deltaInputMarket input) plans bindings routes")
    case None
    obtain p where "p \<in> set plans" "fullyCompared bs {p2Id (hd plans), p2Id p}" "MAX_SAFE_INTEGER < totalSaving p"
      by (rule candidate_cases [OF ex b, where f = f and g = "deltaInputGeneratedAt input" and market = "deltaInputMarket input"])
        (use None in simp_all)
    then have "\<not> withinLimits plans routes bs"
      unfolding withinLimits_def MAX_SAFE_INTEGER_def MAX_PERSISTED_MONEY_ORE_def by fastforce
    then show thesis using that [OF b] d None by simp
  next
    case (Some s)
    from candidate_result(1) [OF ex f b Some] show thesis using that [OF b] d Some by (simp split: if_splits)
  qed
qed

lemma noPlans_fits:
  assumes "canonicalTimestamp g" and "marketContextV1Schema m = Some m"
  shows "planDeltaExplanationSetV1Schema (noPlansSet g m) = Some (noPlansSet g m)"
proof -
  have "nonEmptyStringSchema (setQualifier (noPlansSet g m)) = Some (setQualifier (noPlansSet g m))"
    by (rule plainText_admitted [of 200]) (simp_all add: plainText_def isJsSpace_def noPlansSet_def)
  then show ?thesis using assms
    by (simp add: planDeltaExplanationSetV1Schema_def deltaBindingSchema_def noPlansSet_def deltaSetRefinement_def)
qed

lemma derive_empty:
  assumes "deltaInputPlans input = []"
  shows "derivePlanDeltaExplanationsV1 f input =
    (if canonicalTimestamp (deltaInputGeneratedAt input) \<and> marketContextV1Schema (deltaInputMarket input) \<noteq> None
        \<and> deltaInputEvidence input = [] \<and> deltaInputRoutes input = None
     then Some (noPlansSet (deltaInputGeneratedAt input) (deltaInputMarket input)) else None)"
proof (cases "canonicalTimestamp (deltaInputGeneratedAt input) \<and> marketContextV1Schema (deltaInputMarket input) \<noteq> None
    \<and> deltaInputEvidence input = [] \<and> deltaInputRoutes input = None")
  case True
  then have m: "marketContextV1Schema (deltaInputMarket input) = Some (deltaInputMarket input)" using market_same by fastforce
  have "canonicalProjectedPlanResultsV2 [] 7 None = Some []" by code_simp
  then have "canonicalPlans [] None = Some []" by (simp add: canonicalPlans_def atMost7_def)
  then show ?thesis using True m assms noPlans_fits
    by (simp add: derivePlanDeltaExplanationsV1_def canonicalTimestampSchema_def)
next
  case False
  have "parseOptional (atMost7 travelRouteEvidenceSchema) (deltaInputRoutes input) = Some None \<longleftrightarrow> deltaInputRoutes input = None"
    by (cases "deltaInputRoutes input") (auto split: option.splits)
  moreover have "plans = []" if "canonicalPlans [] routes = Some plans" for routes plans
    using that by (auto simp: canonicalPlans_def atMost7_def Let_def split: option.splits if_splits)
  ultimately show ?thesis using False assms
    by (auto simp: derivePlanDeltaExplanationsV1_def canonicalTimestampSchema_def split: option.splits)
qed
section \<open>Roles\<close>

text \<open>The roles of the plans, from their order alone.\<close>

definition cheapestFirst :: "route_evidence list option \<Rightarrow> plan_v2 list \<Rightarrow> bool" where
  "cheapestFirst routes plans \<longleftrightarrow> (\<forall>p \<in> set plans. compareSavingsObjective (routesMap routes) (hd plans) p \<le> 0)"

definition rolesOf :: "delta_evidence list \<Rightarrow> route_evidence list option \<Rightarrow> plan_v2 list \<Rightarrow> nat \<Rightarrow> presentation_role" where
  "rolesOf bs routes plans i =
     (if length plans = 1 then OnlyRole
      else if \<not> fullyCompared bs UNIV then AlternativeRole
      else if objectivesEquivalent plans (hd plans) (routesMap routes) then EquivalentRole
      else if i = 0 then ConvenienceRole
      else if cheapestFirst routes plans then AlternativeRole
      else if i = length plans - 1 then SavingsRole
      else if i = (length plans - 1) div 2 then BalancedRole
      else AlternativeRole)"

lemma savings_ends:
  assumes o: "orderedPlans (routesMap routes) plans" and d: "distinct (map p2Id plans)" and ne: "plans \<noteq> []"
  shows "savingsId (routesMap routes) plans = (if cheapestFirst routes plans then p2Id (hd plans) else p2Id (last plans))"
    "\<not> cheapestFirst routes plans \<Longrightarrow> \<forall>p \<in> set plans. compareSavingsObjective (routesMap routes) (last plans) p \<le> 0"
proof -
  note c = convenience_first [OF o ne]
  show "savingsId (routesMap routes) plans = (if cheapestFirst routes plans then p2Id (hd plans) else p2Id (last plans))"
    using c(2) hd_sort_least [OF by_savings_objective.comparator_axioms hd_in_set [OF ne], of "routesMap routes"] objective_ids(2)
    unfolding cheapestFirst_def savingsId_def by metis
  show "\<forall>p \<in> set plans. compareSavingsObjective (routesMap routes) (last plans) p \<le> 0" if "\<not> cheapestFirst routes plans"
    using o that unfolding orderedPlans_def cheapestFirst_def by blast
qed

lemma shownRole_cases:
  assumes o: "orderedPlans (routesMap routes) plans" and d: "distinct (map p2Id plans)" and i: "i < length plans"
  shows "fst (shownRole plans (routesMap routes) (fullyCompared bs UNIV) i) = rolesOf bs routes plans i"
proof -
  have ne: "plans \<noteq> []" and zero: "0 < length plans" using i by auto
  have hd: "plans ! 0 = hd plans" and last: "last plans = plans ! (length plans - 1)" using ne by (simp_all add: hd_conv_nth last_conv_nth)
  have same: "p2Id (plans ! i) = p2Id (plans ! j) \<longleftrightarrow> i = j" if "j < length plans" for j using same_plan(1) [OF d i that] .
  have ids: "p2Id (plans ! i) = p2Id (hd plans) \<longleftrightarrow> i = 0" "p2Id (plans ! i) = p2Id (last plans) \<longleftrightarrow> i = length plans - 1"
    using same [OF zero] same [of "length plans - 1"] zero unfolding hd last by simp_all
  have ends: "p2Id (hd plans) = p2Id (last plans) \<longleftrightarrow> length plans = 1"
    using same_plan(1) [OF d zero, of "length plans - 1"] zero unfolding hd last by (cases plans) simp_all
  have c: "convenienceId (routesMap routes) plans = p2Id (hd plans)" using convenience_first(1) [OF o ne] .
  show ?thesis unfolding shownRole_def presentation_def rolesOf_def hd c savings_ends(1) [OF o d ne] ids
    by (simp add: ids ends)
qed
lemma objective_leads:
  "compareConvenienceObjective R p q \<le> 0 \<Longrightarrow> length (p2Chains p) \<le> length (p2Chains q)"
  "compareSavingsObjective R p q \<le> 0 \<Longrightarrow> p2TotalOre p \<le> p2TotalOre q"
  by (auto simp: compareConvenienceObjective_def compareSavingsObjective_def js_or_def split: if_splits)

lemma binding_unique:
  assumes ex: "explainable input plans routes bs" and p: "p \<in> set plans" and a: "a \<in> set (p2Assignments p)"
  shows "\<exists>!b. b \<in> set bs \<and> bindingTrue (deltaInputGeneratedAt input) p a b"
proof -
  have d: "distinct (map keyOf bs)" using ex unfolding explainable_def by blast
  obtain b where b: "b \<in> set bs" "bindingTrue (deltaInputGeneratedAt input) p a b" using ex p a unfolding explainable_def by blast
  have "c = b" if "c \<in> set bs" "bindingTrue (deltaInputGeneratedAt input) p a c" for c
  proof -
    have "keyOf c = keyOf b" using that(2) b(2) by (simp add: bindingTrue_def keyOf_def)
    then show ?thesis using d that(1) b(1) by (simp add: distinct_map inj_on_def)
  qed
  with b show ?thesis by blast
qed

lemma offers_of_bindings:
  assumes "list_all2 (\<lambda>p cs. list_all2 (bindingTrue g p) (p2Assignments p) cs) plans bindings"
  shows "set (List.map_filter evidenceOfferId (concat bindings))
    = {i. \<exists>p \<in> set plans. \<exists>a \<in> set (p2Assignments p). appliedOfferId (a2Checkout a) = Some i}"
proof -
  have step: "map evidenceOfferId cs = map (\<lambda>a. appliedOfferId (a2Checkout a)) as" if "list_all2 (bindingTrue g p) as cs" for p as cs
    using that by (induction rule: list_all2_induct) (simp_all add: bindingTrue_def)
  have "map evidenceOfferId (concat bindings) = map (\<lambda>a. appliedOfferId (a2Checkout a)) (concat (map p2Assignments plans))"
    using assms by (induction rule: list_all2_induct) (simp_all add: step)
  then have "evidenceOfferId ` set (concat bindings) = (\<lambda>a. appliedOfferId (a2Checkout a)) ` set (concat (map p2Assignments plans))"
    by (metis set_map)
  then have "(\<exists>b \<in> set (concat bindings). evidenceOfferId b = Some i)
      \<longleftrightarrow> (\<exists>a \<in> set (concat (map p2Assignments plans)). appliedOfferId (a2Checkout a) = Some i)" for i
    by (metis (no_types, lifting) image_iff)
  then show ?thesis by (simp add: mem_map_filter set_eq_iff)
qed

lemma sort_uniq_text: "sorted_wrt (<) (sort_by compareText (uniq xs))"
  by (simp add: strict_sorted_iff sorted_sort_text)

section \<open>Properties\<close>

text \<open>
  C32. Which inputs are explained. Without plans there is an (empty) explanation just when the time and the market are admitted and there
  is neither evidence nor routes. With plans there is one exactly when the input is \<open>explainable\<close> and within three limits of the schema:
  no documented saving shown exceeds 2147483647 ore, at most 350 pieces of priced evidence are named in all, and no two routes have the
  same fingerprint. No other input is refused: the texts, the counts, the differences and the roles always fit.
\<close>

theorem explanation_answered:
  assumes f: "plainFormat f"
  shows "derivePlanDeltaExplanationsV1 f input \<noteq> None \<longleftrightarrow>
    (if deltaInputPlans input = []
     then canonicalTimestamp (deltaInputGeneratedAt input) \<and> marketContextV1Schema (deltaInputMarket input) \<noteq> None
          \<and> deltaInputEvidence input = [] \<and> deltaInputRoutes input = None
     else \<exists>plans routes bs. explainable input plans routes bs \<and> withinLimits plans routes bs)"
proof (cases "deltaInputPlans input = []")
  case True
  then show ?thesis using derive_empty [OF True, of f] by simp
next
  case False
  have "derivePlanDeltaExplanationsV1 f input \<noteq> None \<longleftrightarrow> withinLimits plans routes bs" if "explainable input plans routes bs" for plans routes bs
    by (rule derive_result [OF that f])
  moreover have "\<exists>plans routes bs. explainable input plans routes bs" if "derivePlanDeltaExplanationsV1 f input \<noteq> None"
    using derive_Some False that by blast
  ultimately show ?thesis using False by (simp only: if_False) blast
qed

text \<open>
  C33. Every entry of an explanation is true of its plan and the first one: the price difference is the difference of their totals and is
  shown only when both are compared completely, the documented saving is what the offers take off the ordinary prices, the chains added and
  removed are the differences of the chains bought from, every need has one delta, in the order of the needs, whose product, quantity, offer
  and chain are those of the two assignments, and the travel differences are those of the two routes.
\<close>

theorem explanation_true:
  assumes ex: "explainable input plans routes bs" and f: "plainFormat f"
    and d: "derivePlanDeltaExplanationsV1 f input = Some s"
  shows "list_all2 (entryTrue bs (hd plans)) plans (setEntries s)
    \<and> (case routes of
         None \<Rightarrow> list_all (\<lambda>e. deltaTravel e = None) (setEntries s)
       | Some rs \<Rightarrow> list_all2 (\<lambda>r e. \<exists>t. deltaTravel e = Some t \<and> travelTrue (hd rs) r t) rs (setEntries s))"
proof -
  obtain bindings where b: "list_all2 (\<lambda>p cs. list_all2 (bindingTrue (deltaInputGeneratedAt input) p) (p2Assignments p) cs) plans bindings"
      "set (concat bindings) \<subseteq> set bs"
    and c: "deltaCandidate f (deltaInputGeneratedAt input) (deltaInputMarket input) plans bindings routes = Some s"
    by (rule derive_result [OF ex f]) (use d in blast)
  note e = candidate_result(4,5) [OF ex f b c] and p = explainable_plans [OF ex]
  have hd: "plans ! 0 = hd plans" using p(1) by (simp add: hd_conv_nth)
  have entries: "entryTrue bs (hd plans) (plans ! i) (setEntries s ! i)" "deltaTravel (setEntries s ! i) = shownTravel f routes i"
    if "i < length plans" for i
    using entry_says(3,5) [OF ex b that e(2) [OF that]] unfolding hd by auto
  have "list_all2 (entryTrue bs (hd plans)) plans (setEntries s)" using e(1) entries(1) by (simp add: list_all2_conv_all_nth)
  moreover have "case routes of
         None \<Rightarrow> list_all (\<lambda>e. deltaTravel e = None) (setEntries s)
       | Some rs \<Rightarrow> list_all2 (\<lambda>r e. \<exists>t. deltaTravel e = Some t \<and> travelTrue (hd rs) r t) rs (setEntries s)"
  proof (cases routes)
    case None
    then show ?thesis using e(1) entries(2) by (simp add: list_all_length shownTravel_def)
  next
    case (Some rs)
    have len: "length rs = length plans" using p(7) [OF Some] by (metis length_map)
    then have "rs ! 0 = hd rs" using p(1) by (metis hd_conv_nth length_0_conv)
    then show ?thesis using e(1) entries(2) len travelDelta_true
      by (simp add: Some list_all2_conv_all_nth shownTravel_def)
  qed
  ultimately show ?thesis by (rule conjI)
qed

text \<open>
  C34. An explanation is given only on evidence for every figure, and says on which. Whenever the derivation answers for some plans, these
  parse and are in canonical order; all evidence of the input parses and was compared at the moment of the explanation; every
  assignment has exactly one piece of it, which is about its plan, need, product, chain and offer and prices it; and there is no other
  evidence. The answer names the plans in their order with the first as the reference. The identifiers named, strictly ascending, are
  those of the prices bound and of every other price their scopes compare. The offers named are those applied in some plan. The comparison
  is called complete just when every scope is, and the reasons listed are exactly those some scope gives.
\<close>

theorem explanation_bound:
  assumes f: "plainFormat f" and d: "derivePlanDeltaExplanationsV1 f input = Some s" and some: "deltaInputPlans input \<noteq> []"
  shows "\<exists>routes plans bs. parseOptional (atMost7 travelRouteEvidenceSchema) (deltaInputRoutes input) = Some routes
    \<and> canonicalPlans (deltaInputPlans input) routes = Some plans
    \<and> list_all2 (boundAs (deltaInputGeneratedAt input)) (deltaInputEvidence input) bs
    \<and> (\<forall>p \<in> set plans. \<forall>a \<in> set (p2Assignments p). \<exists>!b. b \<in> set bs \<and> bindingTrue (deltaInputGeneratedAt input) p a b)
    \<and> length bs = sum_list (map (\<lambda>p. length (p2Assignments p)) plans)
    \<and> bindingPlanIds (setBinding s) = map p2Id plans \<and> setReferencePlanId s = Some (p2Id (hd plans))
    \<and> sorted_wrt (<) (bindingEvidenceIds (setBinding s)) \<and> set (bindingEvidenceIds (setBinding s)) = evidenceIdsOf bs
    \<and> set (bindingOfferIds (setBinding s)) = {i. \<exists>p \<in> set plans. \<exists>a \<in> set (p2Assignments p). appliedOfferId (a2Checkout a) = Some i}
    \<and> (bindingComparison (setBinding s) = BoundComplete \<longleftrightarrow> fullyCompared bs UNIV)
    \<and> set (bindingReasons (setBinding s)) = {r. withheldFor bs UNIV r}"
proof -
  obtain plans routes bs where ex: "explainable input plans routes bs" using derive_Some [OF d] some by blast
  obtain bindings where b: "list_all2 (\<lambda>p cs. list_all2 (bindingTrue (deltaInputGeneratedAt input) p) (p2Assignments p) cs) plans bindings"
      "set (concat bindings) \<subseteq> set bs"
    and c: "deltaCandidate f (deltaInputGeneratedAt input) (deltaInputMarket input) plans bindings routes = Some s"
    by (rule derive_result [OF ex f]) (use d in blast)
  note r = candidate_result(2,3) [OF ex f b c] and e = explained_bindings [OF ex b]
  have "length bs = length (needPairs plans)" using bindings_pairs [OF b(1)] mset_eq_length [OF e(1)] by (metis length_map)
  then have size: "length bs = sum_list (map (\<lambda>p. length (p2Assignments p)) plans)"
    by (simp add: needPairs_def length_concat comp_def)
  have "set (concat (map snd (scopesOf plans bindings))) = evidenceScope ` set bs"
    unfolding e(4) set_map mset_eq_setD [OF e(1)] ..
  then have reasons: "set (bindingReasons (setBinding s)) = {r. withheldFor bs UNIV r}"
    by (auto simp: r(1) boundTo_def unresolvedReasons_iff withheldFor_def simp del: set_concat)
  have ids: "set (bindingEvidenceIds (setBinding s)) = evidenceIdsOf bs" "sorted_wrt (<) (bindingEvidenceIds (setBinding s))"
    using evidence_list [OF e(1)] sort_uniq_text by (simp_all add: r(1) boundTo_def del: set_concat set_map)
  have offers: "set (bindingOfferIds (setBinding s)) = {i. \<exists>p \<in> set plans. \<exists>a \<in> set (p2Assignments p). appliedOfferId (a2Checkout a) = Some i}"
    using offers_of_bindings [OF b(1)] by (simp add: r(1) boundTo_def)
  have named: "bindingPlanIds (setBinding s) = map p2Id plans" "bindingComparison (setBinding s) = BoundComplete \<longleftrightarrow> fullyCompared bs UNIV"
    by (simp_all add: r(1) boundTo_def)
  have parsed: "parseOptional (atMost7 travelRouteEvidenceSchema) (deltaInputRoutes input) = Some routes"
    "canonicalPlans (deltaInputPlans input) routes = Some plans"
    "list_all2 (boundAs (deltaInputGeneratedAt input)) (deltaInputEvidence input) bs"
    using ex unfolding explainable_def by blast+
  show ?thesis
    by (intro exI [of _ routes] exI [of _ plans] exI [of _ bs] conjI ballI parsed size named r(2) ids offers reasons binding_unique [OF ex])
qed

lemma boundAs_unique:
  assumes "list_all2 (boundAs g) raws bs" "list_all2 (boundAs g) raws cs"
  shows "bs = cs"
proof -
  have "b = c" if "boundAs g raw b" "boundAs g raw c" for raw b c using that by (auto simp: boundAs_def)
  with assms show ?thesis by (auto simp: list_all2_conv_all_nth intro!: nth_equalityI)
qed

text \<open>
  C35. The roles. A single plan is the only one; when some scope is not compared completely every plan is an alternative, and when the plans
  do not differ in total, chains, substitutions and travel time they are equivalent. Otherwise the first plan is the convenient one, and
  unless it is also the cheapest the last one is the savings plan and the one in the middle, (n - 1) div 2, the balanced one; the others
  are alternatives. No plan has fewer chains than the first, and none costs less than the one called the cheapest.
\<close>

theorem explanation_roles:
  assumes ex: "explainable input plans routes bs" and f: "plainFormat f"
    and d: "derivePlanDeltaExplanationsV1 f input = Some s"
  shows "map deltaRole (setEntries s) = map (rolesOf bs routes plans) [0..<length plans]
    \<and> (\<forall>p \<in> set plans. length (p2Chains (hd plans)) \<le> length (p2Chains p))
    \<and> (\<forall>p \<in> set plans. p2TotalOre (if cheapestFirst routes plans then hd plans else last plans) \<le> p2TotalOre p)"
proof -
  obtain bindings where b: "list_all2 (\<lambda>p cs. list_all2 (bindingTrue (deltaInputGeneratedAt input) p) (p2Assignments p) cs) plans bindings"
      "set (concat bindings) \<subseteq> set bs"
    and c: "deltaCandidate f (deltaInputGeneratedAt input) (deltaInputMarket input) plans bindings routes = Some s"
    by (rule derive_result [OF ex f]) (use d in blast)
  note e = candidate_result(4,5) [OF ex f b c] and p = explainable_plans [OF ex]
  have "deltaRole (setEntries s ! i) = rolesOf bs routes plans i" if i: "i < length plans" for i
    using entry_says(4) [OF ex b i e(2) [OF i], THEN arg_cong, of fst] shownRole_cases [OF p(5,3) i, of bs]
    unfolding reasonFor_true(3) [OF ex b i] by simp
  then have "map deltaRole (setEntries s) = map (rolesOf bs routes plans) [0..<length plans]"
    using e(1) by (intro nth_equalityI) simp_all
  moreover have "\<forall>p \<in> set plans. length (p2Chains (hd plans)) \<le> length (p2Chains p)"
    using p(5) objective_leads(1) unfolding orderedPlans_def by blast
  moreover have "p2TotalOre (if cheapestFirst routes plans then hd plans else last plans) \<le> p2TotalOre q" if q: "q \<in> set plans" for q
    using savings_ends(2) [OF p(5,3,1)] objective_leads(2) q unfolding cheapestFirst_def by (cases "cheapestFirst routes plans") (auto simp: cheapestFirst_def)
  ultimately show ?thesis by blast
qed
section \<open>A concrete comparison\<close>

definition exampleFormat :: number_format where
  "exampleFormat = \<lparr>nokText = (\<lambda>x. intText \<lfloor>x\<rfloor> @ CHR 0xA0 # ''kr''), kilometreText = (\<lambda>x. intText \<lfloor>x\<rfloor>)\<rparr>"

text \<open>Bread at Extra or, cheaper and farther away, at Bunnpris.\<close>

definition exampleBread :: "chain \<Rightarrow> int \<Rightarrow> assignment_v2" where
  "exampleBread c ore =
     \<lparr>a2NeedId = ''bread'', a2ProductId = ''loaf'', a2Ean = ''7038010000027'', a2Chain = c, a2CostOre = ore,
      a2ObservedAt = ''2026-07-16T11:00:00.000Z'', a2Source = ''feed'',
      a2Fulfilment = \<lparr>v2NeedId = ''bread'', v2ProductId = ''loaf'',
        v2Requested = \<lparr>measureAmount = 1, measureUnit = Piece\<rparr>, v2Package = \<lparr>measureAmount = 1, measureUnit = Piece\<rparr>,
        v2PackageCount = 1, v2Purchased = \<lparr>measureAmount = 1, measureUnit = Piece\<rparr>, v2Surplus = \<lparr>measureAmount = 0, measureUnit = Piece\<rparr>\<rparr>,
      a2Checkout = \<lparr>ordinaryTotalOre = ore, savingOre = 0, checkoutTotalOre = ore, appliedOfferId = None\<rparr>, a2Offer = None\<rparr>"

definition exampleTwoPlans :: "plan_v2 list" where
  "exampleTwoPlans =
     [\<lparr>p2Id = ''p1'', p2Assignments = [exampleBread Extra 4000], p2TotalOre = 4000, p2Chains = [Extra],
       p2Substitutions = [], p2Freshness = [(''bread'', ''eligible'')]\<rparr>,
      \<lparr>p2Id = ''p2'', p2Assignments = [exampleBread Bunnpris 3000], p2TotalOre = 3000, p2Chains = [Bunnpris],
       p2Substitutions = [], p2Freshness = [(''bread'', ''eligible'')]\<rparr>]"

definition exampleBound :: "string \<Rightarrow> assignment_v2 \<Rightarrow> string \<Rightarrow> delta_evidence" where
  "exampleBound planName a i =
     \<lparr>evidencePlanId = planName, evidenceNeedId = a2NeedId a, evidenceProductId = a2ProductId a, evidenceChainId = chainText (a2Chain a),
      evidenceEvidenceId = i, evidenceOfferId = appliedOfferId (a2Checkout a),
      evidenceScope = \<lparr>scopeCompleteness = CompleteComparison, scopeEvaluatedAt = ''2026-07-16T12:00:00.000Z'',
        scopeExpectedChainIds = [chainText (a2Chain a)], scopeEntries = [\<lparr>entryChainId = chainText (a2Chain a), entryStatus = Priced i\<rparr>]\<rparr>\<rparr>"

definition exampleRoute :: "string \<Rightarrow> int \<Rightarrow> string \<Rightarrow> chain list \<Rightarrow> route_evidence" where
  "exampleRoute planName seconds fingerprint cs =
     \<lparr>routeAggregate = \<lparr>aggregateCalculatedAt = ''2026-07-16T12:00:00.000Z'', aggregateDistanceMeters = 7 * seconds,
        aggregateDurationSeconds = seconds, aggregateMode = CarMode, aggregateProviderId = ''router'', aggregateFingerprint = fingerprint\<rparr>,
      routePlanId = planName,
      routeStops = map (\<lambda>(i, c). \<lparr>stopBranchId = ''b'', stopChain = c, stopName = chainText c, stopSequence = int i + 1\<rparr>)
        (enumerate 0 cs)\<rparr>"

definition exampleDelta :: delta_input where
  "exampleDelta =
     \<lparr>deltaInputPlans = exampleTwoPlans, deltaInputGeneratedAt = ''2026-07-16T12:00:00.000Z'',
      deltaInputMarket = NATIONAL_MARKET_CONTEXT_V1,
      deltaInputEvidence = [exampleBound ''p1'' (exampleBread Extra 4000) ''e1'', exampleBound ''p2'' (exampleBread Bunnpris 3000) ''e2''],
      deltaInputRoutes = Some [exampleRoute ''p1'' 600 ''r1'' [Extra], exampleRoute ''p2'' 900 ''r2'' [Bunnpris]]\<rparr>"

lemma exampleFormat_plain: "plainFormat exampleFormat"
proof -
  have t: "intText \<lfloor>x\<rfloor> \<noteq> [] \<and> \<not> isJsSpace (hd (intText \<lfloor>x\<rfloor>)) \<and> length (intText \<lfloor>x\<rfloor>) \<le> 16"
    if "0 \<le> x" "x \<le> of_int MAX_SAFE_INTEGER" for x :: rat
  proof -
    have "0 \<le> \<lfloor>x\<rfloor>" "\<lfloor>x\<rfloor> \<le> MAX_SAFE_INTEGER" using that by (simp_all add: floor_le_iff)
    from intText_fits [OF this] show ?thesis by simp
  qed
  have limits: "x \<le> of_int MAX_SAFE_INTEGER" if "x \<le> of_int MAX_PERSISTED_MONEY_ORE / 100 \<or> x \<le> of_int MAX_SAFE_INTEGER / 1000" for x :: rat
    using that by (auto simp: MAX_SAFE_INTEGER_def MAX_PERSISTED_MONEY_ORE_def)
  have "nokText exampleFormat x \<noteq> [] \<and> \<not> isJsSpace (hd (nokText exampleFormat x)) \<and> length (nokText exampleFormat x) \<le> 60"
    if "0 \<le> x \<and> x \<le> of_int MAX_PERSISTED_MONEY_ORE / 100" for x
    using t [of x] limits [of x] that by (simp add: exampleFormat_def)
  moreover have "length (kilometreText exampleFormat x) \<le> 60" if "0 \<le> x \<and> x \<le> of_int MAX_SAFE_INTEGER / 1000" for x
    using t [of x] limits [of x] that by (simp add: exampleFormat_def)
  ultimately show ?thesis unfolding plainFormat_def by blast
qed

lemma exampleDelta_explainable: "explainable exampleDelta exampleTwoPlans (deltaInputRoutes exampleDelta) (deltaInputEvidence exampleDelta)"
proof -
  let ?g = "deltaInputGeneratedAt exampleDelta" and ?bs = "deltaInputEvidence exampleDelta"
  have "canonicalTimestamp ?g" "marketContextV1Schema (deltaInputMarket exampleDelta) \<noteq> None" by code_simp+
  moreover have "parseOptional (atMost7 travelRouteEvidenceSchema) (deltaInputRoutes exampleDelta) = Some (deltaInputRoutes exampleDelta)"
    by code_simp
  moreover have "canonicalPlans (deltaInputPlans exampleDelta) (deltaInputRoutes exampleDelta) = Some exampleTwoPlans" by code_simp
  moreover have "\<forall>p \<in> set exampleTwoPlans. a2NeedId ` set (p2Assignments p) = a2NeedId ` set (p2Assignments (hd exampleTwoPlans))"
    by (simp add: exampleTwoPlans_def exampleBread_def)
  moreover have "list_all2 (boundAs ?g) ?bs ?bs"
  proof -
    have "list_all (\<lambda>b. comparisonScopeSchema (evidenceScope b) = Some (evidenceScope b) \<and> scopeEvaluatedAt (evidenceScope b) = ?g) ?bs"
      by code_simp
    then show ?thesis by (auto simp: list_all2_same list_all_iff boundAs_def)
  qed
  moreover have "distinct (map keyOf ?bs)" by code_simp
  moreover have "mset (map pairOf ?bs) = mset (needPairs exampleTwoPlans)"
    by (simp add: exampleDelta_def exampleBound_def pairOf_def needPairs_def exampleTwoPlans_def exampleBread_def)
  moreover have "\<forall>p \<in> set exampleTwoPlans. \<forall>a \<in> set (p2Assignments p). \<exists>b \<in> set ?bs. bindingTrue ?g p a b"
  proof -
    have "list_all (\<lambda>p. list_all (\<lambda>a. list_ex (bindingTrue ?g p a) ?bs) (p2Assignments p)) exampleTwoPlans" by code_simp
    then show ?thesis by (simp only: list_all_iff list_ex_iff)
  qed
  moreover have "routesTrue ?g exampleTwoPlans (deltaInputRoutes exampleDelta)" by code_simp
  moreover have "exampleTwoPlans \<noteq> []" by (simp add: exampleTwoPlans_def)
  ultimately show ?thesis unfolding explainable_def by blast
qed

lemma exampleDelta_limits:
  "withinLimits exampleTwoPlans (deltaInputRoutes exampleDelta) (deltaInputEvidence exampleDelta)"
  "fullyCompared (deltaInputEvidence exampleDelta) UNIV"
  "evidenceIdsOf (deltaInputEvidence exampleDelta) = {''e1'', ''e2''}"
proof -
  have "\<forall>p \<in> set exampleTwoPlans. totalSaving p \<le> MAX_PERSISTED_MONEY_ORE" by code_simp
  moreover show ids: "evidenceIdsOf (deltaInputEvidence exampleDelta) = {''e1'', ''e2''}"
    by (auto simp: evidenceIdsOf_def pricedIds_def exampleDelta_def exampleBound_def List.map_filter_simps)
  moreover have "optionally (\<lambda>rs. distinct (map (aggregateFingerprint \<circ> routeAggregate) rs)) (deltaInputRoutes exampleDelta)" by code_simp
  ultimately show "withinLimits exampleTwoPlans (deltaInputRoutes exampleDelta) (deltaInputEvidence exampleDelta)"
    by (simp add: withinLimits_def ids)
  show "fullyCompared (deltaInputEvidence exampleDelta) UNIV"
    by (simp add: fullyCompared_def exampleDelta_def exampleBound_def)
qed

theorem explanation_answered_witness:
  "(\<exists>plans routes bs. explainable exampleDelta plans routes bs \<and> withinLimits plans routes bs)
   \<and> derivePlanDeltaExplanationsV1 exampleFormat exampleDelta \<noteq> None
   \<and> derivePlanDeltaExplanationsV1 exampleFormat (exampleDelta\<lparr>deltaInputPlans := []\<rparr>) = None"
proof -
  have "deltaInputPlans exampleDelta \<noteq> []" "deltaInputEvidence exampleDelta \<noteq> []" by (simp_all add: exampleDelta_def exampleTwoPlans_def)
  with explanation_answered [OF exampleFormat_plain, of exampleDelta] exampleDelta_explainable exampleDelta_limits(1)
    explanation_answered [OF exampleFormat_plain, of "exampleDelta\<lparr>deltaInputPlans := []\<rparr>"]
  show ?thesis by auto
qed

lemma exampleDelta_result:
  obtains s where "derivePlanDeltaExplanationsV1 exampleFormat exampleDelta = Some s"
  using derive_result [OF exampleDelta_explainable exampleFormat_plain] exampleDelta_limits(1) by blast

theorem explanation_true_witness:
  "\<exists>s. derivePlanDeltaExplanationsV1 exampleFormat exampleDelta = Some s
     \<and> list_all2 (entryTrue (deltaInputEvidence exampleDelta) (hd exampleTwoPlans)) exampleTwoPlans (setEntries s)"
  by (rule exampleDelta_result) (use explanation_true [OF exampleDelta_explainable exampleFormat_plain] in blast)

theorem explanation_bound_witness:
  "\<exists>s. derivePlanDeltaExplanationsV1 exampleFormat exampleDelta = Some s
     \<and> bindingPlanIds (setBinding s) = [''p1'', ''p2'']
     \<and> set (bindingEvidenceIds (setBinding s)) = {''e1'', ''e2''} \<and> bindingComparison (setBinding s) = BoundComplete"
proof (rule exampleDelta_result)
  fix s assume s: "derivePlanDeltaExplanationsV1 exampleFormat exampleDelta = Some s"
  have "deltaInputPlans exampleDelta \<noteq> []" by (simp add: exampleDelta_def exampleTwoPlans_def)
  from explanation_bound [OF exampleFormat_plain s this] obtain routes plans bs where
    p: "parseOptional (atMost7 travelRouteEvidenceSchema) (deltaInputRoutes exampleDelta) = Some routes"
      "canonicalPlans (deltaInputPlans exampleDelta) routes = Some plans"
      "list_all2 (boundAs (deltaInputGeneratedAt exampleDelta)) (deltaInputEvidence exampleDelta) bs"
    and says: "bindingPlanIds (setBinding s) = map p2Id plans" "set (bindingEvidenceIds (setBinding s)) = evidenceIdsOf bs"
      "bindingComparison (setBinding s) = BoundComplete \<longleftrightarrow> fullyCompared bs UNIV" by blast
  note ex = exampleDelta_explainable [unfolded explainable_def]
  have "routes = deltaInputRoutes exampleDelta" using p(1) ex by simp
  with p(2) ex have plans: "plans = exampleTwoPlans" by simp
  have bs: "bs = deltaInputEvidence exampleDelta" using boundAs_unique [OF p(3)] ex by blast
  have "map p2Id plans = [''p1'', ''p2'']" by (simp add: plans exampleTwoPlans_def)
  then show ?thesis using s says exampleDelta_limits(2,3) unfolding bs by (intro exI [of _ s]) simp
qed

theorem explanation_roles_witness:
  "\<exists>s. derivePlanDeltaExplanationsV1 exampleFormat exampleDelta = Some s \<and> map deltaRole (setEntries s) = [ConvenienceRole, SavingsRole]"
proof (rule exampleDelta_result)
  fix s assume s: "derivePlanDeltaExplanationsV1 exampleFormat exampleDelta = Some s"
  let ?bs = "deltaInputEvidence exampleDelta" and ?routes = "deltaInputRoutes exampleDelta"
  have "\<not> objectivesEquivalent exampleTwoPlans (hd exampleTwoPlans) (routesMap ?routes)" by code_simp
  moreover have "\<not> cheapestFirst ?routes exampleTwoPlans" by code_simp
  moreover have "length exampleTwoPlans = 2" by (simp add: exampleTwoPlans_def)
  ultimately have "map (rolesOf ?bs ?routes exampleTwoPlans) [0..<length exampleTwoPlans] = [ConvenienceRole, SavingsRole]"
    using exampleDelta_limits(2) by (simp add: rolesOf_def upt_conv_Cons)
  with explanation_roles [OF exampleDelta_explainable exampleFormat_plain s] s show ?thesis by metis
qed

end
