(* ===== verification/Plan_Api.thy ===== *)
theory Plan_Api
  imports Family_Taxonomy Market_Context Planner_V2_Contracts
begin

text \<open>
  The parts of the HTTP plan contracts that a saved trip carries: requests, product summaries and assignment references of
  \<open>packages/domain/src/plan-api-contracts.ts\<close>, and the reviewed-family requests, matches, memberships and taxonomy evidence of
  \<open>reviewed-family-plan-api-contracts.ts\<close>. Literal fields (the contract version, \<open>required\<close>, \<open>userApproved\<close>, \<open>approved\<close>) are left out.
\<close>

section \<open>Exact products\<close>

datatype source_class = CatalogClass | OrdinaryPriceClass | OfferClass | StoreClass | GeocoderClass | RoutingClass | LegacyClass

record api_source =
  apiSourceId :: string
  apiSourceName :: string
  apiSourceClass :: source_class

definition exactProductPlanApiEvidenceSourceSchema :: "api_source \<Rightarrow> api_source option" where
  "exactProductPlanApiEvidenceSourceSchema s =
     (case (sourceIdSchema (apiSourceId s), nonEmptyStringSchema (apiSourceName s)) of
        (Some i, Some n) \<Rightarrow> Some (s\<lparr>apiSourceId := i, apiSourceName := n\<rparr>)
      | _ \<Rightarrow> None)"

record catalog_proof =
  proofObservedAt :: string
  proofSource :: api_source
  proofRecordId :: string

definition sourceRecordShape :: "string \<Rightarrow> bool" where
  "sourceRecordShape s \<longleftrightarrow> take 14 s = ''source-record:'' \<and> sha256Shape (drop 14 s)"

definition exactProductPlanApiCatalogEvidenceSchema :: "catalog_proof \<Rightarrow> catalog_proof option" where
  "exactProductPlanApiCatalogEvidenceSchema e =
     (case exactProductPlanApiEvidenceSourceSchema (proofSource e) of
        None \<Rightarrow> None
      | Some s \<Rightarrow>
          if canonicalTimestamp (proofObservedAt e) \<and> sourceRecordShape (proofRecordId e) then Some (e\<lparr>proofSource := s\<rparr>) else None)"

record product_summary =
  summaryCatalog :: catalog_proof
  summaryGtin :: string
  summaryName :: string
  summaryBrand :: "string option"
  summaryMeasure :: "package_measure option"
  summaryUnits :: int

definition exactProductPlanApiProductSummarySchema :: "product_summary \<Rightarrow> product_summary option" where
  "exactProductPlanApiProductSummarySchema p =
     (case (exactProductPlanApiCatalogEvidenceSchema (summaryCatalog p), gtinSchema (summaryGtin p), nonEmptyStringSchema (summaryName p),
            parseOptional nonEmptyStringSchema (summaryBrand p), parseOptional packageMeasureSchema (summaryMeasure p)) of
        (Some e, Some g, Some n, Some b, Some m) \<Rightarrow>
          (if positiveSafeInteger (summaryUnits p)
           then Some (p\<lparr>summaryCatalog := e, summaryGtin := g, summaryName := n, summaryBrand := b, summaryMeasure := m\<rparr>) else None)
      | _ \<Rightarrow> None)"

datatype assignment_condition = OrdinaryCondition | OfferCondition string

fun assignmentConditionSchema :: "assignment_condition \<Rightarrow> assignment_condition option" where
  "assignmentConditionSchema OrdinaryCondition = Some OrdinaryCondition"
| "assignmentConditionSchema (OfferCondition i) = map_option OfferCondition (identifierSchema i)"

record assignment_reference =
  assignedPlanId :: string
  assignedNeedId :: string
  assignedChain :: chain
  assignedEvidenceId :: string
  assignedConditions :: assignment_condition

definition exactProductPlanApiAssignmentEvidenceSchema :: "assignment_reference \<Rightarrow> assignment_reference option" where
  "exactProductPlanApiAssignmentEvidenceSchema r =
     (case (identifierSchema (assignedPlanId r), identifierSchema (assignedNeedId r), identifierSchema (assignedEvidenceId r),
            assignmentConditionSchema (assignedConditions r)) of
        (Some p, Some n, Some e, Some c) \<Rightarrow>
          Some (r\<lparr>assignedPlanId := p, assignedNeedId := n, assignedEvidenceId := e, assignedConditions := c\<rparr>)
      | _ \<Rightarrow> None)"

definition EXACT_PRODUCT_OFFER_MAX_AGE_MS :: int where
  "EXACT_PRODUCT_OFFER_MAX_AGE_MS = 14 * 24 * 60 * 60 * 1000"

definition EXACT_PRODUCT_CATALOG_MAX_AGE_MS :: int where
  "EXACT_PRODUCT_CATALOG_MAX_AGE_MS = 48 * 60 * 60 * 1000"

section \<open>Reviewed families\<close>

definition candidateSetIdShape :: "string \<Rightarrow> bool" where
  "candidateSetIdShape s \<longleftrightarrow> take 14 s = ''candidate-set:'' \<and> sha256Shape (drop 14 s)"

definition taxonomyVersionIdShape :: "string \<Rightarrow> bool" where
  "taxonomyVersionIdShape s \<longleftrightarrow>
     7 \<le> length s \<and> length s \<le> 120 \<and> slugShape (takeWhile (\<lambda>c. c \<noteq> CHR ''@'') s)
     \<and> take 1 (dropWhile (\<lambda>c. c \<noteq> CHR ''@'') s) = ''@'' \<and> taxonomyVersionShape (drop 1 (dropWhile (\<lambda>c. c \<noteq> CHR ''@'') s))"

definition canonicalStrings :: "string list \<Rightarrow> string list" where
  "canonicalStrings values = sort_by compareText (uniq values)"

fun collapseSpaces :: "string \<Rightarrow> string" where
  "collapseSpaces [] = []"
| "collapseSpaces [c] = (if isJsSpace c then '' '' else [c])"
| "collapseSpaces (c # d # cs) =
     (if isJsSpace c then (if isJsSpace d then collapseSpaces (d # cs) else CHR '' '' # collapseSpaces (d # cs))
      else c # collapseSpaces (d # cs))"

definition normalizeReviewedFamilyAllowedBrand :: "host \<Rightarrow> string \<Rightarrow> string" where
  "normalizeReviewedFamilyAllowedBrand h s = localeLower h (collapseSpaces (trim s))"

definition reviewedFamilyAllowedBrandInputSchema :: "host \<Rightarrow> string \<Rightarrow> string option" where
  "reviewedFamilyAllowedBrandInputSchema h s =
     (if length s \<le> 160
      then (let brand = normalizeReviewedFamilyAllowedBrand h s
            in if 1 \<le> length brand \<and> length brand \<le> 120 \<and> \<not> list_ex controlOrFormat brand then Some brand else None)
      else None)"

definition reviewedFamilyAllowedBrandsInputSchema :: "host \<Rightarrow> string list \<Rightarrow> string list option" where
  "reviewedFamilyAllowedBrandsInputSchema h brands =
     (case parseAll (reviewedFamilyAllowedBrandInputSchema h) brands of
        None \<Rightarrow> None
      | Some parsed \<Rightarrow> if 1 \<le> length parsed \<and> length parsed \<le> 20 then Some (canonicalStrings parsed) else None)"

definition canonicalReviewedFamilyAllowedBrandSchema :: "host \<Rightarrow> string \<Rightarrow> bool" where
  "canonicalReviewedFamilyAllowedBrandSchema h brand \<longleftrightarrow>
     1 \<le> length brand \<and> length brand \<le> 120 \<and> normalizeReviewedFamilyAllowedBrand h brand = brand"

definition canonicalReviewedFamilyAllowedBrandsSchema :: "host \<Rightarrow> string list \<Rightarrow> bool" where
  "canonicalReviewedFamilyAllowedBrandsSchema h brands \<longleftrightarrow>
     list_all (canonicalReviewedFamilyAllowedBrandSchema h) brands \<and> 1 \<le> length brands \<and> length brands \<le> 20
     \<and> hasUniqueStrings brands \<and> brands = sort_by compareText brands"

record taxonomy_evidence =
  evidenceContentSha256 :: string
  evidencePublishedAt :: string
  evidenceTaxonomyId :: string
  evidenceTaxonomyVersion :: string
  evidenceVersionId :: string

definition reviewedFamilyPublicTaxonomyEvidenceSchema :: "taxonomy_evidence \<Rightarrow> bool" where
  "reviewedFamilyPublicTaxonomyEvidenceSchema t \<longleftrightarrow>
     sha256Shape (evidenceContentSha256 t) \<and> canonicalTimestamp (evidencePublishedAt t) \<and> familyTaxonomyIdSchema (evidenceTaxonomyId t)
     \<and> familyTaxonomyVersionSchema (evidenceTaxonomyVersion t) \<and> taxonomyVersionIdShape (evidenceVersionId t)
     \<and> evidenceVersionId t = evidenceTaxonomyId t @ ''@'' @ evidenceTaxonomyVersion t"

datatype membership_method = HumanReview | DeterministicRule string

record family_membership =
  memberProductId :: string
  memberDecisionId :: string
  memberFamilyId :: string
  memberReviewedAt :: string
  memberMethod :: membership_method

definition membershipDecisionShape :: "string \<Rightarrow> bool" where
  "membershipDecisionShape s \<longleftrightarrow>
     take 18 s = ''family-membership:'' \<and> 1 \<le> length (drop 18 s) \<and> length (drop 18 s) \<le> 19
     \<and> list_all isDigit (drop 18 s) \<and> hd (drop 18 s) \<noteq> CHR ''0''"

definition reviewedFamilyPublicMembershipEvidenceSchema :: "family_membership \<Rightarrow> family_membership option" where
  "reviewedFamilyPublicMembershipEvidenceSchema m =
     (case (identifierSchema (memberProductId m),
            case memberMethod m of HumanReview \<Rightarrow> Some HumanReview | DeterministicRule r \<Rightarrow> map_option DeterministicRule (nonEmptyStringSchema r)) of
        (Some p, Some method) \<Rightarrow>
          (if membershipDecisionShape (memberDecisionId m) \<and> familyIdentifierSchema (memberFamilyId m) \<and> canonicalTimestamp (memberReviewedAt m)
           then Some (m\<lparr>memberProductId := p, memberMethod := method\<rparr>) else None)
      | _ \<Rightarrow> None)"

record product_claim =
  claimProductId :: string
  claimProduct :: product_summary

definition reviewedFamilyProductClaimSchema :: "product_claim \<Rightarrow> product_claim option" where
  "reviewedFamilyProductClaimSchema c =
     (case (identifierSchema (claimProductId c), exactProductPlanApiProductSummarySchema (claimProduct c)) of
        (Some i, Some p) \<Rightarrow> Some \<lparr>claimProductId = i, claimProduct = p\<rparr>
      | _ \<Rightarrow> None)"

section \<open>Requests\<close>

datatype api_match =
    ExactProductMatch string
  | ReviewedFamilyMatch "string list option" string string string

text \<open>The GTIN of an exact product; the allowed brands, candidate set, taxonomy version and family of a reviewed one.\<close>

fun exactProductPlanApiMatchSchema :: "api_match \<Rightarrow> api_match option" where
  "exactProductPlanApiMatchSchema (ExactProductMatch g) = map_option ExactProductMatch (gtinSchema g)"
| "exactProductPlanApiMatchSchema _ = None"

fun reviewedFamilyPlanApiMatchSchema :: "host \<Rightarrow> api_match \<Rightarrow> api_match option" where
  "reviewedFamilyPlanApiMatchSchema h (ReviewedFamilyMatch brands candidateSet versionOf family) =
     (case parseOptional (reviewedFamilyAllowedBrandsInputSchema h) brands of
        None \<Rightarrow> None
      | Some b \<Rightarrow>
          if candidateSetIdShape candidateSet \<and> taxonomyVersionIdShape versionOf \<and> familyIdentifierSchema family
          then Some (ReviewedFamilyMatch b candidateSet versionOf family) else None)"
| "reviewedFamilyPlanApiMatchSchema h _ = None"

record api_need =
  apiNeedId :: string
  apiNeedMatch :: api_match
  apiNeedQuantity :: int
  apiNeedUnit :: measure_unit

definition apiNeedSchema :: "(api_match \<Rightarrow> api_match option) \<Rightarrow> api_need \<Rightarrow> api_need option" where
  "apiNeedSchema schema n =
     (case (identifierSchema (apiNeedId n), schema (apiNeedMatch n)) of
        (Some i, Some m) \<Rightarrow> (if positiveSafeInteger (apiNeedQuantity n) then Some (n\<lparr>apiNeedId := i, apiNeedMatch := m\<rparr>) else None)
      | _ \<Rightarrow> None)"

definition exactProductPlanApiNeedSchema :: "api_need \<Rightarrow> api_need option" where
  "exactProductPlanApiNeedSchema = apiNeedSchema exactProductPlanApiMatchSchema"

definition reviewedFamilyPlanApiNeedSchema :: "host \<Rightarrow> api_need \<Rightarrow> api_need option" where
  "reviewedFamilyPlanApiNeedSchema h = apiNeedSchema (reviewedFamilyPlanApiMatchSchema h)"

text \<open>\<open>z.union\<close>: the first schema that accepts.\<close>

definition mixedNeedSchema :: "host \<Rightarrow> api_need \<Rightarrow> api_need option" where
  "mixedNeedSchema h n =
     (case exactProductPlanApiNeedSchema n of Some m \<Rightarrow> Some m | None \<Rightarrow> reviewedFamilyPlanApiNeedSchema h n)"

record api_request =
  apiMemberships :: "string list"
  apiMarket :: market_context
  apiMaxStores :: nat
  apiNeeds :: "api_need list"

definition apiRequestSchema :: "(api_need \<Rightarrow> api_need option) \<Rightarrow> (api_need list \<Rightarrow> bool) \<Rightarrow> api_request \<Rightarrow> api_request option" where
  "apiRequestSchema schema refinement r =
     (case (marketContextV1Schema (apiMarket r), parseAll schema (apiNeeds r)) of
        (Some m, Some needs) \<Rightarrow>
          (if enabledMembershipProgramIdsSchema (apiMemberships r) \<and> apiMaxStores r \<in> {1, 2, 3}
              \<and> 1 \<le> length needs \<and> length needs \<le> 50 \<and> refinement needs
           then Some (r\<lparr>apiMarket := m, apiNeeds := needs\<rparr>) else None)
      | _ \<Rightarrow> None)"

definition exactProductPlanApiRequestSchema :: "api_request \<Rightarrow> api_request option" where
  "exactProductPlanApiRequestSchema = apiRequestSchema exactProductPlanApiNeedSchema (\<lambda>needs. hasUniqueStrings (map apiNeedId needs))"

type_synonym selection = "string list option \<times> string \<times> string"

definition familySelections :: "api_need list \<Rightarrow> (string \<times> selection) list" where
  "familySelections needs =
     List.map_filter (\<lambda>n. case apiNeedMatch n of
         ReviewedFamilyMatch brands candidateSet versionOf family \<Rightarrow> Some (candidateSet, (brands, family, versionOf))
       | _ \<Rightarrow> None) needs"

fun selectionsBound :: "(string \<times> selection) list \<Rightarrow> (string \<times> selection) list \<Rightarrow> (selection \<times> string) list \<Rightarrow> bool" where
  "selectionsBound [] selectionByCandidateSet candidateSetBySelection = True"
| "selectionsBound ((candidateSet, selection) # rest) selectionByCandidateSet candidateSetBySelection =
     (\<not> ((case map_of selectionByCandidateSet candidateSet of None \<Rightarrow> False | Some prior \<Rightarrow> prior \<noteq> selection)
         \<or> (case map_of candidateSetBySelection selection of None \<Rightarrow> False | Some prior \<Rightarrow> prior \<noteq> candidateSet))
      \<and> selectionsBound rest (AList.update candidateSet selection selectionByCandidateSet)
           (AList.update selection candidateSet candidateSetBySelection))"

definition reviewedRequestRefinement :: "api_need list \<Rightarrow> bool" where
  "reviewedRequestRefinement needs \<longleftrightarrow>
     hasUniqueStrings (map apiNeedId needs) \<and> \<not> length (familySelections needs) = 0 \<and> selectionsBound (familySelections needs) [] []"

definition reviewedFamilyPlanApiRequestV2Schema :: "host \<Rightarrow> api_request \<Rightarrow> api_request option" where
  "reviewedFamilyPlanApiRequestV2Schema h = apiRequestSchema (mixedNeedSchema h) reviewedRequestRefinement"

section \<open>Matches of needs\<close>

record family_details =
  detailBrands :: "string list option"
  detailCandidateSet :: string
  detailFamily :: reviewed_family
  detailFamilyId :: string
  detailTaxonomy :: string

text \<open>The details of a reviewed family, or \<open>None\<close> for an exact product.\<close>

record need_match =
  matchNeedId :: string
  matchCandidates :: "string list"
  matchDetails :: "family_details option"

definition familyDetailsSchema :: "host \<Rightarrow> family_details \<Rightarrow> family_details option" where
  "familyDetailsSchema h d =
     (case reviewedFamilyDescriptorSchema (detailFamily d) of
        None \<Rightarrow> None
      | Some f \<Rightarrow>
          if optionally (canonicalReviewedFamilyAllowedBrandsSchema h) (detailBrands d) \<and> candidateSetIdShape (detailCandidateSet d)
             \<and> familyIdentifierSchema (detailFamilyId d) \<and> taxonomyVersionIdShape (detailTaxonomy d)
          then Some (d\<lparr>detailFamily := f\<rparr>) else None)"

definition reviewedFamilyNeedMatchV2Schema :: "host \<Rightarrow> need_match \<Rightarrow> need_match option" where
  "reviewedFamilyNeedMatchV2Schema h m =
     (case (identifierSchema (matchNeedId m), parseAll identifierSchema (matchCandidates m),
            parseOptional (familyDetailsSchema h) (matchDetails m)) of
        (Some n, Some candidates, Some details) \<Rightarrow>
          (if (case matchDetails m of None \<Rightarrow> length candidates = 1 | Some _ \<Rightarrow> 1 \<le> length candidates \<and> length candidates \<le> 50)
           then Some \<lparr>matchNeedId = n, matchCandidates = candidates, matchDetails = details\<rparr> else None)
      | _ \<Rightarrow> None)"

end
