(* ===== verification/Trip.thy ===== *)
theory Trip
  imports Plan_Api Checkout Travel Planner
begin

text \<open>
  \<open>packages/domain/src/trip-snapshot.ts\<close>: the snapshot of a plan that a shopper takes along offline. Version 1 holds the plan, its
  products, a checklist and the stops; version 2 adds to every item the evidence of its price, and to the trip the market, the directory
  attestation and, for substitutions, the reviewed-family evidence. Literal fields are left out, an absent list of memberships is the
  empty one, and an exception is \<open>None\<close>.
\<close>

section \<open>Checklist, stops and purchases\<close>

definition CURRENT_PRICE_MAX_AGE_MS :: int where
  "CURRENT_PRICE_MAX_AGE_MS = 72 * 60 * 60 * 1000"

record trip_item =
  itemId :: string
  itemNeedId :: string
  itemProductId :: string
  itemGtin :: string
  itemChain :: chain
  itemLabel :: string

definition tripChecklistItemV1Schema :: "'a trip_item_scheme \<Rightarrow> 'a trip_item_scheme option" where
  "tripChecklistItemV1Schema i =
     (case (boundedText 1 300 (itemId i), identifierSchema (itemNeedId i), identifierSchema (itemProductId i), gtinSchema (itemGtin i),
            nonEmptyStringSchema (itemLabel i)) of
        (Some c, Some n, Some p, Some g, Some l) \<Rightarrow>
          Some (i\<lparr>itemId := c, itemNeedId := n, itemProductId := p, itemGtin := g, itemLabel := l\<rparr>)
      | _ \<Rightarrow> None)"

record chain_stop =
  chainStopChain :: chain
  chainStopName :: string

definition priceOnlyStopSchema :: "chain_stop \<Rightarrow> chain_stop option" where
  "priceOnlyStopSchema s = map_option (\<lambda>n. s\<lparr>chainStopName := n\<rparr>) (nonEmptyStringSchema (chainStopName s))"

definition tripPublicBranchStopV1Schema :: "travel_stop \<Rightarrow> travel_stop option" where
  "tripPublicBranchStopV1Schema s =
     (case (identifierSchema (stopBranchId s), nonEmptyStringSchema (stopName s)) of
        (Some i, Some n) \<Rightarrow>
          (if positiveSafeInteger (stopSequence s) \<and> stopSequence s \<le> 3
           then Some (s\<lparr>stopBranchId := i, stopName := n\<rparr>) else None)
      | _ \<Rightarrow> None)"

record trip_aggregate =
  tripCalculatedAt :: string
  tripDistanceMeters :: int
  tripDurationSeconds :: int
  tripMode :: "travel_mode option"
  tripSourceId :: string
  tripRecordId :: string

definition tripRouteAggregateV1Schema :: "trip_aggregate \<Rightarrow> trip_aggregate option" where
  "tripRouteAggregateV1Schema a =
     (case (sourceIdSchema (tripSourceId a), identifierSchema (tripRecordId a)) of
        (Some s, Some r) \<Rightarrow>
          (if canonicalTimestamp (tripCalculatedAt a) \<and> nonNegativeSafeInteger (tripDistanceMeters a)
              \<and> nonNegativeSafeInteger (tripDurationSeconds a)
           then Some (a\<lparr>tripSourceId := s, tripRecordId := r\<rparr>) else None)
      | _ \<Rightarrow> None)"

definition tripRouteAggregateV2Schema :: "trip_aggregate \<Rightarrow> trip_aggregate option" where
  "tripRouteAggregateV2Schema a = (if tripMode a = None then None else tripRouteAggregateV1Schema a)"

datatype trip_navigation = PriceOnlyNavigation "chain_stop list" | RoutedNavigation trip_aggregate "travel_stop list"

definition atMost3 :: "('a \<Rightarrow> 'a option) \<Rightarrow> 'a list \<Rightarrow> 'a list option" where
  "atMost3 schema xs =
     (case parseAll schema xs of None \<Rightarrow> None | Some ys \<Rightarrow> if 1 \<le> length ys \<and> length ys \<le> 3 then Some ys else None)"

fun navigationSchema :: "(trip_aggregate \<Rightarrow> trip_aggregate option) \<Rightarrow> trip_navigation \<Rightarrow> trip_navigation option" where
  "navigationSchema aggregateSchema (PriceOnlyNavigation stops) = map_option PriceOnlyNavigation (atMost3 priceOnlyStopSchema stops)"
| "navigationSchema aggregateSchema (RoutedNavigation a stops) =
     (case (aggregateSchema a, atMost3 tripPublicBranchStopV1Schema stops) of
        (Some a', Some stops') \<Rightarrow> Some (RoutedNavigation a' stops')
      | _ \<Rightarrow> None)"

definition tripNavigationV1Schema :: "trip_navigation \<Rightarrow> trip_navigation option" where
  "tripNavigationV1Schema = navigationSchema tripRouteAggregateV1Schema"

definition tripNavigationV2Schema :: "trip_navigation \<Rightarrow> trip_navigation option" where
  "tripNavigationV2Schema = navigationSchema tripRouteAggregateV2Schema"

record trip_purchase =
  purchaseRequested :: package_measure
  purchasePackage :: package_measure
  purchaseCount :: int
  purchasePurchased :: package_measure
  purchaseSurplus :: package_measure
  purchaseOrdinaryOre :: int
  purchaseCheckoutOre :: int
  purchaseSavedOre :: int
  purchaseObservedAt :: string
  purchasePrice :: price_evidence
  purchaseOffer :: "official_offer option"

definition tripPurchaseTermsV2Schema :: "trip_purchase \<Rightarrow> trip_purchase option" where
  "tripPurchaseTermsV2Schema p =
     (case (priceEvidenceSchema (purchasePrice p), parseOptional officialOfferSchema (purchaseOffer p)) of
        (Some price, Some offer) \<Rightarrow>
          (if packageMeasureSchema (purchaseRequested p) \<noteq> None \<and> packageMeasureSchema (purchasePackage p) \<noteq> None
              \<and> positiveSafeInteger (purchaseCount p) \<and> packageMeasureSchema (purchasePurchased p) \<noteq> None
              \<and> nonNegativeMeasureSchema (purchaseSurplus p) \<noteq> None
              \<and> moneyOreSchema (purchaseOrdinaryOre p) \<and> moneyOreSchema (purchaseCheckoutOre p) \<and> moneyOreSchema (purchaseSavedOre p)
              \<and> canonicalTimestamp (purchaseObservedAt p)
           then Some (p\<lparr>purchasePrice := price, purchaseOffer := offer\<rparr>) else None)
      | _ \<Rightarrow> None)"

record trip_item_v2 = trip_item +
  itemPurchase :: trip_purchase

definition tripChecklistItemV2Schema :: "trip_item_v2 \<Rightarrow> trip_item_v2 option" where
  "tripChecklistItemV2Schema i =
     (case (tripChecklistItemV1Schema i, tripPurchaseTermsV2Schema (itemPurchase i)) of
        (Some parsed, Some purchase) \<Rightarrow> Some (parsed\<lparr>itemPurchase := purchase\<rparr>)
      | _ \<Rightarrow> None)"

section \<open>The snapshot\<close>

record 'i trip =
  tripId :: string
  tripCreatedAt :: string
  tripEvaluatedAt :: string
  tripExpiresAt :: string
  tripCaveats :: "string list"
  tripPlan :: plan_v2
  tripProducts :: "product_summary list"
  tripItems :: "'i list"
  tripNavigation :: trip_navigation

fun stopChains :: "trip_navigation \<Rightarrow> chain list" where
  "stopChains (PriceOnlyNavigation stops) = map chainStopChain stops"
| "stopChains (RoutedNavigation _ stops) = map stopChain stops"

definition sortedText :: "string list \<Rightarrow> string list" where
  "sortedText = sort_by compareText"

definition mirrorsPlan :: "plan_v2 \<Rightarrow> product_summary list \<Rightarrow> 'a trip_item_scheme \<Rightarrow> bool" where
  "mirrorsPlan plan products item \<longleftrightarrow>
     (case (map_of (newMap (map (\<lambda>a. (a2NeedId a, a)) (p2Assignments plan))) (itemNeedId item),
            map_of (newMap (map (\<lambda>p. (summaryGtin p, p)) products)) (itemGtin item)) of
        (Some assignment, Some product) \<Rightarrow>
          \<not> (itemProductId item \<noteq> a2ProductId assignment \<or> itemGtin item \<noteq> a2Ean assignment
             \<or> itemChain item \<noteq> a2Chain assignment \<or> itemLabel item \<noteq> summaryName product)
      | _ \<Rightarrow> False)"

definition refineTripSnapshotCore :: "('a trip_item_scheme, 'b) trip_scheme \<Rightarrow> bool" where
  "refineTripSnapshotCore s \<longleftrightarrow>
     (let evaluatedAt = dateParse (tripEvaluatedAt s); createdAt = dateParse (tripCreatedAt s); expiresAt = dateParse (tripExpiresAt s);
          productGtins = map summaryGtin (tripProducts s);
          assignedGtins = sortedText (uniq (map a2Ean (p2Assignments (tripPlan s))));
          planChains = sortedText (map chainText (p2Chains (tripPlan s)));
          stops = map chainText (stopChains (tripNavigation s))
      in \<not> createdAt < evaluatedAt \<and> \<not> (expiresAt \<le> evaluatedAt \<or> expiresAt \<le> createdAt)
         \<and> hasUniqueStrings (tripCaveats s) \<and> hasUniqueStrings productGtins
         \<and> \<not> (length productGtins \<noteq> length assignedGtins \<or> \<not> sameSequence (sortedText productGtins) assignedGtins)
         \<and> hasUniqueStrings (map itemId (tripItems s)) \<and> hasUniqueStrings (map itemNeedId (tripItems s))
         \<and> length (tripItems s) = length (p2Assignments (tripPlan s))
         \<and> list_all (mirrorsPlan (tripPlan s) (tripProducts s)) (tripItems s)
         \<and> hasUniqueStrings stops \<and> \<not> (length stops \<noteq> length planChains \<or> \<not> sameSequence (sortedText stops) planChains)
         \<and> (case tripNavigation s of
              PriceOnlyNavigation _ \<Rightarrow> True
            | RoutedNavigation aggregate branches \<Rightarrow>
                tripCalculatedAt aggregate = tripEvaluatedAt s \<and> hasUniqueStrings (map stopBranchId branches)
                \<and> \<not> list_ex (\<lambda>(index, branch). stopSequence branch \<noteq> int index + 1) (enumerate 0 branches)))"

text \<open>The fields both versions have, parsed.\<close>

definition tripObjectSchema ::
    "('i \<Rightarrow> 'i option) \<Rightarrow> (trip_navigation \<Rightarrow> trip_navigation option) \<Rightarrow> ('i, 'b) trip_scheme \<Rightarrow> ('i, 'b) trip_scheme option" where
  "tripObjectSchema itemSchema navigation s =
     (case (identifierSchema (tripId s), parseAll nonEmptyStringSchema (tripCaveats s), planResultV2Schema (tripPlan s),
            parseAll exactProductPlanApiProductSummarySchema (tripProducts s), parseAll itemSchema (tripItems s),
            navigation (tripNavigation s)) of
        (Some i, Some caveats, Some plan, Some products, Some items, Some route) \<Rightarrow>
          (if canonicalTimestamp (tripCreatedAt s) \<and> canonicalTimestamp (tripEvaluatedAt s) \<and> canonicalTimestamp (tripExpiresAt s)
              \<and> length caveats \<le> 10 \<and> 1 \<le> length products \<and> length products \<le> 50 \<and> 1 \<le> length items \<and> length items \<le> 50
           then Some (s\<lparr>tripId := i, tripCaveats := caveats, tripPlan := plan, tripProducts := products, tripItems := items,
                        tripNavigation := route\<rparr>)
           else None)
      | _ \<Rightarrow> None)"

definition tripSnapshotV1Schema :: "trip_item trip \<Rightarrow> trip_item trip option" where
  "tripSnapshotV1Schema s =
     (case tripObjectSchema tripChecklistItemV1Schema tripNavigationV1Schema s of
        None \<Rightarrow> None
      | Some parsed \<Rightarrow> if refineTripSnapshotCore parsed then Some parsed else None)"

section \<open>Reviewed-family evidence\<close>

record reviewed_evidence =
  reviewedAssignments :: "assignment_reference list"
  reviewedMemberships :: "family_membership list"
  reviewedMatches :: "need_match list"
  reviewedOffers :: "official_offer list"
  reviewedPrices :: "price_evidence list"
  reviewedClaims :: "product_claim list"
  reviewedRequest :: api_request
  reviewedTaxonomy :: taxonomy_evidence

definition tripReviewedFamilyEvidenceV2Schema :: "host \<Rightarrow> reviewed_evidence \<Rightarrow> reviewed_evidence option" where
  "tripReviewedFamilyEvidenceV2Schema h e =
     (case (parseAll exactProductPlanApiAssignmentEvidenceSchema (reviewedAssignments e),
            parseAll reviewedFamilyPublicMembershipEvidenceSchema (reviewedMemberships e),
            parseAll (reviewedFamilyNeedMatchV2Schema h) (reviewedMatches e), parseAll officialOfferSchema (reviewedOffers e),
            parseAll priceEvidenceSchema (reviewedPrices e), parseAll reviewedFamilyProductClaimSchema (reviewedClaims e),
            reviewedFamilyPlanApiRequestV2Schema h (reviewedRequest e)) of
        (Some as, Some memberships, Some needMatches, Some offers, Some prices, Some claims, Some request) \<Rightarrow>
          (if 1 \<le> length as \<and> length as \<le> 50 \<and> length memberships \<le> 50 \<and> 1 \<le> length needMatches \<and> length needMatches \<le> 50
              \<and> length offers \<le> 50 \<and> 1 \<le> length prices \<and> length prices \<le> 50 \<and> 1 \<le> length claims \<and> length claims \<le> 50
              \<and> reviewedFamilyPublicTaxonomyEvidenceSchema (reviewedTaxonomy e)
           then Some \<lparr>reviewedAssignments = as, reviewedMemberships = memberships, reviewedMatches = needMatches,
                      reviewedOffers = offers, reviewedPrices = prices, reviewedClaims = claims, reviewedRequest = request,
                      reviewedTaxonomy = reviewedTaxonomy e\<rparr>
           else None)
      | _ \<Rightarrow> None)"

record trip_v2 = "trip_item_v2 trip" +
  tripMemberships :: "string list"
  tripAttestation :: "region_attestation option"
  tripMarket :: market_context
  tripReviewed :: "reviewed_evidence option"

definition reviewedMembershipKey :: "string \<Rightarrow> string \<Rightarrow> string" where
  "reviewedMembershipKey ofFamilyId ofProductId = ofFamilyId @ [char_of (0 :: nat)] @ ofProductId"

definition expectedUnit :: "measure_unit \<Rightarrow> measure_unit" where
  "expectedUnit u = (if u = Each then Package else u)"

text \<open>
  One turn of the loop over the assignments: whether it raises no issue, and what it adds to the reviewed needs and the
  expected memberships.
\<close>

definition reviewedAssignment ::
    "taxonomy_evidence \<Rightarrow> (string \<times> api_need) list \<Rightarrow> (string \<times> need_match) list \<Rightarrow> (string \<times> product_claim) list
     \<Rightarrow> assignment_v2 \<Rightarrow> bool \<times> (string \<times> string) option" where
  "reviewedAssignment taxonomy requestByNeed matchByNeed claimsByCanonicalId assignment =
     (case (map_of requestByNeed (a2NeedId assignment), map_of matchByNeed (a2NeedId assignment),
            map_of claimsByCanonicalId (a2ProductId assignment)) of
        (Some requested, Some needMatch, Some claim) \<Rightarrow>
          (if summaryGtin (claimProduct claim) \<noteq> a2Ean assignment
              \<or> apiNeedQuantity requested \<noteq> measureAmount (v2Requested (a2Fulfilment assignment))
              \<or> expectedUnit (apiNeedUnit requested) \<noteq> measureUnit (v2Requested (a2Fulfilment assignment))
              \<or> a2ProductId assignment \<notin> set (matchCandidates needMatch) then (False, None)
           else
             (let canonical = (hasUniqueStrings (matchCandidates needMatch)
                    \<and> matchCandidates needMatch = sort_by compareText (matchCandidates needMatch))
              in case (apiNeedMatch requested, matchDetails needMatch) of
                   (ExactProductMatch g, None) \<Rightarrow>
                     (canonical \<and> \<not> (length (matchCandidates needMatch) \<noteq> 1 \<or> g \<noteq> a2Ean assignment), None)
                 | (ReviewedFamilyMatch brands candidateSet versionOf family, Some details) \<Rightarrow>
                     (canonical
                        \<and> \<not> (family \<noteq> detailFamilyId details \<or> candidateSet \<noteq> detailCandidateSet details
                             \<or> versionOf \<noteq> detailTaxonomy details \<or> reviewedId (detailFamily details) \<noteq> detailFamilyId details
                             \<or> reviewedStatus (detailFamily details) \<noteq> ActiveFamily
                             \<or> detailTaxonomy details \<noteq> evidenceVersionId taxonomy \<or> brands \<noteq> detailBrands details),
                      Some (a2NeedId assignment, reviewedMembershipKey (detailFamilyId details) (a2ProductId assignment)))
                 | _ \<Rightarrow> (False, None)))
      | _ \<Rightarrow> (False, None))"

text \<open>One turn of the loop over the assignment references: no issue, and the evidence and offer it refers to.\<close>

definition reviewedReference ::
    "string \<Rightarrow> (string \<times> assignment_v2) list \<Rightarrow> (string \<times> trip_item_v2) list \<Rightarrow> (string \<times> price_evidence) list
     \<Rightarrow> (string \<times> official_offer) list \<Rightarrow> assignment_reference \<Rightarrow> bool \<times> string option \<times> string option" where
  "reviewedReference ofPlanId assignmentsByNeed checklistByNeed ordinaryById offerById reference =
     (case (map_of assignmentsByNeed (assignedNeedId reference), map_of checklistByNeed (assignedNeedId reference),
            map_of ordinaryById (assignedEvidenceId reference)) of
        (Some assignment, Some item, Some ordinary) \<Rightarrow>
          (let purchase = itemPurchase item
           in if assignedPlanId reference \<noteq> ofPlanId \<or> assignedChain reference \<noteq> a2Chain assignment \<or> ordinary \<noteq> purchasePrice purchase
              then (False, None, None)
              else case assignedConditions reference of
                  OrdinaryCondition \<Rightarrow>
                    (\<not> (purchaseOffer purchase \<noteq> None \<or> appliedOfferId (a2Checkout assignment) \<noteq> None), Some (evidenceId ordinary), None)
                | OfferCondition i \<Rightarrow>
                    (case map_of offerById i of
                       None \<Rightarrow> (False, Some (evidenceId ordinary), None)
                     | Some offer \<Rightarrow>
                         if purchaseOffer purchase \<noteq> Some offer \<or> Some (offerId offer) \<noteq> appliedOfferId (a2Checkout assignment)
                         then (False, Some (evidenceId ordinary), None)
                         else (True, Some (evidenceId ordinary), Some (offerId offer))))
      | _ \<Rightarrow> (False, None, None))"

definition byKey :: "('v \<Rightarrow> string) \<Rightarrow> 'v list \<Rightarrow> (string \<times> 'v) list" where
  "byKey key xs = newMap (map (\<lambda>x. (key x, x)) xs)"

definition referenceKey :: "string \<Rightarrow> string \<Rightarrow> chain \<Rightarrow> string" where
  "referenceKey ofPlanId ofNeedId c = ofPlanId @ [char_of (0 :: nat)] @ ofNeedId @ [char_of (0 :: nat)] @ chainText c"

definition refineReviewedFamilyEvidence :: "trip_v2 \<Rightarrow> bool" where
  "refineReviewedFamilyEvidence s =
     (case tripReviewed s of
        None \<Rightarrow> True
      | Some evidence \<Rightarrow>
          (let plan = tripPlan s;
               assignmentsByNeed = byKey a2NeedId (p2Assignments plan);
               requestByNeed = byKey apiNeedId (apiNeeds (reviewedRequest evidence));
               matchByNeed = byKey matchNeedId (reviewedMatches evidence);
               assignmentNeedIds = sortedText (map fst assignmentsByNeed);
               rawMatchNeedIds = map matchNeedId (reviewedMatches evidence);
               matchNeedIds = sortedText (map fst matchByNeed);
               claimsByCanonicalId = byKey claimProductId (reviewedClaims evidence);
               claimIds = map claimProductId (reviewedClaims evidence);
               productsByGtin = byKey summaryGtin (tripProducts s);
               checked = map (reviewedAssignment (reviewedTaxonomy evidence) requestByNeed matchByNeed claimsByCanonicalId) (p2Assignments plan);
               reviewedNeeds = List.map_filter snd checked;
               membershipKeys = map (\<lambda>m. reviewedMembershipKey (memberFamilyId m) (memberProductId m)) (reviewedMemberships evidence);
               referenceKeys = map (\<lambda>r. referenceKey (assignedPlanId r) (assignedNeedId r) (assignedChain r)) (reviewedAssignments evidence);
               references = map (reviewedReference (p2Id plan) assignmentsByNeed (byKey itemNeedId (tripItems s))
                   (byKey evidenceId (reviewedPrices evidence)) (byKey offerId (reviewedOffers evidence))) (reviewedAssignments evidence);
               ordinaryIds = map evidenceId (reviewedPrices evidence);
               offerIds = map offerId (reviewedOffers evidence)
           in marketContextsEqual (apiMarket (reviewedRequest evidence)) (tripMarket s)
              \<and> apiMemberships (reviewedRequest evidence) = tripMemberships s
              \<and> \<not> (assignmentNeedIds \<noteq> sortedText (map fst requestByNeed) \<or> assignmentNeedIds \<noteq> matchNeedIds
                   \<or> \<not> hasUniqueStrings rawMatchNeedIds \<or> rawMatchNeedIds \<noteq> matchNeedIds)
              \<and> \<not> (length (p2Chains plan) > apiMaxStores (reviewedRequest evidence) \<or> length (p2Chains plan) > 3)
              \<and> \<not> (\<not> hasUniqueStrings claimIds \<or> claimIds \<noteq> sortedText (uniq (map a2ProductId (p2Assignments plan))))
              \<and> list_all (\<lambda>c. map_of productsByGtin (summaryGtin (claimProduct c)) = Some (claimProduct c)) (reviewedClaims evidence)
              \<and> list_all fst checked
              \<and> sortedText (p2Substitutions plan) = sortedText (map fst reviewedNeeds)
              \<and> \<not> (\<not> hasUniqueStrings membershipKeys \<or> membershipKeys \<noteq> sortedText (uniq (map snd reviewedNeeds)))
              \<and> list_all (\<lambda>m. \<not> dateParse (memberReviewedAt m) > dateParse (tripEvaluatedAt s)) (reviewedMemberships evidence)
              \<and> \<not> dateParse (evidencePublishedAt (reviewedTaxonomy evidence)) > dateParse (tripEvaluatedAt s)
              \<and> \<not> (\<not> hasUniqueStrings referenceKeys
                   \<or> referenceKeys \<noteq> sortedText (map (\<lambda>a. referenceKey (p2Id plan) (a2NeedId a) (a2Chain a)) (p2Assignments plan)))
              \<and> list_all fst references
              \<and> \<not> (\<not> hasUniqueStrings ordinaryIds
                   \<or> ordinaryIds \<noteq> sortedText (uniq (List.map_filter (fst \<circ> snd) references)))
              \<and> \<not> (\<not> hasUniqueStrings offerIds \<or> offerIds \<noteq> sortedText (uniq (List.map_filter (snd \<circ> snd) references)))))"

section \<open>The evidence of every purchase\<close>

definition tripLocation :: "trip_v2 \<Rightarrow> geographic_context" where
  "tripLocation s = marketContextToGeographicContext (tripMarket s)"

definition tripDirectory :: "trip_v2 \<Rightarrow> directory_evidence option" where
  "tripDirectory s =
     (case tripAttestation s of None \<Rightarrow> None
      | Some a \<Rightarrow> geographicDirectoryEvidenceFromRegionAttestationV1 a (tripLocation s) (tripEvaluatedAt s))"

definition attestationAccepted :: "trip_v2 \<Rightarrow> bool" where
  "attestationAccepted s \<longleftrightarrow>
     \<not> (tripAttestation s \<noteq> None \<and> tripDirectory s = None)
     \<and> \<not> (case tripAttestation s of None \<Rightarrow> False
          | Some a \<Rightarrow> (case attestedValidUntil a of None \<Rightarrow> False | Some until \<Rightarrow> dateParse (tripExpiresAt s) > dateParse until))"

definition currentProduct :: "trip_v2 \<Rightarrow> product_summary \<Rightarrow> bool" where
  "currentProduct s p \<longleftrightarrow>
     (let evaluatedAtMs = dateParse (tripEvaluatedAt s); expiresAtMs = dateParse (tripExpiresAt s);
          observedAtMs = dateParse (proofObservedAt (summaryCatalog p))
      in \<not> (observedAtMs > evaluatedAtMs \<or> evaluatedAtMs - observedAtMs > EXACT_PRODUCT_CATALOG_MAX_AGE_MS
            \<or> expiresAtMs > observedAtMs + EXACT_PRODUCT_CATALOG_MAX_AGE_MS))"

definition mirrorsPurchase :: "trip_v2 \<Rightarrow> assignment_v2 \<Rightarrow> product_summary \<Rightarrow> trip_item_v2 \<Rightarrow> bool" where
  "mirrorsPurchase s assignment product item \<longleftrightarrow>
     (let purchase = itemPurchase item; fulfilment = a2Fulfilment assignment
      in \<not> (purchaseRequested purchase \<noteq> v2Requested fulfilment \<or> purchasePackage purchase \<noteq> v2Package fulfilment
            \<or> purchaseCount purchase \<noteq> v2PackageCount fulfilment \<or> purchasePurchased purchase \<noteq> v2Purchased fulfilment
            \<or> purchaseSurplus purchase \<noteq> v2Surplus fulfilment)
         \<and> \<not> (purchaseOrdinaryOre purchase \<noteq> ordinaryTotalOre (a2Checkout assignment)
              \<or> purchaseCheckoutOre purchase \<noteq> checkoutTotalOre (a2Checkout assignment)
              \<or> purchaseSavedOre purchase \<noteq> savingOre (a2Checkout assignment))
         \<and> \<not> (purchaseObservedAt purchase \<noteq> a2ObservedAt assignment
              \<or> map_of (p2Freshness (tripPlan s)) (itemNeedId item) \<noteq> Some ''eligible'')
         \<and> summaryMeasure product = Some (purchasePackage purchase))"

definition priceContext :: "trip_v2 \<Rightarrow> price_evidence \<Rightarrow> eligibility_context" where
  "priceContext s ordinary =
     \<lparr>eligibilityNow = Some (dateParse (tripEvaluatedAt s)), eligibilityMaxAgeMs = CURRENT_PRICE_MAX_AGE_MS,
      eligibilityLocation = tripLocation s, eligibilitySources = [evidenceSourceId ordinary], eligibilityDirectory = tripDirectory s\<rparr>"

definition priceAccepted :: "trip_v2 \<Rightarrow> assignment_v2 \<Rightarrow> trip_item_v2 \<Rightarrow> bool" where
  "priceAccepted s assignment item \<longleftrightarrow>
     (let ordinary = purchasePrice (itemPurchase item); expiresAtMs = dateParse (tripExpiresAt s)
      in \<not> ((case parseEligiblePriceEvidence (Shaped ordinary) (priceContext s ordinary) of Inl _ \<Rightarrow> True | Inr _ \<Rightarrow> False)
            \<or> evidencePriceKind ordinary \<noteq> OrdinaryPrice \<or> evidenceChainId ordinary \<noteq> chainText (a2Chain assignment)
            \<or> evidenceSourceId ordinary \<noteq> a2Source assignment \<or> evidenceObservedAt ordinary \<noteq> a2ObservedAt assignment
            \<or> evidenceMatch ordinary \<noteq> ExactMatch (a2ProductId assignment)
            \<or> evidenceAmountOre ordinary * purchaseCount (itemPurchase item) \<noteq> ordinaryTotalOre (a2Checkout assignment))
         \<and> \<not> (expiresAtMs > dateParse (evidenceObservedAt ordinary) + CURRENT_PRICE_MAX_AGE_MS
              \<or> (case evidenceValidUntil ordinary of None \<Rightarrow> False | Some until \<Rightarrow> expiresAtMs > dateParse until)))"

definition offerContext :: "trip_v2 \<Rightarrow> official_offer \<Rightarrow> offer_context" where
  "offerContext s offer =
     \<lparr>contextNow = Some (dateParse (tripEvaluatedAt s)), contextMaxAgeMs = EXACT_PRODUCT_OFFER_MAX_AGE_MS,
      contextLocation = tripLocation s, contextChannel = InStore, contextSources = [offerSourceId offer],
      contextMemberships = tripMemberships s, contextDirectory = tripDirectory s\<rparr>"

definition tripCheckout :: "trip_v2 \<Rightarrow> assignment_v2 \<Rightarrow> price_evidence \<Rightarrow> official_offer \<Rightarrow> checkout_input" where
  "tripCheckout s assignment ordinary offer =
     \<lparr>checkoutProductId = a2ProductId assignment, checkoutChainId = chainText (a2Chain assignment),
      checkoutPackages = v2PackageCount (a2Fulfilment assignment), checkoutUnitOre = evidenceAmountOre ordinary,
      checkoutOffer = Some (Shaped offer), checkoutContext = offerContext s offer\<rparr>"

definition offerAccepted :: "trip_v2 \<Rightarrow> assignment_v2 \<Rightarrow> trip_item_v2 \<Rightarrow> bool" where
  "offerAccepted s assignment item \<longleftrightarrow>
     (let purchase = itemPurchase item; expectedOfferId = appliedOfferId (a2Checkout assignment); expiresAtMs = dateParse (tripExpiresAt s)
      in if map_option offerId (purchaseOffer purchase) \<noteq> expectedOfferId then False
         else if expectedOfferId = None then a2Offer assignment = None
         else (case (purchaseOffer purchase, a2Offer assignment) of
             (Some offer, Some reference) \<Rightarrow>
               (case calculateCheckoutCost (tripCheckout s assignment (purchasePrice purchase) offer) of
                  Inl _ \<Rightarrow> False
                | Inr checkout \<Rightarrow>
                    \<not> (appliedOfferId checkout \<noteq> expectedOfferId
                       \<or> ordinaryTotalOre checkout \<noteq> ordinaryTotalOre (a2Checkout assignment)
                       \<or> checkoutTotalOre checkout \<noteq> checkoutTotalOre (a2Checkout assignment)
                       \<or> savingOre checkout \<noteq> savingOre (a2Checkout assignment)
                       \<or> offerId offer \<noteq> referenceId reference \<or> offerSourceId offer \<noteq> referenceSourceId reference
                       \<or> offerRecordId offer \<noteq> referenceRecordId reference \<or> offerCapturedAt offer \<noteq> referenceCapturedAt reference
                       \<or> InStore \<notin> set (offerChannels (offerApplicability offer))))
               \<and> \<not> (expiresAtMs > dateParse (offerEndsAt (offerApplicability offer))
                    \<or> expiresAtMs > dateParse (offerCapturedAt offer) + EXACT_PRODUCT_OFFER_MAX_AGE_MS)
           | _ \<Rightarrow> True))"

definition itemAccepted :: "trip_v2 \<Rightarrow> trip_item_v2 \<Rightarrow> bool" where
  "itemAccepted s item \<longleftrightarrow>
     (case (map_of (byKey a2NeedId (p2Assignments (tripPlan s))) (itemNeedId item),
            map_of (byKey summaryGtin (tripProducts s)) (itemGtin item)) of
        (Some assignment, Some product) \<Rightarrow>
          mirrorsPurchase s assignment product item \<and> priceAccepted s assignment item \<and> offerAccepted s assignment item
      | _ \<Rightarrow> True)"

definition tripSnapshotV2Refinement :: "trip_v2 \<Rightarrow> bool" where
  "tripSnapshotV2Refinement s \<longleftrightarrow>
     refineTripSnapshotCore s \<and> \<not> (length (p2Substitutions (tripPlan s)) > 0 \<and> tripReviewed s = None)
     \<and> refineReviewedFamilyEvidence s \<and> attestationAccepted s \<and> list_all (currentProduct s) (tripProducts s)
     \<and> list_all (itemAccepted s) (tripItems s)"

definition tripSnapshotV2ObjectSchema :: "host \<Rightarrow> trip_v2 \<Rightarrow> trip_v2 option" where
  "tripSnapshotV2ObjectSchema h s =
     (case (tripObjectSchema tripChecklistItemV2Schema tripNavigationV2Schema s,
            parseOptional geographicDirectoryRegionAttestationV1Schema (tripAttestation s), marketContextV1Schema (tripMarket s),
            parseOptional (tripReviewedFamilyEvidenceV2Schema h) (tripReviewed s)) of
        (Some parsed, Some attestation, Some market, Some reviewed) \<Rightarrow>
          (if enabledMembershipProgramIdsSchema (tripMemberships s)
           then Some (parsed\<lparr>tripAttestation := attestation, tripMarket := market, tripReviewed := reviewed\<rparr>) else None)
      | _ \<Rightarrow> None)"

definition tripSnapshotV2Schema :: "host \<Rightarrow> trip_v2 \<Rightarrow> trip_v2 option" where
  "tripSnapshotV2Schema h s =
     (case tripSnapshotV2ObjectSchema h s of None \<Rightarrow> None
      | Some parsed \<Rightarrow> if tripSnapshotV2Refinement parsed then Some parsed else None)"

datatype trip_snapshot = TripV1 "trip_item trip" | TripV2 trip_v2

fun tripSnapshotSchema :: "host \<Rightarrow> trip_snapshot \<Rightarrow> trip_snapshot option" where
  "tripSnapshotSchema h (TripV1 s) = map_option TripV1 (tripSnapshotV1Schema s)"
| "tripSnapshotSchema h (TripV2 s) = map_option TripV2 (tripSnapshotV2Schema h s)"

section \<open>Creating a snapshot\<close>

fun CHAIN_NAMES :: "chain \<Rightarrow> string" where
  "CHAIN_NAMES Bunnpris = ''Bunnpris''"
| "CHAIN_NAMES Extra = ''Extra''"
| "CHAIN_NAMES Rema1000 = ''REMA 1000''"
| "CHAIN_NAMES Fudi = ''FUDI''"
| "CHAIN_NAMES Holdbart = ''Holdbart''"
| "CHAIN_NAMES Meny = ''MENY''"
| "CHAIN_NAMES Havaristen = ''Havaristen''"
| "CHAIN_NAMES Joker = ''Joker''"
| "CHAIN_NAMES Spar = ''SPAR''"
| "CHAIN_NAMES Fastcandy = ''FastCandy''"
| "CHAIN_NAMES Europris = ''Europris''"
| "CHAIN_NAMES Engrossnett = ''Engrosnett''"
| "CHAIN_NAMES Oda = ''Oda''"

definition hashStep :: "char \<Rightarrow> 64 word \<Rightarrow> 64 word" where
  "hashStep c hash = xor hash (of_nat (of_char c)) * 0x100000001b3"

definition stableChecklistId :: "string \<Rightarrow> string \<Rightarrow> string" where
  "stableChecklistId ofPlanId ofNeedId =
     (let hash = fold hashStep (ofPlanId @ [char_of (0 :: nat)] @ ofNeedId) 0xcbf29ce484222325;
          digits = baseText 16 (uint hash)
      in ''check:'' @ replicate (16 - length digits) CHR ''0'' @ digits)"

datatype create_navigation = CreatePriceOnly | CreateRouted trip_aggregate "travel_stop list"

fun createdNavigation :: "plan_v2 \<Rightarrow> create_navigation \<Rightarrow> trip_navigation" where
  "createdNavigation plan CreatePriceOnly =
     PriceOnlyNavigation (map (\<lambda>c. \<lparr>chainStopChain = c, chainStopName = CHAIN_NAMES c\<rparr>)
       (sort_by (\<lambda>x y. compareText (chainText x) (chainText y)) (p2Chains plan)))"
| "createdNavigation plan (CreateRouted a stops) = RoutedNavigation a stops"

record trip_input =
  inputId :: string
  inputCreatedAt :: string
  inputEvaluatedAt :: string
  inputExpiresAt :: string
  inputCaveats :: "string list"
  inputPlan :: plan_v2
  inputProducts :: "product_summary list"
  inputNavigation :: create_navigation

definition createdItem :: "plan_v2 \<Rightarrow> product_summary list \<Rightarrow> assignment_v2 \<Rightarrow> trip_item" where
  "createdItem plan products a =
     \<lparr>itemId = stableChecklistId (p2Id plan) (a2NeedId a), itemNeedId = a2NeedId a, itemProductId = a2ProductId a,
      itemGtin = a2Ean a, itemChain = a2Chain a,
      itemLabel = (case map_of (byKey summaryGtin products) (a2Ean a) of None \<Rightarrow> [] | Some p \<Rightarrow> summaryName p)\<rparr>"

definition createTripSnapshot :: "trip_input \<Rightarrow> trip_item trip option" where
  "createTripSnapshot input =
     (case (planResultV2Schema (inputPlan input), parseAll exactProductPlanApiProductSummarySchema (inputProducts input)) of
        (Some plan, Some products) \<Rightarrow>
          tripSnapshotV1Schema
            \<lparr>tripId = inputId input, tripCreatedAt = inputCreatedAt input, tripEvaluatedAt = inputEvaluatedAt input,
             tripExpiresAt = inputExpiresAt input, tripCaveats = inputCaveats input, tripPlan = plan, tripProducts = products,
             tripItems = map (createdItem plan products) (p2Assignments plan),
             tripNavigation = createdNavigation plan (inputNavigation input)\<rparr>
      | _ \<Rightarrow> None)"

record purchase_evidence =
  purchaseNeedId :: string
  purchaseEvidencePrice :: price_evidence
  purchaseEvidenceOffer :: "official_offer option"

definition tripPurchaseEvidenceV2InputSchema :: "purchase_evidence \<Rightarrow> purchase_evidence option" where
  "tripPurchaseEvidenceV2InputSchema e =
     (case (identifierSchema (purchaseNeedId e), priceEvidenceSchema (purchaseEvidencePrice e),
            parseOptional officialOfferSchema (purchaseEvidenceOffer e)) of
        (Some n, Some p, Some offer) \<Rightarrow> Some \<lparr>purchaseNeedId = n, purchaseEvidencePrice = p, purchaseEvidenceOffer = offer\<rparr>
      | _ \<Rightarrow> None)"

record trip_input_v2 = trip_input +
  inputMemberships :: "string list"
  inputAttestation :: "region_attestation option"
  inputMarket :: market_context
  inputPurchases :: "purchase_evidence list"
  inputReviewed :: "reviewed_evidence option"

text \<open>
  The purchase of an item; without evidence for its need there is no price and the schema throws. The freshness the code copies from the
  plan is the literal the schema asks for.
\<close>

definition createdItemV2 :: "plan_v2 \<Rightarrow> product_summary list \<Rightarrow> (string \<times> purchase_evidence) list \<Rightarrow> assignment_v2 \<Rightarrow> trip_item_v2 option" where
  "createdItemV2 plan products evidenceByNeed a =
     (case (map_of evidenceByNeed (a2NeedId a), map_of (p2Freshness plan) (a2NeedId a)) of
        (Some evidence, Some state) \<Rightarrow>
          (if state = ''eligible''
           then Some (trip_item.extend (createdItem plan products a)
             (trip_item_v2.fields
               \<lparr>purchaseRequested = v2Requested (a2Fulfilment a), purchasePackage = v2Package (a2Fulfilment a),
                purchaseCount = v2PackageCount (a2Fulfilment a), purchasePurchased = v2Purchased (a2Fulfilment a),
                purchaseSurplus = v2Surplus (a2Fulfilment a), purchaseOrdinaryOre = ordinaryTotalOre (a2Checkout a),
                purchaseCheckoutOre = checkoutTotalOre (a2Checkout a), purchaseSavedOre = savingOre (a2Checkout a),
                purchaseObservedAt = a2ObservedAt a, purchasePrice = purchaseEvidencePrice evidence,
                purchaseOffer = purchaseEvidenceOffer evidence\<rparr>))
           else None)
      | _ \<Rightarrow> None)"

definition createTripSnapshotV2 :: "host \<Rightarrow> trip_input_v2 \<Rightarrow> trip_v2 option" where
  "createTripSnapshotV2 h input =
     (case (planResultV2Schema (inputPlan input), parseAll exactProductPlanApiProductSummarySchema (inputProducts input),
            parseAll tripPurchaseEvidenceV2InputSchema (inputPurchases input)) of
        (Some plan, Some products, Some purchases) \<Rightarrow>
          (let evidenceNeedIds = map purchaseNeedId purchases; assignedNeedIds = map a2NeedId (p2Assignments plan)
           in if \<not> (1 \<le> length purchases \<and> length purchases \<le> 50) then None
              else if \<not> hasUniqueStrings evidenceNeedIds \<or> length evidenceNeedIds \<noteq> length assignedNeedIds
                 \<or> list_ex (\<lambda>i. i \<notin> set evidenceNeedIds) assignedNeedIds then None
              else (case parseAll (createdItemV2 plan products (byKey purchaseNeedId purchases)) (p2Assignments plan) of
                  None \<Rightarrow> None
                | Some items \<Rightarrow>
                    tripSnapshotV2Schema h
                      \<lparr>tripId = inputId input, tripCreatedAt = inputCreatedAt input, tripEvaluatedAt = inputEvaluatedAt input,
                       tripExpiresAt = inputExpiresAt input, tripCaveats = inputCaveats input, tripPlan = plan, tripProducts = products,
                       tripItems = items, tripNavigation = createdNavigation plan (inputNavigation input),
                       tripMemberships = inputMemberships input, tripAttestation = inputAttestation input,
                       tripMarket = inputMarket input, tripReviewed = inputReviewed input\<rparr>))
      | _ \<Rightarrow> None)"

end
