(* ===== verification/Trip_Contract.thy ===== *)
theory Trip_Contract
  imports Trip Frontier_V2
begin

text \<open>
  Reading a stored trip again changes nothing: every schema of a trip gives back a value it has admitted. The allowed brands are
  lowercased by the runtime, of which nothing is assumed; the refinement of the reviewed evidence makes them normal.
\<close>

section \<open>Schemas of the parts\<close>

named_theorems schema_idem

lemmas [schema_idem] = identifierSchema_idem sourceIdSchema_idem nonEmptyStringSchema_idem boundedText_idem priceEvidenceSchema_idem
  officialOfferSchema_idem postalDirectoryRegionSchema_idem

lemma gtinSchema_idem [schema_idem]: "gtinSchema g = Some g' \<Longrightarrow> gtinSchema g' = Some g'"
  using gtinSchema_eq by metis

lemma measure_idem [schema_idem]: "packageMeasureSchema m = Some n \<Longrightarrow> packageMeasureSchema n = Some n"
  by (auto simp: packageMeasureSchema_def split: if_splits)

lemma surplus_idem [schema_idem]: "nonNegativeMeasureSchema m = Some n \<Longrightarrow> nonNegativeMeasureSchema n = Some n"
  by (auto simp: nonNegativeMeasureSchema_def split: if_splits)

lemma checkoutCost_idem [schema_idem]:
  assumes "checkoutCostV2Schema a = Some b"
  shows "checkoutCostV2Schema b = Some b"
proof (cases "parseOptional identifierSchema (appliedOfferId a)")
  case (Some i)
  have b: "b = a\<lparr>appliedOfferId := i\<rparr>"
    and r: "moneyOreSchema (ordinaryTotalOre a)" "moneyOreSchema (savingOre a)" "moneyOreSchema (checkoutTotalOre a)" "checkoutRefinement a"
    using assms by (simp_all add: checkoutCostV2Schema_def Some split: if_splits)
  have "i = None \<longleftrightarrow> appliedOfferId a = None" using Some unfolding parseOptional_Some by (auto split: option.splits)
  moreover have "parseOptional identifierSchema i = Some i" by (rule parseOptional_idem [OF Some]) (rule identifierSchema_idem)
  ultimately show ?thesis using r by (simp add: checkoutCostV2Schema_def checkoutRefinement_def b)
qed (use assms in \<open>simp add: checkoutCostV2Schema_def\<close>)

lemma offerReference_idem [schema_idem]:
  assumes "appliedOfficialOfferReferenceSchema a = Some b"
  shows "appliedOfficialOfferReferenceSchema b = Some b"
proof -
  obtain i s k where p: "identifierSchema (referenceId a) = Some i"
      "sourceIdSchema (referenceSourceId a) = Some s"
      "identifierSchema (referenceRecordId a) = Some k"
    and r: "canonicalTimestamp (referenceCapturedAt a)"
    and b: "b = a\<lparr>referenceId := i, referenceSourceId := s, referenceRecordId := k\<rparr>"
    using assms by (auto simp: appliedOfficialOfferReferenceSchema_def split: option.splits if_splits)
  show ?thesis using r identifierSchema_idem [OF p(1)] sourceIdSchema_idem [OF p(2)] identifierSchema_idem [OF p(3)] by (simp add: appliedOfficialOfferReferenceSchema_def b)
qed

lemma fulfilmentV2_idem [schema_idem]:
  assumes "fulfilmentV2Schema a = Some b"
  shows "fulfilmentV2Schema b = Some b"
proof -
  obtain n q m1 m2 m3 m4 where p: "identifierSchema (v2NeedId a) = Some n"
      "identifierSchema (v2ProductId a) = Some q"
      "packageMeasureSchema (v2Requested a) = Some m1"
      "packageMeasureSchema (v2Package a) = Some m2"
      "packageMeasureSchema (v2Purchased a) = Some m3"
      "nonNegativeMeasureSchema (v2Surplus a) = Some m4"
    and r: "positiveSafeInteger (v2PackageCount a)" "fulfilmentV2Refinement a"
    and b: "b = a\<lparr>v2NeedId := n, v2ProductId := q\<rparr>"
    using assms by (auto simp: fulfilmentV2Schema_def split: option.splits if_splits)
  have same: "fulfilmentV2Refinement (a\<lparr>v2NeedId := n, v2ProductId := q\<rparr>) = fulfilmentV2Refinement a"
    by (simp add: fulfilmentV2Refinement_def)
  show ?thesis using r p(3-6) identifierSchema_idem [OF p(1)] identifierSchema_idem [OF p(2)] measure_idem [OF p(3)] measure_idem [OF p(4)] measure_idem [OF p(5)] surplus_idem [OF p(6)] by (simp add: fulfilmentV2Schema_def same b)
qed

lemma assignment_idem [schema_idem]:
  assumes "planAssignmentV2Schema a = Some b"
  shows "planAssignmentV2Schema b = Some b"
proof -
  obtain n p e s f c r where parts: "identifierSchema (a2NeedId a) = Some n" "identifierSchema (a2ProductId a) = Some p"
      "gtinSchema (a2Ean a) = Some e" "sourceIdSchema (a2Source a) = Some s" "fulfilmentV2Schema (a2Fulfilment a) = Some f"
      "checkoutCostV2Schema (a2Checkout a) = Some c" "parseOptional appliedOfficialOfferReferenceSchema (a2Offer a) = Some r"
    and rest: "moneyOreSchema (a2CostOre a)" "canonicalTimestamp (a2ObservedAt a)" "assignmentV2Refinement b"
    and b: "b = a\<lparr>a2NeedId := n, a2ProductId := p, a2Source := s, a2Fulfilment := f, a2Checkout := c, a2Offer := r\<rparr>"
    using assms by (auto simp: planAssignmentV2Schema_def Let_def split: option.splits if_splits)
  have "parseOptional appliedOfficialOfferReferenceSchema r = Some r" by (rule parseOptional_idem [OF parts(7)]) (rule offerReference_idem)
  then show ?thesis using rest parts gtinSchema_eq [OF parts(3)]
      identifierSchema_idem [OF parts(1)] identifierSchema_idem [OF parts(2)] sourceIdSchema_idem [OF parts(4)]
      fulfilmentV2_idem [OF parts(5)] checkoutCost_idem [OF parts(6)]
    by (simp add: planAssignmentV2Schema_def Let_def b)
qed

lemma freshness_idem:
  assumes "freshnessEntry e = Some f"
  shows "freshnessEntry f = Some f"
proof -
  obtain k i where "e = (k, ''eligible'')" "identifierSchema k = Some i" "f = (i, ''eligible'')"
    using assms by (cases e) (auto simp: freshnessEntry_def split: if_split_asm)
  then show ?thesis using identifierSchema_idem [of k i] by (simp add: freshnessEntry_def)
qed

lemma planResultV2_idem [schema_idem]:
  assumes "planResultV2Schema p = Some q"
  shows "planResultV2Schema q = Some q"
proof -
  obtain i as subs freshness where parts: "identifierSchema (p2Id p) = Some i" "parseAll planAssignmentV2Schema (p2Assignments p) = Some as"
      "parseAll identifierSchema (p2Substitutions p) = Some subs" "parseAll freshnessEntry (p2Freshness p) = Some freshness"
    and rest: "1 \<le> length as" "length as \<le> 50" "moneyOreSchema (p2TotalOre p)" "1 \<le> length (p2Chains p)" "length (p2Chains p) \<le> 3"
      "length subs \<le> 50" "planResultV2Refinement q"
    and q: "q = p\<lparr>p2Id := i, p2Assignments := as, p2Substitutions := subs, p2Freshness := newMap freshness\<rparr>"
    using assms by (auto simp: planResultV2Schema_def Let_def split: option.splits if_splits)
  have "freshnessEntry f = Some f" if "f \<in> set (newMap freshness)" for f
    using parseAll_in [OF parts(4), of f] newMap_entry [of "fst f" "snd f"] that freshness_idem by (metis prod.collapse)
  then have "parseAll freshnessEntry (newMap freshness) = Some (newMap freshness)" by (simp add: parseAll_fixed)
  moreover have "newMap (newMap freshness) = newMap freshness" by (rule newMap_distinct_id) (rule distinct_newMap)
  moreover have "parseAll planAssignmentV2Schema as = Some as" by (rule parseAll_idem [OF parts(2)]) (rule assignment_idem)
  moreover have "parseAll identifierSchema subs = Some subs" by (rule parseAll_idem [OF parts(3)]) (rule identifierSchema_idem)
  ultimately show ?thesis using rest identifierSchema_idem [OF parts(1)] by (simp add: planResultV2Schema_def Let_def q)
qed

lemma attestation_idem [schema_idem]:
  assumes "geographicDirectoryRegionAttestationV1Schema a = Some b"
  shows "geographicDirectoryRegionAttestationV1Schema b = Some b"
proof -
  obtain v e r where p: "identifierSchema (attestedVersionId a) = Some v" "nonEmptyStringSchema (attestedEvidenceReference a) = Some e"
      "postalDirectoryRegionSchema (attestedRegion a) = Some r"
    and q: "countryCodeSchema (attestedCountry a)" "canonicalTimestamp (attestedEvaluatedAt a)" "canonicalTimestamp (attestedPublishedAt a)"
      "canonicalTimestamp (attestedReviewedAt a)" "canonicalTimestamp (attestedValidFrom a)" "optionally canonicalTimestamp (attestedValidUntil a)"
      "regionAttestationRefinement b"
    and b: "b = a\<lparr>attestedVersionId := v, attestedEvidenceReference := e, attestedRegion := r\<rparr>"
    using assms by (auto simp: geographicDirectoryRegionAttestationV1Schema_def Let_def split: option.splits if_splits)
  show ?thesis using q identifierSchema_idem [OF p(1)] nonEmptyStringSchema_idem [OF p(2)] postalDirectoryRegionSchema_idem [OF p(3)]
    by (simp add: geographicDirectoryRegionAttestationV1Schema_def Let_def b)
qed

section \<open>Checklist, purchases and stops\<close>

lemma checklistItem_idem:
  assumes "tripChecklistItemV1Schema a = Some b"
  shows "tripChecklistItemV1Schema b = Some b"
proof -
  obtain c n p g l where parts: "boundedText 1 300 (itemId a) = Some c" "identifierSchema (itemNeedId a) = Some n"
      "identifierSchema (itemProductId a) = Some p" "gtinSchema (itemGtin a) = Some g" "nonEmptyStringSchema (itemLabel a) = Some l"
    and b: "b = a\<lparr>itemId := c, itemNeedId := n, itemProductId := p, itemGtin := g, itemLabel := l\<rparr>"
    using assms by (auto simp: tripChecklistItemV1Schema_def split: option.splits)
  show ?thesis using boundedText_idem [OF parts(1)] identifierSchema_idem [OF parts(2)] identifierSchema_idem [OF parts(3)]
      gtinSchema_idem [OF parts(4)] nonEmptyStringSchema_idem [OF parts(5)]
    by (simp add: tripChecklistItemV1Schema_def b)
qed

lemma purchaseTerms_idem:
  assumes "tripPurchaseTermsV2Schema a = Some b"
  shows "tripPurchaseTermsV2Schema b = Some b"
    and "priceEvidenceSchema (purchasePrice b) = Some (purchasePrice b)"
    and "parseOptional officialOfferSchema (purchaseOffer b) = Some (purchaseOffer b)"
proof -
  obtain p f where parts: "priceEvidenceSchema (purchasePrice a) = Some p" "parseOptional officialOfferSchema (purchaseOffer a) = Some f"
    and b: "b = a\<lparr>purchasePrice := p, purchaseOffer := f\<rparr>"
    using assms by (auto simp: tripPurchaseTermsV2Schema_def simp del: parseOptional.simps split: option.splits if_splits)
  have f: "parseOptional officialOfferSchema f = Some f" by (rule parseOptional_idem [OF parts(2)]) (rule officialOfferSchema_idem)
  then show "parseOptional officialOfferSchema (purchaseOffer b) = Some (purchaseOffer b)" by (simp add: b)
  show "priceEvidenceSchema (purchasePrice b) = Some (purchasePrice b)" using priceEvidenceSchema_idem [OF parts(1)] by (simp add: b)
  with f assms show "tripPurchaseTermsV2Schema b = Some b"
    by (auto simp: tripPurchaseTermsV2Schema_def b parts simp del: parseOptional.simps split: if_splits)
qed

lemma checklistItemV1_v2:
  assumes "tripChecklistItemV1Schema a = Some b"
  shows "tripChecklistItemV1Schema (b\<lparr>itemPurchase := q\<rparr>) = Some (b\<lparr>itemPurchase := q\<rparr>)"
  using checklistItem_idem [OF assms] unfolding tripChecklistItemV1Schema_def
  by (cases b) (auto split: option.splits)

lemma checklistItemV2_idem:
  assumes "tripChecklistItemV2Schema a = Some b"
  shows "tripChecklistItemV2Schema b = Some b" "tripPurchaseTermsV2Schema (itemPurchase b) = Some (itemPurchase b)"
proof -
  obtain c q where parts: "tripChecklistItemV1Schema a = Some c" "tripPurchaseTermsV2Schema (itemPurchase a) = Some q"
    and b: "b = c\<lparr>itemPurchase := q\<rparr>"
    using assms by (auto simp: tripChecklistItemV2Schema_def split: option.splits)
  show q: "tripPurchaseTermsV2Schema (itemPurchase b) = Some (itemPurchase b)" using purchaseTerms_idem(1) [OF parts(2)] by (simp add: b)
  then show "tripChecklistItemV2Schema b = Some b"
    using checklistItemV1_v2 [OF parts(1), of q] by (simp add: tripChecklistItemV2Schema_def b)
qed

end
