(* ===== verification/Trip_Correct.thy ===== *)
theory Trip_Correct
  imports Trip_Contract
begin

text \<open>
  What an accepted trip promises: as long as it has not expired, every price, offer and catalog observation it carries is still good, and the
  checkout it shows is the one that is computed again.
\<close>

section \<open>What the schema has checked\<close>

lemma tripObject_parts:
  assumes "tripObjectSchema itemSchema navigation raw = Some s"
  obtains i caveats plan products' items route where
    "identifierSchema (tripId raw) = Some i" "parseAll nonEmptyStringSchema (tripCaveats raw) = Some caveats"
    "planResultV2Schema (tripPlan raw) = Some plan" "parseAll exactProductPlanApiProductSummarySchema (tripProducts raw) = Some products'"
    "parseAll itemSchema (tripItems raw) = Some items" "navigation (tripNavigation raw) = Some route"
    "canonicalTimestamp (tripCreatedAt raw)" "canonicalTimestamp (tripEvaluatedAt raw)" "canonicalTimestamp (tripExpiresAt raw)"
    "length caveats \<le> 10" "1 \<le> length products'" "length products' \<le> 50" "1 \<le> length items" "length items \<le> 50"
    "s = raw\<lparr>tripId := i, tripCaveats := caveats, tripPlan := plan, tripProducts := products', tripItems := items, tripNavigation := route\<rparr>"
  using assms that by (auto simp: tripObjectSchema_def split: option.splits if_splits)

lemma tripV2_accepted:
  assumes "tripSnapshotV2Schema h raw = Some s"
  shows "planResultV2Schema (tripPlan s) = Some (tripPlan s)" "tripSnapshotV2Refinement s"
    "canonicalTimestamp (tripEvaluatedAt s)" "canonicalTimestamp (tripExpiresAt s)"
    "\<And>i. i \<in> set (tripItems s) \<Longrightarrow> tripChecklistItemV2Schema i = Some i"
    "\<And>a. tripAttestation s = Some a \<Longrightarrow> geographicDirectoryRegionAttestationV1Schema a = Some a"
proof -
  from assms have r: "tripSnapshotV2Refinement s" and o: "tripSnapshotV2ObjectSchema h raw = Some s"
    by (auto simp: tripSnapshotV2Schema_def split: option.splits if_splits)
  show "tripSnapshotV2Refinement s" by (rule r)
  from o obtain p a m e where p: "tripObjectSchema tripChecklistItemV2Schema tripNavigationV2Schema raw = Some p"
      and a: "parseOptional geographicDirectoryRegionAttestationV1Schema (tripAttestation raw) = Some a"
      and s: "s = p\<lparr>tripAttestation := a, tripMarket := m, tripReviewed := e\<rparr>"
    by (auto simp: tripSnapshotV2ObjectSchema_def simp del: parseOptional.simps split: option.splits if_splits)
  show "geographicDirectoryRegionAttestationV1Schema x = Some x" if "tripAttestation s = Some x" for x
  proof -
    have "a = Some x" using that by (simp add: s)
    then show ?thesis using a attestation_idem by (auto simp: parseOptional_Some simp del: parseOptional.simps split: option.splits)
  qed
  obtain plan items where q: "planResultV2Schema (tripPlan raw) = Some plan" "parseAll tripChecklistItemV2Schema (tripItems raw) = Some items"
      "canonicalTimestamp (tripEvaluatedAt raw)" "canonicalTimestamp (tripExpiresAt raw)"
      and fields: "tripPlan p = plan" "tripItems p = items" "tripEvaluatedAt p = tripEvaluatedAt raw" "tripExpiresAt p = tripExpiresAt raw"
    by (rule tripObject_parts [OF p]) (simp add: that)
  show "planResultV2Schema (tripPlan s) = Some (tripPlan s)" using planResultV2_idem [OF q(1)] by (simp add: s fields)
  show "canonicalTimestamp (tripEvaluatedAt s)" "canonicalTimestamp (tripExpiresAt s)" using q(3,4) by (simp_all add: s fields)
  have "parseAll tripChecklistItemV2Schema items = Some items" by (rule parseAll_idem [OF q(2)]) (rule checklistItemV2_idem(1))
  then show "tripChecklistItemV2Schema i = Some i" if "i \<in> set (tripItems s)" for i using that by (simp add: s fields parseAll_fixed)
qed

lemma byKey_lookup:
  assumes "distinct (map key xs)"
  shows "map_of (byKey key xs) k = Some x \<longleftrightarrow> x \<in> set xs \<and> key x = k"
proof -
  have "map fst (map (\<lambda>x. (key x, x)) xs) = map key xs" by simp
  with assms have d: "distinct (map fst (map (\<lambda>x. (key x, x)) xs))" by metis
  show ?thesis unfolding byKey_def map_of_newMap_distinct [OF d] map_of_eq_Some_iff [OF d] by auto
qed

text \<open>Every assignment has its item on the checklist, and every item its assignment and product.\<close>

definition itemFor :: "assignment_v2 \<Rightarrow> product_summary \<Rightarrow> 'a trip_item_scheme \<Rightarrow> bool" where
  "itemFor a product item \<longleftrightarrow> itemNeedId item = a2NeedId a \<and> itemProductId item = a2ProductId a \<and> itemGtin item = a2Ean a
     \<and> itemChain item = a2Chain a \<and> summaryGtin product = a2Ean a \<and> itemLabel item = summaryName product"

lemma core_distinct:
  assumes "refineTripSnapshotCore s" "planResultV2Schema (tripPlan s) = Some (tripPlan s)"
  shows "distinct (map a2NeedId (p2Assignments (tripPlan s)))" "distinct (map summaryGtin (tripProducts s))"
    "distinct (map itemNeedId (tripItems s))" "distinct (map itemId (tripItems s))"
  using assms planResultV2_fixedE(12) [OF assms(2)] by (simp_all add: refineTripSnapshotCore_def planResultV2Refinement_def Let_def)

lemma core_item:
  assumes core: "refineTripSnapshotCore s" and plan: "planResultV2Schema (tripPlan s) = Some (tripPlan s)"
    and "item \<in> set (tripItems s)"
  obtains a product where "a \<in> set (p2Assignments (tripPlan s))" "product \<in> set (tripProducts s)" "itemFor a product item"
    "map_of (byKey a2NeedId (p2Assignments (tripPlan s))) (itemNeedId item) = Some a"
    "map_of (byKey summaryGtin (tripProducts s)) (itemGtin item) = Some product"
proof -
  have "mirrorsPlan (tripPlan s) (tripProducts s) item"
    using core assms(3) by (simp add: refineTripSnapshotCore_def Let_def list_all_iff)
  then obtain a product where
      m: "map_of (byKey a2NeedId (p2Assignments (tripPlan s))) (itemNeedId item) = Some a"
        "map_of (byKey summaryGtin (tripProducts s)) (itemGtin item) = Some product"
      and eq: "itemProductId item = a2ProductId a" "itemGtin item = a2Ean a" "itemChain item = a2Chain a" "itemLabel item = summaryName product"
    unfolding mirrorsPlan_def byKey_def by (auto split: option.splits)
  show thesis
    by (rule that [OF _ _ _ m])
      (use m eq in \<open>auto simp: byKey_lookup [OF core_distinct(1) [OF core plan]] byKey_lookup [OF core_distinct(2) [OF core plan]] itemFor_def\<close>)
qed

lemma core_needs:
  assumes core: "refineTripSnapshotCore s" and plan: "planResultV2Schema (tripPlan s) = Some (tripPlan s)"
  shows "set (map itemNeedId (tripItems s)) = set (map a2NeedId (p2Assignments (tripPlan s)))"
proof (rule card_subset_eq)
  show "set (map itemNeedId (tripItems s)) \<subseteq> set (map a2NeedId (p2Assignments (tripPlan s)))"
  proof
    fix n assume "n \<in> set (map itemNeedId (tripItems s))"
    then obtain item where i: "item \<in> set (tripItems s)" "n = itemNeedId item" by auto
    show "n \<in> set (map a2NeedId (p2Assignments (tripPlan s)))" by (rule core_item [OF core plan i(1)]) (auto simp: i(2) itemFor_def)
  qed
  have "length (tripItems s) = length (p2Assignments (tripPlan s))" using core by (simp add: refineTripSnapshotCore_def Let_def)
  then show "card (set (map itemNeedId (tripItems s))) = card (set (map a2NeedId (p2Assignments (tripPlan s))))"
    using core_distinct(1,3) [OF core plan] by (metis distinct_card length_map)
qed simp

lemma core_assignment:
  assumes core: "refineTripSnapshotCore s" and plan: "planResultV2Schema (tripPlan s) = Some (tripPlan s)"
    and a: "a \<in> set (p2Assignments (tripPlan s))"
  obtains item product where "item \<in> set (tripItems s)" "product \<in> set (tripProducts s)" "itemFor a product item"
    "map_of (byKey a2NeedId (p2Assignments (tripPlan s))) (itemNeedId item) = Some a"
    "map_of (byKey summaryGtin (tripProducts s)) (itemGtin item) = Some product"
proof -
  have "a2NeedId a \<in> set (map itemNeedId (tripItems s))" using a unfolding core_needs [OF core plan] by simp
  then obtain item where i: "item \<in> set (tripItems s)" "a2NeedId a = itemNeedId item" by auto
  obtain b product where b: "b \<in> set (p2Assignments (tripPlan s))" "product \<in> set (tripProducts s)" "itemFor b product item"
      "map_of (byKey a2NeedId (p2Assignments (tripPlan s))) (itemNeedId item) = Some b"
      "map_of (byKey summaryGtin (tripProducts s)) (itemGtin item) = Some product"
    by (rule core_item [OF core plan i(1)])
  have "map_of (byKey a2NeedId (p2Assignments (tripPlan s))) (itemNeedId item) = Some a"
    using a i(2) by (simp add: byKey_lookup [OF core_distinct(1) [OF core plan]])
  with b i(1) show thesis by (intro that [of item product]) simp_all
qed

section \<open>Later evaluation\<close>

text \<open>The trip as its checks would be made at another moment: the clock of the evaluation and the clock of the attestation.\<close>

definition asOf :: "string \<Rightarrow> trip_v2 \<Rightarrow> trip_v2" where
  "asOf moment s = s\<lparr>tripEvaluatedAt := moment, tripAttestation := map_option (\<lambda>a. a\<lparr>attestedEvaluatedAt := moment\<rparr>) (tripAttestation s)\<rparr>"

lemma asOf_simps [simp]:
  "tripEvaluatedAt (asOf m s) = m" "tripExpiresAt (asOf m s) = tripExpiresAt s" "tripLocation (asOf m s) = tripLocation s"
  "tripMemberships (asOf m s) = tripMemberships s" "tripPlan (asOf m s) = tripPlan s" "tripItems (asOf m s) = tripItems s"
  "tripAttestation (asOf m s) = map_option (\<lambda>a. a\<lparr>attestedEvaluatedAt := m\<rparr>) (tripAttestation s)"
  by (simp_all add: asOf_def tripLocation_def)

lemma attestation_later:
  assumes a: "geographicDirectoryRegionAttestationV1Schema a = Some a" and "canonicalTimestamp moment"
    and "dateParse (attestedEvaluatedAt a) \<le> dateParse moment"
    and "\<And>until. attestedValidUntil a = Some until \<Longrightarrow> dateParse moment < dateParse until"
  shows "geographicDirectoryRegionAttestationV1Schema (a\<lparr>attestedEvaluatedAt := moment\<rparr>) = Some (a\<lparr>attestedEvaluatedAt := moment\<rparr>)"
proof -
  obtain v e r where p: "identifierSchema (attestedVersionId a) = Some v" "nonEmptyStringSchema (attestedEvidenceReference a) = Some e"
      "postalDirectoryRegionSchema (attestedRegion a) = Some r"
    and q: "countryCodeSchema (attestedCountry a)" "canonicalTimestamp (attestedPublishedAt a)"
      "canonicalTimestamp (attestedReviewedAt a)" "canonicalTimestamp (attestedValidFrom a)" "optionally canonicalTimestamp (attestedValidUntil a)"
      "regionAttestationRefinement a"
    and eq: "a\<lparr>attestedVersionId := v, attestedEvidenceReference := e, attestedRegion := r\<rparr> = a"
    using a by (auto simp: geographicDirectoryRegionAttestationV1Schema_def Let_def split: option.splits if_splits)
  have f: "attestedVersionId a = v" "attestedEvidenceReference a = e" "attestedRegion a = r"
    using arg_cong [OF eq, of attestedVersionId] arg_cong [OF eq, of attestedEvidenceReference] arg_cong [OF eq, of attestedRegion] by simp_all
  have "regionAttestationRefinement (a\<lparr>attestedEvaluatedAt := moment\<rparr>)"
    using q(6) assms(3,4) by (auto simp: regionAttestationRefinement_def split: option.splits)
  moreover have "a\<lparr>attestedEvaluatedAt := moment, attestedVersionId := attestedVersionId a,
       attestedEvidenceReference := attestedEvidenceReference a, attestedRegion := attestedRegion a\<rparr>
      = a\<lparr>attestedEvaluatedAt := moment\<rparr>" by (cases a) simp
  ultimately show ?thesis using p [folded f] q assms(2) by (simp add: geographicDirectoryRegionAttestationV1Schema_def Let_def)
qed

lemma attestation_accepted:
  assumes "geographicDirectoryRegionAttestationV1Schema a = Some a"
  shows "geographicDirectoryEvidenceFromRegionAttestationV1 a location evaluatedAt =
    (if attestedEvaluatedAt a \<noteq> evaluatedAt \<or> locationRegion location = None \<or> attestedCountry a \<noteq> locationCountry location
        \<or> Some (regionCode (attestedRegion a)) \<noteq> locationRegion location then None
     else Some (AvailableDirectory
            \<lparr>directoryCountry = attestedCountry a, directoryVersionId = attestedVersionId a,
             directoryEvidenceReference = attestedEvidenceReference a, directoryPublishedAt = attestedPublishedAt a,
             directoryRegions = [attestedRegion a], directoryReviewedAt = attestedReviewedAt a,
             directoryValidFrom = attestedValidFrom a, directoryValidUntil = attestedValidUntil a\<rparr> evaluatedAt))"
  using assms by (auto simp: geographicDirectoryEvidenceFromRegionAttestationV1_def)

lemma postalSet_later:
  assumes d: "resolvePostalSet codes location code d evaluatedAt = Applicable n"
    and "dateParse evaluatedAt \<le> dateParse moment" "\<And>until. directoryValidUntil d = Some until \<Longrightarrow> dateParse moment < dateParse until"
  shows "resolvePostalSet codes location code d moment = Applicable n"
proof (cases "geographicPostalDirectorySchema d")
  case (Some e)
  have same: "directoryValidUntil e = directoryValidUntil d" "directoryPublishedAt e = directoryPublishedAt d"
      "directoryReviewedAt e = directoryReviewedAt d" "directoryValidFrom e = directoryValidFrom d"
    using Some by (auto simp: geographicPostalDirectorySchema_def Let_def split: option.splits if_splits)
  have "currentAt e evaluatedAt" using d by (auto simp: resolvePostalSet_eq [OF Some] split: if_splits)
  then have "currentAt e moment" using assms(2,3) by (auto simp: currentAt_def same split: option.splits)
  with d \<open>currentAt e evaluatedAt\<close> show ?thesis by (simp add: resolvePostalSet_eq [OF Some])
qed (use d in \<open>simp add: resolvePostalSet_def\<close>)

lemma includes_later:
  assumes "geographicScopeIncludes scope location (Some (AvailableDirectory d evaluatedAt))"
    and "dateParse evaluatedAt \<le> dateParse moment" "\<And>until. directoryValidUntil d = Some until \<Longrightarrow> dateParse moment < dateParse until"
  shows "geographicScopeIncludes scope location (Some (AvailableDirectory d moment))"
proof -
  obtain n where "resolveGeographicApplicability scope location (Some (AvailableDirectory d evaluatedAt)) = Applicable n"
    using assms(1) by (auto simp: scopeIncludes_iff)
  then have "resolveGeographicApplicability scope location (Some (AvailableDirectory d moment)) = Applicable n"
    using postalSet_later [OF _ assms(2,3)] by (cases scope) (auto split: option.splits if_splits)
  then show ?thesis by (auto simp: scopeIncludes_iff)
qed

lemma directory_later:
  assumes ok: "attestationAccepted s" and fixed: "\<And>a. tripAttestation s = Some a \<Longrightarrow> geographicDirectoryRegionAttestationV1Schema a = Some a"
    and moment: "canonicalTimestamp moment" "dateParse (tripEvaluatedAt s) \<le> dateParse moment" "dateParse moment < dateParse (tripExpiresAt s)"
  shows "attestationAccepted (asOf moment s)"
    and "geographicScopeIncludes scope location (tripDirectory s) \<Longrightarrow> geographicScopeIncludes scope location (tripDirectory (asOf moment s))"
proof -
  have "attestationAccepted (asOf moment s)
    \<and> (geographicScopeIncludes scope location (tripDirectory s) \<longrightarrow> geographicScopeIncludes scope location (tripDirectory (asOf moment s)))"
  proof (cases "tripAttestation s")
    case None
    then show ?thesis by (simp add: attestationAccepted_def tripDirectory_def)
  next
    case (Some a)
    note a = fixed [OF Some]
    have until: "dateParse moment < dateParse until" if "attestedValidUntil a = Some until" for until
      using ok moment(3) Some that by (auto simp: attestationAccepted_def)
    have d: "tripDirectory s \<noteq> None" using ok Some by (auto simp: attestationAccepted_def)
    then have at: "attestedEvaluatedAt a = tripEvaluatedAt s"
      by (auto simp: tripDirectory_def Some attestation_accepted [OF a] split: if_splits)
    have b: "geographicDirectoryRegionAttestationV1Schema (a\<lparr>attestedEvaluatedAt := moment\<rparr>) = Some (a\<lparr>attestedEvaluatedAt := moment\<rparr>)"
      by (rule attestation_later [OF a moment(1) _ until]) (simp_all add: at moment(2))
    obtain d where dirs: "tripDirectory s = Some (AvailableDirectory d (tripEvaluatedAt s))" "directoryValidUntil d = attestedValidUntil a"
        "tripDirectory (asOf moment s) = Some (AvailableDirectory d moment)"
      using d by (auto simp: tripDirectory_def Some attestation_accepted [OF a] attestation_accepted [OF b] split: if_splits)
    have "attestationAccepted (asOf moment s)" using ok Some by (auto simp: attestationAccepted_def dirs split: option.splits)
    then show ?thesis using includes_later [OF _ moment(2), of scope location d] until by (auto simp: dirs)
  qed
  then show "attestationAccepted (asOf moment s)"
    and "geographicScopeIncludes scope location (tripDirectory s) \<Longrightarrow> geographicScopeIncludes scope location (tripDirectory (asOf moment s))" by simp_all
qed

text \<open>A price, and an offer, that is usable at the evaluation and outlives the trip.\<close>

lemma price_later:
  assumes "usableEvidence e (priceContext s e)" and "dateParse (tripEvaluatedAt s) \<le> dateParse moment"
    and "dateParse moment \<le> dateParse (evidenceObservedAt e) + CURRENT_PRICE_MAX_AGE_MS"
    and "optionally (\<lambda>until. dateParse moment \<le> dateParse until) (evidenceValidUntil e)"
    and "\<And>scope location. geographicScopeIncludes scope location (tripDirectory s) \<Longrightarrow> geographicScopeIncludes scope location (tripDirectory (asOf moment s))"
  shows "usableEvidence e (priceContext (asOf moment s) e)"
proof -
  have "optionally (\<lambda>from. dateParse from \<le> dateParse moment) (evidenceValidFrom e)"
    using assms(1,2) by (cases "evidenceValidFrom e") (auto simp: usableEvidence_def priceContext_def)
  then show ?thesis using assms by (auto simp: usableEvidence_def priceContext_def)
qed

lemma offer_later:
  assumes "usableOffer f (offerContext s f)" and "dateParse (tripEvaluatedAt s) \<le> dateParse moment"
    and "dateParse moment \<le> dateParse (offerCapturedAt f) + EXACT_PRODUCT_OFFER_MAX_AGE_MS"
    and "dateParse moment < dateParse (offerEndsAt (offerApplicability f))"
    and "\<And>scope location. geographicScopeIncludes scope location (tripDirectory s) \<Longrightarrow> geographicScopeIncludes scope location (tripDirectory (asOf moment s))"
  shows "usableOffer f (offerContext (asOf moment s) f)"
  using assms by (auto simp: usableOffer_def offerContext_def)

text \<open>The checkout of an item, computed again from the evidence it carries.\<close>

definition recomputedCheckout :: "trip_v2 \<Rightarrow> assignment_v2 \<Rightarrow> trip_purchase \<Rightarrow> unavailable_reason + checkout_cost" where
  "recomputedCheckout s a q =
     calculateCheckoutCost \<lparr>checkoutProductId = a2ProductId a, checkoutChainId = chainText (a2Chain a),
       checkoutPackages = purchaseCount q, checkoutUnitOre = evidenceAmountOre (purchasePrice q),
       checkoutOffer = map_option Shaped (purchaseOffer q),
       checkoutContext =
         \<lparr>contextNow = Some (dateParse (tripEvaluatedAt s)), contextMaxAgeMs = EXACT_PRODUCT_OFFER_MAX_AGE_MS,
          contextLocation = tripLocation s, contextChannel = InStore,
          contextSources = map offerSourceId (case purchaseOffer q of None \<Rightarrow> [] | Some f \<Rightarrow> [f]),
          contextMemberships = tripMemberships s, contextDirectory = tripDirectory s\<rparr>\<rparr>"

lemma recomputed_ordinary:
  assumes a: "planAssignmentV2Schema a = Some a" and "purchaseOffer q = None" "appliedOfferId (a2Checkout a) = None"
    and "purchaseCount q = v2PackageCount (a2Fulfilment a)" "moneyOreSchema (evidenceAmountOre (purchasePrice q))"
    and total: "evidenceAmountOre (purchasePrice q) * purchaseCount q = ordinaryTotalOre (a2Checkout a)"
  shows "recomputedCheckout s a q = Inr (a2Checkout a)"
proof -
  note e = assignment_fixedE [OF a]
  have "identifierSchema (chainText c) = Some (chainText c)" for c by (cases c; simp only: chainText.simps; code_simp)
  moreover have "positiveSafeInteger (v2PackageCount (a2Fulfilment a))"
    using e(4) by (auto simp: fulfilmentV2Schema_def split: option.splits if_splits)
  moreover have c: "moneyOreSchema (ordinaryTotalOre (a2Checkout a))" "checkoutRefinement (a2Checkout a)"
    using e(5) by (auto simp: checkoutCostV2Schema_def split: option.splits if_splits)
  moreover have "a2Checkout a = ordinaryCheckoutCost (ordinaryTotalOre (a2Checkout a))"
    using c(2) assms(3) by (cases "a2Checkout a") (simp add: checkoutRefinement_def ordinaryCheckoutCost_def)
  ultimately show ?thesis
    using assms e(2) total [symmetric]
    by (simp add: recomputedCheckout_def calculateCheckoutCost_def safeMoneyProduct_def Let_def moneyOreSchema_def mult.commute)
qed

lemma checkout_context:
  assumes "checkoutOffer i = Some raw" and "parseApplicableOfficialOffer raw c = parseApplicableOfficialOffer raw (checkoutContext i)"
  shows "calculateCheckoutCost (i\<lparr>checkoutContext := c\<rparr>) = calculateCheckoutCost i"
  using assms unfolding calculateCheckoutCost_def
  by (cases "parseApplicableOfficialOffer raw (checkoutContext i)"; cases "safeMoneyProduct (checkoutPackages i) (checkoutUnitOre i)")
    (simp_all split: option.split)

lemma recomputed_offer:
  assumes first: "calculateCheckoutCost (tripCheckout s a (purchasePrice q) f) = Inr (a2Checkout a)" and f: "purchaseOffer q = Some f"
    and "appliedOfferId (a2Checkout a) \<noteq> None" and "purchaseCount q = v2PackageCount (a2Fulfilment a)"
    and schema: "officialOfferSchema f = Some f"
    and later: "usableOffer f (offerContext s f) \<Longrightarrow> usableOffer f (offerContext t f)"
  shows "recomputedCheckout t a q = Inr (a2Checkout a)"
proof -
  note parsed = applicable_shaped [OF schema]
  have "\<exists>g. parseApplicableOfficialOffer (Shaped f) (offerContext s f) = Inr g"
    using first assms(3)
    by (cases "a2Checkout a") (auto simp: calculateCheckoutCost_def tripCheckout_def ordinaryCheckoutCost_def split: if_splits option.splits sum.splits)
  then have "usableOffer f (offerContext s f)" by (auto simp: parsed)
  then have "parseApplicableOfficialOffer (Shaped f) (offerContext s f) = Inr f" "parseApplicableOfficialOffer (Shaped f) (offerContext t f) = Inr f"
    using later by (auto simp: parsed)
  then have "calculateCheckoutCost ((tripCheckout s a (purchasePrice q) f)\<lparr>checkoutContext := offerContext t f\<rparr>) = Inr (a2Checkout a)"
    using first by (subst checkout_context [of _ "Shaped f"]) (simp_all add: tripCheckout_def)
  then show ?thesis using assms(4) by (simp add: recomputedCheckout_def f tripCheckout_def offerContext_def)
qed

lemma item_evidence:
  assumes "tripChecklistItemV2Schema i = Some i"
  shows "priceEvidenceSchema (purchasePrice (itemPurchase i)) = Some (purchasePrice (itemPurchase i))"
    "purchaseOffer (itemPurchase i) = Some f \<Longrightarrow> officialOfferSchema f = Some f"
    "moneyOreSchema (evidenceAmountOre (purchasePrice (itemPurchase i)))"
proof -
  note q = purchaseTerms_idem [OF checklistItemV2_idem(2) [OF assms]]
  show p: "priceEvidenceSchema (purchasePrice (itemPurchase i)) = Some (purchasePrice (itemPurchase i))" by (rule q(2))
  show "purchaseOffer (itemPurchase i) = Some f \<Longrightarrow> officialOfferSchema f = Some f" using q(3) by (auto split: option.splits)
  show "moneyOreSchema (evidenceAmountOre (purchasePrice (itemPurchase i)))" using p unfolding priceEvidenceSchema_iff by blast
qed

lemma product_later:
  assumes "currentProduct s p" and "dateParse (tripEvaluatedAt s) \<le> dateParse moment" "dateParse moment < dateParse (tripExpiresAt s)"
  shows "currentProduct (asOf moment s) p"
  using assms by (simp add: currentProduct_def Let_def)

lemma purchase_later:
  assumes "priceAccepted s a item" "offerAccepted s a item" "mirrorsPurchase s a product item"
    and a: "planAssignmentV2Schema a = Some a" and item: "tripChecklistItemV2Schema item = Some item"
    and m: "dateParse (tripEvaluatedAt s) \<le> dateParse moment" "dateParse moment < dateParse (tripExpiresAt s)"
    and dir: "\<And>scope location. geographicScopeIncludes scope location (tripDirectory s) \<Longrightarrow> geographicScopeIncludes scope location (tripDirectory (asOf moment s))"
  shows "parseEligiblePriceEvidence (Shaped (purchasePrice (itemPurchase item))) (priceContext (asOf moment s) (purchasePrice (itemPurchase item)))
      = Inr (purchasePrice (itemPurchase item))"
    and "recomputedCheckout (asOf moment s) a (itemPurchase item) = Inr (a2Checkout a)"
proof -
  let ?q = "itemPurchase item" and ?e = "purchasePrice (itemPurchase item)"
  note schema = item_evidence [OF item]
  have p: "\<exists>e. parseEligiblePriceEvidence (Shaped ?e) (priceContext s ?e) = Inr e"
      and total: "evidenceAmountOre ?e * purchaseCount ?q = ordinaryTotalOre (a2Checkout a)"
      and b: "dateParse (tripExpiresAt s) \<le> dateParse (evidenceObservedAt ?e) + CURRENT_PRICE_MAX_AGE_MS"
        "optionally (\<lambda>until. dateParse (tripExpiresAt s) \<le> dateParse until) (evidenceValidUntil ?e)"
    using assms(1) by (auto simp: priceAccepted_def Let_def split: sum.splits option.splits)
  have until: "optionally (\<lambda>until. dateParse moment \<le> dateParse until) (evidenceValidUntil ?e)"
    using b(2) m(2) by (cases "evidenceValidUntil ?e") auto
  have "usableEvidence ?e (priceContext s ?e)" using p by (auto simp: eligible_shaped [OF schema(1)])
  then have "usableEvidence ?e (priceContext (asOf moment s) ?e)"
    by (rule price_later [OF _ m(1) _ until dir]) (use b m(2) in auto)
  then show "parseEligiblePriceEvidence (Shaped ?e) (priceContext (asOf moment s) ?e) = Inr ?e" by (simp add: eligible_shaped [OF schema(1)])
  have count: "purchaseCount ?q = v2PackageCount (a2Fulfilment a)" using assms(3) by (simp add: mirrorsPurchase_def Let_def)
  show "recomputedCheckout (asOf moment s) a ?q = Inr (a2Checkout a)"
  proof (cases "purchaseOffer ?q")
    case None
    then have "appliedOfferId (a2Checkout a) = None" using assms(2) by (auto simp: offerAccepted_def Let_def split: if_splits)
    with None show ?thesis by (intro recomputed_ordinary a count schema(3) total) simp_all
  next
    case (Some f)
    then have applied: "appliedOfferId (a2Checkout a) = Some (offerId f)" using assms(2) by (auto simp: offerAccepted_def Let_def split: if_splits)
    moreover have "assignmentV2Refinement a" by (rule assignment_fixedE(6) [OF a])
    ultimately obtain r where "a2Offer a = Some r" by (cases "a2Offer a") (auto simp: assignmentV2Refinement_def)
    with assms(2) Some applied obtain c where c: "calculateCheckoutCost (tripCheckout s a ?e f) = Inr c"
        "c = a2Checkout a"
        and o: "dateParse (tripExpiresAt s) \<le> dateParse (offerEndsAt (offerApplicability f))"
        "dateParse (tripExpiresAt s) \<le> dateParse (offerCapturedAt f) + EXACT_PRODUCT_OFFER_MAX_AGE_MS"
      by (auto simp: offerAccepted_def Let_def split: if_splits sum.splits)
    show ?thesis
    proof (rule recomputed_offer [OF _ Some _ count schema(2) [OF Some]])
      show "usableOffer f (offerContext s f) \<Longrightarrow> usableOffer f (offerContext (asOf moment s) f)"
        by (rule offer_later [OF _ m(1) _ _ dir]) (use o m(2) in auto)
    qed (use c applied in simp_all)
  qed
qed

section \<open>Properties\<close>

text \<open>
  C36. A trip never outlives its evidence. For every accepted trip of version 2 and every moment from its evaluation up to its expiry, all
  checks made again at that moment still succeed: the directory attestation and every catalog observation are current, and for every
  assignment of the plan the checklist holds an item whose ordinary price is still eligible and from which the checkout is computed to
  exactly the one the plan shows, applied offer and all.
\<close>

theorem trip_holds_until_expiry:
  assumes trip: "tripSnapshotV2Schema h raw = Some s" and moment: "canonicalTimestamp moment"
    and m: "dateParse (tripEvaluatedAt s) \<le> dateParse moment" "dateParse moment < dateParse (tripExpiresAt s)"
  shows "attestationAccepted (asOf moment s) \<and> (\<forall>p \<in> set (tripProducts s). currentProduct (asOf moment s) p)
    \<and> (\<forall>a \<in> set (p2Assignments (tripPlan s)). \<exists>item \<in> set (tripItems s).
         itemNeedId item = a2NeedId a \<and> itemGtin item = a2Ean a \<and> itemChain item = a2Chain a
         \<and> parseEligiblePriceEvidence (Shaped (purchasePrice (itemPurchase item)))
             (priceContext (asOf moment s) (purchasePrice (itemPurchase item))) = Inr (purchasePrice (itemPurchase item))
         \<and> recomputedCheckout (asOf moment s) a (itemPurchase item) = Inr (a2Checkout a))"
proof (intro conjI ballI)
  note ok = tripV2_accepted [OF trip]
  note refined = ok(2) [unfolded tripSnapshotV2Refinement_def list_all_iff]
  have att: "attestationAccepted s" and core: "refineTripSnapshotCore s" using refined by simp_all
  note dir = directory_later [OF att ok(6) moment m]
  show "attestationAccepted (asOf moment s)" by (rule dir(1))
  show "currentProduct (asOf moment s) p" if "p \<in> set (tripProducts s)" for p using refined that product_later [OF _ m] by blast
  fix a assume a: "a \<in> set (p2Assignments (tripPlan s))"
  obtain item product where i: "item \<in> set (tripItems s)" "itemFor a product item"
      "map_of (byKey a2NeedId (p2Assignments (tripPlan s))) (itemNeedId item) = Some a"
      "map_of (byKey summaryGtin (tripProducts s)) (itemGtin item) = Some product"
    by (rule core_assignment [OF core ok(1) a])
  have "itemAccepted s item" using refined i(1) by blast
  then have checks: "priceAccepted s a item" "offerAccepted s a item" "mirrorsPurchase s a product item"
    by (simp_all add: itemAccepted_def i)
  have "parseAll planAssignmentV2Schema (p2Assignments (tripPlan s)) = Some (p2Assignments (tripPlan s))"
    by (rule planResultV2_fixedE(2) [OF ok(1)])
  with a have fixed: "planAssignmentV2Schema a = Some a" by (simp add: parseAll_fixed)
  note later = purchase_later [OF checks fixed ok(5) [OF i(1)] m dir(2)]
  show "\<exists>item \<in> set (tripItems s). itemNeedId item = a2NeedId a \<and> itemGtin item = a2Ean a \<and> itemChain item = a2Chain a
         \<and> parseEligiblePriceEvidence (Shaped (purchasePrice (itemPurchase item)))
             (priceContext (asOf moment s) (purchasePrice (itemPurchase item))) = Inr (purchasePrice (itemPurchase item))
         \<and> recomputedCheckout (asOf moment s) a (itemPurchase item) = Inr (a2Checkout a)"
    using i(1,2) later by (intro bexI [of _ item]) (simp_all add: itemFor_def)
qed

text \<open>One assignment with a multibuy offer, priced for the postal codes of the market's region.\<close>

definition exampleTripRegion :: directory_region where
  "exampleTripRegion = exampleRegion\<lparr>regionCode := ''no-5001-trondheim''\<rparr>"

definition exampleTripAttestation :: region_attestation where
  "exampleTripAttestation = exampleAttestation\<lparr>attestedRegion := exampleTripRegion, attestedValidUntil := Some ''2026-07-19T00:00:00.000Z''\<rparr>"

definition exampleTripPrice :: price_evidence where
  "exampleTripPrice = \<lparr>evidenceId = ''price'', evidenceSourceId = ''kassalapp'', evidenceRecordId = ''r1'', evidenceChainId = ''extra'',
     evidenceMatch = ExactMatch ''milk'', evidenceAmountOre = 2000, evidencePriceKind = OrdinaryPrice,
     evidenceLevel = Observed,
     evidenceObservedAt = ''2026-07-16T06:00:00.000Z'', evidenceValidFrom = None, evidenceValidUntil = Some ''2026-07-18T00:00:00.000Z'',
     evidenceScope = PostalSetScope ''NO'' [''7010'', ''7011'']\<rparr>"

definition exampleTripAssignment :: assignment_v2 where
  "exampleTripAssignment = \<lparr>a2NeedId = ''n1'', a2ProductId = ''milk'', a2Ean = ''7038010000010'', a2Chain = Extra, a2CostOre = 7000,
     a2ObservedAt = ''2026-07-16T06:00:00.000Z'', a2Source = ''kassalapp'',
     a2Fulfilment = \<lparr>v2NeedId = ''n1'', v2ProductId = ''milk'', v2Requested = \<lparr>measureAmount = 4000, measureUnit = Millilitre\<rparr>,
        v2Package = \<lparr>measureAmount = 1000, measureUnit = Millilitre\<rparr>, v2PackageCount = 4,
        v2Purchased = \<lparr>measureAmount = 4000, measureUnit = Millilitre\<rparr>, v2Surplus = \<lparr>measureAmount = 0, measureUnit = Millilitre\<rparr>\<rparr>,
     a2Checkout = \<lparr>ordinaryTotalOre = 8000, savingOre = 1000, checkoutTotalOre = 7000, appliedOfferId = Some ''offer''\<rparr>,
     a2Offer = Some \<lparr>referenceId = ''offer'', referenceSourceId = ''tjek'', referenceRecordId = ''r1'',
        referenceCapturedAt = ''2026-07-15T00:00:00.000Z''\<rparr>\<rparr>"

definition exampleTripPlan :: plan_v2 where
  "exampleTripPlan = \<lparr>p2Id = ''p1'', p2Assignments = [exampleTripAssignment], p2TotalOre = 7000, p2Chains = [Extra],
     p2Substitutions = [], p2Freshness = [(''n1'', ''eligible'')]\<rparr>"

definition exampleTripProduct :: product_summary where
  "exampleTripProduct = \<lparr>summaryCatalog = \<lparr>proofObservedAt = ''2026-07-16T00:00:00.000Z'',
        proofSource = \<lparr>apiSourceId = ''kassalapp'', apiSourceName = ''Kassalapp'', apiSourceClass = CatalogClass\<rparr>,
        proofRecordId = ''source-record:'' @ replicate 64 CHR ''0''\<rparr>,
     summaryGtin = ''7038010000010'', summaryName = ''Melk'', summaryBrand = None,
     summaryMeasure = Some \<lparr>measureAmount = 1000, measureUnit = Millilitre\<rparr>, summaryUnits = 1\<rparr>"

definition exampleTripInput :: trip_input_v2 where
  "exampleTripInput = \<lparr>inputId = ''trip'', inputCreatedAt = ''2026-07-16T12:05:00.000Z'', inputEvaluatedAt = ''2026-07-16T12:00:00.000Z'',
     inputExpiresAt = ''2026-07-18T00:00:00.000Z'', inputCaveats = [], inputPlan = exampleTripPlan, inputProducts = [exampleTripProduct],
     inputNavigation = CreatePriceOnly, inputMemberships = [], inputAttestation = Some exampleTripAttestation,
     inputMarket = LaunchRegionMarket ''NO'' ''no-5001-trondheim'',
     inputPurchases = [\<lparr>purchaseNeedId = ''n1'', purchaseEvidencePrice = exampleTripPrice, purchaseEvidenceOffer = Some exampleOffer\<rparr>],
     inputReviewed = None\<rparr>"


definition exampleTripItem :: trip_item_v2 where
  "exampleTripItem = \<lparr>itemId = ''check:a6f81842eb6affe3'', itemNeedId = ''n1'', itemProductId = ''milk'', itemGtin = ''7038010000010'',
     itemChain = Extra, itemLabel = ''Melk'',
     itemPurchase = \<lparr>purchaseRequested = \<lparr>measureAmount = 4000, measureUnit = Millilitre\<rparr>,
       purchasePackage = \<lparr>measureAmount = 1000, measureUnit = Millilitre\<rparr>, purchaseCount = 4,
       purchasePurchased = \<lparr>measureAmount = 4000, measureUnit = Millilitre\<rparr>, purchaseSurplus = \<lparr>measureAmount = 0, measureUnit = Millilitre\<rparr>,
       purchaseOrdinaryOre = 8000, purchaseCheckoutOre = 7000, purchaseSavedOre = 1000, purchaseObservedAt = ''2026-07-16T06:00:00.000Z'',
       purchasePrice = exampleTripPrice, purchaseOffer = Some exampleOffer\<rparr>\<rparr>"

definition exampleTrip :: trip_v2 where
  "exampleTrip = \<lparr>tripId = ''trip'', tripCreatedAt = ''2026-07-16T12:05:00.000Z'', tripEvaluatedAt = ''2026-07-16T12:00:00.000Z'',
     tripExpiresAt = ''2026-07-18T00:00:00.000Z'', tripCaveats = [], tripPlan = exampleTripPlan, tripProducts = [exampleTripProduct],
     tripItems = [exampleTripItem], tripNavigation = PriceOnlyNavigation [\<lparr>chainStopChain = Extra, chainStopName = ''Extra''\<rparr>],
     tripMemberships = [], tripAttestation = Some exampleTripAttestation, tripMarket = LaunchRegionMarket ''NO'' ''no-5001-trondheim'',
     tripReviewed = None\<rparr>"

lemma exampleTrip_plan: "planResultV2Schema exampleTripPlan = Some exampleTripPlan" by code_simp
lemma exampleTrip_product: "exactProductPlanApiProductSummarySchema exampleTripProduct = Some exampleTripProduct" by code_simp
lemma exampleTrip_attestation: "geographicDirectoryRegionAttestationV1Schema exampleTripAttestation = Some exampleTripAttestation" by code_simp
lemma exampleTrip_price: "priceEvidenceSchema exampleTripPrice = Some exampleTripPrice" by code_simp
lemma exampleTrip_offer: "officialOfferSchema exampleOffer = Some exampleOffer" by code_simp
lemma exampleTrip_market: "marketContextV1Schema (LaunchRegionMarket ''NO'' ''no-5001-trondheim'') = Some (LaunchRegionMarket ''NO'' ''no-5001-trondheim'')" by code_simp

lemma exampleTrip_checklistId: "stableChecklistId ''p1'' ''n1'' = ''check:a6f81842eb6affe3''"
  by code_simp

lemma exampleTrip_location: "tripLocation exampleTrip = \<lparr>locationCountry = ''NO'', locationRegion = Some ''no-5001-trondheim'',
     locationPostal = None, locationStore = None\<rparr>"
  by (simp add: tripLocation_def exampleTrip_def)

definition exampleTripDirectory :: directory_evidence where
  "exampleTripDirectory = AvailableDirectory
     \<lparr>directoryCountry = ''NO'', directoryVersionId = ''v1'', directoryEvidenceReference = ''register'',
      directoryPublishedAt = ''2026-07-01T00:00:00.000Z'', directoryRegions = [exampleTripRegion],
      directoryReviewedAt = ''2026-07-01T00:00:00.000Z'', directoryValidFrom = ''2026-07-01T00:00:00.000Z'',
      directoryValidUntil = Some ''2026-07-19T00:00:00.000Z''\<rparr> ''2026-07-16T12:00:00.000Z''"

lemma exampleTrip_directory: "tripDirectory exampleTrip = Some exampleTripDirectory"
  unfolding tripDirectory_def exampleTrip_location
  by (simp add: exampleTrip_def attestation_accepted [OF exampleTrip_attestation] exampleTripDirectory_def)
    (simp add: exampleTripAttestation_def exampleTripRegion_def exampleAttestation_def)

lemma exampleTrip_core: "refineTripSnapshotCore exampleTrip"
  by code_simp

lemma exampleTrip_attested: "attestationAccepted exampleTrip"
proof -
  have "dateParse ''2026-07-18T00:00:00.000Z'' \<le> dateParse ''2026-07-19T00:00:00.000Z''" by code_simp
  then show ?thesis unfolding attestationAccepted_def exampleTrip_directory
    by (simp add: exampleTrip_def exampleTripAttestation_def exampleAttestation_def)
qed

lemma exampleTrip_current: "currentProduct exampleTrip exampleTripProduct"
  by code_simp

lemma exampleTrip_mirrors: "mirrorsPurchase exampleTrip exampleTripAssignment exampleTripProduct exampleTripItem"
  by code_simp

lemma exampleTrip_priceAccepted: "priceAccepted exampleTrip exampleTripAssignment exampleTripItem"
  unfolding priceAccepted_def priceContext_def exampleTrip_directory exampleTrip_location by code_simp

lemma exampleTrip_offerAccepted: "offerAccepted exampleTrip exampleTripAssignment exampleTripItem"
  unfolding offerAccepted_def tripCheckout_def offerContext_def exampleTrip_directory exampleTrip_location by code_simp

lemma exampleTrip_item: "tripChecklistItemV2Schema exampleTripItem = Some exampleTripItem"
proof -
  have "tripPurchaseTermsV2Schema (itemPurchase exampleTripItem) = Some (itemPurchase exampleTripItem)"
    unfolding tripPurchaseTermsV2Schema_def exampleTripItem_def
    by (simp add: exampleTrip_price exampleTrip_offer packageMeasureSchema_def normalizedMeasureUnit_def nonNegativeMeasureSchema_def
        positiveSafeInteger_def moneyOreSchema_def) code_simp
  moreover have "tripChecklistItemV1Schema exampleTripItem = Some exampleTripItem"
    unfolding tripChecklistItemV1Schema_def exampleTripItem_def by simp code_simp
  ultimately show ?thesis by (simp add: tripChecklistItemV2Schema_def)
qed

lemma exampleTrip_itemAccepted: "itemAccepted exampleTrip exampleTripItem"
proof -
  have "map_of (byKey a2NeedId (p2Assignments (tripPlan exampleTrip))) (itemNeedId exampleTripItem) = Some exampleTripAssignment"
    "map_of (byKey summaryGtin (tripProducts exampleTrip)) (itemGtin exampleTripItem) = Some exampleTripProduct"
    by (simp_all add: byKey_lookup exampleTrip_def exampleTripPlan_def exampleTripAssignment_def exampleTripProduct_def exampleTripItem_def)
  then show ?thesis by (simp add: itemAccepted_def exampleTrip_mirrors exampleTrip_priceAccepted exampleTrip_offerAccepted)
qed

lemma exampleTrip_accepted: "tripSnapshotV2Schema h exampleTrip = Some exampleTrip"
proof -
  have "tripNavigationV2Schema (tripNavigation exampleTrip) = Some (tripNavigation exampleTrip)"
    "identifierSchema (tripId exampleTrip) = Some (tripId exampleTrip)"
    "canonicalTimestamp (tripCreatedAt exampleTrip)" "canonicalTimestamp (tripEvaluatedAt exampleTrip)"
    "canonicalTimestamp (tripExpiresAt exampleTrip)" by code_simp+
  then have "tripObjectSchema tripChecklistItemV2Schema tripNavigationV2Schema exampleTrip = Some exampleTrip"
    by (simp add: tripObjectSchema_def exampleTrip_plan exampleTrip_product exampleTrip_item exampleTrip_def)
  moreover have "enabledMembershipProgramIdsSchema []" by code_simp
  moreover have "tripAttestation exampleTrip = Some exampleTripAttestation" "tripMarket exampleTrip = LaunchRegionMarket ''NO'' ''no-5001-trondheim''"
    "tripReviewed exampleTrip = None" "tripMemberships exampleTrip = []" by (simp_all add: exampleTrip_def)
  ultimately have "tripSnapshotV2ObjectSchema h exampleTrip = Some exampleTrip"
    by (simp add: tripSnapshotV2ObjectSchema_def exampleTrip_attestation exampleTrip_market del: marketContextV1Schema.simps)
  moreover have "p2Substitutions (tripPlan exampleTrip) = []" "tripReviewed exampleTrip = None" "tripProducts exampleTrip = [exampleTripProduct]"
    "tripItems exampleTrip = [exampleTripItem]" by (simp_all add: exampleTrip_def exampleTripPlan_def)
  moreover from this have "tripSnapshotV2Refinement exampleTrip"
    by (simp add: tripSnapshotV2Refinement_def refineReviewedFamilyEvidence_def exampleTrip_core exampleTrip_attested exampleTrip_current
        exampleTrip_itemAccepted)
  ultimately show ?thesis by (simp add: tripSnapshotV2Schema_def)
qed

theorem trip_holds_until_expiry_witness:
  "recomputedCheckout (asOf ''2026-07-17T23:59:59.999Z'' exampleTrip) exampleTripAssignment (itemPurchase exampleTripItem)
     = Inr \<lparr>ordinaryTotalOre = 8000, savingOre = 1000, checkoutTotalOre = 7000, appliedOfferId = Some ''offer''\<rparr>"
proof -
  have "canonicalTimestamp ''2026-07-17T23:59:59.999Z''"
    "dateParse (tripEvaluatedAt exampleTrip) \<le> dateParse ''2026-07-17T23:59:59.999Z''"
    "dateParse ''2026-07-17T23:59:59.999Z'' < dateParse (tripExpiresAt exampleTrip)" by code_simp+
  note holds = trip_holds_until_expiry [OF exampleTrip_accepted this]
  have "exampleTripAssignment \<in> set (p2Assignments (tripPlan exampleTrip))" "set (tripItems exampleTrip) = {exampleTripItem}"
    by (simp_all add: exampleTrip_def exampleTripPlan_def)
  with holds have "recomputedCheckout (asOf ''2026-07-17T23:59:59.999Z'' exampleTrip) exampleTripAssignment (itemPurchase exampleTripItem)
     = Inr (a2Checkout exampleTripAssignment)" by (auto dest!: bspec [where x = exampleTripAssignment])
  then show ?thesis by (simp add: exampleTripAssignment_def)
qed

section \<open>The bill\<close>

lemma sum_by_key:
  fixes f :: "'a \<Rightarrow> int"
  assumes d: "distinct (map k xs)" "distinct (map l ys)" and same: "set (map k xs) = set (map l ys)"
    and eq: "\<And>x y. x \<in> set xs \<Longrightarrow> y \<in> set ys \<Longrightarrow> k x = l y \<Longrightarrow> f x = g y"
  shows "sum_list (map f xs) = sum_list (map g ys)"
proof -
  have inj: "inj_on k (set xs)" "inj_on l (set ys)" using d by (simp_all add: distinct_map)
  have bij: "bij_betw k (set xs) (l ` set ys)" using inj(1) same by (simp add: bij_betw_def)
  let ?h = "\<lambda>x. the_inv_into (set ys) l (k x)"
  have "bij_betw ?h (set xs) (set ys)"
    using bij_betw_trans [OF bij bij_betw_the_inv_into [OF bij_betw_imageI [OF inj(2) refl]]] by (simp add: comp_def)
  moreover have "g (?h x) = f x" if "x \<in> set xs" for x
  proof -
    have "k x \<in> l ` set ys" using that same by auto
    then have "?h x \<in> set ys" "l (?h x) = k x"
      using the_inv_into_into [OF inj(2)] f_the_inv_into_f [OF inj(2)] by auto
    then show ?thesis using eq [OF that, of "?h x"] by simp
  qed
  ultimately have "sum f (set xs) = sum g (set ys)"
    using sum.reindex_bij_betw [of ?h "set xs" "set ys" g] by simp
  moreover have "distinct xs" "distinct ys" using d by (simp_all add: distinct_map)
  ultimately show ?thesis by (simp add: sum_list_distinct_conv_sum_set)
qed

lemma foldl_plus_int: "foldl (\<lambda>t a. t + f a) (n :: int) xs = n + sum_list (map f xs)"
  by (induction xs arbitrary: n) simp_all

text \<open>What an accepted item says about its assignment.\<close>

definition billed :: "assignment_v2 \<Rightarrow> trip_item_v2 \<Rightarrow> bool" where
  "billed a item \<longleftrightarrow>
     itemNeedId item = a2NeedId a \<and> itemProductId item = a2ProductId a \<and> itemGtin item = a2Ean a \<and> itemChain item = a2Chain a
     \<and> purchaseCount (itemPurchase item) = v2PackageCount (a2Fulfilment a) \<and> purchasePurchased (itemPurchase item) = v2Purchased (a2Fulfilment a)
     \<and> purchaseOrdinaryOre (itemPurchase item) = evidenceAmountOre (purchasePrice (itemPurchase item)) * purchaseCount (itemPurchase item)
     \<and> purchaseCheckoutOre (itemPurchase item) = a2CostOre a
     \<and> purchaseOrdinaryOre (itemPurchase item) - purchaseSavedOre (itemPurchase item) = a2CostOre a"

lemma trip_item_billed:
  assumes trip: "tripSnapshotV2Schema h raw = Some s" and i: "i \<in> set (tripItems s)"
  obtains a where "a \<in> set (p2Assignments (tripPlan s))" "billed a i"
proof -
  note ok = tripV2_accepted [OF trip]
  note refined = ok(2) [unfolded tripSnapshotV2Refinement_def list_all_iff]
  have core: "refineTripSnapshotCore s" using refined by simp
  obtain a product where a: "a \<in> set (p2Assignments (tripPlan s))" and f: "itemFor a product i"
      and m: "map_of (byKey a2NeedId (p2Assignments (tripPlan s))) (itemNeedId i) = Some a"
      "map_of (byKey summaryGtin (tripProducts s)) (itemGtin i) = Some product" by (rule core_item [OF core ok(1) i])
  have "planAssignmentV2Schema a = Some a" using planResultV2_fixedE(2) [OF ok(1)] a by (simp add: parseAll_fixed)
  note r = assignment_fixedE(6) [OF this] plan_assignments(2) [OF ok(1) a]
  have "itemAccepted s i" using refined i by blast
  then have "priceAccepted s a i" "mirrorsPurchase s a product i" by (simp_all add: itemAccepted_def m)
  then have "billed a i" using f r
    by (simp add: billed_def itemFor_def priceAccepted_def mirrorsPurchase_def Let_def assignmentV2Refinement_def)
  with a show thesis by (rule that)
qed

text \<open>
  C37. What the shopper reads off the checklist is what the plan promised: the items of an accepted trip are one for every assignment, with
  its product, quantities and prices; their checkout totals add up to the total of the plan, and their ordinary totals to that total and what
  the offers save.
\<close>

theorem trip_bill:
  assumes "tripSnapshotV2Schema h raw = Some s"
  shows "length (tripItems s) = length (p2Assignments (tripPlan s))
    \<and> (\<forall>item \<in> set (tripItems s). \<exists>a \<in> set (p2Assignments (tripPlan s)). billed a item)
    \<and> sum_list (map (purchaseCheckoutOre \<circ> itemPurchase) (tripItems s)) = p2TotalOre (tripPlan s)
    \<and> sum_list (map (purchaseOrdinaryOre \<circ> itemPurchase) (tripItems s))
        = p2TotalOre (tripPlan s) + sum_list (map (purchaseSavedOre \<circ> itemPurchase) (tripItems s))"
proof -
  note ok = tripV2_accepted [OF assms]
  have core: "refineTripSnapshotCore s" using ok(2) by (simp add: tripSnapshotV2Refinement_def)
  note d = core_distinct [OF core ok(1)]
  have sums: "sum_list (map f (tripItems s)) = sum_list (map a2CostOre (p2Assignments (tripPlan s)))"
    if f: "\<And>a i. billed a i \<Longrightarrow> f i = a2CostOre a" for f
  proof (rule sum_by_key [OF d(3) d(1) core_needs [OF core ok(1)]])
    fix i a assume i: "i \<in> set (tripItems s)" and a: "a \<in> set (p2Assignments (tripPlan s))" "itemNeedId i = a2NeedId a"
    obtain b where b: "b \<in> set (p2Assignments (tripPlan s))" "billed b i" by (rule trip_item_billed [OF assms i])
    then have "b = a" using a d(1) by (auto simp: billed_def distinct_map dest: inj_onD)
    then show "f i = a2CostOre a" using f b(2) by simp
  qed
  have total: "sum_list (map a2CostOre (p2Assignments (tripPlan s))) = p2TotalOre (tripPlan s)"
    using planResultV2_fixedE(12) [OF ok(1)] by (simp add: planResultV2Refinement_def Let_def foldl_plus_int)
  have "sum_list (map (\<lambda>i. purchaseOrdinaryOre (itemPurchase i) - purchaseSavedOre (itemPurchase i)) (tripItems s)) = p2TotalOre (tripPlan s)"
    "sum_list (map (purchaseCheckoutOre \<circ> itemPurchase) (tripItems s)) = p2TotalOre (tripPlan s)"
    unfolding total [symmetric] by (rule sums; unfold billed_def comp_def; blast)+
  moreover have "length (tripItems s) = length (p2Assignments (tripPlan s))" using core by (simp add: refineTripSnapshotCore_def Let_def)
  moreover have "\<exists>a \<in> set (p2Assignments (tripPlan s)). billed a i" if "i \<in> set (tripItems s)" for i
    by (rule trip_item_billed [OF assms that]) blast
  ultimately show ?thesis by (simp add: sum_list_subtractf comp_def)
qed

theorem trip_bill_witness:
  "sum_list (map (purchaseOrdinaryOre \<circ> itemPurchase) (tripItems exampleTrip))
     = 7000 + sum_list (map (purchaseSavedOre \<circ> itemPurchase) (tripItems exampleTrip))"
proof -
  have "p2TotalOre (tripPlan exampleTrip) = 7000" by (simp add: exampleTrip_def exampleTripPlan_def)
  then show ?thesis using trip_bill [OF exampleTrip_accepted] by simp
qed

end
