(* ===== verification/Trip_Create.thy ===== *)
theory Trip_Create
  imports Trip_Correct
begin

text \<open>
  When \<open>createTripSnapshot\<close> gives a trip, and which. The identifiers of the checklist are 64-bit hashes, so that two needs of one plan may
  collide: then nothing is created.
\<close>

section \<open>Parts\<close>

lemma catalogProof_idem:
  assumes "exactProductPlanApiCatalogEvidenceSchema a = Some b"
  shows "exactProductPlanApiCatalogEvidenceSchema b = Some b"
proof -
  obtain i n where p: "sourceIdSchema (apiSourceId (proofSource a)) = Some i" "nonEmptyStringSchema (apiSourceName (proofSource a)) = Some n"
    and r: "canonicalTimestamp (proofObservedAt a)" "sourceRecordShape (proofRecordId a)"
    and b: "b = a\<lparr>proofSource := (proofSource a)\<lparr>apiSourceId := i, apiSourceName := n\<rparr>\<rparr>"
    using assms by (auto simp: exactProductPlanApiCatalogEvidenceSchema_def exactProductPlanApiEvidenceSourceSchema_def
        split: option.splits if_splits)
  show ?thesis using r sourceIdSchema_idem [OF p(1)] nonEmptyStringSchema_idem [OF p(2)]
    by (simp add: exactProductPlanApiCatalogEvidenceSchema_def exactProductPlanApiEvidenceSourceSchema_def b)
qed

lemma productSummary_idem:
  assumes "exactProductPlanApiProductSummarySchema a = Some b"
  shows "exactProductPlanApiProductSummarySchema b = Some b"
    and "nonEmptyStringSchema (summaryName b) = Some (summaryName b)"
proof -
  obtain e g n d m where p: "exactProductPlanApiCatalogEvidenceSchema (summaryCatalog a) = Some e" "gtinSchema (summaryGtin a) = Some g"
      "nonEmptyStringSchema (summaryName a) = Some n" "parseOptional nonEmptyStringSchema (summaryBrand a) = Some d"
      "parseOptional packageMeasureSchema (summaryMeasure a) = Some m" "positiveSafeInteger (summaryUnits a)"
    and b: "b = a\<lparr>summaryCatalog := e, summaryGtin := g, summaryName := n, summaryBrand := d, summaryMeasure := m\<rparr>"
    using assms by (auto simp: exactProductPlanApiProductSummarySchema_def simp del: parseOptional.simps split: option.splits if_splits)
  have "parseOptional nonEmptyStringSchema d = Some d" by (rule parseOptional_idem [OF p(4)]) (rule nonEmptyStringSchema_idem)
  moreover have "parseOptional packageMeasureSchema m = Some m" by (rule parseOptional_idem [OF p(5)]) (rule measure_idem)
  ultimately show "exactProductPlanApiProductSummarySchema b = Some b"
    using p(6) catalogProof_idem [OF p(1)] gtinSchema_idem [OF p(2)] nonEmptyStringSchema_idem [OF p(3)]
    by (simp add: exactProductPlanApiProductSummarySchema_def b)
  show "nonEmptyStringSchema (summaryName b) = Some (summaryName b)" using nonEmptyStringSchema_idem [OF p(3)] by (simp add: b)
qed

lemma checklistId_shape: "length (stableChecklistId p n) = 22" "boundedText 1 300 (stableChecklistId p n) = Some (stableChecklistId p n)"
proof -
  obtain w :: "64 word" where w: "stableChecklistId p n
      = ''check:'' @ replicate (16 - length (baseText 16 (uint w))) CHR ''0'' @ baseText 16 (uint w)"
    unfolding stableChecklistId_def Let_def by blast
  have "uint w < 16 ^ Suc 15" using uint_lt2p [of w] by simp
  then have "length (baseText 16 (uint w)) \<le> 16" using baseText_length [of 16 "uint w" 15] by simp
  then show len: "length (stableChecklistId p n) = 22" by (simp add: w)
  have "list_all (\<lambda>c. \<not> isJsSpace c) (baseText 16 (uint w))" by (rule baseText_plain) simp_all
  then have "list_all (\<lambda>c. \<not> isJsSpace c) (stableChecklistId p n)" by (auto simp: w isJsSpace_def list_all_iff Let_def)
  then have "trim (stableChecklistId p n) = stableChecklistId p n" by (rule trim_no_space)
  then show "boundedText 1 300 (stableChecklistId p n) = Some (stableChecklistId p n)" by (simp add: boundedText_iff len)
qed

lemma byKey_None: "map_of (byKey key xs) k = None \<longleftrightarrow> k \<notin> key ` set xs"
  using keys_newMap [of "map (\<lambda>x. (key x, x)) xs"] by (simp add: byKey_def map_of_eq_None_iff image_comp comp_def)

lemma byKey_in: "map_of (byKey key xs) k = Some x \<Longrightarrow> x \<in> set xs \<and> key x = k"
  unfolding byKey_def by (auto dest!: map_of_SomeD newMap_entry)

lemma createdItem_schema:
  assumes a: "planAssignmentV2Schema a = Some a" and ps: "\<And>p. p \<in> set ps \<Longrightarrow> nonEmptyStringSchema (summaryName p) = Some (summaryName p)"
  shows "tripChecklistItemV1Schema (createdItem plan ps a) = (if a2Ean a \<in> summaryGtin ` set ps then Some (createdItem plan ps a) else None)"
proof -
  note e = assignment_fixedE [OF a]
  have empty: "nonEmptyStringSchema [] = None" by code_simp
  show ?thesis
  proof (cases "map_of (byKey summaryGtin ps) (a2Ean a)")
    case None
    then have "a2Ean a \<notin> summaryGtin ` set ps" unfolding byKey_None .
    with None show ?thesis using e(1-3)
      by (simp add: tripChecklistItemV1Schema_def createdItem_def checklistId_shape(2) [unfolded One_nat_def] empty)
  next
    case (Some p)
    then have p: "p \<in> set ps" "summaryGtin p = a2Ean a" using byKey_in [OF Some] by simp_all
    then have "a2Ean a \<in> summaryGtin ` set ps" by force
    with p Some show ?thesis using e(1-3) ps
      by (auto simp: tripChecklistItemV1Schema_def createdItem_def checklistId_shape(2) [unfolded One_nat_def])
  qed
qed

lemma parseAll_guarded:
  assumes "\<And>x. x \<in> set xs \<Longrightarrow> schema x = (if P x then Some x else None)"
  shows "parseAll schema xs = (if list_all P xs then Some xs else None)"
  using assms by (induction xs) auto

lemma chainStops_fixed: "parseAll priceOnlyStopSchema (map (\<lambda>c. \<lparr>chainStopChain = c, chainStopName = CHAIN_NAMES c\<rparr>) cs)
    = Some (map (\<lambda>c. \<lparr>chainStopChain = c, chainStopName = CHAIN_NAMES c\<rparr>) cs)"
proof -
  have "nonEmptyStringSchema (CHAIN_NAMES c) = Some (CHAIN_NAMES c)" for c by (cases c; simp only: CHAIN_NAMES.simps; code_simp)
  then show ?thesis by (auto simp: parseAll_fixed priceOnlyStopSchema_def)
qed

lemma priceOnly_navigation:
  assumes "planResultV2Schema plan = Some plan"
  shows "tripNavigationV1Schema (createdNavigation plan CreatePriceOnly) = Some (createdNavigation plan CreatePriceOnly)"
  using planResultV2_fixedE(9,10) [OF assms]
  by (simp add: tripNavigationV1Schema_def atMost3_def chainStops_fixed)

lemma priceOnly_stops:
  assumes "planResultV2Schema plan = Some plan"
  shows "map chainText (stopChains (createdNavigation plan CreatePriceOnly)) = sortedText (map chainText (p2Chains plan))"
    "distinct (map chainText (stopChains (createdNavigation plan CreatePriceOnly)))"
  using planResultV2_fixedE(12) [OF assms]
  by (simp_all add: sortedText_def sort_by_map comp_def planResultV2Refinement_def Let_def)

lemma sortedText_again: "sortedText (sortedText xs) = sortedText xs"
  unfolding sortedText_def by (rule by_text.sort_by_again)

lemma sortedText_eq: "distinct xs \<Longrightarrow> distinct ys \<Longrightarrow> sortedText xs = sortedText ys \<longleftrightarrow> set xs = set ys"
  unfolding sortedText_def by (rule sort_text_eq)

lemma created_mirrors:
  assumes needs: "distinct (map a2NeedId (p2Assignments plan))" and gtins: "distinct (map summaryGtin ps)"
    and a: "a \<in> set (p2Assignments plan)" and found: "a2Ean a \<in> summaryGtin ` set ps"
  shows "mirrorsPlan plan ps (createdItem plan ps a)"
proof -
  have m: "map_of (byKey a2NeedId (p2Assignments plan)) (a2NeedId a) = Some a" using a by (simp add: byKey_lookup [OF needs])
  obtain p where p: "map_of (byKey summaryGtin ps) (a2Ean a) = Some p" using found byKey_None [of summaryGtin ps "a2Ean a"] by (cases "map_of (byKey summaryGtin ps) (a2Ean a)") auto
  show ?thesis using m p by (simp add: mirrorsPlan_def createdItem_def byKey_def)
qed

text \<open>The trip before its identifier and its caveats are parsed.\<close>

definition priceOnlyTrip :: "trip_input \<Rightarrow> string \<Rightarrow> string list \<Rightarrow> plan_v2 \<Rightarrow> product_summary list \<Rightarrow> trip_item trip" where
  "priceOnlyTrip input i caveats plan ps =
     \<lparr>tripId = i, tripCreatedAt = inputCreatedAt input, tripEvaluatedAt = inputEvaluatedAt input, tripExpiresAt = inputExpiresAt input,
      tripCaveats = caveats, tripPlan = plan, tripProducts = ps, tripItems = map (createdItem plan ps) (p2Assignments plan),
      tripNavigation = createdNavigation plan CreatePriceOnly\<rparr>"

lemma created_core:
  assumes plan: "planResultV2Schema plan = Some plan"
    and found: "\<And>a. a \<in> set (p2Assignments plan) \<Longrightarrow> a2Ean a \<in> summaryGtin ` set ps"
  shows "refineTripSnapshotCore (priceOnlyTrip input i caveats plan ps) \<longleftrightarrow>
    dateParse (inputEvaluatedAt input) \<le> dateParse (inputCreatedAt input) \<and> dateParse (inputCreatedAt input) < dateParse (inputExpiresAt input)
    \<and> distinct caveats \<and> distinct (map summaryGtin ps) \<and> summaryGtin ` set ps = a2Ean ` set (p2Assignments plan)
    \<and> distinct (map (\<lambda>a. stableChecklistId (p2Id plan) (a2NeedId a)) (p2Assignments plan))"
proof -
  have needs: "distinct (map a2NeedId (p2Assignments plan))"
    using planResultV2_fixedE(12) [OF plan] by (simp add: planResultV2Refinement_def Let_def)
  have ids: "map itemNeedId (map (createdItem plan ps) (p2Assignments plan)) = map a2NeedId (p2Assignments plan)"
    "map itemId (map (createdItem plan ps) (p2Assignments plan)) = map (\<lambda>a. stableChecklistId (p2Id plan) (a2NeedId a)) (p2Assignments plan)"
    by (simp_all add: createdItem_def comp_def)
  have gtins: "length (map summaryGtin ps) = length (sortedText (uniq (map a2Ean (p2Assignments plan))))
        \<and> sortedText (map summaryGtin ps) = sortedText (uniq (map a2Ean (p2Assignments plan)))
      \<longleftrightarrow> summaryGtin ` set ps = a2Ean ` set (p2Assignments plan)" if "distinct (map summaryGtin ps)"
    using sortedText_eq [OF that distinct_uniq [of "map a2Ean (p2Assignments plan)"]] by (auto simp: sortedText_def dest: arg_cong [of _ _ length])
  have "list_all (mirrorsPlan plan ps) (map (createdItem plan ps) (p2Assignments plan))" if "distinct (map summaryGtin ps)"
    using created_mirrors [OF needs that] found by (auto simp: list_all_iff)
  moreover have "(case createdNavigation plan CreatePriceOnly of PriceOnlyNavigation _ \<Rightarrow> True | RoutedNavigation x y \<Rightarrow> P x y) = True" for P
    by simp
  moreover have "distinct (sortedText (map chainText (p2Chains plan)))" using priceOnly_stops [OF plan] by metis
  ultimately show ?thesis
    using needs gtins unfolding refineTripSnapshotCore_def priceOnlyTrip_def Let_def trip.simps ids
    by (auto simp: sameSequence_iff priceOnly_stops [OF plan] sortedText_again simp del: createdNavigation.simps)
qed

lemma created_object:
  assumes plan: "planResultV2Schema plan = Some plan" and ps: "\<And>p. p \<in> set ps \<Longrightarrow> exactProductPlanApiProductSummarySchema p = Some p"
    and names: "\<And>p. p \<in> set ps \<Longrightarrow> nonEmptyStringSchema (summaryName p) = Some (summaryName p)"
  shows "tripObjectSchema tripChecklistItemV1Schema tripNavigationV1Schema (priceOnlyTrip input i caveats plan ps) = Some s \<longleftrightarrow>
    (\<exists>j cs. identifierSchema i = Some j \<and> parseAll nonEmptyStringSchema caveats = Some cs \<and> length cs \<le> 10 \<and> 1 \<le> length ps \<and> length ps \<le> 50
      \<and> canonicalTimestamp (inputCreatedAt input) \<and> canonicalTimestamp (inputEvaluatedAt input) \<and> canonicalTimestamp (inputExpiresAt input)
      \<and> (\<forall>a \<in> set (p2Assignments plan). a2Ean a \<in> summaryGtin ` set ps) \<and> s = priceOnlyTrip input j cs plan ps)"
proof -
  have fixed: "\<And>a. a \<in> set (p2Assignments plan) \<Longrightarrow> planAssignmentV2Schema a = Some a"
    using planResultV2_fixedE(2) [OF plan] by (simp add: parseAll_fixed)
  have items: "parseAll tripChecklistItemV1Schema (map (createdItem plan ps) (p2Assignments plan))
      = (if list_all (\<lambda>t. itemGtin t \<in> summaryGtin ` set ps) (map (createdItem plan ps) (p2Assignments plan))
         then Some (map (createdItem plan ps) (p2Assignments plan)) else None)"
  proof (rule parseAll_guarded)
    fix x assume "x \<in> set (map (createdItem plan ps) (p2Assignments plan))"
    then obtain a where a: "a \<in> set (p2Assignments plan)" "x = createdItem plan ps a" by auto
    show "tripChecklistItemV1Schema x = (if itemGtin x \<in> summaryGtin ` set ps then Some x else None)"
      using createdItem_schema [where plan = plan and ps = ps, OF fixed [OF a(1)] names] by (simp add: a(2)) (simp add: createdItem_def)
  qed
  have products': "parseAll exactProductPlanApiProductSummarySchema ps = Some ps" using ps by (simp add: parseAll_fixed)
  have count: "1 \<le> length (p2Assignments plan)" "length (p2Assignments plan) \<le> 50" using planResultV2_fixedE(6,7) [OF plan] by simp_all
  have found: "list_all (\<lambda>t. itemGtin t \<in> summaryGtin ` set ps) (map (createdItem plan ps) (p2Assignments plan))
      \<longleftrightarrow> (\<forall>a \<in> set (p2Assignments plan). a2Ean a \<in> summaryGtin ` set ps)"
    by (simp add: list_all_iff createdItem_def)
  show ?thesis
    using count unfolding tripObjectSchema_def priceOnlyTrip_def trip.simps items found products' plan priceOnly_navigation [OF plan]
    by (auto split: option.splits simp del: createdNavigation.simps)
qed

definition creatable :: "trip_input \<Rightarrow> plan_v2 \<Rightarrow> product_summary list \<Rightarrow> string list \<Rightarrow> bool" where
  "creatable input plan ps caveats \<longleftrightarrow>
     length caveats \<le> 10 \<and> distinct caveats
     \<and> canonicalTimestamp (inputCreatedAt input) \<and> canonicalTimestamp (inputEvaluatedAt input) \<and> canonicalTimestamp (inputExpiresAt input)
     \<and> dateParse (inputEvaluatedAt input) \<le> dateParse (inputCreatedAt input) \<and> dateParse (inputCreatedAt input) < dateParse (inputExpiresAt input)
     \<and> distinct (map summaryGtin ps) \<and> summaryGtin ` set ps = a2Ean ` set (p2Assignments plan)
     \<and> distinct (map (\<lambda>a. stableChecklistId (p2Id plan) (a2NeedId a)) (p2Assignments plan))"

lemma creatable_size:
  assumes "creatable input plan ps caveats" and "planResultV2Schema plan = Some plan"
  shows "1 \<le> length ps" "length ps \<le> 50"
proof -
  have d: "distinct (map summaryGtin ps)" "summaryGtin ` set ps = a2Ean ` set (p2Assignments plan)" using assms(1) by (simp_all add: creatable_def)
  have "length ps = card (a2Ean ` set (p2Assignments plan))" using d by (metis distinct_card length_map set_map)
  moreover have "card (a2Ean ` set (p2Assignments plan)) \<le> length (p2Assignments plan)" by (metis card_length length_map set_map)
  ultimately show "length ps \<le> 50" using planResultV2_fixedE(7) [OF assms(2)] by simp
  have "ps \<noteq> []" using d(2) planResultV2_fixedE(6) [OF assms(2)] by auto
  then show "1 \<le> length ps" by (cases ps) simp_all
qed

lemma created_schema:
  assumes plan: "planResultV2Schema plan = Some plan" and ps: "\<And>p. p \<in> set ps \<Longrightarrow> exactProductPlanApiProductSummarySchema p = Some p"
    and names: "\<And>p. p \<in> set ps \<Longrightarrow> nonEmptyStringSchema (summaryName p) = Some (summaryName p)"
  shows "tripSnapshotV1Schema (priceOnlyTrip input i caveats plan ps) = Some s \<longleftrightarrow>
    (\<exists>j cs. identifierSchema i = Some j \<and> parseAll nonEmptyStringSchema caveats = Some cs \<and> creatable input plan ps cs
      \<and> s = priceOnlyTrip input j cs plan ps)" (is "?created \<longleftrightarrow> ?rhs")
proof -
  note object = created_object [where i = i and caveats = caveats and s = s and input = input, OF plan ps names]
  have core: "refineTripSnapshotCore (priceOnlyTrip input j cs plan ps) \<and> length cs \<le> 10
      \<and> canonicalTimestamp (inputCreatedAt input) \<and> canonicalTimestamp (inputEvaluatedAt input) \<and> canonicalTimestamp (inputExpiresAt input)
    \<longleftrightarrow> creatable input plan ps cs" if "\<forall>a \<in> set (p2Assignments plan). a2Ean a \<in> summaryGtin ` set ps" for j cs
    using created_core [OF plan, of ps input j cs] that unfolding creatable_def by blast
  have split: "?created \<longleftrightarrow> tripObjectSchema tripChecklistItemV1Schema tripNavigationV1Schema (priceOnlyTrip input i caveats plan ps) = Some s
      \<and> refineTripSnapshotCore s"
    by (auto simp: tripSnapshotV1Schema_def split: option.splits if_splits)
  show ?thesis
  proof
    assume created: ?created
    then obtain j cs where c: "identifierSchema i = Some j" "parseAll nonEmptyStringSchema caveats = Some cs" "length cs \<le> 10"
        "canonicalTimestamp (inputCreatedAt input)" "canonicalTimestamp (inputEvaluatedAt input)" "canonicalTimestamp (inputExpiresAt input)"
        "\<forall>a \<in> set (p2Assignments plan). a2Ean a \<in> summaryGtin ` set ps" "s = priceOnlyTrip input j cs plan ps"
      using object unfolding split by blast
    moreover have "refineTripSnapshotCore s" using created unfolding split by simp
    ultimately show ?rhs using core [OF c(7), of j cs] by blast
  next
    assume ?rhs
    then obtain j cs where c: "identifierSchema i = Some j" "parseAll nonEmptyStringSchema caveats = Some cs" "creatable input plan ps cs"
      "s = priceOnlyTrip input j cs plan ps" by blast
    have f: "\<forall>a \<in> set (p2Assignments plan). a2Ean a \<in> summaryGtin ` set ps" using c(3) by (simp add: creatable_def)
    then show ?created unfolding split using object c core [OF f, of j cs] creatable_size [OF c(3) plan] by blast
  qed
qed

text \<open>
  C38. Exactly when a trip without a route is created from a plan, and which. The plan, the products, the identifier and at most ten
  different caveats must parse; the evaluation is not after the creation and the creation before the expiry; the products are the assigned
  ones, each once; and the hashes of the needs differ. The trip then lists the assignments in the order of the plan under the names of their
  products, and the chains of the plan as stops.
\<close>

theorem createTripSnapshot_iff:
  assumes nav: "inputNavigation input = CreatePriceOnly"
  shows "createTripSnapshot input = Some s \<longleftrightarrow>
    (\<exists>plan ps i caveats. planResultV2Schema (inputPlan input) = Some plan
      \<and> parseAll exactProductPlanApiProductSummarySchema (inputProducts input) = Some ps
      \<and> identifierSchema (inputId input) = Some i \<and> parseAll nonEmptyStringSchema (inputCaveats input) = Some caveats
      \<and> creatable input plan ps caveats \<and> s = priceOnlyTrip input i caveats plan ps)"
proof (cases "planResultV2Schema (inputPlan input)"; cases "parseAll exactProductPlanApiProductSummarySchema (inputProducts input)")
  fix plan ps assume p: "planResultV2Schema (inputPlan input) = Some plan"
    and q: "parseAll exactProductPlanApiProductSummarySchema (inputProducts input) = Some ps"
  have ps: "exactProductPlanApiProductSummarySchema x = Some x" "nonEmptyStringSchema (summaryName x) = Some (summaryName x)" if "x \<in> set ps" for x
    using parseAll_in [OF q that] productSummary_idem by blast+
  have "createTripSnapshot input = tripSnapshotV1Schema (priceOnlyTrip input (inputId input) (inputCaveats input) plan ps)"
    by (simp add: createTripSnapshot_def p q nav priceOnlyTrip_def)
  then show ?thesis using created_schema [where input = input and i = "inputId input" and caveats = "inputCaveats input" and s = s, OF planResultV2_idem [OF p] ps]
    by (simp add: p q)
qed (simp_all add: createTripSnapshot_def)

theorem createTripSnapshot_iff_witness:
  "\<exists>s. createTripSnapshot (trip_input.truncate exampleTripInput) = Some s \<and> map itemId (tripItems s) = [''check:a6f81842eb6affe3'']"
proof -
  let ?input = "trip_input.truncate exampleTripInput"
  have input: "inputNavigation ?input = CreatePriceOnly" "inputPlan ?input = exampleTripPlan" "inputProducts ?input = [exampleTripProduct]"
      "inputCaveats ?input = []" "inputId ?input = ''trip''" "inputCreatedAt ?input = ''2026-07-16T12:05:00.000Z''"
      "inputEvaluatedAt ?input = ''2026-07-16T12:00:00.000Z''" "inputExpiresAt ?input = ''2026-07-18T00:00:00.000Z''"
    by (simp_all add: exampleTripInput_def trip_input.defs)
  have "identifierSchema ''trip'' = Some ''trip''" "canonicalTimestamp ''2026-07-16T12:05:00.000Z''" "canonicalTimestamp ''2026-07-16T12:00:00.000Z''"
    "canonicalTimestamp ''2026-07-18T00:00:00.000Z''" "dateParse ''2026-07-16T12:00:00.000Z'' \<le> dateParse ''2026-07-16T12:05:00.000Z''"
    "dateParse ''2026-07-16T12:05:00.000Z'' < dateParse ''2026-07-18T00:00:00.000Z''" by code_simp+
  then have "creatable ?input exampleTripPlan [exampleTripProduct] []" "identifierSchema (inputId ?input) = Some ''trip''"
    by (simp_all add: input creatable_def exampleTripPlan_def exampleTripProduct_def exampleTripAssignment_def)
  then have "createTripSnapshot ?input = Some (priceOnlyTrip ?input ''trip'' [] exampleTripPlan [exampleTripProduct])"
    using createTripSnapshot_iff [OF input(1)] exampleTrip_plan exampleTrip_product by (simp add: input)
  moreover have "map itemId (tripItems (priceOnlyTrip ?input ''trip'' [] exampleTripPlan [exampleTripProduct])) = [''check:a6f81842eb6affe3'']"
    using exampleTrip_checklistId by (simp add: priceOnlyTrip_def exampleTripPlan_def createdItem_def exampleTripAssignment_def)
  ultimately show ?thesis by (intro exI conjI)
qed

end
