(* ===== verification/Trip_Reviewed.thy ===== *)
theory Trip_Reviewed
  imports Trip_Create
begin

text \<open>
  The reviewed-family evidence of a trip shows what was selected and nothing else: the prices and offers are those of the checklist, the
  memberships those of the products chosen for a reviewed family, and the substitutions of the plan the needs that asked for a family.
\<close>

section \<open>What the parts have checked\<close>

lemma family_no_separator: "familyIdentifierSchema f \<Longrightarrow> char_of (0 :: nat) \<notin> set f"
proof
  assume f: "familyIdentifierSchema f" and zero: "char_of (0 :: nat) \<in> set f"
  have plain: "\<not> (lowerAlnum (char_of (0 :: nat)) \<or> char_of (0 :: nat) = CHR ''-'')"
    by (simp add: lowerAlnum_def isDigit_def less_eq_char_def) code_simp
  have "list_all (\<lambda>c. lowerAlnum c \<or> c = CHR ''-'') (drop 7 f)"
    using f segmented_chars by (auto simp: familyIdentifierSchema_def slugShape_def)
  then have "char_of (0 :: nat) \<notin> set (drop 7 f)" using plain by (auto simp: list_all_iff)
  moreover have "char_of (0 :: nat) \<notin> set (take 7 f)" using f by (simp add: familyIdentifierSchema_def) code_simp
  ultimately show False using zero by (metis Un_iff append_take_drop_id set_append)
qed

lemma separated_eq:
  assumes "z \<notin> set xs" "z \<notin> set ys"
  shows "xs @ z # us = ys @ z # vs \<longleftrightarrow> xs = ys \<and> us = vs"
  using assms
proof (induction xs arbitrary: ys)
  case Nil
  then show ?case by (cases ys) auto
next
  case (Cons x xs)
  show ?case
  proof (cases ys)
    case (Cons y ys')
    then show ?thesis using Cons.IH [of ys'] Cons.prems by auto
  qed (use Cons.prems in auto)
qed

lemma membershipKey_eq:
  assumes "familyIdentifierSchema f" "familyIdentifierSchema g"
  shows "reviewedMembershipKey f p = reviewedMembershipKey g q \<longleftrightarrow> f = g \<and> p = q"
  using separated_eq [OF family_no_separator [OF assms(1)] family_no_separator [OF assms(2)]]
  by (simp add: reviewedMembershipKey_def)

lemma referenceKey_eq: "referenceKey i n c = referenceKey i m d \<longleftrightarrow> n = m \<and> c = d"
proof -
  have plain: "char_of (0 :: nat) \<notin> set (chainText c)" for c by (cases c; simp only: chainText.simps; code_simp)
  have "n @ char_of (0 :: nat) # chainText c = m @ char_of (0 :: nat) # chainText d
      \<longleftrightarrow> rev (chainText c) @ char_of (0 :: nat) # rev n = rev (chainText d) @ char_of (0 :: nat) # rev m"
    by (metis append_Cons append_Nil append_assoc rev_append rev_rev_ident rev.simps(2))
  also have "\<dots> \<longleftrightarrow> chainText c = chainText d \<and> n = m" using plain by (subst separated_eq) auto
  finally show ?thesis by (auto simp: referenceKey_def chainText_inj)
qed

lemma apiRequest_parts:
  assumes "apiRequestSchema schema refinement r = Some q"
  shows "parseAll schema (apiNeeds r) = Some (apiNeeds q)" "refinement (apiNeeds q)" "marketContextV1Schema (apiMarket r) = Some (apiMarket q)"
    "enabledMembershipProgramIdsSchema (apiMemberships q)" "apiMaxStores q \<in> {1, 2, 3}" "1 \<le> length (apiNeeds q)" "length (apiNeeds q) \<le> 50"
  using assms by (cases r; auto simp: apiRequestSchema_def split: option.splits if_splits)+

lemma reviewed_parts:
  assumes trip: "tripSnapshotV2Schema h raw = Some s" and e: "tripReviewed s = Some e"
  shows "\<And>m. m \<in> set (reviewedMemberships e) \<Longrightarrow> familyIdentifierSchema (memberFamilyId m)"
    and "\<And>n b c v f. n \<in> set (apiNeeds (reviewedRequest e)) \<Longrightarrow> apiNeedMatch n = ReviewedFamilyMatch b c v f \<Longrightarrow> familyIdentifierSchema f"
    and "distinct (map apiNeedId (apiNeeds (reviewedRequest e)))"
    and "\<exists>r. tripReviewedFamilyEvidenceV2Schema h r = Some e"
proof -
  obtain r where r: "tripReviewedFamilyEvidenceV2Schema h r = Some e"
  proof -
    have "\<exists>p. tripSnapshotV2ObjectSchema h raw = Some p \<and> p = s"
      using trip by (auto simp: tripSnapshotV2Schema_def split: option.splits if_splits)
    then have "parseOptional (tripReviewedFamilyEvidenceV2Schema h) (tripReviewed raw) = Some (Some e)"
      using e by (auto simp: tripSnapshotV2ObjectSchema_def simp del: parseOptional.simps split: option.splits if_splits)
    then show thesis using that unfolding parseOptional_Some by (auto split: option.splits)
  qed
  then show "\<exists>r. tripReviewedFamilyEvidenceV2Schema h r = Some e" by blast
  obtain q where m: "parseAll reviewedFamilyPublicMembershipEvidenceSchema (reviewedMemberships r) = Some (reviewedMemberships e)"
    and q: "reviewedFamilyPlanApiRequestV2Schema h (reviewedRequest r) = Some (reviewedRequest e)"
    using r by (auto simp: tripReviewedFamilyEvidenceV2Schema_def split: option.splits if_splits)
  show "familyIdentifierSchema (memberFamilyId m)" if e: "m \<in> set (reviewedMemberships e)" for m
  proof -
    obtain x where x: "reviewedFamilyPublicMembershipEvidenceSchema x = Some m" using parseAll_in [OF m e] by blast
    then show ?thesis
      by (cases "memberMethod x") (auto simp: reviewedFamilyPublicMembershipEvidenceSchema_def split: option.splits if_splits)
  qed
  have needs: "parseAll (mixedNeedSchema h) (apiNeeds (reviewedRequest r)) = Some (apiNeeds (reviewedRequest e))"
    and "reviewedRequestRefinement (apiNeeds (reviewedRequest e))"
    using apiRequest_parts(1,2) [OF q [unfolded reviewedFamilyPlanApiRequestV2Schema_def]] by simp_all
  then show "distinct (map apiNeedId (apiNeeds (reviewedRequest e)))" by (simp add: reviewedRequestRefinement_def)
  show "familyIdentifierSchema f" if n: "n \<in> set (apiNeeds (reviewedRequest e))" "apiNeedMatch n = ReviewedFamilyMatch b c v f" for n b c v f
  proof -
    obtain x where x: "mixedNeedSchema h x = Some n" using parseAll_in [OF needs n(1)] by blast
    have "exactProductPlanApiMatchSchema y \<noteq> Some (ReviewedFamilyMatch b c v f)" for y by (cases y) auto
    moreover have "familyIdentifierSchema f" if "reviewedFamilyPlanApiMatchSchema h y = Some (ReviewedFamilyMatch b c v f)" for y
      using that by (cases y) (auto split: option.splits if_splits)
    ultimately show ?thesis using x n(2)
      by (auto simp: mixedNeedSchema_def exactProductPlanApiNeedSchema_def reviewedFamilyPlanApiNeedSchema_def apiNeedSchema_def
          split: option.splits if_splits)
  qed
qed

section \<open>Assignments and references\<close>

text \<open>What it means for an assignment to raise no issue.\<close>

definition keepsRequest :: "reviewed_evidence \<Rightarrow> assignment_v2 \<Rightarrow> api_need \<Rightarrow> bool" where
  "keepsRequest e a n \<longleftrightarrow>
     apiNeedId n = a2NeedId a \<and> apiNeedQuantity n = measureAmount (v2Requested (a2Fulfilment a))
     \<and> expectedUnit (apiNeedUnit n) = measureUnit (v2Requested (a2Fulfilment a))
     \<and> (\<exists>m \<in> set (reviewedMatches e). matchNeedId m = a2NeedId a \<and> a2ProductId a \<in> set (matchCandidates m)
          \<and> (case apiNeedMatch n of
               ExactProductMatch g \<Rightarrow> g = a2Ean a \<and> matchCandidates m = [a2ProductId a]
             | ReviewedFamilyMatch brands candidateSet versionOf family \<Rightarrow>
                 (\<exists>d. matchDetails m = Some d \<and> detailFamilyId d = family \<and> detailCandidateSet d = candidateSet \<and> detailTaxonomy d = versionOf
                   \<and> detailBrands d = brands \<and> reviewedId (detailFamily d) = family \<and> reviewedStatus (detailFamily d) = ActiveFamily
                   \<and> versionOf = evidenceVersionId (reviewedTaxonomy e))))"

definition asksFamily :: "api_need \<Rightarrow> string option" where
  "asksFamily n = (case apiNeedMatch n of ReviewedFamilyMatch _ _ _ family \<Rightarrow> Some family | _ \<Rightarrow> None)"

lemma reviewedAssignment_ok:
  assumes ok: "fst (reviewedAssignment (reviewedTaxonomy e) (byKey apiNeedId (apiNeeds (reviewedRequest e))) (byKey matchNeedId (reviewedMatches e))
      (byKey claimProductId (reviewedClaims e)) a)"
  obtains n where "n \<in> set (apiNeeds (reviewedRequest e))" "keepsRequest e a n"
    "snd (reviewedAssignment (reviewedTaxonomy e) (byKey apiNeedId (apiNeeds (reviewedRequest e))) (byKey matchNeedId (reviewedMatches e))
        (byKey claimProductId (reviewedClaims e)) a)
      = map_option (\<lambda>family. (a2NeedId a, reviewedMembershipKey family (a2ProductId a))) (asksFamily n)"
proof -
  let ?r = "reviewedAssignment (reviewedTaxonomy e) (byKey apiNeedId (apiNeeds (reviewedRequest e))) (byKey matchNeedId (reviewedMatches e))
      (byKey claimProductId (reviewedClaims e)) a"
  obtain n m c where l: "map_of (byKey apiNeedId (apiNeeds (reviewedRequest e))) (a2NeedId a) = Some n"
      "map_of (byKey matchNeedId (reviewedMatches e)) (a2NeedId a) = Some m" "map_of (byKey claimProductId (reviewedClaims e)) (a2ProductId a) = Some c"
    using ok by (auto simp: reviewedAssignment_def split: option.splits)
  have q: "apiNeedQuantity n = measureAmount (v2Requested (a2Fulfilment a))" "expectedUnit (apiNeedUnit n) = measureUnit (v2Requested (a2Fulfilment a))"
      "a2ProductId a \<in> set (matchCandidates m)"
    using ok by (auto simp: reviewedAssignment_def l split: if_splits)
  have in_sets: "n \<in> set (apiNeeds (reviewedRequest e))" "apiNeedId n = a2NeedId a" "m \<in> set (reviewedMatches e)" "matchNeedId m = a2NeedId a"
    using byKey_in [OF l(1)] byKey_in [OF l(2)] by simp_all
  have "keepsRequest e a n \<and> snd ?r = map_option (\<lambda>family. (a2NeedId a, reviewedMembershipKey family (a2ProductId a))) (asksFamily n)"
  proof (cases "apiNeedMatch n")
    case (ExactProductMatch g)
    have "matchDetails m = None" "g = a2Ean a" "length (matchCandidates m) = 1" "snd ?r = None"
      using ok by (auto simp: reviewedAssignment_def l ExactProductMatch Let_def split: if_splits option.splits)
    moreover have "matchCandidates m = [a2ProductId a]" using \<open>length (matchCandidates m) = 1\<close> q(3) by (cases "matchCandidates m") auto
    ultimately show ?thesis using q in_sets by (auto simp: keepsRequest_def ExactProductMatch asksFamily_def)
  next
    case (ReviewedFamilyMatch brands candidateSet versionOf family)
    then obtain d where "matchDetails m = Some d" "detailFamilyId d = family" "detailCandidateSet d = candidateSet" "detailTaxonomy d = versionOf"
        "detailBrands d = brands" "reviewedId (detailFamily d) = family" "reviewedStatus (detailFamily d) = ActiveFamily"
        "versionOf = evidenceVersionId (reviewedTaxonomy e)"
        "snd ?r = Some (a2NeedId a, reviewedMembershipKey family (a2ProductId a))"
      using ok by (auto simp: reviewedAssignment_def l Let_def split: if_splits option.splits)
    then show ?thesis using q in_sets by (auto simp: keepsRequest_def ReviewedFamilyMatch asksFamily_def)
  qed
  with in_sets(1) show thesis by (intro that) simp_all
qed

lemma reviewedReference_ok:
  assumes ok: "fst (reviewedReference i assignmentsByNeed checklistByNeed ordinaryById offerById r)"
  obtains a item where "map_of assignmentsByNeed (assignedNeedId r) = Some a" "map_of checklistByNeed (assignedNeedId r) = Some item"
    "assignedPlanId r = i" "assignedChain r = a2Chain a" "map_of ordinaryById (assignedEvidenceId r) = Some (purchasePrice (itemPurchase item))"
    "snd (reviewedReference i assignmentsByNeed checklistByNeed ordinaryById offerById r)
      = (Some (evidenceId (purchasePrice (itemPurchase item))), map_option offerId (purchaseOffer (itemPurchase item)))"
    "\<And>f. purchaseOffer (itemPurchase item) = Some f \<Longrightarrow> \<exists>k. map_of offerById k = Some f"
proof -
  let ?r = "reviewedReference i assignmentsByNeed checklistByNeed ordinaryById offerById r"
  obtain a item ordinary where l: "map_of assignmentsByNeed (assignedNeedId r) = Some a" "map_of checklistByNeed (assignedNeedId r) = Some item"
      "map_of ordinaryById (assignedEvidenceId r) = Some ordinary"
    using ok by (auto simp: reviewedReference_def split: option.splits)
  have q: "assignedPlanId r = i" "assignedChain r = a2Chain a" "ordinary = purchasePrice (itemPurchase item)"
    using ok by (auto simp: reviewedReference_def l Let_def split: if_splits)
  have "snd ?r = (Some (evidenceId ordinary), map_option offerId (purchaseOffer (itemPurchase item)))
    \<and> (\<forall>f. purchaseOffer (itemPurchase item) = Some f \<longrightarrow> (\<exists>k. map_of offerById k = Some f))"
    using ok by (cases "assignedConditions r") (auto simp: reviewedReference_def l q Let_def split: if_splits option.splits)
  then show thesis using l q by (intro that) auto
qed

text \<open>The identifiers that the references use are those of a list with distinct ones: then the list holds exactly what is used.\<close>

lemma used_exactly:
  assumes d: "distinct (map key xs)" and eq: "map key xs = sortedText (uniq ids)"
    and used: "\<And>i. i \<in> set ids \<longleftrightarrow> (\<exists>y \<in> Y. key y = i)" and sub: "Y \<subseteq> set xs"
  shows "set xs = Y"
proof
  have keys: "key ` set xs = set ids" using arg_cong [OF eq, of set] by (simp add: sortedText_def)
  show "set xs \<subseteq> Y"
  proof
    fix x assume x: "x \<in> set xs"
    then have "key x \<in> set ids" using keys by blast
    then obtain y where y: "y \<in> Y" "key y = key x" unfolding used by blast
    then have "y = x" using d x sub by (auto simp: distinct_map dest: inj_onD)
    then show "x \<in> Y" using y by simp
  qed
qed (rule sub)

lemma map_filter_set: "set (List.map_filter f xs) = {y. \<exists>x \<in> set xs. f x = Some y}"
  by (force simp: List.map_filter_def)

section \<open>What the refinement has checked\<close>

definition checkedAssignment :: "reviewed_evidence \<Rightarrow> assignment_v2 \<Rightarrow> bool \<times> (string \<times> string) option" where
  "checkedAssignment e = reviewedAssignment (reviewedTaxonomy e) (byKey apiNeedId (apiNeeds (reviewedRequest e)))
     (byKey matchNeedId (reviewedMatches e)) (byKey claimProductId (reviewedClaims e))"

definition checkedReference :: "trip_v2 \<Rightarrow> reviewed_evidence \<Rightarrow> assignment_reference \<Rightarrow> bool \<times> string option \<times> string option" where
  "checkedReference s e = reviewedReference (p2Id (tripPlan s)) (byKey a2NeedId (p2Assignments (tripPlan s))) (byKey itemNeedId (tripItems s))
     (byKey evidenceId (reviewedPrices e)) (byKey offerId (reviewedOffers e))"

lemma reviewed_facts:
  assumes "refineReviewedFamilyEvidence s" and "tripReviewed s = Some e"
  shows "marketContextsEqual (apiMarket (reviewedRequest e)) (tripMarket s)" "apiMemberships (reviewedRequest e) = tripMemberships s"
    "length (p2Chains (tripPlan s)) \<le> apiMaxStores (reviewedRequest e)"
    "sortedText (map fst (byKey a2NeedId (p2Assignments (tripPlan s)))) = sortedText (map fst (byKey apiNeedId (apiNeeds (reviewedRequest e))))"
    "map claimProductId (reviewedClaims e) = sortedText (uniq (map a2ProductId (p2Assignments (tripPlan s))))"
    "\<And>c. c \<in> set (reviewedClaims e) \<Longrightarrow> map_of (byKey summaryGtin (tripProducts s)) (summaryGtin (claimProduct c)) = Some (claimProduct c)"
    "\<And>a. a \<in> set (p2Assignments (tripPlan s)) \<Longrightarrow> fst (checkedAssignment e a)"
    "sortedText (p2Substitutions (tripPlan s)) = sortedText (map fst (List.map_filter snd (map (checkedAssignment e) (p2Assignments (tripPlan s)))))"
    "map (\<lambda>m. reviewedMembershipKey (memberFamilyId m) (memberProductId m)) (reviewedMemberships e)
      = sortedText (uniq (map snd (List.map_filter snd (map (checkedAssignment e) (p2Assignments (tripPlan s))))))"
    "\<And>m. m \<in> set (reviewedMemberships e) \<Longrightarrow> dateParse (memberReviewedAt m) \<le> dateParse (tripEvaluatedAt s)"
    "dateParse (evidencePublishedAt (reviewedTaxonomy e)) \<le> dateParse (tripEvaluatedAt s)"
    "map (\<lambda>r. referenceKey (assignedPlanId r) (assignedNeedId r) (assignedChain r)) (reviewedAssignments e)
      = sortedText (map (\<lambda>a. referenceKey (p2Id (tripPlan s)) (a2NeedId a) (a2Chain a)) (p2Assignments (tripPlan s)))"
    "\<And>r. r \<in> set (reviewedAssignments e) \<Longrightarrow> fst (checkedReference s e r)"
    "distinct (map evidenceId (reviewedPrices e))"
    "map evidenceId (reviewedPrices e) = sortedText (uniq (List.map_filter (fst \<circ> snd) (map (checkedReference s e) (reviewedAssignments e))))"
    "distinct (map offerId (reviewedOffers e))"
    "map offerId (reviewedOffers e) = sortedText (uniq (List.map_filter (snd \<circ> snd) (map (checkedReference s e) (reviewedAssignments e))))"
  using assms unfolding checkedAssignment_def checkedReference_def
  by (simp_all only: refineReviewedFamilyEvidence_def option.case Let_def hasUniqueStrings_iff list_all_iff de_Morgan_disj not_not not_less set_map ball_simps) (simp_all (no_asm) add: sortedText_def)

text \<open>Every reference shows an item, and every item is shown by a reference.\<close>

definition showsItem :: "trip_v2 \<Rightarrow> reviewed_evidence \<Rightarrow> assignment_reference \<Rightarrow> trip_item_v2 \<Rightarrow> bool" where
  "showsItem s e r item \<longleftrightarrow> item \<in> set (tripItems s)
     \<and> snd (checkedReference s e r) = (Some (evidenceId (purchasePrice (itemPurchase item))), map_option offerId (purchaseOffer (itemPurchase item)))
     \<and> purchasePrice (itemPurchase item) \<in> set (reviewedPrices e)
     \<and> (\<forall>f. purchaseOffer (itemPurchase item) = Some f \<longrightarrow> f \<in> set (reviewedOffers e))"

lemma reference_item:
  assumes "fst (checkedReference s e r)"
  obtains item where "showsItem s e r item" "itemNeedId item = assignedNeedId r" "assignedPlanId r = p2Id (tripPlan s)"
  by (rule reviewedReference_ok [OF assms [unfolded checkedReference_def]])
    (auto simp: showsItem_def checkedReference_def intro!: that dest!: byKey_in)

lemma item_reference:
  assumes core: "refineTripSnapshotCore s" and plan: "planResultV2Schema (tripPlan s) = Some (tripPlan s)"
    and reviewed: "refineReviewedFamilyEvidence s" "tripReviewed s = Some e" and item: "item \<in> set (tripItems s)"
  shows "\<exists>r \<in> set (reviewedAssignments e). showsItem s e r item"
proof (rule core_item [OF core plan item])
  fix a product assume a: "a \<in> set (p2Assignments (tripPlan s))" "itemFor a product item"
  note facts = reviewed_facts [OF reviewed]
  have "referenceKey (p2Id (tripPlan s)) (a2NeedId a) (a2Chain a)
      \<in> set (map (\<lambda>r. referenceKey (assignedPlanId r) (assignedNeedId r) (assignedChain r)) (reviewedAssignments e))"
    using a(1) unfolding facts(12) by (simp add: sortedText_def)
  then obtain r where r: "r \<in> set (reviewedAssignments e)"
      "referenceKey (p2Id (tripPlan s)) (a2NeedId a) (a2Chain a) = referenceKey (assignedPlanId r) (assignedNeedId r) (assignedChain r)" by auto
  obtain j where j: "showsItem s e r j" "itemNeedId j = assignedNeedId r" "assignedPlanId r = p2Id (tripPlan s)"
    by (rule reference_item [OF facts(13) [OF r(1)]])
  then have "itemNeedId j = itemNeedId item" using r(2) a(2) by (simp add: referenceKey_eq itemFor_def)
  then have "j = item" using j(1) item core_distinct(3) [OF core plan] by (auto simp: showsItem_def distinct_map dest: inj_onD)
  then show ?thesis using j(1) r(1) by blast
qed

lemma reviewed_shown:
  assumes core: "refineTripSnapshotCore s" and plan: "planResultV2Schema (tripPlan s) = Some (tripPlan s)"
    and reviewed: "refineReviewedFamilyEvidence s" "tripReviewed s = Some e"
  shows "set (reviewedPrices e) = (\<lambda>item. purchasePrice (itemPurchase item)) ` set (tripItems s)"
    and "set (reviewedOffers e) = {f. \<exists>item \<in> set (tripItems s). purchaseOffer (itemPurchase item) = Some f}"
proof -
  note facts = reviewed_facts [OF reviewed]
  have shown: "\<exists>r \<in> set (reviewedAssignments e). showsItem s e r item" if "item \<in> set (tripItems s)" for item
    by (rule item_reference [OF core plan reviewed that])
  have shows': "\<exists>item. showsItem s e r item" if "r \<in> set (reviewedAssignments e)" for r
    by (rule reference_item [OF facts(13) [OF that]]) blast
  show "set (reviewedPrices e) = (\<lambda>item. purchasePrice (itemPurchase item)) ` set (tripItems s)"
  proof (rule used_exactly [OF facts(14) facts(15)])
    fix i
    show "i \<in> set (List.map_filter (fst \<circ> snd) (map (checkedReference s e) (reviewedAssignments e)))
      \<longleftrightarrow> (\<exists>y \<in> (\<lambda>item. purchasePrice (itemPurchase item)) ` set (tripItems s). evidenceId y = i)" (is "?l \<longleftrightarrow> ?r")
    proof
      assume ?l
      then obtain r where r: "r \<in> set (reviewedAssignments e)" "fst (snd (checkedReference s e r)) = Some i" by (auto simp: map_filter_set)
      obtain item where "showsItem s e r item" using shows' [OF r(1)] by blast
      then show ?r using r(2) by (auto simp: showsItem_def)
    next
      assume ?r
      then obtain item where "item \<in> set (tripItems s)" "evidenceId (purchasePrice (itemPurchase item)) = i" by auto
      then show ?l using shown by (force simp: map_filter_set showsItem_def)
    qed
  qed (use shown in \<open>auto simp: showsItem_def\<close>)
  show "set (reviewedOffers e) = {f. \<exists>item \<in> set (tripItems s). purchaseOffer (itemPurchase item) = Some f}"
  proof (rule used_exactly [OF facts(16) facts(17)])
    fix i
    show "i \<in> set (List.map_filter (snd \<circ> snd) (map (checkedReference s e) (reviewedAssignments e)))
      \<longleftrightarrow> (\<exists>y \<in> {f. \<exists>item \<in> set (tripItems s). purchaseOffer (itemPurchase item) = Some f}. offerId y = i)" (is "?l \<longleftrightarrow> ?r")
    proof
      assume ?l
      then obtain r where r: "r \<in> set (reviewedAssignments e)" "snd (snd (checkedReference s e r)) = Some i" by (auto simp: map_filter_set)
      obtain item where "showsItem s e r item" using shows' [OF r(1)] by blast
      then show ?r using r(2) by (auto simp: showsItem_def)
    next
      assume ?r
      then obtain item f where "item \<in> set (tripItems s)" "purchaseOffer (itemPurchase item) = Some f" "offerId f = i" by auto
      then show ?l using shown by (force simp: map_filter_set showsItem_def)
    qed
  qed (use shown in \<open>fastforce simp: showsItem_def\<close>)
qed

lemma byKey_keys: "set (map fst (byKey key xs)) = key ` set xs"
  using keys_newMap [of "map (\<lambda>x. (key x, x)) xs"] by (simp add: byKey_def image_comp comp_def)

lemma sortedText_set: "sortedText xs = sortedText ys \<Longrightarrow> set xs = set ys"
  by (metis set_sort_by sortedText_def)

lemma marketContextsEqual_iff: "marketContextsEqual m n \<longleftrightarrow> m = n"
  by (cases m; cases n) auto

text \<open>The needs that ask for a family, and the products chosen for them.\<close>

lemma asksFamily_iff: "asksFamily n = Some f \<longleftrightarrow> (\<exists>b c v. apiNeedMatch n = ReviewedFamilyMatch b c v f)"
  by (cases "apiNeedMatch n") (auto simp: asksFamily_def)

definition familyChoice :: "reviewed_evidence \<Rightarrow> assignment_v2 \<Rightarrow> string \<Rightarrow> bool" where
  "familyChoice e a family \<longleftrightarrow> (\<exists>n \<in> set (apiNeeds (reviewedRequest e)). apiNeedId n = a2NeedId a \<and> asksFamily n = Some family)"

lemma checked_choice:
  assumes ok: "fst (checkedAssignment e a)" and d: "distinct (map apiNeedId (apiNeeds (reviewedRequest e)))"
  shows "snd (checkedAssignment e a) = Some x \<longleftrightarrow> (\<exists>family. familyChoice e a family \<and> x = (a2NeedId a, reviewedMembershipKey family (a2ProductId a)))"
    and "\<exists>n \<in> set (apiNeeds (reviewedRequest e)). keepsRequest e a n"
proof -
  obtain n where n: "n \<in> set (apiNeeds (reviewedRequest e))" "keepsRequest e a n"
    "snd (checkedAssignment e a) = map_option (\<lambda>family. (a2NeedId a, reviewedMembershipKey family (a2ProductId a))) (asksFamily n)"
    by (rule reviewedAssignment_ok [OF ok [unfolded checkedAssignment_def]]) (auto simp: checkedAssignment_def)
  have "m = n" if "m \<in> set (apiNeeds (reviewedRequest e))" "apiNeedId m = a2NeedId a" for m
  proof (rule inj_onD [of apiNeedId])
    show "inj_on apiNeedId (set (apiNeeds (reviewedRequest e)))" using d by (simp add: distinct_map)
    show "apiNeedId m = apiNeedId n" using that(2) n(2) by (simp add: keepsRequest_def)
  qed (use that(1) n(1) in simp_all)
  moreover have "apiNeedId n = a2NeedId a" using n(2) by (simp add: keepsRequest_def)
  ultimately have "familyChoice e a family \<longleftrightarrow> asksFamily n = Some family" for family
    using n(1) unfolding familyChoice_def by blast
  then show "snd (checkedAssignment e a) = Some x \<longleftrightarrow> (\<exists>family. familyChoice e a family \<and> x = (a2NeedId a, reviewedMembershipKey family (a2ProductId a)))"
    by (auto simp: n(3))
  show "\<exists>n \<in> set (apiNeeds (reviewedRequest e)). keepsRequest e a n" using n(1,2) by blast
qed

lemma pair_images:
  "fst ` {(f a, g a x) | a x. P a x} = {f a | a x. P a x}" "snd ` {(f a, g a x) | a x. P a x} = {g a x | a x. P a x}"
  by force+

lemma membership_pairs:
  assumes keys: "(\<lambda>m. reviewedMembershipKey (memberFamilyId m) (memberProductId m)) ` M = {reviewedMembershipKey (f x) (q x) | x. x \<in> X}"
    and m: "\<And>m. m \<in> M \<Longrightarrow> familyIdentifierSchema (memberFamilyId m)" and x: "\<And>x. x \<in> X \<Longrightarrow> familyIdentifierSchema (f x)"
  shows "(\<lambda>m. (memberFamilyId m, memberProductId m)) ` M = {(f x, q x) | x. x \<in> X}"
proof (intro set_eqI iffI)
  fix z assume "z \<in> (\<lambda>m. (memberFamilyId m, memberProductId m)) ` M"
  then obtain m' where a: "m' \<in> M" "z = (memberFamilyId m', memberProductId m')" by blast
  have "reviewedMembershipKey (memberFamilyId m') (memberProductId m') \<in> {reviewedMembershipKey (f x) (q x) | x. x \<in> X}"
    unfolding keys [symmetric] using a(1) by (rule imageI)
  then obtain x' where "x' \<in> X" "reviewedMembershipKey (memberFamilyId m') (memberProductId m') = reviewedMembershipKey (f x') (q x')" by blast
  then show "z \<in> {(f x, q x) | x. x \<in> X}" using a membershipKey_eq [OF m x] by blast
next
  fix z assume "z \<in> {(f x, q x) | x. x \<in> X}"
  then obtain x' where a: "x' \<in> X" "z = (f x', q x')" by blast
  have "reviewedMembershipKey (f x') (q x') \<in> (\<lambda>m. reviewedMembershipKey (memberFamilyId m) (memberProductId m)) ` M"
    unfolding keys using a(1) by blast
  then obtain m' where "m' \<in> M" "reviewedMembershipKey (memberFamilyId m') (memberProductId m') = reviewedMembershipKey (f x') (q x')" by auto
  then show "z \<in> (\<lambda>m. (memberFamilyId m, memberProductId m)) ` M" using a membershipKey_eq [OF m x] by (intro image_eqI [of _ _ m']) simp_all
qed

text \<open>
  C39. The reviewed-family evidence of an accepted trip is exactly what the shopper approved and the plan uses. The request has the market,
  memberships and needs of the trip and allows its number of stores; every assignment keeps its request (quantity, unit, GTIN or approved
  family); the substitutions of the plan are the assignments whose need asked for a family; the membership decisions are those of the
  products chosen for such needs, each reviewed before the evaluation; and the prices, offers and products listed are those of the checklist:
  nothing that was not selected is shown.
\<close>

theorem reviewed_evidence_exact:
  assumes trip: "tripSnapshotV2Schema h raw = Some s" and e: "tripReviewed s = Some e"
  shows "apiMarket (reviewedRequest e) = tripMarket s \<and> apiMemberships (reviewedRequest e) = tripMemberships s
    \<and> length (p2Chains (tripPlan s)) \<le> apiMaxStores (reviewedRequest e)
    \<and> apiNeedId ` set (apiNeeds (reviewedRequest e)) = a2NeedId ` set (p2Assignments (tripPlan s))
    \<and> (\<forall>a \<in> set (p2Assignments (tripPlan s)). \<exists>n \<in> set (apiNeeds (reviewedRequest e)). keepsRequest e a n)
    \<and> set (p2Substitutions (tripPlan s)) = {a2NeedId a | a family. a \<in> set (p2Assignments (tripPlan s)) \<and> familyChoice e a family}
    \<and> (\<lambda>m. (memberFamilyId m, memberProductId m)) ` set (reviewedMemberships e)
        = {(family, a2ProductId a) | a family. a \<in> set (p2Assignments (tripPlan s)) \<and> familyChoice e a family}
    \<and> (\<forall>m \<in> set (reviewedMemberships e). dateParse (memberReviewedAt m) \<le> dateParse (tripEvaluatedAt s))
    \<and> set (reviewedPrices e) = (\<lambda>item. purchasePrice (itemPurchase item)) ` set (tripItems s)
    \<and> set (reviewedOffers e) = {f. \<exists>item \<in> set (tripItems s). purchaseOffer (itemPurchase item) = Some f}
    \<and> claimProductId ` set (reviewedClaims e) = a2ProductId ` set (p2Assignments (tripPlan s))
    \<and> claimProduct ` set (reviewedClaims e) \<subseteq> set (tripProducts s)"
proof -
  note ok = tripV2_accepted [OF trip]
  have core: "refineTripSnapshotCore s" and refined: "refineReviewedFamilyEvidence s" using ok(2) by (simp_all add: tripSnapshotV2Refinement_def)
  note facts = reviewed_facts [OF refined e] and parts = reviewed_parts [OF trip e]
  let ?as = "set (p2Assignments (tripPlan s))"
  note choice = checked_choice [OF facts(7) parts(3)]
  have used: "set (List.map_filter snd (map (checkedAssignment e) (p2Assignments (tripPlan s))))
      = {(a2NeedId a, reviewedMembershipKey family (a2ProductId a)) | a family. a \<in> ?as \<and> familyChoice e a family}"
    using choice(1) by (auto simp: map_filter_set)
  have "apiNeedId ` set (apiNeeds (reviewedRequest e)) = a2NeedId ` ?as"
    using sortedText_set [OF facts(4)] unfolding byKey_keys by simp
  moreover have "set (p2Substitutions (tripPlan s)) = {a2NeedId a | a family. a \<in> ?as \<and> familyChoice e a family}"
    using sortedText_set [OF facts(8)] unfolding set_map used pair_images .
  moreover have "(\<lambda>m. (memberFamilyId m, memberProductId m)) ` set (reviewedMemberships e)
      = {(snd x, a2ProductId (fst x)) | x. x \<in> {(a, family). a \<in> ?as \<and> familyChoice e a family}}"
  proof (rule membership_pairs)
    show "(\<lambda>m. reviewedMembershipKey (memberFamilyId m) (memberProductId m)) ` set (reviewedMemberships e)
        = {reviewedMembershipKey (snd x) (a2ProductId (fst x)) | x. x \<in> {(a, family). a \<in> ?as \<and> familyChoice e a family}}"
      using arg_cong [OF facts(9), of set] unfolding sortedText_def set_sort_by set_uniq set_map used pair_images by simp
    show "familyIdentifierSchema (snd x)" if "x \<in> {(a, family). a \<in> ?as \<and> familyChoice e a family}" for x
      using that parts(2) by (auto simp: familyChoice_def asksFamily_iff)
  qed (rule parts(1))
  moreover have "claimProductId ` set (reviewedClaims e) = a2ProductId ` ?as"
    using arg_cong [OF facts(5), of set] by (simp add: sortedText_def)
  moreover have "claimProduct ` set (reviewedClaims e) \<subseteq> set (tripProducts s)" using facts(6) byKey_in by fastforce
  ultimately show ?thesis
    using facts(1-3,10) choice(2) reviewed_shown [OF core ok(1) refined e] by (simp add: marketContextsEqual_iff)
qed

text \<open>The trip of before, with the milk chosen for a reviewed family.\<close>

definition exampleFamilyPlan :: plan_v2 where
  "exampleFamilyPlan = exampleTripPlan\<lparr>p2Substitutions := [''n1'']\<rparr>"

definition exampleVersion :: string where "exampleVersion = ''handleplan@1.0.0''"

definition exampleCandidateSet :: string where "exampleCandidateSet = ''candidate-set:'' @ replicate 64 CHR ''a''"

definition exampleFamilyEvidence :: reviewed_evidence where
  "exampleFamilyEvidence =
     \<lparr>reviewedAssignments = [\<lparr>assignedPlanId = ''p1'', assignedNeedId = ''n1'', assignedChain = Extra, assignedEvidenceId = ''price'',
        assignedConditions = OfferCondition ''offer''\<rparr>],
      reviewedMemberships = [\<lparr>memberProductId = ''milk'', memberDecisionId = ''family-membership:1'', memberFamilyId = ''family:melk'',
        memberReviewedAt = ''2026-07-10T00:00:00.000Z'', memberMethod = HumanReview\<rparr>],
      reviewedMatches = [\<lparr>matchNeedId = ''n1'', matchCandidates = [''milk''],
        matchDetails = Some \<lparr>detailBrands = None, detailCandidateSet = exampleCandidateSet, detailFamily = exampleFamily ''melk'' None,
          detailFamilyId = ''family:melk'', detailTaxonomy = exampleVersion\<rparr>\<rparr>],
      reviewedOffers = [exampleOffer], reviewedPrices = [exampleTripPrice],
      reviewedClaims = [\<lparr>claimProductId = ''milk'', claimProduct = exampleTripProduct\<rparr>],
      reviewedRequest = \<lparr>apiMemberships = [], apiMarket = LaunchRegionMarket ''NO'' ''no-5001-trondheim'', apiMaxStores = 1,
        apiNeeds = [\<lparr>apiNeedId = ''n1'', apiNeedMatch = ReviewedFamilyMatch None exampleCandidateSet exampleVersion ''family:melk'',
          apiNeedQuantity = 4000, apiNeedUnit = Millilitre\<rparr>]\<rparr>,
      reviewedTaxonomy = \<lparr>evidenceContentSha256 = replicate 64 CHR ''b'', evidencePublishedAt = ''2026-07-01T00:00:00.000Z'',
        evidenceTaxonomyId = ''handleplan'', evidenceTaxonomyVersion = ''1.0.0'', evidenceVersionId = exampleVersion\<rparr>\<rparr>"

definition exampleFamilyTrip :: trip_v2 where
  "exampleFamilyTrip = exampleTrip\<lparr>tripPlan := exampleFamilyPlan, tripReviewed := Some exampleFamilyEvidence\<rparr>"

lemma exampleFamilyTrip_plan: "planResultV2Schema exampleFamilyPlan = Some exampleFamilyPlan"
  by code_simp

lemma exampleFamilyTrip_core: "refineTripSnapshotCore exampleFamilyTrip"
  by code_simp

lemma exampleFamilyTrip_matches: "reviewedFamilyNeedMatchV2Schema h (hd (reviewedMatches exampleFamilyEvidence)) = Some (hd (reviewedMatches exampleFamilyEvidence))"
  unfolding exampleFamilyEvidence_def by simp code_simp

lemma exampleFamilyTrip_request: "reviewedFamilyPlanApiRequestV2Schema h (reviewedRequest exampleFamilyEvidence) = Some (reviewedRequest exampleFamilyEvidence)"
  unfolding exampleFamilyEvidence_def by simp code_simp

lemma exampleFamilyTrip_rest:
  "exactProductPlanApiAssignmentEvidenceSchema (hd (reviewedAssignments exampleFamilyEvidence)) = Some (hd (reviewedAssignments exampleFamilyEvidence))"
  "reviewedFamilyPublicMembershipEvidenceSchema (hd (reviewedMemberships exampleFamilyEvidence)) = Some (hd (reviewedMemberships exampleFamilyEvidence))"
  "reviewedFamilyPublicTaxonomyEvidenceSchema (reviewedTaxonomy exampleFamilyEvidence)"
  by code_simp+

lemma exampleFamilyTrip_refined: "refineReviewedFamilyEvidence exampleFamilyTrip"
  by code_simp

text \<open>The checks of the items depend neither on the substitutions nor on the reviewed evidence.\<close>

lemma accepted_elsewhere:
  assumes "p2Assignments p = p2Assignments (tripPlan s)" "p2Freshness p = p2Freshness (tripPlan s)"
  shows "itemAccepted (s\<lparr>tripPlan := p, tripReviewed := r\<rparr>) item = itemAccepted s item"
    "attestationAccepted (s\<lparr>tripPlan := p, tripReviewed := r\<rparr>) = attestationAccepted s"
    "currentProduct (s\<lparr>tripPlan := p, tripReviewed := r\<rparr>) q = currentProduct s q"
  using assms
  by (simp_all add: itemAccepted_def mirrorsPurchase_def priceAccepted_def offerAccepted_def priceContext_def tripCheckout_def offerContext_def
      tripLocation_def tripDirectory_def attestationAccepted_def currentProduct_def Let_def cong: option.case_cong)

lemma parseAll_one: "length xs = 1 \<Longrightarrow> schema (hd xs) = Some (hd xs) \<Longrightarrow> parseAll schema xs = Some xs"
  by (cases xs) auto

lemma exampleFamilyTrip_evidence: "tripReviewedFamilyEvidenceV2Schema h exampleFamilyEvidence = Some exampleFamilyEvidence"
proof -
  let ?e = exampleFamilyEvidence
  have lists: "length (reviewedAssignments ?e) = 1" "length (reviewedMemberships ?e) = 1" "length (reviewedMatches ?e) = 1"
    "length (reviewedOffers ?e) = 1" "length (reviewedPrices ?e) = 1" "length (reviewedClaims ?e) = 1"
    by (simp_all add: exampleFamilyEvidence_def)
  have "identifierSchema ''milk'' = Some ''milk''" by code_simp
  then have "reviewedFamilyProductClaimSchema (hd (reviewedClaims ?e)) = Some (hd (reviewedClaims ?e))"
    "officialOfferSchema (hd (reviewedOffers ?e)) = Some (hd (reviewedOffers ?e))" "priceEvidenceSchema (hd (reviewedPrices ?e)) = Some (hd (reviewedPrices ?e))"
    by (simp_all add: reviewedFamilyProductClaimSchema_def exampleTrip_product exampleTrip_offer exampleTrip_price exampleFamilyEvidence_def)
  note fixed = parseAll_one [where schema = reviewedFamilyProductClaimSchema, OF lists(6) this(1)] parseAll_one [where schema = officialOfferSchema, OF lists(4) this(2)]
    parseAll_one [where schema = priceEvidenceSchema, OF lists(5) this(3)]
    parseAll_one [where schema = exactProductPlanApiAssignmentEvidenceSchema, OF lists(1) exampleFamilyTrip_rest(1)]
    parseAll_one [where schema = reviewedFamilyPublicMembershipEvidenceSchema, OF lists(2) exampleFamilyTrip_rest(2)]
    parseAll_one [where schema = "reviewedFamilyNeedMatchV2Schema h", OF lists(3) exampleFamilyTrip_matches]
  show ?thesis
    unfolding tripReviewedFamilyEvidenceV2Schema_def fixed exampleFamilyTrip_request
    using lists exampleFamilyTrip_rest(3) by simp
qed

lemma exampleFamilyTrip_accepted: "tripSnapshotV2Schema h exampleFamilyTrip = Some exampleFamilyTrip"
proof -
  have "tripNavigationV2Schema (tripNavigation exampleTrip) = Some (tripNavigation exampleTrip)"
    "identifierSchema (tripId exampleTrip) = Some (tripId exampleTrip)"
    "canonicalTimestamp (tripCreatedAt exampleTrip)" "canonicalTimestamp (tripEvaluatedAt exampleTrip)"
    "canonicalTimestamp (tripExpiresAt exampleTrip)" by code_simp+
  then have "tripObjectSchema tripChecklistItemV2Schema tripNavigationV2Schema exampleFamilyTrip = Some exampleFamilyTrip"
    by (simp add: tripObjectSchema_def exampleFamilyTrip_plan exampleTrip_product exampleTrip_item exampleTrip_def exampleFamilyTrip_def)
  moreover have "enabledMembershipProgramIdsSchema []" by code_simp
  moreover have "tripAttestation exampleFamilyTrip = Some exampleTripAttestation"
    "tripMarket exampleFamilyTrip = LaunchRegionMarket ''NO'' ''no-5001-trondheim''" "tripReviewed exampleFamilyTrip = Some exampleFamilyEvidence"
    "tripMemberships exampleFamilyTrip = []" by (simp_all add: exampleFamilyTrip_def exampleTrip_def)
  ultimately have "tripSnapshotV2ObjectSchema h exampleFamilyTrip = Some exampleFamilyTrip"
    by (simp add: tripSnapshotV2ObjectSchema_def exampleTrip_attestation exampleTrip_market exampleFamilyTrip_evidence del: marketContextV1Schema.simps)
  moreover have "p2Assignments exampleFamilyPlan = p2Assignments (tripPlan exampleTrip)" "p2Freshness exampleFamilyPlan = p2Freshness (tripPlan exampleTrip)"
    by (simp_all add: exampleFamilyPlan_def exampleTrip_def)
  note same = accepted_elsewhere [OF this, of "Some exampleFamilyEvidence"]
  have "tripReviewed exampleFamilyTrip \<noteq> None" "tripProducts exampleFamilyTrip = [exampleTripProduct]" "tripItems exampleFamilyTrip = [exampleTripItem]"
    by (simp_all add: exampleFamilyTrip_def exampleTrip_def)
  moreover from this have "tripSnapshotV2Refinement exampleFamilyTrip"
    using same [folded exampleFamilyTrip_def]
    by (simp add: tripSnapshotV2Refinement_def exampleFamilyTrip_refined exampleFamilyTrip_core exampleTrip_attested exampleTrip_current
        exampleTrip_itemAccepted)
  ultimately show ?thesis by (simp add: tripSnapshotV2Schema_def)
qed

theorem reviewed_evidence_exact_witness:
  "(\<lambda>m. (memberFamilyId m, memberProductId m)) ` set (reviewedMemberships exampleFamilyEvidence)
     = {(family, a2ProductId a) | a family. a \<in> set (p2Assignments (tripPlan exampleFamilyTrip)) \<and> familyChoice exampleFamilyEvidence a family}
   \<and> set (p2Substitutions (tripPlan exampleFamilyTrip)) = {''n1''}"
proof -
  have "tripReviewed exampleFamilyTrip = Some exampleFamilyEvidence" by (simp add: exampleFamilyTrip_def)
  note exact = reviewed_evidence_exact [OF exampleFamilyTrip_accepted this]
  show ?thesis
  proof (rule conjI)
    show "set (p2Substitutions (tripPlan exampleFamilyTrip)) = {''n1''}" by (simp add: exampleFamilyTrip_def exampleFamilyPlan_def)
  qed (rule exact [THEN conjunct2, THEN conjunct2, THEN conjunct2, THEN conjunct2, THEN conjunct2, THEN conjunct2, THEN conjunct1])
qed

end
