(* ===== verification/Trip_Roundtrip.thy ===== *)
theory Trip_Roundtrip
  imports Trip_Reviewed
begin

text \<open>
  A stored trip reads back as itself. Allowed brands are lowercased by the runtime, of which nothing is assumed: the refinement of the
  reviewed evidence equates them with the canonical brands of the matches, which are their own normal form.
\<close>

section \<open>Stops, prices and routes\<close>

lemma stop_idem: "priceOnlyStopSchema a = Some b \<Longrightarrow> priceOnlyStopSchema b = Some b"
  using nonEmptyStringSchema_idem by (auto simp: priceOnlyStopSchema_def)

lemma branch_idem:
  assumes "tripPublicBranchStopV1Schema a = Some b"
  shows "tripPublicBranchStopV1Schema b = Some b"
proof -
  obtain i n where p: "identifierSchema (stopBranchId a) = Some i" "nonEmptyStringSchema (stopName a) = Some n"
    and r: "positiveSafeInteger (stopSequence a)" "stopSequence a \<le> 3" and b: "b = a\<lparr>stopBranchId := i, stopName := n\<rparr>"
    using assms by (auto simp: tripPublicBranchStopV1Schema_def split: option.splits if_splits)
  show ?thesis using r identifierSchema_idem [OF p(1)] nonEmptyStringSchema_idem [OF p(2)] by (simp add: tripPublicBranchStopV1Schema_def b)
qed

lemma aggregate_idem:
  assumes "tripRouteAggregateV1Schema a = Some b"
  shows "tripRouteAggregateV1Schema b = Some b" "tripMode b = tripMode a"
proof -
  obtain i n where p: "sourceIdSchema (tripSourceId a) = Some i" "identifierSchema (tripRecordId a) = Some n"
    and r: "canonicalTimestamp (tripCalculatedAt a)" "nonNegativeSafeInteger (tripDistanceMeters a)" "nonNegativeSafeInteger (tripDurationSeconds a)"
    and b: "b = a\<lparr>tripSourceId := i, tripRecordId := n\<rparr>"
    using assms by (auto simp: tripRouteAggregateV1Schema_def split: option.splits if_splits)
  show "tripRouteAggregateV1Schema b = Some b"
    using r sourceIdSchema_idem [OF p(1)] identifierSchema_idem [OF p(2)] by (simp add: tripRouteAggregateV1Schema_def b)
  show "tripMode b = tripMode a" by (simp add: b)
qed

lemma atMost3_idem:
  assumes "atMost3 schema xs = Some ys" and "\<And>a b. schema a = Some b \<Longrightarrow> schema b = Some b"
  shows "atMost3 schema ys = Some ys"
proof -
  have p: "parseAll schema xs = Some ys" and r: "1 \<le> length ys" "length ys \<le> 3"
    using assms(1) by (auto simp: atMost3_def split: option.splits if_splits)
  have "parseAll schema ys = Some ys" by (rule parseAll_idem [OF p]) (rule assms(2))
  then show ?thesis using r by (simp add: atMost3_def)
qed

lemma navigation_idem:
  assumes "navigationSchema schema n = Some m" and "\<And>a b. schema a = Some b \<Longrightarrow> schema b = Some b"
  shows "navigationSchema schema m = Some m"
proof (cases n)
  case (PriceOnlyNavigation stops)
  then obtain ys where "atMost3 priceOnlyStopSchema stops = Some ys" "m = PriceOnlyNavigation ys" using assms(1) by auto
  then show ?thesis using atMost3_idem [OF _ stop_idem] by simp
next
  case (RoutedNavigation a stops)
  then obtain b ys where p: "schema a = Some b" "atMost3 tripPublicBranchStopV1Schema stops = Some ys" "m = RoutedNavigation b ys"
    using assms(1) by (auto split: option.splits)
  show ?thesis using assms(2) [OF p(1)] atMost3_idem [OF p(2) branch_idem] by (simp add: p(3))
qed

lemma tripNavigation_idem:
  "tripNavigationV1Schema n = Some m \<Longrightarrow> tripNavigationV1Schema m = Some m"
  "tripNavigationV2Schema n = Some m \<Longrightarrow> tripNavigationV2Schema m = Some m"
proof -
  show "tripNavigationV1Schema n = Some m \<Longrightarrow> tripNavigationV1Schema m = Some m"
    unfolding tripNavigationV1Schema_def by (erule navigation_idem) (rule aggregate_idem(1))
  have v2: "tripRouteAggregateV2Schema b = Some b" if "tripRouteAggregateV2Schema a = Some b" for a b
    using that aggregate_idem by (auto simp: tripRouteAggregateV2Schema_def split: if_splits)
  show "tripNavigationV2Schema n = Some m \<Longrightarrow> tripNavigationV2Schema m = Some m"
    unfolding tripNavigationV2Schema_def by (erule navigation_idem) (rule v2)
qed

lemma tripObject_idem:
  assumes s: "tripObjectSchema itemSchema navigation raw = Some s"
    and item: "\<And>a b. itemSchema a = Some b \<Longrightarrow> itemSchema b = Some b" and nav: "\<And>a b. navigation a = Some b \<Longrightarrow> navigation b = Some b"
  shows "tripObjectSchema itemSchema navigation s = Some s"
proof (rule tripObject_parts [OF s])
  fix i caveats plan ps items route
  assume p: "identifierSchema (tripId raw) = Some i" "parseAll nonEmptyStringSchema (tripCaveats raw) = Some caveats"
    "planResultV2Schema (tripPlan raw) = Some plan" "parseAll exactProductPlanApiProductSummarySchema (tripProducts raw) = Some ps"
    "parseAll itemSchema (tripItems raw) = Some items" "navigation (tripNavigation raw) = Some route"
    and r: "canonicalTimestamp (tripCreatedAt raw)" "canonicalTimestamp (tripEvaluatedAt raw)" "canonicalTimestamp (tripExpiresAt raw)"
      "length caveats \<le> 10" "1 \<le> length ps" "length ps \<le> 50" "1 \<le> length items" "length items \<le> 50"
    and eq: "s = raw\<lparr>tripId := i, tripCaveats := caveats, tripPlan := plan, tripProducts := ps, tripItems := items, tripNavigation := route\<rparr>"
  have "parseAll nonEmptyStringSchema caveats = Some caveats" by (rule parseAll_idem [OF p(2)]) (rule nonEmptyStringSchema_idem)
  moreover have "parseAll exactProductPlanApiProductSummarySchema ps = Some ps" by (rule parseAll_idem [OF p(4)]) (rule productSummary_idem(1))
  moreover have "parseAll itemSchema items = Some items" by (rule parseAll_idem [OF p(5)]) (rule item)
  ultimately show ?thesis using r identifierSchema_idem [OF p(1)] planResultV2_idem [OF p(3)] nav [OF p(6)]
    by (simp add: tripObjectSchema_def eq)
qed

section \<open>Reviewed evidence\<close>

lemma assignmentReference_idem:
  assumes "exactProductPlanApiAssignmentEvidenceSchema a = Some b"
  shows "exactProductPlanApiAssignmentEvidenceSchema b = Some b"
proof -
  obtain p n e c where parts: "identifierSchema (assignedPlanId a) = Some p" "identifierSchema (assignedNeedId a) = Some n"
      "identifierSchema (assignedEvidenceId a) = Some e" "assignmentConditionSchema (assignedConditions a) = Some c"
    and b: "b = a\<lparr>assignedPlanId := p, assignedNeedId := n, assignedEvidenceId := e, assignedConditions := c\<rparr>"
    using assms by (auto simp: exactProductPlanApiAssignmentEvidenceSchema_def split: option.splits)
  have "assignmentConditionSchema c = Some c" using parts(4) identifierSchema_idem by (cases "assignedConditions a") auto
  then show ?thesis using identifierSchema_idem [OF parts(1)] identifierSchema_idem [OF parts(2)] identifierSchema_idem [OF parts(3)]
    by (simp add: exactProductPlanApiAssignmentEvidenceSchema_def b)
qed

lemma membership_idem:
  assumes "reviewedFamilyPublicMembershipEvidenceSchema a = Some b"
  shows "reviewedFamilyPublicMembershipEvidenceSchema b = Some b"
proof (cases "memberMethod a")
  case HumanReview
  then obtain p where p: "identifierSchema (memberProductId a) = Some p" and b: "b = a\<lparr>memberProductId := p, memberMethod := HumanReview\<rparr>"
    and r: "membershipDecisionShape (memberDecisionId a)" "familyIdentifierSchema (memberFamilyId a)" "canonicalTimestamp (memberReviewedAt a)"
    using assms by (auto simp: reviewedFamilyPublicMembershipEvidenceSchema_def split: option.splits if_splits)
  show ?thesis using r identifierSchema_idem [OF p] by (simp add: reviewedFamilyPublicMembershipEvidenceSchema_def b)
next
  case (DeterministicRule t)
  then obtain p u where p: "identifierSchema (memberProductId a) = Some p" "nonEmptyStringSchema t = Some u"
    and b: "b = a\<lparr>memberProductId := p, memberMethod := DeterministicRule u\<rparr>"
    and r: "membershipDecisionShape (memberDecisionId a)" "familyIdentifierSchema (memberFamilyId a)" "canonicalTimestamp (memberReviewedAt a)"
    using assms by (auto simp: reviewedFamilyPublicMembershipEvidenceSchema_def split: option.splits if_splits)
  show ?thesis using r identifierSchema_idem [OF p(1)] nonEmptyStringSchema_idem [OF p(2)]
    by (simp add: reviewedFamilyPublicMembershipEvidenceSchema_def b)
qed

lemma productClaim_idem:
  assumes "reviewedFamilyProductClaimSchema a = Some b"
  shows "reviewedFamilyProductClaimSchema b = Some b"
proof -
  obtain i p where parts: "identifierSchema (claimProductId a) = Some i" "exactProductPlanApiProductSummarySchema (claimProduct a) = Some p"
    and b: "b = \<lparr>claimProductId = i, claimProduct = p\<rparr>"
    using assms by (auto simp: reviewedFamilyProductClaimSchema_def split: option.splits)
  show ?thesis using identifierSchema_idem [OF parts(1)] productSummary_idem(1) [OF parts(2)] by (simp add: reviewedFamilyProductClaimSchema_def b)
qed

lemma descriptor_idem:
  assumes "reviewedFamilyDescriptorSchema a = Some b"
  shows "reviewedFamilyDescriptorSchema b = Some b"
proof -
  obtain l where p: "boundedText 1 160 (reviewedLabel a) = Some l" and b: "b = a\<lparr>reviewedLabel := l\<rparr>"
    and r: "familyIdentifierSchema (reviewedId a)" "familySlugSchema (reviewedSlug a)" "list_all familyAliasSchema (reviewedAliases a)"
      "length (reviewedAliases a) \<le> 20" "optionally familyIdentifierSchema (reviewedParent a)" "hasUniqueStrings (reviewedAliases a)"
    using assms by (auto simp: reviewedFamilyDescriptorSchema_def split: option.splits if_splits)
  show ?thesis using r boundedText_idem [OF p] by (simp add: reviewedFamilyDescriptorSchema_def b)
qed

lemma details_idem:
  assumes "familyDetailsSchema h a = Some b"
  shows "familyDetailsSchema h b = Some b"
proof (cases "reviewedFamilyDescriptorSchema (detailFamily a)")
  case (Some f)
  then have "b = a\<lparr>detailFamily := f\<rparr>" using assms by (auto simp: familyDetailsSchema_def split: if_splits)
  then show ?thesis using assms descriptor_idem [OF Some] by (auto simp: familyDetailsSchema_def Some split: if_splits)
qed (use assms in \<open>simp add: familyDetailsSchema_def\<close>)

lemma needMatch_idem:
  assumes "reviewedFamilyNeedMatchV2Schema h a = Some b"
  shows "reviewedFamilyNeedMatchV2Schema h b = Some b"
    and "\<And>d. matchDetails b = Some d \<Longrightarrow> optionally (canonicalReviewedFamilyAllowedBrandsSchema h) (detailBrands d)"
proof -
  obtain n cs ds where parts: "identifierSchema (matchNeedId a) = Some n" "parseAll identifierSchema (matchCandidates a) = Some cs"
      "parseOptional (familyDetailsSchema h) (matchDetails a) = Some ds"
    and r: "case matchDetails a of None \<Rightarrow> length cs = 1 | Some _ \<Rightarrow> 1 \<le> length cs \<and> length cs \<le> 50"
    and b: "b = \<lparr>matchNeedId = n, matchCandidates = cs, matchDetails = ds\<rparr>"
    using assms by (auto simp: reviewedFamilyNeedMatchV2Schema_def simp del: parseOptional.simps split: option.splits if_splits)
  have same: "(case ds of None \<Rightarrow> length cs = 1 | Some _ \<Rightarrow> 1 \<le> length cs \<and> length cs \<le> 50)"
    using r parts(3) unfolding parseOptional_Some by (auto split: option.splits)
  have ds: "parseOptional (familyDetailsSchema h) ds = Some ds" by (rule parseOptional_idem [OF parts(3)]) (rule details_idem)
  then show "reviewedFamilyNeedMatchV2Schema h b = Some b"
    using same identifierSchema_idem [OF parts(1)] parseAll_identifier_idem [OF parts(2)] by (simp add: reviewedFamilyNeedMatchV2Schema_def b)
  show "optionally (canonicalReviewedFamilyAllowedBrandsSchema h) (detailBrands d)" if "matchDetails b = Some d" for d
    using ds that by (auto simp: b familyDetailsSchema_def split: option.splits if_splits)
qed

lemma market_idem: "marketContextV1Schema m = Some n \<Longrightarrow> marketContextV1Schema n = Some n"
  by (cases m) (auto split: if_splits)

text \<open>Brands that were admitted and are canonical are admitted unchanged.\<close>

lemma brands_fixed:
  assumes raw: "reviewedFamilyAllowedBrandsInputSchema h raw = Some brands" and canonical: "canonicalReviewedFamilyAllowedBrandsSchema h brands"
  shows "reviewedFamilyAllowedBrandsInputSchema h brands = Some brands"
proof -
  obtain parsed where p: "parseAll (reviewedFamilyAllowedBrandInputSchema h) raw = Some parsed" and b: "brands = canonicalStrings parsed"
    using raw by (auto simp: reviewedFamilyAllowedBrandsInputSchema_def split: option.splits if_splits)
  have "reviewedFamilyAllowedBrandInputSchema h x = Some x" if x: "x \<in> set brands" for x
  proof -
    have "x \<in> set parsed" using x by (simp add: b canonicalStrings_def)
    then obtain y where "reviewedFamilyAllowedBrandInputSchema h y = Some x" using parseAll_in [OF p] by blast
    then have "\<not> list_ex controlOrFormat x" by (auto simp: reviewedFamilyAllowedBrandInputSchema_def Let_def split: if_splits)
    moreover have "1 \<le> length x" "length x \<le> 120" "normalizeReviewedFamilyAllowedBrand h x = x"
      using canonical x by (auto simp: canonicalReviewedFamilyAllowedBrandsSchema_def canonicalReviewedFamilyAllowedBrandSchema_def list_all_iff)
    ultimately show ?thesis by (simp add: reviewedFamilyAllowedBrandInputSchema_def)
  qed
  then have "parseAll (reviewedFamilyAllowedBrandInputSchema h) brands = Some brands" by (simp add: parseAll_fixed)
  moreover have "canonicalStrings brands = brands"
    using canonical by (simp add: canonicalStrings_def canonicalReviewedFamilyAllowedBrandsSchema_def)
  ultimately show ?thesis using canonical by (simp add: reviewedFamilyAllowedBrandsInputSchema_def canonicalReviewedFamilyAllowedBrandsSchema_def)
qed

lemma need_fixed:
  assumes raw: "mixedNeedSchema h raw = Some n"
    and brands: "\<And>bs c v f. apiNeedMatch n = ReviewedFamilyMatch (Some bs) c v f \<Longrightarrow> canonicalReviewedFamilyAllowedBrandsSchema h bs"
  shows "mixedNeedSchema h n = Some n"
proof (cases "exactProductPlanApiNeedSchema raw")
  case (Some m)
  then obtain i g where "identifierSchema (apiNeedId raw) = Some i" "exactProductPlanApiMatchSchema (apiNeedMatch raw) = Some g"
      "positiveSafeInteger (apiNeedQuantity raw)" and n: "n = raw\<lparr>apiNeedId := i, apiNeedMatch := g\<rparr>"
    using raw by (auto simp: mixedNeedSchema_def exactProductPlanApiNeedSchema_def apiNeedSchema_def split: option.splits if_splits)
  moreover have "exactProductPlanApiMatchSchema g = Some g" using calculation(2) gtinSchema_idem by (cases "apiNeedMatch raw") auto
  ultimately show ?thesis using identifierSchema_idem
    by (auto simp: mixedNeedSchema_def exactProductPlanApiNeedSchema_def apiNeedSchema_def)
next
  case None
  then have "reviewedFamilyPlanApiNeedSchema h raw = Some n" using raw by (simp add: mixedNeedSchema_def)
  then obtain i m where p: "identifierSchema (apiNeedId raw) = Some i" "reviewedFamilyPlanApiMatchSchema h (apiNeedMatch raw) = Some m"
      "positiveSafeInteger (apiNeedQuantity raw)" and n: "n = raw\<lparr>apiNeedId := i, apiNeedMatch := m\<rparr>"
    by (auto simp: reviewedFamilyPlanApiNeedSchema_def apiNeedSchema_def split: option.splits if_splits)
  obtain bs c v f as where m: "m = ReviewedFamilyMatch bs c v f" "candidateSetIdShape c" "taxonomyVersionIdShape v" "familyIdentifierSchema f"
      "parseOptional (reviewedFamilyAllowedBrandsInputSchema h) as = Some bs"
    using p(2) by (cases "apiNeedMatch raw") (auto simp del: parseOptional.simps split: option.splits if_splits)
  have "parseOptional (reviewedFamilyAllowedBrandsInputSchema h) bs = Some bs"
  proof (cases bs)
    case (Some b)
    then obtain a where "reviewedFamilyAllowedBrandsInputSchema h a = Some b" using m(5) unfolding parseOptional_Some by (auto split: option.splits)
    then have "reviewedFamilyAllowedBrandsInputSchema h b = Some b" by (rule brands_fixed) (rule brands, simp add: n m(1) Some)
    then show ?thesis by (simp add: Some)
  qed simp
  then have "reviewedFamilyPlanApiMatchSchema h m = Some m" using m by simp
  moreover have "exactProductPlanApiMatchSchema m = None" by (simp add: m(1))
  ultimately show ?thesis using p(3) identifierSchema_idem [OF p(1)]
    by (simp add: mixedNeedSchema_def exactProductPlanApiNeedSchema_def reviewedFamilyPlanApiNeedSchema_def apiNeedSchema_def n)
qed

lemma accepted_brands:
  assumes trip: "tripSnapshotV2Schema h raw = Some s" and e: "tripReviewed s = Some e" and r: "tripReviewedFamilyEvidenceV2Schema h r = Some e"
    and n: "n \<in> set (apiNeeds (reviewedRequest e))" "apiNeedMatch n = ReviewedFamilyMatch (Some bs) c v f"
  shows "canonicalReviewedFamilyAllowedBrandsSchema h bs"
proof -
  have refined: "refineReviewedFamilyEvidence s" using tripV2_accepted(2) [OF trip] by (simp add: tripSnapshotV2Refinement_def)
  note facts = reviewed_facts [OF refined e] and parts = reviewed_parts [OF trip e]
  have "apiNeedId n \<in> a2NeedId ` set (p2Assignments (tripPlan s))"
    using sortedText_set [OF facts(4)] n(1) unfolding byKey_keys by blast
  then obtain a where a: "a \<in> set (p2Assignments (tripPlan s))" "a2NeedId a = apiNeedId n" by auto
  obtain n' where n': "n' \<in> set (apiNeeds (reviewedRequest e))" "keepsRequest e a n'" using checked_choice(2) [OF facts(7) [OF a(1)] parts(3)] by blast
  have "inj_on apiNeedId (set (apiNeeds (reviewedRequest e)))" using parts(3) by (simp add: distinct_map)
  then have "n' = n" using n' n(1) a(2) by (auto simp: keepsRequest_def dest: inj_onD)
  then obtain m d where m: "m \<in> set (reviewedMatches e)" "matchDetails m = Some d" "detailBrands d = Some bs"
    using n'(2) n(2) by (auto simp: keepsRequest_def)
  have matched: "parseAll (reviewedFamilyNeedMatchV2Schema h) (reviewedMatches r) = Some (reviewedMatches e)"
    using r by (auto simp: tripReviewedFamilyEvidenceV2Schema_def split: option.splits if_splits)
  obtain x where "reviewedFamilyNeedMatchV2Schema h x = Some m" using parseAll_in [OF matched m(1)] by blast
  from needMatch_idem(2) [OF this m(2)] m(3) show ?thesis by simp
qed

lemma reviewed_fixed:
  assumes trip: "tripSnapshotV2Schema h raw = Some s" and e: "tripReviewed s = Some e"
  shows "tripReviewedFamilyEvidenceV2Schema h e = Some e"
proof -
  obtain r where r: "tripReviewedFamilyEvidenceV2Schema h r = Some e" using reviewed_parts(4) [OF trip e] by blast
  obtain as memberships needMatches offers prices claims request where
    p: "parseAll exactProductPlanApiAssignmentEvidenceSchema (reviewedAssignments r) = Some as"
      "parseAll reviewedFamilyPublicMembershipEvidenceSchema (reviewedMemberships r) = Some memberships"
      "parseAll (reviewedFamilyNeedMatchV2Schema h) (reviewedMatches r) = Some needMatches"
      "parseAll officialOfferSchema (reviewedOffers r) = Some offers" "parseAll priceEvidenceSchema (reviewedPrices r) = Some prices"
      "parseAll reviewedFamilyProductClaimSchema (reviewedClaims r) = Some claims"
      "reviewedFamilyPlanApiRequestV2Schema h (reviewedRequest r) = Some request"
    and sizes: "1 \<le> length as" "length as \<le> 50" "length memberships \<le> 50" "1 \<le> length needMatches" "length needMatches \<le> 50"
      "length offers \<le> 50" "1 \<le> length prices" "length prices \<le> 50" "1 \<le> length claims" "length claims \<le> 50"
      "reviewedFamilyPublicTaxonomyEvidenceSchema (reviewedTaxonomy r)"
    and eq: "e = \<lparr>reviewedAssignments = as, reviewedMemberships = memberships, reviewedMatches = needMatches, reviewedOffers = offers,
        reviewedPrices = prices, reviewedClaims = claims, reviewedRequest = request, reviewedTaxonomy = reviewedTaxonomy r\<rparr>"
    using r by (auto simp: tripReviewedFamilyEvidenceV2Schema_def split: option.splits if_splits)
  note q = apiRequest_parts [OF p(7) [unfolded reviewedFamilyPlanApiRequestV2Schema_def]]
  have "mixedNeedSchema h n = Some n" if n: "n \<in> set (apiNeeds request)" for n
  proof -
    obtain x where "mixedNeedSchema h x = Some n" using parseAll_in [OF q(1) n] by blast
    then show ?thesis by (rule need_fixed) (rule accepted_brands [OF trip e r], use n in \<open>simp_all add: eq\<close>)
  qed
  then have "parseAll (mixedNeedSchema h) (apiNeeds request) = Some (apiNeeds request)" by (simp add: parseAll_fixed)
  then have "reviewedFamilyPlanApiRequestV2Schema h request = Some request"
    using q(2-7) market_idem [OF q(3)] by (simp add: reviewedFamilyPlanApiRequestV2Schema_def apiRequestSchema_def)
  moreover have "parseAll exactProductPlanApiAssignmentEvidenceSchema as = Some as" by (rule parseAll_idem [OF p(1)]) (rule assignmentReference_idem)
  moreover have "parseAll reviewedFamilyPublicMembershipEvidenceSchema memberships = Some memberships" by (rule parseAll_idem [OF p(2)]) (rule membership_idem)
  moreover have "parseAll (reviewedFamilyNeedMatchV2Schema h) needMatches = Some needMatches" by (rule parseAll_idem [OF p(3)]) (rule needMatch_idem(1))
  moreover have "parseAll officialOfferSchema offers = Some offers" by (rule parseAll_idem [OF p(4)]) (rule officialOfferSchema_idem)
  moreover have "parseAll priceEvidenceSchema prices = Some prices" by (rule parseAll_idem [OF p(5)]) (rule priceEvidenceSchema_idem)
  moreover have "parseAll reviewedFamilyProductClaimSchema claims = Some claims" by (rule parseAll_idem [OF p(6)]) (rule productClaim_idem)
  ultimately show ?thesis using sizes by (simp add: tripReviewedFamilyEvidenceV2Schema_def eq)
qed

lemma tripV2_object_fixed:
  assumes trip: "tripSnapshotV2Schema h raw = Some s"
  shows "tripSnapshotV2ObjectSchema h s = Some s"
proof -
  have o: "tripSnapshotV2ObjectSchema h raw = Some s" using trip by (auto simp: tripSnapshotV2Schema_def split: option.splits if_splits)
  then obtain p a m e where p: "tripObjectSchema tripChecklistItemV2Schema tripNavigationV2Schema raw = Some p"
      "parseOptional geographicDirectoryRegionAttestationV1Schema (tripAttestation raw) = Some a" "marketContextV1Schema (tripMarket raw) = Some m"
      "parseOptional (tripReviewedFamilyEvidenceV2Schema h) (tripReviewed raw) = Some e" "enabledMembershipProgramIdsSchema (tripMemberships raw)"
      and s: "s = p\<lparr>tripAttestation := a, tripMarket := m, tripReviewed := e\<rparr>"
    by (auto simp: tripSnapshotV2ObjectSchema_def simp del: parseOptional.simps split: option.splits if_splits)
  have memberships: "tripMemberships p = tripMemberships raw" by (rule tripObject_parts [OF p(1)]) simp
  have "tripObjectSchema tripChecklistItemV2Schema tripNavigationV2Schema p = Some p"
    by (rule tripObject_idem [OF p(1)]) (auto intro: checklistItemV2_idem(1) tripNavigation_idem(2))
  then have "tripObjectSchema tripChecklistItemV2Schema tripNavigationV2Schema s = Some s"
    unfolding tripObjectSchema_def s by (cases p) (auto split: option.splits if_splits)
  moreover have "parseOptional geographicDirectoryRegionAttestationV1Schema a = Some a" by (rule parseOptional_idem [OF p(2)]) (rule attestation_idem)
  moreover have "parseOptional (tripReviewedFamilyEvidenceV2Schema h) e = Some e"
    using reviewed_fixed [OF trip] by (cases e) (simp_all add: s)
  ultimately show ?thesis using market_idem [OF p(3)] p(5) memberships
    by (simp add: tripSnapshotV2ObjectSchema_def) (simp add: s)
qed

text \<open>A stored trip of version 1 whose caveat the schema trims.\<close>

definition exampleStoredTrip :: "string \<Rightarrow> trip_item trip" where
  "exampleStoredTrip caveat = \<lparr>tripId = ''trip'', tripCreatedAt = ''2026-07-16T12:05:00.000Z'', tripEvaluatedAt = ''2026-07-16T12:00:00.000Z'',
     tripExpiresAt = ''2026-07-18T00:00:00.000Z'', tripCaveats = [caveat], tripPlan = exampleTripPlan, tripProducts = [exampleTripProduct],
     tripItems = [\<lparr>itemId = ''check:a6f81842eb6affe3'', itemNeedId = ''n1'', itemProductId = ''milk'', itemGtin = ''7038010000010'',
       itemChain = Extra, itemLabel = ''Melk''\<rparr>],
     tripNavigation = PriceOnlyNavigation [\<lparr>chainStopChain = Extra, chainStopName = ''Extra''\<rparr>]\<rparr>"

lemma exampleStoredTrip_accepted: "tripSnapshotV1Schema (exampleStoredTrip '' Husk pant '') = Some (exampleStoredTrip ''Husk pant'')"
proof -
  have "refineTripSnapshotCore (exampleStoredTrip ''Husk pant'')" by code_simp
  moreover have "identifierSchema ''trip'' = Some ''trip''" "canonicalTimestamp ''2026-07-16T12:05:00.000Z''"
    "canonicalTimestamp ''2026-07-16T12:00:00.000Z''" "canonicalTimestamp ''2026-07-18T00:00:00.000Z''"
    "tripNavigationV1Schema (PriceOnlyNavigation [\<lparr>chainStopChain = Extra, chainStopName = ''Extra''\<rparr>])
      = Some (PriceOnlyNavigation [\<lparr>chainStopChain = Extra, chainStopName = ''Extra''\<rparr>])"
    "nonEmptyStringSchema '' Husk pant '' = Some ''Husk pant''"
    "tripChecklistItemV1Schema \<lparr>itemId = ''check:a6f81842eb6affe3'', itemNeedId = ''n1'', itemProductId = ''milk'', itemGtin = ''7038010000010'',
       itemChain = Extra, itemLabel = ''Melk''\<rparr> = Some \<lparr>itemId = ''check:a6f81842eb6affe3'', itemNeedId = ''n1'', itemProductId = ''milk'',
       itemGtin = ''7038010000010'', itemChain = Extra, itemLabel = ''Melk''\<rparr>" by code_simp+
  ultimately show ?thesis
    by (simp add: tripSnapshotV1Schema_def tripObjectSchema_def exampleStoredTrip_def exampleTrip_plan exampleTrip_product)
qed

text \<open>
  C40. A stored trip reads back as itself: whatever trip either version of the schema admits, the same schema admits the result again and
  leaves it as it is, whatever the runtime's lowercasing does to brands.
\<close>

theorem trip_roundtrip:
  assumes "tripSnapshotSchema h t = Some u"
  shows "tripSnapshotSchema h u = Some u"
proof (cases t)
  case (TripV1 raw)
  then obtain s where u: "u = TripV1 s" and o: "tripObjectSchema tripChecklistItemV1Schema tripNavigationV1Schema raw = Some s" "refineTripSnapshotCore s"
    using assms by (auto simp: tripSnapshotV1Schema_def split: option.splits if_splits)
  have "tripObjectSchema tripChecklistItemV1Schema tripNavigationV1Schema s = Some s"
    by (rule tripObject_idem [OF o(1)]) (auto intro: checklistItem_idem tripNavigation_idem(1))
  then show ?thesis using o(2) by (simp add: u tripSnapshotV1Schema_def)
next
  case (TripV2 raw)
  then obtain s where u: "u = TripV2 s" and s: "tripSnapshotV2Schema h raw = Some s" using assms by auto
  then have "tripSnapshotV2Refinement s" by (auto simp: tripSnapshotV2Schema_def split: option.splits if_splits)
  then show ?thesis using tripV2_object_fixed [OF s] by (simp add: u tripSnapshotV2Schema_def)
qed

theorem trip_roundtrip_witness:
  "exampleStoredTrip '' Husk pant '' \<noteq> exampleStoredTrip ''Husk pant''
   \<and> (\<forall>h. tripSnapshotSchema h (TripV1 (exampleStoredTrip ''Husk pant'')) = Some (TripV1 (exampleStoredTrip ''Husk pant'')))
   \<and> (\<forall>h. tripSnapshotSchema h (TripV2 exampleFamilyTrip) = Some (TripV2 exampleFamilyTrip))"
proof (intro conjI allI)
  show "exampleStoredTrip '' Husk pant '' \<noteq> exampleStoredTrip ''Husk pant''" by (simp add: exampleStoredTrip_def)
  show "tripSnapshotSchema h (TripV1 (exampleStoredTrip ''Husk pant'')) = Some (TripV1 (exampleStoredTrip ''Husk pant''))" for h
    by (rule trip_roundtrip [of _ "TripV1 (exampleStoredTrip '' Husk pant '')"]) (simp add: exampleStoredTrip_accepted)
  show "tripSnapshotSchema h (TripV2 exampleFamilyTrip) = Some (TripV2 exampleFamilyTrip)" for h
    by (rule trip_roundtrip [of _ "TripV2 exampleFamilyTrip"]) (simp add: exampleFamilyTrip_accepted)
qed

end
