(* ===== verification/Spec2Isabelle.thy ===== *)
theory Spec2Isabelle
  imports Prelude Timestamps Contract_Primitives Catalog Fulfilment_Contract Contracts Price_Eligibility
    Matching Fulfilment Planner Planner_Correct Geography
    Evidence Offers Checkout Travel Route_Order
    Text_Shapes Family_Taxonomy Market_Context Plan_Contracts Frontier_Core Frontier
    Planner_V2_Contracts Planner_V2 Planner_V2_Correct Frontier_V2 Impact_Planner Coverage History Plan_Delta
    Plan_Delta_Frontier Plan_Delta_Evidence Plan_Delta_Truth Plan_Delta_Text Plan_Delta_Correct
    Plan_Api Trip Trip_Contract Trip_Correct Trip_Create Trip_Reviewed Trip_Roundtrip
begin

text \<open>
  A model of the domain package of Handleplan (\<open>packages/domain/src\<close>), the part of the program that decides what a
  shopping plan is, what it costs and what may be claimed about it. The web application, the worker and the database
  package call these functions; nothing in them reads a clock, a network or a database, so the model is a set of pure
  functions, translated file by file and operation by operation.

  \<^bold>\<open>The program's parts and the theories that model them.\<close>

  \<^item> Scalars and contracts. \<open>Prelude\<close> holds what the components share: comparators and the stable sort, JavaScript maps,
    sets and \<open>unknown\<close> values, schema combinators, dominance. \<open>Timestamps\<close> reads, prints and orders instants.
    \<open>Contract_Primitives\<close>, \<open>Catalog\<close>, \<open>Contracts\<close>, \<open>Fulfilment_Contract\<close>, \<open>Planner_V2_Contracts\<close>, \<open>Plan_Contracts\<close>,
    \<open>Travel\<close> and \<open>Text_Shapes\<close> are the schemas of the files of like name (\<open>contract-primitives.ts\<close>, \<open>catalog.ts\<close>,
    \<open>contracts.ts\<close>, \<open>fulfilment-contract.ts\<close>, \<open>planner-v2-contracts.ts\<close>, \<open>plan-contracts.ts\<close>, \<open>travel-contracts.ts\<close>) and the
    text patterns of the taxonomy.
  \<^item> Where and when. \<open>Geography\<close> (\<open>geography.ts\<close>) decides whether a scope applies to a location and rehydrates region
    attestations; \<open>Market_Context\<close> (\<open>market-context.ts\<close>) gives the location of a market; \<open>Price_Eligibility\<close>
    (\<open>price-eligibility.ts\<close>), \<open>Evidence\<close> (\<open>evidence.ts\<close>) and \<open>Offers\<close> (\<open>offers.ts\<close>) admit prices and official offers.
  \<^item> What to buy. \<open>Matching\<close> (\<open>matching.ts\<close>) finds the products of a need, \<open>Fulfilment\<close> and \<open>Checkout\<close>
    (\<open>fulfilment.ts\<close>) the whole packages and their price with an offer.
  \<^item> Plans. \<open>Planner\<close> (\<open>planner.ts\<close>) and \<open>Planner_V2\<close> (\<open>planner-v2.ts\<close>) enumerate the sets of chains, buy every need
    at the cheapest admissible observation, deduplicate and keep the undominated plans; \<open>Planner_Correct\<close> and
    \<open>Planner_V2_Correct\<close> hold their theorems. \<open>Frontier_Core\<close>, \<open>Frontier\<close> (\<open>frontier.ts\<close>) and \<open>Frontier_V2\<close>
    (\<open>frontier-v2.ts\<close>) attach travel, select representatives and explain differences; \<open>Route_Order\<close>
    (\<open>route-order.ts\<close>) orders the stops. \<open>Impact_Planner\<close> (\<open>discovery-impact-planner.ts\<close> and the actions of
    \<open>discovery-impact-contracts.ts\<close>) changes one need of a planning input and plans again.
  \<^item> Claims. \<open>Family_Taxonomy\<close> (\<open>family-taxonomy.ts\<close>), \<open>Coverage\<close> (\<open>coverage.ts\<close>), which says what is known of each chain,
    \<open>History\<close> (\<open>history.ts\<close>), which derives and verifies the claim that a price lies below its 30-day median, and
    \<open>Plan_Delta\<close> (\<open>plan-delta-explanations.ts\<close>, \<open>money.ts\<close>), which explains how each plan differs from the first. Its theorems
    are in \<open>Plan_Delta_Frontier\<close> (the plans are a frontier), \<open>Plan_Delta_Evidence\<close> (the evidence of each assignment),
    \<open>Plan_Delta_Truth\<close> (what an entry says is true), \<open>Plan_Delta_Text\<close> (the texts fit) and \<open>Plan_Delta_Correct\<close>.
  \<^item> Trips. \<open>Plan_Api\<close> holds the parts of \<open>plan-api-contracts.ts\<close> and \<open>reviewed-family-plan-api-contracts.ts\<close> that a trip
    carries: requests, product summaries, claims, needs with their matches, memberships. \<open>Trip\<close> (\<open>trip-snapshot.ts\<close>) is the
    snapshot of a plan a shopper takes along, in both versions: its schemas, its refinements, and its construction from a plan
    and the evidence of each purchase. \<open>Trip_Contract\<close> shows that the schemas return what they accept again; the theorems are in
    \<open>Trip_Correct\<close> (prices and bills), \<open>Trip_Create\<close> (when a plan can be taken along), \<open>Trip_Reviewed\<close> (substitutions) and
    \<open>Trip_Roundtrip\<close> (storing and reading back).

  \<^bold>\<open>What the lemmas show.\<close> For each component there is a specification independent of its loops: a purchase of all needs
  (\<open>completePurchase\<close>, \<open>completePurchase2\<close>), the usable evidence (\<open>usableEvidence\<close>), the basis of a claim (\<open>claimBasis\<close>), an
  explainable comparison (\<open>explainable\<close>, \<open>entryTrue\<close>), a trip's evidence at any later instant (\<open>asOf\<close>), the
  reviewed family choice (\<open>keepsRequest\<close>, \<open>familyChoice\<close>), a declarative choice among evidence (\<open>bestEvidence\<close>,
  \<open>explainedFirst\<close>), offers or plans, what a rule asks of a product (\<open>satisfies\<close>), which packages meet a request (\<open>packagesFor\<close>) and
  the first defect of unusable evidence (\<open>defectStatus\<close>). The properties say that the code meets it:
  planners return only purchases of all needs, miss none that is cheaper with no more chains (the second one but for purchases that share an identity text,
  \<open>identityClash\<close>), and return a sorted frontier;
  admission functions accept exactly the usable evidence; selections are optimal; results that a function passes through
  its own schema are never rejected by it, or exactly when stated; what was derived can be verified.
  The interfaces between them are locales, each interpreted on the code's own functions: \<open>comparator\<close>, \<open>keyed_store\<close> and
  \<open>dominance\<close> (\<open>Prelude\<close>) for orders, maps and dominance relations, \<open>purchasing\<close> (\<open>Planner_V2_Correct\<close>) for buying
  each need at its cheapest option within a set of chains, \<open>candidate_source\<close> (\<open>Frontier_Core\<close>) for the plans of either
  frontier, and \<open>ranked\<close> (\<open>Coverage\<close>) for choosing by specificity and recency.

  \<^bold>\<open>How TypeScript is read.\<close>

  \<^item> A zod schema is a function to \<open>option\<close> (it may trim or reorder) or, where it returns its input, a predicate. Fields with a
    literal value are left out of the records. A value of type \<open>unknown\<close> is \<open>Malformed\<close> or \<open>Shaped\<close>: whether
    it has the fields and JavaScript types the schema asks for; what a strict object schema refuses as an extra key is
    \<open>Malformed\<close>.
  \<^item> Integers that a schema bounds by \<open>Number.MAX_SAFE_INTEGER\<close>, and BigInt, are \<open>int\<close>; the safe-integer checks of the code are
    written out. Quantities that may be fractional are rationals. The 32-bit hash of plan identities uses \<open>32 word\<close>,
    the 64-bit hash of checklist identifiers \<open>64 word\<close>.
  \<^item> Strings are \<open>string\<close>, whose characters are the UTF-16 code units up to 255; on these NFC is the identity.
    \<open>toLocaleLowerCase\<close>, \<open>localeCompare\<close> and the text of a fractional number come from the JavaScript runtime: they are the
    fields of a record \<open>host\<close> that the functions take as a parameter, with no law assumed; the texts of \<open>Intl.NumberFormat\<close>
    are the record \<open>number_format\<close>, of which \<open>plainFormat\<close> assumes at most 60 characters and no leading white space.
  \<^item> A \<open>Date\<close> is its time value, \<open>None\<close> when invalid; \<open>Date.parse\<close> is \<open>dateParse\<close>, used by the code on canonical timestamps only.
  \<^item> \<open>undefined\<close>, \<open>null\<close> results and absent optional fields are \<open>None\<close>; unions with error reasons are sums or datatypes.
  \<^item> \<open>Map\<close> and \<open>Set\<close> keep insertion order: association lists updated by \<open>AList.update\<close>, and \<open>uniq\<close>. Plain objects used as maps are the
    same; the special keys of objects (\<open>__proto__\<close>, integer-like keys first) are not modelled.
  \<^item> Comparison of parsed values by \<open>JSON.stringify\<close> or by reference within a list without duplicates is equality of values.

  \<^bold>\<open>Bounds and termination.\<close> All functions are total: the enumeration of chain sets, the digits of a number and the
  cycle search of the taxonomy have termination proofs (the measure of the last is the number of unvisited families);
  so has the search for a free identifier (the measure is the number of occupied suffixes left); the other loops are structural. No fuel is used.

  \<^bold>\<open>Not modelled.\<close> Of the wire contracts of the HTTP API, the responses and the candidate inspection
  (\<open>plan-api-contracts.ts\<close>, \<open>reviewed-family-plan-api-contracts.ts\<close>) and the routed plans (\<open>travel-plan-api-contracts.ts\<close>); the
  contracts of ingestion, review and operations, the discovery contracts and the requests and responses of the impact planner: they are
  further schemas and projections over the values modelled here. The database package, the source clients, the worker and the
  web application are input and output around them. \<open>PROJECT.json\<close> lists them all.
\<close>

end
